(* ===== verification/Prelude.thy ===== *)
theory Prelude
  imports Main "HOL-Library.Word"
begin

text \<open>
  Shared vocabulary of the development: identifiers, clocks, results, the part of Rust's
  standard \<open>str\<close> API the modelled code calls, and the two shapes of SQL statement
  (\<open>UPDATE .. WHERE\<close> with its row count, \<open>DELETE .. WHERE\<close>) over a table kept as the
  list of its rows in insertion order.

  Strings are lists of bytes (\<open>char\<close> has 8 bits), as Rust's \<open>str\<close> is a UTF-8 byte
  sequence; \<open>length\<close> is \<open>str::len\<close>. Whitespace is ASCII whitespace: the functions
  below agree with \<open>str::trim\<close> and \<open>str::split_whitespace\<close> on text whose only
  white space is ASCII.
\<close>

named_theorems table_simps \<open>rewrite rules for row-list tables\<close>

subsection \<open>Identifiers, time, results\<close>

text \<open>A \<open>Uuid\<close> is only compared, ordered and printed by the code; a number serves.\<close>

type_synonym uuid = nat

text \<open>\<open>now_ms()\<close>: milliseconds since the epoch, an \<open>i64\<close>.\<close>

type_synonym millis = int

type_synonym ('e, 'a) outcome = "'e + 'a"

fun map_outcome :: "('a \<Rightarrow> 'b) \<Rightarrow> ('e, 'a) outcome \<Rightarrow> ('e, 'b) outcome" where
  "map_outcome f (Inl e) = Inl e"
| "map_outcome f (Inr a) = Inr (f a)"

fun is_ok :: "('e, 'a) outcome \<Rightarrow> bool" where
  "is_ok (Inl e) = False"
| "is_ok (Inr a) = True"

lemma is_ok_iff: "is_ok r \<longleftrightarrow> (\<exists>a. r = Inr a)"
  by (cases r) auto

definition u64_max :: nat where "u64_max = 18446744073709551615"

definition u64_saturating_add :: "nat \<Rightarrow> nat \<Rightarrow> nat" where
  "u64_saturating_add a b = min (a + b) u64_max"

lemma u64_saturating_add_le: "u64_saturating_add a b \<le> u64_max"
  by (simp add: u64_saturating_add_def)

subsection \<open>The \<open>str\<close> functions the code uses\<close>

fun strip_prefix :: "string \<Rightarrow> string \<Rightarrow> string option" where
  "strip_prefix [] s = Some s"
| "strip_prefix (p # ps) [] = None"
| "strip_prefix (p # ps) (c # cs) = (if p = c then strip_prefix ps cs else None)"

definition starts_with :: "string \<Rightarrow> string \<Rightarrow> bool" where
  "starts_with p s \<longleftrightarrow> strip_prefix p s \<noteq> None"

definition strip_suffix :: "string \<Rightarrow> string \<Rightarrow> string option" where
  "strip_suffix p s = map_option rev (strip_prefix (rev p) (rev s))"

definition ends_with :: "string \<Rightarrow> string \<Rightarrow> bool" where
  "ends_with p s \<longleftrightarrow> strip_suffix p s \<noteq> None"

lemma strip_prefix_Some_iff: "strip_prefix p s = Some r \<longleftrightarrow> s = p @ r"
  by (induction p s rule: strip_prefix.induct) auto

lemma strip_prefix_append [simp]: "strip_prefix p (p @ r) = Some r"
  by (simp add: strip_prefix_Some_iff)

lemma starts_with_iff: "starts_with p s \<longleftrightarrow> (\<exists>r. s = p @ r)"
  by (auto simp: starts_with_def strip_prefix_Some_iff)

lemma starts_with_take: "starts_with p s \<longleftrightarrow> length p \<le> length s \<and> take (length p) s = p"
  by (auto simp: starts_with_iff) (metis append_take_drop_id)

lemma strip_suffix_Some_iff: "strip_suffix p s = Some r \<longleftrightarrow> s = r @ p"
  by (auto simp: strip_suffix_def strip_prefix_Some_iff rev_swap)

lemma strip_suffix_append [simp]: "strip_suffix p (r @ p) = Some r"
  by (simp add: strip_suffix_Some_iff)

lemma ends_with_iff: "ends_with p s \<longleftrightarrow> (\<exists>r. s = r @ p)"
  by (auto simp: ends_with_def strip_suffix_Some_iff)

definition ascii_space :: "char \<Rightarrow> bool" where
  "ascii_space c \<longleftrightarrow> c = CHR '' '' \<or> (9 \<le> (of_char c :: nat) \<and> of_char c \<le> (13 :: nat))"

definition ascii_upper :: "char \<Rightarrow> bool" where
  "ascii_upper c \<longleftrightarrow> 65 \<le> (of_char c :: nat) \<and> of_char c \<le> (90 :: nat)"

definition ascii_lower :: "char \<Rightarrow> bool" where
  "ascii_lower c \<longleftrightarrow> 97 \<le> (of_char c :: nat) \<and> of_char c \<le> (122 :: nat)"

definition ascii_digit :: "char \<Rightarrow> bool" where
  "ascii_digit c \<longleftrightarrow> 48 \<le> (of_char c :: nat) \<and> of_char c \<le> (57 :: nat)"

definition ascii_alphanumeric :: "char \<Rightarrow> bool" where
  "ascii_alphanumeric c \<longleftrightarrow> ascii_upper c \<or> ascii_lower c \<or> ascii_digit c"

definition char_to_ascii_lower :: "char \<Rightarrow> char" where
  "char_to_ascii_lower c = (if ascii_upper c then char_of (of_char c + (32 :: nat)) else c)"

definition to_ascii_lowercase :: "string \<Rightarrow> string" where
  "to_ascii_lowercase s = map char_to_ascii_lower s"

definition eq_ignore_ascii_case :: "string \<Rightarrow> string \<Rightarrow> bool" where
  "eq_ignore_ascii_case s t \<longleftrightarrow> to_ascii_lowercase s = to_ascii_lowercase t"

definition trim_start :: "string \<Rightarrow> string" where
  "trim_start s = dropWhile ascii_space s"

definition trim :: "string \<Rightarrow> string" where
  "trim s = rev (dropWhile ascii_space (rev (dropWhile ascii_space s)))"

definition trim_matches :: "(char \<Rightarrow> bool) \<Rightarrow> string \<Rightarrow> string" where
  "trim_matches p s = rev (dropWhile p (rev (dropWhile p s)))"

text \<open>\<open>str::split(c)\<close>: always at least one piece.\<close>

fun split_on :: "char \<Rightarrow> string \<Rightarrow> string list" where
  "split_on d [] = [[]]"
| "split_on d (c # cs) =
     (if c = d then [] # split_on d cs
      else (case split_on d cs of [] \<Rightarrow> [[c]] | p # ps \<Rightarrow> (c # p) # ps))"

lemma split_on_not_Nil [simp]: "split_on d s \<noteq> []"
  by (induction s) (auto split: list.splits)

text \<open>\<open>str::split_whitespace\<close>: the maximal runs of non-space bytes, left to right.\<close>

function split_whitespace :: "string \<Rightarrow> string list" where
  "split_whitespace s =
     (case dropWhile ascii_space s of
        [] \<Rightarrow> []
      | c # cs \<Rightarrow> (c # takeWhile (\<lambda>x. \<not> ascii_space x) cs)
                  # split_whitespace (dropWhile (\<lambda>x. \<not> ascii_space x) cs))"
  by pat_completeness auto
termination
proof (relation "measure length", goal_cases)
  case 1
  then show ?case by simp
next
  case (2 s c cs)
  have "length (dropWhile (\<lambda>x. \<not> ascii_space x) cs) \<le> length cs"
    by (rule length_dropWhile_le)
  moreover have "length (c # cs) \<le> length s"
    using 2 length_dropWhile_le [of ascii_space s] by simp
  ultimately show ?case by simp
qed

declare split_whitespace.simps [simp del]

text \<open>\<open>[String]::join(sep)\<close>.\<close>

fun join :: "string \<Rightarrow> string list \<Rightarrow> string" where
  "join sep [] = []"
| "join sep [x] = x"
| "join sep (x # y # ys) = x @ sep @ join sep (y # ys)"

text \<open>\<open>str::replace\<close> of one byte by one byte.\<close>

definition replace_char :: "char \<Rightarrow> char \<Rightarrow> string \<Rightarrow> string" where
  "replace_char a b s = map (\<lambda>c. if c = a then b else c) s"

text \<open>Decimal printing of an unsigned integer (\<open>format!\<close> of an integer).\<close>

fun decimal :: "nat \<Rightarrow> string" where
  "decimal n = (if n < 10 then [char_of (48 + n)]
                else decimal (n div 10) @ [char_of (48 + n mod 10)])"

declare decimal.simps [simp del]

definition decimal_int :: "int \<Rightarrow> string" where
  "decimal_int i = (if i < 0 then CHR ''-'' # decimal (nat (- i)) else decimal (nat i))"

lemma trim_Nil [simp]: "trim [] = []"
  by (simp add: trim_def)

subsection \<open>Splitting and joining\<close>

definition is_word :: "string \<Rightarrow> bool" where
  "is_word w \<longleftrightarrow> w \<noteq> [] \<and> list_all (\<lambda>c. \<not> ascii_space c) w"

lemma is_word_not_Nil: "is_word w \<Longrightarrow> w \<noteq> []"
  by (simp add: is_word_def)

lemma split_whitespace_Nil [simp]: "split_whitespace [] = []"
  by (subst split_whitespace.simps) simp

lemma split_whitespace_blank:
  "dropWhile ascii_space s = [] \<Longrightarrow> split_whitespace s = []"
  by (simp only: split_whitespace.simps [of s] list.case)

lemma split_whitespace_word:
  "dropWhile ascii_space s = c # cs \<Longrightarrow>
   split_whitespace s = (c # takeWhile (\<lambda>x. \<not> ascii_space x) cs)
                        # split_whitespace (dropWhile (\<lambda>x. \<not> ascii_space x) cs)"
  by (subst split_whitespace.simps) simp

lemma is_word_takeWhile:
  "\<not> ascii_space c \<Longrightarrow> is_word (c # takeWhile (\<lambda>x. \<not> ascii_space x) cs)"
  by (auto simp: is_word_def list_all_iff dest: set_takeWhileD)

lemma split_whitespace_words: "list_all is_word (split_whitespace s)"
proof (induction s rule: split_whitespace.induct)
  case (1 s)
  show ?case
  proof (cases "dropWhile ascii_space s")
    case Nil
    then show ?thesis by (simp add: split_whitespace_blank)
  next
    case (Cons c cs)
    then have "\<not> ascii_space c"
      by (metis hd_dropWhile list.distinct(1) list.sel(1))
    then show ?thesis
      by (simp only: split_whitespace_word [OF Cons] list.pred_inject "1.IH" [OF Cons]
          is_word_takeWhile simp_thms)
  qed
qed

lemma split_whitespace_word_space:
  assumes "is_word w" and "r = [] \<or> ascii_space (hd r)"
  shows "split_whitespace (w @ r) = w # split_whitespace r"
proof -
  obtain c cs where w: "w = c # cs" and c: "\<not> ascii_space c"
    and cs: "list_all (\<lambda>x. \<not> ascii_space x) cs"
    using assms(1) by (cases w) (auto simp: is_word_def)
  have dw: "dropWhile (\<lambda>x. \<not> ascii_space x) (cs @ r) = r"
    using cs assms(2) by (induction cs) (auto simp: list_all_iff, cases r, auto)
  have tw: "takeWhile (\<lambda>x. \<not> ascii_space x) (cs @ r) = cs"
    using cs assms(2) by (induction cs) (auto simp: list_all_iff, cases r, auto)
  have "dropWhile ascii_space (w @ r) = c # (cs @ r)"
    using w c by simp
  from split_whitespace_word [OF this] show ?thesis
    by (simp only: dw tw w append_Cons)
qed

lemma split_whitespace_space: "split_whitespace (CHR '' '' # r) = split_whitespace r"
  by (simp add: split_whitespace.simps [of "CHR '' '' # r"] split_whitespace.simps [of r]
      ascii_space_def)

lemma split_whitespace_join:
  "list_all is_word ws \<Longrightarrow> split_whitespace (join '' '' ws) = ws"
proof (induction ws rule: induct_list012)
  case 1
  then show ?case by simp
next
  case (2 w)
  then show ?case using split_whitespace_word_space [of w "[]"] by simp
next
  case (3 w v ws)
  then have "split_whitespace (w @ CHR '' '' # join '' '' (v # ws))
             = w # split_whitespace (join '' '' (v # ws))"
    by (subst split_whitespace_word_space) (simp_all add: ascii_space_def split_whitespace_space)
  with 3 show ?case by simp
qed

subsection \<open>Tables\<close>

text \<open>
  \<open>UPDATE t SET .. WHERE p\<close>: the new rows and the number of rows changed, which is what
  \<open>rusqlite\<close>'s \<open>execute\<close> returns.
\<close>

definition update_rows :: "('r \<Rightarrow> bool) \<Rightarrow> ('r \<Rightarrow> 'r) \<Rightarrow> 'r list \<Rightarrow> 'r list" where
  "update_rows p f t = map (\<lambda>r. if p r then f r else r) t"

definition count_rows :: "('r \<Rightarrow> bool) \<Rightarrow> 'r list \<Rightarrow> nat" where
  "count_rows p t = length (filter p t)"

definition delete_rows :: "('r \<Rightarrow> bool) \<Rightarrow> 'r list \<Rightarrow> 'r list" where
  "delete_rows p t = filter (\<lambda>r. \<not> p r) t"

lemma length_update_rows [table_simps, simp]: "length (update_rows p f t) = length t"
  by (simp add: update_rows_def)

lemma update_rows_Nil [table_simps, simp]: "update_rows p f [] = []"
  by (simp add: update_rows_def)

lemma update_rows_Cons [table_simps, simp]:
  "update_rows p f (r # t) = (if p r then f r else r) # update_rows p f t"
  by (simp add: update_rows_def)

lemma set_update_rows: "set (update_rows p f t) = (\<lambda>r. if p r then f r else r) ` set t"
  by (simp add: update_rows_def)

lemma map_update_rows_same:
  assumes "\<And>r. k (f r) = k r"
  shows "map k (update_rows p f t) = map k t"
  using assms by (simp add: update_rows_def)

lemma update_rows_none: "(\<And>r. r \<in> set t \<Longrightarrow> \<not> p r) \<Longrightarrow> update_rows p f t = t"
  by (induction t) auto

lemma count_rows_0_iff: "count_rows p t = 0 \<longleftrightarrow> (\<forall>r \<in> set t. \<not> p r)"
  by (auto simp: count_rows_def filter_empty_conv)

lemma count_rows_pos_iff: "0 < count_rows p t \<longleftrightarrow> (\<exists>r \<in> set t. p r)"
  using count_rows_0_iff [of p t] by auto

lemma set_delete_rows [table_simps, simp]: "set (delete_rows p t) = {r \<in> set t. \<not> p r}"
  by (simp add: delete_rows_def)

lemma distinct_map_delete_rows: "distinct (map k t) \<Longrightarrow> distinct (map k (delete_rows p t))"
  by (simp add: delete_rows_def distinct_map_filter)

text \<open>A primary-key lookup, \<open>SELECT .. WHERE id=?1\<close>.\<close>

lemma find_Some_in_set: "find p t = Some r \<Longrightarrow> r \<in> set t \<and> p r"
  by (auto simp: find_Some_iff)

lemma find_update_rows:
  assumes "\<And>r. q (f r) = q r"
  shows "find q (update_rows p f t) = map_option (\<lambda>r. if p r then f r else r) (find q t)"
  using assms by (induction t) auto

lemma find_key_unique:
  assumes "distinct (map k t)" and "r \<in> set t" and "k r = x"
  shows "find (\<lambda>r. k r = x) t = Some r"
  using assms by (induction t) (auto simp: image_iff)

lemma in_update_rows:
  assumes "r' \<in> set (update_rows p f t)"
  obtains r where "r \<in> set t" "r' = (if p r then f r else r)"
  using assms by (auto simp: update_rows_def)

lemma updated_in: "r \<in> set t \<Longrightarrow> (if p r then f r else r) \<in> set (update_rows p f t)"
  by (auto simp: update_rows_def)

lemma find_append: "find p (xs @ ys) = (case find p xs of None \<Rightarrow> find p ys | Some r \<Rightarrow> Some r)"
  by (induction xs) auto

lemma filter_unique:
  assumes "distinct (map k xs)" and "l \<in> set xs" "p l" and "\<And>m. m \<in> set xs \<Longrightarrow> p m \<Longrightarrow> m = l"
  shows "filter p xs = [l]"
  using assms
proof (induction xs)
  case (Cons a xs)
  show ?case
  proof (cases "p a")
    case True
    then have a: "a = l" using Cons.prems(4) [of a] by simp
    then have "l \<notin> set xs" using Cons.prems(1) by auto
    then have "filter p xs = []" unfolding filter_empty_conv using Cons.prems(4) by (metis list.set_intros(2))
    then show ?thesis using True a by simp
  next
    case False
    then have "l \<in> set xs" using Cons.prems(2,3) by auto
    moreover have "distinct (map k xs)" using Cons.prems(1) by simp
    moreover have "m = l" if "m \<in> set xs" "p m" for m using Cons.prems(4) [of m] that by simp
    ultimately have "filter p xs = [l]" using Cons.IH Cons.prems(3) by blast
    then show ?thesis using False by simp
  qed
qed simp

lemma distinct_map_filter_key:
  assumes "distinct (map k xs)" and "\<And>a b. a \<in> set xs \<Longrightarrow> b \<in> set xs \<Longrightarrow> p a \<Longrightarrow> p b \<Longrightarrow> f a = f b \<Longrightarrow> k a = k b"
  shows "distinct (map f (filter p xs))"
  using assms by (induction xs) (auto simp: image_iff)

lemma map_key_update_rows:
  "(\<And>r. r \<in> set t \<Longrightarrow> p r \<Longrightarrow> k (f r) = k r) \<Longrightarrow> map k (update_rows p f t) = map k t"
  by (simp add: update_rows_def)

lemma update_rows_map: "update_rows p f t = map (\<lambda>r. if p r then f r else r) t"
  by (simp add: update_rows_def)

lemma update_rows_never: "update_rows (\<lambda>r. False) f t = t"
  by (simp add: update_rows_def)

lemma bex_update_rows: "(\<exists>r \<in> set (update_rows q f t). p r) = (\<exists>r \<in> set t. p (if q r then f r else r))"
  by (induction t) auto

lemma ball_update_rows: "(\<forall>r \<in> set (update_rows q f t). p r) = (\<forall>r \<in> set t. p (if q r then f r else r))"
  by (induction t) auto

text \<open>\<open>max(id) + 1\<close>, the next key of a table.\<close>

lemma foldl_max_upper: "m \<le> foldl max m ns \<and> (\<forall>x \<in> set ns. x \<le> foldl max m (ns :: 'a :: linorder list))"
proof (induction ns arbitrary: m)
  case (Cons a ns)
  have "max m a \<le> foldl max (max m a) ns \<and> (\<forall>x \<in> set ns. x \<le> foldl max (max m a) ns)"
    by (rule Cons.IH)
  then show ?case by simp
qed simp

subsection \<open>Chains of a step relation, and the interface of a lifecycle\<close>

fun chain :: "('s \<Rightarrow> 's \<Rightarrow> bool) \<Rightarrow> 's \<Rightarrow> 's list \<Rightarrow> bool" where
  "chain r s [] = True"
| "chain r s (t # ts) = (r s t \<and> chain r t ts)"

lemma chain_append: "chain r s (xs @ ys) = (chain r s xs \<and> chain r (last (s # xs)) ys)"
  by (induction xs arbitrary: s) auto

text \<open>
  What a client of a status machine relies on: terminal states are final and every other
  state can be cancelled. \<open>SessionMachine\<close> interprets it for sessions and for turns.
\<close>

locale lifecycle =
  fixes allowed :: "'s \<Rightarrow> 's \<Rightarrow> bool"
    and terminal :: "'s \<Rightarrow> bool"
    and cancelled :: 's
  assumes terminal_final: "terminal s \<Longrightarrow> \<not> allowed s t"
    and cancelled_terminal: "terminal cancelled"
    and cancel_allowed: "\<not> terminal s \<Longrightarrow> allowed s cancelled"
begin

lemma stuck_iff: "(\<forall>t. \<not> allowed s t) \<longleftrightarrow> terminal s"
  using terminal_final cancel_allowed by blast

lemma cancel_iff: "terminal s \<longleftrightarrow> \<not> allowed s cancelled"
  using terminal_final cancel_allowed by blast

lemma chain_terminal: "terminal s \<Longrightarrow> chain allowed s ts \<Longrightarrow> ts = []"
  using terminal_final by (cases ts) auto

lemma terminal_is_last: "chain allowed s (xs @ t # ys) \<Longrightarrow> terminal t \<Longrightarrow> ys = []"
  using chain_terminal by (auto simp: chain_append)

lemma cancel_extends:
  "chain allowed s ts \<Longrightarrow> \<not> terminal (last (s # ts)) \<Longrightarrow> chain allowed s (ts @ [cancelled])"
  using cancel_allowed by (simp add: chain_append)

end

subsection \<open>Runs of operations, and operations that must be paid for\<close>

definition run :: "('op \<Rightarrow> 's \<Rightarrow> 's) \<Rightarrow> 'op list \<Rightarrow> 's \<Rightarrow> 's" where
  "run step ops s = fold step ops s"

lemma run_simps [simp]:
  "run step [] s = s" "run step (op # ops) s = run step ops (step op s)"
  by (simp_all add: run_def)

lemma run_append: "run step (xs @ ys) s = run step ys (run step xs s)"
  by (simp add: run_def)

lemma run_invariant:
  "(\<And>op s. I s \<Longrightarrow> I (step op s)) \<Longrightarrow> I s \<Longrightarrow> I (run step ops s)"
  by (induction ops arbitrary: s) auto

text \<open>The sum of \<open>g op s\<close> along a run, \<open>s\<close> being the state each operation starts in.\<close>

fun sum_along :: "('op \<Rightarrow> 's \<Rightarrow> 's) \<Rightarrow> ('op \<Rightarrow> 's \<Rightarrow> nat) \<Rightarrow> 'op list \<Rightarrow> 's \<Rightarrow> nat" where
  "sum_along step g [] s = 0"
| "sum_along step g (op # ops) s = g op s + sum_along step g ops (step op s)"

text \<open>
  A gate that spends: every grant takes a token out of the state, and only some operations
  bring tokens in. What a run may grant is bounded by what it earned.
\<close>

locale metered =
  fixes inv :: "'s \<Rightarrow> bool"
    and step :: "'op \<Rightarrow> 's \<Rightarrow> 's"
    and tokens :: "'s \<Rightarrow> nat"
    and grants :: "'op \<Rightarrow> 's \<Rightarrow> nat"
    and earns :: "'op \<Rightarrow> nat"
  assumes step_inv: "inv s \<Longrightarrow> inv (step op s)"
    and step_pays: "inv s \<Longrightarrow> grants op s + tokens (step op s) \<le> tokens s + earns op"
begin

lemma run_inv: "inv s \<Longrightarrow> inv (run step ops s)"
  using step_inv by (rule run_invariant)

lemma run_bound:
  "inv s \<Longrightarrow> sum_along step grants ops s + tokens (run step ops s)
     \<le> tokens s + sum_list (map earns ops)"
proof (induction ops arbitrary: s)
  case Nil
  then show ?case by simp
next
  case (Cons op ops)
  have "sum_along step grants ops (step op s) + tokens (run step ops (step op s))
        \<le> tokens (step op s) + sum_list (map earns ops)"
    using Cons step_inv by blast
  then show ?case using step_pays [OF Cons.prems, of op] by simp
qed

end

end
