(* ===== verification/Json.thy ===== *)
theory Json
  imports Prelude
begin

text \<open>
  \<open>serde_json::Value\<close> as the code uses it: the data type, the accessors and the object
  updates. An object is the list of its entries; \<open>serde_json\<close>'s map has one entry per key,
  so a lookup finds the only one. A number keeps the three forms the library distinguishes
  (a \<open>u64\<close>, a negative \<open>i64\<close>, the bits of an \<open>f64\<close>).
\<close>

datatype json_number = PosInt nat | NegInt int | FloatBits nat

datatype json =
    JNull
  | JBool bool
  | JNum json_number
  | JStr string
  | JArr "json list"
  | JObj "(string \<times> json) list"

fun json_get :: "string \<Rightarrow> json \<Rightarrow> json option" where
  "json_get k (JObj kvs) = map_of kvs k"
| "json_get k _ = None"

fun json_as_str :: "json \<Rightarrow> string option" where
  "json_as_str (JStr s) = Some s"
| "json_as_str _ = None"

fun json_as_array :: "json \<Rightarrow> json list option" where
  "json_as_array (JArr vs) = Some vs"
| "json_as_array _ = None"

fun json_as_bool :: "json \<Rightarrow> bool option" where
  "json_as_bool (JBool b) = Some b"
| "json_as_bool _ = None"

fun json_as_u64 :: "json \<Rightarrow> nat option" where
  "json_as_u64 (JNum (PosInt n)) = Some n"
| "json_as_u64 _ = None"

fun json_as_i64 :: "json \<Rightarrow> int option" where
  "json_as_i64 (JNum (PosInt n)) = (if n \<le> 9223372036854775807 then Some (int n) else None)"
| "json_as_i64 (JNum (NegInt i)) = Some i"
| "json_as_i64 _ = None"

text \<open>\<open>v.get(k).and_then(Value::as_str)\<close> and its kin.\<close>

definition json_get_str :: "string \<Rightarrow> json \<Rightarrow> string option" where
  "json_get_str k v = Option.bind (json_get k v) json_as_str"

definition json_get_array :: "string \<Rightarrow> json \<Rightarrow> json list option" where
  "json_get_array k v = Option.bind (json_get k v) json_as_array"

definition json_get_u64 :: "string \<Rightarrow> json \<Rightarrow> nat option" where
  "json_get_u64 k v = Option.bind (json_get k v) json_as_u64"

text \<open>\<open>Map::remove(k)\<close>, and writing through \<open>get_mut(k)\<close>: the key must be present.\<close>

definition entries_remove :: "string \<Rightarrow> (string \<times> json) list \<Rightarrow> (string \<times> json) list" where
  "entries_remove k kvs = filter (\<lambda>kv. fst kv \<noteq> k) kvs"

definition entries_modify ::
    "string \<Rightarrow> (json \<Rightarrow> json) \<Rightarrow> (string \<times> json) list \<Rightarrow> (string \<times> json) list" where
  "entries_modify k f kvs = map (\<lambda>kv. if fst kv = k then (fst kv, f (snd kv)) else kv) kvs"

text \<open>\<open>json!\<close> of a signed integer, of an optional string and of a string.\<close>

definition json_int :: "int \<Rightarrow> json" where
  "json_int i = JNum (if i < 0 then NegInt i else PosInt (nat i))"

definition json_nat :: "nat \<Rightarrow> json" where
  "json_nat n = JNum (PosInt n)"

fun json_opt :: "('a \<Rightarrow> json) \<Rightarrow> 'a option \<Rightarrow> json" where
  "json_opt f None = JNull"
| "json_opt f (Some a) = f a"

lemma map_of_entries_remove:
  "map_of (entries_remove k kvs) j = (if j = k then None else map_of kvs j)"
  by (induction kvs) (auto simp: entries_remove_def)

lemma map_of_entries_modify:
  "map_of (entries_modify k f kvs) j =
     (if j = k then map_option f (map_of kvs j) else map_of kvs j)"
  by (induction kvs) (auto simp: entries_modify_def)

lemma json_get_str_JObj [simp]:
  "json_get_str k (JObj kvs) = Option.bind (map_of kvs k) json_as_str"
  by (simp add: json_get_str_def)

lemma json_get_array_JObj [simp]:
  "json_get_array k (JObj kvs) = Option.bind (map_of kvs k) json_as_array"
  by (simp add: json_get_array_def)

end
