(* ===== verification/Externals.thy ===== *)
theory Externals
  imports Json
begin

text \<open>
  The code that is not in the repository and that the modelled functions call: the
  \<open>uuid\<close> crate's printing and parsing, \<open>serde_json\<close>'s serialiser, the standard
  library's \<open>DefaultHasher\<close> (whose algorithm is documented as unspecified) and the
  \<open>regex\<close> crate. They are a record that the definitions take as an argument;
  \<open>uuid_laws\<close> is the documented behaviour that some properties rely on.
\<close>

text \<open>\<open>rusqlite::Error\<close>, as far as the code looks at it.\<close>

datatype sql_error =
    SqlConstraint string
  | SqlNoRows
  | SqlInvalidParameterName string
  | SqlOther string

record externals =
  uuid_text :: "uuid \<Rightarrow> string"
  uuid_parse :: "string \<Rightarrow> (string, uuid) outcome"
  json_text :: "json \<Rightarrow> string"
  json_parse :: "string \<Rightarrow> json option"
  default_hash :: "string \<Rightarrow> nat"
  inline_secret_replace :: "string \<Rightarrow> string"
  regex_find_iter :: "string \<Rightarrow> string \<Rightarrow> (nat \<times> nat) list"
  entropy_at_least_4_2 :: "string \<Rightarrow> bool"
  sql_error_text :: "sql_error \<Rightarrow> string"

text \<open>
  Parsing what \<open>to_string\<close> printed gives the identifier back; an identifier prints as
  something non-empty.
\<close>

definition uuid_laws :: "externals \<Rightarrow> bool" where
  "uuid_laws x \<longleftrightarrow> (\<forall>u. uuid_parse x (uuid_text x u) = Inr u)"

text \<open>\<open>Uuid::parse_str(raw).ok()\<close>.\<close>

definition uuid_parse_ok :: "externals \<Rightarrow> string \<Rightarrow> uuid option" where
  "uuid_parse_ok x raw = (case uuid_parse x raw of Inl e \<Rightarrow> None | Inr u \<Rightarrow> Some u)"

lemma uuid_parse_ok_text: "uuid_laws x \<Longrightarrow> uuid_parse_ok x (uuid_text x u) = Some u"
  by (simp add: uuid_laws_def uuid_parse_ok_def)

definition json_uuid :: "externals \<Rightarrow> uuid \<Rightarrow> json" where
  "json_uuid x u = JStr (uuid_text x u)"

text \<open>
  A concrete instance for the witnesses: unary identifiers (as many \<open>u\<close>s as the number),
  a length as the hash, no regular expression ever matching.
\<close>

definition sample_externals :: externals where
  "sample_externals =
     \<lparr>uuid_text = (\<lambda>u. replicate u (CHR ''u'')),
      uuid_parse = (\<lambda>s. if s = replicate (length s) (CHR ''u'') then Inr (length s)
                         else Inl ''invalid character''),
      json_text = (\<lambda>v. []),
      json_parse = (\<lambda>s. None),
      default_hash = length,
      inline_secret_replace = (\<lambda>s. s),
      regex_find_iter = (\<lambda>p s. []),
      entropy_at_least_4_2 = (\<lambda>s. False),
      sql_error_text = (\<lambda>e. ''error'')\<rparr>"

lemma sample_uuid_laws [simp]: "uuid_laws sample_externals"
  by (simp add: uuid_laws_def sample_externals_def)

end
