(* ===== verification/Database.thy ===== *)
theory Database
  imports Externals
begin

text \<open>
  \<open>crates/retcon-storage\<close>: the error type, the rows and the repositories of projects,
  sessions, turns, approvals and permission rules (\<open>src/repositories.rs\<close>,
  \<open>src/error.rs\<close>). A table is the list of its rows in insertion order; a statement is
  a function on that list. The constraints of the schema that a statement can violate
  (\<open>PRIMARY KEY\<close>, \<open>UNIQUE\<close>, \<open>REFERENCES\<close>, with \<open>foreign_keys = ON\<close>) are
  the error branches of the insertions. JSON columns hold the encoded value; they are kept
  decoded. \<open>ORDER BY\<close> is a stable sort, so rows with equal keys come in insertion order.
\<close>

subsection \<open>Errors\<close>

datatype storage_error =
    StorageIo string string string
  | StorageDatabase string sql_error
  | StorageCorrupt string string
  | StorageSchemaTooNew nat nat
  | StorageConnectionPoisoned
  | StorageBackupExists string
  | StorageArtifactIntegrity string string
  | StorageValidation string

fun storage_error_text :: "externals \<Rightarrow> storage_error \<Rightarrow> string" where
  "storage_error_text x (StorageIo op path source) =
     ''could not '' @ op @ '' `'' @ path @ ''`: '' @ source"
| "storage_error_text x (StorageDatabase op source) =
     ''database operation `'' @ op @ ''` failed: '' @ sql_error_text x source"
| "storage_error_text x (StorageCorrupt path details) =
     ''database `'' @ path @ ''` is corrupted: '' @ details"
| "storage_error_text x (StorageSchemaTooNew found supported) =
     ''database schema version '' @ decimal found @ '' is newer than supported version ''
     @ decimal supported"
| "storage_error_text x StorageConnectionPoisoned =
     ''database connection is unavailable after an internal failure''"
| "storage_error_text x (StorageBackupExists path) =
     ''backup destination `'' @ path @ ''` already exists''"
| "storage_error_text x (StorageArtifactIntegrity hash details) =
     ''artifact integrity check failed for `'' @ hash @ ''`: '' @ details"
| "storage_error_text x (StorageValidation m) = ''invalid persisted state: '' @ m"

subsection \<open>Rows and tables\<close>

record project =
  pr_id :: uuid
  pr_name :: string
  pr_created_at :: millis
  pr_updated_at :: millis
  pr_archived_at :: "millis option"

record session =
  se_id :: uuid
  se_project_id :: uuid
  se_title :: string
  se_status :: string
  se_created_at :: millis
  se_updated_at :: millis
  se_recovery_state :: "string option"

record turn =
  tu_id :: uuid
  tu_session_id :: uuid
  tu_sequence :: int
  tu_status :: string
  tu_started_at :: millis
  tu_completed_at :: "millis option"
  tu_error :: "json option"

record approval =
  ap_id :: uuid
  ap_session_id :: uuid
  ap_tool_call_id :: "uuid option"
  ap_status :: string
  ap_request :: json
  ap_decision :: "json option"
  ap_requested_at :: millis
  ap_decided_at :: "millis option"

record permission_rule =
  ru_id :: uuid
  ru_project_id :: "uuid option"
  ru_scope :: string
  ru_effect :: string
  ru_matcher :: json
  ru_created_at :: millis
  ru_expires_at :: "millis option"

record db =
  projects :: "project list"
  sessions :: "session list"
  turns :: "turn list"
  approvals :: "approval list"
  permission_rules :: "permission_rule list"

definition empty_db :: db where
  "empty_db = \<lparr>projects = [], sessions = [], turns = [], approvals = [], permission_rules = []\<rparr>"

text \<open>\<open>SELECT .. WHERE p ORDER BY k LIMIT 1\<close>.\<close>

definition first_row :: "('r \<Rightarrow> int) \<Rightarrow> ('r \<Rightarrow> bool) \<Rightarrow> 'r list \<Rightarrow> 'r option" where
  "first_row k p t = (case sort_key k (filter p t) of [] \<Rightarrow> None | r # _ \<Rightarrow> Some r)"

definition constraint :: "string \<Rightarrow> storage_error" where
  "constraint what = StorageDatabase ''execute statement'' (SqlConstraint what)"

subsection \<open>Projects\<close>

record new_project =
  np_id :: uuid
  np_name :: string

definition projects_create ::
    "millis \<Rightarrow> new_project \<Rightarrow> db \<Rightarrow> (storage_error, project) outcome \<times> db" where
  "projects_create now p d =
     (if \<exists>r \<in> set (projects d). pr_id r = np_id p then (Inl (constraint ''projects.id''), d)
      else let row = \<lparr>pr_id = np_id p, pr_name = np_name p, pr_created_at = now,
                      pr_updated_at = now, pr_archived_at = None\<rparr>
           in (Inr row, d\<lparr>projects := projects d @ [row]\<rparr>))"

definition projects_get :: "uuid \<Rightarrow> db \<Rightarrow> project option" where
  "projects_get i d = find (\<lambda>r. pr_id r = i) (projects d)"

definition projects_list :: "db \<Rightarrow> project list" where
  "projects_list d =
     sort_key (\<lambda>r. - pr_updated_at r) (filter (\<lambda>r. pr_archived_at r = None) (projects d))"

definition projects_archive :: "millis \<Rightarrow> uuid \<Rightarrow> db \<Rightarrow> bool \<times> db" where
  "projects_archive now i d =
     (0 < count_rows (\<lambda>r. pr_id r = i) (projects d),
      d\<lparr>projects := update_rows (\<lambda>r. pr_id r = i)
           (\<lambda>r. r\<lparr>pr_archived_at := Some now, pr_updated_at := now\<rparr>) (projects d)\<rparr>)"

subsection \<open>Sessions\<close>

record new_session =
  ns_id :: uuid
  ns_project_id :: uuid
  ns_title :: string
  ns_status :: string

definition new_session_new :: "uuid \<Rightarrow> uuid \<Rightarrow> string \<Rightarrow> new_session" where
  "new_session_new fresh project_id title =
     \<lparr>ns_id = fresh, ns_project_id = project_id, ns_title = title, ns_status = ''created''\<rparr>"

definition sessions_create ::
    "millis \<Rightarrow> new_session \<Rightarrow> db \<Rightarrow> (storage_error, session) outcome \<times> db" where
  "sessions_create now s d =
     (if \<exists>r \<in> set (sessions d). se_id r = ns_id s then (Inl (constraint ''sessions.id''), d)
      else if projects_get (ns_project_id s) d = None then (Inl (constraint ''FOREIGN KEY''), d)
      else let row = \<lparr>se_id = ns_id s, se_project_id = ns_project_id s, se_title = ns_title s,
                      se_status = ns_status s, se_created_at = now, se_updated_at = now,
                      se_recovery_state = None\<rparr>
           in (Inr row, d\<lparr>sessions := sessions d @ [row]\<rparr>))"

definition sessions_get :: "uuid \<Rightarrow> db \<Rightarrow> session option" where
  "sessions_get i d = find (\<lambda>r. se_id r = i) (sessions d)"

definition sessions_list_for_project :: "uuid \<Rightarrow> db \<Rightarrow> session list" where
  "sessions_list_for_project p d =
     sort_key (\<lambda>r. - se_updated_at r) (filter (\<lambda>r. se_project_id r = p) (sessions d))"

definition sessions_set_status :: "millis \<Rightarrow> uuid \<Rightarrow> string \<Rightarrow> db \<Rightarrow> bool \<times> db" where
  "sessions_set_status now i st d =
     (0 < count_rows (\<lambda>r. se_id r = i) (sessions d),
      d\<lparr>sessions := update_rows (\<lambda>r. se_id r = i)
           (\<lambda>r. r\<lparr>se_status := st, se_updated_at := now\<rparr>) (sessions d)\<rparr>)"

subsection \<open>Turns\<close>

record new_turn =
  nt_id :: uuid
  nt_session_id :: uuid
  nt_sequence :: int
  nt_status :: string

definition new_turn_new :: "uuid \<Rightarrow> uuid \<Rightarrow> int \<Rightarrow> new_turn" where
  "new_turn_new fresh session_id sequence =
     \<lparr>nt_id = fresh, nt_session_id = session_id, nt_sequence = sequence, nt_status = ''queued''\<rparr>"

definition turns_create ::
    "millis \<Rightarrow> new_turn \<Rightarrow> db \<Rightarrow> (storage_error, turn) outcome \<times> db" where
  "turns_create now t d =
     (if \<exists>r \<in> set (turns d). tu_id r = nt_id t then (Inl (constraint ''turns.id''), d)
      else if \<exists>r \<in> set (turns d). tu_session_id r = nt_session_id t \<and> tu_sequence r = nt_sequence t
      then (Inl (constraint ''turns.session_id, turns.sequence''), d)
      else if sessions_get (nt_session_id t) d = None then (Inl (constraint ''FOREIGN KEY''), d)
      else let row = \<lparr>tu_id = nt_id t, tu_session_id = nt_session_id t,
                      tu_sequence = nt_sequence t, tu_status = nt_status t,
                      tu_started_at = now, tu_completed_at = None, tu_error = None\<rparr>
           in (Inr row, d\<lparr>turns := turns d @ [row]\<rparr>))"

definition turns_get :: "uuid \<Rightarrow> db \<Rightarrow> turn option" where
  "turns_get i d = find (\<lambda>r. tu_id r = i) (turns d)"

definition turns_set_status :: "millis \<Rightarrow> uuid \<Rightarrow> string \<Rightarrow> bool \<Rightarrow> db \<Rightarrow> bool \<times> db" where
  "turns_set_status now i st completed d =
     (0 < count_rows (\<lambda>r. tu_id r = i) (turns d),
      d\<lparr>turns := update_rows (\<lambda>r. tu_id r = i)
           (\<lambda>r. r\<lparr>tu_status := st, tu_completed_at := (if completed then Some now else None)\<rparr>)
           (turns d)\<rparr>)"

definition turns_list_for_session :: "uuid \<Rightarrow> db \<Rightarrow> turn list" where
  "turns_list_for_session s d = sort_key tu_sequence (filter (\<lambda>r. tu_session_id r = s) (turns d))"

text \<open>\<open>COALESCE(MAX(sequence), 0) + 1\<close>.\<close>

definition turns_next_sequence :: "uuid \<Rightarrow> db \<Rightarrow> int" where
  "turns_next_sequence s d =
     (case map tu_sequence (filter (\<lambda>r. tu_session_id r = s) (turns d)) of
        [] \<Rightarrow> 0 | n # ns \<Rightarrow> foldl max n ns) + 1"

subsection \<open>Approvals\<close>

record new_approval =
  na_id :: uuid
  na_session_id :: uuid
  na_tool_call_id :: "uuid option"
  na_status :: string
  na_request :: json

definition approvals_create ::
    "millis \<Rightarrow> new_approval \<Rightarrow> db \<Rightarrow> (storage_error, approval) outcome \<times> db" where
  "approvals_create now a d =
     (if \<exists>r \<in> set (approvals d). ap_id r = na_id a then (Inl (constraint ''approvals.id''), d)
      else if sessions_get (na_session_id a) d = None then (Inl (constraint ''FOREIGN KEY''), d)
      else let row = \<lparr>ap_id = na_id a, ap_session_id = na_session_id a,
                      ap_tool_call_id = na_tool_call_id a, ap_status = na_status a,
                      ap_request = na_request a, ap_decision = None,
                      ap_requested_at = now, ap_decided_at = None\<rparr>
           in (Inr row, d\<lparr>approvals := approvals d @ [row]\<rparr>))"

definition approvals_get :: "uuid \<Rightarrow> db \<Rightarrow> approval option" where
  "approvals_get i d = find (\<lambda>r. ap_id r = i) (approvals d)"

text \<open>The four queries of \<open>list\<close> differ in their \<open>WHERE\<close> clause only.\<close>

definition approvals_list :: "string option \<Rightarrow> uuid option \<Rightarrow> nat \<Rightarrow> db \<Rightarrow> approval list" where
  "approvals_list st session_id limit d =
     take limit (sort_key (\<lambda>r. - ap_requested_at r)
       (filter (\<lambda>r. (case st of None \<Rightarrow> True | Some v \<Rightarrow> ap_status r = v)
                  \<and> (case session_id of None \<Rightarrow> True | Some s \<Rightarrow> ap_session_id r = s))
         (approvals d)))"

definition approvals_list_pending_for_session :: "uuid \<Rightarrow> db \<Rightarrow> approval list" where
  "approvals_list_pending_for_session s d = approvals_list (Some ''pending'') (Some s) 256 d"

definition approvals_find_pending_by_fingerprint :: "string \<Rightarrow> db \<Rightarrow> approval option" where
  "approvals_find_pending_by_fingerprint fp d =
     first_row ap_requested_at
       (\<lambda>r. ap_status r = ''pending'' \<and> json_get_str ''fingerprint'' (ap_request r) = Some fp)
       (approvals d)"

definition approvals_find_approved_by_fingerprint :: "string \<Rightarrow> db \<Rightarrow> approval option" where
  "approvals_find_approved_by_fingerprint fp d =
     first_row (\<lambda>r. case ap_decided_at r of None \<Rightarrow> 1 | Some t \<Rightarrow> - t)
       (\<lambda>r. ap_status r = ''approved''
          \<and> Option.bind (ap_decision r) (json_get_str ''remember'') = Some ''once''
          \<and> json_get_str ''fingerprint'' (ap_request r) = Some fp)
       (approvals d)"

definition approvals_consume_approved :: "uuid \<Rightarrow> db \<Rightarrow> bool \<times> db" where
  "approvals_consume_approved i d =
     (let p = (\<lambda>r. ap_id r = i \<and> ap_status r = ''approved'') in
      (0 < count_rows p (approvals d),
       d\<lparr>approvals := update_rows p (\<lambda>r. r\<lparr>ap_status := ''consumed''\<rparr>) (approvals d)\<rparr>))"

definition approvals_decide ::
    "millis \<Rightarrow> uuid \<Rightarrow> string \<Rightarrow> json \<Rightarrow> db \<Rightarrow> (storage_error, approval) outcome \<times> db" where
  "approvals_decide now i st decision d =
     (let p = (\<lambda>r. ap_id r = i \<and> ap_status r = ''pending'');
          d' = d\<lparr>approvals := update_rows p
                 (\<lambda>r. r\<lparr>ap_status := st, ap_decision := Some decision, ap_decided_at := Some now\<rparr>)
                 (approvals d)\<rparr>
      in ((case approvals_get i d' of
             None \<Rightarrow> Inl (StorageDatabase ''load approval'' SqlNoRows)
           | Some a \<Rightarrow> Inr a), d'))"

definition approvals_count_pending :: "db \<Rightarrow> nat" where
  "approvals_count_pending d = count_rows (\<lambda>r. ap_status r = ''pending'') (approvals d)"

subsection \<open>Permission rules\<close>

record new_permission_rule =
  nr_id :: uuid
  nr_project_id :: "uuid option"
  nr_scope :: string
  nr_effect :: string
  nr_matcher :: json
  nr_expires_at :: "millis option"

definition rules_create ::
    "millis \<Rightarrow> new_permission_rule \<Rightarrow> db \<Rightarrow> (storage_error, permission_rule) outcome \<times> db" where
  "rules_create now r d =
     (if \<exists>q \<in> set (permission_rules d). ru_id q = nr_id r
      then (Inl (constraint ''permission_rules.id''), d)
      else if (case nr_project_id r of None \<Rightarrow> False | Some p \<Rightarrow> projects_get p d = None)
      then (Inl (constraint ''FOREIGN KEY''), d)
      else let row = \<lparr>ru_id = nr_id r, ru_project_id = nr_project_id r, ru_scope = nr_scope r,
                      ru_effect = nr_effect r, ru_matcher = nr_matcher r, ru_created_at = now,
                      ru_expires_at = nr_expires_at r\<rparr>
           in (Inr row, d\<lparr>permission_rules := permission_rules d @ [row]\<rparr>))"

definition rules_list_for_project :: "uuid \<Rightarrow> db \<Rightarrow> permission_rule list" where
  "rules_list_for_project p d =
     sort_key ru_created_at
       (filter (\<lambda>r. ru_project_id r = Some p \<or> ru_project_id r = None) (permission_rules d))"

definition rules_list_global :: "db \<Rightarrow> permission_rule list" where
  "rules_list_global d =
     sort_key ru_created_at (filter (\<lambda>r. ru_project_id r = None) (permission_rules d))"

definition rules_delete :: "uuid \<Rightarrow> db \<Rightarrow> bool \<times> db" where
  "rules_delete i d =
     (0 < count_rows (\<lambda>r. ru_id r = i) (permission_rules d),
      d\<lparr>permission_rules := delete_rows (\<lambda>r. ru_id r = i) (permission_rules d)\<rparr>)"

subsection \<open>Facts about the statements\<close>

lemma first_row_Some:
  assumes "first_row k p t = Some r"
  shows "r \<in> set t \<and> p r \<and> (\<forall>q \<in> set t. p q \<longrightarrow> k r \<le> k q)"
proof -
  from assms obtain rs where rs: "sort_key k (filter p t) = r # rs"
    by (auto simp: first_row_def split: list.splits)
  have "set (r # rs) = set (filter p t)"
    by (metis rs set_sort)
  moreover have "sorted (map k (r # rs))"
    by (metis rs sorted_sort_key)
  ultimately show ?thesis
    by (auto simp: set_eq_iff)
qed

lemma first_row_None: "first_row k p t = None \<longleftrightarrow> (\<forall>r \<in> set t. \<not> p r)"
proof -
  have "first_row k p t = None \<longleftrightarrow> sort_key k (filter p t) = []"
    by (auto simp: first_row_def split: list.splits)
  also have "\<dots> \<longleftrightarrow> filter p t = []"
    by (metis length_0_conv length_sort)
  finally show ?thesis by (auto simp: filter_empty_conv)
qed

lemma approvals_get_Some: "approvals_get i d = Some a \<Longrightarrow> a \<in> set (approvals d) \<and> ap_id a = i"
  by (auto simp: approvals_get_def dest: find_Some_in_set)

lemma turns_next_sequence_greater:
  assumes "r \<in> set (turns d)" and "tu_session_id r = s"
  shows "tu_sequence r < turns_next_sequence s d"
proof -
  let ?ns = "map tu_sequence (filter (\<lambda>r. tu_session_id r = s) (turns d))"
  have "tu_sequence r \<in> set ?ns" using assms by auto
  then show ?thesis
    using foldl_max_upper by (cases ?ns) (auto simp: turns_next_sequence_def)
qed

end
