(* ===== verification/PermissionRules.thy ===== *)
theory PermissionRules
  imports Database
begin

text \<open>
  \<open>crates/retcon-permissions\<close>: categories, decisions (\<open>src/category.rs\<close>,
  \<open>src/decision.rs\<close>), the classification of RPC methods (\<open>src/methods.rs\<close>) and the
  evaluation of permission rules (\<open>src/rules.rs\<close>).
\<close>

subsection \<open>Categories and decisions\<close>

datatype approval_category =
    CatAgent | CatSession | CatTurn | CatGit | CatTerminal | CatFile | CatBrowser | CatSystem

fun category_as_str :: "approval_category \<Rightarrow> string" where
  "category_as_str CatAgent = ''agent''"
| "category_as_str CatSession = ''session''"
| "category_as_str CatTurn = ''turn''"
| "category_as_str CatGit = ''git''"
| "category_as_str CatTerminal = ''terminal''"
| "category_as_str CatFile = ''file''"
| "category_as_str CatBrowser = ''browser''"
| "category_as_str CatSystem = ''system''"

fun category_label :: "approval_category \<Rightarrow> string" where
  "category_label CatAgent = ''Agent''"
| "category_label CatSession = ''Session''"
| "category_label CatTurn = ''Conversation turn''"
| "category_label CatGit = ''Git''"
| "category_label CatTerminal = ''Terminal''"
| "category_label CatFile = ''Filesystem''"
| "category_label CatBrowser = ''Browser''"
| "category_label CatSystem = ''System''"

datatype approval_decision = Approve | DecideDeny

fun decision_as_str :: "approval_decision \<Rightarrow> string" where
  "decision_as_str Approve = ''approve''"
| "decision_as_str DecideDeny = ''deny''"

definition decision_parse :: "string \<Rightarrow> approval_decision option" where
  "decision_parse v =
     (if v = ''approve'' \<or> v = ''approved'' then Some Approve
      else if v = ''deny'' \<or> v = ''denied'' then Some DecideDeny
      else None)"

datatype rule_effect = EffectAllow | EffectDeny

fun effect_as_str :: "rule_effect \<Rightarrow> string" where
  "effect_as_str EffectAllow = ''allow''"
| "effect_as_str EffectDeny = ''deny''"

definition effect_parse :: "string \<Rightarrow> rule_effect option" where
  "effect_parse v =
     (if v = ''allow'' then Some EffectAllow else if v = ''deny'' then Some EffectDeny else None)"

datatype remember_scope = RememberOnce | RememberSession | RememberAlways

fun remember_as_str :: "remember_scope \<Rightarrow> string" where
  "remember_as_str RememberOnce = ''once''"
| "remember_as_str RememberSession = ''session''"
| "remember_as_str RememberAlways = ''always''"

definition remember_parse :: "string option \<Rightarrow> remember_scope option" where
  "remember_parse v =
     (if v = None \<or> v = Some ''once'' then Some RememberOnce
      else if v = Some ''session'' then Some RememberSession
      else if v = Some ''always'' then Some RememberAlways
      else None)"

subsection \<open>Methods\<close>

definition category_for_method :: "string \<Rightarrow> approval_category option" where
  "category_for_method m =
     (if m \<in> {''agent.start'', ''agent.cancel''} then Some CatAgent
      else if m \<in> {''session.start'', ''session.cancel'', ''session.pause'', ''session.resume''}
      then Some CatSession
      else if m \<in> {''turn.send'', ''turn.cancel''} then Some CatTurn
      else if m \<in> {''git.branchCreate'', ''git.branchDelete'', ''git.checkout'', ''git.worktreeAdd'',
                   ''git.worktreeRemove'', ''git.worktreeAssign'', ''git.stage'', ''git.unstage'',
                   ''git.stageHunk'', ''git.discardHunk'', ''git.commit'', ''git.push''}
      then Some CatGit
      else if m \<in> {''terminal.start'', ''terminal.input'', ''verification.start'',
                   ''verification.rerun''} then Some CatTerminal
      else if m = ''file.write'' then Some CatFile
      else if m \<in> {''ide.openProject'', ''ide.openWorktree'', ''ide.openFile'', ''ide.openDiff'',
                   ''ide.openTerminalLocation''} then Some CatTerminal
      else if m = ''ide.configuration.update'' then Some CatSystem
      else if m \<in> {''task.acceptance.override'', ''task.acceptance.delete'',
                   ''verification.commands.configure''} then Some CatSystem
      else if m \<in> {''devServer.start'', ''devServer.stop'', ''devServer.restart''}
      then Some CatTerminal
      else if m \<in> {''devServer.configure'', ''devServer.autoStart.set''} then Some CatSystem
      else if m \<in> {''browser.startService'', ''browser.stopService'', ''browser.call'',
                   ''browser.session.start'', ''browser.session.stop'', ''browser.tab.open'',
                   ''browser.tab.close'', ''browser.tab.activate'', ''browser.navigate'',
                   ''browser.back'', ''browser.forward'', ''browser.reload'',
                   ''browser.observation.screenshot'', ''browser.observation.snapshot'',
                   ''browser.observation.logs'', ''browser.observation.trace'',
                   ''browser.automation.action'', ''browser.automation.script'',
                   ''browser.automation.upload'', ''browser.automation.download'',
                   ''browser.takeover.start'', ''browser.takeover.stop'',
                   ''browser.verification.definition.create'',
                   ''browser.verification.definition.update'', ''browser.verification.run'',
                   ''browser.verification.cancel'', ''browser.verification.review'',
                   ''browser.verification.baseline.approve''} then Some CatBrowser
      else None)"

definition requires_approval :: "string \<Rightarrow> bool" where
  "requires_approval m \<longleftrightarrow> category_for_method m \<noteq> None"

definition method_summaries :: "(string \<times> string) list" where
  "method_summaries =
     [(''agent.start'', ''Start an agent process''),
      (''agent.cancel'', ''Cancel the running agent''),
      (''session.start'', ''Start the agent session''),
      (''session.cancel'', ''Cancel the agent session''),
      (''session.pause'', ''Pause the agent session''),
      (''session.resume'', ''Resume the agent session''),
      (''turn.send'', ''Send a conversation turn''),
      (''turn.cancel'', ''Cancel the active turn''),
      (''git.branchCreate'', ''Create a Git branch''),
      (''git.branchDelete'', ''Delete a Git branch''),
      (''git.checkout'', ''Check out a Git branch''),
      (''git.worktreeAdd'', ''Add a Git worktree''),
      (''git.worktreeRemove'', ''Remove a Git worktree''),
      (''git.worktreeAssign'', ''Assign a Git worktree to a session''),
      (''git.stage'', ''Stage file changes''),
      (''git.unstage'', ''Unstage file changes''),
      (''git.stageHunk'', ''Stage a diff hunk''),
      (''git.discardHunk'', ''Discard a diff hunk''),
      (''git.commit'', ''Create a Git commit''),
      (''git.push'', ''Push commits to a remote''),
      (''terminal.start'', ''Start a terminal session''),
      (''terminal.input'', ''Send terminal input''),
      (''file.write'', ''Write a file''),
      (''ide.openProject'', ''Open a project in an IDE''),
      (''ide.openWorktree'', ''Open a worktree in an IDE''),
      (''ide.openFile'', ''Open a file in an IDE''),
      (''ide.openDiff'', ''Open a diff in an IDE''),
      (''ide.openTerminalLocation'', ''Open an IDE terminal at a workspace location''),
      (''ide.configuration.update'', ''Change the preferred IDE''),
      (''task.acceptance.override'', ''Override a task acceptance criterion''),
      (''task.acceptance.delete'', ''Delete a task acceptance criterion''),
      (''verification.start'', ''Start project verification commands''),
      (''verification.rerun'', ''Rerun project verification commands''),
      (''verification.commands.configure'', ''Change project verification requirements''),
      (''devServer.start'', ''Start a development server''),
      (''devServer.stop'', ''Stop a development server''),
      (''devServer.restart'', ''Restart a development server''),
      (''devServer.configure'', ''Change development server settings or environment''),
      (''devServer.autoStart.set'', ''Change development server auto-start settings''),
      (''browser.session.start'', ''Start a managed browser session''),
      (''browser.startService'', ''Start the legacy managed browser service''),
      (''browser.stopService'', ''Stop the legacy managed browser service''),
      (''browser.call'', ''Run a legacy managed browser operation''),
      (''browser.session.stop'', ''Stop a managed browser session''),
      (''browser.tab.open'', ''Open a managed browser tab''),
      (''browser.tab.close'', ''Close a managed browser tab''),
      (''browser.tab.activate'', ''Activate a managed browser tab''),
      (''browser.navigate'', ''Navigate the managed browser''),
      (''browser.back'', ''Navigate the managed browser backward''),
      (''browser.forward'', ''Navigate the managed browser forward''),
      (''browser.reload'', ''Reload the managed browser tab''),
      (''browser.observation.screenshot'', ''Capture a browser screenshot''),
      (''browser.observation.snapshot'', ''Capture a browser accessibility snapshot''),
      (''browser.observation.logs'', ''Capture browser console and network logs''),
      (''browser.observation.trace'', ''Capture a browser trace''),
      (''browser.automation.action'', ''Run a browser automation action''),
      (''browser.automation.script'', ''Run a script in the managed browser''),
      (''browser.automation.upload'', ''Upload project files through the browser''),
      (''browser.automation.download'', ''Download a browser file into the project''),
      (''browser.takeover.start'', ''Take manual control of the managed browser''),
      (''browser.takeover.stop'', ''Release manual control of the managed browser''),
      (''browser.verification.definition.create'', ''Create a browser verification definition''),
      (''browser.verification.definition.update'', ''Change a browser verification definition''),
      (''browser.verification.run'', ''Run browser verification''),
      (''browser.verification.cancel'', ''Cancel browser verification''),
      (''browser.verification.review'', ''Review browser verification evidence''),
      (''browser.verification.baseline.approve'', ''Approve a browser visual baseline'')]"

definition default_summary :: string where
  "default_summary = ''Perform a protected operation''"

definition method_summary :: "string \<Rightarrow> string" where
  "method_summary m = (case map_of method_summaries m of Some s \<Rightarrow> s | None \<Rightarrow> default_summary)"

subsection \<open>Rules\<close>

definition method_matches_pattern :: "string \<Rightarrow> string \<Rightarrow> bool" where
  "method_matches_pattern m pattern =
     (if pattern = m then True
      else case strip_suffix ''.*'' pattern of
             Some p \<Rightarrow> starts_with p m \<and> length p < length m \<and> m ! length p = CHR ''.''
           | None \<Rightarrow> False)"

definition matcher_matches :: "json \<Rightarrow> string \<Rightarrow> string option \<Rightarrow> bool" where
  "matcher_matches matcher m category =
     (if json_get_str ''method'' matcher = Some m then True
      else if (case json_get_array ''methods'' matcher of
                 None \<Rightarrow> False
               | Some patterns \<Rightarrow>
                   list_ex (\<lambda>p. case json_as_str p of None \<Rightarrow> False
                                | Some s \<Rightarrow> method_matches_pattern m s) patterns) then True
      else case json_get_str ''category'' matcher of
             Some expected \<Rightarrow> category = Some expected
           | None \<Rightarrow> False)"

text \<open>The three \<open>continue\<close> guards of the loop, in order.\<close>

definition rule_skipped :: "uuid option \<Rightarrow> millis \<Rightarrow> permission_rule \<Rightarrow> bool" where
  "rule_skipped project_id now r =
     (if (case ru_expires_at r of None \<Rightarrow> False | Some e \<Rightarrow> e \<le> now) then True
      else if (case project_id of
                 Some p \<Rightarrow> ru_project_id r \<noteq> None \<and> ru_project_id r \<noteq> Some p
               | None \<Rightarrow> ru_project_id r \<noteq> None) then True
      else ru_scope r \<noteq> ''rpc'' \<and> ru_scope r \<noteq> ''global'')"

fun evaluate_rules ::
    "permission_rule list \<Rightarrow> string \<Rightarrow> uuid option \<Rightarrow> millis \<Rightarrow> rule_effect option" where
  "evaluate_rules [] m project_id now = None"
| "evaluate_rules (r # rs) m project_id now =
     (if rule_skipped project_id now r then evaluate_rules rs m project_id now
      else if matcher_matches (ru_matcher r) m (map_option category_as_str (category_for_method m))
      then effect_parse (ru_effect r)
      else evaluate_rules rs m project_id now)"

subsection \<open>Facts\<close>

text \<open>When a rule speaks about a request: the specification of the loop's guards.\<close>

definition rule_applies :: "string \<Rightarrow> uuid option \<Rightarrow> millis \<Rightarrow> permission_rule \<Rightarrow> bool" where
  "rule_applies m project_id now r \<longleftrightarrow>
     (\<forall>e. ru_expires_at r = Some e \<longrightarrow> now < e) \<and>
     (\<forall>p. ru_project_id r = Some p \<longrightarrow> project_id = Some p) \<and>
     ru_scope r \<in> {''rpc'', ''global''} \<and>
     matcher_matches (ru_matcher r) m (map_option category_as_str (category_for_method m))"

lemma rule_applies_iff:
  "rule_applies m project_id now r \<longleftrightarrow>
     \<not> rule_skipped project_id now r \<and>
     matcher_matches (ru_matcher r) m (map_option category_as_str (category_for_method m))"
  by (cases "ru_expires_at r"; cases "ru_project_id r"; cases project_id)
    (auto simp: rule_applies_def rule_skipped_def not_le)

lemma evaluate_rules_find:
  "evaluate_rules rs m project_id now =
     Option.bind (find (rule_applies m project_id now) rs) (\<lambda>r. effect_parse (ru_effect r))"
  by (induction rs) (auto simp: rule_applies_iff)

lemma evaluate_rules_SomeD:
  assumes "evaluate_rules rs m project_id now = Some e"
  obtains r where "r \<in> set rs" and "rule_applies m project_id now r"
    and "effect_parse (ru_effect r) = Some e"
  using assms by (auto simp: evaluate_rules_find Option.bind_eq_Some_conv dest: find_Some_in_set)

lemma find_skip_head: "\<not> p r \<Longrightarrow> find p (xs @ r # ys) = find p (xs @ ys)"
  by (induction xs) auto

lemma method_matches_pattern_iff:
  "method_matches_pattern m pattern \<longleftrightarrow>
     m = pattern \<or> (\<exists>p rest. pattern = p @ ''.*'' \<and> m = p @ ''.'' @ rest)"
proof (cases "strip_suffix ''.*'' pattern")
  case None
  then have "\<nexists>p. pattern = p @ ''.*''"
    by (metis option.distinct(1) strip_suffix_append)
  with None show ?thesis by (auto simp: method_matches_pattern_def)
next
  case (Some p)
  then have pat: "pattern = p @ ''.*''"
    by (simp add: strip_suffix_Some_iff)
  have "(starts_with p m \<and> length p < length m \<and> m ! length p = CHR ''.'') \<longleftrightarrow>
        (\<exists>rest. m = p @ ''.'' @ rest)"
  proof
    assume a: "starts_with p m \<and> length p < length m \<and> m ! length p = CHR ''.''"
    then obtain q where m: "m = p @ q" by (auto simp: starts_with_iff)
    with a obtain c cs where "q = c # cs" by (cases q) auto
    with a m show "\<exists>rest. m = p @ ''.'' @ rest" by (auto simp: nth_append)
  qed (auto simp: starts_with_iff nth_append)
  with Some pat show ?thesis by (auto simp: method_matches_pattern_def)
qed

definition protected_methods :: "string list" where
  "protected_methods = map fst method_summaries"

lemma if_Some_None_iff: "(if c then Some a else r) = None \<longleftrightarrow> \<not> c \<and> r = None"
  by simp

lemma protected_method_iff: "requires_approval m \<longleftrightarrow> m \<in> set protected_methods"
proof
  show "m \<in> set protected_methods" if "requires_approval m"
  proof (rule ccontr)
    assume "m \<notin> set protected_methods"
    then have "\<not> requires_approval m"
      unfolding requires_approval_def category_for_method_def protected_methods_def
        method_summaries_def list.map fst_conv list.set
      by (simp only: insert_iff empty_iff de_Morgan_disj if_False simp_thms)
    with that show False by simp
  qed
  show "requires_approval m" if "m \<in> set protected_methods"
  proof (rule ccontr)
    assume "\<not> requires_approval m"
    then have "m \<notin> set protected_methods"
      unfolding requires_approval_def category_for_method_def protected_methods_def
        method_summaries_def list.map fst_conv list.set
      by (simp only: insert_iff empty_iff de_Morgan_disj if_Some_None_iff simp_thms)
    with that show False by simp
  qed
qed

lemma method_summaries_special: "list_all (\<lambda>(m, s). s \<noteq> default_summary) method_summaries"
  by (simp add: method_summaries_def default_summary_def)

text \<open>the approval table and the summary table agree: a method needs approval exactly when
  it has a summary of its own, so no protected operation is presented with the generic text and
  none of the described operations is unprotected.\<close>

theorem protected_iff_summarised:
  "requires_approval m = (method_summary m \<noteq> default_summary)"
proof (cases "map_of method_summaries m")
  case None
  then have "m \<notin> set protected_methods"
    by (simp add: protected_methods_def map_of_eq_None_iff)
  with None show ?thesis by (simp add: protected_method_iff method_summary_def)
next
  case (Some s)
  then have "(m, s) \<in> set method_summaries" by (rule map_of_SomeD)
  then have "m \<in> set protected_methods"
    unfolding protected_methods_def by (metis fst_conv image_eqI set_map)
  moreover have "s \<noteq> default_summary"
    using bspec [OF method_summaries_special [unfolded list_all_iff]
        \<open>(m, s) \<in> set method_summaries\<close>] by (simp only: prod.case not_False_eq_True)
  ultimately show ?thesis using Some by (simp add: protected_method_iff method_summary_def)
qed

text \<open>rule evaluation is "the first rule that applies decides": expired rules, rules of
  another project and rules of another scope never influence the outcome, and the earliest
  applicable rule wins over every later one.\<close>

theorem evaluate_rules_first_applicable:
  "evaluate_rules rs m project_id now =
     Option.bind (find (rule_applies m project_id now) rs) (\<lambda>r. effect_parse (ru_effect r)) \<and>
   evaluate_rules rs m project_id now
     = evaluate_rules (filter (rule_applies m project_id now) rs) m project_id now"
proof -
  have "find p (filter p rs) = find p rs" for p :: "permission_rule \<Rightarrow> bool"
    by (induction rs) auto
  then show ?thesis by (simp add: evaluate_rules_find)
qed

text \<open>a method pattern matches its own text and, when it ends in \<open>.*\<close>, exactly the
  methods that continue its prefix after a dot: \<open>git.*\<close> never matches \<open>github.x\<close>.\<close>

theorem method_pattern_matches_iff:
  "method_matches_pattern m pattern =
     (m = pattern \<or> (\<exists>p rest. pattern = p @ ''.*'' \<and> m = p @ ''.'' @ rest))"
  by (rule method_matches_pattern_iff)

end
