(* ===== verification/Redact.thy ===== *)
theory Redact
  imports Externals
begin

text \<open>
  \<open>crates/retcon-secrets/src/redact.rs\<close> and \<open>detect.rs\<close>: redaction of free text and of
  JSON payloads, and the scanner's bookkeeping around its regular expressions. The two
  regular-expression engines and the floating-point entropy comparison are the fields
  \<open>inline_secret_replace\<close>, \<open>regex_find_iter\<close> and \<open>entropy_at_least_4_2\<close> of
  \<open>externals\<close>.
\<close>

subsection \<open>Redaction of text\<close>

definition redacted :: string where "redacted = ''[REDACTED]''"

definition redact_token :: "string \<Rightarrow> string" where
  "redact_token part =
     (let lower = to_ascii_lowercase part in
      if starts_with ''token='' lower \<or> starts_with ''password='' lower
         \<or> starts_with ''secret='' lower \<or> starts_with ''api_key='' lower
         \<or> starts_with ''apikey='' lower
      then redacted else part)"

definition redact_text :: "externals \<Rightarrow> string \<Rightarrow> string" where
  "redact_text x message =
     join '' '' (map redact_token (split_whitespace (inline_secret_replace x message)))"

subsection \<open>Redaction of JSON\<close>

definition SENSITIVE_KEYS :: "string list" where
  "SENSITIVE_KEYS =
     [''auth'', ''token'', ''password'', ''secret'', ''authorization'', ''api_key'', ''apikey'',
      ''access_key'', ''accesskey'', ''private_key'', ''privatekey'', ''credential'',
      ''credentials'', ''cookie'', ''cookies'', ''set_cookie'', ''prompt'']"

definition is_sensitive_key :: "string \<Rightarrow> bool" where
  "is_sensitive_key key =
     (let normalized = replace_char (CHR ''-'') (CHR ''_'') (to_ascii_lowercase key) in
      list_ex (\<lambda>candidate. normalized = candidate \<or> ends_with (CHR ''_'' # candidate) normalized)
        SENSITIVE_KEYS)"

fun scrub_json :: "externals \<Rightarrow> json \<Rightarrow> json" where
  "scrub_json x (JObj values) =
     JObj (map (\<lambda>(key, nested).
       (key, if is_sensitive_key key then JStr redacted else scrub_json x nested)) values)"
| "scrub_json x (JArr values) = JArr (map (scrub_json x) values)"
| "scrub_json x (JStr s) = JStr (redact_text x s)"
| "scrub_json x other = other"

fun scrub_string_fields :: "string list \<Rightarrow> json \<Rightarrow> json" where
  "scrub_string_fields extra_keys (JObj values) =
     JObj (map (\<lambda>(key, nested).
       (key, if is_sensitive_key key \<or> list_ex (eq_ignore_ascii_case key) extra_keys
             then JStr redacted else scrub_string_fields extra_keys nested)) values)"
| "scrub_string_fields extra_keys (JArr values) =
     JArr (map (scrub_string_fields extra_keys) values)"
| "scrub_string_fields extra_keys other = other"

subsection \<open>The scanner\<close>

datatype finding_kind = FindPattern | FindEntropy

record secret_finding =
  find_kind :: finding_kind
  find_label :: string
  find_start :: nat
  find_end :: nat

definition scan_is_clean :: "secret_finding list \<Rightarrow> bool" where
  "scan_is_clean findings \<longleftrightarrow> findings = []"

definition scan_summary :: "secret_finding list \<Rightarrow> string" where
  "scan_summary findings =
     (if findings = [] then ''no secrets detected''
      else decimal (length findings) @ '' finding(s): ''
           @ join '', '' (map find_label findings))"

text \<open>
  The rule table: each regular expression with its label, in the code's order. The engine
  that runs an expression over a text is \<open>regex_find_iter\<close>. \<open>backslashed\<close> writes
  a raw string literal by its pieces between the backslashes.
\<close>

definition backslashed :: "string list \<Rightarrow> string" where
  "backslashed pieces = join [CHR 0x5C] pieces"

definition pattern_rules :: "(string \<times> string) list" where
  "pattern_rules =
     [(backslashed [''(?i)'', ''b(?:api[_-]?key|secret[_-]?key|access[_-]?token)'', ''s*[:=]'', ''s*'', ''S+''],
       ''assignment''),
      (backslashed [''(?i)'', ''b(?:password|passwd|pwd)'', ''s*[:=]'', ''s*'', ''S+''],
       ''password assignment''),
      (backslashed [''(?i)'', ''b(?:token|secret|authorization)'', ''s*[:=]'', ''s*'', ''S+''],
       ''credential assignment''),
      (backslashed [''(?i)Bearer'', ''s+[A-Za-z0-9'', ''-._~+/]+=*''],
       ''bearer token''),
      (''-----BEGIN (?:RSA |EC |OPENSSH )?PRIVATE KEY-----'',
       ''private key''),
      (backslashed ['''', ''bAKIA[0-9A-Z]{16}'', ''b''],
       ''AWS access key''),
      (backslashed ['''', ''b(?:ASIA)[0-9A-Z]{16}'', ''b''],
       ''AWS session key''),
      (backslashed ['''', ''bgh[pousr]_[A-Za-z0-9_]{20,}'', ''b''],
       ''GitHub token''),
      (backslashed ['''', ''bxox[baprs]-[A-Za-z0-9-]{10,}'', ''b''],
       ''Slack token''),
      (backslashed ['''', ''bsk_(?:live|test)_[A-Za-z0-9]{16,}'', ''b''],
       ''Stripe secret key''),
      (backslashed ['''', ''brk_(?:live|test)_[A-Za-z0-9]{16,}'', ''b''],
       ''Stripe restricted key''),
      (backslashed ['''', ''beyJ[A-Za-z0-9_-]{10,}'', ''.[A-Za-z0-9._-]{10,}'', ''.[A-Za-z0-9._-]{10,}'', ''b''],
       ''JWT''),
      (backslashed [''(?i)(?:postgres|mysql|mongodb|redis)://[^'', ''s/:@]+:[^'', ''s/@]+@''],
       ''database URL with password'')]"

definition scan_patterns :: "externals \<Rightarrow> string \<Rightarrow> secret_finding list" where
  "scan_patterns x s =
     concat (map (\<lambda>(regex, label).
       map (\<lambda>(m_start, m_end).
         \<lparr>find_kind = FindPattern, find_label = label, find_start = m_start, find_end = m_end\<rparr>)
         (regex_find_iter x regex s))
       pattern_rules)"

text \<open>\<open>str::find\<close>: the least offset at which the needle occurs.\<close>

fun str_find :: "string \<Rightarrow> string \<Rightarrow> nat option" where
  "str_find needle [] = (if needle = [] then Some 0 else None)"
| "str_find needle (c # cs) =
     (if starts_with needle (c # cs) then Some 0
      else map_option Suc (str_find needle cs))"

definition token_quote_char :: "char \<Rightarrow> bool" where
  "token_quote_char c \<longleftrightarrow>
     c \<in> {CHR 0x22, CHR 0x27, CHR 0x60, CHR '','', CHR '';'', CHR '')'', CHR ''('',
          CHR ''['', CHR '']'', CHR ''{'', CHR ''}''}"

definition entropy_candidate :: "externals \<Rightarrow> string \<Rightarrow> bool" where
  "entropy_candidate x trimmed \<longleftrightarrow>
     \<not> (length trimmed < 20 \<or> 256 < length trimmed)
     \<and> list_all (\<lambda>c. ascii_alphanumeric c \<or> c \<in> {CHR ''-'', CHR ''_'', CHR ''='', CHR ''+'', CHR ''/''})
         trimmed
     \<and> \<not> list_all ascii_digit trimmed
     \<and> entropy_at_least_4_2 x trimmed"

definition scan_entropy :: "externals \<Rightarrow> string \<Rightarrow> secret_finding list" where
  "scan_entropy x s =
     List.map_filter (\<lambda>token.
       let trimmed = trim_matches token_quote_char token in
       if \<not> entropy_candidate x trimmed then None
       else map_option (\<lambda>start.
         \<lparr>find_kind = FindEntropy, find_label = ''high-entropy token'', find_start = start,
          find_end = start + length trimmed\<rparr>) (str_find trimmed s))
       (split_whitespace s)"

definition scan_texts :: "externals \<Rightarrow> string list \<Rightarrow> secret_finding list" where
  "scan_texts x ts = concat (map (\<lambda>t. scan_patterns x t @ scan_entropy x t) ts)"

definition scan_text :: "externals \<Rightarrow> string \<Rightarrow> secret_finding list" where
  "scan_text x t = scan_texts x [t]"

text \<open>
  \<open>crates/retcon-secrets/src/staged.rs\<close>: only the added lines of the staged diff are
  scanned. \<open>diff\<close> is the output of \<open>git diff --cached\<close> cut into lines.
\<close>

definition staged_added_lines :: "string list \<Rightarrow> string list" where
  "staged_added_lines diff =
     map (drop 1) (filter (\<lambda>l. starts_with ''+'' l \<and> \<not> starts_with ''+++'' l) diff)"

definition scan_staged :: "externals \<Rightarrow> string list \<Rightarrow> secret_finding list" where
  "scan_staged x diff = scan_texts x (staged_added_lines diff)"

subsection \<open>What redaction guarantees\<close>

text \<open>The specification: below every sensitive key stands the placeholder and nothing else.\<close>

fun no_plain_secret :: "json \<Rightarrow> bool" where
  "no_plain_secret (JObj kvs) =
     list_all (\<lambda>(k, v). if is_sensitive_key k then v = JStr redacted else no_plain_secret v) kvs"
| "no_plain_secret (JArr vs) = list_all no_plain_secret vs"
| "no_plain_secret _ = True"

text \<open>The same for a list of further field names.\<close>

fun no_plain_field :: "string list \<Rightarrow> json \<Rightarrow> bool" where
  "no_plain_field ks (JObj kvs) =
     list_all (\<lambda>(k, v). if list_ex (eq_ignore_ascii_case k) ks then v = JStr redacted
                        else no_plain_field ks v) kvs"
| "no_plain_field ks (JArr vs) = list_all (no_plain_field ks) vs"
| "no_plain_field ks _ = True"

lemma scrub_json_no_plain: "no_plain_secret (scrub_json x v)"
  by (induction v rule: scrub_json.induct) (auto simp: list_all_iff)

lemma no_plain_secret_redacted [simp]: "no_plain_secret (JStr s)" "no_plain_field ks (JStr s)"
  by simp_all

lemma scrub_string_fields_no_plain: "no_plain_secret (scrub_string_fields ks v)"
  by (induction v rule: scrub_string_fields.induct) (auto simp: list_all_iff)

lemma scrub_string_fields_no_field: "no_plain_field ks (scrub_string_fields ks v)"
  by (induction v rule: scrub_string_fields.induct) (auto simp: list_all_iff)

lemma no_plain_secret_modify:
  assumes "no_plain_secret (JObj kvs)"
    and "\<And>v. no_plain_secret (f v)" and "\<not> is_sensitive_key k"
  shows "no_plain_secret (JObj (entries_modify k f kvs))"
  using assms by (fastforce simp: entries_modify_def list_all_iff)

lemma redact_token_idem: "redact_token (redact_token w) = redact_token w"
proof -
  have "redact_token redacted = redacted"
    by code_simp
  then show ?thesis by (simp add: redact_token_def Let_def)
qed

lemma redact_token_word: "is_word w \<Longrightarrow> is_word (redact_token w)"
  by (auto simp: redact_token_def redacted_def is_word_def ascii_space_def Let_def)

lemma split_redact_text:
  "split_whitespace (redact_text x m)
   = map redact_token (split_whitespace (inline_secret_replace x m))"
  unfolding redact_text_def
  using split_whitespace_words
  by (intro split_whitespace_join) (auto simp: list_all_iff intro: redact_token_word)

lemma str_find_Some:
  "str_find n s = Some i \<Longrightarrow> i + length n \<le> length s \<and> take (length n) (drop i s) = n"
  by (induction s arbitrary: i) (auto simp: starts_with_take split: if_splits)

lemma str_find_None: "str_find n s = None \<Longrightarrow> s \<noteq> a @ n @ b"
proof (induction s arbitrary: a)
  case Nil
  then show ?case by (auto split: if_splits)
next
  case (Cons c cs)
  then show ?case
    by (cases a) (auto simp: starts_with_iff split: if_splits)
qed

lemma map_filter_mem:
  "y \<in> set (List.map_filter f xs) \<longleftrightarrow> (\<exists>x \<in> set xs. f x = Some y)"
  by (force simp: List.map_filter_def)

lemma scan_entropy_mem:
  assumes "f \<in> set (scan_entropy x s)"
  obtains trimmed where "entropy_candidate x trimmed"
    and "str_find trimmed s = Some (find_start f)"
    and "find_end f = find_start f + length trimmed" and "find_label f = ''high-entropy token''"
  using assms by (auto simp: scan_entropy_def map_filter_mem Let_def split: if_splits)

text \<open>C1: no secret survives redaction of a JSON payload: below every key that counts as
  sensitive the result holds the placeholder, whatever the input was, and the per-method pass
  does the same for its own field names.\<close>

theorem scrub_leaves_no_plain_secret:
  "no_plain_secret (scrub_json x v) \<and> no_plain_secret (scrub_string_fields ks v) \<and>
   no_plain_field ks (scrub_string_fields ks v)"
  by (simp add: scrub_json_no_plain scrub_string_fields_no_plain scrub_string_fields_no_field)

text \<open>no word of a redacted text is an assignment to one of the credential names: the
  words of the output are exactly the redacted words of the input, and redacting once more
  changes none of them.\<close>

theorem redact_text_words:
  "split_whitespace (redact_text x m)
     = map redact_token (split_whitespace (inline_secret_replace x m)) \<and>
   map redact_token (split_whitespace (redact_text x m)) = split_whitespace (redact_text x m)"
  by (simp add: split_redact_text redact_token_idem)

text \<open>an entropy finding lies inside the scanned text, spans between 20 and 256 bytes and
  carries only its fixed label, never the token itself.\<close>

theorem scan_entropy_bounds:
  assumes "f \<in> set (scan_entropy x s)"
  shows "find_end f \<le> length s \<and> find_start f + 20 \<le> find_end f \<and>
         find_end f \<le> find_start f + 256 \<and> find_label f = ''high-entropy token''"
  using assms
proof (rule scan_entropy_mem)
  fix trimmed
  assume "entropy_candidate x trimmed" "str_find trimmed s = Some (find_start f)"
    "find_end f = find_start f + length trimmed" "find_label f = ''high-entropy token''"
  then show ?thesis
    using str_find_Some [of trimmed s "find_start f"] by (auto simp: entropy_candidate_def)
qed

definition sample_token :: string where
  "sample_token = ''a1b2c3d4e5f6g7h8i9j0k''"

theorem scan_entropy_bounds_witness:
  "find_end \<lparr>find_kind = FindEntropy, find_label = ''high-entropy token'', find_start = 2,
             find_end = 23\<rparr> \<le> length (''x '' @ sample_token)"
proof -
  let ?x = "sample_externals\<lparr>entropy_at_least_4_2 := \<lambda>s. True\<rparr>"
  have "scan_entropy ?x (''x '' @ sample_token) =
      [\<lparr>find_kind = FindEntropy, find_label = ''high-entropy token'', find_start = 2,
        find_end = 23\<rparr>]"
    by code_simp
  then show ?thesis
    using scan_entropy_bounds [of _ ?x "''x '' @ sample_token"] by (metis list.set_intros(1))
qed

text \<open>the staged scan looks at added lines only: a diff whose lines are context,
  removals or headers is clean. The header test \<open>+++\<close> also drops an added line whose own
  text starts with \<open>++\<close>, which is then never scanned.\<close>

theorem staged_scan_added_only:
  "scan_staged x diff = scan_staged x (filter (starts_with ''+'') diff) \<and>
   (list_all (\<lambda>l. \<not> starts_with ''+'' l) diff \<longrightarrow> scan_is_clean (scan_staged x diff)) \<and>
   scan_is_clean (scan_staged x [''+++'' @ secret])"
proof -
  have a: "staged_added_lines diff = staged_added_lines (filter (starts_with ''+'') diff)"
    by (simp add: staged_added_lines_def conj_commute)
  have b: "list_all (\<lambda>l. \<not> starts_with ''+'' l) diff \<Longrightarrow> staged_added_lines diff = []"
    by (simp add: staged_added_lines_def list_all_iff filter_empty_conv)
  have c: "staged_added_lines [''+++'' @ secret] = []"
    by (simp add: staged_added_lines_def starts_with_def)
  show ?thesis
    using a b c by (simp add: scan_staged_def scan_is_clean_def scan_texts_def)
qed

theorem staged_scan_added_only_witness:
  "scan_is_clean (scan_staged sample_externals [''-password=hunter2'', '' keep''])"
proof -
  have "list_all (\<lambda>l. \<not> starts_with ''+'' l) [''-password=hunter2'', '' keep'']"
    by code_simp
  then show ?thesis
    using staged_scan_added_only [of sample_externals "[''-password=hunter2'', '' keep'']"]
    by blast
qed

end
