(* ===== verification/ApprovalEngine.thy ===== *)
theory ApprovalEngine
  imports PermissionRules Redact
begin

text \<open>
  \<open>crates/retcon-permissions/src/engine.rs\<close>, \<open>audit.rs\<close>, \<open>error.rs\<close> and
  \<open>lib.rs\<close>: the approval engine. A call takes the database and returns it updated; the
  clock reading and the fresh identifier of the call are arguments. Every database call of the
  engine can fail for reasons outside the model (I/O, a poisoned lock): \<open>fault\<close> says which
  calls fail and how, so that the engine's error branches are branches of the model. Metrics
  and log lines are not modelled.
\<close>

subsection \<open>Types\<close>

datatype rpc_permission =
    PermAllowed
  | PermDenied (user_message: string) (technical_message: string)
      (denied_approval_id: "uuid option")

fun is_allowed :: "rpc_permission \<Rightarrow> bool" where
  "is_allowed PermAllowed = True"
| "is_allowed (PermDenied u t a) = False"

record audit_record =
  au_kind :: string
  au_payload :: json

record permission_check =
  pc_permission :: rpc_permission
  pc_audit :: "audit_record list"

datatype permission_error =
    ApprovalNotFound | ApprovalAlreadyDecided | RuleNotFound | PermissionStorage storage_error

datatype engine_call =
    CallLoadRules | CallGetApproval | CallConsumeExplicit | CallFindApproved | CallConsumeFound
  | CallFindPending | CallGetSystemSession | CallGetSystemProject | CallCreateSystemProject
  | CallCreateSystemSession | CallCreateApproval | CallDecide | CallCreateRule

type_synonym faults = "engine_call \<Rightarrow> storage_error option"

definition no_faults :: faults where "no_faults = (\<lambda>c. None)"

definition SYSTEM_PROJECT_ID :: uuid where "SYSTEM_PROJECT_ID = 1"
definition SYSTEM_SESSION_ID :: uuid where "SYSTEM_SESSION_ID = 2"

subsection \<open>Audit records\<close>

definition audit_approval_requested ::
    "externals \<Rightarrow> uuid \<Rightarrow> uuid \<Rightarrow> string \<Rightarrow> approval_category \<Rightarrow> json \<Rightarrow> audit_record" where
  "audit_approval_requested x approval_id session_id m category request =
     \<lparr>au_kind = ''approval.requested'',
      au_payload = JObj
        [(''id'', json_uuid x approval_id), (''sessionId'', json_uuid x session_id),
         (''method'', JStr m), (''category'', JStr (category_as_str category)),
         (''title'', JStr (method_summary m)), (''request'', request)]\<rparr>"

definition audit_approval_decided ::
    "externals \<Rightarrow> uuid \<Rightarrow> uuid \<Rightarrow> string \<Rightarrow> approval_decision \<Rightarrow> string option \<Rightarrow> audit_record"
  where
  "audit_approval_decided x approval_id session_id m decision remember =
     \<lparr>au_kind = ''approval.decided'',
      au_payload = JObj
        [(''id'', json_uuid x approval_id), (''sessionId'', json_uuid x session_id),
         (''method'', JStr m), (''decision'', JStr (decision_as_str decision)),
         (''remember'', json_opt JStr remember)]\<rparr>"

definition audit_rule_created :: "externals \<Rightarrow> uuid \<Rightarrow> rule_effect \<Rightarrow> json \<Rightarrow> audit_record" where
  "audit_rule_created x rule_id effect matcher =
     \<lparr>au_kind = ''permission.rule_created'',
      au_payload = JObj
        [(''id'', json_uuid x rule_id), (''effect'', JStr (effect_as_str effect)),
         (''matcher'', matcher)]\<rparr>"

definition audit_rule_deleted :: "externals \<Rightarrow> uuid \<Rightarrow> audit_record" where
  "audit_rule_deleted x rule_id =
     \<lparr>au_kind = ''permission.rule_deleted'', au_payload = JObj [(''id'', json_uuid x rule_id)]\<rparr>"

subsection \<open>Requests and fingerprints\<close>

fun params_without_approval_id :: "json \<Rightarrow> json" where
  "params_without_approval_id (JObj kvs) = JObj (entries_remove ''approvalId'' kvs)"
| "params_without_approval_id other = other"

text \<open>\<open>{:016x}\<close>.\<close>

definition hex_digit :: "nat \<Rightarrow> char" where
  "hex_digit n = (if n < 10 then char_of (48 + n) else char_of (87 + n))"

definition hex16 :: "nat \<Rightarrow> string" where
  "hex16 n = map (\<lambda>i. hex_digit (n div 16 ^ (15 - i) mod 16)) [0..<16]"

definition request_fingerprint :: "externals \<Rightarrow> string \<Rightarrow> json \<Rightarrow> string" where
  "request_fingerprint x m params =
     (let canonical = JObj [(''method'', JStr m), (''params'', params_without_approval_id params)]
      in hex16 (default_hash x (json_text x canonical)))"

fun scrub_content :: "json \<Rightarrow> json" where
  "scrub_content content =
     (let bytes = (case json_as_str content of None \<Rightarrow> 0 | Some s \<Rightarrow> length s)
      in JStr (''[REDACTED: '' @ decimal bytes @ '' bytes]''))"

fun scrub_environment :: "json \<Rightarrow> json" where
  "scrub_environment (JObj env) = JObj (map (\<lambda>(k, v). (k, JStr redacted)) env)"
| "scrub_environment other = other"

fun modify_field :: "string \<Rightarrow> (json \<Rightarrow> json) \<Rightarrow> json \<Rightarrow> json" where
  "modify_field k f (JObj kvs) = JObj (entries_modify k f kvs)"
| "modify_field k f other = other"

definition scrub_rpc_params :: "externals \<Rightarrow> string \<Rightarrow> json \<Rightarrow> json" where
  "scrub_rpc_params x m params =
     (let s0 = scrub_json x params;
          s1 = (if m = ''file.write'' then modify_field ''content'' scrub_content s0 else s0);
          s2 = (if m \<in> {''browser.call'', ''browser.automation.script'', ''browser.automation.action''}
                then scrub_string_fields
                       [''script'', ''arg'', ''value'', ''text'', ''cookie'', ''cookies'', ''headers''] s1
                else s1)
      in if m = ''devServer.configure'' then modify_field ''environment'' scrub_environment s2
         else s2)"

definition approval_request ::
    "externals \<Rightarrow> string \<Rightarrow> json \<Rightarrow> uuid option \<Rightarrow> string \<Rightarrow> json" where
  "approval_request x m params project_id fingerprint =
     JObj [(''kind'', JStr ''rpc''),
           (''method'', JStr m),
           (''summary'', JStr (method_summary m)),
           (''category'', json_opt (\<lambda>c. JStr (category_as_str c)) (category_for_method m)),
           (''params'', scrub_rpc_params x m (params_without_approval_id params)),
           (''projectId'', json_opt (json_uuid x) project_id),
           (''fingerprint'', JStr fingerprint),
           (''matcher'', JObj [(''method'', JStr m)])]"

definition approval_matches :: "externals \<Rightarrow> approval \<Rightarrow> string \<Rightarrow> json \<Rightarrow> bool" where
  "approval_matches x a m params \<longleftrightarrow>
     json_get_str ''method'' (ap_request a) = Some m \<and>
     json_get_str ''fingerprint'' (ap_request a) = Some (request_fingerprint x m params)"

definition approval_project :: "externals \<Rightarrow> approval \<Rightarrow> uuid option" where
  "approval_project x a =
     Option.bind (json_get_str ''projectId'' (ap_request a)) (uuid_parse_ok x)"

definition approval_project_matches :: "externals \<Rightarrow> approval \<Rightarrow> uuid option \<Rightarrow> bool" where
  "approval_project_matches x a project_id \<longleftrightarrow> approval_project x a = project_id"

definition extract_session_id :: "externals \<Rightarrow> json \<Rightarrow> uuid option" where
  "extract_session_id x params =
     (case Option.bind (json_get_str ''sessionId'' params) (uuid_parse_ok x) of
        Some i \<Rightarrow> Some i
      | None \<Rightarrow> Option.bind (json_get_str ''session_id'' params) (uuid_parse_ok x))"

definition denied_pending :: "externals \<Rightarrow> string \<Rightarrow> uuid \<Rightarrow> rpc_permission" where
  "denied_pending x m approval_id =
     PermDenied (''Retcon blocked '' @ m @ '' because it needs explicit approval.'')
       (''permission denied for '' @ m @ '': pending approval '' @ uuid_text x approval_id)
       (Some approval_id)"

definition allowed_check :: permission_check where
  "allowed_check = \<lparr>pc_permission = PermAllowed, pc_audit = []\<rparr>"

definition denied_check :: "rpc_permission \<Rightarrow> permission_check" where
  "denied_check p = \<lparr>pc_permission = p, pc_audit = []\<rparr>"

subsection \<open>The engine\<close>

definition load_rules :: "faults \<Rightarrow> uuid option \<Rightarrow> db \<Rightarrow> permission_rule list" where
  "load_rules fault project_id d =
     (if fault CallLoadRules \<noteq> None then []
      else case project_id of Some p \<Rightarrow> rules_list_for_project p d | None \<Rightarrow> rules_list_global d)"

definition ensure_system_session ::
    "faults \<Rightarrow> millis \<Rightarrow> db \<Rightarrow> (storage_error, uuid) outcome \<times> db" where
  "ensure_system_session fault now d =
     (case fault CallGetSystemSession of Some e \<Rightarrow> (Inl e, d) | None \<Rightarrow>
      if sessions_get SYSTEM_SESSION_ID d \<noteq> None then (Inr SYSTEM_SESSION_ID, d)
      else case fault CallGetSystemProject of Some e \<Rightarrow> (Inl e, d) | None \<Rightarrow>
      let (made, d1) =
        (if projects_get SYSTEM_PROJECT_ID d = None
         then case fault CallCreateSystemProject of Some e \<Rightarrow> (Inl e, d) | None \<Rightarrow>
           (let (r, d') = projects_create now
                  \<lparr>np_id = SYSTEM_PROJECT_ID, np_name = ''Retcon System''\<rparr> d
            in (map_outcome (\<lambda>p. ()) r, d'))
         else (Inr (), d))
      in case made of Inl e \<Rightarrow> (Inl e, d1) | Inr u \<Rightarrow>
      case fault CallCreateSystemSession of Some e \<Rightarrow> (Inl e, d1) | None \<Rightarrow>
      let (r, d2) = sessions_create now
            \<lparr>ns_id = SYSTEM_SESSION_ID, ns_project_id = SYSTEM_PROJECT_ID,
             ns_title = ''Permission approvals'', ns_status = ''system''\<rparr> d1
      in (map_outcome (\<lambda>s. SYSTEM_SESSION_ID) r, d2))"

text \<open>
  \<open>.consume_approved(id).unwrap_or(false)\<close>.
\<close>

definition try_consume :: "faults \<Rightarrow> engine_call \<Rightarrow> uuid \<Rightarrow> db \<Rightarrow> bool \<times> db" where
  "try_consume fault c i d =
     (if fault c \<noteq> None then (False, d) else approvals_consume_approved i d)"

text \<open>
  The stage that honours an explicit \<open>approvalId\<close>: \<open>Some\<close> is an early return, \<open>None\<close>
  falls through to the next stage.
\<close>

definition check_explicit_approval ::
    "externals \<Rightarrow> faults \<Rightarrow> string \<Rightarrow> json \<Rightarrow> uuid option \<Rightarrow> db
       \<Rightarrow> permission_check option \<times> db" where
  "check_explicit_approval x fault m params project_id d =
     (case Option.bind (json_get_str ''approvalId'' params) (uuid_parse_ok x) of
        None \<Rightarrow> (None, d)
      | Some i \<Rightarrow>
          (case fault CallGetApproval of
             Some e \<Rightarrow> (Some (denied_check (PermDenied
                        (''Retcon could not verify approval for '' @ m @ ''.'')
                        (storage_error_text x e) None)), d)
           | None \<Rightarrow>
               (case approvals_get i d of
                  Some a \<Rightarrow>
                    if ap_status a = ''approved'' \<and> approval_matches x a m params
                       \<and> approval_project_matches x a project_id
                    then (let (consumed, d') = try_consume fault CallConsumeExplicit (ap_id a) d
                          in if consumed then (Some allowed_check, d') else (None, d'))
                    else (None, d)
                | None \<Rightarrow> (None, d))))"

text \<open>The stage that looks for an approval or a pending request of the same fingerprint.\<close>

definition check_known_request ::
    "externals \<Rightarrow> faults \<Rightarrow> string \<Rightarrow> json \<Rightarrow> uuid option \<Rightarrow> db
       \<Rightarrow> permission_check option \<times> db" where
  "check_known_request x fault m params project_id d =
     (let fingerprint = request_fingerprint x m params;
          (consumed, d1) =
            (if fault CallFindApproved \<noteq> None then (False, d)
             else case approvals_find_approved_by_fingerprint fingerprint d of
                    Some a \<Rightarrow> if approval_project_matches x a project_id
                              then try_consume fault CallConsumeFound (ap_id a) d
                              else (False, d)
                  | None \<Rightarrow> (False, d))
      in if consumed then (Some allowed_check, d1)
         else if fault CallFindPending \<noteq> None then (None, d1)
         else case approvals_find_pending_by_fingerprint fingerprint d1 of
                Some existing \<Rightarrow> (Some (denied_check (denied_pending x m (ap_id existing))), d1)
              | None \<Rightarrow> (None, d1))"

text \<open>The session an approval is filed under: the caller's, or the system session.\<close>

definition approval_session ::
    "faults \<Rightarrow> externals \<Rightarrow> millis \<Rightarrow> string \<Rightarrow> json \<Rightarrow> db \<Rightarrow> uuid \<times> db" where
  "approval_session fault x now m params d =
     (case (if starts_with ''browser.'' m then None else extract_session_id x params) of
        Some s \<Rightarrow> (s, d)
      | None \<Rightarrow>
          (let (r, d') = ensure_system_session fault now d
           in (case r of Inr s \<Rightarrow> s | Inl e \<Rightarrow> SYSTEM_SESSION_ID, d')))"

text \<open>The last stage: record a new pending approval and deny.\<close>

definition request_new_approval ::
    "externals \<Rightarrow> faults \<Rightarrow> millis \<Rightarrow> uuid \<Rightarrow> string \<Rightarrow> json \<Rightarrow> uuid option \<Rightarrow> db
       \<Rightarrow> permission_check \<times> db" where
  "request_new_approval x fault now fresh m params project_id d =
     (let fingerprint = request_fingerprint x m params;
          (session_id, d1) = approval_session fault x now m params d;
          category = (case category_for_method m of Some c \<Rightarrow> c | None \<Rightarrow> CatSystem);
          request = approval_request x m params project_id fingerprint;
          (created, d2) =
            (case fault CallCreateApproval of
               Some e \<Rightarrow> (Inl e, d1)
             | None \<Rightarrow> approvals_create now
                 \<lparr>na_id = fresh, na_session_id = session_id, na_tool_call_id = None,
                  na_status = ''pending'', na_request = request\<rparr> d1)
      in case created of
           Inl e \<Rightarrow> (denied_check (PermDenied
                     (''Retcon blocked '' @ m @ '' because approval could not be recorded.'')
                     (storage_error_text x e) None), d2)
         | Inr a \<Rightarrow>
             (\<lparr>pc_permission = denied_pending x m (ap_id a),
               pc_audit = [audit_approval_requested x (ap_id a) session_id m category request]\<rparr>,
              d2))"

definition check_rpc ::
    "externals \<Rightarrow> faults \<Rightarrow> bool \<Rightarrow> millis \<Rightarrow> uuid \<Rightarrow> string \<Rightarrow> json \<Rightarrow> uuid option \<Rightarrow> db
       \<Rightarrow> permission_check \<times> db" where
  "check_rpc x fault bypass now fresh m params project_id d =
     (if bypass then (allowed_check, d)
      else if \<not> requires_approval m then (allowed_check, d)
      else let rules = load_rules fault project_id d in
      if evaluate_rules rules m project_id now = Some EffectDeny
      then (denied_check (PermDenied
              (''Retcon blocked '' @ m @ '' because a permission rule denied it.'')
              (''permission denied for '' @ m @ '': matching deny rule'') None), d)
      else if evaluate_rules rules m project_id now = Some EffectAllow then (allowed_check, d)
      else case check_explicit_approval x fault m params project_id d of
             (Some c, d1) \<Rightarrow> (c, d1)
           | (None, d1) \<Rightarrow>
               (case check_known_request x fault m params project_id d1 of
                  (Some c, d2) \<Rightarrow> (c, d2)
                | (None, d2) \<Rightarrow> request_new_approval x fault now fresh m params project_id d2))"

text \<open>\<open>check_rpc_method_with_bypass\<close> of \<open>lib.rs\<close>, the engine-less check.\<close>

definition check_rpc_method_with_bypass :: "string \<Rightarrow> bool \<Rightarrow> rpc_permission" where
  "check_rpc_method_with_bypass m bypass =
     (if bypass then PermAllowed
      else if requires_approval m
      then PermDenied (''Retcon blocked '' @ m @ '' because it needs explicit approval.'')
             (''permission denied for '' @ m @
              '': approval engine unavailable (set RETCON_PERMISSIONS_BYPASS=1 for dev)'') None
      else PermAllowed)"

fun decided_status :: "approval_decision \<Rightarrow> string" where
  "decided_status Approve = ''approved''"
| "decided_status DecideDeny = ''denied''"

definition decision_payload :: "approval_decision \<Rightarrow> remember_scope \<Rightarrow> json" where
  "decision_payload decision remember =
     JObj [(''decision'', JStr (decision_as_str decision)),
           (''remember'', JStr (remember_as_str remember))]"

text \<open>The block of \<open>decide\<close> that turns an approval into a standing allow rule.\<close>

definition remember_approval ::
    "externals \<Rightarrow> faults \<Rightarrow> millis \<Rightarrow> uuid \<Rightarrow> approval \<Rightarrow> string \<Rightarrow> uuid option \<Rightarrow> approval
       \<Rightarrow> audit_record list \<Rightarrow> db
       \<Rightarrow> (permission_error, approval \<times> audit_record list) outcome \<times> db" where
  "remember_approval x fault now fresh a m remembered_project_id updated audit d =
     (let matcher = (case json_get ''matcher'' (ap_request a) of
                       Some v \<Rightarrow> v | None \<Rightarrow> JObj [(''method'', JStr m)])
      in case fault CallCreateRule of Some e \<Rightarrow> (Inl (PermissionStorage e), d) | None \<Rightarrow>
      let (c, d') = rules_create now
            \<lparr>nr_id = fresh, nr_project_id = remembered_project_id, nr_scope = ''rpc'',
             nr_effect = ''allow'', nr_matcher = matcher, nr_expires_at = None\<rparr> d
      in case c of Inl e \<Rightarrow> (Inl (PermissionStorage e), d')
         | Inr rule \<Rightarrow>
             (Inr (updated, audit @ [audit_rule_created x (ru_id rule) EffectAllow matcher]), d'))"

definition decide ::
    "externals \<Rightarrow> faults \<Rightarrow> millis \<Rightarrow> uuid \<Rightarrow> uuid \<Rightarrow> approval_decision \<Rightarrow> remember_scope
       \<Rightarrow> uuid option \<Rightarrow> db
       \<Rightarrow> (permission_error, approval \<times> audit_record list) outcome \<times> db" where
  "decide x fault now fresh approval_id decision remember project_id d =
     (case fault CallGetApproval of Some e \<Rightarrow> (Inl (PermissionStorage e), d) | None \<Rightarrow>
      case approvals_get approval_id d of None \<Rightarrow> (Inl ApprovalNotFound, d) | Some a \<Rightarrow>
      if ap_status a \<noteq> ''pending'' then (Inl ApprovalAlreadyDecided, d)
      else
        let m = (case json_get_str ''method'' (ap_request a) of Some s \<Rightarrow> s | None \<Rightarrow> ''unknown'');
            remembered_project_id =
              (case approval_project x a of Some p \<Rightarrow> Some p | None \<Rightarrow> project_id);
            st = decided_status decision;
            payload = decision_payload decision remember
        in case fault CallDecide of Some e \<Rightarrow> (Inl (PermissionStorage e), d) | None \<Rightarrow>
        let (r, d1) = approvals_decide now approval_id st payload d
        in case r of Inl e \<Rightarrow> (Inl (PermissionStorage e), d1) | Inr updated \<Rightarrow>
        let audit = [audit_approval_decided x approval_id (ap_session_id updated) m decision
                       (Some (remember_as_str remember))]
        in if decision = Approve \<and> remember = RememberAlways
           then remember_approval x fault now fresh a m remembered_project_id updated audit d1
           else (Inr (updated, audit), d1))"

definition create_rule ::
    "externals \<Rightarrow> millis \<Rightarrow> new_permission_rule \<Rightarrow> db
       \<Rightarrow> (permission_error, permission_rule \<times> audit_record) outcome \<times> db" where
  "create_rule x now rule d =
     (let (r, d1) = rules_create now rule d
      in case r of Inl e \<Rightarrow> (Inl (PermissionStorage e), d1)
         | Inr created \<Rightarrow>
             (let effect = (case effect_parse (ru_effect created) of
                              Some e \<Rightarrow> e | None \<Rightarrow> EffectDeny)
              in (Inr (created, audit_rule_created x (ru_id created) effect (ru_matcher created)), d1)))"

definition delete_rule :: "uuid \<Rightarrow> db \<Rightarrow> bool \<times> db" where
  "delete_rule rule_id d = rules_delete rule_id d"

definition list_rules :: "uuid \<Rightarrow> db \<Rightarrow> permission_rule list" where
  "list_rules project_id d = rules_list_for_project project_id d"

definition list_approvals :: "string option \<Rightarrow> uuid option \<Rightarrow> nat \<Rightarrow> db \<Rightarrow> approval list" where
  "list_approvals st session_id limit d = approvals_list st session_id limit d"

definition pending_count :: "db \<Rightarrow> nat" where
  "pending_count d = approvals_count_pending d"

end
