(* ===== verification/ApprovalSafety.thy ===== *)
theory ApprovalSafety
  imports ApprovalEngine
begin

text \<open>
  What the approval engine of \<open>ApprovalEngine\<close> guarantees: the lifecycle of an approval
  row, single use, who may pass the gate and why, what is stored about a request.
\<close>

subsection \<open>The lifecycle of an approval\<close>

inductive approval_step :: "approval \<Rightarrow> approval \<Rightarrow> bool" where
  decided: "ap_status a = ''pending'' \<Longrightarrow> st = ''approved'' \<or> st = ''denied'' \<Longrightarrow>
     approval_step a (a\<lparr>ap_status := st, ap_decision := Some p, ap_decided_at := Some t\<rparr>)"
| used: "ap_status a = ''approved'' \<Longrightarrow> approval_step a (a\<lparr>ap_status := ''consumed''\<rparr>)"

inductive_cases approval_stepE: "approval_step a b"

definition approval_spent :: "approval \<Rightarrow> bool" where
  "approval_spent a \<longleftrightarrow> ap_status a = ''denied'' \<or> ap_status a = ''consumed''"

lemma approval_step_keeps:
  "approval_step a b \<Longrightarrow> ap_id b = ap_id a \<and> ap_request b = ap_request a
     \<and> ap_session_id b = ap_session_id a \<and> ap_requested_at b = ap_requested_at a"
  by (auto elim: approval_stepE)

lemma approval_spent_final: "approval_spent a \<Longrightarrow> \<not> approval_step a b"
  by (auto simp: approval_spent_def elim!: approval_stepE)

lemma approval_steps_keep:
  "approval_step\<^sup>*\<^sup>* a b \<Longrightarrow> ap_id b = ap_id a \<and> ap_request b = ap_request a
     \<and> ap_session_id b = ap_session_id a \<and> ap_requested_at b = ap_requested_at a"
  by (induction rule: rtranclp_induct) (auto dest: approval_step_keeps)

lemma approval_spent_steps: "approval_step\<^sup>*\<^sup>* a b \<Longrightarrow> approval_spent a \<Longrightarrow> b = a"
  by (induction rule: converse_rtranclp_induct) (auto dest: approval_spent_final)

text \<open>
  How the approval table may change: every row present moves along the lifecycle in place,
  and the rows appended start as undecided requests.
\<close>

definition requested_row :: "approval \<Rightarrow> bool" where
  "requested_row a \<longleftrightarrow> ap_status a = ''pending'' \<and> ap_decision a = None \<and> ap_decided_at a = None"

definition approvals_evolve :: "approval list \<Rightarrow> approval list \<Rightarrow> bool" where
  "approvals_evolve t t' \<longleftrightarrow>
     (\<exists>old new. t' = old @ new \<and> list_all2 approval_step\<^sup>*\<^sup>* t old
        \<and> (\<forall>b \<in> set new. \<exists>a. requested_row a \<and> approval_step\<^sup>*\<^sup>* a b))"

lemma approvals_evolveI:
  "list_all2 approval_step\<^sup>*\<^sup>* t old \<Longrightarrow>
   (\<And>b. b \<in> set new \<Longrightarrow> \<exists>a. requested_row a \<and> approval_step\<^sup>*\<^sup>* a b) \<Longrightarrow>
   approvals_evolve t (old @ new)"
  by (auto simp: approvals_evolve_def)

lemma approvals_evolve_refl [simp]: "approvals_evolve t t"
  using approvals_evolveI [of t t "[]"] by (simp add: list_all2_refl)

lemma approvals_evolve_update:
  assumes "\<And>a. p a \<Longrightarrow> approval_step a (f a)"
  shows "approvals_evolve t (update_rows p f t)"
proof -
  have "list_all2 approval_step\<^sup>*\<^sup>* t (update_rows p f t)"
    using assms by (auto simp: update_rows_def list_all2_conv_all_nth)
  then show ?thesis using approvals_evolveI [of t _ "[]"] by simp
qed

lemma approvals_evolve_append: "requested_row a \<Longrightarrow> approvals_evolve t (t @ [a])"
  by (rule approvals_evolveI) (auto simp: list_all2_refl)

lemma approvals_evolve_trans [trans]:
  assumes "approvals_evolve t t'" and "approvals_evolve t' t''"
  shows "approvals_evolve t t''"
proof -
  obtain old new where t': "t' = old @ new" and old: "list_all2 approval_step\<^sup>*\<^sup>* t old"
    and new: "\<forall>b \<in> set new. \<exists>a. requested_row a \<and> approval_step\<^sup>*\<^sup>* a b"
    using assms(1) by (auto simp: approvals_evolve_def)
  obtain old' new' where t'': "t'' = old' @ new'" and old': "list_all2 approval_step\<^sup>*\<^sup>* t' old'"
    and new': "\<forall>b \<in> set new'. \<exists>a. requested_row a \<and> approval_step\<^sup>*\<^sup>* a b"
    using assms(2) by (auto simp: approvals_evolve_def)
  obtain u v where uv: "old' = u @ v" "list_all2 approval_step\<^sup>*\<^sup>* old u"
    "list_all2 approval_step\<^sup>*\<^sup>* new v"
    using old' by (auto simp: t' list_all2_append1)
  have "list_all2 approval_step\<^sup>*\<^sup>* t u"
    using old uv(2) by (rule list_all2_trans [rotated]) (rule rtranclp_trans)
  moreover have "\<exists>a. requested_row a \<and> approval_step\<^sup>*\<^sup>* a b" if "b \<in> set v" for b
    using that uv(3) new by (auto simp: in_set_conv_nth list_all2_conv_all_nth)
      (metis nth_mem rtranclp_trans)
  ultimately show ?thesis
    using new' approvals_evolveI [of t u "v @ new'"] by (auto simp: t'' uv(1))
qed

lemma approvals_evolve_row:
  assumes "approvals_evolve t t'" and "distinct (map ap_id t')"
    and "find (\<lambda>a. ap_id a = i) t = Some a"
  shows "\<exists>b. find (\<lambda>a. ap_id a = i) t' = Some b \<and> approval_step\<^sup>*\<^sup>* a b"
proof -
  obtain old new where t': "t' = old @ new" and old: "list_all2 approval_step\<^sup>*\<^sup>* t old"
    using assms(1) by (auto simp: approvals_evolve_def)
  obtain n where n: "n < length t" "t ! n = a" "ap_id a = i"
    using assms(3) by (auto simp: find_Some_iff)
  then have b: "old ! n \<in> set t'" "approval_step\<^sup>*\<^sup>* a (old ! n)"
    using old by (auto simp: t' list_all2_conv_all_nth)
  then have "ap_id (old ! n) = i" using n(3) by (auto dest: approval_steps_keep)
  then show ?thesis using b assms(2) find_key_unique by metis
qed

subsection \<open>The operations move rows along the lifecycle\<close>

named_theorems engine_frame \<open>what the engine's stages do to the approval table\<close>

lemma consume_evolves [engine_frame]:
  "approvals_evolve (approvals d) (approvals (snd (approvals_consume_approved i d)))"
  by (auto simp: approvals_consume_approved_def Let_def
      intro!: approvals_evolve_update approval_step.used)

lemma decide_row_evolves [engine_frame]:
  "st = ''approved'' \<or> st = ''denied'' \<Longrightarrow>
   approvals_evolve (approvals d) (approvals (snd (approvals_decide now i st payload d)))"
  by (auto simp: approvals_decide_def Let_def
      intro!: approvals_evolve_update approval_step.decided)

lemma create_evolves [engine_frame]:
  "na_status a = ''pending'' \<Longrightarrow>
   approvals_evolve (approvals d) (approvals (snd (approvals_create now a d)))"
  by (auto simp: approvals_create_def Let_def requested_row_def intro!: approvals_evolve_append)

lemma projects_create_approvals [simp]: "approvals (snd (projects_create now p d)) = approvals d"
  by (simp add: projects_create_def Let_def)

lemma sessions_create_approvals [simp]: "approvals (snd (sessions_create now s d)) = approvals d"
  by (simp add: sessions_create_def Let_def)

lemma rules_create_approvals [simp]: "approvals (snd (rules_create now r d)) = approvals d"
  by (simp add: rules_create_def Let_def split: option.splits)

lemma ensure_system_session_approvals [simp]:
  "approvals (snd (ensure_system_session fault now d)) = approvals d"
  using projects_create_approvals [of now "\<lparr>np_id = SYSTEM_PROJECT_ID, np_name = ''Retcon System''\<rparr>" d]
  by (simp add: ensure_system_session_def Let_def case_prod_beta split: option.splits sum.splits)

subsection \<open>Why a request is allowed\<close>

lemma consume_false: "fst (approvals_consume_approved i d) = False \<Longrightarrow>
    snd (approvals_consume_approved i d) = d"
  by (auto simp: approvals_consume_approved_def Let_def count_rows_0_iff update_rows_none)

lemma try_consume_false: "try_consume fault c i d = (False, d') \<Longrightarrow> d' = d"
  using consume_false [of i d] by (auto simp: try_consume_def split: if_splits)

lemma try_consume_true: "try_consume fault c i d = (True, d') \<Longrightarrow>
    d' = snd (approvals_consume_approved i d)"
  by (auto simp: try_consume_def split: if_splits)

text \<open>The approval that pays for a request: approved, of this request, of this project.\<close>

definition pays_for :: "externals \<Rightarrow> string \<Rightarrow> json \<Rightarrow> uuid option \<Rightarrow> approval \<Rightarrow> bool" where
  "pays_for x m params project_id a \<longleftrightarrow>
     ap_status a = ''approved'' \<and>
     json_get_str ''fingerprint'' (ap_request a) = Some (request_fingerprint x m params) \<and>
     approval_project_matches x a project_id"

text \<open>
  The three ways a stage of \<open>check_rpc\<close> ends. A denial names no approval or one that
  is in the database.
\<close>

definition denial :: "db \<Rightarrow> rpc_permission \<Rightarrow> bool" where
  "denial d c \<longleftrightarrow> \<not> is_allowed c \<and>
     (denied_approval_id c = None \<or> denied_approval_id c \<in> Some ` ap_id ` set (approvals d))"

definition stage_ends ::
    "externals \<Rightarrow> string \<Rightarrow> json \<Rightarrow> uuid option \<Rightarrow> db \<Rightarrow> permission_check option \<times> db \<Rightarrow> bool" where
  "stage_ends x m params p d res \<longleftrightarrow>
     res = (None, d) \<or>
     (\<exists>c. res = (Some (denied_check c), d) \<and> denial d c) \<or>
     (\<exists>a \<in> set (approvals d). pays_for x m params p a \<and>
        res = (Some allowed_check, snd (approvals_consume_approved (ap_id a) d)))"

lemma stage_ends_consume:
  assumes "a \<in> set (approvals d)" and "pays_for x m params p a"
  shows "stage_ends x m params p d
           (let (consumed, d') = try_consume fault k (ap_id a) d
            in if consumed then (Some allowed_check, d') else (None, d'))"
  using assms try_consume_true [of fault k "ap_id a" d] try_consume_false [of fault k "ap_id a" d]
  by (auto simp: stage_ends_def split: prod.splits)

lemma stage_ends_pass [simp]: "stage_ends x m params p d (None, d)"
  by (simp add: stage_ends_def)

lemma stage_ends_denied [simp]: "denial d c \<Longrightarrow> stage_ends x m params p d (Some (denied_check c), d)"
  by (auto simp: stage_ends_def)

lemma denial_simps [simp]:
  "denial d (PermDenied u t None)" "denial d c \<Longrightarrow> \<not> is_allowed c"
  "denial d (denied_pending x m i) \<longleftrightarrow> i \<in> ap_id ` set (approvals d)"
  by (auto simp: denial_def denied_pending_def)

lemma check_explicit_ends: "stage_ends x m params p d (check_explicit_approval x fault m params p d)"
proof (cases "Option.bind (json_get_str ''approvalId'' params) (uuid_parse_ok x)")
  case None
  then show ?thesis by (simp add: check_explicit_approval_def)
next
  case (Some i)
  note i = this
  show ?thesis
  proof (cases "fault CallGetApproval")
    case (Some e)
    with i show ?thesis by (simp add: check_explicit_approval_def)
  next
    case None
    note f = this
    show ?thesis
    proof (cases "approvals_get i d")
      case None
      with i f show ?thesis by (simp add: check_explicit_approval_def)
    next
      case (Some a)
      have "stage_ends x m params p d
              (let (consumed, d') = try_consume fault CallConsumeExplicit (ap_id a) d
               in if consumed then (Some allowed_check, d') else (None, d'))"
        if "ap_status a = ''approved''" "approval_matches x a m params" "approval_project_matches x a p"
        using that approvals_get_Some [OF Some]
        by (intro stage_ends_consume) (auto simp: pays_for_def approval_matches_def)
      with i f Some show ?thesis by (simp add: check_explicit_approval_def)
    qed
  qed
qed

lemma denied_pending_denied [simp]: "\<not> is_allowed (denied_pending x m i)"
  by (simp add: denied_pending_def)

lemma pending_lookup_ends:
  "stage_ends x m params p d
     (if fault CallFindPending \<noteq> None then (None, d)
      else case approvals_find_pending_by_fingerprint fp d of
             Some existing \<Rightarrow> (Some (denied_check (denied_pending x m (ap_id existing))), d)
           | None \<Rightarrow> (None, d))"
  unfolding approvals_find_pending_by_fingerprint_def
  by (auto split: option.split dest!: first_row_Some intro!: stage_ends_denied)

lemma check_known_ends: "stage_ends x m params p d (check_known_request x fault m params p d)"
proof (cases "\<exists>a. fault CallFindApproved = None \<and> approval_project_matches x a p \<and>
    approvals_find_approved_by_fingerprint (request_fingerprint x m params) d = Some a")
  case False
  have inner: "(if fault CallFindApproved \<noteq> None then (False, d)
      else case approvals_find_approved_by_fingerprint (request_fingerprint x m params) d of
             Some a \<Rightarrow> if approval_project_matches x a p
                       then try_consume fault CallConsumeFound (ap_id a) d else (False, d)
           | None \<Rightarrow> (False, d)) = (False, d)"
    using False by (auto split: option.split)
  have "check_known_request x fault m params p d =
     (if fault CallFindPending \<noteq> None then (None, d)
      else case approvals_find_pending_by_fingerprint (request_fingerprint x m params) d of
             Some existing \<Rightarrow> (Some (denied_check (denied_pending x m (ap_id existing))), d)
           | None \<Rightarrow> (None, d))"
    unfolding check_known_request_def unfolding Let_def
    unfolding inner unfolding prod.case if_False by (rule refl)
  then show ?thesis by (simp only: pending_lookup_ends)
next
  case True
  then obtain a where a: "fault CallFindApproved = None" "approval_project_matches x a p"
    "approvals_find_approved_by_fingerprint (request_fingerprint x m params) d = Some a" by blast
  then have pay: "a \<in> set (approvals d)" "pays_for x m params p a"
    unfolding approvals_find_approved_by_fingerprint_def
    by (auto dest!: first_row_Some simp: pays_for_def)
  obtain b d1 where t: "try_consume fault CallConsumeFound (ap_id a) d = (b, d1)"
    by (cases "try_consume fault CallConsumeFound (ap_id a) d")
  show ?thesis
  proof (cases b)
    case True
    with a t pay show ?thesis
      using try_consume_true
      by (auto simp: check_known_request_def Let_def stage_ends_def)
  next
    case False
    then have "d1 = d" using t by (auto dest: try_consume_false)
    then have "check_known_request x fault m params p d =
     (if fault CallFindPending \<noteq> None then (None, d)
      else case approvals_find_pending_by_fingerprint (request_fingerprint x m params) d of
             Some existing \<Rightarrow> (Some (denied_check (denied_pending x m (ap_id existing))), d)
           | None \<Rightarrow> (None, d))"
      using False a t by (simp add: check_known_request_def Let_def)
    then show ?thesis by (simp only: pending_lookup_ends)
  qed
qed

lemma request_new_denies:
  "request_new_approval x fault now fresh m params p d = (c, d') \<Longrightarrow> \<not> is_allowed (pc_permission c)"
  by (auto simp: request_new_approval_def Let_def denied_check_def case_prod_beta split: sum.splits)

lemma check_rpc_gate:
  "\<not> bypass \<Longrightarrow> requires_approval m \<Longrightarrow>
   evaluate_rules (load_rules fault p d) m p now = None \<Longrightarrow>
   check_rpc x fault bypass now fresh m params p d =
     (case check_explicit_approval x fault m params p d of
        (Some c, d1) \<Rightarrow> (c, d1)
      | (None, d1) \<Rightarrow>
          (case check_known_request x fault m params p d1 of
             (Some c, d2) \<Rightarrow> (c, d2)
           | (None, d2) \<Rightarrow> request_new_approval x fault now fresh m params p d2))"
  by (simp add: check_rpc_def)

text \<open>Every way \<open>check_rpc\<close> can end once no rule has decided.\<close>

lemma check_rpc_gate_cases:
  assumes "\<not> bypass" and "requires_approval m"
    and "evaluate_rules (load_rules fault p d) m p now = None"
  obtains (denied) c where "check_rpc x fault bypass now fresh m params p d = (denied_check c, d)"
      "denial d c"
  | (paid) a where "a \<in> set (approvals d)" "pays_for x m params p a"
      "check_rpc x fault bypass now fresh m params p d
         = (allowed_check, snd (approvals_consume_approved (ap_id a) d))"
  | (asked) "check_rpc x fault bypass now fresh m params p d
      = request_new_approval x fault now fresh m params p d"
      "check_explicit_approval x fault m params p d = (None, d)"
      "check_known_request x fault m params p d = (None, d)"
proof -
  note gate = check_rpc_gate [OF assms, of x fresh params]
  show ?thesis
    using check_explicit_ends [of x m params p d fault] unfolding stage_ends_def
  proof (elim disjE bexE exE conjE)
    assume e: "check_explicit_approval x fault m params p d = (None, d)"
    show ?thesis
      using check_known_ends [of x m params p d fault] unfolding stage_ends_def
    proof (elim disjE bexE exE conjE)
      assume "check_known_request x fault m params p d = (None, d)"
      with e gate asked show ?thesis by simp
    qed (use e gate denied paid in simp_all)
  qed (use gate denied paid in simp_all)
qed

lemma allowed_check_simps [simp]:
  "pc_permission allowed_check = PermAllowed" "pc_audit allowed_check = []"
  "pc_permission (denied_check c) = c" "pc_audit (denied_check c) = []"
  by (simp_all add: allowed_check_def denied_check_def)

lemma check_rpc_reason:
  assumes "check_rpc x fault bypass now fresh m params p d = (c, d')"
    and "is_allowed (pc_permission c)"
  shows "bypass \<or> \<not> requires_approval m \<or>
    evaluate_rules (load_rules fault p d) m p now = Some EffectAllow \<or>
    (\<exists>a. a \<in> set (approvals d) \<and> pays_for x m params p a \<and>
       d' = snd (approvals_consume_approved (ap_id a) d))"
proof (cases "bypass \<or> \<not> requires_approval m")
  case False
  then have g: "\<not> bypass" "requires_approval m" by auto
  show ?thesis
  proof (cases "evaluate_rules (load_rules fault p d) m p now")
    case None
    from g(1) g(2) None show ?thesis
      by (cases rule: check_rpc_gate_cases [of bypass m fault p d now x fresh params])
        (use assms in \<open>auto dest: request_new_denies [OF sym]\<close>)
  next
    case (Some e)
    with g assms show ?thesis by (cases e) (auto simp: check_rpc_def)
  qed
qed auto

text \<open>the gate is closed by default. A request of a protected method passes only when the
  developer bypass is on, when the first applicable permission rule allows it, or by an approval
  that was given for exactly this request and this project, and that approval is used up by the
  same call.\<close>

theorem check_rpc_allowed_has_reason:
  assumes "check_rpc x fault bypass now fresh m params p d = (c, d')"
    and "is_allowed (pc_permission c)"
  shows "bypass \<or> \<not> requires_approval m \<or>
    evaluate_rules (load_rules fault p d) m p now = Some EffectAllow \<or>
    (\<exists>a. a \<in> set (approvals d) \<and> pays_for x m params p a \<and>
       d' = snd (approvals_consume_approved (ap_id a) d))"
  using assms by (rule check_rpc_reason)

text \<open>a deny rule is final: whatever approvals exist, a request whose first applicable
  rule is a deny rule is refused, and nothing is consumed, recorded or audited.\<close>

theorem deny_rule_is_final:
  assumes "evaluate_rules (load_rules fault p d) m p now = Some EffectDeny"
    and "requires_approval m"
  shows "snd (check_rpc x fault False now fresh m params p d) = d \<and>
    (let c = fst (check_rpc x fault False now fresh m params p d)
     in \<not> is_allowed (pc_permission c) \<and> denied_approval_id (pc_permission c) = None \<and> pc_audit c = [])"
  using assms by (simp add: check_rpc_def Let_def)

subsection \<open>What one operation does to the approval table\<close>

text \<open>The row that a recorded request adds.\<close>

definition new_request_row ::
    "externals \<Rightarrow> millis \<Rightarrow> uuid \<Rightarrow> uuid \<Rightarrow> string \<Rightarrow> json \<Rightarrow> uuid option \<Rightarrow> new_approval" where
  "new_request_row x now fresh s m params p =
     \<lparr>na_id = fresh, na_session_id = s, na_tool_call_id = None, na_status = ''pending'',
      na_request = approval_request x m params p (request_fingerprint x m params)\<rparr>"

definition appended_request :: "externals \<Rightarrow> approval list \<Rightarrow> approval list \<Rightarrow> bool" where
  "appended_request x t t' \<longleftrightarrow>
     (\<exists>a m params p. t' = t @ [a] \<and> requested_row a \<and> ap_id a \<notin> ap_id ` set t
        \<and> ap_request a = approval_request x m params p (request_fingerprint x m params))"

lemma approvals_create_cases:
  fixes x now fresh s m params p d
  defines "d' \<equiv> snd (approvals_create now (new_request_row x now fresh s m params p) d)"
  shows "approvals d' = approvals d \<or> appended_request x (approvals d) (approvals d')"
  unfolding d'_def
  by (auto simp: approvals_create_def appended_request_def requested_row_def new_request_row_def
      Let_def image_iff)

lemma approval_session_approvals [simp]:
  "approvals (snd (approval_session fault x now m params d)) = approvals d"
  by (simp add: approval_session_def Let_def case_prod_beta split: option.split)

lemma request_new_snd:
  "snd (request_new_approval x fault now fresh m params p d) =
     (let (s, d1) = approval_session fault x now m params d
      in if fault CallCreateApproval = None
         then snd (approvals_create now (new_request_row x now fresh s m params p) d1) else d1)"
  by (simp add: request_new_approval_def new_request_row_def Let_def case_prod_beta
      split: option.split sum.split)

lemma request_new_cases:
  "approvals (snd (request_new_approval x fault now fresh m params p d)) = approvals d
   \<or> appended_request x (approvals d) (approvals (snd (request_new_approval x fault now fresh m params p d)))"
proof (cases "approval_session fault x now m params d")
  case (Pair s d1)
  then have d1: "approvals d1 = approvals d"
    using approval_session_approvals [of fault x now m params d] by simp
  from approvals_create_cases [of now x fresh s m params p d1] show ?thesis
    by (simp add: request_new_snd Pair d1)
qed

text \<open>An operation runs at most one statement on the table.\<close>

definition consumed_rows :: "uuid \<Rightarrow> approval list \<Rightarrow> approval list" where
  "consumed_rows i t = update_rows (\<lambda>r. ap_id r = i \<and> ap_status r = ''approved'')
     (\<lambda>r. r\<lparr>ap_status := ''consumed''\<rparr>) t"

definition decided_rows :: "millis \<Rightarrow> uuid \<Rightarrow> string \<Rightarrow> json \<Rightarrow> approval list \<Rightarrow> approval list" where
  "decided_rows now i st decision t =
     update_rows (\<lambda>r. ap_id r = i \<and> ap_status r = ''pending'')
       (\<lambda>r. r\<lparr>ap_status := st, ap_decision := Some decision, ap_decided_at := Some now\<rparr>) t"

lemma approvals_consume_rows [simp]:
  "approvals (snd (approvals_consume_approved i d)) = consumed_rows i (approvals d)"
  by (simp add: approvals_consume_approved_def consumed_rows_def Let_def)

lemma approvals_decide_rows [simp]:
  "approvals (snd (approvals_decide now i st payload d)) = decided_rows now i st payload (approvals d)"
  by (simp add: approvals_decide_def decided_rows_def Let_def)

definition gated :: "faults \<Rightarrow> bool \<Rightarrow> millis \<Rightarrow> string \<Rightarrow> uuid option \<Rightarrow> db \<Rightarrow> bool" where
  "gated fault bypass now m p d \<longleftrightarrow> \<not> bypass \<and> requires_approval m \<and>
     evaluate_rules (load_rules fault p d) m p now = None"

lemma check_rpc_not_gated:
  "\<not> gated fault bypass now m p d \<Longrightarrow> snd (check_rpc x fault bypass now fresh m params p d) = d"
proof -
  assume n: "\<not> gated fault bypass now m p d"
  show ?thesis
  proof (cases "bypass \<or> \<not> requires_approval m")
    case True
    then show ?thesis by (auto simp: check_rpc_def)
  next
    case False
    with n obtain e where "evaluate_rules (load_rules fault p d) m p now = Some e"
      by (auto simp: gated_def)
    with False show ?thesis by (cases e) (simp_all add: check_rpc_def Let_def)
  qed
qed

lemma check_rpc_rows:
  fixes x fault bypass now fresh m params p d
  defines "res \<equiv> check_rpc x fault bypass now fresh m params p d"
  obtains (same) "approvals (snd res) = approvals d"
      "gated fault bypass now m p d \<Longrightarrow> \<not> is_allowed (pc_permission (fst res))"
  | (paid) a where "gated fault bypass now m p d" "a \<in> set (approvals d)" "pays_for x m params p a"
      "fst res = allowed_check" "approvals (snd res) = consumed_rows (ap_id a) (approvals d)"
  | (asked) "appended_request x (approvals d) (approvals (snd res))"
      "\<not> is_allowed (pc_permission (fst res))"
proof (cases "gated fault bypass now m p d")
  case False
  with same show ?thesis by (simp add: res_def check_rpc_not_gated)
next
  case True
  then have g: "\<not> bypass" "requires_approval m"
    "evaluate_rules (load_rules fault p d) m p now = None"
    by (simp_all add: gated_def)
  show ?thesis
  proof (cases rule: check_rpc_gate_cases [OF g, of x fresh params])
    case (1 c)
    then show ?thesis using same by (simp add: res_def)
  next
    case (2 a)
    then show ?thesis using paid True by (simp add: res_def)
  next
    case 3
    moreover have "\<not> is_allowed (pc_permission (fst (request_new_approval x fault now fresh m params p d)))"
      using request_new_denies prod.collapse by metis
    ultimately show ?thesis
      using same asked request_new_cases [of x fault now fresh m params p d] by (auto simp: res_def)
  qed
qed

lemma remember_approval_approvals [simp]:
  "approvals (snd (remember_approval x fault now fresh a m rp updated audit d)) = approvals d"
  by (simp add: remember_approval_def Let_def case_prod_beta split: option.split sum.split)

lemma decide_rows_cases:
  "approvals (snd (decide x fault now fresh i decision remember p d))
   \<in> {approvals d, decided_rows now i (decided_status decision) (decision_payload decision remember) (approvals d)}"
  unfolding decide_def Let_def case_prod_beta by (simp split: option.split sum.split)

lemma decide_rows:
  fixes x fault now fresh i decision remember p d
  defines "d' \<equiv> snd (decide x fault now fresh i decision remember p d)"
  obtains (same) "approvals d' = approvals d"
  | (decided) "approvals d' = decided_rows now i (decided_status decision)
        (decision_payload decision remember) (approvals d)"
  using decide_rows_cases unfolding d'_def by blast

subsection \<open>Runs of the engine\<close>

datatype engine_op =
    OpCheck faults bool millis uuid string json "uuid option"
  | OpDecide faults millis uuid uuid approval_decision remember_scope "uuid option"
  | OpCreateRule millis new_permission_rule
  | OpDeleteRule uuid

fun engine_step :: "externals \<Rightarrow> engine_op \<Rightarrow> db \<Rightarrow> db" where
  "engine_step x (OpCheck fault bypass now fresh m params p) d =
     snd (check_rpc x fault bypass now fresh m params p d)"
| "engine_step x (OpDecide fault now fresh i decision remember p) d =
     snd (decide x fault now fresh i decision remember p d)"
| "engine_step x (OpCreateRule now r) d = snd (create_rule x now r d)"
| "engine_step x (OpDeleteRule i) d = snd (delete_rule i d)"

text \<open>A request that passes although no bypass and no rule lets it pass.\<close>

fun engine_grants :: "externals \<Rightarrow> engine_op \<Rightarrow> db \<Rightarrow> nat" where
  "engine_grants x (OpCheck fault bypass now fresh m params p) d =
     (if gated fault bypass now m p d
         \<and> is_allowed (pc_permission (fst (check_rpc x fault bypass now fresh m params p d)))
      then 1 else 0)"
| "engine_grants x op d = 0"

fun engine_earns :: "engine_op \<Rightarrow> nat" where
  "engine_earns (OpDecide fault now fresh i decision remember p) = (if decision = Approve then 1 else 0)"
| "engine_earns op = 0"

definition approvals_approved :: "db \<Rightarrow> nat" where
  "approvals_approved d = count_rows (\<lambda>a. ap_status a = ''approved'') (approvals d)"

definition approval_ids_distinct :: "db \<Rightarrow> bool" where
  "approval_ids_distinct d \<longleftrightarrow> distinct (map ap_id (approvals d))"

lemma consumed_rows_evolve: "approvals_evolve t (consumed_rows i t)"
  by (auto simp: consumed_rows_def intro!: approvals_evolve_update approval_step.used)

lemma decided_rows_evolve:
  "approvals_evolve t (decided_rows now i (decided_status decision) payload t)"
  by (cases decision)
    (auto simp: decided_rows_def intro!: approvals_evolve_update approval_step.decided)

lemma appended_request_evolve: "appended_request x t t' \<Longrightarrow> approvals_evolve t t'"
  by (auto simp: appended_request_def intro!: approvals_evolve_append)

lemma create_rule_approvals [simp]: "approvals (snd (create_rule x now r d)) = approvals d"
  by (simp add: create_rule_def Let_def case_prod_beta split: sum.split)

lemma delete_rule_approvals [simp]: "approvals (snd (delete_rule i d)) = approvals d"
  by (simp add: delete_rule_def rules_delete_def)

lemma engine_step_evolves: "approvals_evolve (approvals d) (approvals (engine_step x op d))"
proof (cases op)
  case (OpCheck fault bypass now fresh m params p)
  show ?thesis
    by (cases rule: check_rpc_rows [of x fault bypass now fresh m params p d])
      (simp_all add: OpCheck consumed_rows_evolve appended_request_evolve)
next
  case (OpDecide fault now fresh i decision remember p)
  show ?thesis
    by (cases rule: decide_rows [of x fault now fresh i decision remember p d])
      (simp_all add: OpDecide decided_rows_evolve)
qed simp_all

lemma distinct_ids_simps [simp]:
  "map ap_id (consumed_rows i t) = map ap_id t"
  "map ap_id (decided_rows now i st payload t) = map ap_id t"
  by (simp_all add: consumed_rows_def decided_rows_def map_update_rows_same)

lemma appended_request_distinct:
  "appended_request x t t' \<Longrightarrow> distinct (map ap_id t) \<Longrightarrow> distinct (map ap_id t')"
  by (auto simp: appended_request_def)

lemma engine_step_distinct: "approval_ids_distinct d \<Longrightarrow> approval_ids_distinct (engine_step x op d)"
proof (cases op)
  case (OpCheck fault bypass now fresh m params p)
  assume "approval_ids_distinct d"
  then show ?thesis
    by (cases rule: check_rpc_rows [of x fault bypass now fresh m params p d])
      (auto simp: OpCheck approval_ids_distinct_def dest: appended_request_distinct)
next
  case (OpDecide fault now fresh i decision remember p)
  assume "approval_ids_distinct d"
  then show ?thesis
    by (cases rule: decide_rows [of x fault now fresh i decision remember p d])
      (simp_all add: OpDecide approval_ids_distinct_def)
qed (simp_all add: approval_ids_distinct_def)

subsection \<open>Counting approved rows\<close>

lemma count_consumed_le:
  "count_rows (\<lambda>a. ap_status a = ''approved'') (consumed_rows i t)
   \<le> count_rows (\<lambda>a. ap_status a = ''approved'') t"
  by (induction t) (auto simp: consumed_rows_def count_rows_def)

lemma count_consumed:
  assumes "a \<in> set t" and "ap_status a = ''approved''"
  shows "Suc (count_rows (\<lambda>a. ap_status a = ''approved'') (consumed_rows (ap_id a) t))
    \<le> count_rows (\<lambda>a. ap_status a = ''approved'') t"
  using assms
proof (induction t)
  case (Cons r t)
  have le: "count_rows (\<lambda>a. ap_status a = ''approved'') (consumed_rows (ap_id a) t)
      \<le> count_rows (\<lambda>a. ap_status a = ''approved'') t"
    by (rule count_consumed_le)
  show ?case
  proof (cases "r = a")
    case True
    with le Cons.prems show ?thesis by (simp add: consumed_rows_def count_rows_def)
  next
    case False
    with Cons show ?thesis by (auto simp: consumed_rows_def count_rows_def)
  qed
qed simp

lemma count_decided_other:
  "i \<notin> ap_id ` set t \<Longrightarrow> decided_rows now i st payload t = t"
  by (auto simp: decided_rows_def intro!: update_rows_none)

lemma count_decided:
  "distinct (map ap_id t) \<Longrightarrow>
   count_rows (\<lambda>a. ap_status a = ''approved'') (decided_rows now i (decided_status decision) payload t)
   \<le> count_rows (\<lambda>a. ap_status a = ''approved'') t + (if decision = Approve then 1 else 0)"
proof (induction t)
  case (Cons r t)
  show ?case
  proof (cases "ap_id r = i")
    case True
    with Cons.prems have "decided_rows now i (decided_status decision) payload t = t"
      by (intro count_decided_other) auto
    with True show ?thesis by (cases decision) (auto simp: decided_rows_def count_rows_def)
  next
    case False
    with Cons show ?thesis by (auto simp: decided_rows_def count_rows_def)
  qed
qed (simp add: decided_rows_def count_rows_def)

lemma engine_step_pays:
  assumes "approval_ids_distinct d"
  shows "engine_grants x op d + approvals_approved (engine_step x op d)
    \<le> approvals_approved d + engine_earns op"
proof (cases op)
  case (OpCheck fault bypass now fresh m params p)
  show ?thesis
  proof (cases rule: check_rpc_rows [of x fault bypass now fresh m params p d])
    case same
    then show ?thesis by (auto simp: OpCheck approvals_approved_def)
  next
    case (paid a)
    then show ?thesis
      using count_consumed [of a "approvals d"]
      by (simp add: OpCheck approvals_approved_def pays_for_def)
  next
    case asked
    then show ?thesis
      by (auto simp: OpCheck approvals_approved_def appended_request_def requested_row_def count_rows_def)
  qed
next
  case (OpDecide fault now fresh i decision remember p)
  show ?thesis
    using assms count_decided [of "approvals d" now i decision "decision_payload decision remember"]
    by (cases rule: decide_rows [of x fault now fresh i decision remember p d])
      (simp_all add: OpDecide approvals_approved_def approval_ids_distinct_def)
qed (simp_all add: approvals_approved_def)

interpretation gate: metered approval_ids_distinct "engine_step x" approvals_approved
    "engine_grants x" engine_earns for x
  by unfold_locales (simp_all only: engine_step_distinct engine_step_pays)

subsection \<open>What is stored about a request\<close>

definition approval_scrubbed :: "approval \<Rightarrow> bool" where
  "approval_scrubbed a \<longleftrightarrow>
     (case json_get ''params'' (ap_request a) of None \<Rightarrow> False | Some v \<Rightarrow> no_plain_secret v)"

lemma modify_field_no_plain:
  assumes "no_plain_secret v" and "\<And>u. no_plain_secret u \<Longrightarrow> no_plain_secret (f u)"
    and "\<not> is_sensitive_key k"
  shows "no_plain_secret (modify_field k f v)"
  using assms by (cases "(k, f, v)" rule: modify_field.cases)
    (fastforce simp: entries_modify_def list_all_iff)+

lemma scrub_environment_no_plain: "no_plain_secret v \<Longrightarrow> no_plain_secret (scrub_environment v)"
  by (cases v rule: scrub_environment.cases) (auto simp: list_all_iff)

lemma plain_field_names: "\<not> is_sensitive_key ''content''" "\<not> is_sensitive_key ''environment''"
  by code_simp+

lemma scrub_rpc_params_no_plain: "no_plain_secret (scrub_rpc_params x m params)"
proof -
  define s1 where "s1 = (if m = ''file.write''
    then modify_field ''content'' scrub_content (scrub_json x params) else scrub_json x params)"
  have s1: "no_plain_secret s1"
    by (auto simp: s1_def scrub_json_no_plain plain_field_names Let_def intro!: modify_field_no_plain)
  define s2 where "s2 = (if m \<in> {''browser.call'', ''browser.automation.script'', ''browser.automation.action''}
    then scrub_string_fields
           [''script'', ''arg'', ''value'', ''text'', ''cookie'', ''cookies'', ''headers''] s1 else s1)"
  have s2: "no_plain_secret s2"
    unfolding s2_def using s1 scrub_string_fields_no_plain by (simp only: split: if_split) simp
  have "scrub_rpc_params x m params =
      (if m = ''devServer.configure'' then modify_field ''environment'' scrub_environment s2 else s2)"
    unfolding scrub_rpc_params_def Let_def s2_def s1_def by (rule refl)
  moreover have "no_plain_secret (modify_field ''environment'' scrub_environment s2)"
    using s2 scrub_environment_no_plain plain_field_names(2) by (rule modify_field_no_plain)
  ultimately show ?thesis using s2 by (simp only: split: if_split) simp
qed

lemma json_get_params [simp]:
  "json_get ''params'' (approval_request x m params p fp)
     = Some (scrub_rpc_params x m (params_without_approval_id params))"
  "json_get_str ''fingerprint'' (approval_request x m params p fp) = Some fp"
  "json_get_str ''method'' (approval_request x m params p fp) = Some m"
  "json_get ''matcher'' (approval_request x m params p fp) = Some (JObj [(''method'', JStr m)])"
  "json_get_str ''projectId'' (approval_request x m params p fp) = map_option (uuid_text x) p"
  by (simp_all add: approval_request_def json_get_str_def json_uuid_def split: option.split)
    (cases p; simp add: json_uuid_def)

lemma appended_request_scrubbed:
  "appended_request x t t' \<Longrightarrow> list_all approval_scrubbed t \<Longrightarrow> list_all approval_scrubbed t'"
  by (auto simp: appended_request_def approval_scrubbed_def scrub_rpc_params_no_plain)

lemma rows_scrubbed:
  "list_all approval_scrubbed t \<Longrightarrow> list_all approval_scrubbed (consumed_rows i t)"
  "list_all approval_scrubbed t \<Longrightarrow> list_all approval_scrubbed (decided_rows now i st payload t)"
  by (auto simp: consumed_rows_def decided_rows_def list_all_iff set_update_rows approval_scrubbed_def)

lemma engine_step_scrubbed:
  assumes "list_all approval_scrubbed (approvals d)"
  shows "list_all approval_scrubbed (approvals (engine_step x op d))"
proof (cases op)
  case (OpCheck fault bypass now fresh m params p)
  with assms show ?thesis
    by (cases rule: check_rpc_rows [of x fault bypass now fresh m params p d])
      (simp_all add: rows_scrubbed appended_request_scrubbed)
next
  case (OpDecide fault now fresh i decision remember p)
  with assms show ?thesis
    by (cases rule: decide_rows [of x fault now fresh i decision remember p d])
      (simp_all add: rows_scrubbed)
qed (use assms in simp_all)

subsection \<open>A sample conversation with the engine\<close>

text \<open>
  A push is requested, approved once, retried: the states before each call.
\<close>

definition sample_request :: approval where
  "sample_request =
     \<lparr>ap_id = 7, ap_session_id = SYSTEM_SESSION_ID, ap_tool_call_id = None, ap_status = ''pending'',
      ap_request = approval_request sample_externals ''git.push'' (JObj []) None
        (request_fingerprint sample_externals ''git.push'' (JObj [])),
      ap_decision = None, ap_requested_at = 10, ap_decided_at = None\<rparr>"

definition sample_requested :: db where
  "sample_requested = empty_db\<lparr>
     projects := [\<lparr>pr_id = SYSTEM_PROJECT_ID, pr_name = ''Retcon System'', pr_created_at = 10,
                   pr_updated_at = 10, pr_archived_at = None\<rparr>],
     sessions := [\<lparr>se_id = SYSTEM_SESSION_ID, se_project_id = SYSTEM_PROJECT_ID,
                   se_title = ''Permission approvals'', se_status = ''system'', se_created_at = 10,
                   se_updated_at = 10, se_recovery_state = None\<rparr>],
     approvals := [sample_request]\<rparr>"

definition sample_approved :: db where
  "sample_approved = sample_requested\<lparr>approvals :=
     [sample_request\<lparr>ap_status := ''approved'',
        ap_decision := Some (decision_payload Approve RememberOnce), ap_decided_at := Some 20\<rparr>]\<rparr>"

definition sample_consumed :: db where
  "sample_consumed = sample_requested\<lparr>approvals :=
     [sample_request\<lparr>ap_status := ''consumed'',
        ap_decision := Some (decision_payload Approve RememberOnce), ap_decided_at := Some 20\<rparr>]\<rparr>"

lemma push_protected: "category_for_method ''git.push'' = Some CatGit"
  by (simp add: category_for_method_def)

lemmas sample_defs = sample_requested_def sample_approved_def sample_consumed_def sample_request_def empty_db_def

lemmas engine_evals = check_rpc_def check_explicit_approval_def check_known_request_def
  request_new_approval_def approval_session_def ensure_system_session_def load_rules_def
  rules_list_global_def requires_approval_def push_protected no_faults_def Let_def
  projects_get_def sessions_get_def projects_create_def sessions_create_def approvals_create_def
  approvals_find_approved_by_fingerprint_def approvals_find_pending_by_fingerprint_def first_row_def
  SYSTEM_PROJECT_ID_def SYSTEM_SESSION_ID_def approval_project_matches_def approval_project_def
  decision_payload_def try_consume_def approvals_consume_approved_def extract_session_id_def
  starts_with_def count_rows_def

lemma sample_request_check:
  "check_rpc sample_externals no_faults False 10 7 ''git.push'' (JObj []) None empty_db
     = (\<lparr>pc_permission = denied_pending sample_externals ''git.push'' 7,
         pc_audit = [audit_approval_requested sample_externals 7 SYSTEM_SESSION_ID ''git.push'' CatGit
           (ap_request sample_request)]\<rparr>, sample_requested)"
  by (simp add: engine_evals sample_defs)

lemma sample_decision:
  "snd (decide sample_externals no_faults 20 8 7 Approve RememberOnce None sample_requested)
     = sample_approved"
  by (simp add: decide_def engine_evals sample_defs approvals_get_def approvals_decide_def)

lemma sample_retry:
  "check_rpc sample_externals no_faults False 30 9 ''git.push'' (JObj []) None sample_approved
     = (allowed_check, sample_consumed)"
  by (simp add: engine_evals sample_defs)

theorem check_rpc_allowed_has_reason_witness:
  "\<exists>a. a \<in> set (approvals sample_approved) \<and> pays_for sample_externals ''git.push'' (JObj []) None a \<and>
     sample_consumed = snd (approvals_consume_approved (ap_id a) sample_approved)"
proof -
  have "is_allowed (pc_permission allowed_check)" by simp
  from check_rpc_allowed_has_reason [OF sample_retry this] show ?thesis
    by (simp add: requires_approval_def push_protected load_rules_def no_faults_def
        rules_list_global_def sample_approved_def sample_requested_def empty_db_def)
qed

text \<open>A database whose only rule forbids git operations.\<close>

definition sample_deny :: db where
  "sample_deny = empty_db\<lparr>permission_rules :=
     [\<lparr>ru_id = 3, ru_project_id = None, ru_scope = ''rpc'', ru_effect = ''deny'',
       ru_matcher = JObj [(''category'', JStr ''git'')], ru_created_at = 1, ru_expires_at = None\<rparr>]\<rparr>"

lemma sample_deny_rule:
  "evaluate_rules (load_rules no_faults None sample_deny) ''git.push'' None 10 = Some EffectDeny"
  by (simp add: load_rules_def no_faults_def rules_list_global_def sample_deny_def empty_db_def
      rule_skipped_def matcher_matches_def push_protected effect_parse_def)

theorem deny_rule_is_final_witness:
  "snd (check_rpc sample_externals no_faults False 10 7 ''git.push'' (JObj []) None sample_deny) = sample_deny"
  using deny_rule_is_final [OF sample_deny_rule, of sample_externals 7 "JObj []"]
  by (simp add: requires_approval_def push_protected)

text \<open>C2: an approval row has one history. Along any run of engine operations (checks, decisions,
  rule changes, in any order, with any storage faults) a row keeps its identifier and its request
  and only moves pending to approved or denied, approved to consumed; a denied or consumed row
  never changes again.\<close>

theorem approval_row_history:
  assumes "approval_ids_distinct d" and "approvals_get i d = Some a"
  shows "\<exists>b. approvals_get i (run (engine_step x) ops d) = Some b \<and> approval_step\<^sup>*\<^sup>* a b \<and>
    ap_request b = ap_request a \<and> (approval_spent a \<longrightarrow> b = a)"
proof -
  have "approvals_evolve (approvals d) (approvals (run (engine_step x) ops d))"
    by (rule run_invariant [where I = "\<lambda>s. approvals_evolve (approvals d) (approvals s)"])
      (use engine_step_evolves approvals_evolve_trans in blast, simp)
  moreover have "distinct (map ap_id (approvals (run (engine_step x) ops d)))"
    using gate.run_inv [OF assms(1)] by (simp add: approval_ids_distinct_def)
  ultimately obtain b where "approvals_get i (run (engine_step x) ops d) = Some b" "approval_step\<^sup>*\<^sup>* a b"
    using assms(2) approvals_evolve_row unfolding approvals_get_def by blast
  then show ?thesis using approval_steps_keep approval_spent_steps by blast
qed

theorem approval_row_history_witness:
  "approvals_get 7 (run (engine_step sample_externals)
      [OpDecide no_faults 40 11 7 DecideDeny RememberOnce None,
       OpCheck no_faults False 50 12 ''git.push'' (JObj []) None] sample_consumed)
   = approvals_get 7 sample_consumed"
proof -
  let ?a = "sample_request\<lparr>ap_status := ''consumed'',
    ap_decision := Some (decision_payload Approve RememberOnce), ap_decided_at := Some 20\<rparr>"
  have "approval_ids_distinct sample_consumed"
    by (simp add: approval_ids_distinct_def sample_consumed_def)
  moreover have "approvals_get 7 sample_consumed = Some ?a"
    by (simp add: approvals_get_def sample_consumed_def sample_request_def)
  moreover have "approval_spent ?a" by (simp add: approval_spent_def)
  ultimately show ?thesis using approval_row_history by metis
qed

text \<open>C3: approvals are not reusable. In any run of the engine the protected requests that pass
  without a bypass and without a rule are at most as many as the approvals that were approved at
  the start plus the approve decisions made during the run: every such request is paid for by an
  approval of its own.\<close>

theorem grants_bounded_by_approvals:
  assumes "approval_ids_distinct d"
  shows "sum_along (engine_step x) (engine_grants x) ops d
    \<le> approvals_approved d + sum_list (map engine_earns ops)"
  using gate.run_bound [OF assms, of x ops] by simp

theorem grants_bounded_by_approvals_witness:
  "sum_along (engine_step sample_externals) (engine_grants sample_externals)
     [OpCheck no_faults False 30 9 ''git.push'' (JObj []) None,
      OpCheck no_faults False 31 10 ''git.push'' (JObj []) None] sample_approved \<le> 1"
  using grants_bounded_by_approvals [of sample_approved sample_externals
      "[OpCheck no_faults False 30 9 ''git.push'' (JObj []) None,
        OpCheck no_faults False 31 10 ''git.push'' (JObj []) None]"]
  by (simp add: approval_ids_distinct_def approvals_approved_def count_rows_def sample_approved_def)

text \<open>C4: no secret reaches the approval store: whatever requests a run of the engine sees, below
  every sensitive key of every stored request stands the placeholder, at any depth.\<close>

theorem stored_requests_scrubbed:
  "list_all approval_scrubbed (approvals (run (engine_step x) ops empty_db))"
  by (rule run_invariant [where I = "\<lambda>s. list_all approval_scrubbed (approvals s)"])
    (simp_all add: engine_step_scrubbed empty_db_def)

subsection \<open>Asking, deciding, retrying\<close>

lemma first_row_append_other:
  "\<not> p r \<Longrightarrow> first_row k p (t @ [r]) = first_row k p t"
  by (simp add: first_row_def)

lemma first_row_append_first:
  assumes "p r" and "\<And>q. q \<in> set t \<Longrightarrow> p q \<Longrightarrow> k r < k q"
  shows "first_row k p (t @ [r]) = Some r"
proof -
  obtain q where q: "first_row k p (t @ [r]) = Some q"
    using assms(1) first_row_None [of k p "t @ [r]"] by (cases "first_row k p (t @ [r])") auto
  from first_row_Some [OF this] have "q \<in> set (t @ [r])" "p q" "k q \<le> k r"
    using assms(1) by auto
  then have "q = r" using assms(2) by fastforce
  with q show ?thesis by simp
qed

lemma load_rules_same:
  "permission_rules d' = permission_rules d \<Longrightarrow> load_rules fault p d' = load_rules fault p d"
  by (simp add: load_rules_def rules_list_for_project_def rules_list_global_def split: option.split)

lemma ensure_system_session_rules [simp]:
  "permission_rules (snd (ensure_system_session fault now d)) = permission_rules d"
  by (simp add: ensure_system_session_def Let_def case_prod_beta projects_create_def sessions_create_def
      split: option.splits sum.splits)

lemma approval_session_rules [simp]:
  "permission_rules (snd (approval_session fault x now m params d)) = permission_rules d"
  by (simp add: approval_session_def Let_def case_prod_beta split: option.split)

definition recorded_row ::
    "externals \<Rightarrow> millis \<Rightarrow> uuid \<Rightarrow> uuid \<Rightarrow> string \<Rightarrow> json \<Rightarrow> uuid option \<Rightarrow> approval" where
  "recorded_row x now fresh s m params p =
     \<lparr>ap_id = fresh, ap_session_id = s, ap_tool_call_id = None, ap_status = ''pending'',
      ap_request = approval_request x m params p (request_fingerprint x m params),
      ap_decision = None, ap_requested_at = now, ap_decided_at = None\<rparr>"

lemma request_new_recorded:
  assumes "request_new_approval x fault now fresh m params p d = (c, d')"
    and "denied_approval_id (pc_permission c) = Some i"
  obtains s where "approvals d' = approvals d @ [recorded_row x now fresh s m params p]"
    and "permission_rules d' = permission_rules d" and "i = fresh" and "fresh \<notin> ap_id ` set (approvals d)"
proof -
  obtain s d1 where s: "approval_session fault x now m params d = (s, d1)"
    by (cases "approval_session fault x now m params d")
  have d1: "approvals d1 = approvals d" "permission_rules d1 = permission_rules d"
    using approval_session_approvals [of fault x now m params d]
      approval_session_rules [of fault x now m params d] s by simp_all
  have f: "fault CallCreateApproval = None"
    using assms s
    by (auto simp: request_new_approval_def Let_def denied_check_def split: option.splits)
  obtain a where cr: "approvals_create now (new_request_row x now fresh s m params p) d1 = (Inr a, d')"
    and i: "i = ap_id a"
    using assms s f
    by (cases "fst (approvals_create now (new_request_row x now fresh s m params p) d1)")
      (auto simp: request_new_approval_def new_request_row_def denied_pending_def Let_def
        case_prod_beta prod_eq_iff)
  then have "fresh \<notin> ap_id ` set (approvals d)" "a = recorded_row x now fresh s m params p"
    "approvals d' = approvals d @ [a]" "permission_rules d' = permission_rules d"
    by (auto simp: approvals_create_def new_request_row_def recorded_row_def d1 Let_def
        split: if_splits)
  then show ?thesis using that i by (simp add: recorded_row_def)
qed

lemma pending_answer_gated:
  assumes "check_rpc x fault False now fresh m params p d = (c, d')"
    and "pc_permission c = denied_pending x m i"
  shows "gated fault False now m p d"
proof (rule ccontr)
  assume n: "\<not> gated fault False now m p d"
  show False
  proof (cases "requires_approval m")
    case False
    with assms show False by (simp add: check_rpc_def denied_pending_def)
  next
    case True
    with n obtain e where "evaluate_rules (load_rules fault p d) m p now = Some e"
      by (auto simp: gated_def)
    with assms True show False
      by (cases e) (auto simp: check_rpc_def denied_pending_def)
  qed
qed

text \<open>A request without an explicit \<open>approvalId\<close> that was recorded under a fresh identifier.\<close>

lemma consume_found:
  "approvals_find_approved_by_fingerprint fp d = Some a \<Longrightarrow>
   try_consume no_faults k (ap_id a) d = (True, snd (approvals_consume_approved (ap_id a) d))"
  unfolding approvals_find_approved_by_fingerprint_def
  by (auto dest!: first_row_Some simp: try_consume_def no_faults_def approvals_consume_approved_def
      Let_def count_rows_pos_iff)

text \<open>The lookup by fingerprint, spelled out for a database without faults.\<close>

definition known_approval :: "externals \<Rightarrow> string \<Rightarrow> json \<Rightarrow> uuid option \<Rightarrow> db \<Rightarrow> approval option" where
  "known_approval x m params p d =
     (case approvals_find_approved_by_fingerprint (request_fingerprint x m params) d of
        Some a \<Rightarrow> if approval_project_matches x a p then Some a else None
      | None \<Rightarrow> None)"

lemma check_known_no_faults:
  "check_known_request x no_faults m params p d =
     (case known_approval x m params p d of
        Some a \<Rightarrow> (Some allowed_check, snd (approvals_consume_approved (ap_id a) d))
      | None \<Rightarrow>
          (case approvals_find_pending_by_fingerprint (request_fingerprint x m params) d of
             Some b \<Rightarrow> (Some (denied_check (denied_pending x m (ap_id b))), d)
           | None \<Rightarrow> (None, d)))"
proof (cases "approvals_find_approved_by_fingerprint (request_fingerprint x m params) d")
  case None
  then show ?thesis
    by (simp add: check_known_request_def known_approval_def Let_def no_faults_def)
next
  case (Some a)
  then show ?thesis
    by (simp add: check_known_request_def known_approval_def Let_def no_faults_def
        consume_found [unfolded no_faults_def])
qed

lemma check_explicit_absent:
  "json_get_str ''approvalId'' params = None \<Longrightarrow>
   check_explicit_approval x fault m params p d = (None, d)"
  by (simp add: check_explicit_approval_def)

text \<open>A request without an explicit \<open>approvalId\<close> that was recorded under a fresh identifier.\<close>

lemma check_rpc_recorded:
  assumes "check_rpc x fault False now fresh m params p d = (c, d')"
    and "pc_permission c = denied_pending x m fresh" and "fresh \<notin> ap_id ` set (approvals d)"
  obtains s where "approvals d' = approvals d @ [recorded_row x now fresh s m params p]"
    and "permission_rules d' = permission_rules d" and "gated fault False now m p d"
    and "check_known_request x fault m params p d = (None, d)"
proof -
  have "gated fault False now m p d"
    by (rule pending_answer_gated [OF assms(1,2)])
  note g = this
  then have "\<not> False" "requires_approval m" "evaluate_rules (load_rules fault p d) m p now = None"
    by (simp_all add: gated_def)
  then show ?thesis
  proof (cases rule: check_rpc_gate_cases [of False m fault p d now x fresh params])
    case (denied e)
    with assms show ?thesis by auto
  next
    case (paid a)
    with assms show ?thesis by (simp add: denied_pending_def)
  next
    case asked
    then have n: "request_new_approval x fault now fresh m params p d = (c, d')"
      using assms(1) by simp
    have "denied_approval_id (pc_permission c) = Some fresh"
      using assms(2) by (simp add: denied_pending_def)
    from request_new_recorded [OF n this] show ?thesis using that g asked by metis
  qed
qed

text \<open>A gated request that names no approval, on a database without faults.\<close>

lemma check_rpc_plain:
  assumes "gated no_faults False now m p d" and "json_get_str ''approvalId'' params = None"
  shows "check_rpc x no_faults False now fresh m params p d =
    (case known_approval x m params p d of
       Some a \<Rightarrow> (allowed_check, snd (approvals_consume_approved (ap_id a) d))
     | None \<Rightarrow>
         (case approvals_find_pending_by_fingerprint (request_fingerprint x m params) d of
            Some b \<Rightarrow> (denied_check (denied_pending x m (ap_id b)), d)
          | None \<Rightarrow> request_new_approval x no_faults now fresh m params p d))"
proof -
  have g: "\<not> False" "requires_approval m" "evaluate_rules (load_rules no_faults p d) m p now = None"
    using assms(1) by (simp_all add: gated_def)
  show ?thesis
    by (simp add: check_rpc_gate [OF g] check_explicit_absent [OF assms(2)] check_known_no_faults
        split: option.split)
qed

lemma gated_same_rules:
  "permission_rules d' = permission_rules d \<Longrightarrow> gated fault b now m p d' = gated fault b now m p d"
  by (simp add: gated_def load_rules_same [of d' d])

lemma known_approval_append:
  "approvals d' = approvals d @ [a] \<Longrightarrow> ap_status a \<noteq> ''approved'' \<Longrightarrow>
   known_approval x m params p d' = known_approval x m params p d"
  by (simp add: known_approval_def approvals_find_approved_by_fingerprint_def first_row_append_other)

lemma find_pending_append:
  "approvals d' = approvals d @ [recorded_row x now fresh s m params p] \<Longrightarrow>
   approvals_find_pending_by_fingerprint (request_fingerprint x m params) d = None \<Longrightarrow>
   approvals_find_pending_by_fingerprint (request_fingerprint x m params) d'
     = Some (recorded_row x now fresh s m params p)"
  unfolding approvals_find_pending_by_fingerprint_def
  by (simp only:, rule first_row_append_first) (auto simp: recorded_row_def first_row_None)

text \<open>asking again does not multiply requests. While an approval is pending, the same request
  (same method and parameters, no rule about it) is answered with the same approval identifier
  and changes nothing in the database.\<close>

theorem repeated_request_same_approval:
  assumes "check_rpc x no_faults False t1 f1 m params p d = (c, d')"
    and "pc_permission c = denied_pending x m i"
    and "json_get_str ''approvalId'' params = None"
    and "evaluate_rules (load_rules no_faults p d) m p t2 = None"
  shows "check_rpc x no_faults False t2 f2 m params p d' = (denied_check (denied_pending x m i), d')"
proof -
  have g1: "gated no_faults False t1 m p d"
    by (rule pending_answer_gated [OF assms(1,2)])
  with assms(4) have g2: "gated no_faults False t2 m p d" by (simp add: gated_def)
  note first = check_rpc_plain [OF g1 assms(3), of x f1] assms(1)
  have k: "known_approval x m params p d = None"
    using first assms(2) by (cases "known_approval x m params p d") (auto simp: denied_pending_def)
  let ?fp = "request_fingerprint x m params"
  show ?thesis
  proof (cases "approvals_find_pending_by_fingerprint ?fp d")
    case (Some b)
    with first k have "d' = d" "c = denied_check (denied_pending x m (ap_id b))" by auto
    with assms(2) Some k show ?thesis
      using check_rpc_plain [OF g2 assms(3), of x f2] by (simp add: denied_pending_def)
  next
    case None
    with first k have "request_new_approval x no_faults t1 f1 m params p d = (c, d')" by simp
    then obtain s where rows: "approvals d' = approvals d @ [recorded_row x t1 f1 s m params p]"
      and rules: "permission_rules d' = permission_rules d" and i: "i = f1"
      by (rule request_new_recorded) (use assms(2) in \<open>auto simp: denied_pending_def\<close>)
    have "known_approval x m params p d' = None"
      using known_approval_append [OF rows] k by (simp add: recorded_row_def)
    moreover have "approvals_find_pending_by_fingerprint ?fp d'
        = Some (recorded_row x t1 f1 s m params p)"
      using rows None by (rule find_pending_append)
    moreover have "gated no_faults False t2 m p d'"
      using g2 gated_same_rules [OF rules] by simp
    ultimately show ?thesis
      using check_rpc_plain [of t2 m p d' params x f2] assms(3) i by (simp add: recorded_row_def)
  qed
qed

theorem repeated_request_same_approval_witness:
  "check_rpc sample_externals no_faults False 15 8 ''git.push'' (JObj []) None sample_requested
     = (denied_check (denied_pending sample_externals ''git.push'' 7), sample_requested)"
  by (rule repeated_request_same_approval [OF sample_request_check])
    (simp_all add: load_rules_def no_faults_def rules_list_global_def empty_db_def)

lemma find_none_iff: "find p t = None \<longleftrightarrow> (\<forall>r \<in> set t. \<not> p r)"
  by (induction t) auto

lemma find_append_new: "\<forall>r \<in> set t. \<not> p r \<Longrightarrow> p a \<Longrightarrow> find p (t @ [a]) = Some a"
  by (induction t) auto

lemma decide_once:
  assumes "approvals_get i d = Some a" and "ap_status a = ''pending''"
  shows "snd (decide x no_faults now fresh i Approve RememberOnce q d)
    = snd (approvals_decide now i ''approved'' (decision_payload Approve RememberOnce) d)"
  using assms by (simp add: decide_def no_faults_def Let_def case_prod_beta split: sum.split)

lemma approvals_decide_other [simp]:
  "permission_rules (snd (approvals_decide now i st payload d)) = permission_rules d"
  by (simp add: approvals_decide_def Let_def)

lemma approvals_consume_other [simp]:
  "permission_rules (snd (approvals_consume_approved i d)) = permission_rules d"
  by (simp add: approvals_consume_approved_def Let_def)

lemma decided_rows_append:
  "i \<notin> ap_id ` set t \<Longrightarrow> decided_rows now i st payload (t @ [a])
     = t @ decided_rows now i st payload [a]"
  using count_decided_other [of i t now st payload]
  by (simp add: decided_rows_def update_rows_def)

lemma consumed_rows_append:
  "i \<notin> ap_id ` set t \<Longrightarrow> consumed_rows i (t @ [a]) = t @ consumed_rows i [a]"
proof -
  assume "i \<notin> ap_id ` set t"
  then have "consumed_rows i t = t" by (auto simp: consumed_rows_def intro!: update_rows_none)
  then show ?thesis by (simp add: consumed_rows_def update_rows_def)
qed

lemma recorded_project:
  "uuid_laws x \<Longrightarrow> approval_project x (recorded_row x now fresh s m params p) = p"
  by (cases p) (simp_all add: approval_project_def recorded_row_def uuid_parse_ok_text)

text \<open>C5: an approval given once lets the request through exactly once. A protected request is
  answered with a new pending approval; after the user approves it (once), the same request is
  allowed on the next try, and the try after that is refused again.\<close>

theorem approve_once_admits_once:
  assumes "uuid_laws x"
    and "check_rpc x no_faults False t1 fresh m params p d = (c, d1)"
    and "pc_permission c = denied_pending x m fresh" and "fresh \<notin> ap_id ` set (approvals d)"
    and "json_get_str ''approvalId'' params = None"
    and "0 \<le> t2" and "\<And>a t. a \<in> set (approvals d) \<Longrightarrow> ap_decided_at a = Some t \<Longrightarrow> t < t2"
    and "d2 = snd (decide x no_faults t2 f2 fresh Approve RememberOnce q d1)"
    and "evaluate_rules (load_rules no_faults p d) m p t3 = None"
    and "evaluate_rules (load_rules no_faults p d) m p t4 = None"
  shows "\<exists>d3. check_rpc x no_faults False t3 f3 m params p d2 = (allowed_check, d3) \<and>
    \<not> is_allowed (pc_permission (fst (check_rpc x no_faults False t4 f4 m params p d3)))"
proof -
  obtain s where rows: "approvals d1 = approvals d @ [recorded_row x t1 fresh s m params p]"
    and rules: "permission_rules d1 = permission_rules d" and g1: "gated no_faults False t1 m p d"
    and pass: "check_known_request x no_faults m params p d = (None, d)"
    using check_rpc_recorded [OF assms(2-4)] by blast
  let ?row = "recorded_row x t1 fresh s m params p"
  let ?ok = "?row\<lparr>ap_status := ''approved'',
    ap_decision := Some (decision_payload Approve RememberOnce), ap_decided_at := Some t2\<rparr>"
  have k: "known_approval x m params p d = None"
    using pass by (simp add: check_known_no_faults allowed_check_def split: option.splits)
  have "approvals_get fresh d1 = Some ?row"
    unfolding approvals_get_def rows
    by (rule find_append_new) (use assms(4) in \<open>auto simp: recorded_row_def image_iff\<close>)
  then have d2: "d2 = snd (approvals_decide t2 fresh ''approved'' (decision_payload Approve RememberOnce) d1)"
    unfolding assms(8) by (rule decide_once) (simp add: recorded_row_def)
  then have rows2: "approvals d2 = approvals d @ [?ok]"
    using assms(4) by (simp add: rows decided_rows_append)
      (simp add: decided_rows_def recorded_row_def)
  have rules2: "permission_rules d2 = permission_rules d" by (simp add: d2 rules)
  have "approvals_find_approved_by_fingerprint (request_fingerprint x m params) d2 = Some ?ok"
    unfolding approvals_find_approved_by_fingerprint_def rows2
    by (rule first_row_append_first)
      (use assms(6,7) in \<open>auto simp: recorded_row_def decision_payload_def split: option.split\<close>)
  moreover have "approval_project_matches x ?ok p"
    using recorded_project [OF assms(1), of t1 fresh s m params p]
    by (simp add: approval_project_matches_def approval_project_def)
  ultimately have k2: "known_approval x m params p d2 = Some ?ok"
    by (simp add: known_approval_def)
  define d3 where "d3 = snd (approvals_consume_approved fresh d2)"
  have "gated no_faults False t3 m p d2"
    using g1 assms(9) by (simp add: gated_def load_rules_same [OF rules2])
  from check_rpc_plain [OF this assms(5), of x f3]
  have first: "check_rpc x no_faults False t3 f3 m params p d2 = (allowed_check, d3)"
    by (simp add: k2 d3_def recorded_row_def)
  have rows3: "approvals d3 = approvals d @ [?ok\<lparr>ap_status := ''consumed''\<rparr>]"
    using assms(4) by (simp add: d3_def rows2 consumed_rows_append)
      (simp add: consumed_rows_def recorded_row_def)
  have "known_approval x m params p d3 = None"
    using known_approval_append [OF rows3] k by simp
  moreover have "permission_rules d3 = permission_rules d" by (simp add: d3_def rules2)
  then have "gated no_faults False t4 m p d3"
    using g1 assms(10) by (simp add: gated_def load_rules_same [of d3 d])
  ultimately have "\<not> is_allowed (pc_permission (fst (check_rpc x no_faults False t4 f4 m params p d3)))"
    using check_rpc_plain [of t4 m p d3 params x f4] assms(5)
      request_new_denies [of x no_faults t4 f4 m params p d3, OF prod.collapse [symmetric]]
    by (auto split: option.split)
  with first show ?thesis by blast
qed

theorem approve_once_admits_once_witness:
  "\<exists>d3. check_rpc sample_externals no_faults False 30 9 ''git.push'' (JObj []) None sample_approved
       = (allowed_check, d3) \<and>
     \<not> is_allowed (pc_permission
         (fst (check_rpc sample_externals no_faults False 40 10 ''git.push'' (JObj []) None d3)))"
  by (rule approve_once_admits_once [OF sample_uuid_laws sample_request_check, of 20 _ 8 None])
    (simp_all add: empty_db_def sample_decision load_rules_def rules_list_global_def)

subsection \<open>Remembered decisions\<close>

lemma find_filter: "find p t = (case filter p t of [] \<Rightarrow> None | r # _ \<Rightarrow> Some r)"
  by (induction t) auto

definition rules_for :: "uuid option \<Rightarrow> permission_rule list \<Rightarrow> permission_rule list" where
  "rules_for p rs = filter (\<lambda>r. case p of
      Some i \<Rightarrow> ru_project_id r = Some i \<or> ru_project_id r = None
    | None \<Rightarrow> ru_project_id r = None) rs"

lemma load_rules_rules_for:
  "fault CallLoadRules = None \<Longrightarrow>
   load_rules fault p d = sort_key ru_created_at (rules_for p (permission_rules d))"
  by (simp add: load_rules_def rules_for_def rules_list_for_project_def rules_list_global_def
      split: option.split)

lemma find_load_rules:
  "fault CallLoadRules = None \<Longrightarrow>
   find q (load_rules fault p d)
     = (case sort_key ru_created_at (filter q (rules_for p (permission_rules d))) of
          [] \<Rightarrow> None | r # _ \<Rightarrow> Some r)"
  by (simp add: load_rules_rules_for find_filter filter_sort)

lemma evaluate_append_silent:
  assumes "permission_rules d' = permission_rules d @ [r]" and "\<not> rule_applies m p t r"
  shows "evaluate_rules (load_rules no_faults p d') m p t = evaluate_rules (load_rules no_faults p d) m p t"
  using assms by (simp add: evaluate_rules_find find_load_rules no_faults_def rules_for_def)

lemma evaluate_append_decides:
  assumes "permission_rules d' = permission_rules d @ [r]" and "rule_applies m p t r"
    and "find (rule_applies m p t) (load_rules no_faults p d) = None"
  shows "evaluate_rules (load_rules no_faults p d') m p t = effect_parse (ru_effect r)"
proof -
  have "sort_key ru_created_at (filter (rule_applies m p t) (rules_for p (permission_rules d))) = []"
    using assms(3) by (simp add: find_load_rules no_faults_def split: list.splits)
  then have none: "filter (rule_applies m p t) (rules_for p (permission_rules d)) = []"
    by (metis length_0_conv length_sort)
  have "rules_for p [r] = [r]"
    using assms(2) by (cases p; cases "ru_project_id r") (auto simp: rules_for_def rule_applies_def)
  with none assms(1,2) show ?thesis
    by (simp add: evaluate_rules_find find_load_rules no_faults_def rules_for_def)
qed

definition remembered_rule :: "uuid \<Rightarrow> uuid option \<Rightarrow> string \<Rightarrow> millis \<Rightarrow> permission_rule" where
  "remembered_rule fresh p m now =
     \<lparr>ru_id = fresh, ru_project_id = p, ru_scope = ''rpc'', ru_effect = ''allow'',
      ru_matcher = JObj [(''method'', JStr m)], ru_created_at = now, ru_expires_at = None\<rparr>"

lemma remembered_rule_applies:
  "rule_applies m' p' t (remembered_rule fresh p m now) \<longleftrightarrow> m' = m \<and> (p = None \<or> p = p')"
  by (cases p) (auto simp: rule_applies_def remembered_rule_def matcher_matches_def)

lemma decide_always:
  assumes "decide x no_faults now fresh i Approve RememberAlways q d = (Inr res, d')"
    and "approvals_get i d = Some a" and "ap_request a = approval_request x m params p fp"
    and "uuid_laws x"
  shows "permission_rules d' = permission_rules d
    @ [remembered_rule fresh (case p of Some i \<Rightarrow> Some i | None \<Rightarrow> q) m now]"
proof -
  have p: "approval_project x a = p"
    using assms(3,4) by (cases p) (simp_all add: approval_project_def uuid_parse_ok_text)
  have "ap_status a = ''pending''"
    using assms(1,2) by (auto simp: decide_def no_faults_def split: if_splits)
  with assms(1,2,3) p show ?thesis
    by (auto simp: decide_def no_faults_def Let_def case_prod_beta remember_approval_def
        rules_create_def remembered_rule_def prod_eq_iff split: sum.splits if_splits)
qed

text \<open>"always allow" never widens. When a request of a project is approved with
  \<open>always\<close>, one rule is added; it decides nothing for another method or another project,
  whatever project the caller of \<open>decide\<close> named, and for the same method and project it
  allows every request that no older rule already decided.\<close>

theorem remembered_rule_scope:
  assumes "decide x no_faults now fresh i Approve RememberAlways q d = (Inr res, d')"
    and "approvals_get i d = Some a" and "ap_request a = approval_request x m params (Some pr) fp"
    and "uuid_laws x"
  shows "(m' \<noteq> m \<or> p' \<noteq> Some pr \<longrightarrow>
      evaluate_rules (load_rules no_faults p' d') m' p' t = evaluate_rules (load_rules no_faults p' d) m' p' t)
    \<and> (find (rule_applies m (Some pr) t) (load_rules no_faults (Some pr) d) = None \<longrightarrow>
      evaluate_rules (load_rules no_faults (Some pr) d') m (Some pr) t = Some EffectAllow)"
proof -
  have rules: "permission_rules d' = permission_rules d @ [remembered_rule fresh (Some pr) m now]"
    using decide_always [OF assms] by simp
  have "evaluate_rules (load_rules no_faults p' d') m' p' t
      = evaluate_rules (load_rules no_faults p' d) m' p' t" if "m' \<noteq> m \<or> p' \<noteq> Some pr"
    using that by (intro evaluate_append_silent [OF rules]) (auto simp: remembered_rule_applies)
  moreover have "evaluate_rules (load_rules no_faults (Some pr) d') m (Some pr) t = Some EffectAllow"
    if "find (rule_applies m (Some pr) t) (load_rules no_faults (Some pr) d) = None"
    using evaluate_append_decides [OF rules _ that]
    by (simp add: remembered_rule_applies) (simp add: remembered_rule_def effect_parse_def)
  ultimately show ?thesis by blast
qed

definition sample_project_request :: db where
  "sample_project_request = sample_requested\<lparr>
     projects := [\<lparr>pr_id = 5, pr_name = ''demo'', pr_created_at = 1, pr_updated_at = 1,
                   pr_archived_at = None\<rparr>],
     approvals := [sample_request\<lparr>ap_request :=
       approval_request sample_externals ''git.push'' (JObj []) (Some 5) ''f''\<rparr>]\<rparr>"

theorem remembered_rule_scope_witness:
  "evaluate_rules (load_rules no_faults (Some 5)
      (snd (decide sample_externals no_faults 20 8 7 Approve RememberAlways (Some 6) sample_project_request)))
      ''git.push'' (Some 5) 30 = Some EffectAllow"
proof -
  let ?a = "sample_request\<lparr>ap_request :=
       approval_request sample_externals ''git.push'' (JObj []) (Some 5) ''f''\<rparr>"
  have "fst (decide sample_externals no_faults 20 8 7 Approve RememberAlways (Some 6) sample_project_request)
      = Inr (fst (projr (fst (decide sample_externals no_faults 20 8 7 Approve RememberAlways (Some 6)
               sample_project_request))),
             snd (projr (fst (decide sample_externals no_faults 20 8 7 Approve RememberAlways (Some 6)
               sample_project_request))))"
    by (simp add: decide_def engine_evals sample_defs sample_project_request_def approvals_get_def
        approvals_decide_def remember_approval_def rules_create_def uuid_parse_ok_text)
  then obtain res where "decide sample_externals no_faults 20 8 7 Approve RememberAlways (Some 6)
      sample_project_request = (Inr res, snd (decide sample_externals no_faults 20 8 7 Approve
        RememberAlways (Some 6) sample_project_request))"
    by (metis prod.collapse)
  moreover have "approvals_get 7 sample_project_request = Some ?a"
    by (simp add: approvals_get_def sample_project_request_def sample_request_def)
  moreover have "ap_request ?a = approval_request sample_externals ''git.push'' (JObj []) (Some 5) ''f''"
    by simp
  ultimately show ?thesis
    using remembered_rule_scope [of sample_externals 20 8 7 "Some 6" sample_project_request _ _ ?a
        "''git.push''" "JObj []" 5 "''f''" "''git.push''" "Some 5" 30] sample_uuid_laws
    by (simp add: load_rules_def no_faults_def rules_list_for_project_def sample_project_request_def
        sample_requested_def empty_db_def)
qed

end
