(* ===== verification/SessionMachine.thy ===== *)
theory SessionMachine
  imports Prelude
begin

text \<open>
  \<open>crates/retcon-core/src/session_engine.rs\<close>: the session and turn state machines, their
  durable names and the transition tables that every status write of the session RPC goes
  through.
\<close>

subsection \<open>States\<close>

datatype session_state =
    SessCreated | SessPreparing | SessStarting | SessRunning | SessWaitingForApproval
  | SessWaitingForUser | SessPaused | SessCompleted | SessFailed | SessCancelled
  | SessDisconnected | SessRecovering

datatype turn_state =
    TurnQueued | TurnSending | TurnRunning | TurnToolExecution | TurnWaitingForApproval
  | TurnCompleting | TurnCompleted | TurnFailed | TurnCancelled

fun session_is_terminal :: "session_state \<Rightarrow> bool" where
  "session_is_terminal s = (case s of SessCompleted \<Rightarrow> True | SessFailed \<Rightarrow> True
     | SessCancelled \<Rightarrow> True | _ \<Rightarrow> False)"

fun turn_is_terminal :: "turn_state \<Rightarrow> bool" where
  "turn_is_terminal t = (case t of TurnCompleted \<Rightarrow> True | TurnFailed \<Rightarrow> True
     | TurnCancelled \<Rightarrow> True | _ \<Rightarrow> False)"

fun session_as_str :: "session_state \<Rightarrow> string" where
  "session_as_str SessCreated = ''created''"
| "session_as_str SessPreparing = ''preparing''"
| "session_as_str SessStarting = ''starting''"
| "session_as_str SessRunning = ''running''"
| "session_as_str SessWaitingForApproval = ''waiting_for_approval''"
| "session_as_str SessWaitingForUser = ''waiting_for_user''"
| "session_as_str SessPaused = ''paused''"
| "session_as_str SessCompleted = ''completed''"
| "session_as_str SessFailed = ''failed''"
| "session_as_str SessCancelled = ''cancelled''"
| "session_as_str SessDisconnected = ''disconnected''"
| "session_as_str SessRecovering = ''recovering''"

fun turn_as_str :: "turn_state \<Rightarrow> string" where
  "turn_as_str TurnQueued = ''queued''"
| "turn_as_str TurnSending = ''sending''"
| "turn_as_str TurnRunning = ''running''"
| "turn_as_str TurnToolExecution = ''tool_execution''"
| "turn_as_str TurnWaitingForApproval = ''waiting_for_approval''"
| "turn_as_str TurnCompleting = ''completing''"
| "turn_as_str TurnCompleted = ''completed''"
| "turn_as_str TurnFailed = ''failed''"
| "turn_as_str TurnCancelled = ''cancelled''"

definition parse_session_state :: "string \<Rightarrow> session_state option" where
  "parse_session_state v =
     (if v = ''created'' then Some SessCreated
      else if v = ''preparing'' then Some SessPreparing
      else if v = ''starting'' then Some SessStarting
      else if v = ''running'' then Some SessRunning
      else if v = ''waiting_for_approval'' then Some SessWaitingForApproval
      else if v = ''waiting_for_user'' then Some SessWaitingForUser
      else if v = ''paused'' then Some SessPaused
      else if v = ''completed'' then Some SessCompleted
      else if v = ''failed'' then Some SessFailed
      else if v = ''cancelled'' then Some SessCancelled
      else if v = ''disconnected'' then Some SessDisconnected
      else if v = ''recovering'' then Some SessRecovering
      else None)"

definition parse_turn_state :: "string \<Rightarrow> turn_state option" where
  "parse_turn_state v =
     (if v = ''queued'' then Some TurnQueued
      else if v = ''sending'' then Some TurnSending
      else if v = ''running'' then Some TurnRunning
      else if v = ''tool_execution'' then Some TurnToolExecution
      else if v = ''waiting_for_approval'' then Some TurnWaitingForApproval
      else if v = ''completing'' then Some TurnCompleting
      else if v = ''completed'' then Some TurnCompleted
      else if v = ''failed'' then Some TurnFailed
      else if v = ''cancelled'' then Some TurnCancelled
      else None)"

subsection \<open>Transition tables\<close>

fun session_transition_allowed :: "session_state \<Rightarrow> session_state \<Rightarrow> bool" where
  "session_transition_allowed SessCreated to = (to \<in> {SessPreparing, SessCancelled})"
| "session_transition_allowed SessPreparing to =
     (to \<in> {SessStarting, SessFailed, SessCancelled})"
| "session_transition_allowed SessStarting to =
     (to \<in> {SessRunning, SessDisconnected, SessFailed, SessCancelled})"
| "session_transition_allowed SessRunning to =
     (to \<in> {SessWaitingForApproval, SessWaitingForUser, SessPaused, SessCompleted,
            SessFailed, SessCancelled, SessDisconnected})"
| "session_transition_allowed SessWaitingForApproval to =
     (to \<in> {SessRunning, SessPaused, SessCancelled, SessDisconnected})"
| "session_transition_allowed SessWaitingForUser to =
     (to \<in> {SessRunning, SessPaused, SessCancelled, SessDisconnected})"
| "session_transition_allowed SessPaused to = (to \<in> {SessPreparing, SessCancelled})"
| "session_transition_allowed SessDisconnected to =
     (to \<in> {SessRecovering, SessFailed, SessCancelled})"
| "session_transition_allowed SessRecovering to =
     (to \<in> {SessRunning, SessWaitingForApproval, SessWaitingForUser, SessPaused,
            SessFailed, SessDisconnected, SessCancelled})"
| "session_transition_allowed SessCompleted to = False"
| "session_transition_allowed SessFailed to = False"
| "session_transition_allowed SessCancelled to = False"

fun turn_transition_allowed :: "turn_state \<Rightarrow> turn_state \<Rightarrow> bool" where
  "turn_transition_allowed TurnQueued to = (to \<in> {TurnSending, TurnCancelled})"
| "turn_transition_allowed TurnSending to =
     (to \<in> {TurnRunning, TurnFailed, TurnCancelled})"
| "turn_transition_allowed TurnRunning to =
     (to \<in> {TurnToolExecution, TurnCompleting, TurnFailed, TurnCancelled})"
| "turn_transition_allowed TurnToolExecution to =
     (to \<in> {TurnRunning, TurnWaitingForApproval, TurnFailed, TurnCancelled})"
| "turn_transition_allowed TurnWaitingForApproval to =
     (to \<in> {TurnToolExecution, TurnRunning, TurnCancelled, TurnFailed})"
| "turn_transition_allowed TurnCompleting to =
     (to \<in> {TurnCompleted, TurnFailed, TurnCancelled})"
| "turn_transition_allowed TurnCompleted to = False"
| "turn_transition_allowed TurnFailed to = False"
| "turn_transition_allowed TurnCancelled to = False"

record 's invalid_transition =
  trans_from :: 's
  trans_to :: 's

record session_machine =
  sm_state :: session_state

record turn_machine =
  tm_state :: turn_state

definition session_machine_new :: session_machine where
  "session_machine_new = \<lparr>sm_state = SessCreated\<rparr>"

definition session_machine_from_state :: "session_state \<Rightarrow> session_machine" where
  "session_machine_from_state s = \<lparr>sm_state = s\<rparr>"

definition turn_machine_new :: turn_machine where
  "turn_machine_new = \<lparr>tm_state = TurnQueued\<rparr>"

definition turn_machine_from_state :: "turn_state \<Rightarrow> turn_machine" where
  "turn_machine_from_state s = \<lparr>tm_state = s\<rparr>"

text \<open>\<open>transition(&mut self, to)\<close>: the new machine, or the error with the machine unchanged.\<close>

definition session_machine_transition ::
    "session_machine \<Rightarrow> session_state \<Rightarrow>
     (session_state invalid_transition, session_machine) outcome" where
  "session_machine_transition m to =
     (if session_transition_allowed (sm_state m) to then Inr (m\<lparr>sm_state := to\<rparr>)
      else Inl \<lparr>trans_from = sm_state m, trans_to = to\<rparr>)"

definition turn_machine_transition ::
    "turn_machine \<Rightarrow> turn_state \<Rightarrow> (turn_state invalid_transition, turn_machine) outcome" where
  "turn_machine_transition m to =
     (if turn_transition_allowed (tm_state m) to then Inr (m\<lparr>tm_state := to\<rparr>)
      else Inl \<lparr>trans_from = tm_state m, trans_to = to\<rparr>)"

text \<open>A run of transitions, each on the machine the one before left.\<close>

fun session_run ::
    "session_machine \<Rightarrow> session_state list \<Rightarrow>
     (session_state invalid_transition, session_machine) outcome" where
  "session_run m [] = Inr m"
| "session_run m (s # ss) =
     (case session_machine_transition m s of Inl e \<Rightarrow> Inl e | Inr m' \<Rightarrow> session_run m' ss)"

fun turn_run ::
    "turn_machine \<Rightarrow> turn_state list \<Rightarrow>
     (turn_state invalid_transition, turn_machine) outcome" where
  "turn_run m [] = Inr m"
| "turn_run m (s # ss) =
     (case turn_machine_transition m s of Inl e \<Rightarrow> Inl e | Inr m' \<Rightarrow> turn_run m' ss)"

subsection \<open>Facts about the tables\<close>

lemma session_parse_as_str: "parse_session_state (session_as_str s) = Some s"
  by (cases s) (simp_all add: parse_session_state_def)

lemma turn_parse_as_str: "parse_turn_state (turn_as_str t) = Some t"
  by (cases t) (simp_all add: parse_turn_state_def)

lemma parse_session_state_Some: "parse_session_state v = Some s \<Longrightarrow> session_as_str s = v"
  by (auto simp: parse_session_state_def split: if_splits)

lemma parse_turn_state_Some: "parse_turn_state v = Some t \<Longrightarrow> turn_as_str t = v"
  by (auto simp: parse_turn_state_def split: if_splits)

interpretation sess: lifecycle session_transition_allowed session_is_terminal SessCancelled
proof
  fix s t
  show "session_is_terminal s \<Longrightarrow> \<not> session_transition_allowed s t"
    by (cases s) simp_all
  show "session_is_terminal SessCancelled"
    by simp
  show "\<not> session_is_terminal s \<Longrightarrow> session_transition_allowed s SessCancelled"
    by (cases s) simp_all
qed

interpretation turn: lifecycle turn_transition_allowed turn_is_terminal TurnCancelled
proof
  fix s t
  show "turn_is_terminal s \<Longrightarrow> \<not> turn_transition_allowed s t"
    by (cases s) simp_all
  show "turn_is_terminal TurnCancelled"
    by simp
  show "\<not> turn_is_terminal s \<Longrightarrow> turn_transition_allowed s TurnCancelled"
    by (cases s) simp_all
qed

lemma session_run_chain:
  "session_run m ss = Inr m' \<longleftrightarrow>
     chain session_transition_allowed (sm_state m) ss \<and> m' = m\<lparr>sm_state := last (sm_state m # ss)\<rparr>"
  by (induction ss arbitrary: m) (auto simp: session_machine_transition_def)

lemma turn_run_chain:
  "turn_run m ss = Inr m' \<longleftrightarrow>
     chain turn_transition_allowed (tm_state m) ss \<and> m' = m\<lparr>tm_state := last (tm_state m # ss)\<rparr>"
  by (induction ss arbitrary: m) (auto simp: turn_machine_transition_def)

lemma session_run_prefix:
  "session_run m (xs @ ys) = Inr m' \<Longrightarrow> \<exists>m''. session_run m xs = Inr m''"
  by (auto simp: session_run_chain chain_append)

text \<open>The only way out of a fresh session that is not an early end.\<close>

lemma session_chain_from_created:
  assumes "chain session_transition_allowed SessCreated ss"
    and "t \<in> set ss" and "t \<notin> {SessPreparing, SessCancelled, SessFailed}"
  shows "\<exists>zs. ss = SessPreparing # SessStarting # zs \<and> t \<in> set (SessStarting # zs)"
proof -
  from assms obtain a as where ss: "ss = a # as"
    by (cases ss) auto
  with assms have "a \<in> {SessPreparing, SessCancelled}"
    and ch: "chain session_transition_allowed a as" by auto
  then have a: "a = SessPreparing" and t: "t \<in> set as"
    using assms(2,3) ss sess.chain_terminal [of a as] by auto
  then obtain b bs where as: "as = b # bs" by (cases as) auto
  with ch a have "b \<in> {SessStarting, SessFailed, SessCancelled}"
    and "chain session_transition_allowed b bs" by auto
  then have "b = SessStarting"
    using assms(3) t as sess.chain_terminal [of b bs] by auto
  with ss a as t show ?thesis by simp
qed

lemma turn_chain_to_completed:
  assumes "chain turn_transition_allowed s ss" and "s \<noteq> TurnCompleted"
    and "TurnCompleted \<in> set ss"
  shows "last (butlast (s # ss)) = TurnCompleting \<and> last ss = TurnCompleted"
  using assms
proof (induction ss arbitrary: s)
  case Nil
  then show ?case by simp
next
  case (Cons a as)
  show ?case
  proof (cases "a = TurnCompleted")
    case True
    with Cons.prems have "s = TurnCompleting" by (cases s) auto
    moreover have "as = []"
      using Cons.prems True turn.chain_terminal [of a as] by simp
    ultimately show ?thesis using True by simp
  next
    case False
    with Cons.prems Cons.IH [of a] show ?thesis by (cases as) auto
  qed
qed

text \<open>the two state machines stop exactly at their terminal states, and a state that is
  not terminal can always be cancelled in one step.\<close>

theorem lifecycle_stuck_iff_terminal:
  "((\<forall>t. \<not> session_transition_allowed s t) = session_is_terminal s) \<and>
   ((\<forall>u. \<not> turn_transition_allowed w u) = turn_is_terminal w) \<and>
   (session_is_terminal s = (\<not> session_transition_allowed s SessCancelled)) \<and>
   (turn_is_terminal w = (\<not> turn_transition_allowed w TurnCancelled))"
  using sess.stuck_iff [of s] turn.stuck_iff [of w] sess.cancel_iff [of s] turn.cancel_iff [of w]
  by blast

text \<open>a session created by the service only gets to work (any state other than
  preparing, cancelled or failed) by preparing first and then starting the provider.\<close>

theorem session_run_prepares_and_starts:
  assumes "session_run session_machine_new ss = Inr m"
    and "t \<in> set ss" and "t \<notin> {SessPreparing, SessCancelled, SessFailed}"
  shows "\<exists>zs. ss = SessPreparing # SessStarting # zs"
  using assms session_chain_from_created [of ss t]
  by (auto simp: session_run_chain session_machine_new_def)

theorem session_run_prepares_and_starts_witness:
  "\<exists>zs. [SessPreparing, SessStarting, SessRunning] = SessPreparing # SessStarting # zs"
  by (rule session_run_prepares_and_starts
        [where t = SessRunning and m = "\<lparr>sm_state = SessRunning\<rparr>"])
    (simp_all add: session_machine_new_def session_machine_transition_def)

text \<open>the durable names of session and turn states round-trip, and no other string
  parses to a state.\<close>

theorem state_names_roundtrip:
  "(parse_session_state v = Some s) = (v = session_as_str s) \<and>
   (parse_turn_state w = Some t) = (w = turn_as_str t)"
  using session_parse_as_str turn_parse_as_str parse_session_state_Some parse_turn_state_Some
  by blast

text \<open>a run of the turn machine that completes ends with the provider finalising its
  response, and nothing follows a terminal state.\<close>

theorem turn_run_completes_last:
  assumes "turn_run turn_machine_new ss = Inr m" and "TurnCompleted \<in> set ss"
  shows "\<exists>zs. ss = zs @ [TurnCompleting, TurnCompleted]"
proof -
  from assms(1) have ch: "chain turn_transition_allowed TurnQueued ss"
    by (simp add: turn_run_chain turn_machine_new_def)
  then have l: "last (butlast (TurnQueued # ss)) = TurnCompleting" "last ss = TurnCompleted"
    using turn_chain_to_completed [OF ch _ assms(2)] by simp_all
  from assms(2) have "ss \<noteq> []" by auto
  with l have b: "butlast ss \<noteq> []" by auto
  then have "last (butlast ss) = TurnCompleting" using l \<open>ss \<noteq> []\<close> by simp
  then have "ss = butlast (butlast ss) @ [TurnCompleting, TurnCompleted]"
    using l(2) \<open>ss \<noteq> []\<close> b append_butlast_last_id [of ss] append_butlast_last_id [of "butlast ss"]
    by (metis append.assoc append_Cons append_Nil)
  then show ?thesis by blast
qed

theorem turn_run_completes_last_witness:
  "\<exists>zs. [TurnSending, TurnRunning, TurnCompleting, TurnCompleted]
        = zs @ [TurnCompleting, TurnCompleted]"
  by (rule turn_run_completes_last [where m = "\<lparr>tm_state = TurnCompleted\<rparr>"])
    (simp_all add: turn_machine_new_def turn_machine_transition_def)

end
