(* ===== verification/CoreErrors.thy ===== *)
theory CoreErrors
  imports Database Redact
begin

text \<open>
  \<open>crates/retcon-core/src/error.rs\<close> and \<open>src/rpc.rs\<close>: the structured errors of
  the core and the two responses of the RPC adapter. The random crash identifier and the boxed
  cause of an error are left out; every other field is kept. A technical message passes through
  redaction when the error is made, a diagnostic when it is attached.
\<close>

datatype error_code =
    CodeAlreadyRunning | CodeAuthenticationFailed | CodeConflict | CodeInvalidRequest | CodeIo
  | CodeNotFound | CodePermissionDenied | CodeShutdown | CodeInternal

datatype error_source = SourceLifecycle | SourceRpc | SourceStorage | SourceSystem

fun error_code_str :: "error_code \<Rightarrow> string" where
  "error_code_str CodeAlreadyRunning = ''already_running''"
| "error_code_str CodeAuthenticationFailed = ''authentication_failed''"
| "error_code_str CodeConflict = ''conflict''"
| "error_code_str CodeInvalidRequest = ''invalid_request''"
| "error_code_str CodeIo = ''io''"
| "error_code_str CodeNotFound = ''not_found''"
| "error_code_str CodePermissionDenied = ''permission_denied''"
| "error_code_str CodeShutdown = ''shutdown''"
| "error_code_str CodeInternal = ''internal''"

record core_error =
  ce_code :: error_code
  ce_source :: error_source
  ce_user_message :: string
  ce_technical_message :: string
  ce_suggested_fix :: "string option"
  ce_retryable :: bool
  ce_diagnostic :: "json option"

definition core_error_new ::
    "externals \<Rightarrow> error_code \<Rightarrow> error_source \<Rightarrow> string \<Rightarrow> string \<Rightarrow> core_error" where
  "core_error_new x code source user technical =
     \<lparr>ce_code = code, ce_source = source, ce_user_message = user,
      ce_technical_message = redact_text x technical, ce_suggested_fix = None,
      ce_retryable = False, ce_diagnostic = None\<rparr>"

definition with_suggested_fix :: "string \<Rightarrow> core_error \<Rightarrow> core_error" where
  "with_suggested_fix fix e = e\<lparr>ce_suggested_fix := Some fix\<rparr>"

definition with_retryable :: "bool \<Rightarrow> core_error \<Rightarrow> core_error" where
  "with_retryable r e = e\<lparr>ce_retryable := r\<rparr>"

definition with_diagnostic :: "externals \<Rightarrow> json \<Rightarrow> core_error \<Rightarrow> core_error" where
  "with_diagnostic x d e = e\<lparr>ce_diagnostic := Some (scrub_json x d)\<rparr>"

definition core_error_io :: "externals \<Rightarrow> string \<Rightarrow> string \<Rightarrow> core_error" where
  "core_error_io x context cause =
     with_retryable True (with_suggested_fix ''Check file permissions and try again.''
       (core_error_new x CodeIo SourceSystem ''Retcon could not access a required local resource.''
          (context @ '': '' @ cause)))"

text \<open>\<open>impl From<StorageError> for CoreError\<close>.\<close>

fun storage_error_advice :: "storage_error \<Rightarrow> string \<times> string \<times> bool" where
  "storage_error_advice (StorageCorrupt path details) =
     (''Retcon's local database is damaged.'',
      ''Restore a known-good backup or move the damaged database aside and restart Retcon.'', False)"
| "storage_error_advice (StorageSchemaTooNew found supported) =
     (''This data was created by a newer version of Retcon.'',
      ''Upgrade Retcon before opening this data directory.'', False)"
| "storage_error_advice e =
     (''Retcon could not initialize its local database.'',
      ''Check available disk space and file permissions, then try again.'', True)"

definition core_error_from_storage :: "externals \<Rightarrow> storage_error \<Rightarrow> core_error" where
  "core_error_from_storage x e =
     (let (user, fix, retry) = storage_error_advice e
      in with_retryable retry (with_suggested_fix fix
           (core_error_new x CodeInternal SourceStorage user (storage_error_text x e))))"

text \<open>A response: the request's number with a result or with an error.\<close>

datatype response = RespOk nat json | RespError nat core_error

fun response_id :: "response \<Rightarrow> nat" where
  "response_id (RespOk i v) = i"
| "response_id (RespError i e) = i"

fun response_ok :: "response \<Rightarrow> bool" where
  "response_ok (RespOk i v) = True"
| "response_ok (RespError i e) = False"

record request =
  rq_id :: nat
  rq_method :: string
  rq_params :: json

text \<open>The two helpers that every RPC adapter repeats.\<close>

definition failed :: "nat \<Rightarrow> core_error \<Rightarrow> response" where
  "failed i e = RespError i e"

definition invalid :: "externals \<Rightarrow> nat \<Rightarrow> string \<Rightarrow> string \<Rightarrow> response" where
  "invalid x i user technical =
     failed i (core_error_new x CodeInvalidRequest SourceRpc user technical)"

definition not_found :: "externals \<Rightarrow> nat \<Rightarrow> string \<Rightarrow> string \<Rightarrow> response" where
  "not_found x i user technical = failed i (core_error_new x CodeNotFound SourceRpc user technical)"

definition parse_uuid :: "externals \<Rightarrow> nat \<Rightarrow> string \<Rightarrow> string \<Rightarrow> (response, uuid) outcome" where
  "parse_uuid x i field raw =
     (case uuid_parse x raw of
        Inr u \<Rightarrow> Inr u
      | Inl e \<Rightarrow> Inl (invalid x i (''The '' @ field @ '' is invalid.'')
                       (''invalid '' @ field @ '': '' @ e)))"

text \<open>\<open>"missing '<field>'"\<close>.\<close>

definition missing :: "string \<Rightarrow> string" where
  "missing field = ''missing '' @ [CHR 0x27] @ field @ [CHR 0x27]"

lemma response_simps [simp]:
  "response_ok (failed i e) = False" "response_ok (invalid x i u t) = False"
  "response_ok (not_found x i u t) = False"
  "response_id (failed i e) = i" "response_id (invalid x i u t) = i"
  "response_id (not_found x i u t) = i"
  by (simp_all add: failed_def invalid_def not_found_def)

end
