(* ===== verification/SessionRpc.thy ===== *)
theory SessionRpc
  imports SessionMachine CoreErrors
begin

text \<open>
  \<open>crates/retcon-core/src/session_rpc.rs\<close>: the session and turn service. A handler takes
  the core's state (the database, the registry of active sessions, the events handed to
  \<open>state.emit\<close>) and returns it updated with the response. \<open>fault\<close> says which database
  calls fail; the registry's mutex is never poisoned. A handle to a provider process is named by
  its turn. A handler that awaits a handle's lock is cut there: its first part ends in a
  \<open>waiting\<close> continuation, its second part runs when the lock is free; \<open>SessionWatch\<close>
  interleaves the parts.
\<close>

subsection \<open>State\<close>

record active_session =
  as_cwd :: string
  as_provider_id :: string
  as_native_session_id :: "string option"
  as_active_turn :: "uuid option"

record core =
  core_db :: db
  registry :: "uuid \<Rightarrow> active_session option"
  emitted :: "(string \<times> json) list"

datatype session_call =
    GetProject | CreateSession | ListSessions | GetSession | SetSessionStatus session_state
  | ReloadSession | NextSequence | CreateTurn | SetTurnStatus turn_state | GetTurn

type_synonym session_faults = "session_call \<Rightarrow> storage_error option"

definition no_session_faults :: session_faults where "no_session_faults = (\<lambda>c. None)"

definition DEFAULT_PROVIDER_ID :: string where "DEFAULT_PROVIDER_ID = ''claude-code''"

definition emit :: "string \<Rightarrow> json \<Rightarrow> core \<Rightarrow> core" where
  "emit kind payload c = c\<lparr>emitted := emitted c @ [(kind, payload)]\<rparr>"

subsection \<open>The registry\<close>

definition registry_upsert :: "uuid \<Rightarrow> string \<Rightarrow> string \<Rightarrow> core \<Rightarrow> core" where
  "registry_upsert s cwd provider c = c\<lparr>registry := (registry c)(s \<mapsto>
     (case registry c s of
        Some e \<Rightarrow> e\<lparr>as_cwd := cwd, as_provider_id := provider\<rparr>
      | None \<Rightarrow> \<lparr>as_cwd = cwd, as_provider_id = provider, as_native_session_id = None,
                 as_active_turn = None\<rparr>))\<rparr>"

definition set_native_session_id :: "uuid \<Rightarrow> string option \<Rightarrow> core \<Rightarrow> core" where
  "set_native_session_id s native c =
     (case registry c s of
        None \<Rightarrow> c
      | Some e \<Rightarrow> c\<lparr>registry := (registry c)(s \<mapsto> e\<lparr>as_native_session_id := native\<rparr>)\<rparr>)"

definition registry_active_turn :: "uuid \<Rightarrow> core \<Rightarrow> uuid option" where
  "registry_active_turn s c = Option.bind (registry c s) as_active_turn"

definition set_active_turn :: "uuid \<Rightarrow> uuid option \<Rightarrow> core \<Rightarrow> core" where
  "set_active_turn s t c =
     (case registry c s of
        None \<Rightarrow> c
      | Some e \<Rightarrow> c\<lparr>registry := (registry c)(s \<mapsto> e\<lparr>as_active_turn := t\<rparr>)\<rparr>)"

definition registry_cwd :: "uuid \<Rightarrow> core \<Rightarrow> string option" where
  "registry_cwd s c = map_option as_cwd (registry c s)"

definition registry_provider_id :: "uuid \<Rightarrow> core \<Rightarrow> string option" where
  "registry_provider_id s c = map_option as_provider_id (registry c s)"

definition registry_native_session_id :: "uuid \<Rightarrow> core \<Rightarrow> string option" where
  "registry_native_session_id s c = Option.bind (registry c s) as_native_session_id"

subsection \<open>Responses and events\<close>

definition session_json :: "externals \<Rightarrow> session \<Rightarrow> json" where
  "session_json x s =
     JObj [(''sessionId'', json_uuid x (se_id s)), (''projectId'', json_uuid x (se_project_id s)),
           (''title'', JStr (se_title s)), (''status'', JStr (se_status s)),
           (''createdAt'', json_int (se_created_at s)), (''updatedAt'', json_int (se_updated_at s))]"

definition turn_json :: "externals \<Rightarrow> turn \<Rightarrow> json" where
  "turn_json x t =
     JObj [(''turnId'', json_uuid x (tu_id t)), (''sessionId'', json_uuid x (tu_session_id t)),
           (''sequence'', json_int (tu_sequence t)), (''status'', JStr (tu_status t)),
           (''startedAt'', json_int (tu_started_at t)),
           (''completedAt'', json_opt json_int (tu_completed_at t))]"

text \<open>\<open>{:?}\<close> of a state.\<close>

fun session_debug :: "session_state \<Rightarrow> string" where
  "session_debug SessCreated = ''Created''"
| "session_debug SessPreparing = ''Preparing''"
| "session_debug SessStarting = ''Starting''"
| "session_debug SessRunning = ''Running''"
| "session_debug SessWaitingForApproval = ''WaitingForApproval''"
| "session_debug SessWaitingForUser = ''WaitingForUser''"
| "session_debug SessPaused = ''Paused''"
| "session_debug SessCompleted = ''Completed''"
| "session_debug SessFailed = ''Failed''"
| "session_debug SessCancelled = ''Cancelled''"
| "session_debug SessDisconnected = ''Disconnected''"
| "session_debug SessRecovering = ''Recovering''"

fun turn_debug :: "turn_state \<Rightarrow> string" where
  "turn_debug TurnQueued = ''Queued''"
| "turn_debug TurnSending = ''Sending''"
| "turn_debug TurnRunning = ''Running''"
| "turn_debug TurnToolExecution = ''ToolExecution''"
| "turn_debug TurnWaitingForApproval = ''WaitingForApproval''"
| "turn_debug TurnCompleting = ''Completing''"
| "turn_debug TurnCompleted = ''Completed''"
| "turn_debug TurnFailed = ''Failed''"
| "turn_debug TurnCancelled = ''Cancelled''"

definition transition_error ::
    "externals \<Rightarrow> nat \<Rightarrow> session_state invalid_transition \<Rightarrow> response" where
  "transition_error x i t =
     invalid x i ''That session cannot move to the requested state.''
       (''invalid session transition '' @ session_debug (trans_from t) @ '' -> ''
        @ session_debug (trans_to t))"

definition session_not_found :: "externals \<Rightarrow> nat \<Rightarrow> uuid \<Rightarrow> response" where
  "session_not_found x i s =
     not_found x i ''That session was not found.'' (''unknown session id: '' @ uuid_text x s)"

definition emit_session_state :: "externals \<Rightarrow> uuid \<Rightarrow> session_state \<Rightarrow> core \<Rightarrow> core" where
  "emit_session_state x s st c =
     emit ''session.stateChanged''
       (JObj [(''sessionId'', json_uuid x s), (''status'', JStr (session_as_str st))]) c"

definition emit_turn_state :: "externals \<Rightarrow> uuid \<Rightarrow> uuid \<Rightarrow> turn_state \<Rightarrow> core \<Rightarrow> core" where
  "emit_turn_state x s t st c =
     emit ''session.turnStateChanged''
       (JObj [(''sessionId'', json_uuid x s), (''turnId'', json_uuid x t),
              (''status'', JStr (turn_as_str st))]) c"

subsection \<open>Durable transitions\<close>

definition persist_session_status ::
    "externals \<Rightarrow> session_faults \<Rightarrow> millis \<Rightarrow> uuid \<Rightarrow> session_state \<Rightarrow> core
       \<Rightarrow> (core_error, unit) outcome \<times> core" where
  "persist_session_status x fault now s st c =
     (case fault (SetSessionStatus st) of
        Some e \<Rightarrow> (Inl (core_error_from_storage x e), c)
      | None \<Rightarrow> (Inr (), c\<lparr>core_db := snd (sessions_set_status now s (session_as_str st) (core_db c))\<rparr>))"

definition persist_turn_status ::
    "externals \<Rightarrow> session_faults \<Rightarrow> millis \<Rightarrow> uuid \<Rightarrow> turn_state \<Rightarrow> core
       \<Rightarrow> (core_error, unit) outcome \<times> core" where
  "persist_turn_status x fault now t st c =
     (case fault (SetTurnStatus st) of
        Some e \<Rightarrow> (Inl (core_error_from_storage x e), c)
      | None \<Rightarrow> (Inr (), c\<lparr>core_db := snd (turns_set_status now t (turn_as_str st)
                                     (turn_is_terminal st) (core_db c))\<rparr>))"

definition transition_session ::
    "externals \<Rightarrow> session_faults \<Rightarrow> millis \<Rightarrow> nat \<Rightarrow> session \<Rightarrow> session_machine \<Rightarrow> session_state
       \<Rightarrow> core \<Rightarrow> (response, session_machine) outcome \<times> core" where
  "transition_session x fault now i s m to c =
     (case session_machine_transition m to of
        Inl t \<Rightarrow> (Inl (transition_error x i t), c)
      | Inr m' \<Rightarrow>
          (case persist_session_status x fault now (se_id s) to c of
             (Inl e, c') \<Rightarrow> (Inl (failed i e), c')
           | (Inr u, c') \<Rightarrow> (Inr m', c')))"

definition transition_turn_internal ::
    "externals \<Rightarrow> session_faults \<Rightarrow> millis \<Rightarrow> uuid \<Rightarrow> turn_machine \<Rightarrow> turn_state \<Rightarrow> core
       \<Rightarrow> (core_error, turn_machine) outcome \<times> core" where
  "transition_turn_internal x fault now t m to c =
     (case turn_machine_transition m to of
        Inl e \<Rightarrow> (Inl (core_error_new x CodeInvalidRequest SourceRpc
                        ''That turn cannot move to the requested state.''
                        (''invalid turn transition '' @ turn_debug (trans_from e) @ '' -> ''
                         @ turn_debug (trans_to e))), c)
      | Inr m' \<Rightarrow>
          (case persist_turn_status x fault now t to c of
             (Inl e, c') \<Rightarrow> (Inl e, c')
           | (Inr u, c') \<Rightarrow> (Inr m', c')))"

text \<open>
  When the persisting fails the machine has moved already: \<open>machine.transition(to)?\<close> runs
  first. Callers that go on after an error use \<open>moved\<close>.
\<close>

definition moved :: "turn_machine \<Rightarrow> turn_state \<Rightarrow> turn_machine" where
  "moved m to = (case turn_machine_transition m to of Inl e \<Rightarrow> m | Inr m' \<Rightarrow> m')"

subsection \<open>Handlers\<close>

definition session_id_param :: "externals \<Rightarrow> nat \<Rightarrow> json \<Rightarrow> (response, uuid) outcome" where
  "session_id_param x i params =
     (case json_get_str ''sessionId'' params of
        None \<Rightarrow> Inl (invalid x i ''The session request is missing a session ID.'' (missing ''sessionId''))
      | Some raw \<Rightarrow> parse_uuid x i ''session ID'' raw)"

text \<open>\<open>load_session\<close>: a database error is dropped and reads as an absent session.\<close>

definition load_session :: "session_faults \<Rightarrow> uuid \<Rightarrow> core \<Rightarrow> session option" where
  "load_session fault s c = (if fault GetSession \<noteq> None then None else sessions_get s (core_db c))"

definition unsupported_provider :: "externals \<Rightarrow> nat \<Rightarrow> string \<Rightarrow> response" where
  "unsupported_provider x i p =
     not_found x i ''That provider is not available in this Retcon build.''
       (''unsupported provider id: '' @ p)"

definition create_session ::
    "externals \<Rightarrow> session_faults \<Rightarrow> millis \<Rightarrow> uuid \<Rightarrow> nat \<Rightarrow> json \<Rightarrow> core \<Rightarrow> response \<times> core" where
  "create_session x fault now fresh i params c =
     (case json_get_str ''projectId'' params of
        None \<Rightarrow> (invalid x i ''Creating a session requires a project ID.'' (missing ''projectId''), c)
      | Some raw \<Rightarrow>
     case parse_uuid x i ''project ID'' raw of Inl r \<Rightarrow> (r, c) | Inr p \<Rightarrow>
     case fault GetProject of Some e \<Rightarrow> (failed i (core_error_from_storage x e), c) | None \<Rightarrow>
     if projects_get p (core_db c) = None
     then (not_found x i ''That project was not found.'' (''unknown project id: '' @ uuid_text x p), c)
     else
       let title = (case json_get_str ''title'' params of Some t \<Rightarrow> t | None \<Rightarrow> ''New session'');
           provider = (case json_get_str ''providerId'' params of Some q \<Rightarrow> q | None \<Rightarrow> DEFAULT_PROVIDER_ID)
       in if provider \<noteq> DEFAULT_PROVIDER_ID then (unsupported_provider x i provider, c)
       else case fault CreateSession of Some e \<Rightarrow> (failed i (core_error_from_storage x e), c) | None \<Rightarrow>
       case sessions_create now (new_session_new fresh p title) (core_db c) of
         (Inl e, d) \<Rightarrow> (failed i (core_error_from_storage x e), c\<lparr>core_db := d\<rparr>)
       | (Inr s, d) \<Rightarrow>
           (RespOk i (session_json x s),
            emit ''session.created''
              (JObj [(''sessionId'', json_uuid x (se_id s)), (''projectId'', json_uuid x (se_project_id s)),
                     (''providerId'', JStr provider)]) (c\<lparr>core_db := d\<rparr>)))"

definition list_sessions ::
    "externals \<Rightarrow> session_faults \<Rightarrow> nat \<Rightarrow> json \<Rightarrow> core \<Rightarrow> response" where
  "list_sessions x fault i params c =
     (case json_get_str ''projectId'' params of
        None \<Rightarrow> invalid x i ''Listing sessions requires a project ID.'' (missing ''projectId'')
      | Some raw \<Rightarrow>
     case parse_uuid x i ''project ID'' raw of Inl r \<Rightarrow> r | Inr p \<Rightarrow>
     case fault ListSessions of Some e \<Rightarrow> failed i (core_error_from_storage x e) | None \<Rightarrow>
     RespOk i (JObj [(''sessions'', JArr (map (session_json x) (sessions_list_for_project p (core_db c))))]))"

text \<open>The steps that \<open>start_session\<close> takes from a state; \<open>None\<close> is its error branch.\<close>

fun start_steps :: "session_state \<Rightarrow> session_state list option" where
  "start_steps SessCreated = Some [SessPreparing, SessStarting, SessRunning]"
| "start_steps SessPaused = Some [SessPreparing, SessStarting, SessRunning]"
| "start_steps SessDisconnected = Some [SessRecovering, SessRunning]"
| "start_steps SessRecovering = Some [SessRunning]"
| "start_steps SessPreparing = Some [SessStarting, SessRunning]"
| "start_steps SessStarting = Some [SessRunning]"
| "start_steps _ = None"

fun take_steps ::
    "externals \<Rightarrow> session_faults \<Rightarrow> millis \<Rightarrow> nat \<Rightarrow> session \<Rightarrow> session_machine \<Rightarrow> session_state list
       \<Rightarrow> core \<Rightarrow> (response, session_machine) outcome \<times> core" where
  "take_steps x fault now i s m [] c = (Inr m, c)"
| "take_steps x fault now i s m (st # sts) c =
     (case transition_session x fault now i s m st c of
        (Inl r, c') \<Rightarrow> (Inl r, c')
      | (Inr m', c') \<Rightarrow> take_steps x fault now i s m' sts (emit_session_state x (se_id s) st c'))"

definition start_session ::
    "externals \<Rightarrow> session_faults \<Rightarrow> millis \<Rightarrow> nat \<Rightarrow> json \<Rightarrow> core \<Rightarrow> response \<times> core" where
  "start_session x fault now i params c =
     (case json_get_str ''sessionId'' params of
        None \<Rightarrow> (invalid x i ''Starting a session requires a session ID.'' (missing ''sessionId''), c)
      | Some raw \<Rightarrow>
     case parse_uuid x i ''session ID'' raw of Inl r \<Rightarrow> (r, c) | Inr sid \<Rightarrow>
     case fault GetSession of Some e \<Rightarrow> (failed i (core_error_from_storage x e), c) | None \<Rightarrow>
     case sessions_get sid (core_db c) of None \<Rightarrow> (session_not_found x i sid, c) | Some s \<Rightarrow>
     case json_get_str ''cwd'' params of
        None \<Rightarrow> (invalid x i ''Starting a session requires a working directory.'' (missing ''cwd''), c)
      | Some cwd \<Rightarrow>
     let provider = (case json_get_str ''providerId'' params of Some q \<Rightarrow> q | None \<Rightarrow> DEFAULT_PROVIDER_ID)
     in if provider \<noteq> DEFAULT_PROVIDER_ID then (unsupported_provider x i provider, c)
     else
     let current = (case parse_session_state (se_status s) of Some v \<Rightarrow> v | None \<Rightarrow> SessCreated)
     in if session_is_terminal current
     then (invalid x i ''That session has already ended.''
             (''session '' @ uuid_text x sid @ '' is terminal ('' @ session_debug current @ '')''), c)
     else if current \<in> {SessRunning, SessWaitingForApproval, SessWaitingForUser}
     then (RespOk i (session_json x s), registry_upsert sid cwd provider c)
     else case start_steps current of
       None \<Rightarrow> (invalid x i ''That session cannot be started from its current state.''
                  (''session '' @ uuid_text x sid @ '' is in state '' @ session_debug current), c)
     | Some steps \<Rightarrow>
     case take_steps x fault now i s (session_machine_from_state current) steps c of
       (Inl r, c1) \<Rightarrow> (r, c1)
     | (Inr m, c1) \<Rightarrow>
     let c2 = registry_upsert sid cwd provider c1
     in case fault ReloadSession of Some e \<Rightarrow> (failed i (core_error_from_storage x e), c2) | None \<Rightarrow>
        (RespOk i (session_json x (case sessions_get sid (core_db c2) of Some u \<Rightarrow> u | None \<Rightarrow> s)), c2))"

definition resume_session ::
    "externals \<Rightarrow> session_faults \<Rightarrow> millis \<Rightarrow> nat \<Rightarrow> json \<Rightarrow> core \<Rightarrow> response \<times> core" where
  "resume_session x fault now i params c =
     (case session_id_param x i params of Inl r \<Rightarrow> (r, c) | Inr sid \<Rightarrow>
     case load_session fault sid c of None \<Rightarrow> (session_not_found x i sid, c) | Some s \<Rightarrow>
     let current = (case parse_session_state (se_status s) of Some v \<Rightarrow> v | None \<Rightarrow> SessPaused)
     in case transition_session x fault now i s (session_machine_from_state current) SessPreparing c of
       (Inl r, c1) \<Rightarrow> (r, c1)
     | (Inr m, c1) \<Rightarrow>
     let c2 = emit_session_state x sid SessPreparing c1
     in case transition_session x fault now i s m SessRunning c2 of
       (Inl r, c3) \<Rightarrow> (r, c3)
     | (Inr m', c3) \<Rightarrow>
         (RespOk i (JObj [(''sessionId'', json_uuid x sid), (''status'', JStr ''running'')]),
          emit_session_state x sid SessRunning c3))"

subsection \<open>Cancelling and pausing: two parts around the lock of the turn's handle\<close>

datatype waiting =
    WaitCancelSession nat uuid session uuid
  | WaitPauseSession nat uuid session uuid
  | WaitCancelTurn nat "uuid option" uuid uuid

definition finish_cancel_session ::
    "externals \<Rightarrow> session_faults \<Rightarrow> millis \<Rightarrow> nat \<Rightarrow> uuid \<Rightarrow> session \<Rightarrow> core \<Rightarrow> response \<times> core" where
  "finish_cancel_session x fault now i sid s c =
     (let current = (case parse_session_state (se_status s) of Some v \<Rightarrow> v | None \<Rightarrow> SessCreated);
          (r, c1) = (if session_is_terminal current
                     then (Inr (session_machine_from_state current), c)
                     else transition_session x fault now i s (session_machine_from_state current)
                            SessCancelled c)
      in case r of
           Inl resp \<Rightarrow> (resp, c1)
         | Inr m \<Rightarrow>
             (RespOk i (JObj [(''sessionId'', json_uuid x sid), (''status'', JStr ''cancelled'')]),
              emit_session_state x sid SessCancelled c1))"

definition finish_pause_session ::
    "externals \<Rightarrow> session_faults \<Rightarrow> millis \<Rightarrow> nat \<Rightarrow> uuid \<Rightarrow> session \<Rightarrow> core \<Rightarrow> response \<times> core" where
  "finish_pause_session x fault now i sid s c =
     (let current = (case parse_session_state (se_status s) of Some v \<Rightarrow> v | None \<Rightarrow> SessRunning)
      in case transition_session x fault now i s (session_machine_from_state current) SessPaused c of
           (Inl resp, c1) \<Rightarrow> (resp, c1)
         | (Inr m, c1) \<Rightarrow>
             (RespOk i (JObj [(''sessionId'', json_uuid x sid), (''status'', JStr ''paused'')]),
              emit_session_state x sid SessPaused c1))"

definition finish_cancel_turn ::
    "externals \<Rightarrow> session_faults \<Rightarrow> millis \<Rightarrow> nat \<Rightarrow> uuid \<Rightarrow> uuid \<Rightarrow> core \<Rightarrow> response \<times> core" where
  "finish_cancel_turn x fault now i sid t c =
     (let stored = (if fault GetTurn \<noteq> None then None else turns_get t (core_db c));
          current = (case Option.bind stored (\<lambda>r. parse_turn_state (tu_status r)) of
                       Some v \<Rightarrow> v | None \<Rightarrow> TurnRunning);
          c1 = (if turn_is_terminal current then c
                else snd (transition_turn_internal x fault now t (turn_machine_from_state current)
                            TurnCancelled c))
      in (RespOk i (JObj [(''sessionId'', json_uuid x sid), (''turnId'', json_uuid x t),
                          (''status'', JStr ''cancelled'')]),
          emit_turn_state x sid t TurnCancelled c1))"

text \<open>The first parts: a response, or the continuation that awaits the lock of the named turn.\<close>

definition cancel_session ::
    "externals \<Rightarrow> session_faults \<Rightarrow> millis \<Rightarrow> nat \<Rightarrow> json \<Rightarrow> core \<Rightarrow> (waiting, response) outcome \<times> core"
  where
  "cancel_session x fault now i params c =
     (case session_id_param x i params of Inl r \<Rightarrow> (Inr r, c) | Inr sid \<Rightarrow>
     case load_session fault sid c of None \<Rightarrow> (Inr (session_not_found x i sid), c) | Some s \<Rightarrow>
     case registry_active_turn sid c of
       Some t \<Rightarrow> (Inl (WaitCancelSession i sid s t), c)
     | None \<Rightarrow> (let (r, c') = finish_cancel_session x fault now i sid s c in (Inr r, c')))"

definition pause_session ::
    "externals \<Rightarrow> session_faults \<Rightarrow> millis \<Rightarrow> nat \<Rightarrow> json \<Rightarrow> core \<Rightarrow> (waiting, response) outcome \<times> core"
  where
  "pause_session x fault now i params c =
     (case session_id_param x i params of Inl r \<Rightarrow> (Inr r, c) | Inr sid \<Rightarrow>
     case load_session fault sid c of None \<Rightarrow> (Inr (session_not_found x i sid), c) | Some s \<Rightarrow>
     case registry_active_turn sid c of
       Some t \<Rightarrow> (Inl (WaitPauseSession i sid s t), c)
     | None \<Rightarrow> (let (r, c') = finish_pause_session x fault now i sid s c in (Inr r, c')))"

definition cancel_turn_target ::
    "externals \<Rightarrow> session_faults \<Rightarrow> nat \<Rightarrow> json \<Rightarrow> core \<Rightarrow> (response, uuid option \<times> uuid) outcome" where
  "cancel_turn_target x fault i params c =
     (case json_get_str ''turnId'' params of
        Some raw \<Rightarrow>
          (case parse_uuid x i ''turn ID'' raw of Inl r \<Rightarrow> Inl r | Inr t \<Rightarrow>
           case fault GetTurn of Some e \<Rightarrow> Inl (failed i (core_error_from_storage x e)) | None \<Rightarrow>
           case turns_get t (core_db c) of
             Some row \<Rightarrow> Inr (Some t, tu_session_id row)
           | None \<Rightarrow> Inl (not_found x i ''That turn was not found.'' (''unknown turn id: '' @ uuid_text x t)))
      | None \<Rightarrow>
          (case json_get_str ''sessionId'' params of
             Some raw \<Rightarrow> (case parse_uuid x i ''session ID'' raw of Inl r \<Rightarrow> Inl r | Inr s \<Rightarrow> Inr (None, s))
           | None \<Rightarrow> Inl (invalid x i ''Cancelling a turn requires a turn ID or session ID.''
                            (''missing '' @ [CHR 0x27] @ ''turnId'' @ [CHR 0x27] @ '' or '' @ [CHR 0x27]
                             @ ''sessionId'' @ [CHR 0x27]))))"

definition cancel_turn ::
    "externals \<Rightarrow> session_faults \<Rightarrow> nat \<Rightarrow> json \<Rightarrow> core \<Rightarrow> (waiting, response) outcome" where
  "cancel_turn x fault i params c =
     (case cancel_turn_target x fault i params c of Inl r \<Rightarrow> Inr r | Inr (wanted, sid) \<Rightarrow>
     case registry_active_turn sid c of
       None \<Rightarrow> Inr (not_found x i ''That turn is no longer running.''
                      (''no active turn for session '' @ uuid_text x sid))
     | Some active \<Rightarrow>
         (case wanted of
            None \<Rightarrow> Inl (WaitCancelTurn i wanted sid active)
          | Some t \<Rightarrow>
              if active \<noteq> t
              then Inr (not_found x i ''That turn is no longer running.''
                     (''active turn '' @ uuid_text x active @ '' does not match '' @ uuid_text x t))
              else Inl (WaitCancelTurn i wanted sid active)))"

fun waiting_turn :: "waiting \<Rightarrow> uuid" where
  "waiting_turn (WaitCancelSession i sid s t) = t"
| "waiting_turn (WaitPauseSession i sid s t) = t"
| "waiting_turn (WaitCancelTurn i w sid t) = t"

text \<open>
  The second parts, run with the lock held and the provider process killed.
\<close>

fun continue_waiting ::
    "externals \<Rightarrow> session_faults \<Rightarrow> millis \<Rightarrow> waiting \<Rightarrow> core \<Rightarrow> response \<times> core" where
  "continue_waiting x fault now (WaitCancelSession i sid s t) c =
     finish_cancel_session x fault now i sid s (set_active_turn sid None c)"
| "continue_waiting x fault now (WaitPauseSession i sid s t) c =
     finish_pause_session x fault now i sid s (set_active_turn sid None c)"
| "continue_waiting x fault now (WaitCancelTurn i w sid t) c =
     finish_cancel_turn x fault now i sid t (set_active_turn sid None c)"

subsection \<open>Sending a turn\<close>

definition scan_prompt :: "externals \<Rightarrow> string \<Rightarrow> secret_finding list" where
  "scan_prompt x prompt = scan_text x prompt"

record turn_request =
  tr_cwd :: string
  tr_prompt :: string
  tr_resume_session :: "string option"

text \<open>
  \<open>send_turn\<close> awaits the checkpoint service after it has created the turn row; it is cut
  there into \<open>send_turn\<close> and \<open>launch_turn\<close>. The continuation keeps the locals.
\<close>

record sending =
  sg_request :: nat
  sg_session :: uuid
  sg_turn :: turn
  sg_cwd :: string
  sg_prompt :: string

definition create_turn_row ::
    "externals \<Rightarrow> session_faults \<Rightarrow> millis \<Rightarrow> uuid \<Rightarrow> nat \<Rightarrow> uuid \<Rightarrow> string \<Rightarrow> string \<Rightarrow> core
       \<Rightarrow> (sending, response) outcome \<times> core" where
  "create_turn_row x fault now fresh i sid cwd prompt c =
     (case fault NextSequence of Some e \<Rightarrow> (Inr (failed i (core_error_from_storage x e)), c) | None \<Rightarrow>
      case fault CreateTurn of Some e \<Rightarrow> (Inr (failed i (core_error_from_storage x e)), c) | None \<Rightarrow>
      case turns_create now (new_turn_new fresh sid (turns_next_sequence sid (core_db c))) (core_db c) of
        (Inl e, d) \<Rightarrow> (Inr (failed i (core_error_from_storage x e)), c\<lparr>core_db := d\<rparr>)
      | (Inr t, d) \<Rightarrow>
          (Inl \<lparr>sg_request = i, sg_session = sid, sg_turn = t, sg_cwd = cwd, sg_prompt = prompt\<rparr>,
           c\<lparr>core_db := d\<rparr>))"

definition send_turn ::
    "externals \<Rightarrow> session_faults \<Rightarrow> millis \<Rightarrow> uuid \<Rightarrow> nat \<Rightarrow> json \<Rightarrow> core
       \<Rightarrow> (sending, response) outcome \<times> core" where
  "send_turn x fault now fresh i params c =
     (case session_id_param x i params of Inl r \<Rightarrow> (Inr r, c) | Inr sid \<Rightarrow>
     case load_session fault sid c of None \<Rightarrow> (Inr (session_not_found x i sid), c) | Some s \<Rightarrow>
     case json_get_str ''prompt'' params of
       None \<Rightarrow> (Inr (invalid x i ''Sending a turn requires a prompt.'' (missing ''prompt'')), c)
     | Some prompt \<Rightarrow>
     if \<not> scan_is_clean (scan_prompt x prompt)
     then (Inr (failed i (with_suggested_fix
             ''Remove API keys, tokens, passwords, and private keys from the prompt before sending.''
             (core_error_new x CodePermissionDenied SourceRpc
               ''Retcon blocked this turn because the prompt may contain secrets.''
               (''secret scan blocked turn.send: '' @ scan_summary (scan_prompt x prompt))))), c)
     else if registry_active_turn sid c \<noteq> None
     then (Inr (invalid x i ''That session already has a turn in progress.''
             (''session '' @ uuid_text x sid @ '' already has an active turn'')), c)
     else
       let cwd = (case json_get_str ''cwd'' params of Some w \<Rightarrow> w
                  | None \<Rightarrow> (case registry_cwd sid c of Some w \<Rightarrow> w | None \<Rightarrow> ''.''));
           provider = (case registry_provider_id sid c of Some p \<Rightarrow> p | None \<Rightarrow> DEFAULT_PROVIDER_ID)
       in create_turn_row x fault now fresh i sid cwd prompt (registry_upsert sid cwd provider c))"

text \<open>
  The part after the await. \<open>checkpoint\<close> is what the checkpoint service answered (an
  identifier and a kind, or nothing on failure), \<open>spawn\<close> whether the provider starts; the
  turn is returned when a watcher was spawned for it.
\<close>

definition launch_turn ::
    "externals \<Rightarrow> session_faults \<Rightarrow> millis \<Rightarrow> (uuid \<times> string) option
       \<Rightarrow> (turn_request \<Rightarrow> (string, unit) outcome) \<Rightarrow> sending \<Rightarrow> core
       \<Rightarrow> response \<times> uuid option \<times> core" where
  "launch_turn x fault now checkpoint spawn sg c =
     (let i = sg_request sg; sid = sg_session sg; t = tu_id (sg_turn sg);
          c1 = (case checkpoint of
                  None \<Rightarrow> c
                | Some (cp, kind) \<Rightarrow> emit ''checkpoint.created''
                    (JObj [(''checkpointId'', json_uuid x cp), (''kind'', JStr kind),
                           (''turnId'', json_uuid x t)]) c)
      in case transition_turn_internal x fault now t (turn_machine_from_state TurnQueued) TurnSending c1 of
           (Inl e, c2) \<Rightarrow> (failed i e, None, c2)
         | (Inr m, c2) \<Rightarrow>
      let c3 = emit_turn_state x sid t TurnSending c2
      in case spawn \<lparr>tr_cwd = sg_cwd sg, tr_prompt = sg_prompt sg,
                     tr_resume_session = registry_native_session_id sid c3\<rparr> of
           Inl msg \<Rightarrow>
             (failed i (core_error_new x CodeInternal SourceRpc
                ''Retcon could not start the provider turn.'' msg), None,
              emit_turn_state x sid t TurnFailed
                (snd (transition_turn_internal x fault now t m TurnFailed c3)))
         | Inr u \<Rightarrow>
      case transition_turn_internal x fault now t m TurnRunning c3 of
        (Inl e, c4) \<Rightarrow> (failed i e, None, c4)
      | (Inr m', c4) \<Rightarrow>
          (RespOk i (turn_json x (sg_turn sg)), Some t,
           set_active_turn sid (Some t) (emit_turn_state x sid t TurnRunning c4)))"

subsection \<open>The provider's stream and the watcher\<close>

text \<open>
  \<open>normalize_claude_stream_event\<close> (\<open>crates/retcon-agents/src/lib.rs\<close>) and the
  callback that \<open>send_turn\<close> gives to the provider.
\<close>

datatype agent_event_kind =
    EvSessionStarted | EvSessionResumed | EvTurnStarted | EvTextDelta | EvReasoningStatus
  | EvToolRequested | EvToolStarted | EvToolOutput | EvToolCompleted | EvApprovalRequested
  | EvFileChanged | EvCommandStarted | EvCommandCompleted | EvUsageUpdated | EvTurnCompleted
  | EvTurnCancelled | EvSessionCompleted | EvProviderFailed

fun event_kind_str :: "agent_event_kind \<Rightarrow> string" where
  "event_kind_str EvSessionStarted = ''session_started''"
| "event_kind_str EvSessionResumed = ''session_resumed''"
| "event_kind_str EvTurnStarted = ''turn_started''"
| "event_kind_str EvTextDelta = ''text_delta''"
| "event_kind_str EvReasoningStatus = ''reasoning_status''"
| "event_kind_str EvToolRequested = ''tool_requested''"
| "event_kind_str EvToolStarted = ''tool_started''"
| "event_kind_str EvToolOutput = ''tool_output''"
| "event_kind_str EvToolCompleted = ''tool_completed''"
| "event_kind_str EvApprovalRequested = ''approval_requested''"
| "event_kind_str EvFileChanged = ''file_changed''"
| "event_kind_str EvCommandStarted = ''command_started''"
| "event_kind_str EvCommandCompleted = ''command_completed''"
| "event_kind_str EvUsageUpdated = ''usage_updated''"
| "event_kind_str EvTurnCompleted = ''turn_completed''"
| "event_kind_str EvTurnCancelled = ''turn_cancelled''"
| "event_kind_str EvSessionCompleted = ''session_completed''"
| "event_kind_str EvProviderFailed = ''provider_failed''"

record agent_event =
  ae_provider_id :: string
  ae_native_session_id :: "string option"
  ae_kind :: agent_event_kind
  ae_data :: json

definition stream_event_kind :: "string option \<Rightarrow> agent_event_kind" where
  "stream_event_kind t =
     (if t = Some ''system'' then EvSessionStarted
      else if t \<in> {Some ''assistant'', Some ''content_block_delta'', Some ''content_block_start''}
      then EvTextDelta
      else if t = Some ''user'' then EvTurnStarted
      else if t = Some ''result'' then EvTurnCompleted
      else if t = Some ''error'' then EvProviderFailed
      else if t \<in> {Some ''tool_use'', Some ''tool_use_block''} then EvToolRequested
      else if t = Some ''tool_result'' then EvToolCompleted
      else if t = Some ''command'' then EvCommandStarted
      else EvReasoningStatus)"

definition normalize_claude_stream_event :: "externals \<Rightarrow> string \<Rightarrow> string \<Rightarrow> agent_event" where
  "normalize_claude_stream_event x provider line =
     (let data = (case json_parse x line of Some v \<Rightarrow> v | None \<Rightarrow> JObj [(''raw'', JStr line)])
      in \<lparr>ae_provider_id = provider,
          ae_native_session_id = json_get_str ''session_id'' data,
          ae_kind = stream_event_kind (json_get_str ''type'' data), ae_data = data\<rparr>)"

definition emit_agent_event :: "externals \<Rightarrow> uuid \<Rightarrow> uuid \<Rightarrow> agent_event \<Rightarrow> core \<Rightarrow> core" where
  "emit_agent_event x sid t e c =
     emit ''session.agentEvent''
       (JObj [(''sessionId'', json_uuid x sid), (''turnId'', json_uuid x t),
              (''providerId'', JStr (ae_provider_id e)),
              (''nativeSessionId'', json_opt JStr (ae_native_session_id e)),
              (''kind'', JStr (event_kind_str (ae_kind e))), (''data'', ae_data e)]) c"

definition stream_line :: "externals \<Rightarrow> string \<Rightarrow> uuid \<Rightarrow> uuid \<Rightarrow> string \<Rightarrow> core \<Rightarrow> core" where
  "stream_line x provider sid t line c =
     (let e = normalize_claude_stream_event x provider line;
          c1 = (case ae_native_session_id e of
                  Some n \<Rightarrow> set_native_session_id sid (Some n) c | None \<Rightarrow> c)
      in emit_agent_event x sid t e c1)"

text \<open>
  What the watcher of a turn does once the process has exited with \<open>exit_code\<close>. Results of
  the transitions are ignored; \<open>moved\<close> follows the machine.
\<close>

definition watcher_finish ::
    "externals \<Rightarrow> session_faults \<Rightarrow> millis \<Rightarrow> uuid \<Rightarrow> uuid \<Rightarrow> int option \<Rightarrow> core \<Rightarrow> core" where
  "watcher_finish x fault now sid t exit_code c =
     (let m = turn_machine_from_state TurnRunning;
          (final, c1) =
            (if exit_code = Some 0
             then (TurnCompleted,
                   snd (transition_turn_internal x fault now t (moved m TurnCompleting) TurnCompleted
                     (emit_turn_state x sid t TurnCompleting
                       (snd (transition_turn_internal x fault now t m TurnCompleting c)))))
             else (TurnFailed, snd (transition_turn_internal x fault now t m TurnFailed c)))
      in set_active_turn sid None
           (emit ''session.turnCompleted''
             (JObj [(''sessionId'', json_uuid x sid), (''turnId'', json_uuid x t),
                    (''status'', JStr (turn_as_str final)), (''exitCode'', json_opt json_int exit_code)])
             (emit_turn_state x sid t final c1)))"

text \<open>\<open>handle\<close>: which operation a method names; the operations are the definitions above.\<close>

datatype session_method =
    MCreate | MList | MStart | MCancel | MPause | MResume | MSendTurn | MCancelTurn

definition session_method :: "string \<Rightarrow> session_method option" where
  "session_method m =
     (if m = ''session.create'' then Some MCreate
      else if m = ''session.list'' then Some MList
      else if m = ''session.start'' then Some MStart
      else if m = ''session.cancel'' then Some MCancel
      else if m = ''session.pause'' then Some MPause
      else if m = ''session.resume'' then Some MResume
      else if m = ''turn.send'' then Some MSendTurn
      else if m = ''turn.cancel'' then Some MCancelTurn
      else None)"

end
