(* ===== verification/SessionFacts.thy ===== *)
theory SessionFacts
  imports SessionRpc
begin

text \<open>
  What the session service of \<open>SessionRpc\<close> does: starting follows the transition table,
  resuming never succeeds, a prompt with secrets never becomes a turn.
\<close>

lemma no_session_faults_calls [simp]:
  "no_session_faults GetProject = None" "no_session_faults CreateSession = None"
  "no_session_faults ListSessions = None" "no_session_faults GetSession = None"
  "no_session_faults (SetSessionStatus st) = None" "no_session_faults ReloadSession = None"
  "no_session_faults NextSequence = None" "no_session_faults CreateTurn = None"
  "no_session_faults (SetTurnStatus ts) = None" "no_session_faults GetTurn = None"
  by (simp_all add: no_session_faults_def)

subsection \<open>Rows of sessions and turns\<close>

lemma sessions_get_set_status:
  "sessions_get i (snd (sessions_set_status now j st d)) =
     map_option (\<lambda>r. if i = j then r\<lparr>se_status := st, se_updated_at := now\<rparr> else r) (sessions_get i d)"
proof -
  have "find (\<lambda>r. se_id r = i) (sessions d) = Some r \<Longrightarrow> se_id r = i" for r
    by (auto dest: find_Some_in_set)
  then show ?thesis
    by (cases "find (\<lambda>r. se_id r = i) (sessions d)")
      (auto simp: sessions_get_def sessions_set_status_def find_update_rows)
qed

lemma turns_get_set_status:
  "turns_get i (snd (turns_set_status now j st done d)) =
     map_option (\<lambda>r. if i = j then r\<lparr>tu_status := st, tu_completed_at := (if done then Some now else None)\<rparr>
                     else r) (turns_get i d)"
proof -
  have "find (\<lambda>r. tu_id r = i) (turns d) = Some r \<Longrightarrow> tu_id r = i" for r
    by (auto dest: find_Some_in_set)
  then show ?thesis
    by (cases "find (\<lambda>r. tu_id r = i) (turns d)")
      (auto simp: turns_get_def turns_set_status_def find_update_rows)
qed

lemma sessions_get_id: "sessions_get i d = Some s \<Longrightarrow> se_id s = i"
  by (auto simp: sessions_get_def dest: find_Some_in_set)

lemma emit_simps [simp]:
  "core_db (emit k p c) = core_db c" "registry (emit k p c) = registry c"
  "emitted (emit k p c) = emitted c @ [(k, p)]"
  by (simp_all add: emit_def)

lemma registry_simps [simp]:
  "core_db (registry_upsert s cwd p c) = core_db c" "emitted (registry_upsert s cwd p c) = emitted c"
  "core_db (set_active_turn s t c) = core_db c" "emitted (set_active_turn s t c) = emitted c"
  "core_db (emit_session_state x s st c) = core_db c" "registry (emit_session_state x s st c) = registry c"
  "core_db (emit_turn_state x s u ts c) = core_db c" "registry (emit_turn_state x s u ts c) = registry c"
  by (simp_all add: registry_upsert_def set_active_turn_def emit_session_state_def emit_turn_state_def
      split: option.split)

definition state_event :: "externals \<Rightarrow> uuid \<Rightarrow> session_state \<Rightarrow> string \<times> json" where
  "state_event x s st = (''session.stateChanged'',
     JObj [(''sessionId'', json_uuid x s), (''status'', JStr (session_as_str st))])"

lemma emitted_session_state [simp]:
  "emitted (emit_session_state x s st c) = emitted c @ [state_event x s st]"
  by (simp add: emit_session_state_def state_event_def)

lemma take_steps_ok:
  assumes "chain session_transition_allowed (sm_state m) sts"
  shows "\<exists>m' c'. take_steps x no_session_faults now i s m sts c = (Inr m', c') \<and>
    emitted c' = emitted c @ map (state_event x (se_id s)) sts \<and> registry c' = registry c \<and>
    sessions_get (se_id s) (core_db c') =
      (if sts = [] then sessions_get (se_id s) (core_db c)
       else map_option (\<lambda>r. r\<lparr>se_status := session_as_str (last sts), se_updated_at := now\<rparr>)
              (sessions_get (se_id s) (core_db c)))"
  using assms
proof (induction sts arbitrary: m c)
  case Nil
  then show ?case by simp
next
  case (Cons st sts)
  let ?c1 = "c\<lparr>core_db := snd (sessions_set_status now (se_id s) (session_as_str st) (core_db c))\<rparr>"
  have t: "transition_session x no_session_faults now i s m st c = (Inr (m\<lparr>sm_state := st\<rparr>), ?c1)"
    using Cons.prems
    by (simp add: transition_session_def session_machine_transition_def persist_session_status_def)
  have "chain session_transition_allowed (sm_state (m\<lparr>sm_state := st\<rparr>)) sts"
    using Cons.prems by simp
  from Cons.IH [OF this, of "emit_session_state x (se_id s) st ?c1"] t show ?case
    by (auto simp: sessions_get_set_status option.map_comp comp_def)
qed

lemma start_steps_chain:
  "start_steps st = Some sts \<Longrightarrow> chain session_transition_allowed st sts \<and> sts \<noteq> [] \<and> last sts = SessRunning"
  by (cases st) auto

lemma start_steps_some:
  "\<not> session_is_terminal st \<Longrightarrow>
   st \<in> {SessRunning, SessWaitingForApproval, SessWaitingForUser} \<or> (\<exists>sts. start_steps st = Some sts)"
  by (cases st) auto

text \<open>starting a session works from every state that is not terminal, and by legal steps
  only: the session is announced and stored along a path of the transition table that ends in
  Running (a session already at work keeps its state), the registry gets its directory, and the
  answer is a success.\<close>

theorem start_session_succeeds:
  assumes "json_get_str ''sessionId'' params = Some raw" and "uuid_parse x raw = Inr sid"
    and "json_get_str ''cwd'' params = Some cwd" and "json_get_str ''providerId'' params = None"
    and "sessions_get sid (core_db c) = Some s" and "parse_session_state (se_status s) = Some st"
    and "\<not> session_is_terminal st"
  shows "\<exists>steps c' v. start_session x no_session_faults now i params c = (RespOk i v, c') \<and>
    chain session_transition_allowed st steps \<and>
    last (st # steps) \<in> {SessRunning, SessWaitingForApproval, SessWaitingForUser} \<and>
    emitted c' = emitted c @ map (state_event x sid) steps \<and>
    map_option se_status (sessions_get sid (core_db c')) = Some (session_as_str (last (st # steps))) \<and>
    registry_cwd sid c' = Some cwd \<and> registry_active_turn sid c' = registry_active_turn sid c"
proof -
  have status: "se_status s = session_as_str st"
    using parse_session_state_Some [OF assms(6)] by simp
  have reg: "registry_cwd sid (registry_upsert sid cwd p e) = Some cwd"
    "registry_active_turn sid (registry_upsert sid cwd p e) = registry_active_turn sid e" for p e
    by (auto simp: registry_cwd_def registry_active_turn_def registry_upsert_def split: option.split)
  have start: "start_session x no_session_faults now i params c =
     (if st \<in> {SessRunning, SessWaitingForApproval, SessWaitingForUser}
      then (RespOk i (session_json x s), registry_upsert sid cwd DEFAULT_PROVIDER_ID c)
      else case start_steps st of
        None \<Rightarrow> (invalid x i ''That session cannot be started from its current state.''
                  (''session '' @ uuid_text x sid @ '' is in state '' @ session_debug st), c)
      | Some steps \<Rightarrow>
      case take_steps x no_session_faults now i s (session_machine_from_state st) steps c of
        (Inl r, c1) \<Rightarrow> (r, c1)
      | (Inr m, c1) \<Rightarrow>
      let c2 = registry_upsert sid cwd DEFAULT_PROVIDER_ID c1
      in (RespOk i (session_json x (case sessions_get sid (core_db c2) of Some u \<Rightarrow> u | None \<Rightarrow> s)), c2))"
    using assms(7)
    by (simp add: start_session_def parse_uuid_def assms Let_def del: session_is_terminal.simps
        cong: option.case_cong sum.case_cong prod.case_cong)
  from start_steps_some [OF assms(7)] show ?thesis
  proof
    assume "st \<in> {SessRunning, SessWaitingForApproval, SessWaitingForUser}"
    then show ?thesis
      by (intro exI [of _ "[]"] exI [of _ "registry_upsert sid cwd DEFAULT_PROVIDER_ID c"]
          exI [of _ "session_json x s"]) (use assms(5) in \<open>auto simp: start reg status\<close>)
  next
    assume "\<exists>sts. start_steps st = Some sts"
    then obtain sts where sts: "start_steps st = Some sts" ..
    then have n: "st \<notin> {SessRunning, SessWaitingForApproval, SessWaitingForUser}" by auto
    note ch = start_steps_chain [OF sts]
    then have "chain session_transition_allowed (sm_state (session_machine_from_state st)) sts"
      by (simp add: session_machine_from_state_def)
    then obtain m' c' where steps:
      "take_steps x no_session_faults now i s (session_machine_from_state st) sts c = (Inr m', c')"
      "emitted c' = emitted c @ map (state_event x (se_id s)) sts" "registry c' = registry c"
      "sessions_get (se_id s) (core_db c') =
        (if sts = [] then sessions_get (se_id s) (core_db c)
         else map_option (\<lambda>r. r\<lparr>se_status := session_as_str (last sts), se_updated_at := now\<rparr>)
              (sessions_get (se_id s) (core_db c)))"
      using take_steps_ok by blast
    have id: "se_id s = sid" using sessions_get_id [OF assms(5)] .
    then have row: "sessions_get sid (core_db c') =
        Some (s\<lparr>se_status := session_as_str SessRunning, se_updated_at := now\<rparr>)"
      using steps(4) ch assms(5) by simp
    have "registry_active_turn sid c' = registry_active_turn sid c"
      by (simp add: registry_active_turn_def steps(3))
    then show ?thesis
      using steps(1-3) n sts ch row id
      by (intro exI [of _ sts] exI [of _ "registry_upsert sid cwd DEFAULT_PROVIDER_ID c'"]
          exI [of _ "session_json x (s\<lparr>se_status := session_as_str SessRunning, se_updated_at := now\<rparr>)"])
        (auto simp: start reg Let_def)
  qed
qed

lemma session_id_param_error: "session_id_param x i params = Inl r \<Longrightarrow> \<not> response_ok r"
  by (auto simp: session_id_param_def parse_uuid_def split: option.splits sum.splits)

definition sample_core :: "string \<Rightarrow> core" where
  "sample_core status =
     \<lparr>core_db = empty_db\<lparr>
        projects := [\<lparr>pr_id = 5, pr_name = ''demo'', pr_created_at = 1, pr_updated_at = 1,
                      pr_archived_at = None\<rparr>],
        sessions := [\<lparr>se_id = 2, se_project_id = 5, se_title = ''work'', se_status = status,
                      se_created_at = 1, se_updated_at = 1, se_recovery_state = None\<rparr>]\<rparr>,
      registry = (\<lambda>s. None), emitted = []\<rparr>"

lemma sample_session: "sessions_get 2 (core_db (sample_core status)) =
    Some \<lparr>se_id = 2, se_project_id = 5, se_title = ''work'', se_status = status,
          se_created_at = 1, se_updated_at = 1, se_recovery_state = None\<rparr>"
  by (simp add: sample_core_def sessions_get_def)

lemma sample_uuid_parse: "uuid_parse sample_externals ''uu'' = Inr 2"
  by (simp add: sample_externals_def)

theorem start_session_succeeds_witness:
  "\<exists>steps c' v. start_session sample_externals no_session_faults 9 1
      (JObj [(''sessionId'', JStr ''uu''), (''cwd'', JStr ''/w'')]) (sample_core ''paused'') = (RespOk 1 v, c') \<and>
    chain session_transition_allowed SessPaused steps \<and>
    last (SessPaused # steps) \<in> {SessRunning, SessWaitingForApproval, SessWaitingForUser} \<and>
    emitted c' = emitted (sample_core ''paused'') @ map (state_event sample_externals 2) steps \<and>
    map_option se_status (sessions_get 2 (core_db c')) = Some (session_as_str (last (SessPaused # steps))) \<and>
    registry_cwd 2 c' = Some ''/w'' \<and>
    registry_active_turn 2 c' = registry_active_turn 2 (sample_core ''paused'')"
  by (rule start_session_succeeds [OF _ sample_uuid_parse _ _ sample_session])
    (simp_all add: parse_session_state_def)

text \<open>resuming a session never succeeds. Whatever the stored state, the request and the
  storage do, \<open>session.resume\<close> answers with an error; and a paused session is left behind in
  the state preparing, because the step from Preparing to Running is not in the transition table.\<close>

theorem resume_session_never_succeeds:
  "\<not> response_ok (fst (resume_session x fault now i params c)) \<and>
   map_option se_status (sessions_get 2 (core_db (snd (resume_session sample_externals no_session_faults 9 1
     (JObj [(''sessionId'', JStr ''uu'')]) (sample_core ''paused''))))) = Some ''preparing''"
proof
  have run: "transition_session x fault now i s m SessRunning e = (Inl (transition_error x i \<lparr>trans_from = SessPreparing, trans_to = SessRunning\<rparr>), e)"
    if "sm_state m = SessPreparing" for s m e
    using that by (simp add: transition_session_def session_machine_transition_def)
  have prep: "sm_state m' = SessPreparing"
    if "transition_session x fault now i s m SessPreparing e = (Inr m', e')" for s m e m' e'
    using that by (auto simp: transition_session_def session_machine_transition_def
        split: if_splits sum.splits prod.splits)
  have err: "\<not> response_ok r" if "transition_session x fault now i s m SessPreparing e = (Inl r, e')" for s m e r e'
    using that by (auto simp: transition_session_def session_machine_transition_def transition_error_def
        split: if_splits sum.splits prod.splits)
  show "\<not> response_ok (fst (resume_session x fault now i params c))"
    by (auto simp: resume_session_def Let_def session_not_found_def transition_error_def run prep
        dest: err prep session_id_param_error split: sum.splits option.splits prod.splits)
qed (simp add: resume_session_def session_id_param_def parse_uuid_def sample_uuid_parse load_session_def
    sample_session parse_session_state_def transition_session_def session_machine_transition_def
    session_machine_from_state_def persist_session_status_def sessions_get_set_status Let_def)

lemma create_turn_row_Inl:
  "create_turn_row x fault now fresh i sid cwd prompt e = (Inl sg, e') \<Longrightarrow>
   sg_prompt sg = prompt \<and> sg_session sg = sid \<and> tu_status (sg_turn sg) = ''queued'' \<and>
   tu_id (sg_turn sg) = fresh \<and> turns (core_db e') = turns (core_db e) @ [sg_turn sg] \<and>
   list_all (\<lambda>r. tu_sequence r < tu_sequence (sg_turn sg))
     (filter (\<lambda>r. tu_session_id r = sid) (turns (core_db e)))"
  using turns_next_sequence_greater [of _ "core_db e" sid]
  by (auto simp: create_turn_row_def turns_create_def new_turn_new_def Let_def list_all_iff
      split: option.splits sum.splits prod.splits if_splits)

lemma create_turn_row_Inr:
  "create_turn_row x fault now fresh i sid cwd prompt e = (Inr r, e') \<Longrightarrow>
   \<not> response_ok r \<and> core_db e' = core_db e"
  by (auto simp: create_turn_row_def turns_create_def Let_def
      split: option.splits sum.splits prod.splits if_splits)

text \<open>no prompt with a detected secret becomes a turn. If \<open>turn.send\<close> gets as far as
  launching a provider, the scan of the prompt was clean, the session exists and had no active
  turn, and exactly one queued turn was added to the database, with a sequence number above every
  other of the session; in every other case the answer is an error and the database is unchanged.\<close>

theorem send_turn_guarded:
  "case send_turn x fault now fresh i params c of
     (Inl sg, c') \<Rightarrow>
       scan_is_clean (scan_prompt x (sg_prompt sg)) \<and>
       json_get_str ''prompt'' params = Some (sg_prompt sg) \<and>
       load_session fault (sg_session sg) c \<noteq> None \<and>
       registry_active_turn (sg_session sg) c = None \<and>
       tu_status (sg_turn sg) = ''queued'' \<and> turns (core_db c') = turns (core_db c) @ [sg_turn sg] \<and>
       list_all (\<lambda>r. tu_sequence r < tu_sequence (sg_turn sg))
         (filter (\<lambda>r. tu_session_id r = sg_session sg) (turns (core_db c)))
   | (Inr r, c') \<Rightarrow> \<not> response_ok r \<and> core_db c' = core_db c"
proof -
  define P where "P res = (case res of
     (Inl sg, c') \<Rightarrow>
       scan_is_clean (scan_prompt x (sg_prompt sg)) \<and>
       json_get_str ''prompt'' params = Some (sg_prompt sg) \<and>
       load_session fault (sg_session sg) c \<noteq> None \<and>
       registry_active_turn (sg_session sg) c = None \<and>
       tu_status (sg_turn sg) = ''queued'' \<and> turns (core_db c') = turns (core_db c) @ [sg_turn sg] \<and>
       list_all (\<lambda>r. tu_sequence r < tu_sequence (sg_turn sg))
         (filter (\<lambda>r. tu_session_id r = sg_session sg) (turns (core_db c)))
   | (Inr r, c') \<Rightarrow> \<not> response_ok r \<and> core_db c' = core_db c)" for res :: "(sending, response) outcome \<times> core"
  have err: "P (Inr r, c)" if "\<not> response_ok r" for r using that by (simp add: P_def)
  have row: "P (create_turn_row x fault now fresh i sid cwd prompt (registry_upsert sid w p c))"
    if "scan_is_clean (scan_prompt x prompt)" "json_get_str ''prompt'' params = Some prompt"
      "load_session fault sid c = Some s" "registry_active_turn sid c = None" for sid cwd prompt w p s
    using that by (auto simp: P_def split: prod.split sum.split
        dest!: create_turn_row_Inl create_turn_row_Inr)
  have "P (send_turn x fault now fresh i params c)"
    unfolding send_turn_def Let_def
    by (auto split: sum.split option.split if_split intro!: err row
        simp: session_not_found_def dest: session_id_param_error)
  then show ?thesis unfolding P_def .
qed

end
