(* ===== verification/SessionWatch.thy ===== *)
theory SessionWatch
  imports SessionFacts
begin

text \<open>
  The session service as concurrent tasks (\<open>crates/retcon-core/src/session_rpc.rs\<close>): request
  handlers, the handlers that wait for the lock of a turn's handle, and one watcher per running
  turn. The watcher takes the lock and keeps it while it waits for the provider process to exit.
  Every part of a handler between two awaits is one step.
\<close>

subsection \<open>The step relation\<close>

datatype process = Alive | Exited "int option"

text \<open>
  A watcher is spawned, holds the lock while it waits, gives it back with the exit code in hand,
  and then stores the outcome.
\<close>

datatype watch_phase = Spawned | Watching | Collected "int option" | Done

record handle =
  hd_process :: process
  hd_phase :: watch_phase
  hd_session :: uuid

record service =
  sv_core :: core
  sv_sending :: "sending list"
  sv_waiting :: "waiting list"
  sv_handles :: "uuid \<Rightarrow> handle option"

fun killed :: "int option \<Rightarrow> process \<Rightarrow> process" where
  "killed code Alive = Exited code"
| "killed code (Exited e) = Exited e"

text \<open>The handlers without an await inside, as far as the core's state is concerned.\<close>

inductive atomic_request :: "externals \<Rightarrow> session_faults \<Rightarrow> core \<Rightarrow> core \<Rightarrow> bool"
  for x fault where
  create: "create_session x fault now fresh i params c = (r, c') \<Longrightarrow> atomic_request x fault c c'"
| start: "start_session x fault now i params c = (r, c') \<Longrightarrow> atomic_request x fault c c'"
| resume: "resume_session x fault now i params c = (r, c') \<Longrightarrow> atomic_request x fault c c'"
| send_refused: "send_turn x fault now fresh i params c = (Inr r, c') \<Longrightarrow> atomic_request x fault c c'"
| cancel_now: "cancel_session x fault now i params c = (Inr r, c') \<Longrightarrow> atomic_request x fault c c'"
| pause_now: "pause_session x fault now i params c = (Inr r, c') \<Longrightarrow> atomic_request x fault c c'"
| stream: "c' = stream_line x provider sid t line c \<Longrightarrow> atomic_request x fault c c'"

inductive must_wait :: "externals \<Rightarrow> session_faults \<Rightarrow> core \<Rightarrow> waiting \<Rightarrow> core \<Rightarrow> bool"
  for x fault where
  cancel: "cancel_session x fault now i params c = (Inl w, c') \<Longrightarrow> must_wait x fault c w c'"
| pause: "pause_session x fault now i params c = (Inl w, c') \<Longrightarrow> must_wait x fault c w c'"
| cancel_turn: "cancel_turn x fault i params c = Inl w \<Longrightarrow> must_wait x fault c w c"

inductive service_step :: "externals \<Rightarrow> session_faults \<Rightarrow> service \<Rightarrow> service \<Rightarrow> bool"
  for x fault where
  request: "atomic_request x fault (sv_core s) c' \<Longrightarrow> service_step x fault s (s\<lparr>sv_core := c'\<rparr>)"
| send: "send_turn x fault now fresh i params (sv_core s) = (Inl sg, c') \<Longrightarrow>
    service_step x fault s (s\<lparr>sv_core := c', sv_sending := sg # sv_sending s\<rparr>)"
| launch: "sg \<in> set (sv_sending s) \<Longrightarrow>
    launch_turn x fault now checkpoint spawn sg (sv_core s) = (r, Some t, c') \<Longrightarrow>
    service_step x fault s
      (s\<lparr>sv_core := c', sv_sending := remove1 sg (sv_sending s),
         sv_handles := (sv_handles s)(t \<mapsto> \<lparr>hd_process = Alive, hd_phase = Spawned,
                                          hd_session = sg_session sg\<rparr>)\<rparr>)"
| launch_fails: "sg \<in> set (sv_sending s) \<Longrightarrow>
    launch_turn x fault now checkpoint spawn sg (sv_core s) = (r, None, c') \<Longrightarrow>
    service_step x fault s (s\<lparr>sv_core := c', sv_sending := remove1 sg (sv_sending s)\<rparr>)"
| wait: "must_wait x fault (sv_core s) w c' \<Longrightarrow>
    service_step x fault s (s\<lparr>sv_core := c', sv_waiting := w # sv_waiting s\<rparr>)"
| lock: "sv_handles s t = Some h \<Longrightarrow> hd_phase h = Spawned \<Longrightarrow>
    service_step x fault s (s\<lparr>sv_handles := (sv_handles s)(t \<mapsto> h\<lparr>hd_phase := Watching\<rparr>)\<rparr>)"
| exit: "sv_handles s t = Some h \<Longrightarrow> hd_process h = Alive \<Longrightarrow>
    service_step x fault s (s\<lparr>sv_handles := (sv_handles s)(t \<mapsto> h\<lparr>hd_process := Exited code\<rparr>)\<rparr>)"
| resume_waiting: "w \<in> set (sv_waiting s) \<Longrightarrow> sv_handles s (waiting_turn w) = Some h \<Longrightarrow>
    hd_phase h \<noteq> Watching \<Longrightarrow> code \<noteq> Some 0 \<Longrightarrow> continue_waiting x fault now w (sv_core s) = (r, c') \<Longrightarrow>
    service_step x fault s
      (s\<lparr>sv_core := c', sv_waiting := remove1 w (sv_waiting s),
         sv_handles := (sv_handles s)(waiting_turn w \<mapsto> h\<lparr>hd_process := killed code (hd_process h)\<rparr>)\<rparr>)"
| collect: "sv_handles s t = Some h \<Longrightarrow> hd_phase h = Watching \<Longrightarrow> hd_process h = Exited code \<Longrightarrow>
    service_step x fault s (s\<lparr>sv_handles := (sv_handles s)(t \<mapsto> h\<lparr>hd_phase := Collected code\<rparr>)\<rparr>)"
| finish: "sv_handles s t = Some h \<Longrightarrow> hd_phase h = Collected code \<Longrightarrow>
    service_step x fault s
      (s\<lparr>sv_core := watcher_finish x fault now (hd_session h) t code (sv_core s),
         sv_handles := (sv_handles s)(t \<mapsto> h\<lparr>hd_phase := Done\<rparr>)\<rparr>)"

inductive_cases service_stepE: "service_step x fault s s'"

subsection \<open>What the parts do to the turn table and to the active turns\<close>

definition same_turns :: "core \<Rightarrow> core \<Rightarrow> bool" where
  "same_turns c c' \<longleftrightarrow> turns (core_db c') = turns (core_db c) \<and>
     (\<forall>s. registry_active_turn s c' = registry_active_turn s c)"

lemma same_turns_refl [simp]: "same_turns c c"
  by (simp add: same_turns_def)

lemma same_turns_trans [trans]: "same_turns a b \<Longrightarrow> same_turns b c \<Longrightarrow> same_turns a c"
  by (simp add: same_turns_def)

lemma same_turns_emit [simp]:
  "same_turns a (emit k p c) = same_turns a c"
  "same_turns a (emit_session_state x s st c) = same_turns a c"
  "same_turns a (emit_turn_state x s t ts c) = same_turns a c"
  "same_turns a (registry_upsert s cwd pr c) = same_turns a c"
  "same_turns a (set_native_session_id s n c) = same_turns a c"
proof -
  have up: "registry_active_turn u (registry_upsert s cwd pr c) = registry_active_turn u c" for u
    by (auto simp: registry_active_turn_def registry_upsert_def split: option.split)
  have nat: "registry_active_turn u (set_native_session_id s n c) = registry_active_turn u c" for u
    by (auto simp: registry_active_turn_def set_native_session_id_def split: option.split)
  have nat': "core_db (set_native_session_id s n c) = core_db c"
    by (simp add: set_native_session_id_def split: option.split)
  show "same_turns a (emit k p c) = same_turns a c"
    "same_turns a (emit_session_state x s st c) = same_turns a c"
    "same_turns a (emit_turn_state x s t ts c) = same_turns a c"
    by (simp_all add: same_turns_def registry_active_turn_def)
  show "same_turns a (registry_upsert s cwd pr c) = same_turns a c"
    "same_turns a (set_native_session_id s n c) = same_turns a c"
    by (simp_all add: same_turns_def up nat nat')
qed

lemma same_turns_transition_session [simp]:
  "same_turns a (snd (transition_session x fault now i s m to c)) = same_turns a c"
  by (auto simp: transition_session_def persist_session_status_def same_turns_def
      registry_active_turn_def sessions_set_status_def split: sum.split option.split)

lemma same_turns_take_steps [simp]:
  "same_turns a (snd (take_steps x fault now i s m sts c)) = same_turns a c"
proof (induction sts arbitrary: m c)
  case Nil
  then show ?case by simp
next
  case (Cons st sts)
  show ?case by (simp add: case_prod_beta Cons.IH split: sum.split)
qed

lemma same_turns_finish_session [simp]:
  "same_turns a (snd (finish_cancel_session x fault now i sid s c)) = same_turns a c"
  "same_turns a (snd (finish_pause_session x fault now i sid s c)) = same_turns a c"
  by (simp_all add: finish_cancel_session_def finish_pause_session_def Let_def case_prod_beta
      del: session_is_terminal.simps split: sum.split)

lemma same_turns_db: "turns d = turns (core_db c) \<Longrightarrow> same_turns a (c\<lparr>core_db := d\<rparr>) = same_turns a c"
  by (simp add: same_turns_def registry_active_turn_def)

lemma sessions_create_turns [simp]: "turns (snd (sessions_create now s d)) = turns d"
  by (simp add: sessions_create_def Let_def)

lemma turns_create_Inl: "turns_create now t d = (Inl e, d') \<Longrightarrow> d' = d"
  by (auto simp: turns_create_def Let_def split: if_splits)

text \<open>The shape of a proof about a handler: early returns keep the state.\<close>

definition keeps :: "core \<Rightarrow> 'r \<times> core \<Rightarrow> bool" where
  "keeps c res \<longleftrightarrow> same_turns c (snd res)"

lemma keeps_simps [simp]: "keeps c (r, c')  = same_turns c c'"
  by (simp add: keeps_def)

lemma keeps_case_session:
  "(\<And>e c'. same_turns c c' \<Longrightarrow> keeps c (f e c')) \<Longrightarrow> (\<And>m c'. same_turns c c' \<Longrightarrow> keeps c (g m c')) \<Longrightarrow>
   same_turns c b \<Longrightarrow>
   keeps c (case transition_session x fault now i s m0 to b of (Inl e, c') \<Rightarrow> f e c' | (Inr m, c') \<Rightarrow> g m c')"
  using same_turns_transition_session [of c x fault now i s m0 to b]
  by (cases "transition_session x fault now i s m0 to b"; cases "fst (transition_session x fault now i s m0 to b)") auto

lemma keeps_case_steps:
  "(\<And>e c'. same_turns c c' \<Longrightarrow> keeps c (f e c')) \<Longrightarrow> (\<And>m c'. same_turns c c' \<Longrightarrow> keeps c (g m c')) \<Longrightarrow>
   same_turns c b \<Longrightarrow>
   keeps c (case take_steps x fault now i s m0 sts b of (Inl e, c') \<Rightarrow> f e c' | (Inr m, c') \<Rightarrow> g m c')"
  using same_turns_take_steps [of c x fault now i s m0 sts b]
  by (cases "take_steps x fault now i s m0 sts b"; cases "fst (take_steps x fault now i s m0 sts b)") auto

lemma keeps_case_create:
  "(\<And>e d. turns d = turns (core_db c) \<Longrightarrow> keeps c (f e d)) \<Longrightarrow>
   (\<And>m d. turns d = turns (core_db c) \<Longrightarrow> keeps c (g m d)) \<Longrightarrow>
   keeps c (case sessions_create now s (core_db c) of (Inl e, d) \<Rightarrow> f e d | (Inr m, d) \<Rightarrow> g m d)"
  using sessions_create_turns [of now s "core_db c"]
  by (cases "sessions_create now s (core_db c)"; cases "fst (sessions_create now s (core_db c))") auto

lemma create_session_keeps: "keeps c (create_session x fault now fresh i params c)"
  unfolding create_session_def Let_def
  by (auto split: option.split sum.split intro!: keeps_case_create simp: same_turns_db)

lemma start_session_keeps: "keeps c (start_session x fault now i params c)"
  unfolding start_session_def Let_def
  by (auto split: option.split sum.split intro!: keeps_case_steps simp del: session_is_terminal.simps take_steps.simps)

lemma resume_session_keeps: "keeps c (resume_session x fault now i params c)"
  unfolding resume_session_def Let_def
  by (auto split: option.split sum.split intro!: keeps_case_session)

lemma cancel_session_keeps: "keeps c (cancel_session x fault now i params c)"
  using same_turns_finish_session(1) [of c x fault now i]
  by (auto simp: cancel_session_def Let_def case_prod_beta split: option.split sum.split)

lemma pause_session_keeps: "keeps c (pause_session x fault now i params c)"
  using same_turns_finish_session(2) [of c x fault now i]
  by (auto simp: pause_session_def Let_def case_prod_beta split: option.split sum.split)

lemma stream_line_keeps: "same_turns c (stream_line x p sid t line c)"
  by (simp add: stream_line_def Let_def emit_agent_event_def split: option.split)

lemma send_turn_refused: "send_turn x fault now fresh i params c = (Inr r, c') \<Longrightarrow> same_turns c c'"
proof -
  have row: "same_turns c e'" if "create_turn_row x fault now fresh i sid cwd prompt
      (registry_upsert sid w p c) = (Inr r, e')" for sid cwd prompt w p e'
  proof -
    have "core_db e' = core_db (registry_upsert sid w p c) \<and> registry e' = registry (registry_upsert sid w p c)"
      using that by (auto simp: create_turn_row_def split: option.splits sum.splits prod.splits
          dest: turns_create_Inl)
    moreover have "same_turns c (registry_upsert sid w p c)" by simp
    ultimately show ?thesis by (simp add: same_turns_def registry_active_turn_def)
  qed
  assume "send_turn x fault now fresh i params c = (Inr r, c')"
  then show ?thesis
    by (auto simp: send_turn_def Let_def split: option.splits sum.splits if_splits dest: row)
qed

lemma atomic_request_same_turns: "atomic_request x fault c c' \<Longrightarrow> same_turns c c'"
proof (induction rule: atomic_request.induct)
  case (create now fresh i params c r c')
  then show ?case using create_session_keeps [of c x fault now fresh i params] by simp
next
  case (start now i params c r c')
  then show ?case using start_session_keeps [of c x fault now i params] by simp
next
  case (resume now i params c r c')
  then show ?case using resume_session_keeps [of c x fault now i params] by simp
next
  case (send_refused now fresh i params c r c')
  then show ?case by (rule send_turn_refused)
next
  case (cancel_now now i params c r c')
  then show ?case using cancel_session_keeps [of c x fault now i params] by simp
next
  case (pause_now now i params c r c')
  then show ?case using pause_session_keeps [of c x fault now i params] by simp
next
  case (stream c' provider sid t line c)
  then show ?case by (simp add: stream_line_keeps)
qed

lemma must_wait_active:
  "must_wait x fault c w c' \<Longrightarrow> c' = c \<and> (\<exists>sid. registry_active_turn sid c = Some (waiting_turn w))"
  by (induction rule: must_wait.induct)
    (auto simp: cancel_session_def pause_session_def cancel_turn_def Let_def
      split: option.splits sum.splits prod.splits if_splits)

subsection \<open>What becomes of a turn's row\<close>

definition turn_status :: "uuid \<Rightarrow> core \<Rightarrow> string option" where
  "turn_status t c = map_option tu_status (turns_get t (core_db c))"

lemma turn_status_same: "same_turns c c' \<Longrightarrow> turn_status t c' = turn_status t c"
  by (simp add: same_turns_def turn_status_def turns_get_def)

lemma turn_status_emit [simp]:
  "turn_status t (emit k p c) = turn_status t c"
  "turn_status t (emit_turn_state x s u ts c) = turn_status t c"
  "turn_status t (set_active_turn s v c) = turn_status t c"
  by (simp_all add: turn_status_def)

lemma active_turn_emit [simp]:
  "registry_active_turn s (emit k p c) = registry_active_turn s c"
  "registry_active_turn s (emit_turn_state x u t ts c) = registry_active_turn s c"
  by (simp_all add: registry_active_turn_def)

lemma active_turn_set:
  "registry_active_turn s (set_active_turn u t c) =
     (if s = u \<and> registry c u \<noteq> None then t else registry_active_turn s c)"
  by (auto simp: registry_active_turn_def set_active_turn_def split: option.split)

lemma turn_status_transition:
  "turn_status u (snd (transition_turn_internal x no_session_faults now t m to c)) =
     (if u = t \<and> turn_transition_allowed (tm_state m) to
      then map_option (\<lambda>s. turn_as_str to) (turn_status u c) else turn_status u c)"
  by (cases "turns_get u (core_db c)")
    (auto simp: turn_status_def transition_turn_internal_def turn_machine_transition_def
      persist_turn_status_def turns_get_set_status)

lemma active_turn_transition [simp]:
  "registry_active_turn s (snd (transition_turn_internal x fault now t m to c)) = registry_active_turn s c"
  by (auto simp: transition_turn_internal_def turn_machine_transition_def persist_turn_status_def
      registry_active_turn_def split: sum.split option.split)

lemma watcher_finish_status:
  "turn_status u (watcher_finish x no_session_faults now sid t code c) =
     (if u = t then map_option (\<lambda>s. if code = Some 0 then ''completed'' else ''failed'') (turn_status u c)
      else turn_status u c)"
  by (auto simp: watcher_finish_def Let_def turn_status_transition turn_machine_from_state_def moved_def
      turn_machine_transition_def option.map_comp comp_def)

definition current_turn_state :: "uuid \<Rightarrow> core \<Rightarrow> turn_state" where
  "current_turn_state t c =
     (case Option.bind (turn_status t c) parse_turn_state of Some v \<Rightarrow> v | None \<Rightarrow> TurnRunning)"

lemma finish_cancel_turn_status:
  "turn_status u (snd (finish_cancel_turn x no_session_faults now i sid t c)) =
     (if u = t \<and> \<not> turn_is_terminal (current_turn_state t c)
      then map_option (\<lambda>s. ''cancelled'') (turn_status u c) else turn_status u c)"
proof -
  have cur: "(case Option.bind (turns_get t (core_db c)) (\<lambda>r. parse_turn_state (tu_status r)) of
      Some v \<Rightarrow> v | None \<Rightarrow> TurnRunning) = current_turn_state t c"
    by (cases "turns_get t (core_db c)") (simp_all add: current_turn_state_def turn_status_def)
  have allowed: "\<not> turn_is_terminal st \<Longrightarrow> turn_transition_allowed st TurnCancelled" for st
    by (rule turn.cancel_allowed)
  show ?thesis
    by (simp add: finish_cancel_turn_def Let_def cur turn_status_transition turn_machine_from_state_def
        allowed del: turn_is_terminal.simps)
qed

lemma finish_cancel_turn_active [simp]:
  "registry_active_turn s (snd (finish_cancel_turn x fault now i sid t c)) = registry_active_turn s c"
  by (simp add: finish_cancel_turn_def Let_def del: turn_is_terminal.simps)

lemma turn_status_None: "turn_status t c = None \<longleftrightarrow> turns_get t (core_db c) = None"
  by (simp add: turn_status_def)

text \<open>The second part of a waiting handler and the turns.\<close>

lemma continue_waiting_status:
  assumes "continue_waiting x no_session_faults now w c = (r, c')"
  shows "turn_status u c' = turn_status u c \<or>
    (u = waiting_turn w \<and> \<not> turn_is_terminal (current_turn_state u c) \<and> turn_status u c \<noteq> None \<and>
     turn_status u c' = Some ''cancelled'')"
proof (cases w)
  case (WaitCancelSession i sid s t)
  with assms show ?thesis
    using turn_status_same [OF iffD2 [OF same_turns_finish_session(1) same_turns_refl],
        of u x no_session_faults now i sid s "set_active_turn sid None c"] by simp
next
  case (WaitPauseSession i sid s t)
  with assms show ?thesis
    using turn_status_same [OF iffD2 [OF same_turns_finish_session(2) same_turns_refl],
        of u x no_session_faults now i sid s "set_active_turn sid None c"] by simp
next
  case (WaitCancelTurn i wt sid t)
  have "current_turn_state t (set_active_turn sid None c) = current_turn_state t c"
    by (simp add: current_turn_state_def)
  with WaitCancelTurn assms show ?thesis
    using finish_cancel_turn_status [of u x now i sid t "set_active_turn sid None c"]
    by (cases "turn_status t c") (auto simp del: turn_is_terminal.simps)
qed

lemma continue_waiting_active:
  assumes "continue_waiting x fault now w c = (r, c')"
  shows "registry_active_turn s c' = registry_active_turn s c \<or> registry_active_turn s c' = None"
proof -
  have same: "registry_active_turn s (snd (f (set_active_turn sid None c))) \<in> {registry_active_turn s c, None}"
    if "\<And>a. same_turns a (snd (f a)) = same_turns a a" for f :: "core \<Rightarrow> response \<times> core" and sid
    using that [of "set_active_turn sid None c"] by (auto simp: same_turns_def active_turn_set)
  show ?thesis
  proof (cases w)
    case (WaitCancelSession i sid st t)
    with assms show ?thesis using same [of "finish_cancel_session x fault now i sid st" sid] by auto
  next
    case (WaitPauseSession i sid st t)
    with assms show ?thesis using same [of "finish_pause_session x fault now i sid st" sid] by auto
  next
    case (WaitCancelTurn i wt sid t)
    with assms show ?thesis
      using finish_cancel_turn_active [of s x fault now i sid t "set_active_turn sid None c"]
      by (auto simp: active_turn_set)
  qed
qed

subsection \<open>Sending and launching\<close>

lemma turn_status_append:
  "turns (core_db c') = turns (core_db c) @ [t] \<Longrightarrow>
   turn_status u c' = (if turn_status u c = None \<and> u = tu_id t then Some (tu_status t) else turn_status u c)"
proof -
  assume a: "turns (core_db c') = turns (core_db c) @ [t]"
  have "find p (l @ [t]) = (case find p l of Some r \<Rightarrow> Some r | None \<Rightarrow> if p t then Some t else None)" for p l
    by (induction l) auto
  then show ?thesis
    by (cases "find (\<lambda>r. tu_id r = u) (turns (core_db c))") (auto simp: turn_status_def turns_get_def a)
qed

lemma create_turn_row_fresh:
  "create_turn_row x fault now fresh i sid cwd prompt c = (Inl sg, c') \<Longrightarrow>
   turn_status (tu_id (sg_turn sg)) c = None \<and> (\<forall>s. registry_active_turn s c' = registry_active_turn s c)"
  by (auto simp: create_turn_row_def turns_create_def new_turn_new_def Let_def turn_status_def
      turns_get_def find_None_iff registry_active_turn_def
      split: option.splits sum.splits prod.splits if_splits)

lemma send_turn_Inl:
  assumes "send_turn x fault now fresh i params c = (Inl sg, c')"
  shows "turn_status (tu_id (sg_turn sg)) c = None \<and>
    turn_status u c' = (if u = tu_id (sg_turn sg) then Some ''queued'' else turn_status u c) \<and>
    registry_active_turn s c' = registry_active_turn s c"
proof -
  obtain sid cwd prompt w p where
    row: "create_turn_row x fault now fresh i sid cwd prompt (registry_upsert sid w p c) = (Inl sg, c')"
    using assms by (auto simp: send_turn_def Let_def split: option.splits sum.splits if_splits)
  have same: "same_turns c (registry_upsert sid w p c)" by simp
  note f = create_turn_row_fresh [OF row] create_turn_row_Inl [OF row]
  have "turn_status (tu_id (sg_turn sg)) c = None"
    using f(1) turn_status_same [OF same] by simp
  moreover have "turn_status u c' = (if u = tu_id (sg_turn sg) then Some ''queued'' else turn_status u c)"
    using f turn_status_append [of c' "registry_upsert sid w p c" "sg_turn sg" u] turn_status_same [OF same]
    by auto
  moreover have "registry_active_turn s c' = registry_active_turn s c"
    using f(1) same by (simp add: same_turns_def)
  ultimately show ?thesis by blast
qed

lemma transition_turn_ok:
  assumes "turn_transition_allowed a b"
  obtains e' where
    "transition_turn_internal x no_session_faults now t (turn_machine_from_state a) b e
       = (Inr (turn_machine_from_state b), e')"
    "\<And>u. turn_status u e' = (if u = t then map_option (\<lambda>s. turn_as_str b) (turn_status u e) else turn_status u e)"
    "\<And>s. registry_active_turn s e' = registry_active_turn s e"
proof
  let ?r = "transition_turn_internal x no_session_faults now t (turn_machine_from_state a) b e"
  have "fst ?r = Inr (turn_machine_from_state b)"
    using assms by (simp add: transition_turn_internal_def turn_machine_transition_def
        turn_machine_from_state_def persist_turn_status_def)
  then show "?r = (Inr (turn_machine_from_state b), snd ?r)" by (simp add: prod_eq_iff)
  show "turn_status u (snd ?r) = (if u = t then map_option (\<lambda>s. turn_as_str b) (turn_status u e)
      else turn_status u e)" for u
    using assms by (simp add: turn_status_transition turn_machine_from_state_def)
  show "registry_active_turn s (snd ?r) = registry_active_turn s e" for s by simp
qed

lemma launch_turn_facts:
  assumes "launch_turn x no_session_faults now cp spawn sg c = (r, res, c')"
  shows "(u \<noteq> tu_id (sg_turn sg) \<longrightarrow> turn_status u c' = turn_status u c) \<and>
    (turn_status u c' = None \<longleftrightarrow> turn_status u c = None) \<and>
    (res \<noteq> None \<longrightarrow> res = Some (tu_id (sg_turn sg))) \<and>
    (registry_active_turn s c' = registry_active_turn s c \<or>
     (registry_active_turn s c' = res \<and> res \<noteq> None))"
proof -
  let ?t = "tu_id (sg_turn sg)"
  define c1 where "c1 = (case cp of None \<Rightarrow> c | Some (i, kind) \<Rightarrow> emit ''checkpoint.created''
      (JObj [(''checkpointId'', json_uuid x i), (''kind'', JStr kind), (''turnId'', json_uuid x ?t)]) c)"
  have c1: "turn_status v c1 = turn_status v c" "registry_active_turn w c1 = registry_active_turn w c" for v w
    by (auto simp: c1_def split: option.split)
  obtain c2 where t1: "transition_turn_internal x no_session_faults now ?t (turn_machine_from_state TurnQueued)
      TurnSending c1 = (Inr (turn_machine_from_state TurnSending), c2)"
    and c2: "\<And>u. turn_status u c2 = (if u = ?t then map_option (\<lambda>s. turn_as_str TurnSending) (turn_status u c1) else turn_status u c1)"
      "\<And>s. registry_active_turn s c2 = registry_active_turn s c1"
    by (rule transition_turn_ok [of TurnQueued TurnSending]) auto
  define c3 where "c3 = emit_turn_state x (sg_session sg) ?t TurnSending c2"
  obtain c4 where t2: "transition_turn_internal x no_session_faults now ?t (turn_machine_from_state TurnSending)
      TurnRunning c3 = (Inr (turn_machine_from_state TurnRunning), c4)"
    and c4: "\<And>u. turn_status u c4 = (if u = ?t then map_option (\<lambda>s. turn_as_str TurnRunning) (turn_status u c3) else turn_status u c3)"
      "\<And>s. registry_active_turn s c4 = registry_active_turn s c3"
    by (rule transition_turn_ok [of TurnSending TurnRunning]) auto
  have c3: "turn_status v c3 = turn_status v c2" "registry_active_turn w c3 = registry_active_turn w c2" for v w
    by (simp_all add: c3_def)
  show ?thesis
    using assms unfolding launch_turn_def Let_def c1_def [symmetric] t1 prod.case sum.case
      c3_def [symmetric] t2
    by (auto simp: turn_status_transition c1 c2 c3 c4 active_turn_set split: sum.splits if_splits)
qed

subsection \<open>The invariant of the service\<close>

abbreviation sending_turn :: "sending \<Rightarrow> uuid" where
  "sending_turn sg \<equiv> tu_id (sg_turn sg)"

text \<open>
  Turns on their way to a provider have a row and no process yet; processes, active turns and
  waiting handlers name turns that exist; the turn of a finished watcher is completed or failed.
\<close>

definition sending_wf :: "service \<Rightarrow> bool" where
  "sending_wf s \<longleftrightarrow> distinct (map sending_turn (sv_sending s)) \<and>
     (\<forall>sg \<in> set (sv_sending s). turn_status (sending_turn sg) (sv_core s) \<noteq> None
        \<and> sv_handles s (sending_turn sg) = None)"

definition handles_wf :: "service \<Rightarrow> bool" where
  "handles_wf s \<longleftrightarrow>
     (\<forall>t. sv_handles s t \<noteq> None \<longrightarrow> turn_status t (sv_core s) \<noteq> None) \<and>
     (\<forall>sid t. registry_active_turn sid (sv_core s) = Some t \<longrightarrow> sv_handles s t \<noteq> None) \<and>
     (\<forall>w \<in> set (sv_waiting s). sv_handles s (waiting_turn w) \<noteq> None)"

definition outcomes_wf :: "service \<Rightarrow> bool" where
  "outcomes_wf s \<longleftrightarrow> (\<forall>t h. sv_handles s t = Some h \<longrightarrow> hd_phase h = Done \<longrightarrow>
     turn_status t (sv_core s) = Some ''completed'' \<or> turn_status t (sv_core s) = Some ''failed'')"

definition service_wf :: "service \<Rightarrow> bool" where
  "service_wf s \<longleftrightarrow> sending_wf s \<and> handles_wf s \<and> outcomes_wf s"

lemmas wf_defs = service_wf_def sending_wf_def handles_wf_def outcomes_wf_def

lemma terminal_names: "turn_is_terminal (current_turn_state t c)"
  if "turn_status t c = Some ''completed'' \<or> turn_status t c = Some ''failed''"
  using that by (auto simp: current_turn_state_def parse_turn_state_def)

lemma wf_request:
  assumes "service_wf s" and "same_turns (sv_core s) c'"
  shows "service_wf (s\<lparr>sv_core := c'\<rparr>)"
proof -
  have "turn_status t c' = turn_status t (sv_core s)"
    "registry_active_turn v c' = registry_active_turn v (sv_core s)" for t v
    using assms(2) turn_status_same by (auto simp: same_turns_def)
  with assms(1) show ?thesis by (simp add: wf_defs)
qed

lemma wf_send:
  assumes "service_wf s" and "send_turn x fault now fresh i params (sv_core s) = (Inl sg, c')"
  shows "service_wf (s\<lparr>sv_core := c', sv_sending := sg # sv_sending s\<rparr>)"
proof -
  have new: "turn_status (sending_turn sg) (sv_core s) = None"
    and st: "\<And>u. turn_status u c' = (if u = sending_turn sg then Some ''queued'' else turn_status u (sv_core s))"
    and act: "\<And>v. registry_active_turn v c' = registry_active_turn v (sv_core s)"
    using send_turn_Inl [OF assms(2)] by blast+
  have "sv_handles s (sending_turn sg) = None"
    using assms(1) new unfolding wf_defs by (metis option.distinct(1) option.exhaust)
  moreover have "sending_turn sg \<notin> sending_turn ` set (sv_sending s)"
    using assms(1) new by (auto simp: wf_defs)
  ultimately show ?thesis
    using assms(1) by (auto simp: wf_defs st act)
qed

lemma wf_launch_core:
  assumes "service_wf s" and "sg \<in> set (sv_sending s)"
    and "launch_turn x no_session_faults now cp spawn sg (sv_core s) = (r, res, c')"
  shows "\<And>u. u \<noteq> sending_turn sg \<Longrightarrow> turn_status u c' = turn_status u (sv_core s)"
    and "\<And>u. turn_status u c' = None \<longleftrightarrow> turn_status u (sv_core s) = None"
    and "\<And>v t. registry_active_turn v c' = Some t \<Longrightarrow>
      sv_handles s t \<noteq> None \<or> res = Some t \<and> t = sending_turn sg"
    and "sv_handles s (sending_turn sg) = None"
proof -
  note f = launch_turn_facts [OF assms(3)]
  show "\<And>u. u \<noteq> sending_turn sg \<Longrightarrow> turn_status u c' = turn_status u (sv_core s)"
    "\<And>u. turn_status u c' = None \<longleftrightarrow> turn_status u (sv_core s) = None"
    using f by blast+
  show "\<And>v t. registry_active_turn v c' = Some t \<Longrightarrow>
      sv_handles s t \<noteq> None \<or> res = Some t \<and> t = sending_turn sg"
    using f assms(1) unfolding wf_defs by (metis option.inject)
  show "sv_handles s (sending_turn sg) = None"
    using assms(1,2) by (simp add: wf_defs)
qed

lemma wf_remove_sending:
  assumes "service_wf s" and "sg \<in> set (sv_sending s)"
  shows "distinct (map sending_turn (remove1 sg (sv_sending s))) \<and>
    (\<forall>g \<in> set (remove1 sg (sv_sending s)). sending_turn g \<noteq> sending_turn sg \<and> g \<in> set (sv_sending s))"
proof -
  have d: "distinct (map sending_turn (sv_sending s))" using assms(1) by (simp add: wf_defs)
  then have ds: "distinct (sv_sending s)" by (simp add: distinct_map)
  have "sending_turn g \<noteq> sending_turn sg" if "g \<in> set (sv_sending s)" "g \<noteq> sg" for g
    using d that assms(2) by (auto simp: distinct_map dest: inj_onD)
  moreover have "inj_on sending_turn (set (remove1 sg (sv_sending s)))"
    using d by (auto simp: distinct_map intro: inj_on_subset dest: notin_set_remove1 set_remove1_subset [THEN subsetD])
  ultimately show ?thesis using ds by (simp add: distinct_map)
qed

lemma wf_launch:
  assumes "service_wf s" and "sg \<in> set (sv_sending s)"
    and "launch_turn x no_session_faults now cp spawn sg (sv_core s) = (r, Some t, c')"
  shows "service_wf (s\<lparr>sv_core := c', sv_sending := remove1 sg (sv_sending s),
     sv_handles := (sv_handles s)(t \<mapsto> \<lparr>hd_process = Alive, hd_phase = Spawned, hd_session = sg_session sg\<rparr>)\<rparr>)"
proof -
  have t: "t = sending_turn sg" using launch_turn_facts [OF assms(3)] by simp
  note core = wf_launch_core [OF assms] and rem = wf_remove_sending [OF assms(1,2)]
  have "sending_wf (s\<lparr>sv_core := c', sv_sending := remove1 sg (sv_sending s),
     sv_handles := (sv_handles s)(t \<mapsto> \<lparr>hd_process = Alive, hd_phase = Spawned, hd_session = sg_session sg\<rparr>)\<rparr>)"
    using assms(1) rem core(2) by (auto simp: wf_defs t)
  moreover have "turn_status t c' \<noteq> None"
    using assms(1,2) core(2) by (simp add: wf_defs t)
  ultimately show ?thesis
    using assms(1) core(1,2) by (auto simp: wf_defs t dest: core(3))
qed

lemma wf_launch_fails:
  assumes "service_wf s" and "sg \<in> set (sv_sending s)"
    and "launch_turn x no_session_faults now cp spawn sg (sv_core s) = (r, None, c')"
  shows "service_wf (s\<lparr>sv_core := c', sv_sending := remove1 sg (sv_sending s)\<rparr>)"
proof -
  note core = wf_launch_core [OF assms] and rem = wf_remove_sending [OF assms(1,2)]
  have "sending_wf (s\<lparr>sv_core := c', sv_sending := remove1 sg (sv_sending s)\<rparr>)"
    using assms(1) rem core(2) by (auto simp: wf_defs)
  moreover have "outcomes_wf (s\<lparr>sv_core := c', sv_sending := remove1 sg (sv_sending s)\<rparr>)"
    using assms(1) core(1,4) unfolding wf_defs by (simp, metis option.distinct(1))
  moreover have "handles_wf (s\<lparr>sv_core := c', sv_sending := remove1 sg (sv_sending s)\<rparr>)"
    using assms(1) core(2,3) by (fastforce simp: wf_defs)
  ultimately show ?thesis by (simp add: service_wf_def)
qed

lemma wf_handle_update:
  assumes "service_wf s" and "sv_handles s t = Some h" and "hd_phase h' = Done \<longrightarrow> hd_phase h = Done"
  shows "service_wf (s\<lparr>sv_handles := (sv_handles s)(t \<mapsto> h')\<rparr>)"
  using assms by (fastforce simp: wf_defs)

lemma wf_continue:
  assumes "service_wf s" and "sv_handles s (waiting_turn w) = Some h"
    and "continue_waiting x no_session_faults now w (sv_core s) = (r, c')"
  shows "service_wf (s\<lparr>sv_core := c', sv_waiting := remove1 w (sv_waiting s)\<rparr>)"
proof -
  have st: "turn_status u c' = None \<longleftrightarrow> turn_status u (sv_core s) = None" for u
    using continue_waiting_status [OF assms(3), of u] by auto
  have act: "registry_active_turn v c' = Some t \<Longrightarrow> registry_active_turn v (sv_core s) = Some t" for v t
    using continue_waiting_active [OF assms(3), of v] by auto
  have fin: "turn_status u c' = turn_status u (sv_core s)"
    if "turn_status u (sv_core s) = Some ''completed'' \<or> turn_status u (sv_core s) = Some ''failed''" for u
    using continue_waiting_status [OF assms(3), of u] terminal_names [OF that] by auto
  have "sending_wf (s\<lparr>sv_core := c', sv_waiting := remove1 w (sv_waiting s)\<rparr>)"
    using assms(1) st by (simp add: wf_defs)
  moreover have "handles_wf (s\<lparr>sv_core := c', sv_waiting := remove1 w (sv_waiting s)\<rparr>)"
    using assms(1) st by (auto simp: wf_defs dest!: act dest: notin_set_remove1 set_remove1_subset [THEN subsetD])
  moreover have "outcomes_wf (s\<lparr>sv_core := c', sv_waiting := remove1 w (sv_waiting s)\<rparr>)"
    using assms(1) fin unfolding wf_defs by simp
  ultimately show ?thesis by (simp add: service_wf_def)
qed

lemma watcher_finish_active:
  "registry_active_turn v (watcher_finish x fault now sid t code c) = Some u \<Longrightarrow>
   registry_active_turn v c = Some u"
  by (auto simp: watcher_finish_def Let_def active_turn_set split: if_splits)

lemma wf_finish:
  assumes "service_wf s" and "sv_handles s t = Some h"
  shows "service_wf (s\<lparr>sv_core := watcher_finish x no_session_faults now (hd_session h) t code (sv_core s),
    sv_handles := (sv_handles s)(t \<mapsto> h\<lparr>hd_phase := Done\<rparr>)\<rparr>)"
proof -
  have "turn_status t (sv_core s) \<noteq> None" using assms by (auto simp: wf_defs)
  then show ?thesis
    using assms by (auto simp: wf_defs watcher_finish_status dest!: watcher_finish_active)
qed

lemma service_step_wf:
  assumes "service_step x no_session_faults s s'" and "service_wf s"
  shows "service_wf s'"
  using assms
proof (induction rule: service_step.induct)
  case (request s c')
  then show ?case by (simp add: wf_request atomic_request_same_turns)
next
  case (send now fresh i params s sg c')
  then show ?case by (simp add: wf_send)
next
  case (launch sg s now checkpoint spawn r t c')
  then show ?case by (simp add: wf_launch)
next
  case (launch_fails sg s now checkpoint spawn r c')
  then show ?case by (simp add: wf_launch_fails)
next
  case (wait s w c')
  then have "c' = sv_core s" "\<exists>sid. registry_active_turn sid (sv_core s) = Some (waiting_turn w)"
    using must_wait_active by blast+
  with wait show ?case by (auto simp: wf_defs)
next
  case (lock s t h)
  show ?case by (rule wf_handle_update [OF lock(3) lock(1)]) simp
next
  case (exit s t h code)
  show ?case by (rule wf_handle_update [OF exit(3) exit(1)]) simp
next
  case (resume_waiting w s h code now r c')
  then have "service_wf (s\<lparr>sv_core := c', sv_waiting := remove1 w (sv_waiting s)\<rparr>)"
    by (intro wf_continue)
  then show ?case
    using wf_handle_update [of "s\<lparr>sv_core := c', sv_waiting := remove1 w (sv_waiting s)\<rparr>" "waiting_turn w" h
        "h\<lparr>hd_process := killed code (hd_process h)\<rparr>"] resume_waiting(2) by simp
next
  case (collect s t h code)
  show ?case by (rule wf_handle_update [OF collect(4) collect(1)]) simp
next
  case (finish s t h code now)
  then show ?case by (simp add: wf_finish)
qed

definition service_start :: "core \<Rightarrow> service" where
  "service_start c = \<lparr>sv_core = c, sv_sending = [], sv_waiting = [], sv_handles = (\<lambda>t. None)\<rparr>"

lemma service_start_wf: "(\<And>s. registry_active_turn s c = None) \<Longrightarrow> service_wf (service_start c)"
  by (simp add: service_start_def wf_defs)

lemma service_steps_wf:
  "(service_step x no_session_faults)\<^sup>*\<^sup>* s s' \<Longrightarrow> service_wf s \<Longrightarrow> service_wf s'"
  by (induction rule: rtranclp_induct) (auto intro: service_step_wf)


subsection \<open>A sample run\<close>

definition sample_turn :: turn where
  "sample_turn = \<lparr>tu_id = 6, tu_session_id = 2, tu_sequence = 1, tu_status = ''queued'',
     tu_started_at = 10, tu_completed_at = None, tu_error = None\<rparr>"

definition sample_sending :: sending where
  "sample_sending = \<lparr>sg_request = 1, sg_session = 2, sg_turn = sample_turn, sg_cwd = ''.'', sg_prompt = ''hi''\<rparr>"

lemma sample_prompt_clean: "scan_is_clean (scan_prompt sample_externals ''hi'')"
  by code_simp

definition sample_sent :: core where
  "sample_sent = (registry_upsert 2 ''.'' DEFAULT_PROVIDER_ID (sample_core ''running''))
     \<lparr>core_db := (core_db (sample_core ''running''))\<lparr>turns := [sample_turn]\<rparr>\<rparr>"

lemma sample_send:
  "send_turn sample_externals no_session_faults 10 6 1
     (JObj [(''sessionId'', JStr ''uu''), (''prompt'', JStr ''hi'')]) (sample_core ''running'')
   = (Inl sample_sending, sample_sent)"
  by (simp add: send_turn_def session_id_param_def parse_uuid_def sample_uuid_parse load_session_def
      sample_session sample_prompt_clean registry_active_turn_def registry_cwd_def registry_provider_id_def
      create_turn_row_def turns_create_def turns_next_sequence_def new_turn_new_def sample_sent_def
      sample_sending_def sample_turn_def sample_core_def sessions_get_def empty_db_def registry_upsert_def
      Let_def)

definition sample_launched :: core where
  "sample_launched = snd (snd (launch_turn sample_externals no_session_faults 11 None (\<lambda>r. Inr ())
     sample_sending sample_sent))"

lemma sample_launch:
  "launch_turn sample_externals no_session_faults 11 None (\<lambda>r. Inr ()) sample_sending sample_sent
   = (RespOk 1 (turn_json sample_externals sample_turn), Some 6, sample_launched)"
  by (simp add: sample_launched_def launch_turn_def Let_def transition_turn_internal_def
      turn_machine_transition_def turn_machine_from_state_def persist_turn_status_def
      sample_sending_def sample_turn_def)

definition sample_handle :: "process \<Rightarrow> watch_phase \<Rightarrow> uuid \<Rightarrow> handle option" where
  "sample_handle p w = (\<lambda>t. None)(6 \<mapsto> \<lparr>hd_process = p, hd_phase = w, hd_session = 2\<rparr>)"

definition sample_service :: "core \<Rightarrow> process \<Rightarrow> watch_phase \<Rightarrow> service" where
  "sample_service c p w = \<lparr>sv_core = c, sv_sending = [], sv_waiting = [], sv_handles = sample_handle p w\<rparr>"


abbreviation sample_step :: "service \<Rightarrow> service \<Rightarrow> bool" where
  "sample_step \<equiv> service_step sample_externals no_session_faults"

lemma sample_launched_reached:
  "sample_step\<^sup>*\<^sup>* (service_start (sample_core ''running'')) (sample_service sample_launched Alive Spawned)"
proof -
  have st1: "sample_step (service_start (sample_core ''running''))
      (service_start (sample_core ''running'')\<lparr>sv_core := sample_sent, sv_sending := [sample_sending]\<rparr>)"
    using service_step.send [of sample_externals no_session_faults 10 6 1
        "JObj [(''sessionId'', JStr ''uu''), (''prompt'', JStr ''hi'')]"
        "service_start (sample_core ''running'')" sample_sending sample_sent] sample_send
    by (simp add: service_start_def)
  have st2: "sample_step
      (service_start (sample_core ''running'')\<lparr>sv_core := sample_sent, sv_sending := [sample_sending]\<rparr>)
      (sample_service sample_launched Alive Spawned)"
    using service_step.launch [of sample_sending
        "service_start (sample_core ''running'')\<lparr>sv_core := sample_sent, sv_sending := [sample_sending]\<rparr>"
        sample_externals no_session_faults 11 None "\<lambda>r. Inr ()", simplified, OF sample_launch]
    by (simp add: service_start_def sample_service_def sample_handle_def sample_sending_def)
  show ?thesis
    by (rule rtranclp.rtrancl_into_rtrancl [where r = sample_step, OF r_into_rtranclp [where r = sample_step, OF st1] st2])
qed

lemma sample_watching_reached:
  "sample_step\<^sup>*\<^sup>* (service_start (sample_core ''running'')) (sample_service sample_launched Alive Watching)"
proof -
  have "sample_step (sample_service sample_launched Alive Spawned) (sample_service sample_launched Alive Watching)"
    using service_step.lock [of "sample_service sample_launched Alive Spawned" 6 _ sample_externals no_session_faults]
    by (simp add: sample_service_def sample_handle_def)
  with sample_launched_reached show ?thesis by (rule rtranclp.rtrancl_into_rtrancl)
qed


lemma sample_no_active: "registry_active_turn sid (sample_core status) = None"
  by (simp add: registry_active_turn_def sample_core_def)


subsection \<open>Cancelling does not interrupt\<close>

definition blocked :: "uuid \<Rightarrow> waiting \<Rightarrow> service \<Rightarrow> bool" where
  "blocked t w s \<longleftrightarrow> w \<in> set (sv_waiting s) \<and>
     (\<exists>h. sv_handles s t = Some h \<and> hd_process h = Alive \<and> hd_phase h = Watching)"

definition process_exited :: "uuid \<Rightarrow> service \<Rightarrow> bool" where
  "process_exited t s \<longleftrightarrow> (\<exists>h code. sv_handles s t = Some h \<and> hd_process h = Exited code)"

lemma blocked_step:
  assumes "service_step x no_session_faults s s'" and "service_wf s" and "waiting_turn w = t"
    and "blocked t w s \<or> process_exited t s"
  shows "blocked t w s' \<or> process_exited t s'"
  using assms
proof (induction rule: service_step.induct)
  case (launch sg s now cp spawn r u c')
  then have "u = sending_turn sg" "sv_handles s (sending_turn sg) = None"
    using launch_turn_facts by (fastforce, simp add: wf_defs)
  with launch.prems show ?case by (auto simp: blocked_def process_exited_def)
next
  case (exit s u h code)
  then show ?case by (auto simp: blocked_def process_exited_def)
next
  case (resume_waiting v s h code now r c')
  have k: "killed code (Exited e) = Exited e" for e by simp
  show ?case
  proof (cases "waiting_turn v = t")
    case True
    with resume_waiting have "process_exited t s" by (auto simp: blocked_def)
    with True k show ?thesis using resume_waiting(2) by (auto simp: process_exited_def)
  next
    case False
    then have "v \<noteq> w" using resume_waiting.prems(2) by auto
    with False resume_waiting.prems show ?thesis
      by (auto simp: blocked_def process_exited_def in_set_remove1)
  qed
qed (auto simp: blocked_def process_exited_def)

text \<open>C7: cancelling or pausing cannot stop a provider that is at work. Once the watcher of a turn
  holds the lock of the process, a request to cancel or to pause that waits for this turn keeps
  waiting in every later state in which the process is still alive; only the process's own exit
  lets it go on.\<close>

theorem cancel_waits_for_exit:
  assumes "(service_step x no_session_faults)\<^sup>*\<^sup>* s s'" and "service_wf s"
    and "w \<in> set (sv_waiting s)"
    and "sv_handles s (waiting_turn w) = Some h" and "hd_process h = Alive" and "hd_phase h = Watching"
    and "sv_handles s' (waiting_turn w) = Some h'" and "hd_process h' = Alive"
  shows "w \<in> set (sv_waiting s') \<and> hd_phase h' = Watching"
proof -
  have "blocked (waiting_turn w) w s' \<or> process_exited (waiting_turn w) s'"
    using assms(1)
  proof (induction rule: rtranclp_induct)
    case base
    then show ?case using assms(3-6) by (simp add: blocked_def)
  next
    case (step y z)
    then show ?case using blocked_step [OF step(2)] service_steps_wf [OF step(1) assms(2)] by blast
  qed
  with assms(7,8) show ?thesis by (auto simp: blocked_def process_exited_def)
qed

definition sample_cancelling :: service where
  "sample_cancelling = (sample_service sample_launched Alive Watching)
     \<lparr>sv_waiting := [WaitCancelTurn 4 (Some 6) 2 6]\<rparr>"

theorem cancel_waits_for_exit_witness:
  "WaitCancelTurn 4 (Some 6) 2 6
     \<in> set (sv_waiting (sample_cancelling\<lparr>sv_core := stream_line sample_externals ''p'' 2 6 ''{}'' sample_launched\<rparr>))"
proof -
  have wf: "service_wf (sample_service sample_launched Alive Watching)"
    using service_steps_wf [OF sample_watching_reached service_start_wf [OF sample_no_active]] .
  then have "turn_status 6 sample_launched \<noteq> None"
    by (simp add: wf_defs sample_service_def sample_handle_def)
  with wf have "service_wf sample_cancelling"
    by (simp add: wf_defs sample_cancelling_def sample_service_def sample_handle_def)
  moreover have "sample_step sample_cancelling
      (sample_cancelling\<lparr>sv_core := stream_line sample_externals ''p'' 2 6 ''{}'' sample_launched\<rparr>)"
    by (rule service_step.request)
      (simp add: atomic_request.stream sample_cancelling_def sample_service_def)
  ultimately show ?thesis
    using cancel_waits_for_exit [of sample_externals sample_cancelling _ "WaitCancelTurn 4 (Some 6) 2 6"
        "\<lparr>hd_process = Alive, hd_phase = Watching, hd_session = 2\<rparr>"
        "\<lparr>hd_process = Alive, hd_phase = Watching, hd_session = 2\<rparr>", OF r_into_rtranclp]
    by (simp add: sample_cancelling_def sample_service_def sample_handle_def)
qed

text \<open>C8: a cancelled turn does not stay cancelled. If a cancel request gets through before the
  watcher has stored the outcome, the turn is recorded as cancelled and then overwritten by the
  watcher: the final status is failed, or completed when the process ended well, although
  Cancelled is a terminal state of the turn machine.\<close>

theorem watcher_overwrites_cancelled:
  assumes "turn_status t c = Some ''running''"
    and "continue_waiting x no_session_faults now (WaitCancelTurn i (Some t) sid t) c = (r, c1)"
  shows "turn_status t c1 = Some ''cancelled'' \<and>
    turn_status t (watcher_finish x no_session_faults later sid t code c1)
      = Some (if code = Some 0 then ''completed'' else ''failed'')"
proof -
  let ?c = "set_active_turn sid None c"
  have "\<not> turn_is_terminal (current_turn_state t ?c)"
    using assms(1) by (simp add: current_turn_state_def parse_turn_state_def)
  then have "turn_status t c1 = Some ''cancelled''"
    using finish_cancel_turn_status [of t x now i sid t ?c] assms by simp
  then show ?thesis by (simp add: watcher_finish_status)
qed

theorem watcher_overwrites_cancelled_witness:
  "turn_status 6 (watcher_finish sample_externals no_session_faults 30 2 6 None
     (snd (continue_waiting sample_externals no_session_faults 20 (WaitCancelTurn 4 (Some 6) 2 6) sample_launched)))
   = Some ''failed''"
proof -
  have "turn_status 6 sample_launched = Some ''running''"
    by (simp add: sample_launched_def launch_turn_def Let_def transition_turn_internal_def
        turn_machine_transition_def turn_machine_from_state_def persist_turn_status_def
        sample_sending_def sample_turn_def sample_sent_def turn_status_def turns_get_def
        turns_set_status_def)
  from watcher_overwrites_cancelled [OF this prod.collapse [symmetric], of sample_externals 20 4 2 30 None]
  show ?thesis by simp
qed

end
