(* ===== verification/EventBus.thy ===== *)
theory EventBus
  imports CoreErrors
begin

text \<open>
  \<open>crates/retcon-core/src/event.rs\<close>: the event bus. An event gets the next sequence number
  and enters a bounded log; a durable event also goes through a queue to the writer, which
  inserts it into \<open>agent_events\<close> under its sequence number. Emitting is one step, the
  writer's work another. The channel to the writer and the mutex never fail, so \<open>emit\<close>
  succeeds; whether a payload can be encoded is a law of \<open>serde_json\<close> (a \<open>Value\<close>
  always can).
\<close>

subsection \<open>Events\<close>

datatype event_category =
    EvCatSession | EvCatTerminal | EvCatGit | EvCatFile | EvCatBrowser | EvCatApproval | EvCatTask
  | EvCatAgent | EvCatJob | EvCatSystem

fun event_category_str :: "event_category \<Rightarrow> string" where
  "event_category_str EvCatSession = ''session''"
| "event_category_str EvCatTerminal = ''terminal''"
| "event_category_str EvCatGit = ''git''"
| "event_category_str EvCatFile = ''file''"
| "event_category_str EvCatBrowser = ''browser''"
| "event_category_str EvCatApproval = ''approval''"
| "event_category_str EvCatTask = ''task''"
| "event_category_str EvCatAgent = ''agent''"
| "event_category_str EvCatJob = ''job''"
| "event_category_str EvCatSystem = ''system''"

definition category_for :: "string \<Rightarrow> event_category" where
  "category_for kind =
     (let k = hd (split_on (CHR ''.'') kind) in
      if k = ''session'' then EvCatSession
      else if k = ''terminal'' then EvCatTerminal
      else if k = ''git'' then EvCatGit
      else if k = ''file'' then EvCatFile
      else if k = ''browser'' then EvCatBrowser
      else if k = ''approval'' then EvCatApproval
      else if k = ''task'' then EvCatTask
      else if k = ''agent'' then EvCatAgent
      else if k = ''job'' then EvCatJob
      else EvCatSystem)"

record event_envelope =
  ev_id :: uuid
  ev_sequence :: nat
  ev_timestamp :: millis
  ev_category :: event_category
  ev_kind :: string
  ev_payload :: json

text \<open>A row of \<open>agent_events\<close>; \<open>id\<close> is the sequence number. Older rows have no event id.\<close>

record event_row =
  er_id :: nat
  er_event_id :: "uuid option"
  er_category :: string
  er_kind :: string
  er_payload :: json
  er_created_at :: millis

record event_bus =
  eb_events :: "event_envelope list"
  eb_next_sequence :: nat
  eb_queue :: "event_envelope list"
  eb_inserts_since_prune :: nat
  eb_sent :: "event_envelope list"
  eb_rows :: "event_row list"

definition DEFAULT_MAX_EVENTS :: nat where "DEFAULT_MAX_EVENTS = 10000"
definition DEFAULT_MAX_AGE_MS :: int where "DEFAULT_MAX_AGE_MS = 7 * 24 * 60 * 60 * 1000"
definition PRUNE_EVERY_N_INSERTS :: nat where "PRUNE_EVERY_N_INSERTS = 100"

subsection \<open>The table\<close>

text \<open>\<open>SELECT id .. ORDER BY id DESC LIMIT n\<close>, newest first.\<close>

definition newest_rows :: "nat \<Rightarrow> event_row list \<Rightarrow> event_row list" where
  "newest_rows n rows = take n (rev (sort_key er_id rows))"

definition prune_rows :: "millis \<Rightarrow> event_row list \<Rightarrow> event_row list" where
  "prune_rows now rows =
     (let cutoff = now - DEFAULT_MAX_AGE_MS;
          keep = map er_id (newest_rows DEFAULT_MAX_EVENTS rows)
      in delete_rows (\<lambda>r. er_created_at r < cutoff \<or> er_id r \<notin> set keep) rows)"

definition row_event :: "event_row \<Rightarrow> event_envelope option" where
  "row_event r =
     map_option (\<lambda>i. \<lparr>ev_id = i, ev_sequence = er_id r, ev_timestamp = er_created_at r,
                     ev_category = category_for (er_kind r), ev_kind = er_kind r,
                     ev_payload = er_payload r\<rparr>) (er_event_id r)"

definition load_recent_events :: "event_row list \<Rightarrow> event_envelope list" where
  "load_recent_events rows =
     rev (List.map_filter row_event
       (newest_rows DEFAULT_MAX_EVENTS (filter (\<lambda>r. er_event_id r \<noteq> None) rows)))"

definition next_event_id :: "event_row list \<Rightarrow> nat" where
  "next_event_id rows = (case map er_id rows of [] \<Rightarrow> 0 | n # ns \<Rightarrow> foldl max n ns) + 1"

definition open_bus :: "millis \<Rightarrow> event_row list \<Rightarrow> event_bus" where
  "open_bus now rows =
     (let rows' = prune_rows now rows
      in \<lparr>eb_events = load_recent_events rows', eb_next_sequence = next_event_id rows',
          eb_queue = [], eb_inserts_since_prune = 0, eb_sent = [], eb_rows = rows'\<rparr>)"

subsection \<open>Emitting\<close>

text \<open>\<open>while len > DEFAULT_MAX_EVENTS { pop_front }\<close>.\<close>

definition bounded_log :: "event_envelope list \<Rightarrow> event_envelope list" where
  "bounded_log es = drop (length es - DEFAULT_MAX_EVENTS) es"

definition emit_internal ::
    "millis \<Rightarrow> uuid \<Rightarrow> string \<Rightarrow> json \<Rightarrow> bool \<Rightarrow> event_bus \<Rightarrow> event_envelope \<times> event_bus" where
  "emit_internal now fresh kind payload durable b =
     (let e = \<lparr>ev_id = fresh, ev_sequence = eb_next_sequence b, ev_timestamp = now,
               ev_category = category_for kind, ev_kind = kind, ev_payload = payload\<rparr>;
          b1 = b\<lparr>eb_next_sequence := u64_saturating_add (eb_next_sequence b) 1,
                 eb_events := bounded_log (eb_events b @ [e])\<rparr>;
          count = u64_saturating_add (eb_inserts_since_prune b) 1;
          b2 = (if durable
                then if count mod PRUNE_EVERY_N_INSERTS = 0
                     then b1\<lparr>eb_queue := eb_queue b1 @ [e], eb_rows := prune_rows now (eb_rows b1),
                             eb_inserts_since_prune := 0\<rparr>
                     else b1\<lparr>eb_queue := eb_queue b1 @ [e], eb_inserts_since_prune := count\<rparr>
                else b1)
      in (e, b2\<lparr>eb_sent := eb_sent b2 @ [e]\<rparr>))"

definition emit_event :: "millis \<Rightarrow> uuid \<Rightarrow> string \<Rightarrow> json \<Rightarrow> event_bus \<Rightarrow> event_envelope \<times> event_bus" where
  "emit_event now fresh kind payload b = emit_internal now fresh kind payload True b"

definition emit_volatile :: "millis \<Rightarrow> uuid \<Rightarrow> string \<Rightarrow> json \<Rightarrow> event_bus \<Rightarrow> event_envelope \<times> event_bus" where
  "emit_volatile now fresh kind payload b = emit_internal now fresh kind payload False b"

text \<open>
  One round of \<open>event_writer_loop\<close>. An id that is taken violates the primary key: the
  error is logged and the event is lost.
\<close>

definition event_writer_step :: "event_bus \<Rightarrow> event_bus" where
  "event_writer_step b =
     (case eb_queue b of
        [] \<Rightarrow> b
      | e # es \<Rightarrow>
          if \<exists>r \<in> set (eb_rows b). er_id r = ev_sequence e then b\<lparr>eb_queue := es\<rparr>
          else b\<lparr>eb_queue := es, eb_rows := eb_rows b @
            [\<lparr>er_id = ev_sequence e, er_event_id = Some (ev_id e),
              er_category = event_category_str (ev_category e), er_kind = ev_kind e,
              er_payload = ev_payload e, er_created_at = ev_timestamp e\<rparr>]\<rparr>)"

subsection \<open>Reading\<close>

text \<open>The binary search of \<open>partition_after\<close>.\<close>

function partition_search :: "event_envelope list \<Rightarrow> nat \<Rightarrow> nat \<Rightarrow> nat \<Rightarrow> nat" where
  "partition_search es after low high =
     (if low < high
      then let mid = low + (high - low) div 2
           in if ev_sequence (es ! mid) \<le> after then partition_search es after (mid + 1) high
              else partition_search es after low mid
      else low)"
  by pat_completeness auto
termination
  by (relation "measure (\<lambda>(es, after, low, high). high - low)") auto

declare partition_search.simps [simp del]

definition partition_after :: "event_envelope list \<Rightarrow> nat \<Rightarrow> nat" where
  "partition_after es after = (if es = [] then 0 else partition_search es after 0 (length es))"

definition replay :: "event_bus \<Rightarrow> nat \<Rightarrow> nat \<Rightarrow> event_envelope list" where
  "replay b after limit =
     take (min limit 1000) (drop (partition_after (eb_events b) after) (eb_events b))"

definition latest_sequence :: "event_bus \<Rightarrow> nat" where
  "latest_sequence b = eb_next_sequence b - 1"

subsection \<open>Facts\<close>

lemma partition_search_bounds:
  "low \<le> high \<Longrightarrow> low \<le> partition_search es after low high \<and> partition_search es after low high \<le> high"
proof (induction es after low high rule: partition_search.induct)
  case (1 es after low high)
  show ?case
  proof (cases "low < high")
    case True
    let ?mid = "low + (high - low) div 2"
    have m: "low \<le> ?mid" "?mid < high" using True by auto
    show ?thesis
    proof (cases "ev_sequence (es ! ?mid) \<le> after")
      case le: True
      have "?mid + 1 \<le> partition_search es after (?mid + 1) high
          \<and> partition_search es after (?mid + 1) high \<le> high"
        using "1.IH"(1) [OF True refl le] m by simp
      then show ?thesis
        using True le m by (subst (1 2) partition_search.simps) (simp add: Let_def)
    next
      case gt: False
      have "low \<le> partition_search es after low ?mid \<and> partition_search es after low ?mid \<le> ?mid"
        using "1.IH"(2) [OF True refl gt] m by simp
      then show ?thesis
        using True gt m by (subst (1 2) partition_search.simps) (simp add: Let_def)
    qed
  next
    case False
    with 1 show ?thesis by (subst (1 2) partition_search.simps) simp
  qed
qed

lemma partition_search_spec:
  assumes "sorted (map ev_sequence es)" and "low \<le> high" and "high \<le> length es"
    and "\<And>i. i < low \<Longrightarrow> ev_sequence (es ! i) \<le> after"
    and "\<And>i. high \<le> i \<Longrightarrow> i < length es \<Longrightarrow> after < ev_sequence (es ! i)"
  shows "(\<forall>i < partition_search es after low high. ev_sequence (es ! i) \<le> after) \<and>
    (\<forall>i. partition_search es after low high \<le> i \<longrightarrow> i < length es \<longrightarrow> after < ev_sequence (es ! i))"
  using assms
proof (induction es after low high rule: partition_search.induct)
  case (1 es after low high)
  have mono: "ev_sequence (es ! i) \<le> ev_sequence (es ! j)" if "i \<le> j" "j < length es" for i j
    using sorted_nth_mono [OF "1.prems"(1), of i j] that by simp
  show ?case
  proof (cases "low < high")
    case True
    let ?mid = "low + (high - low) div 2"
    have m: "low \<le> ?mid" "?mid < high" "?mid < length es" using True "1.prems"(3) by auto
    show ?thesis
    proof (cases "ev_sequence (es ! ?mid) \<le> after")
      case le: True
      have "ev_sequence (es ! i) \<le> after" if "i < ?mid + 1" for i
        using mono [of i ?mid] that le m(3) by simp
      from "1.IH"(1) [OF True refl le "1.prems"(1) _ "1.prems"(3) this "1.prems"(5)] show ?thesis
        using m True le by (subst (1 2) partition_search.simps) (simp add: Let_def)
    next
      case gt: False
      have "after < ev_sequence (es ! i)" if "?mid \<le> i" "i < length es" for i
        using mono [OF that] gt by simp
      from "1.IH"(2) [OF True refl gt "1.prems"(1) _ _ "1.prems"(4) this] show ?thesis
        using m True gt by (subst (1 2) partition_search.simps) (simp add: Let_def)
    qed
  next
    case False
    with "1.prems"(2) have "low = high" by simp
    with "1.prems"(4,5) show ?thesis by (subst (1 2) partition_search.simps) auto
  qed
qed

lemma partition_after_filter:
  assumes "sorted (map ev_sequence es)"
  shows "drop (partition_after es after) es = filter (\<lambda>e. after < ev_sequence e) es"
proof (cases "es = []")
  case False
  let ?p = "partition_search es after 0 (length es)"
  have spec: "(\<forall>i < ?p. ev_sequence (es ! i) \<le> after) \<and>
      (\<forall>i. ?p \<le> i \<longrightarrow> i < length es \<longrightarrow> after < ev_sequence (es ! i))"
    by (rule partition_search_spec [OF assms]) simp_all
  have "filter (\<lambda>e. after < ev_sequence e) (take ?p es) = []"
    using spec by (auto simp: filter_empty_conv in_set_conv_nth not_less)
  moreover have "filter (\<lambda>e. after < ev_sequence e) (drop ?p es) = drop ?p es"
    using spec by (auto simp: filter_id_conv in_set_conv_nth)
  ultimately have "filter (\<lambda>e. after < ev_sequence e) (take ?p es @ drop ?p es) = drop ?p es"
    by (simp only: filter_append append_Nil)
  then show ?thesis using False by (simp add: partition_after_def)
qed (simp add: partition_after_def)

datatype bus_op = Emit millis uuid string json bool | WriterRound

fun bus_step :: "bus_op \<Rightarrow> event_bus \<Rightarrow> event_bus" where
  "bus_step (Emit now fresh kind payload durable) b = snd (emit_internal now fresh kind payload durable b)"
| "bus_step WriterRound b = event_writer_step b"

fun emits :: "bus_op \<Rightarrow> nat" where
  "emits (Emit now fresh kind payload durable) = 1"
| "emits WriterRound = 0"

text \<open>What a run keeps: the log is the recent part of what was loaded and sent.\<close>

definition bus_inv :: "event_envelope list \<Rightarrow> nat \<Rightarrow> event_bus \<Rightarrow> bool" where
  "bus_inv loaded n b \<longleftrightarrow>
     eb_events b = bounded_log (loaded @ eb_sent b) \<and>
     map ev_sequence (eb_sent b) = [n ..< eb_next_sequence b] \<and>
     eb_next_sequence b = n + length (eb_sent b)"

lemma bounded_log_append: "bounded_log (bounded_log es @ [e]) = bounded_log (es @ [e])"
proof -
  have "length es - (length es - 10000 + 9999) + (length es - 10000) = length es - 9999" by arith
  then show ?thesis by (simp add: bounded_log_def DEFAULT_MAX_EVENTS_def)
qed

lemma bounded_log_short: "length es \<le> DEFAULT_MAX_EVENTS \<Longrightarrow> bounded_log es = es"
  by (simp add: bounded_log_def)

lemma length_load_recent: "length (load_recent_events rows) \<le> DEFAULT_MAX_EVENTS"
proof -
  have "length (List.map_filter row_event rs) \<le> length rs" for rs
    by (simp add: List.map_filter_def)
  then have "length (load_recent_events rows)
      \<le> length (newest_rows DEFAULT_MAX_EVENTS (filter (\<lambda>r. er_event_id r \<noteq> None) rows))"
    by (simp add: load_recent_events_def)
  also have "\<dots> \<le> DEFAULT_MAX_EVENTS" by (simp add: newest_rows_def)
  finally show ?thesis .
qed

lemma bus_step_inv:
  assumes "bus_inv loaded n b" and "eb_next_sequence b + emits op \<le> u64_max"
  shows "bus_inv loaded n (bus_step op b) \<and>
    eb_next_sequence (bus_step op b) = eb_next_sequence b + emits op"
proof (cases op)
  case (Emit now fresh kind payload durable)
  with assms show ?thesis
    by (auto simp: bus_inv_def emit_internal_def Let_def u64_saturating_add_def min_def
        bounded_log_append simp flip: append_assoc)
next
  case WriterRound
  with assms show ?thesis
    by (simp add: bus_inv_def event_writer_step_def split: list.split)
qed

lemma bus_run_inv:
  "bus_inv loaded n b \<Longrightarrow> eb_next_sequence b + sum_list (map emits ops) \<le> u64_max \<Longrightarrow>
   bus_inv loaded n (run bus_step ops b)"
proof (induction ops arbitrary: b)
  case (Cons op ops)
  then show ?case using bus_step_inv [of loaded n b op] by simp
qed simp

lemma max_ids: "r \<in> set rows \<Longrightarrow> er_id r < next_event_id rows"
proof -
  assume "r \<in> set rows"
  then have "er_id r \<in> set (map er_id rows)" by simp
  then show ?thesis
    using foldl_max_upper by (cases "map er_id rows") (auto simp: next_event_id_def less_Suc_eq_le)
qed

lemma map_filter_sequence:
  "map ev_sequence (List.map_filter row_event rs) = map er_id (filter (\<lambda>r. er_event_id r \<noteq> None) rs)"
  by (induction rs) (auto simp: row_event_def List.map_filter_simps)

lemma newest_rows_strict:
  assumes "distinct (map er_id rows)"
  shows "sorted_wrt (>) (map er_id (newest_rows n rows))" and "set (newest_rows n rows) \<subseteq> set rows"
proof -
  have "sorted_wrt (<) (map er_id (sort_key er_id rows))"
    using assms by (simp add: strict_sorted_iff distinct_map)
  then have "sorted_wrt (>) (rev (map er_id (sort_key er_id rows)))"
    by (simp add: sorted_wrt_rev)
  then show "sorted_wrt (>) (map er_id (newest_rows n rows))"
    by (simp add: newest_rows_def rev_map sorted_wrt_take flip: take_map)
  show "set (newest_rows n rows) \<subseteq> set rows"
    using set_take_subset by (fastforce simp: newest_rows_def)
qed

lemma load_recent_sorted:
  assumes "distinct (map er_id rows)"
  shows "sorted_wrt (<) (map ev_sequence (load_recent_events rows))"
    and "e \<in> set (load_recent_events rows) \<Longrightarrow> ev_sequence e < next_event_id rows"
proof -
  let ?rs = "newest_rows DEFAULT_MAX_EVENTS (filter (\<lambda>r. er_event_id r \<noteq> None) rows)"
  have d: "distinct (map er_id (filter (\<lambda>r. er_event_id r \<noteq> None) rows))"
    using assms by (rule distinct_map_filter)
  note n = newest_rows_strict [OF d, of DEFAULT_MAX_EVENTS]
  have all: "filter (\<lambda>r. er_event_id r \<noteq> None) ?rs = ?rs"
    using n(2) by (auto simp: filter_id_conv)
  have seq: "map ev_sequence (load_recent_events rows) = rev (map er_id ?rs)"
    by (simp add: load_recent_events_def rev_map map_filter_sequence all [simplified] flip: rev_map)
  show "sorted_wrt (<) (map ev_sequence (load_recent_events rows))"
    using n(1) by (simp add: seq sorted_wrt_rev)
  show "ev_sequence e < next_event_id rows" if "e \<in> set (load_recent_events rows)"
  proof -
    have "ev_sequence e \<in> set (map ev_sequence (load_recent_events rows))" using that by simp
    then obtain r where "r \<in> set ?rs" "er_id r = ev_sequence e" unfolding seq by auto
    then show ?thesis using n(2) max_ids [of r rows] by auto
  qed
qed

lemma prune_rows_distinct: "distinct (map er_id rows) \<Longrightarrow> distinct (map er_id (prune_rows now rows))"
  by (simp add: prune_rows_def Let_def distinct_map_delete_rows)

lemma bounded_log_sorted: "sorted_wrt p (map f es) \<Longrightarrow> sorted_wrt p (map f (bounded_log es))"
  by (simp add: bounded_log_def sorted_wrt_drop flip: drop_map)

text \<open>C9: replay is exact. After opening the bus and any sequence of emissions and writer rounds,
  sequence numbers have been given out consecutively, the log holds the last 10,000 of the loaded
  and the sent events in strictly increasing order, and \<open>replay(after, limit)\<close>, a binary
  search, returns precisely the first \<open>min(limit, 1000)\<close> of them whose number is above
  \<open>after\<close>.\<close>

theorem replay_exact:
  assumes "distinct (map er_id rows)"
    and "next_event_id (prune_rows now rows) + sum_list (map emits ops) \<le> u64_max"
    and "b = run bus_step ops (open_bus now rows)"
  shows "replay b after limit = take (min limit 1000) (filter (\<lambda>e. after < ev_sequence e)
      (bounded_log (load_recent_events (prune_rows now rows) @ eb_sent b)))
    \<and> sorted_wrt (<) (map ev_sequence (eb_events b))
    \<and> map ev_sequence (eb_sent b)
        = [next_event_id (prune_rows now rows) ..< next_event_id (prune_rows now rows) + length (eb_sent b)]"
proof -
  let ?n = "next_event_id (prune_rows now rows)" and ?l = "load_recent_events (prune_rows now rows)"
  note d = prune_rows_distinct [OF assms(1), of now]
  have "bus_inv ?l ?n (open_bus now rows)"
    by (simp add: bus_inv_def open_bus_def Let_def bounded_log_short length_load_recent)
  with assms(2,3) have inv: "bus_inv ?l ?n b"
    using bus_run_inv by (simp add: open_bus_def Let_def)
  then have sent: "map ev_sequence (eb_sent b) = [?n ..< ?n + length (eb_sent b)]"
    by (simp add: bus_inv_def)
  have "ev_sequence e \<in> set [?n ..< ?n + length (eb_sent b)]" if "e \<in> set (eb_sent b)" for e
    using that sent by (metis image_eqI set_map)
  then have "sorted_wrt (<) (map ev_sequence (?l @ eb_sent b))"
    using load_recent_sorted [OF d] sent
    by (auto simp: sorted_wrt_append sorted_wrt_upt) (meson less_le_trans)
  from bounded_log_sorted [OF this] have strict: "sorted_wrt (<) (map ev_sequence (eb_events b))"
    using inv by (simp add: bus_inv_def)
  then have "sorted (map ev_sequence (eb_events b))"
    by (simp add: strict_sorted_iff)
  then have "replay b after limit
      = take (min limit 1000) (filter (\<lambda>e. after < ev_sequence e) (eb_events b))"
    unfolding replay_def by (simp only: partition_after_filter)
  moreover have "eb_events b = bounded_log (?l @ eb_sent b)"
    using inv unfolding bus_inv_def by (rule conjunct1)
  ultimately have "replay b after limit = take (min limit 1000)
      (filter (\<lambda>e. after < ev_sequence e) (bounded_log (?l @ eb_sent b)))"
    by (rule subst [rotated])
  with strict sent show ?thesis by (intro conjI)
qed

theorem replay_exact_witness:
  "map ev_sequence (eb_sent (run bus_step [Emit 5 1 ''job.started'' JNull True, WriterRound] (open_bus 5 [])))
     = [1 ..< 1 + length (eb_sent (run bus_step [Emit 5 1 ''job.started'' JNull True, WriterRound] (open_bus 5 [])))]"
proof -
  have p: "next_event_id (prune_rows 5 []) = 1"
    by (simp add: prune_rows_def delete_rows_def Let_def next_event_id_def)
  have "next_event_id (prune_rows 5 []) + sum_list (map emits [Emit 5 1 ''job.started'' JNull True, WriterRound])
      \<le> u64_max"
    by (simp add: p u64_max_def)
  from replay_exact [OF _ this refl] show ?thesis by (simp only: p list.map distinct.simps simp_thms)
qed

lemma prune_rows_again:
  assumes "distinct (map er_id rows)"
  shows "prune_rows now (prune_rows now rows) = prune_rows now rows"
proof -
  let ?p = "prune_rows now rows"
  have ids: "set (map er_id ?p) \<subseteq> set (map er_id (newest_rows DEFAULT_MAX_EVENTS rows))"
    by (auto simp: prune_rows_def Let_def)
  have "length ?p = card (set (map er_id ?p))"
    using distinct_card [OF prune_rows_distinct [OF assms, of now]] by simp
  also have "\<dots> \<le> card (set (map er_id (newest_rows DEFAULT_MAX_EVENTS rows)))"
    by (rule card_mono [OF finite_set ids])
  also have "\<dots> \<le> length (newest_rows DEFAULT_MAX_EVENTS rows)"
    using card_length [of "map er_id (newest_rows DEFAULT_MAX_EVENTS rows)"] by simp
  also have "\<dots> \<le> DEFAULT_MAX_EVENTS" by (simp add: newest_rows_def)
  finally have "newest_rows DEFAULT_MAX_EVENTS ?p = rev (sort_key er_id ?p)"
    by (simp add: newest_rows_def)
  then have "er_id ` set (newest_rows DEFAULT_MAX_EVENTS ?p) = er_id ` set ?p" by simp
  moreover have "\<not> er_created_at r < now - DEFAULT_MAX_AGE_MS" if "r \<in> set ?p" for r
    using that by (simp add: prune_rows_def Let_def)
  ultimately show ?thesis
    by (subst prune_rows_def) (auto simp: Let_def delete_rows_def filter_id_conv)
qed

text \<open>sequence numbers are not unique across restarts. A volatile event takes a number but
  leaves no row, so after the core restarts the next durable event gets the very same number; a
  client that has seen the volatile one and asks for later events never receives it.\<close>

theorem sequence_reused_after_restart:
  assumes "distinct (map er_id rows)"
    and "emit_volatile now i1 kind1 payload1 (open_bus now rows) = (e1, b1)"
    and "emit_event now i2 kind2 payload2 (open_bus now (eb_rows b1)) = (e2, b2)"
  shows "ev_sequence e2 = ev_sequence e1 \<and> e2 \<notin> set (replay b2 (ev_sequence e1) limit)"
proof -
  let ?n = "next_event_id (prune_rows now rows)"
  have rows: "eb_rows b1 = prune_rows now rows" and e1: "ev_sequence e1 = ?n"
    using assms(2) by (auto simp: emit_volatile_def emit_internal_def Let_def open_bus_def)
  have b2: "b2 = run bus_step [Emit now i2 kind2 payload2 True] (open_bus now (prune_rows now rows))"
    and e2: "ev_sequence e2 = ?n"
    using assms(3) prune_rows_again [OF assms(1)]
    by (auto simp: emit_event_def rows emit_internal_def open_bus_def Let_def)
  have log: "eb_events b2 = bounded_log (load_recent_events (prune_rows now rows) @ [e2])"
    using assms(3) prune_rows_again [OF assms(1)]
    by (auto simp: emit_event_def rows emit_internal_def open_bus_def Let_def)
  note l = load_recent_sorted [OF prune_rows_distinct [OF assms(1), of now]]
  have "sorted_wrt (<) (map ev_sequence (load_recent_events (prune_rows now rows) @ [e2]))"
    using l e2 by (auto simp: sorted_wrt_append)
  from bounded_log_sorted [OF this] have "sorted (map ev_sequence (eb_events b2))"
    by (simp add: log strict_sorted_iff)
  from partition_after_filter [OF this] have "e2 \<notin> set (replay b2 ?n limit)"
    using e2 set_take_subset by (fastforce simp: replay_def)
  with e1 e2 show ?thesis by simp
qed

theorem sequence_reused_after_restart_witness:
  "ev_sequence (fst (emit_event 5 2 ''job.done'' JNull
      (open_bus 5 (eb_rows (snd (emit_volatile 5 1 ''heartbeat'' JNull (open_bus 5 [])))))))
   = ev_sequence (fst (emit_volatile 5 1 ''heartbeat'' JNull (open_bus 5 [])))"
  using sequence_reused_after_restart [of "[]" 5 1 "''heartbeat''" JNull _ _ 2 "''job.done''" JNull,
      OF _ prod.collapse [symmetric] prod.collapse [symmetric]] by simp

end
