(* ===== verification/Jobs.thy ===== *)
theory Jobs
  imports CoreErrors
begin

text \<open>
  \<open>crates/retcon-core/src/jobs.rs\<close>: supervised background jobs. The supervisor keeps one
  entry per job; a job's task is the asynchronous block that \<open>spawn\<close> starts, here a small
  machine that moves when its operation ends, times out, is cancelled or panics. Times are
  milliseconds; a clock reading is an argument. The supervisor has a database; a failing insert
  is only logged and is not modelled.
\<close>

subsection \<open>Types\<close>

datatype job_status =
    JobQueued | JobRunning | JobSucceeded | JobFailed | JobCancelled | JobTimedOut | JobStuck

fun job_status_str :: "job_status \<Rightarrow> string" where
  "job_status_str JobQueued = ''queued''"
| "job_status_str JobRunning = ''running''"
| "job_status_str JobSucceeded = ''succeeded''"
| "job_status_str JobFailed = ''failed''"
| "job_status_str JobCancelled = ''cancelled''"
| "job_status_str JobTimedOut = ''timed_out''"
| "job_status_str JobStuck = ''stuck''"

definition job_is_terminal :: "job_status \<Rightarrow> bool" where
  "job_is_terminal s \<longleftrightarrow> s \<in> {JobSucceeded, JobFailed, JobCancelled, JobTimedOut}"

datatype failure_class =
    FailUser | FailProvider | FailProcess | FailTimeout | FailCancelled | FailInternal

fun failure_class_str :: "failure_class \<Rightarrow> string" where
  "failure_class_str FailUser = ''user''"
| "failure_class_str FailProvider = ''provider''"
| "failure_class_str FailProcess = ''process''"
| "failure_class_str FailTimeout = ''timeout''"
| "failure_class_str FailCancelled = ''cancelled''"
| "failure_class_str FailInternal = ''internal''"

record job_snapshot =
  js_id :: uuid
  js_owner :: string
  js_name :: string
  js_status :: job_status
  js_created_at :: millis
  js_started_at :: "millis option"
  js_finished_at :: "millis option"
  js_attempts :: nat
  js_max_attempts :: nat
  js_timeout_ms :: nat
  js_failure_class :: "failure_class option"
  js_failure :: "string option"
  js_child_process_ids :: "nat list"
  js_elapsed_ms :: nat

text \<open>
  The task: not yet polled, in its k-th attempt, or over (returned, dropped or panicked). An
  \<open>abort\<close> drops the task at its next await: a poll in progress goes on until then, so an
  aborted task may still end an attempt. A task that was never polled never starts.
\<close>

datatype task = TaskSpawned | TaskAttempt nat | TaskOver

record job_entry =
  je_snapshot :: job_snapshot
  je_cancel :: bool
  je_task :: task
  je_aborted :: bool
  je_dirty :: bool

record supervisor =
  sp_jobs :: "job_entry list"
  sp_rows :: "job_snapshot list"

abbreviation je_id :: "job_entry \<Rightarrow> uuid" where "je_id e \<equiv> js_id (je_snapshot e)"
abbreviation je_status :: "job_entry \<Rightarrow> job_status" where "je_status e \<equiv> js_status (je_snapshot e)"

definition FINISHED_RETENTION_MS :: int where "FINISHED_RETENTION_MS = 7 * 24 * 60 * 60 * 1000"

fun classify :: "error_code \<Rightarrow> failure_class" where
  "classify CodeShutdown = FailCancelled"
| "classify CodeIo = FailProcess"
| "classify CodeAuthenticationFailed = FailUser"
| "classify CodeInvalidRequest = FailUser"
| "classify CodeNotFound = FailUser"
| "classify _ = FailInternal"

subsection \<open>Persisting\<close>

definition find_job :: "uuid \<Rightarrow> supervisor \<Rightarrow> job_entry option" where
  "find_job i sp = find (\<lambda>e. je_id e = i) (sp_jobs sp)"

definition modify_job :: "uuid \<Rightarrow> (job_entry \<Rightarrow> job_entry) \<Rightarrow> supervisor \<Rightarrow> supervisor" where
  "modify_job i f sp = sp\<lparr>sp_jobs := update_rows (\<lambda>e. je_id e = i) f (sp_jobs sp)\<rparr>"

text \<open>\<open>INSERT .. ON CONFLICT(id) DO UPDATE SET\<close> of the columns that change.\<close>

definition persist_snapshot :: "job_snapshot \<Rightarrow> supervisor \<Rightarrow> supervisor" where
  "persist_snapshot j sp =
     (if \<exists>r \<in> set (sp_rows sp). js_id r = js_id j
      then sp\<lparr>sp_rows := update_rows (\<lambda>r. js_id r = js_id j)
              (\<lambda>r. r\<lparr>js_status := js_status j, js_started_at := js_started_at j,
                    js_finished_at := js_finished_at j, js_attempts := js_attempts j,
                    js_failure_class := js_failure_class j, js_failure := js_failure j,
                    js_child_process_ids := js_child_process_ids j\<rparr>) (sp_rows sp)\<rparr>
      else sp\<lparr>sp_rows := sp_rows sp @ [j]\<rparr>)"

definition flush_persist :: "uuid \<Rightarrow> bool \<Rightarrow> supervisor \<Rightarrow> supervisor" where
  "flush_persist i force sp =
     (case find_job i sp of
        None \<Rightarrow> sp
      | Some e \<Rightarrow>
          if \<not> force \<and> \<not> je_dirty e then sp
          else if \<not> force \<and> \<not> job_is_terminal (je_status e) then sp
          else persist_snapshot (je_snapshot e) (modify_job i (\<lambda>e. e\<lparr>je_dirty := False\<rparr>) sp))"

definition update_job :: "uuid \<Rightarrow> (job_snapshot \<Rightarrow> job_snapshot) \<Rightarrow> supervisor \<Rightarrow> supervisor" where
  "update_job i f sp =
     flush_persist i False
       (modify_job i (\<lambda>e. e\<lparr>je_snapshot := f (je_snapshot e), je_dirty := True\<rparr>) sp)"

definition evict_finished_from_memory :: "millis \<Rightarrow> supervisor \<Rightarrow> supervisor" where
  "evict_finished_from_memory now sp =
     (let cutoff = now - FINISHED_RETENTION_MS
      in sp\<lparr>sp_jobs := filter (\<lambda>e. \<not> job_is_terminal (je_status e)
                \<or> (case js_finished_at (je_snapshot e) of None \<Rightarrow> True | Some t \<Rightarrow> cutoff < t))
              (sp_jobs sp)\<rparr>)"

definition evict_stale_records :: "millis \<Rightarrow> supervisor \<Rightarrow> supervisor" where
  "evict_stale_records now sp =
     (let sp1 = evict_finished_from_memory now sp
      in sp1\<lparr>sp_rows := delete_rows (\<lambda>r. case js_finished_at r of None \<Rightarrow> False
                        | Some t \<Rightarrow> t < now - FINISHED_RETENTION_MS) (sp_rows sp1)\<rparr>)"

definition finish_job ::
    "millis \<Rightarrow> uuid \<Rightarrow> job_status \<Rightarrow> failure_class option \<Rightarrow> string option \<Rightarrow> supervisor \<Rightarrow> supervisor"
  where
  "finish_job now i st class failure sp =
     evict_stale_records now (flush_persist i True
       (update_job i (\<lambda>j. j\<lparr>js_status := st, js_failure_class := class, js_failure := failure,
                           js_finished_at := Some now\<rparr>) sp))"

definition with_storage :: "millis \<Rightarrow> job_snapshot list \<Rightarrow> supervisor" where
  "with_storage now rows = evict_stale_records now \<lparr>sp_jobs = [], sp_rows = rows\<rparr>"

subsection \<open>The life of a job\<close>

definition queued_job :: "millis \<Rightarrow> uuid \<Rightarrow> string \<Rightarrow> string \<Rightarrow> nat \<Rightarrow> nat \<Rightarrow> job_snapshot" where
  "queued_job now i owner name timeout max_attempts =
     \<lparr>js_id = i, js_owner = owner, js_name = name, js_status = JobQueued,
      js_created_at = now, js_started_at = None, js_finished_at = None, js_attempts = 0,
      js_max_attempts = max max_attempts 1, js_timeout_ms = min timeout u64_max,
      js_failure_class = None, js_failure = None, js_child_process_ids = [], js_elapsed_ms = 0\<rparr>"

definition spawn_job ::
    "millis \<Rightarrow> uuid \<Rightarrow> string \<Rightarrow> string \<Rightarrow> nat \<Rightarrow> nat \<Rightarrow> supervisor \<Rightarrow> supervisor" where
  "spawn_job now fresh owner name timeout max_attempts sp =
     flush_persist fresh True (sp\<lparr>sp_jobs := filter (\<lambda>e. je_id e \<noteq> fresh) (sp_jobs sp) @
       [\<lparr>je_snapshot = queued_job now fresh owner name timeout max_attempts,
         je_cancel = False, je_task = TaskSpawned, je_aborted = False, je_dirty = True\<rparr>]\<rparr>)"

definition set_task :: "uuid \<Rightarrow> task \<Rightarrow> supervisor \<Rightarrow> supervisor" where
  "set_task i t = modify_job i (\<lambda>e. e\<lparr>je_task := t\<rparr>)"

text \<open>The task's first poll: running, first attempt.\<close>

definition task_begin :: "millis \<Rightarrow> uuid \<Rightarrow> supervisor \<Rightarrow> supervisor" where
  "task_begin now i sp =
     (case find_job i sp of
        Some e \<Rightarrow>
          (if je_task e = TaskSpawned \<and> \<not> je_aborted e
           then set_task i (TaskAttempt 1)
                  (update_job i (\<lambda>j. j\<lparr>js_attempts := 1\<rparr>)
                    (update_job i (\<lambda>j. j\<lparr>js_status := JobRunning, js_started_at := Some now\<rparr>) sp))
           else sp)
      | None \<Rightarrow> sp)"

datatype attempt_end =
    AttemptOk | AttemptError error_code string | AttemptTimeout | AttemptCancelled | AttemptPanic

text \<open>
  One turn of the loop over the attempts. The cancellation arm of \<open>select!\<close> is ready only
  when the flag has been set.
\<close>

definition task_attempt_ends :: "millis \<Rightarrow> uuid \<Rightarrow> attempt_end \<Rightarrow> supervisor \<Rightarrow> supervisor" where
  "task_attempt_ends now i res sp =
     (case find_job i sp of
        None \<Rightarrow> sp
      | Some e \<Rightarrow>
          (case je_task e of
             TaskAttempt k \<Rightarrow>
               (case res of
                  AttemptOk \<Rightarrow> set_task i TaskOver (finish_job now i JobSucceeded None None sp)
                | AttemptTimeout \<Rightarrow> set_task i TaskOver
                    (finish_job now i JobTimedOut (Some FailTimeout)
                      (Some (''exceeded '' @ decimal (js_timeout_ms (je_snapshot e)) @ '' ms'')) sp)
                | AttemptCancelled \<Rightarrow>
                    (if je_cancel e
                     then set_task i TaskOver
                            (finish_job now i JobCancelled (Some FailCancelled) (Some ''cancelled by user'') sp)
                     else sp)
                | AttemptPanic \<Rightarrow> set_task i TaskOver sp
                | AttemptError code msg \<Rightarrow>
                    (if k < js_max_attempts (je_snapshot e)
                     then set_task i (TaskAttempt (k + 1)) (update_job i (\<lambda>j. j\<lparr>js_attempts := k + 1\<rparr>) sp)
                     else set_task i TaskOver
                            (finish_job now i JobFailed (Some (classify code)) (Some msg) sp)))
           | _ \<Rightarrow> sp))"

definition task_dropped :: "uuid \<Rightarrow> supervisor \<Rightarrow> supervisor" where
  "task_dropped i = modify_job i (\<lambda>e. if je_aborted e then e\<lparr>je_task := TaskOver\<rparr> else e)"

definition cancel_job :: "uuid \<Rightarrow> supervisor \<Rightarrow> bool \<times> supervisor" where
  "cancel_job i sp = (find_job i sp \<noteq> None, modify_job i (\<lambda>e. e\<lparr>je_cancel := True\<rparr>) sp)"

definition force_stop :: "millis \<Rightarrow> uuid \<Rightarrow> supervisor \<Rightarrow> bool \<times> supervisor" where
  "force_stop now i sp =
     (if find_job i sp = None then (False, sp)
      else (True, finish_job now i JobCancelled (Some FailCancelled) (Some ''force-stopped'')
                    (modify_job i (\<lambda>e. e\<lparr>je_cancel := True, je_aborted := True\<rparr>) sp)))"

definition flush_all :: "uuid list \<Rightarrow> supervisor \<Rightarrow> supervisor" where
  "flush_all ids sp = fold (\<lambda>i. flush_persist i True) ids sp"

definition is_stuck :: "millis \<Rightarrow> int \<Rightarrow> job_entry \<Rightarrow> bool" where
  "is_stuck now threshold e \<longleftrightarrow> je_status e = JobRunning \<and>
     (case js_started_at (je_snapshot e) of None \<Rightarrow> False
      | Some s \<Rightarrow> 0 \<le> now - s \<and> threshold < now - s)"

definition detect_stuck :: "millis \<Rightarrow> int \<Rightarrow> supervisor \<Rightarrow> uuid list \<times> supervisor" where
  "detect_stuck now threshold sp =
     (let ids = map je_id (filter (is_stuck now threshold) (sp_jobs sp));
          sp1 = sp\<lparr>sp_jobs := update_rows (is_stuck now threshold)
                  (\<lambda>e. e\<lparr>je_snapshot := (je_snapshot e)\<lparr>js_status := JobStuck\<rparr>, je_dirty := True\<rparr>)
                  (sp_jobs sp)\<rparr>
      in (ids, flush_all ids sp1))"

definition track_child_process :: "uuid \<Rightarrow> nat \<Rightarrow> supervisor \<Rightarrow> bool \<times> supervisor" where
  "track_child_process i pid sp =
     (find_job i sp \<noteq> None,
      update_job i (\<lambda>j. if pid \<in> set (js_child_process_ids j) then j
                        else j\<lparr>js_child_process_ids := js_child_process_ids j @ [pid]\<rparr>) sp)"

definition unfinished :: "job_status \<Rightarrow> bool" where
  "unfinished s \<longleftrightarrow> s \<in> {JobQueued, JobRunning, JobStuck}"

definition is_orphan :: "job_entry \<Rightarrow> bool" where
  "is_orphan e \<longleftrightarrow> unfinished (je_status e) \<and> je_task e = TaskOver"

definition reconcile_orphans :: "millis \<Rightarrow> supervisor \<Rightarrow> uuid list \<times> supervisor" where
  "reconcile_orphans now sp =
     (let ids = map je_id (filter is_orphan (sp_jobs sp));
          sp1 = sp\<lparr>sp_jobs := update_rows is_orphan
                  (\<lambda>e. e\<lparr>je_snapshot := (je_snapshot e)\<lparr>js_status := JobFailed,
                          js_failure_class := Some FailInternal,
                          js_failure := Some ''supervised task exited without reporting completion'',
                          js_finished_at := Some now\<rparr>, je_dirty := True\<rparr>)
                  (sp_jobs sp)\<rparr>
      in (ids, flush_all ids sp1))"

definition with_elapsed :: "millis \<Rightarrow> job_snapshot \<Rightarrow> job_snapshot" where
  "with_elapsed now j =
     (let end = (case js_finished_at j of Some t \<Rightarrow> t | None \<Rightarrow> now)
      in j\<lparr>js_elapsed_ms := (case js_started_at j of None \<Rightarrow> 0
                              | Some s \<Rightarrow> if s \<le> end then nat (end - s) else 0)\<rparr>)"

definition list_jobs :: "millis \<Rightarrow> nat \<Rightarrow> nat \<Rightarrow> supervisor \<Rightarrow> job_snapshot list \<times> supervisor" where
  "list_jobs now offset limit sp =
     (let sp1 = evict_finished_from_memory now sp;
          jobs = sort_key (\<lambda>j. - js_created_at j) (map (\<lambda>e. with_elapsed now (je_snapshot e)) (sp_jobs sp1))
      in (take (min limit 500) (drop offset jobs), sp1))"

definition get_job :: "millis \<Rightarrow> uuid \<Rightarrow> supervisor \<Rightarrow> job_snapshot option" where
  "get_job now i sp = map_option (\<lambda>e. with_elapsed now (je_snapshot e)) (find_job i sp)"

text \<open>\<open>shutdown\<close>: the ids come from \<open>list(0, usize::MAX)\<close>, which returns at most 500.\<close>

definition shutdown_jobs :: "millis \<Rightarrow> supervisor \<Rightarrow> supervisor" where
  "shutdown_jobs now sp =
     (let (jobs, sp1) = list_jobs now 0 u64_max sp;
          ids = map js_id (filter (\<lambda>j. unfinished (js_status j)) jobs)
      in fold (\<lambda>i s. snd (force_stop now i s)) ids sp1)"

subsection \<open>Operations as one type\<close>

datatype job_op =
    OpSpawn millis uuid string string nat nat
  | OpBegin millis uuid | OpAttempt millis uuid attempt_end | OpDropped uuid
  | OpCancel uuid | OpForceStop millis uuid | OpDetectStuck millis int
  | OpTrackChild uuid nat | OpReconcile millis | OpList millis nat nat | OpShutdown millis

fun job_step :: "job_op \<Rightarrow> supervisor \<Rightarrow> supervisor" where
  "job_step (OpSpawn now fresh owner name t m) sp = spawn_job now fresh owner name t m sp"
| "job_step (OpBegin now i) sp = task_begin now i sp"
| "job_step (OpAttempt now i r) sp = task_attempt_ends now i r sp"
| "job_step (OpDropped i) sp = task_dropped i sp"
| "job_step (OpCancel i) sp = snd (cancel_job i sp)"
| "job_step (OpForceStop now i) sp = snd (force_stop now i sp)"
| "job_step (OpDetectStuck now d) sp = snd (detect_stuck now d sp)"
| "job_step (OpTrackChild i pid) sp = snd (track_child_process i pid sp)"
| "job_step (OpReconcile now) sp = snd (reconcile_orphans now sp)"
| "job_step (OpList now off lim) sp = snd (list_jobs now off lim sp)"
| "job_step (OpShutdown now) sp = shutdown_jobs now sp"

subsection \<open>The invariant of an entry\<close>

definition snapshot_ok :: "job_snapshot \<Rightarrow> bool" where
  "snapshot_ok j \<longleftrightarrow>
     1 \<le> js_max_attempts j \<and> js_attempts j \<le> js_max_attempts j \<and>
     (job_is_terminal (js_status j) \<longleftrightarrow> js_finished_at j \<noteq> None) \<and>
     (js_status j \<in> {JobRunning, JobStuck} \<longrightarrow> js_started_at j \<noteq> None) \<and>
     (js_failure_class j \<noteq> None \<longleftrightarrow> js_status j \<in> {JobFailed, JobCancelled, JobTimedOut}) \<and>
     (js_failure j \<noteq> None \<longleftrightarrow> js_status j \<in> {JobFailed, JobCancelled, JobTimedOut})"

fun task_ok :: "task \<Rightarrow> bool \<Rightarrow> job_snapshot \<Rightarrow> bool" where
  "task_ok TaskSpawned a j = (js_attempts j = 0 \<and> (a \<or> js_status j = JobQueued)
     \<and> job_is_terminal (js_status j) = a)"
| "task_ok (TaskAttempt k) a j = (js_attempts j = k \<and> 1 \<le> k \<and> job_is_terminal (js_status j) = a)"
| "task_ok TaskOver a j = (a \<longrightarrow> job_is_terminal (js_status j))"

definition job_ok :: "job_entry \<Rightarrow> bool" where
  "job_ok e \<longleftrightarrow> snapshot_ok (je_snapshot e) \<and> task_ok (je_task e) (je_aborted e) (je_snapshot e)"

lemma job_is_terminal_simps [simp]:
  "job_is_terminal JobSucceeded" "job_is_terminal JobFailed" "job_is_terminal JobCancelled"
  "job_is_terminal JobTimedOut" "\<not> job_is_terminal JobQueued" "\<not> job_is_terminal JobRunning"
  "\<not> job_is_terminal JobStuck"
  by (simp_all add: job_is_terminal_def)

definition all_jobs :: "(job_entry \<Rightarrow> bool) \<Rightarrow> supervisor \<Rightarrow> bool" where
  "all_jobs q sp \<longleftrightarrow> (\<forall>e \<in> set (sp_jobs sp). q e)"

definition ids_unique :: "supervisor \<Rightarrow> bool" where
  "ids_unique sp \<longleftrightarrow> distinct (map je_id (sp_jobs sp))"

lemma all_jobs_modify [simp]:
  "all_jobs q (modify_job i f sp) = all_jobs (\<lambda>e. q (if je_id e = i then f e else e)) sp"
  by (auto simp: all_jobs_def modify_job_def set_update_rows)

lemma sp_jobs_persist [simp]: "sp_jobs (persist_snapshot j sp) = sp_jobs sp"
  by (simp add: persist_snapshot_def)

lemma all_jobs_mono: "all_jobs q sp \<Longrightarrow> (\<And>e. q e \<Longrightarrow> r e) \<Longrightarrow> all_jobs r sp"
  by (auto simp: all_jobs_def)

lemma all_jobs_flush:
  assumes "all_jobs q sp" and "\<And>e. q e \<Longrightarrow> q (e\<lparr>je_dirty := False\<rparr>)"
  shows "all_jobs q (flush_persist i b sp)"
  using assms
  by (auto simp: flush_persist_def all_jobs_def modify_job_def set_update_rows split: option.split)

lemma all_jobs_evict: "all_jobs q sp \<Longrightarrow> all_jobs q (evict_stale_records now sp)"
  by (auto simp: all_jobs_def evict_stale_records_def evict_finished_from_memory_def Let_def)

lemma ids_unique_modify:
  "(\<And>e. je_id (f e) = je_id e) \<Longrightarrow> ids_unique sp \<Longrightarrow> ids_unique (modify_job i f sp)"
  by (simp add: ids_unique_def modify_job_def map_update_rows_same)

lemma ids_unique_flush: "ids_unique sp \<Longrightarrow> ids_unique (flush_persist i b sp)"
  by (simp add: flush_persist_def ids_unique_def modify_job_def map_update_rows_same split: option.split)

lemma ids_unique_evict_memory: "ids_unique sp \<Longrightarrow> ids_unique (evict_finished_from_memory now sp)"
  by (simp add: ids_unique_def evict_finished_from_memory_def Let_def distinct_map_filter)

lemma ids_unique_evict: "ids_unique sp \<Longrightarrow> ids_unique (evict_stale_records now sp)"
  using ids_unique_evict_memory by (simp add: evict_stale_records_def Let_def ids_unique_def)

lemma ids_unique_update:
  "(\<And>j. js_id (f j) = js_id j) \<Longrightarrow> ids_unique sp \<Longrightarrow> ids_unique (update_job i f sp)"
  unfolding update_job_def by (intro ids_unique_flush ids_unique_modify) simp_all

lemma ids_unique_finish: "ids_unique sp \<Longrightarrow> ids_unique (finish_job now i st c f sp)"
  unfolding finish_job_def by (intro ids_unique_evict ids_unique_flush ids_unique_update) simp_all

lemma ids_unique_set_task: "ids_unique sp \<Longrightarrow> ids_unique (set_task i t sp)"
  unfolding set_task_def by (rule ids_unique_modify) simp_all

lemma ids_unique_flush_all: "ids_unique sp \<Longrightarrow> ids_unique (flush_all ids sp)"
  by (induction ids arbitrary: sp) (simp_all add: flush_all_def ids_unique_flush)

lemmas ids_unique_intros =
  ids_unique_evict ids_unique_flush ids_unique_update ids_unique_finish ids_unique_set_task
  ids_unique_flush_all ids_unique_evict_memory

lemma find_job_unique:
  "find_job i sp = Some e \<Longrightarrow> ids_unique sp \<Longrightarrow> e' \<in> set (sp_jobs sp) \<Longrightarrow> je_id e' = i \<Longrightarrow> e' = e"
  using find_key_unique [of je_id "sp_jobs sp" e' i] by (simp add: find_job_def ids_unique_def)

lemma find_job_Some: "find_job i sp = Some e \<Longrightarrow> e \<in> set (sp_jobs sp) \<and> je_id e = i"
  by (auto simp: find_job_def dest: find_Some_in_set)

lemma job_ok_dirty [simp]: "job_ok (e\<lparr>je_dirty := b\<rparr>) = job_ok e"
  by (simp add: job_ok_def)

lemma job_ok_cancel [simp]: "job_ok (e\<lparr>je_cancel := b\<rparr>) = job_ok e"
  by (simp add: job_ok_def)

text \<open>
  The rules above run an operation backwards: what has to hold of the entries before it. The
  predicates that appear do not look at \<open>je_dirty\<close>.
\<close>

definition undirty :: "(job_entry \<Rightarrow> bool) \<Rightarrow> bool" where
  "undirty q \<longleftrightarrow> (\<forall>e b. q (e\<lparr>je_dirty := b\<rparr>) = q e)"

lemma all_jobs_update:
  assumes "undirty q" and "all_jobs (\<lambda>e. q (if je_id e = i then e\<lparr>je_snapshot := f (je_snapshot e)\<rparr> else e)) sp"
  shows "all_jobs q (update_job i f sp)"
  unfolding update_job_def
  apply (rule all_jobs_flush)
   apply (simp, rule all_jobs_mono [OF assms(2)])
  using assms(1) apply (auto simp: undirty_def split: if_splits)
  done

definition finished :: "millis \<Rightarrow> job_status \<Rightarrow> failure_class option \<Rightarrow> string option
    \<Rightarrow> job_snapshot \<Rightarrow> job_snapshot" where
  "finished now st class failure j =
     j\<lparr>js_status := st, js_failure_class := class, js_failure := failure, js_finished_at := Some now\<rparr>"

lemma all_jobs_finish:
  assumes "undirty q"
    and "all_jobs (\<lambda>e. q (if je_id e = i
           then e\<lparr>je_snapshot := finished now st c f (je_snapshot e)\<rparr> else e)) sp"
  shows "all_jobs q (finish_job now i st c f sp)"
  unfolding finish_job_def
  using assms
  by (intro all_jobs_evict all_jobs_flush all_jobs_update) (auto simp: undirty_def finished_def elim!: all_jobs_mono split: if_splits)

lemma undirty_if [simp]:
  "undirty q \<Longrightarrow> (\<And>e b. f (e\<lparr>je_dirty := b\<rparr>) = (f e)\<lparr>je_dirty := b\<rparr>) \<Longrightarrow>
   undirty (\<lambda>e. q (if je_id e = i then f e else e))"
  by (simp add: undirty_def)

lemma undirty_job_ok [simp]: "undirty job_ok"
  by (simp add: undirty_def)

definition jobs_inv :: "supervisor \<Rightarrow> bool" where
  "jobs_inv sp \<longleftrightarrow> ids_unique sp \<and> all_jobs job_ok sp"

lemma jobs_found:
  assumes "jobs_inv sp" and "find_job i sp = Some e"
  shows "all_jobs (\<lambda>x. job_ok x \<and> (je_id x = i \<longrightarrow> x = e)) sp" and "job_ok e"
  using assms find_job_unique [OF assms(2)] find_job_Some [OF assms(2)]
  by (auto simp: all_jobs_def jobs_inv_def)

lemma finish_then_over:
  assumes inv: "jobs_inv sp" and e: "find_job i sp = Some e"
    and st: "job_is_terminal st"
    and c: "(c \<noteq> None) = (st \<noteq> JobSucceeded)" and f: "(f \<noteq> None) = (st \<noteq> JobSucceeded)"
  shows "jobs_inv (set_task i TaskOver (finish_job now i st c f sp))"
proof -
  have ok: "job_ok (e\<lparr>je_snapshot := finished now st c f (je_snapshot e), je_task := TaskOver\<rparr>)"
    using jobs_found(2) [OF inv e] st c f
    by (cases st) (auto simp: job_ok_def snapshot_ok_def finished_def)
  have "all_jobs job_ok (set_task i TaskOver (finish_job now i st c f sp))"
    unfolding set_task_def all_jobs_modify
    apply (rule all_jobs_finish)
     apply simp
    using ok by (auto intro!: all_jobs_mono [OF jobs_found(1) [OF inv e]] simp: finished_def)
  with inv show ?thesis by (auto simp: jobs_inv_def intro!: ids_unique_intros)
qed

lemma jobs_inv_begin: "jobs_inv sp \<Longrightarrow> jobs_inv (task_begin now i sp)"
proof (cases "\<exists>e. find_job i sp = Some e \<and> je_task e = TaskSpawned \<and> \<not> je_aborted e")
  case True
  assume inv: "jobs_inv sp"
  from True obtain e where e: "find_job i sp = Some e" "je_task e = TaskSpawned" "\<not> je_aborted e"
    by blast
  have "job_ok (e\<lparr>je_snapshot := (je_snapshot e)\<lparr>js_status := JobRunning, js_started_at := Some now,
          js_attempts := 1\<rparr>, je_task := TaskAttempt 1\<rparr>)"
    using jobs_found(2) [OF inv e(1)] e by (auto simp: job_ok_def snapshot_ok_def)
  then have "all_jobs job_ok (set_task i (TaskAttempt 1) (update_job i (\<lambda>j. j\<lparr>js_attempts := 1\<rparr>)
      (update_job i (\<lambda>j. j\<lparr>js_status := JobRunning, js_started_at := Some now\<rparr>) sp)))"
    unfolding set_task_def all_jobs_modify
    apply (intro all_jobs_update)
      apply (auto simp: undirty_def job_ok_def) [2]
    by (auto intro!: all_jobs_mono [OF jobs_found(1) [OF inv e(1)]])
  then have "all_jobs job_ok (task_begin now i sp)"
    by (simp add: task_begin_def e)
  with inv show ?thesis
    by (auto simp: jobs_inv_def task_begin_def split: option.split intro!: ids_unique_intros)
next
  case False
  then show "jobs_inv sp \<Longrightarrow> ?thesis" by (auto simp: task_begin_def split: option.split)
qed

lemma jobs_inv_attempt: "jobs_inv sp \<Longrightarrow> jobs_inv (task_attempt_ends now i r sp)"
proof (cases "\<exists>e k. find_job i sp = Some e \<and> je_task e = TaskAttempt k")
  case True
  assume inv: "jobs_inv sp"
  from True obtain e k where e: "find_job i sp = Some e" and k: "je_task e = TaskAttempt k"
    by blast
  note over = finish_then_over [OF inv e]
  have panic: "jobs_inv (set_task i TaskOver sp)"
  proof -
    have "job_ok (e\<lparr>je_task := TaskOver\<rparr>)"
      using jobs_found(2) [OF inv e] k by (auto simp: job_ok_def)
    then have "all_jobs job_ok (set_task i TaskOver sp)"
      unfolding set_task_def by (auto intro!: all_jobs_mono [OF jobs_found(1) [OF inv e]])
    with inv show ?thesis by (auto simp: jobs_inv_def intro!: ids_unique_intros)
  qed
  have retry: "jobs_inv (set_task i (TaskAttempt (k + 1)) (update_job i (\<lambda>j. j\<lparr>js_attempts := k + 1\<rparr>) sp))"
    if "k < js_max_attempts (je_snapshot e)"
  proof -
    have "job_ok (e\<lparr>je_snapshot := (je_snapshot e)\<lparr>js_attempts := k + 1\<rparr>, je_task := TaskAttempt (k + 1)\<rparr>)"
      using jobs_found(2) [OF inv e] k that by (auto simp: job_ok_def snapshot_ok_def)
    then have "all_jobs job_ok (set_task i (TaskAttempt (k + 1)) (update_job i (\<lambda>j. j\<lparr>js_attempts := k + 1\<rparr>) sp))"
      unfolding set_task_def all_jobs_modify
      by (intro all_jobs_update) (auto intro!: all_jobs_mono [OF jobs_found(1) [OF inv e]])
    with inv show ?thesis by (auto simp: jobs_inv_def intro!: ids_unique_intros)
  qed
  show ?thesis
    using inv retry panic unfolding task_attempt_ends_def e option.case k task.case
    by (cases r) (auto intro!: over)
next
  case False
  then show "jobs_inv sp \<Longrightarrow> ?thesis"
    by (auto simp: task_attempt_ends_def split: option.split task.split)
qed

lemma jobs_inv_flush: "jobs_inv sp \<Longrightarrow> jobs_inv (flush_persist i b sp)"
  by (auto simp: jobs_inv_def intro!: ids_unique_intros all_jobs_flush)

lemma jobs_inv_flush_all: "jobs_inv sp \<Longrightarrow> jobs_inv (flush_all ids sp)"
  by (induction ids arbitrary: sp) (simp_all add: flush_all_def jobs_inv_flush)

lemma jobs_inv_evict: "jobs_inv sp \<Longrightarrow> jobs_inv (evict_stale_records now sp)"
  by (auto simp: jobs_inv_def intro!: ids_unique_intros all_jobs_evict)

lemma jobs_inv_evict_memory: "jobs_inv sp \<Longrightarrow> jobs_inv (evict_finished_from_memory now sp)"
  by (auto simp: jobs_inv_def ids_unique_evict_memory)
    (auto simp: all_jobs_def evict_finished_from_memory_def Let_def)

lemma jobs_inv_spawn: "jobs_inv sp \<Longrightarrow> jobs_inv (spawn_job now i owner name t m sp)"
  unfolding spawn_job_def
  by (rule jobs_inv_flush)
    (auto simp: jobs_inv_def ids_unique_def all_jobs_def distinct_map_filter job_ok_def snapshot_ok_def
      queued_job_def)

lemma jobs_inv_map:
  assumes "jobs_inv sp" and "\<And>e. p e \<Longrightarrow> job_ok e \<Longrightarrow> job_ok (f e)"
    and "\<And>e. p e \<Longrightarrow> je_id (f e) = je_id e"
  shows "jobs_inv (sp\<lparr>sp_jobs := update_rows p f (sp_jobs sp)\<rparr>)"
proof -
  have "map je_id (update_rows p f (sp_jobs sp)) = map je_id (sp_jobs sp)"
    using assms(3) by (simp add: update_rows_def)
  then show ?thesis
    using assms by (auto simp: jobs_inv_def ids_unique_def all_jobs_def set_update_rows)
qed

lemma jobs_inv_modify:
  assumes "jobs_inv sp" and "\<And>e. job_ok e \<Longrightarrow> job_ok (f e)" and "\<And>e. je_id (f e) = je_id e"
  shows "jobs_inv (modify_job i f sp)"
  unfolding modify_job_def using assms by (intro jobs_inv_map) auto

lemma jobs_inv_dropped: "jobs_inv sp \<Longrightarrow> jobs_inv (task_dropped i sp)"
proof -
  have "job_ok (e\<lparr>je_task := TaskOver\<rparr>)" if "job_ok e" "je_aborted e" for e
    using that by (cases "je_task e") (auto simp: job_ok_def)
  then show "jobs_inv sp \<Longrightarrow> ?thesis"
    unfolding task_dropped_def by (intro jobs_inv_modify) auto
qed

lemma jobs_inv_cancel: "jobs_inv sp \<Longrightarrow> jobs_inv (snd (cancel_job i sp))"
  by (auto simp: cancel_job_def intro!: jobs_inv_modify)

lemma jobs_inv_force_stop: "jobs_inv sp \<Longrightarrow> jobs_inv (snd (force_stop now i sp))"
proof -
  assume inv: "jobs_inv sp"
  have ok: "job_ok (e\<lparr>je_cancel := True, je_aborted := True, je_snapshot :=
      finished now JobCancelled (Some FailCancelled) (Some ''force-stopped'') (je_snapshot e)\<rparr>)"
    if "job_ok e" for e
    using that by (cases "je_task e") (auto simp: job_ok_def snapshot_ok_def finished_def)
  have "all_jobs job_ok (snd (force_stop now i sp))"
    using inv ok
    by (auto simp: force_stop_def jobs_inv_def intro!: all_jobs_finish elim!: all_jobs_mono)
  with inv show ?thesis
    by (auto simp: jobs_inv_def force_stop_def intro!: ids_unique_intros ids_unique_modify)
qed

lemma jobs_inv_detect: "jobs_inv sp \<Longrightarrow> jobs_inv (snd (detect_stuck now d sp))"
proof -
  have "job_ok (e\<lparr>je_snapshot := (je_snapshot e)\<lparr>js_status := JobStuck\<rparr>, je_dirty := True\<rparr>)"
    if "is_stuck now d e" "job_ok e" for e
    using that by (cases "je_task e") (auto simp: job_ok_def snapshot_ok_def is_stuck_def)
  then show "jobs_inv sp \<Longrightarrow> ?thesis"
    unfolding detect_stuck_def Let_def snd_conv
    by (intro jobs_inv_flush_all jobs_inv_map) auto
qed

lemma jobs_inv_reconcile: "jobs_inv sp \<Longrightarrow> jobs_inv (snd (reconcile_orphans now sp))"
proof -
  have "job_ok (e\<lparr>je_snapshot := (je_snapshot e)\<lparr>js_status := JobFailed,
          js_failure_class := Some FailInternal,
          js_failure := Some ''supervised task exited without reporting completion'',
          js_finished_at := Some now\<rparr>, je_dirty := True\<rparr>)"
    if "is_orphan e" "job_ok e" for e
    using that by (cases "je_task e") (auto simp: job_ok_def snapshot_ok_def is_orphan_def)
  then show "jobs_inv sp \<Longrightarrow> ?thesis"
    unfolding reconcile_orphans_def Let_def snd_conv
    by (intro jobs_inv_flush_all jobs_inv_map) auto
qed

lemma jobs_inv_track: "jobs_inv sp \<Longrightarrow> jobs_inv (snd (track_child_process i pid sp))"
proof -
  have "job_ok (e\<lparr>je_snapshot := (if pid \<in> set (js_child_process_ids j) then j
      else j\<lparr>js_child_process_ids := js_child_process_ids j @ [pid]\<rparr>), je_dirty := True\<rparr>)"
    if "job_ok e" "j = je_snapshot e" for e j
    using that by (cases "je_task e") (auto simp: job_ok_def snapshot_ok_def)
  then show "jobs_inv sp \<Longrightarrow> ?thesis"
    unfolding track_child_process_def snd_conv update_job_def
    by (intro jobs_inv_flush jobs_inv_modify) auto
qed

lemma jobs_inv_list: "jobs_inv sp \<Longrightarrow> jobs_inv (snd (list_jobs now a b sp))"
  by (simp add: list_jobs_def Let_def jobs_inv_evict_memory)

lemma jobs_inv_shutdown: "jobs_inv sp \<Longrightarrow> jobs_inv (shutdown_jobs now sp)"
proof -
  have "jobs_inv (fold (\<lambda>i s. snd (force_stop now i s)) ids sp)" if "jobs_inv sp" for ids sp
    using that by (induction ids arbitrary: sp) (simp_all add: jobs_inv_force_stop)
  then show "jobs_inv sp \<Longrightarrow> ?thesis"
    using jobs_inv_list by (simp add: shutdown_jobs_def Let_def list_jobs_def)
qed

lemma jobs_inv_step: "jobs_inv sp \<Longrightarrow> jobs_inv (job_step op sp)"
  by (cases op) (simp_all add: jobs_inv_spawn jobs_inv_begin jobs_inv_attempt jobs_inv_dropped
      jobs_inv_cancel jobs_inv_force_stop jobs_inv_detect jobs_inv_track jobs_inv_reconcile
      jobs_inv_list jobs_inv_shutdown)

lemma jobs_inv_start: "jobs_inv (with_storage now rows)"
  by (simp add: with_storage_def evict_stale_records_def evict_finished_from_memory_def Let_def
      jobs_inv_def ids_unique_def all_jobs_def)

text \<open>Whatever sequence of operations the supervisor performs, no job exceeds its attempts,
  every job is consistent (it has a finish time exactly when its status is terminal, a failure
  exactly when it failed, timed out or was cancelled), and a job whose status is terminal has
  no task left that was not told to stop.
\<close>

theorem supervised_jobs_consistent:
  "list_all (\<lambda>e. snapshot_ok (je_snapshot e) \<and> task_ok (je_task e) (je_aborted e) (je_snapshot e))
     (sp_jobs (run job_step ops (with_storage now rows)))"
proof -
  have "jobs_inv (run job_step ops (with_storage now rows))"
    using jobs_inv_step jobs_inv_start by (rule run_invariant)
  then show ?thesis by (auto simp: jobs_inv_def all_jobs_def list_all_iff job_ok_def)
qed

subsection \<open>The rows follow the jobs\<close>

text \<open>The columns that never change after the insert.\<close>

definition same_job :: "job_snapshot \<Rightarrow> job_snapshot \<Rightarrow> bool" where
  "same_job j r \<longleftrightarrow> js_id r = js_id j \<and> js_owner r = js_owner j \<and> js_name r = js_name j
     \<and> js_created_at r = js_created_at j \<and> js_max_attempts r = js_max_attempts j
     \<and> js_timeout_ms r = js_timeout_ms j \<and> js_elapsed_ms r = js_elapsed_ms j"

definition stored :: "job_snapshot list \<Rightarrow> job_entry \<Rightarrow> bool" where
  "stored rows e \<longleftrightarrow> (\<exists>r \<in> set rows. same_job (je_snapshot e) r
     \<and> (if job_is_terminal (je_status e) then r = je_snapshot e else js_finished_at r = None))"

definition linked :: "job_snapshot list \<Rightarrow> job_entry \<Rightarrow> bool" where
  "linked rows e \<longleftrightarrow> (\<forall>r \<in> set rows. js_id r = je_id e \<longrightarrow> same_job (je_snapshot e) r)
     \<and> (job_is_terminal (je_status e) \<or> js_finished_at (je_snapshot e) = None)"





lemma linked_dirty [simp]: "linked rows (e\<lparr>je_dirty := b\<rparr>) = linked rows e"
  by (simp add: linked_def)

lemma stored_dirty [simp]: "stored rows (e\<lparr>je_dirty := b\<rparr>) = stored rows e"
  by (simp add: stored_def)





























subsection \<open>The life of one job\<close>

lemma find_job_modify:
  "(\<And>e. je_id (f e) = je_id e) \<Longrightarrow> find_job i (modify_job i f sp) = map_option f (find_job i sp)"
  by (auto simp: find_job_def modify_job_def find_update_rows option.map_comp
      dest: find_Some_in_set intro!: option.map_cong0 split: if_splits)

lemma find_job_flush:
  "find_job i sp = Some e \<Longrightarrow> \<exists>b. find_job i (flush_persist i f sp) = Some (e\<lparr>je_dirty := b\<rparr>)"
proof -
  assume e: "find_job i sp = Some e"
  have "find_job i (persist_snapshot j s) = find_job i s" for j s by (simp add: find_job_def)
  then have "find_job i (flush_persist i f sp) = Some e
      \<or> find_job i (flush_persist i f sp) = Some (e\<lparr>je_dirty := False\<rparr>)"
    by (simp add: flush_persist_def e find_job_modify)
  then show ?thesis by (metis job_entry.surjective job_entry.update_convs(5))
qed

lemma find_job_update:
  assumes "find_job i sp = Some e" and "\<And>j. js_id (f j) = js_id j"
  shows "\<exists>b. find_job i (update_job i f sp) = Some (e\<lparr>je_snapshot := f (je_snapshot e), je_dirty := b\<rparr>)"
proof -
  have "find_job i (modify_job i (\<lambda>e. e\<lparr>je_snapshot := f (je_snapshot e), je_dirty := True\<rparr>) sp)
      = Some (e\<lparr>je_snapshot := f (je_snapshot e), je_dirty := True\<rparr>)"
    using assms by (subst find_job_modify) simp_all
  from find_job_flush [OF this, of False] show ?thesis by (simp add: update_job_def)
qed

lemma find_in_filter: "find p xs = Some x \<Longrightarrow> q x \<Longrightarrow> find p (filter q xs) = Some x"
  by (induction xs) (auto split: if_splits)

lemma find_job_finish:
  assumes "find_job i sp = Some e"
  shows "\<exists>b. find_job i (finish_job now i st c f sp)
           = Some (e\<lparr>je_snapshot := finished now st c f (je_snapshot e), je_dirty := b\<rparr>)"
proof -
  let ?u = "\<lambda>j. j\<lparr>js_status := st, js_failure_class := c, js_failure := f, js_finished_at := Some now\<rparr>"
  from find_job_update [OF assms, of ?u]
  obtain b where "find_job i (update_job i ?u sp)
      = Some (e\<lparr>je_snapshot := finished now st c f (je_snapshot e), je_dirty := b\<rparr>)"
    by (auto simp: finished_def)
  from find_job_flush [OF this, of True] obtain b' where
    "find_job i (flush_persist i True (update_job i ?u sp))
      = Some (e\<lparr>je_snapshot := finished now st c f (je_snapshot e), je_dirty := b'\<rparr>)" by auto
  moreover have "now - FINISHED_RETENTION_MS < now" by (simp add: FINISHED_RETENTION_MS_def)
  ultimately show ?thesis
    by (auto simp: finish_job_def evict_stale_records_def evict_finished_from_memory_def Let_def
        find_job_def finished_def intro!: find_in_filter)
qed

lemma find_job_set_task:
  "find_job i (set_task i t sp) = map_option (\<lambda>e. e\<lparr>je_task := t\<rparr>) (find_job i sp)"
  by (simp add: set_task_def find_job_modify)

text \<open>The entry of job i, as far as the task's course depends on it.\<close>

definition job_at :: "uuid \<Rightarrow> supervisor \<Rightarrow> task \<Rightarrow> job_snapshot \<Rightarrow> bool" where
  "job_at i sp t j \<longleftrightarrow> (\<exists>e. find_job i sp = Some e \<and> je_task e = t \<and> je_snapshot e = j
     \<and> \<not> je_cancel e \<and> \<not> je_aborted e)"

lemma job_at_spawn:
  "job_at i (spawn_job now i owner name t m sp) TaskSpawned (queued_job now i owner name t m)"
proof -
  have last: "find (\<lambda>e. je_id e = i) (filter (\<lambda>e. je_id e \<noteq> i) xs @ [y]) = (if je_id y = i then Some y else None)"
    for xs and y :: job_entry
    by (induction xs) auto
  let ?e = "\<lparr>je_snapshot = queued_job now i owner name t m, je_cancel = False,
    je_task = TaskSpawned, je_aborted = False, je_dirty = True\<rparr>"
  have "find_job i (sp\<lparr>sp_jobs := filter (\<lambda>e. je_id e \<noteq> i) (sp_jobs sp) @ [?e]\<rparr>) = Some ?e"
    by (simp add: find_job_def last) (simp add: queued_job_def)
  from find_job_flush [OF this, of True] show ?thesis
    by (auto simp: spawn_job_def job_at_def)
qed

lemma job_at_begin:
  assumes "job_at i sp TaskSpawned j"
  shows "job_at i (task_begin now i sp) (TaskAttempt 1)
           (j\<lparr>js_status := JobRunning, js_started_at := Some now, js_attempts := 1\<rparr>)"
proof -
  let ?g = "\<lambda>j. j\<lparr>js_status := JobRunning, js_started_at := Some now\<rparr>"
  from assms obtain e where e: "find_job i sp = Some e" "je_task e = TaskSpawned" "je_snapshot e = j"
    "\<not> je_cancel e" "\<not> je_aborted e" by (auto simp: job_at_def)
  from find_job_update [OF e(1), of ?g] obtain b where
    b: "find_job i (update_job i ?g sp) = Some (e\<lparr>je_snapshot := ?g j, je_dirty := b\<rparr>)"
    by (auto simp: e)
  from find_job_update [OF b, of "\<lambda>j. j\<lparr>js_attempts := 1\<rparr>"]
  show ?thesis by (auto simp: job_at_def task_begin_def e find_job_set_task)
qed

lemma job_at_retry:
  assumes "job_at i sp (TaskAttempt k) j" and "k < js_max_attempts j"
  shows "job_at i (task_attempt_ends now i (AttemptError c msg) sp) (TaskAttempt (k + 1))
           (j\<lparr>js_attempts := k + 1\<rparr>)"
proof -
  from assms obtain e where e: "find_job i sp = Some e" "je_task e = TaskAttempt k" "je_snapshot e = j"
    "\<not> je_cancel e" "\<not> je_aborted e" by (auto simp: job_at_def)
  from find_job_update [OF e(1), of "\<lambda>j. j\<lparr>js_attempts := k + 1\<rparr>"] assms(2)
  show ?thesis by (auto simp: job_at_def task_attempt_ends_def e find_job_set_task)
qed

lemma job_at_retries:
  "job_at i sp (TaskAttempt k) j \<Longrightarrow> js_attempts j = k \<Longrightarrow> k + length errs \<le> js_max_attempts j \<Longrightarrow>
   job_at i (run job_step (map (\<lambda>(c, msg). OpAttempt now i (AttemptError c msg)) errs) sp)
     (TaskAttempt (k + length errs)) (j\<lparr>js_attempts := k + length errs\<rparr>)"
proof (induction errs arbitrary: k j sp)
  case Nil
  then show ?case by (cases j) simp
next
  case (Cons cm errs)
  obtain c msg where cm: "cm = (c, msg)" by fastforce
  have "job_at i (task_attempt_ends now i (AttemptError c msg) sp) (TaskAttempt (k + 1)) (j\<lparr>js_attempts := k + 1\<rparr>)"
    using Cons.prems by (intro job_at_retry) auto
  from Cons.IH [OF this] Cons.prems show ?case by (simp add: cm)
qed

text \<open>How the last attempt decides the job: status, failure class and message.\<close>

definition verdict :: "nat \<Rightarrow> attempt_end \<Rightarrow> job_status \<times> failure_class option \<times> string option" where
  "verdict timeout r =
     (case r of
        AttemptOk \<Rightarrow> (JobSucceeded, None, None)
      | AttemptTimeout \<Rightarrow> (JobTimedOut, Some FailTimeout,
          Some (''exceeded '' @ decimal timeout @ '' ms''))
      | AttemptError c msg \<Rightarrow> (JobFailed, Some (classify c), Some msg)
      | _ \<Rightarrow> (JobRunning, None, None))"

lemma job_at_verdict:
  assumes "job_at i sp (TaskAttempt k) j" and "r \<noteq> AttemptCancelled" and "r \<noteq> AttemptPanic"
    and "\<And>c msg. r = AttemptError c msg \<Longrightarrow> js_max_attempts j \<le> k"
    and "verdict (js_timeout_ms j) r = (st, c, f)"
  shows "job_at i (task_attempt_ends now i r sp) TaskOver (finished now st c f j)"
proof -
  from assms obtain e where e: "find_job i sp = Some e" "je_task e = TaskAttempt k" "je_snapshot e = j"
    "\<not> je_cancel e" "\<not> je_aborted e" by (auto simp: job_at_def)
  from find_job_finish [OF e(1), of now st c f]
  have "job_at i (set_task i TaskOver (finish_job now i st c f sp)) TaskOver (finished now st c f j)"
    by (auto simp: job_at_def find_job_set_task e)
  moreover have "task_attempt_ends now i r sp = set_task i TaskOver (finish_job now i st c f sp)"
    using assms(2-5) by (cases r) (auto simp: task_attempt_ends_def e verdict_def)
  ultimately show ?thesis by simp
qed

text \<open>C10: A job is retried until it is decided and never more often than asked: an operation
  that fails some times and then ends in \<open>r\<close> leaves a finished job after exactly one attempt
  more than it failed, with the status, failure class and message that \<open>r\<close> calls for, where
  an error counts as the job's failure only when its attempts are used up.
\<close>

theorem job_runs_until_decided:
  assumes "length errs < max m 1"
    and "r = AttemptOk \<or> r = AttemptTimeout \<or> (r = AttemptError c0 msg0 \<and> length errs + 1 = max m 1)"
  shows "map_option (\<lambda>e. (je_task e, js_attempts (je_snapshot e), js_started_at (je_snapshot e),
             js_finished_at (je_snapshot e), js_status (je_snapshot e),
             js_failure_class (je_snapshot e), js_failure (je_snapshot e)))
           (find_job i (run job_step
             ([OpSpawn t0 i owner name timeout m, OpBegin t1 i]
              @ map (\<lambda>(c, msg). OpAttempt t2 i (AttemptError c msg)) errs
              @ [OpAttempt t3 i r]) sp))
         = Some (TaskOver, length errs + 1, Some t1, Some t3, verdict (min timeout u64_max) r)"
proof -
  let ?sp = "run job_step [OpSpawn t0 i owner name timeout m, OpBegin t1 i] sp"
  let ?sp2 = "run job_step (map (\<lambda>(c, msg). OpAttempt t2 i (AttemptError c msg)) errs) ?sp"
  obtain j where j: "job_at i ?sp (TaskAttempt 1) j" "js_attempts j = 1" "js_max_attempts j = max m 1"
      "js_timeout_ms j = min timeout u64_max" "js_started_at j = Some t1"
    using job_at_begin [OF job_at_spawn [of i t0 owner name timeout m sp], of t1]
    by (auto simp: queued_job_def)
  have at: "job_at i ?sp2 (TaskAttempt (1 + length errs)) (j\<lparr>js_attempts := 1 + length errs\<rparr>)"
    using assms(1) j by (intro job_at_retries) auto
  obtain st c f where v: "verdict (min timeout u64_max) r = (st, c, f)"
    by (cases "verdict (min timeout u64_max) r")
  have "job_at i (task_attempt_ends t3 i r ?sp2) TaskOver (finished t3 st c f (j\<lparr>js_attempts := 1 + length errs\<rparr>))"
    using assms(2) j v by (intro job_at_verdict [OF at]) auto
  then show ?thesis
    unfolding run_append by (auto simp: job_at_def finished_def v j)
qed

lemma job_runs_until_decided_witness:
  "map_option (\<lambda>e. (je_task e, js_attempts (je_snapshot e), js_started_at (je_snapshot e),
             js_finished_at (je_snapshot e), js_status (je_snapshot e),
             js_failure_class (je_snapshot e), js_failure (je_snapshot e)))
           (find_job 7 (run job_step
             [OpSpawn 0 7 ''core'' ''index'' 1000 2, OpBegin 1 7,
              OpAttempt 2 7 (AttemptError CodeIo ''broken pipe''),
              OpAttempt 3 7 (AttemptError CodeNotFound ''gone'')] (with_storage 0 [])))
   = Some (TaskOver, 2, Some 1, Some 3, JobFailed, Some FailUser, Some ''gone'')"
  using job_runs_until_decided [where errs = "[(CodeIo, ''broken pipe'')]" and m = 2 and i = 7
      and r = "AttemptError CodeNotFound ''gone''" and ?c0.0 = CodeNotFound and ?msg0.0 = "''gone''"
      and ?t0.0 = 0 and ?t1.0 = 1 and ?t2.0 = 2 and ?t3.0 = 3 and owner = "''core''"
      and name = "''index''" and timeout = 1000 and sp = "with_storage 0 []"]
  by (simp add: verdict_def numeral_2_eq_2)

text \<open>Success is not final: a job that has succeeded can still be force-stopped, and is from
  then on recorded as cancelled with a failure; and a job that is stopped in the last poll of
  its operation is first recorded as cancelled and then as succeeded.
\<close>

theorem force_stop_rewrites_outcome:
  "let started = task_begin t1 i (spawn_job t0 i owner name timeout m sp) in
    map_option js_status (get_job t2 i (task_attempt_ends t2 i AttemptOk started)) = Some JobSucceeded
    \<and> map_option (\<lambda>j. (js_status j, js_failure j))
        (get_job t3 i (snd (force_stop t3 i (task_attempt_ends t2 i AttemptOk started))))
      = Some (JobCancelled, Some ''force-stopped'')
    \<and> map_option js_status (get_job t2 i (snd (force_stop t2 i started))) = Some JobCancelled
    \<and> map_option js_status (get_job t3 i (task_attempt_ends t3 i AttemptOk (snd (force_stop t2 i started))))
      = Some JobSucceeded"
proof -
  define started where "started = task_begin t1 i (spawn_job t0 i owner name timeout m sp)"
  obtain e where e: "find_job i started = Some e" "je_task e = TaskAttempt 1"
    using job_at_begin [OF job_at_spawn [of i t0 owner name timeout m sp], of t1]
    by (auto simp: started_def job_at_def)
  have ok: "\<exists>b. find_job i (task_attempt_ends t i AttemptOk s)
      = Some (x\<lparr>je_snapshot := finished t JobSucceeded None None (je_snapshot x), je_dirty := b, je_task := TaskOver\<rparr>)"
    if "find_job i s = Some x" "je_task x = TaskAttempt 1" for s t x
    using find_job_finish [OF that(1), of t JobSucceeded None None] that(2)
    by (auto simp: task_attempt_ends_def that(1) find_job_set_task)
  have stop: "\<exists>y. find_job i (snd (force_stop t i s)) = Some y \<and> je_task y = je_task x
      \<and> je_snapshot y = finished t JobCancelled (Some FailCancelled) (Some ''force-stopped'') (je_snapshot x)"
    if "find_job i s = Some x" for s t x
  proof -
    have "find_job i (modify_job i (\<lambda>e. e\<lparr>je_cancel := True, je_aborted := True\<rparr>) s)
        = Some (x\<lparr>je_cancel := True, je_aborted := True\<rparr>)"
      using that by (subst find_job_modify) simp_all
    from find_job_finish [OF this, of t JobCancelled "Some FailCancelled" "Some ''force-stopped''"]
    show ?thesis by (auto simp: force_stop_def that)
  qed
  obtain y where y: "find_job i (task_attempt_ends t2 i AttemptOk started) = Some y"
    "js_status (je_snapshot y) = JobSucceeded"
    using ok [OF e, of t2] by (auto simp: finished_def)
  obtain z where z: "find_job i (snd (force_stop t2 i started)) = Some z" "je_task z = TaskAttempt 1"
    "js_status (je_snapshot z) = JobCancelled"
    using stop [OF e(1), of t2] e(2) by (auto simp: finished_def)
  have "js_status (with_elapsed n j) = js_status j" "js_failure (with_elapsed n j) = js_failure j" for n j
    by (simp_all add: with_elapsed_def Let_def)
  with y z show ?thesis
    using stop [OF y(1), of t3] ok [OF z(1,2), of t3]
    unfolding get_job_def Let_def started_def [symmetric]
    by (auto simp: finished_def)
qed

subsection \<open>Shutting down\<close>

definition others_unfinished :: "uuid \<Rightarrow> supervisor \<Rightarrow> nat" where
  "others_unfinished i sp = count_rows (\<lambda>e. unfinished (je_status e) \<and> je_id e \<noteq> i) (sp_jobs sp)"

definition unfinished_jobs :: "supervisor \<Rightarrow> nat" where
  "unfinished_jobs sp = count_rows (\<lambda>e. unfinished (je_status e)) (sp_jobs sp)"

lemma others_unfinished_modify:
  "(\<And>e. je_id (f e) = je_id e) \<Longrightarrow> others_unfinished i (modify_job i f sp) = others_unfinished i sp"
proof -
  assume f: "\<And>e. je_id (f e) = je_id e"
  have "length (filter (\<lambda>e. unfinished (je_status e) \<and> je_id e \<noteq> i) (update_rows (\<lambda>e. je_id e = i) f xs))
      = length (filter (\<lambda>e. unfinished (je_status e) \<and> je_id e \<noteq> i) xs)" for xs
    by (induction xs) (auto simp: f)
  then show ?thesis by (simp add: others_unfinished_def count_rows_def modify_job_def)
qed

lemma others_unfinished_flush: "others_unfinished i (flush_persist i b sp) = others_unfinished i sp"
proof -
  have "others_unfinished i (persist_snapshot j sp) = others_unfinished i sp" for j sp
    by (simp add: others_unfinished_def)
  then show ?thesis
    by (auto simp: flush_persist_def others_unfinished_modify split: option.split)
qed

lemma terminal_not_unfinished: "job_is_terminal s \<Longrightarrow> \<not> unfinished s"
  by (auto simp: job_is_terminal_def unfinished_def)

lemma filter_evict:
  "filter (\<lambda>e. unfinished (je_status e) \<and> q e) (sp_jobs (evict_stale_records now sp))
   = filter (\<lambda>e. unfinished (je_status e) \<and> q e) (sp_jobs sp)"
  unfolding evict_stale_records_def evict_finished_from_memory_def Let_def
  by (auto simp: filter_filter dest: terminal_not_unfinished intro: filter_cong)

lemma others_unfinished_finish:
  "others_unfinished i (finish_job now i st c f sp) = others_unfinished i sp"
  unfolding finish_job_def update_job_def
  by (simp add: others_unfinished_def count_rows_def filter_evict)
    (simp flip: others_unfinished_def count_rows_def
      add: others_unfinished_flush others_unfinished_modify)

lemma others_unfinished_bounds:
  assumes "ids_unique sp"
  shows "others_unfinished i sp \<le> unfinished_jobs sp" "unfinished_jobs sp \<le> others_unfinished i sp + 1"
proof -
  have "distinct (map je_id xs) \<Longrightarrow>
     length (filter (\<lambda>e. unfinished (je_status e)) xs)
       \<le> length (filter (\<lambda>e. unfinished (je_status e) \<and> je_id e \<noteq> i) xs)
          + (if i \<in> je_id ` set xs then 1 else 0)
     \<and> length (filter (\<lambda>e. unfinished (je_status e) \<and> je_id e \<noteq> i) xs)
       \<le> length (filter (\<lambda>e. unfinished (je_status e)) xs)" for xs
    by (induction xs) auto
  from this [of "sp_jobs sp"] assms show "others_unfinished i sp \<le> unfinished_jobs sp"
    "unfinished_jobs sp \<le> others_unfinished i sp + 1"
    by (auto simp: others_unfinished_def unfinished_jobs_def count_rows_def ids_unique_def split: if_splits)
qed

lemma force_stop_stops_one:
  assumes "jobs_inv sp"
  shows "unfinished_jobs sp \<le> unfinished_jobs (snd (force_stop now i sp)) + 1"
proof -
  have "others_unfinished i (snd (force_stop now i sp)) = others_unfinished i sp"
    by (simp add: force_stop_def others_unfinished_finish others_unfinished_modify)
  then show ?thesis
    using others_unfinished_bounds [of sp i] others_unfinished_bounds [of "snd (force_stop now i sp)" i]
      assms jobs_inv_force_stop [OF assms, of now i] by (auto simp: jobs_inv_def)
qed

lemma force_stops_bound:
  "jobs_inv sp \<Longrightarrow>
   unfinished_jobs sp \<le> unfinished_jobs (fold (\<lambda>i s. snd (force_stop now i s)) ids sp) + length ids"
proof (induction ids arbitrary: sp)
  case Nil
  then show ?case by simp
next
  case (Cons i ids)
  from Cons.IH [OF jobs_inv_force_stop [OF Cons.prems]] force_stop_stops_one [OF Cons.prems, of now i]
  show ?case by (simp, metis (no_types, lifting) Suc_eq_plus1 add_Suc_right le_trans add_le_mono1)
qed

text \<open>Shutting down stops at most 500 jobs: \<open>shutdown\<close> asks \<open>list\<close> for all of them, and
  \<open>list\<close> cuts its answer at 500 whatever limit it is given. Of n unfinished jobs at least
  n - 500 are left running.
\<close>

theorem shutdown_stops_at_most_500:
  "unfinished_jobs (run job_step ops (with_storage t0 rows))
     \<le> unfinished_jobs (shutdown_jobs now (run job_step ops (with_storage t0 rows))) + 500"
proof -
  let ?sp = "run job_step ops (with_storage t0 rows)"
  have inv: "jobs_inv ?sp" using jobs_inv_step jobs_inv_start by (rule run_invariant)
  let ?l = "fst (list_jobs now 0 u64_max ?sp)"
  let ?ids = "map js_id (filter (\<lambda>j. unfinished (js_status j)) ?l)"
  have "length ?ids \<le> length ?l" by simp
  also have "length ?l \<le> 500" by (simp add: list_jobs_def Let_def)
  finally have ids: "length ?ids \<le> 500" .
  have "unfinished_jobs (evict_finished_from_memory now ?sp) = unfinished_jobs ?sp"
    using filter_evict [of "\<lambda>e. True" now ?sp]
    by (simp add: unfinished_jobs_def count_rows_def evict_stale_records_def Let_def)
  with force_stops_bound [OF jobs_inv_evict_memory [OF inv], of now now ?ids] ids
  show ?thesis by (simp add: shutdown_jobs_def list_jobs_def Let_def)
qed

end
