(* ===== verification/TaskPlanning.thy ===== *)
theory TaskPlanning
  imports CoreErrors "HOL-Library.List_Lexorder" "HOL-Library.Char_ord"
begin

text \<open>
  \<open>crates/retcon-storage/src/task_planning.rs\<close> and \<open>TaskRepository::create\<close> of
  \<open>repositories.rs\<close>: tasks, their parents and dependencies, plans, acceptance criteria
  and the gate a task passes to be completed. A transaction is a function from the tables to an
  SQL error or a value with new tables; an error rolls back. Foreign keys act as the schema says
  (\<open>migrations/0005\<close> to \<open>0010\<close>): deleting a task deletes its steps, criteria,
  dependencies and runs and clears the parent of its children. The rows of the verification tables are
  written by \<open>Verification\<close>; the gate only reads them. Identifiers are ordered as numbers, as their bytes are.
\<close>

subsection \<open>Rows\<close>

record task_row =
  tk_id :: uuid
  tk_session_id :: "uuid option"
  tk_project_id :: "uuid option"
  tk_parent_task_id :: "uuid option"
  tk_worktree_id :: "uuid option"
  tk_branch :: "string option"
  tk_worktree_path :: "string option"
  tk_agent :: "string option"
  tk_provider :: "string option"
  tk_title :: string
  tk_description :: "string option"
  tk_status :: string
  tk_priority :: int
  tk_estimated_cost_micros :: "int option"
  tk_actual_cost_micros :: "int option"
  tk_cost_currency :: string
  tk_created_at :: millis
  tk_updated_at :: millis
  tk_started_at :: "millis option"
  tk_completed_at :: "millis option"

record dependency_row =
  dp_task_id :: uuid
  dp_depends_on :: uuid
  dp_created_at :: millis

record step_row =
  st_id :: uuid
  st_task_id :: uuid
  st_sequence :: int
  st_title :: string
  st_description :: "string option"
  st_status :: string
  st_updated_at :: millis

record criterion =
  ac_id :: uuid
  ac_task_id :: uuid
  ac_description :: string
  ac_status :: string
  ac_evidence :: "json list"
  ac_sort_order :: int
  ac_is_required :: bool
  ac_evaluated_at :: "millis option"
  ac_override_reason :: "string option"
  ac_overridden_by :: "string option"
  ac_overridden_at :: "millis option"
  ac_updated_at :: millis

record criterion_event =
  ce_id :: int
  ce_criterion_id :: uuid
  ce_task_id :: uuid
  ce_kind :: string
  ce_actor :: string
  ce_payload :: json
  ce_created_at :: millis

text \<open>The verification tables, of \<open>migrations/0007_durable_verification.sql\<close>.\<close>

record verification_command =
  vc_id :: uuid
  vc_project_id :: uuid
  vc_key :: string
  vc_kind :: string
  vc_command :: string
  vc_cwd :: "string option"
  vc_required :: bool
  vc_enabled :: bool
  vc_timeout_ms :: "int option"
  vc_updated_at :: millis

record verification_run_row =
  vr_id :: uuid
  vr_task_id :: uuid
  vr_project_id :: uuid
  vr_rerun_of_id :: "uuid option"
  vr_status :: string
  vr_trigger_kind :: string
  vr_summary :: json
  vr_created_at :: millis
  vr_started_at :: "millis option"
  vr_completed_at :: "millis option"

record verification_gate_row =
  vg_id :: uuid
  vg_run_id :: uuid
  vg_command_id :: "uuid option"
  vg_command_key :: string
  vg_gate_kind :: string
  vg_command :: string
  vg_cwd :: "string option"
  vg_is_required :: bool
  vg_timeout_ms :: "int option"
  vg_status :: string
  vg_summary :: json
  vg_started_at :: "millis option"
  vg_completed_at :: "millis option"

record verification_result_row =
  vt_id :: uuid
  vt_run_id :: uuid
  vt_gate_id :: uuid
  vt_suite :: "string option"
  vt_name :: string
  vt_status :: string
  vt_duration_ms :: "int option"
  vt_file_path :: "string option"
  vt_line :: "int option"
  vt_message :: "string option"
  vt_metadata :: json

record verification_artifact_row =
  va_id :: uuid
  va_run_id :: uuid
  va_gate_id :: "uuid option"
  va_kind :: string
  va_hash :: string
  va_size_bytes :: int
  va_metadata :: json
  va_created_at :: millis

record verification_event =
  ve_id :: int
  ve_run_id :: uuid
  ve_task_id :: uuid
  ve_gate_id :: "uuid option"
  ve_kind :: string
  ve_actor :: string
  ve_payload :: json
  ve_created_at :: millis

text \<open>The columns of the browser verification tables that the gate reads.\<close>

record browser_definition_row =
  bd_id :: uuid
  bd_project_id :: uuid
  bd_task_id :: "uuid option"
  bd_name :: string
  bd_status :: string
  bd_is_required :: bool

record browser_run_row =
  br_id :: uuid
  br_definition_id :: uuid
  br_task_id :: uuid
  br_status :: string
  br_blocking_failures :: nat
  br_critical_accessibility :: nat
  br_created_at :: millis

record task_db = db +
  td_worktrees :: "(uuid \<times> uuid) list"
  td_tasks :: "task_row list"
  td_deps :: "dependency_row list"
  td_steps :: "step_row list"
  td_step_deps :: "dependency_row list"
  td_criteria :: "criterion list"
  td_criterion_events :: "criterion_event list"
  td_commands :: "verification_command list"
  td_runs :: "verification_run_row list"
  td_gates :: "verification_gate_row list"
  td_results :: "verification_result_row list"
  td_artifacts :: "verification_artifact_row list"
  td_verification_events :: "verification_event list"
  td_browser_definitions :: "browser_definition_row list"
  td_browser_runs :: "browser_run_row list"

definition TASK_STATUSES :: "string list" where
  "TASK_STATUSES = [''backlog'', ''planned'', ''pending'', ''ready'', ''in_progress'', ''blocked'',
     ''review'', ''completed'', ''done'', ''failed'', ''cancelled'']"

definition STEP_STATUSES :: "string list" where
  "STEP_STATUSES = [''pending'', ''in_progress'', ''completed'', ''skipped'', ''blocked'']"

subsection \<open>Transactions\<close>

text \<open>\<open>Database::transaction\<close>: an error of the operation drops the transaction.\<close>

definition transaction ::
    "('d \<Rightarrow> (sql_error, 'a \<times> 'd) outcome) \<Rightarrow> 'd \<Rightarrow> (storage_error, 'a) outcome \<times> 'd" where
  "transaction operation d =
     (case operation d of
        Inl e \<Rightarrow> (Inl (StorageDatabase ''execute transaction'' e), d)
      | Inr (v, d') \<Rightarrow> (Inr v, d'))"

definition VALIDATION_PREFIX :: string where
  "VALIDATION_PREFIX = ''retcon_validation:''"

definition validation_error :: "string \<Rightarrow> sql_error" where
  "validation_error message = SqlInvalidParameterName (VALIDATION_PREFIX @ message)"

fun map_validation :: "(storage_error, 'a) outcome \<Rightarrow> (storage_error, 'a) outcome" where
  "map_validation (Inl (StorageDatabase op (SqlInvalidParameterName message))) =
     (case strip_prefix VALIDATION_PREFIX message of
        Some m \<Rightarrow> Inl (StorageValidation m)
      | None \<Rightarrow> Inl (StorageDatabase op (SqlInvalidParameterName message)))"
| "map_validation other = other"

definition validated ::
    "('d \<Rightarrow> (sql_error, 'a \<times> 'd) outcome) \<Rightarrow> 'd \<Rightarrow> (storage_error, 'a) outcome \<times> 'd" where
  "validated operation d = (let (r, d') = transaction operation d in (map_validation r, d'))"

text \<open>A check that fails ends the call (\<open>?\<close>) before the database is touched.\<close>

definition checked ::
    "(storage_error, unit) outcome \<Rightarrow> 'd \<Rightarrow> (storage_error, 'a) outcome \<times> 'd
      \<Rightarrow> (storage_error, 'a) outcome \<times> 'd" where
  "checked r d k = (case r of Inl e \<Rightarrow> (Inl e, d) | Inr u \<Rightarrow> k)"

text \<open>After the transaction the row is read back: \<open>self.find(id)?.ok_or_else(..)\<close>.\<close>

definition reading ::
    "('d \<Rightarrow> 'v option) \<Rightarrow> string \<Rightarrow> (storage_error, 'a) outcome \<times> 'd
      \<Rightarrow> (storage_error, 'v) outcome \<times> 'd" where
  "reading get message r =
     (case r of
        (Inl e, d) \<Rightarrow> (Inl e, d)
      | (Inr u, d) \<Rightarrow>
          (case get d of None \<Rightarrow> (Inl (StorageValidation message), d) | Some v \<Rightarrow> (Inr v, d)))"

definition quoted :: "string \<Rightarrow> string" where
  "quoted s = [CHR 0x27] @ s @ [CHR 0x27]"

definition validate_status :: "string \<Rightarrow> string list \<Rightarrow> string \<Rightarrow> (storage_error, unit) outcome" where
  "validate_status status allowed kind =
     (if status \<in> set allowed then Inr ()
      else Inl (StorageValidation (''unsupported '' @ kind @ '' status '' @ quoted status)))"

subsection \<open>Graphs in SQL\<close>

text \<open>
  \<open>WITH RECURSIVE a(id) AS (SELECT to WHERE from=start UNION SELECT to .. JOIN a ON from=a.id)\<close>
  the way SQLite runs it: a queue of rows, and every row that is new is added to the result and
  to the queue.
\<close>

definition targets :: "(uuid \<times> uuid) list \<Rightarrow> uuid \<Rightarrow> uuid list" where
  "targets edges a = remdups (map snd (filter (\<lambda>e. fst e = a) edges))"

function recursive_union :: "(uuid \<times> uuid) list \<Rightarrow> uuid list \<Rightarrow> uuid list \<Rightarrow> uuid list" where
  "recursive_union edges result [] = result"
| "recursive_union edges result (a # queue) =
     (let new = filter (\<lambda>d. d \<notin> set result) (targets edges a)
      in recursive_union edges (result @ new) (queue @ new))"
  by pat_completeness auto

termination
proof (relation "measures [\<lambda>(edges, result, queue). card (snd ` set edges - set result),
    \<lambda>(edges, result, queue). length queue]", goal_cases)
  case 1
  then show ?case by simp
next
  case (2 edges result a queue new)
  have sub: "set new \<subseteq> snd ` set edges - set result"
    using 2 by (auto simp: targets_def)
  show ?case
  proof (cases "new = []")
    case True
    then show ?thesis by simp
  next
    case False
    then have "snd ` set edges - set (result @ new) \<subset> snd ` set edges - set result"
      using sub by (cases new) auto
    then show ?thesis by (simp add: psubset_card_mono)
  qed
qed

definition ancestors :: "(uuid \<times> uuid) list \<Rightarrow> uuid \<Rightarrow> uuid list" where
  "ancestors edges start = recursive_union edges (targets edges start) (targets edges start)"

subsection \<open>Relationships of a task\<close>

definition find_task :: "uuid \<Rightarrow> task_db \<Rightarrow> task_row option" where
  "find_task i d = find (\<lambda>t. tk_id t = i) (td_tasks d)"

definition dep_edges :: "task_db \<Rightarrow> (uuid \<times> uuid) list" where
  "dep_edges d = map (\<lambda>r. (dp_task_id r, dp_depends_on r)) (td_deps d)"

definition parent_edges :: "task_db \<Rightarrow> (uuid \<times> uuid) list" where
  "parent_edges d = List.map_filter (\<lambda>t. map_option (\<lambda>p. (tk_id t, p)) (tk_parent_task_id t)) (td_tasks d)"

definition session_project :: "uuid \<Rightarrow> task_db \<Rightarrow> uuid option" where
  "session_project i d = map_option se_project_id (find (\<lambda>s. se_id s = i) (sessions d))"

definition worktree_project :: "uuid \<Rightarrow> task_db \<Rightarrow> uuid option" where
  "worktree_project i d = map_of (td_worktrees d) i"

definition inconsistent_related :: "uuid \<Rightarrow> uuid option \<Rightarrow> task_db \<Rightarrow> bool" where
  "inconsistent_related task_id project d \<longleftrightarrow>
     (\<exists>t \<in> set (td_tasks d). tk_parent_task_id t = Some task_id \<and> tk_project_id t \<noteq> project)
     \<or> (\<exists>r \<in> set (td_deps d). \<exists>t \<in> set (td_tasks d).
          tk_id t = (if dp_task_id r = task_id then dp_depends_on r else dp_task_id r)
          \<and> (dp_task_id r = task_id \<or> dp_depends_on r = task_id)
          \<and> tk_project_id t \<noteq> project)"

definition check :: "bool \<Rightarrow> string \<Rightarrow> (sql_error, unit) outcome" where
  "check ok message = (if ok then Inr () else Inl (validation_error message))"

text \<open>The checks of \<open>validate_task_relationships\<close>, in order; the first that fails is the answer.\<close>

fun first_error :: "(sql_error, unit) outcome list \<Rightarrow> (sql_error, unit) outcome" where
  "first_error [] = Inr ()"
| "first_error (Inl e # rs) = Inl e"
| "first_error (Inr u # rs) = first_error rs"

definition check_session :: "task_db \<Rightarrow> uuid option \<Rightarrow> uuid option \<Rightarrow> (sql_error, unit) outcome" where
  "check_session d project_id session_id =
     (case session_id of
        None \<Rightarrow> Inr ()
      | Some s \<Rightarrow>
          (case session_project s d of
             None \<Rightarrow> Inl (validation_error ''task session does not exist'')
           | Some p \<Rightarrow> check (project_id = Some p) ''task project must match its session project''))"

definition check_worktree :: "task_db \<Rightarrow> uuid option \<Rightarrow> uuid option \<Rightarrow> (sql_error, unit) outcome" where
  "check_worktree d project_id worktree_id =
     (case worktree_id of
        None \<Rightarrow> Inr ()
      | Some w \<Rightarrow>
          (case worktree_project w d of
             None \<Rightarrow> Inl (validation_error ''task worktree does not exist'')
           | Some p \<Rightarrow> check (project_id = Some p) ''task project must match its worktree project''))"

definition check_parent :: "task_db \<Rightarrow> uuid \<Rightarrow> uuid option \<Rightarrow> uuid option \<Rightarrow> (sql_error, unit) outcome" where
  "check_parent d task_id project_id parent_task_id =
     (case parent_task_id of
        None \<Rightarrow> Inr ()
      | Some p \<Rightarrow>
          (case find_task p d of
             None \<Rightarrow> Inl (validation_error ''parent task does not exist'')
           | Some t \<Rightarrow> first_error
               [check (project_id = tk_project_id t)
                  ''parent and child tasks must belong to the same project'',
                check (task_id \<notin> set (ancestors (parent_edges d) p)) ''task parent cycle detected'']))"

definition validate_task_relationships ::
    "task_db \<Rightarrow> uuid \<Rightarrow> uuid option \<Rightarrow> uuid option \<Rightarrow> uuid option \<Rightarrow> uuid option
      \<Rightarrow> (sql_error, unit) outcome" where
  "validate_task_relationships d task_id project_id session_id parent_task_id worktree_id =
     first_error
       [check (parent_task_id \<noteq> Some task_id) ''a task cannot be its own parent'',
        check_session d project_id session_id,
        check_worktree d project_id worktree_id,
        check_parent d task_id project_id parent_task_id,
        check (\<not> inconsistent_related task_id project_id d)
          ''task project must match its parent, children, and dependencies'']"

text \<open>\<open>REFERENCES projects(id)\<close>.\<close>

definition project_exists :: "uuid option \<Rightarrow> task_db \<Rightarrow> bool" where
  "project_exists p d \<longleftrightarrow> (case p of None \<Rightarrow> True | Some i \<Rightarrow> \<exists>r \<in> set (projects d). pr_id r = i)"

subsection \<open>Creating, reading and changing tasks\<close>

record new_task =
  nk_id :: uuid
  nk_session_id :: "uuid option"
  nk_project_id :: "uuid option"
  nk_parent_task_id :: "uuid option"
  nk_worktree_id :: "uuid option"
  nk_branch :: "string option"
  nk_worktree_path :: "string option"
  nk_agent :: "string option"
  nk_provider :: "string option"
  nk_title :: string
  nk_description :: "string option"
  nk_status :: string
  nk_priority :: int
  nk_estimated_cost_micros :: "int option"
  nk_actual_cost_micros :: "int option"
  nk_cost_currency :: string

definition negative :: "int option \<Rightarrow> bool" where
  "negative c \<longleftrightarrow> (case c of None \<Rightarrow> False | Some v \<Rightarrow> v < 0)"

definition currency_ok :: "string \<Rightarrow> bool" where
  "currency_ok c \<longleftrightarrow> length c = 3 \<and> list_all ascii_upper c"

definition validate_new_task_fields :: "new_task \<Rightarrow> (storage_error, unit) outcome" where
  "validate_new_task_fields t =
     (case validate_status (nk_status t) TASK_STATUSES ''task'' of
        Inl e \<Rightarrow> Inl e
      | Inr u \<Rightarrow>
          if trim (nk_title t) = [] then Inl (StorageValidation ''task title cannot be empty'')
          else if negative (nk_estimated_cost_micros t) \<or> negative (nk_actual_cost_micros t)
          then Inl (StorageValidation ''task costs cannot be negative'')
          else if \<not> currency_ok (nk_cost_currency t)
          then Inl (StorageValidation ''cost currency must be a three-letter uppercase code'')
          else Inr ())"

definition is_completed :: "string \<Rightarrow> bool" where
  "is_completed s \<longleftrightarrow> s = ''completed'' \<or> s = ''done''"

definition effective_project :: "new_task \<Rightarrow> task_db \<Rightarrow> (sql_error, uuid option) outcome" where
  "effective_project t d =
     (case (nk_project_id t, nk_session_id t, nk_worktree_id t) of
        (Some p, _, _) \<Rightarrow> Inr (Some p)
      | (None, Some s, _) \<Rightarrow>
          (case session_project s d of None \<Rightarrow> Inl SqlNoRows | Some p \<Rightarrow> Inr (Some p))
      | (None, None, Some w) \<Rightarrow>
          (case worktree_project w d of None \<Rightarrow> Inl SqlNoRows | Some p \<Rightarrow> Inr (Some p))
      | (None, None, None) \<Rightarrow> Inr None)"

definition new_task_row :: "millis \<Rightarrow> uuid option \<Rightarrow> new_task \<Rightarrow> task_row" where
  "new_task_row now project t =
     \<lparr>tk_id = nk_id t, tk_session_id = nk_session_id t, tk_project_id = project,
      tk_parent_task_id = nk_parent_task_id t, tk_worktree_id = nk_worktree_id t,
      tk_branch = nk_branch t, tk_worktree_path = nk_worktree_path t, tk_agent = nk_agent t,
      tk_provider = nk_provider t, tk_title = nk_title t, tk_description = nk_description t,
      tk_status = nk_status t, tk_priority = nk_priority t,
      tk_estimated_cost_micros = nk_estimated_cost_micros t,
      tk_actual_cost_micros = nk_actual_cost_micros t, tk_cost_currency = nk_cost_currency t,
      tk_created_at = now, tk_updated_at = now,
      tk_started_at = (if nk_status t = ''in_progress'' then Some now else None),
      tk_completed_at = (if is_completed (nk_status t) then Some now else None)\<rparr>"

definition insert_task :: "millis \<Rightarrow> new_task \<Rightarrow> task_db \<Rightarrow> (sql_error, uuid option \<times> task_db) outcome" where
  "insert_task now t d =
     (case effective_project t d of
        Inl e \<Rightarrow> Inl e
      | Inr project \<Rightarrow>
          (case validate_task_relationships d (nk_id t) project (nk_session_id t)
                  (nk_parent_task_id t) (nk_worktree_id t) of
             Inl e \<Rightarrow> Inl e
           | Inr u \<Rightarrow>
               if find_task (nk_id t) d \<noteq> None then Inl (SqlConstraint ''tasks.id'')
               else if \<not> project_exists project d then Inl (SqlConstraint ''FOREIGN KEY'')
               else Inr (project, d\<lparr>td_tasks := td_tasks d @ [new_task_row now project t]\<rparr>)))"

definition tasks_create :: "millis \<Rightarrow> new_task \<Rightarrow> task_db \<Rightarrow> (storage_error, task_row) outcome \<times> task_db" where
  "tasks_create now t d =
     (case validate_new_task_fields t of
        Inl e \<Rightarrow> (Inl e, d)
      | Inr u \<Rightarrow>
          (let (r, d') = validated (insert_task now t) d
           in (map_outcome (\<lambda>project. new_task_row now project t) r, d')))"

record task_patch =
  pt_session_id :: "uuid option option"
  pt_project_id :: "uuid option option"
  pt_parent_task_id :: "uuid option option"
  pt_worktree_id :: "uuid option option"
  pt_branch :: "string option option"
  pt_worktree_path :: "string option option"
  pt_agent :: "string option option"
  pt_provider :: "string option option"
  pt_title :: "string option"
  pt_description :: "string option option"
  pt_priority :: "int option"
  pt_estimated_cost_micros :: "int option option"
  pt_actual_cost_micros :: "int option option"
  pt_cost_currency :: "string option"

definition unwrap_or :: "'a option \<Rightarrow> 'a \<Rightarrow> 'a" where
  "unwrap_or o' a = (case o' of None \<Rightarrow> a | Some b \<Rightarrow> b)"

definition flat_negative :: "int option option \<Rightarrow> bool" where
  "flat_negative c \<longleftrightarrow> negative (unwrap_or c None)"

definition patched :: "millis \<Rightarrow> task_patch \<Rightarrow> task_row \<Rightarrow> task_row" where
  "patched now p c =
     c\<lparr>tk_session_id := unwrap_or (pt_session_id p) (tk_session_id c),
       tk_project_id := unwrap_or (pt_project_id p) (tk_project_id c),
       tk_parent_task_id := unwrap_or (pt_parent_task_id p) (tk_parent_task_id c),
       tk_worktree_id := unwrap_or (pt_worktree_id p) (tk_worktree_id c),
       tk_branch := unwrap_or (pt_branch p) (tk_branch c),
       tk_worktree_path := unwrap_or (pt_worktree_path p) (tk_worktree_path c),
       tk_agent := unwrap_or (pt_agent p) (tk_agent c),
       tk_provider := unwrap_or (pt_provider p) (tk_provider c),
       tk_title := unwrap_or (pt_title p) (tk_title c),
       tk_description := unwrap_or (pt_description p) (tk_description c),
       tk_priority := unwrap_or (pt_priority p) (tk_priority c),
       tk_estimated_cost_micros := unwrap_or (pt_estimated_cost_micros p) (tk_estimated_cost_micros c),
       tk_actual_cost_micros := unwrap_or (pt_actual_cost_micros p) (tk_actual_cost_micros c),
       tk_cost_currency := unwrap_or (pt_cost_currency p) (tk_cost_currency c),
       tk_updated_at := now\<rparr>"

definition validate_patch :: "uuid \<Rightarrow> task_patch \<Rightarrow> (storage_error, unit) outcome" where
  "validate_patch i p =
     (if pt_title p \<noteq> None \<and> trim (the (pt_title p)) = []
      then Inl (StorageValidation ''task title cannot be empty'')
      else if pt_parent_task_id p = Some (Some i)
      then Inl (StorageValidation ''a task cannot be its own parent'')
      else if flat_negative (pt_estimated_cost_micros p) \<or> flat_negative (pt_actual_cost_micros p)
      then Inl (StorageValidation ''task costs cannot be negative'')
      else if pt_cost_currency p \<noteq> None \<and> \<not> currency_ok (the (pt_cost_currency p))
      then Inl (StorageValidation ''cost currency must be a three-letter uppercase code'')
      else Inr ())"

definition update_task_tx :: "millis \<Rightarrow> uuid \<Rightarrow> task_patch \<Rightarrow> task_db \<Rightarrow> (sql_error, bool \<times> task_db) outcome" where
  "update_task_tx now i p d =
     (case find_task i d of
        None \<Rightarrow> Inr (False, d)
      | Some c \<Rightarrow>
          let c' = patched now p c in
          (case validate_task_relationships d i (tk_project_id c') (tk_session_id c')
                  (tk_parent_task_id c') (tk_worktree_id c') of
             Inl e \<Rightarrow> Inl e
           | Inr u \<Rightarrow>
               if \<not> project_exists (tk_project_id c') d then Inl (SqlConstraint ''FOREIGN KEY'')
               else Inr (True, d\<lparr>td_tasks := update_rows (\<lambda>t. tk_id t = i) (patched now p) (td_tasks d)\<rparr>)))"

definition update_task :: "millis \<Rightarrow> uuid \<Rightarrow> task_patch \<Rightarrow> task_db \<Rightarrow> (storage_error, bool) outcome \<times> task_db" where
  "update_task now i p d =
     (case validate_patch i p of
        Inl e \<Rightarrow> (Inl e, d)
      | Inr u \<Rightarrow> validated (update_task_tx now i p) d)"

text \<open>\<open>DELETE FROM tasks\<close> with its \<open>ON DELETE CASCADE\<close> and \<open>SET NULL\<close>.\<close>

definition delete_steps :: "(step_row \<Rightarrow> bool) \<Rightarrow> task_db \<Rightarrow> task_db" where
  "delete_steps p d =
     (let gone = map st_id (filter p (td_steps d))
      in d\<lparr>td_steps := delete_rows p (td_steps d),
           td_step_deps := delete_rows (\<lambda>r. dp_task_id r \<in> set gone \<or> dp_depends_on r \<in> set gone)
             (td_step_deps d)\<rparr>)"

definition delete_task :: "uuid \<Rightarrow> task_db \<Rightarrow> bool \<times> task_db" where
  "delete_task i d =
     (let runs = map vr_id (filter (\<lambda>r. vr_task_id r = i) (td_runs d));
          defs = map bd_id (filter (\<lambda>r. bd_task_id r = Some i) (td_browser_definitions d));
          d1 = delete_steps (\<lambda>s. st_task_id s = i) d
      in (find_task i d \<noteq> None,
          if find_task i d = None then d
          else d1\<lparr>td_tasks := update_rows (\<lambda>t. tk_parent_task_id t = Some i)
                    (\<lambda>t. t\<lparr>tk_parent_task_id := None\<rparr>) (delete_rows (\<lambda>t. tk_id t = i) (td_tasks d1)),
                  td_deps := delete_rows (\<lambda>r. dp_task_id r = i \<or> dp_depends_on r = i) (td_deps d1),
                  td_criteria := delete_rows (\<lambda>c. ac_task_id c = i) (td_criteria d1),
                  td_runs := update_rows (\<lambda>r. case vr_rerun_of_id r of None \<Rightarrow> False | Some k \<Rightarrow> k \<in> set runs)
                    (\<lambda>r. r\<lparr>vr_rerun_of_id := None\<rparr>) (delete_rows (\<lambda>r. vr_task_id r = i) (td_runs d1)),
                  td_gates := delete_rows (\<lambda>g. vg_run_id g \<in> set runs) (td_gates d1),
                  td_results := delete_rows (\<lambda>t. vt_run_id t \<in> set runs) (td_results d1),
                  td_artifacts := delete_rows (\<lambda>a. va_run_id a \<in> set runs) (td_artifacts d1),
                  td_browser_definitions := delete_rows (\<lambda>r. bd_task_id r = Some i) (td_browser_definitions d1),
                  td_browser_runs := delete_rows (\<lambda>r. br_task_id r = i \<or> br_definition_id r \<in> set defs)
                    (td_browser_runs d1)\<rparr>))"

subsection \<open>The completion gate\<close>

text \<open>\<open>ORDER BY created_at DESC, id DESC LIMIT 1\<close>.\<close>

definition latest_run :: "uuid \<Rightarrow> task_db \<Rightarrow> verification_run_row option" where
  "latest_run task_id d =
     (case sort_key (\<lambda>r. - vr_created_at r) (sort_key (\<lambda>r. - int (vr_id r))
             (filter (\<lambda>r. vr_task_id r = task_id) (td_runs d))) of
        [] \<Rightarrow> None | r # _ \<Rightarrow> Some r)"

definition latest_browser_run :: "uuid \<Rightarrow> uuid \<Rightarrow> task_db \<Rightarrow> browser_run_row option" where
  "latest_browser_run definition_id task_id d =
     (case sort_key (\<lambda>r. - br_created_at r) (sort_key (\<lambda>r. - int (br_id r))
             (filter (\<lambda>r. br_definition_id r = definition_id \<and> br_task_id r = task_id)
               (td_browser_runs d))) of
        [] \<Rightarrow> None | r # _ \<Rightarrow> Some r)"

definition step_open :: "uuid \<Rightarrow> step_row \<Rightarrow> bool" where
  "step_open i s \<longleftrightarrow> st_task_id s = i \<and> st_status s \<notin> {''completed'', ''skipped''}"

definition dependency_unmet :: "task_db \<Rightarrow> uuid \<Rightarrow> dependency_row \<Rightarrow> bool" where
  "dependency_unmet d i r \<longleftrightarrow> dp_task_id r = i \<and>
     (\<exists>t \<in> set (td_tasks d). tk_id t = dp_depends_on r \<and> \<not> is_completed (tk_status t))"

definition criterion_open :: "uuid \<Rightarrow> criterion \<Rightarrow> bool" where
  "criterion_open i c \<longleftrightarrow> ac_task_id c = i \<and> ac_is_required c
     \<and> ac_status c \<notin> {''passed'', ''overridden''}"

definition gate_open :: "task_db \<Rightarrow> uuid \<Rightarrow> verification_gate_row \<Rightarrow> bool" where
  "gate_open d i g \<longleftrightarrow>
     (\<exists>r \<in> set (td_runs d). vr_id r = vg_run_id g
        \<and> map_option vr_id (latest_run i d) = Some (vr_id r)
        \<and> vg_is_required g \<and> (vr_status r \<noteq> ''passed'' \<or> vg_status g \<noteq> ''passed''))"

definition browser_definition_open :: "task_db \<Rightarrow> uuid \<Rightarrow> browser_definition_row \<Rightarrow> bool" where
  "browser_definition_open d i b \<longleftrightarrow>
     (\<exists>t \<in> set (td_tasks d). tk_id t = i \<and> tk_project_id t = Some (bd_project_id b))
     \<and> bd_status b = ''active'' \<and> bd_is_required b
     \<and> (bd_task_id b = None \<or> bd_task_id b = Some i)
     \<and> \<not> (\<exists>r \<in> set (td_browser_runs d). br_definition_id r = bd_id b \<and> br_task_id r = i
            \<and> map_option br_id (latest_browser_run (bd_id b) i d) = Some (br_id r)
            \<and> br_status r \<in> {''passed'', ''approved''}
            \<and> br_blocking_failures r = 0 \<and> br_critical_accessibility r = 0)"

definition browser_run_open :: "task_db \<Rightarrow> uuid \<Rightarrow> browser_run_row \<Rightarrow> bool" where
  "browser_run_open d i r \<longleftrightarrow> br_task_id r = i
     \<and> map_option br_id (latest_browser_run (br_definition_id r) i d) = Some (br_id r)
     \<and> (0 < br_blocking_failures r \<or> 0 < br_critical_accessibility r)"

text \<open>The \<open>EXISTS .. OR EXISTS ..\<close> of the gate, and the six lists shown to the user.\<close>

definition has_completion_blockers :: "task_db \<Rightarrow> uuid \<Rightarrow> bool" where
  "has_completion_blockers d i \<longleftrightarrow>
     (\<exists>s \<in> set (td_steps d). step_open i s)
     \<or> (\<exists>r \<in> set (td_deps d). dependency_unmet d i r)
     \<or> (\<exists>c \<in> set (td_criteria d). criterion_open i c)
     \<or> (\<exists>g \<in> set (td_gates d). gate_open d i g)
     \<or> (\<exists>b \<in> set (td_browser_definitions d). browser_definition_open d i b)
     \<or> (\<exists>r \<in> set (td_browser_runs d). browser_run_open d i r)"

record blocker_report =
  cb_incomplete_step_ids :: "uuid list"
  cb_unmet_dependency_ids :: "uuid list"
  cb_unsatisfied_criterion_ids :: "uuid list"
  cb_verification_gate_ids :: "uuid list"
  cb_browser_definition_ids :: "uuid list"
  cb_browser_run_ids :: "uuid list"

definition completion_blockers :: "uuid \<Rightarrow> task_db \<Rightarrow> blocker_report" where
  "completion_blockers i d =
     \<lparr>cb_incomplete_step_ids =
        map st_id (sort_key st_sequence (filter (step_open i) (td_steps d))),
      cb_unmet_dependency_ids =
        map dp_depends_on (sort_key dp_created_at (filter (dependency_unmet d i) (td_deps d))),
      cb_unsatisfied_criterion_ids =
        map ac_id (sort_key ac_sort_order (sort_key ac_updated_at
          (filter (criterion_open i) (td_criteria d)))),
      cb_verification_gate_ids =
        map vg_id (sort_key vg_gate_kind (sort_key vg_command_key
          (filter (gate_open d i) (td_gates d)))),
      cb_browser_definition_ids =
        map bd_id (sort_key bd_name (sort_key bd_id
          (filter (browser_definition_open d i) (td_browser_definitions d)))),
      cb_browser_run_ids =
        map br_id (sort_key br_created_at (sort_key br_id
          (filter (browser_run_open d i) (td_browser_runs d))))\<rparr>"

definition blockers_is_empty :: "blocker_report \<Rightarrow> bool" where
  "blockers_is_empty b \<longleftrightarrow> cb_incomplete_step_ids b = [] \<and> cb_unmet_dependency_ids b = []
     \<and> cb_unsatisfied_criterion_ids b = [] \<and> cb_verification_gate_ids b = []
     \<and> cb_browser_definition_ids b = [] \<and> cb_browser_run_ids b = []"

definition set_status_row :: "millis \<Rightarrow> string \<Rightarrow> task_row \<Rightarrow> task_row" where
  "set_status_row now status t =
     t\<lparr>tk_status := status, tk_updated_at := now,
       tk_started_at := (if status = ''in_progress''
         then (case tk_started_at t of None \<Rightarrow> Some now | Some s \<Rightarrow> Some s) else tk_started_at t),
       tk_completed_at := (if is_completed status then Some now else None)\<rparr>"

definition set_task_status_tx :: "millis \<Rightarrow> uuid \<Rightarrow> string \<Rightarrow> task_db \<Rightarrow> (sql_error, bool \<times> task_db) outcome" where
  "set_task_status_tx now i status d =
     (if is_completed status \<and> has_completion_blockers d i
      then Inl (validation_error ''task cannot complete while plan steps, dependencies, acceptance criteria, verification gates, or required browser verification are unsatisfied'')
      else Inr (0 < count_rows (\<lambda>t. tk_id t = i) (td_tasks d),
                d\<lparr>td_tasks := update_rows (\<lambda>t. tk_id t = i) (set_status_row now status) (td_tasks d)\<rparr>))"

definition set_task_status :: "millis \<Rightarrow> uuid \<Rightarrow> string \<Rightarrow> task_db \<Rightarrow> (storage_error, bool) outcome \<times> task_db" where
  "set_task_status now i status d =
     (case validate_status status TASK_STATUSES ''task'' of
        Inl e \<Rightarrow> (Inl e, d)
      | Inr u \<Rightarrow> validated (set_task_status_tx now i status) d)"

text \<open>A task that is changed after completion goes back to review.\<close>

definition reopen_terminal :: "millis \<Rightarrow> uuid \<Rightarrow> task_db \<Rightarrow> bool \<times> task_db" where
  "reopen_terminal now i d =
     (let p = (\<lambda>t. tk_id t = i \<and> is_completed (tk_status t))
      in (0 < count_rows p (td_tasks d),
          d\<lparr>td_tasks := update_rows p
              (\<lambda>t. t\<lparr>tk_status := ''review'', tk_completed_at := None, tk_updated_at := now\<rparr>)
              (td_tasks d)\<rparr>))"

subsection \<open>Dependencies\<close>

record 'a task_mutation =
  mu_task_id :: uuid
  mu_reopened :: bool
  mu_value :: 'a

definition dependencies :: "uuid \<Rightarrow> task_db \<Rightarrow> uuid list" where
  "dependencies i d = map dp_depends_on
     (sort_key dp_created_at (sort_key dp_depends_on (filter (\<lambda>r. dp_task_id r = i) (td_deps d))))"

fun insert_dependencies ::
    "externals \<Rightarrow> millis \<Rightarrow> uuid \<Rightarrow> uuid option \<Rightarrow> uuid list \<Rightarrow> task_db \<Rightarrow> (sql_error, task_db) outcome" where
  "insert_dependencies x now i project [] d = Inr d"
| "insert_dependencies x now i project (a # as) d =
     (case find_task a d of
        None \<Rightarrow> Inl (validation_error (''dependency task '' @ quoted (uuid_text x a) @ '' does not exist''))
      | Some t \<Rightarrow>
          if tk_project_id t \<noteq> project
          then Inl (validation_error ''task dependencies must belong to the same project'')
          else if i \<in> set (ancestors (dep_edges d) a)
          then Inl (validation_error ''task dependency cycle detected'')
          else insert_dependencies x now i project as
                 (d\<lparr>td_deps := td_deps d @ [\<lparr>dp_task_id = i, dp_depends_on = a, dp_created_at = now\<rparr>]\<rparr>))"

definition replace_dependencies_tx ::
    "externals \<Rightarrow> millis \<Rightarrow> uuid \<Rightarrow> uuid list \<Rightarrow> task_db \<Rightarrow> (sql_error, unit task_mutation \<times> task_db) outcome" where
  "replace_dependencies_tx x now i ids d =
     (case find_task i d of
        None \<Rightarrow> Inl (validation_error ''task does not exist'')
      | Some t \<Rightarrow>
          (case insert_dependencies x now i (tk_project_id t) ids
                  (d\<lparr>td_deps := delete_rows (\<lambda>r. dp_task_id r = i) (td_deps d)\<rparr>) of
             Inl e \<Rightarrow> Inl e
           | Inr d1 \<Rightarrow>
               let (reopened, d2) = reopen_terminal now i d1
               in Inr (\<lparr>mu_task_id = i, mu_reopened = reopened, mu_value = ()\<rparr>, d2)))"

definition replace_dependencies ::
    "externals \<Rightarrow> millis \<Rightarrow> uuid \<Rightarrow> uuid list \<Rightarrow> task_db \<Rightarrow> (storage_error, unit task_mutation) outcome \<times> task_db" where
  "replace_dependencies x now i ids d =
     (if i \<in> set ids then (Inl (StorageValidation ''a task cannot depend on itself''), d)
      else if \<not> distinct ids then (Inl (StorageValidation ''task dependencies must be unique''), d)
      else validated (replace_dependencies_tx x now i ids) d)"

subsection \<open>Plans\<close>

record task_step =
  ts_id :: uuid
  ts_task_id :: uuid
  ts_sequence :: int
  ts_title :: string
  ts_description :: "string option"
  ts_status :: string
  ts_dependency_ids :: "uuid list"
  ts_updated_at :: millis

record plan_step_draft =
  dr_id :: uuid
  dr_title :: string
  dr_description :: "string option"
  dr_status :: string
  dr_dependency_ids :: "uuid list"

definition plan :: "uuid \<Rightarrow> task_db \<Rightarrow> task_step list" where
  "plan i d = map (\<lambda>s. \<lparr>ts_id = st_id s, ts_task_id = st_task_id s, ts_sequence = st_sequence s,
       ts_title = st_title s, ts_description = st_description s, ts_status = st_status s,
       ts_dependency_ids = map dp_depends_on (sort_key dp_created_at (sort_key dp_depends_on
         (filter (\<lambda>r. dp_task_id r = st_id s) (td_step_deps d)))),
       ts_updated_at = st_updated_at s\<rparr>)
     (sort_key st_sequence (filter (\<lambda>s. st_task_id s = i) (td_steps d)))"

text \<open>\<open>position\<close> of the first draft with an id.\<close>

fun position :: "uuid \<Rightarrow> plan_step_draft list \<Rightarrow> nat option" where
  "position i [] = None"
| "position i (s # ss) = (if dr_id s = i then Some 0 else map_option Suc (position i ss))"

definition draft_error :: "plan_step_draft list \<Rightarrow> nat \<times> plan_step_draft \<Rightarrow> storage_error option" where
  "draft_error steps is =
     (let (index, step) = is in
      if trim (dr_title step) = [] then Some (StorageValidation ''plan step title cannot be empty'')
      else case validate_status (dr_status step) STEP_STATUSES ''plan step'' of
        Inl e \<Rightarrow> Some e
      | Inr u \<Rightarrow>
          if \<not> distinct (dr_dependency_ids step) \<or> dr_id step \<in> set (dr_dependency_ids step)
             \<or> (\<exists>i \<in> set (dr_dependency_ids step). i \<notin> dr_id ` set steps)
          then Some (StorageValidation ''plan step dependencies must be unique IDs from the same plan'')
          else if \<exists>i \<in> set (dr_dependency_ids step).
                    (case position i steps of None \<Rightarrow> False | Some p \<Rightarrow> index \<le> p)
          then Some (StorageValidation ''plan steps may only depend on earlier steps'')
          else None)"

definition validate_plan :: "plan_step_draft list \<Rightarrow> (storage_error, unit) outcome" where
  "validate_plan steps =
     (if \<not> distinct (map dr_id steps) then Inl (StorageValidation ''plan step IDs must be unique'')
      else case List.map_filter (draft_error steps) (enumerate 0 steps) of
        [] \<Rightarrow> Inr () | e # _ \<Rightarrow> Inl e)"

fun insert_steps ::
    "millis \<Rightarrow> uuid \<Rightarrow> (nat \<times> plan_step_draft) list \<Rightarrow> task_db \<Rightarrow> (sql_error, task_db) outcome" where
  "insert_steps now i [] d = Inr d"
| "insert_steps now i ((n, s) # ss) d =
     (if \<exists>r \<in> set (td_steps d). st_id r = dr_id s then Inl (SqlConstraint ''task_steps.id'')
      else insert_steps now i ss (d\<lparr>td_steps := td_steps d @
        [\<lparr>st_id = dr_id s, st_task_id = i, st_sequence = int n + 1, st_title = trim (dr_title s),
          st_description = dr_description s, st_status = dr_status s, st_updated_at = now\<rparr>]\<rparr>))"

definition step_dep_rows :: "millis \<Rightarrow> plan_step_draft list \<Rightarrow> dependency_row list" where
  "step_dep_rows now steps = concat (map (\<lambda>s. map (\<lambda>a. \<lparr>dp_task_id = dr_id s, dp_depends_on = a,
      dp_created_at = now\<rparr>) (dr_dependency_ids s)) steps)"

definition replace_plan_tx ::
    "millis \<Rightarrow> uuid \<Rightarrow> plan_step_draft list \<Rightarrow> task_db \<Rightarrow> (sql_error, bool \<times> task_db) outcome" where
  "replace_plan_tx now i steps d =
     (if find_task i d = None then Inl (validation_error ''task does not exist'')
      else case insert_steps now i (enumerate 0 steps) (delete_steps (\<lambda>s. st_task_id s = i) d) of
        Inl e \<Rightarrow> Inl e
      | Inr d1 \<Rightarrow>
          let d2 = d1\<lparr>td_step_deps := td_step_deps d1 @ step_dep_rows now steps\<rparr>;
              (reopened, d3) = reopen_terminal now i d2
          in Inr (reopened, d3\<lparr>td_tasks := update_rows (\<lambda>t. tk_id t = i)
                (\<lambda>t. t\<lparr>tk_updated_at := now\<rparr>) (td_tasks d3)\<rparr>))"

definition replace_plan ::
    "millis \<Rightarrow> uuid \<Rightarrow> plan_step_draft list \<Rightarrow> task_db
      \<Rightarrow> (storage_error, task_step list task_mutation) outcome \<times> task_db" where
  "replace_plan now i steps d =
     (case validate_plan steps of
        Inl e \<Rightarrow> (Inl e, d)
      | Inr u \<Rightarrow>
          (let (r, d') = validated (replace_plan_tx now i steps) d
           in (map_outcome (\<lambda>reopened. \<lparr>mu_task_id = i, mu_reopened = reopened, mu_value = plan i d'\<rparr>) r, d')))"

subsection \<open>Acceptance criteria\<close>

text \<open>The \<open>Serialize\<close> of a criterion, in camel case.\<close>

definition criterion_json :: "externals \<Rightarrow> criterion \<Rightarrow> json" where
  "criterion_json x c = JObj
     [(''id'', json_uuid x (ac_id c)), (''taskId'', json_uuid x (ac_task_id c)),
      (''description'', JStr (ac_description c)), (''status'', JStr (ac_status c)),
      (''evidence'', JArr (ac_evidence c)), (''sortOrder'', json_int (ac_sort_order c)),
      (''isRequired'', JBool (ac_is_required c)), (''evaluatedAt'', json_opt json_int (ac_evaluated_at c)),
      (''overrideReason'', json_opt JStr (ac_override_reason c)),
      (''overriddenBy'', json_opt JStr (ac_overridden_by c)),
      (''overriddenAt'', json_opt json_int (ac_overridden_at c)),
      (''updatedAt'', json_int (ac_updated_at c))]"

definition json_snapshot :: "externals \<Rightarrow> criterion \<Rightarrow> json" where
  "json_snapshot x c = JObj [(''criterion'', criterion_json x c)]"

definition json_before_after :: "externals \<Rightarrow> criterion \<Rightarrow> criterion \<Rightarrow> json" where
  "json_before_after x before after =
     JObj [(''before'', criterion_json x before), (''after'', criterion_json x after)]"

definition criteria :: "uuid \<Rightarrow> task_db \<Rightarrow> criterion list" where
  "criteria i d = sort_key ac_sort_order (sort_key ac_updated_at (sort_key ac_id
     (filter (\<lambda>c. ac_task_id c = i) (td_criteria d))))"

definition get_criterion :: "uuid \<Rightarrow> task_db \<Rightarrow> criterion option" where
  "get_criterion i d = find (\<lambda>c. ac_id c = i) (td_criteria d)"

text \<open>An \<open>INTEGER PRIMARY KEY\<close> is one more than the largest.\<close>

definition record_criterion_event ::
    "millis \<Rightarrow> criterion \<Rightarrow> string \<Rightarrow> string \<Rightarrow> json \<Rightarrow> task_db \<Rightarrow> task_db" where
  "record_criterion_event now c kind actor payload d =
     d\<lparr>td_criterion_events := td_criterion_events d @
        [\<lparr>ce_id = foldl max 0 (map ce_id (td_criterion_events d)) + 1, ce_criterion_id = ac_id c,
          ce_task_id = ac_task_id c, ce_kind = kind, ce_actor = trim actor, ce_payload = payload,
          ce_created_at = now\<rparr>]\<rparr>"

definition criterion_history :: "uuid \<Rightarrow> task_db \<Rightarrow> criterion_event list" where
  "criterion_history i d = sort_key ce_id (filter (\<lambda>e. ce_criterion_id e = i) (td_criterion_events d))"

definition validate_actor :: "string \<Rightarrow> (storage_error, unit) outcome" where
  "validate_actor actor =
     (if trim actor = [] then Inl (StorageValidation ''audit actor cannot be empty'') else Inr ())"

record new_criterion =
  nc_id :: uuid
  nc_task_id :: uuid
  nc_description :: string
  nc_sort_order :: int
  nc_is_required :: bool

definition new_criterion_row :: "millis \<Rightarrow> new_criterion \<Rightarrow> criterion" where
  "new_criterion_row now c =
     \<lparr>ac_id = nc_id c, ac_task_id = nc_task_id c, ac_description = trim (nc_description c),
      ac_status = ''pending'', ac_evidence = [], ac_sort_order = nc_sort_order c,
      ac_is_required = nc_is_required c, ac_evaluated_at = None, ac_override_reason = None,
      ac_overridden_by = None, ac_overridden_at = None, ac_updated_at = now\<rparr>"

definition create_criterion ::
    "externals \<Rightarrow> millis \<Rightarrow> new_criterion \<Rightarrow> string \<Rightarrow> task_db
      \<Rightarrow> (storage_error, criterion task_mutation) outcome \<times> task_db" where
  "create_criterion x now c actor d =
     (if trim (nc_description c) = []
      then (Inl (StorageValidation ''acceptance criterion description cannot be empty''), d)
      else case validate_actor actor of
        Inl e \<Rightarrow> (Inl e, d)
      | Inr u \<Rightarrow>
          let row = new_criterion_row now c;
              (r, d') = transaction (\<lambda>d.
                if get_criterion (nc_id c) d \<noteq> None then Inl (SqlConstraint ''acceptance_criteria.id'')
                else if find_task (nc_task_id c) d = None then Inl (SqlConstraint ''FOREIGN KEY'')
                else Inr (reopen_terminal now (nc_task_id c)
                       (record_criterion_event now row ''created'' actor (json_snapshot x row)
                         (d\<lparr>td_criteria := td_criteria d @ [row]\<rparr>)))) d
          in (map_outcome (\<lambda>reopened. \<lparr>mu_task_id = nc_task_id c, mu_reopened = reopened, mu_value = row\<rparr>) r, d'))"

text \<open>
  What the five operations on an existing criterion share: look it up, update its row, read it
  back, record the event and, except for evidence alone, reopen its task.
\<close>

definition change_criterion ::
    "externals \<Rightarrow> millis \<Rightarrow> uuid \<Rightarrow> (criterion \<Rightarrow> criterion) \<Rightarrow> string \<Rightarrow> string \<Rightarrow> bool \<Rightarrow> task_db
      \<Rightarrow> (storage_error, criterion task_mutation option) outcome \<times> task_db" where
  "change_criterion x now i f kind actor reopens =
     transaction (\<lambda>d.
       case get_criterion i d of
         None \<Rightarrow> Inr (None, d)
       | Some before \<Rightarrow>
           let d1 = d\<lparr>td_criteria := update_rows (\<lambda>c. ac_id c = i) f (td_criteria d)\<rparr> in
           (case get_criterion i d1 of
              None \<Rightarrow> Inl SqlNoRows
            | Some after \<Rightarrow>
                let d2 = record_criterion_event now after kind actor (json_before_after x before after) d1;
                    (reopened, d3) = (if reopens then reopen_terminal now (ac_task_id after) d2 else (False, d2))
                in Inr (Some \<lparr>mu_task_id = ac_task_id after, mu_reopened = reopened, mu_value = after\<rparr>, d3)))"

definition update_criterion ::
    "externals \<Rightarrow> millis \<Rightarrow> uuid \<Rightarrow> string option \<Rightarrow> int option \<Rightarrow> bool option \<Rightarrow> string \<Rightarrow> task_db
      \<Rightarrow> (storage_error, criterion task_mutation option) outcome \<times> task_db" where
  "update_criterion x now i description sort_order is_required actor d =
     (if description \<noteq> None \<and> trim (the description) = []
      then (Inl (StorageValidation ''acceptance criterion description cannot be empty''), d)
      else case validate_actor actor of
        Inl e \<Rightarrow> (Inl e, d)
      | Inr u \<Rightarrow> change_criterion x now i
          (\<lambda>c. c\<lparr>ac_description := unwrap_or (map_option trim description) (ac_description c),
                ac_sort_order := unwrap_or sort_order (ac_sort_order c),
                ac_is_required := unwrap_or is_required (ac_is_required c),
                ac_updated_at := now\<rparr>) ''updated'' actor True d)"

definition delete_criterion ::
    "externals \<Rightarrow> millis \<Rightarrow> uuid \<Rightarrow> string \<Rightarrow> task_db
      \<Rightarrow> (storage_error, criterion task_mutation option) outcome \<times> task_db" where
  "delete_criterion x now i actor d =
     (case validate_actor actor of
        Inl e \<Rightarrow> (Inl e, d)
      | Inr u \<Rightarrow>
          transaction (\<lambda>d.
            case get_criterion i d of
              None \<Rightarrow> Inr (None, d)
            | Some before \<Rightarrow>
                let d1 = record_criterion_event now before ''deleted'' actor (json_snapshot x before) d;
                    d2 = d1\<lparr>td_criteria := delete_rows (\<lambda>c. ac_id c = i) (td_criteria d1)\<rparr>;
                    (reopened, d3) = reopen_terminal now (ac_task_id before) d2
                in Inr (Some \<lparr>mu_task_id = ac_task_id before, mu_reopened = reopened, mu_value = before\<rparr>, d3)) d)"

definition add_evidence ::
    "externals \<Rightarrow> millis \<Rightarrow> uuid \<Rightarrow> json \<Rightarrow> string \<Rightarrow> task_db
      \<Rightarrow> (storage_error, criterion task_mutation option) outcome \<times> task_db" where
  "add_evidence x now i evidence actor d =
     (case validate_actor actor of
        Inl e \<Rightarrow> (Inl e, d)
      | Inr u \<Rightarrow> change_criterion x now i
          (\<lambda>c. c\<lparr>ac_evidence := ac_evidence c @ [evidence], ac_updated_at := now\<rparr>)
          ''evidence_added'' actor False d)"

definition evaluate_criterion ::
    "externals \<Rightarrow> millis \<Rightarrow> uuid \<Rightarrow> bool \<Rightarrow> json option \<Rightarrow> string \<Rightarrow> task_db
      \<Rightarrow> (storage_error, criterion task_mutation option) outcome \<times> task_db" where
  "evaluate_criterion x now i passed evidence actor d =
     (case validate_actor actor of
        Inl e \<Rightarrow> (Inl e, d)
      | Inr u \<Rightarrow> change_criterion x now i
          (\<lambda>c. c\<lparr>ac_evidence := (case evidence of None \<Rightarrow> ac_evidence c | Some v \<Rightarrow> ac_evidence c @ [v]),
                ac_status := (if passed then ''passed'' else ''failed''),
                ac_evaluated_at := Some now, ac_override_reason := None,
                ac_overridden_by := None, ac_overridden_at := None, ac_updated_at := now\<rparr>)
          ''evaluated'' actor True d)"

definition override_criterion ::
    "externals \<Rightarrow> millis \<Rightarrow> uuid \<Rightarrow> string \<Rightarrow> string \<Rightarrow> task_db
      \<Rightarrow> (storage_error, criterion task_mutation option) outcome \<times> task_db" where
  "override_criterion x now i reason actor d =
     (if trim reason = [] \<or> trim actor = []
      then (Inl (StorageValidation ''acceptance override requires a reason and actor''), d)
      else change_criterion x now i
          (\<lambda>c. c\<lparr>ac_status := ''overridden'', ac_override_reason := Some (trim reason),
                ac_overridden_by := Some (trim actor), ac_overridden_at := Some now,
                ac_updated_at := now\<rparr>) ''overridden'' actor True d)"

subsection \<open>Reading a task\<close>

record task_details =
  de_task :: task_row
  de_dependency_ids :: "uuid list"
  de_steps :: "task_step list"
  de_acceptance_criteria :: "criterion list"
  de_completion_blockers :: blocker_report

definition get_details :: "uuid \<Rightarrow> task_db \<Rightarrow> task_details option" where
  "get_details i d = map_option (\<lambda>t. \<lparr>de_task = t, de_dependency_ids = dependencies i d,
     de_steps = plan i d, de_acceptance_criteria = criteria i d,
     de_completion_blockers = completion_blockers i d\<rparr>) (find_task i d)"

definition list_tasks :: "uuid option \<Rightarrow> uuid option \<Rightarrow> string option \<Rightarrow> task_db \<Rightarrow> task_row list" where
  "list_tasks project session status d =
     sort_key (\<lambda>t. - tk_priority t) (sort_key (\<lambda>t. - tk_updated_at t) (sort_key tk_id
       (filter (\<lambda>t. (project = None \<or> tk_project_id t = project)
                  \<and> (session = None \<or> tk_session_id t = session)
                  \<and> (case status of None \<Rightarrow> True | Some s \<Rightarrow> tk_status t = s)) (td_tasks d))))"

subsection \<open>Operations as one type\<close>

text \<open>\<open>OpVerification\<close> stands for the components that write the verification tables.\<close>

datatype task_op =
    OpCreate millis new_task | OpUpdate millis uuid task_patch | OpDelete uuid
  | OpStatus millis uuid string | OpDependencies millis uuid "uuid list"
  | OpPlan millis uuid "plan_step_draft list" | OpCriterion millis new_criterion string
  | OpUpdateCriterion millis uuid "string option" "int option" "bool option" string
  | OpDeleteCriterion millis uuid string | OpEvidence millis uuid json string
  | OpEvaluate millis uuid bool "json option" string | OpOverride millis uuid string string
  | OpVerification "verification_run_row list" "verification_gate_row list"
      "browser_definition_row list" "browser_run_row list"

fun task_step_fn :: "externals \<Rightarrow> task_op \<Rightarrow> task_db \<Rightarrow> task_db" where
  "task_step_fn x (OpCreate now t) d = snd (tasks_create now t d)"
| "task_step_fn x (OpUpdate now i p) d = snd (update_task now i p d)"
| "task_step_fn x (OpDelete i) d = snd (delete_task i d)"
| "task_step_fn x (OpStatus now i s) d = snd (set_task_status now i s d)"
| "task_step_fn x (OpDependencies now i ids) d = snd (replace_dependencies x now i ids d)"
| "task_step_fn x (OpPlan now i steps) d = snd (replace_plan now i steps d)"
| "task_step_fn x (OpCriterion now c a) d = snd (create_criterion x now c a d)"
| "task_step_fn x (OpUpdateCriterion now i de so rq a) d = snd (update_criterion x now i de so rq a d)"
| "task_step_fn x (OpDeleteCriterion now i a) d = snd (delete_criterion x now i a d)"
| "task_step_fn x (OpEvidence now i v a) d = snd (add_evidence x now i v a d)"
| "task_step_fn x (OpEvaluate now i p v a) d = snd (evaluate_criterion x now i p v a d)"
| "task_step_fn x (OpOverride now i r a) d = snd (override_criterion x now i r a d)"
| "task_step_fn x (OpVerification rs gs ds bs) d =
     d\<lparr>td_runs := rs, td_gates := gs, td_browser_definitions := ds, td_browser_runs := bs\<rparr>"

end
