(* ===== verification/Verification.thy ===== *)
theory Verification
  imports TaskPlanning
begin

text \<open>
  \<open>crates/retcon-storage/src/verification.rs\<close> and the part of \<open>recovery.rs\<close> that touches
  its tables: the verification commands of a project, the runs of a task with one gate per command,
  the results, artifacts and events recorded for them. A run starts queued, is started, collects
  one result per gate, and is finished or cancelled; whatever leaves a required gate unpassed
  sends a completed task back to review. One clock reading per call; the fresh identifiers of a
  call are arguments.
\<close>

definition GATE_KINDS :: "string list" where
  "GATE_KINDS = [''test'', ''build'', ''browser'', ''accessibility'', ''security'', ''git'', ''custom'']"

definition GATE_RESULTS :: "string list" where
  "GATE_RESULTS = [''passed'', ''failed'', ''skipped'', ''error'']"

subsection \<open>Inputs and their checks\<close>

record new_verification_command =
  nv_id :: uuid
  nv_key :: string
  nv_kind :: string
  nv_command :: string
  nv_cwd :: "string option"
  nv_required :: bool
  nv_enabled :: bool
  nv_timeout_ms :: "int option"

record new_test_result =
  nt_id :: uuid
  nt_suite :: "string option"
  nt_name :: string
  nt_status :: string
  nt_duration_ms :: "int option"
  nt_file_path :: "string option"
  nt_line :: "int option"
  nt_message :: "string option"
  nt_metadata :: json

record new_artifact =
  nf_id :: uuid
  nf_kind :: string
  nf_hash :: string
  nf_size_bytes :: int
  nf_metadata :: json

definition validate_verification_actor :: "string \<Rightarrow> (storage_error, unit) outcome" where
  "validate_verification_actor actor =
     (if trim actor = [] then Inl (StorageValidation ''verification actor cannot be empty'') else Inr ())"

definition validate_gate_kind :: "string \<Rightarrow> (storage_error, unit) outcome" where
  "validate_gate_kind kind =
     (if kind \<in> set GATE_KINDS then Inr ()
      else Inl (StorageValidation (''invalid verification gate kind '' @ quoted kind)))"

text \<open>The loop over the commands, with the keys seen so far.\<close>

fun validate_commands_from ::
    "string list \<Rightarrow> new_verification_command list \<Rightarrow> (storage_error, unit) outcome" where
  "validate_commands_from keys [] = Inr ()"
| "validate_commands_from keys (c # cs) =
     (if trim (nv_key c) = [] \<or> trim (nv_command c) = []
      then Inl (StorageValidation ''verification command key and command cannot be empty'')
      else if trim (nv_key c) \<in> set keys
      then Inl (StorageValidation ''verification command keys must be unique per project'')
      else case validate_gate_kind (nv_kind c) of
        Inl e \<Rightarrow> Inl e
      | Inr u \<Rightarrow>
          if (case nv_timeout_ms c of None \<Rightarrow> False | Some t \<Rightarrow> t \<le> 0)
          then Inl (StorageValidation ''verification command timeout must be positive'')
          else validate_commands_from (trim (nv_key c) # keys) cs)"

definition validate_commands :: "new_verification_command list \<Rightarrow> (storage_error, unit) outcome" where
  "validate_commands cs = validate_commands_from [] cs"

fun validate_results :: "new_test_result list \<Rightarrow> (storage_error, unit) outcome" where
  "validate_results [] = Inr ()"
| "validate_results (r # rs) =
     (if trim (nt_name r) = [] then Inl (StorageValidation ''verification result name cannot be empty'')
      else if nt_status r \<notin> {''passed'', ''failed'', ''skipped'', ''error''}
      then Inl (StorageValidation (''invalid verification result status '' @ quoted (nt_status r)))
      else if (case nt_duration_ms r of None \<Rightarrow> False | Some d \<Rightarrow> d < 0)
        \<or> (case nt_line r of None \<Rightarrow> False | Some l \<Rightarrow> l \<le> 0)
      then Inl (StorageValidation ''verification result duration and line must be non-negative/positive'')
      else validate_results rs)"

subsection \<open>Commands of a project\<close>

definition command_row :: "millis \<Rightarrow> uuid \<Rightarrow> new_verification_command \<Rightarrow> verification_command" where
  "command_row now project c =
     \<lparr>vc_id = nv_id c, vc_project_id = project, vc_key = trim (nv_key c), vc_kind = nv_kind c,
      vc_command = trim (nv_command c), vc_cwd = nv_cwd c, vc_required = nv_required c,
      vc_enabled = nv_enabled c, vc_timeout_ms = nv_timeout_ms c, vc_updated_at = now\<rparr>"

fun insert_commands ::
    "millis \<Rightarrow> uuid \<Rightarrow> new_verification_command list \<Rightarrow> task_db \<Rightarrow> (sql_error, task_db) outcome" where
  "insert_commands now project [] d = Inr d"
| "insert_commands now project (c # cs) d =
     (let row = command_row now project c in
      if \<exists>r \<in> set (td_commands d). vc_id r = vc_id row
      then Inl (SqlConstraint ''project_verification_commands.id'')
      else if \<exists>r \<in> set (td_commands d). vc_project_id r = project \<and> vc_key r = vc_key row
      then Inl (SqlConstraint ''project_verification_commands.command_key'')
      else insert_commands now project cs (d\<lparr>td_commands := td_commands d @ [row]\<rparr>))"

text \<open>\<open>DELETE FROM project_verification_commands\<close>: the gates made from them lose the reference.\<close>

definition delete_commands :: "uuid \<Rightarrow> task_db \<Rightarrow> task_db" where
  "delete_commands project d =
     (let gone = map vc_id (filter (\<lambda>c. vc_project_id c = project) (td_commands d))
      in d\<lparr>td_commands := delete_rows (\<lambda>c. vc_project_id c = project) (td_commands d),
           td_gates := update_rows (\<lambda>g. case vg_command_id g of None \<Rightarrow> False | Some c \<Rightarrow> c \<in> set gone)
             (\<lambda>g. g\<lparr>vg_command_id := None\<rparr>) (td_gates d)\<rparr>)"

definition commands_list :: "uuid \<Rightarrow> task_db \<Rightarrow> verification_command list" where
  "commands_list project d =
     sort_key vc_kind (sort_key vc_key (filter (\<lambda>c. vc_project_id c = project) (td_commands d)))"

definition replace_commands_tx ::
    "millis \<Rightarrow> uuid \<Rightarrow> new_verification_command list \<Rightarrow> task_db \<Rightarrow> (sql_error, unit \<times> task_db) outcome" where
  "replace_commands_tx now project cs d =
     (if \<not> project_exists (Some project) d then Inl (validation_error ''project does not exist'')
      else map_outcome (\<lambda>d'. ((), d')) (insert_commands now project cs (delete_commands project d)))"

definition replace_commands ::
    "millis \<Rightarrow> uuid \<Rightarrow> new_verification_command list \<Rightarrow> task_db
      \<Rightarrow> (storage_error, verification_command list) outcome \<times> task_db" where
  "replace_commands now project cs d =
     checked (validate_commands cs) d
       (let (r, d') = validated (replace_commands_tx now project cs) d
        in (map_outcome (\<lambda>u. commands_list project d') r, d'))"

subsection \<open>Reading runs\<close>

record run_details =
  rd_run :: verification_run_row
  rd_gates :: "verification_gate_row list"
  rd_results :: "verification_result_row list"
  rd_artifacts :: "verification_artifact_row list"

definition gates_of :: "uuid \<Rightarrow> task_db \<Rightarrow> verification_gate_row list" where
  "gates_of i d = sort_key vg_gate_kind (sort_key vg_command_key (filter (\<lambda>g. vg_run_id g = i) (td_gates d)))"

text \<open>\<open>ORDER BY gate_id, suite, name\<close>; an absent suite comes first.\<close>

definition suite_key :: "string option \<Rightarrow> string list" where
  "suite_key s = (case s of None \<Rightarrow> [] | Some v \<Rightarrow> [v])"

definition results_of :: "uuid \<Rightarrow> task_db \<Rightarrow> verification_result_row list" where
  "results_of i d = sort_key vt_gate_id (sort_key (\<lambda>r. suite_key (vt_suite r)) (sort_key vt_name
     (filter (\<lambda>r. vt_run_id r = i) (td_results d))))"

definition artifacts_of :: "uuid \<Rightarrow> task_db \<Rightarrow> verification_artifact_row list" where
  "artifacts_of i d =
     sort_key va_created_at (sort_key va_id (filter (\<lambda>a. va_run_id a = i) (td_artifacts d)))"

definition find_run :: "uuid \<Rightarrow> task_db \<Rightarrow> verification_run_row option" where
  "find_run i d = find (\<lambda>r. vr_id r = i) (td_runs d)"

definition get_run :: "uuid \<Rightarrow> task_db \<Rightarrow> run_details option" where
  "get_run i d = map_option (\<lambda>r. \<lparr>rd_run = r, rd_gates = gates_of i d, rd_results = results_of i d,
     rd_artifacts = artifacts_of i d\<rparr>) (find_run i d)"

definition list_runs :: "uuid \<Rightarrow> task_db \<Rightarrow> verification_run_row list" where
  "list_runs task_id d = sort_key (\<lambda>r. - vr_created_at r) (sort_key (\<lambda>r. - int (vr_id r))
     (filter (\<lambda>r. vr_task_id r = task_id) (td_runs d)))"

definition verification_history :: "uuid \<Rightarrow> task_db \<Rightarrow> verification_event list" where
  "verification_history i d = sort_key ve_id (filter (\<lambda>e. ve_run_id e = i) (td_verification_events d))"

definition run_identity :: "uuid \<Rightarrow> task_db \<Rightarrow> (uuid \<times> string) option" where
  "run_identity i d = map_option (\<lambda>r. (vr_task_id r, vr_status r)) (find_run i d)"

definition record_verification_event ::
    "millis \<Rightarrow> uuid \<Rightarrow> uuid \<Rightarrow> uuid option \<Rightarrow> string \<Rightarrow> string \<Rightarrow> json \<Rightarrow> task_db \<Rightarrow> task_db" where
  "record_verification_event now i task gate kind actor payload d =
     d\<lparr>td_verification_events := td_verification_events d @
        [\<lparr>ve_id = foldl max 0 (map ve_id (td_verification_events d)) + 1, ve_run_id = i,
          ve_task_id = task, ve_gate_id = gate, ve_kind = kind, ve_actor = actor,
          ve_payload = payload, ve_created_at = now\<rparr>]\<rparr>"

subsection \<open>Creating a run\<close>

record 'a verification_mutation =
  vm_task_id :: uuid
  vm_reopened :: bool
  vm_value :: 'a

text \<open>The source of a rerun must be a run of the same task.\<close>

definition check_rerun :: "uuid \<Rightarrow> uuid option \<Rightarrow> task_db \<Rightarrow> (sql_error, unit) outcome" where
  "check_rerun task_id rerun_of d =
     (case rerun_of of
        None \<Rightarrow> Inr ()
      | Some previous \<Rightarrow>
          (case find_run previous d of
             None \<Rightarrow> Inl (validation_error ''rerun source does not exist'')
           | Some r \<Rightarrow> check (vr_task_id r = task_id) ''rerun source belongs to a different task''))"

definition commands_for_run :: "uuid \<Rightarrow> string list \<Rightarrow> task_db \<Rightarrow> verification_command list" where
  "commands_for_run project selected d =
     filter (\<lambda>c. vc_required c \<or> selected = [] \<or> vc_kind c \<in> set selected)
       (sort_key vc_kind (sort_key vc_key
         (filter (\<lambda>c. vc_project_id c = project \<and> vc_enabled c) (td_commands d))))"

definition i64_max :: int where
  "i64_max = 9223372036854775807"

text \<open>A run is created after every earlier run of its task: \<open>now.max(previous.unwrap_or(0).saturating_add(1))\<close>.\<close>

definition run_created_at :: "millis \<Rightarrow> uuid \<Rightarrow> task_db \<Rightarrow> millis" where
  "run_created_at now task_id d =
     (case map vr_created_at (filter (\<lambda>r. vr_task_id r = task_id) (td_runs d)) of
        [] \<Rightarrow> max now 1
      | t # ts \<Rightarrow> max now (min (foldl max t ts + 1) i64_max))"

definition gate_row :: "uuid \<Rightarrow> uuid \<Rightarrow> verification_command \<Rightarrow> verification_gate_row" where
  "gate_row i of_run c =
     \<lparr>vg_id = i, vg_run_id = of_run, vg_command_id = Some (vc_id c), vg_command_key = vc_key c,
      vg_gate_kind = vc_kind c, vg_command = vc_command c, vg_cwd = vc_cwd c,
      vg_is_required = vc_required c, vg_timeout_ms = vc_timeout_ms c, vg_status = ''pending'',
      vg_summary = JObj [], vg_started_at = None, vg_completed_at = None\<rparr>"

text \<open>The gates take their identifiers from the stream \<open>fresh\<close>.\<close>

fun insert_gates ::
    "uuid \<Rightarrow> (nat \<Rightarrow> uuid) \<Rightarrow> nat \<Rightarrow> verification_command list \<Rightarrow> task_db \<Rightarrow> (sql_error, task_db) outcome" where
  "insert_gates r fresh n [] d = Inr d"
| "insert_gates r fresh n (c # cs) d =
     (if \<exists>g \<in> set (td_gates d). vg_id g = fresh n then Inl (SqlConstraint ''verification_gates.id'')
      else if \<exists>g \<in> set (td_gates d). vg_run_id g = r \<and> vg_command_key g = vc_key c
      then Inl (SqlConstraint ''verification_gates.command_key'')
      else insert_gates r fresh (n + 1) cs (d\<lparr>td_gates := td_gates d @ [gate_row (fresh n) r c]\<rparr>))"

definition new_run :: "uuid \<Rightarrow> uuid \<Rightarrow> uuid \<Rightarrow> uuid option \<Rightarrow> string \<Rightarrow> millis \<Rightarrow> verification_run_row" where
  "new_run i task project rerun trigger created =
     \<lparr>vr_id = i, vr_task_id = task, vr_project_id = project, vr_rerun_of_id = rerun,
      vr_status = ''queued'', vr_trigger_kind = trigger, vr_summary = JObj [],
      vr_created_at = created, vr_started_at = None, vr_completed_at = None\<rparr>"

text \<open>\<open>if c { reopen_terminal(tx, task_id)? } else { false }\<close>.\<close>

definition reopen_if :: "bool \<Rightarrow> millis \<Rightarrow> uuid \<Rightarrow> task_db \<Rightarrow> bool \<times> task_db" where
  "reopen_if c now task_id d = (if c then reopen_terminal now task_id d else (False, d))"

definition create_run_tx ::
    "externals \<Rightarrow> millis \<Rightarrow> uuid \<Rightarrow> (nat \<Rightarrow> uuid) \<Rightarrow> uuid \<Rightarrow> string list \<Rightarrow> string \<Rightarrow> uuid option \<Rightarrow> string
      \<Rightarrow> task_db \<Rightarrow> (sql_error, bool \<times> task_db) outcome" where
  "create_run_tx x now run_id fresh task_id selected trigger rerun_of actor d =
     (case find_task task_id d of
        None \<Rightarrow> Inl (validation_error ''task does not exist'')
      | Some t \<Rightarrow>
          (case tk_project_id t of
             None \<Rightarrow> Inl (validation_error ''task must belong to a project before verification'')
           | Some project \<Rightarrow>
               (case check_rerun task_id rerun_of d of
                  Inl e \<Rightarrow> Inl e
                | Inr u \<Rightarrow>
                    let commands = commands_for_run project selected d;
                        created = run_created_at now task_id d
                    in if commands = []
                       then Inl (validation_error ''no enabled verification commands matched this run'')
                       else if \<exists>r \<in> set (td_runs d). vr_id r = run_id
                       then Inl (SqlConstraint ''verification_runs.id'')
                       else case insert_gates run_id fresh 0 commands
                              (d\<lparr>td_runs := td_runs d @ [new_run run_id task_id project rerun_of trigger created]\<rparr>) of
                         Inl e \<Rightarrow> Inl e
                       | Inr d1 \<Rightarrow>
                           let d2 = record_verification_event now run_id task_id None ''created'' actor
                                 (JObj [(''selectedKinds'', JArr (map JStr selected)),
                                        (''rerunOfId'', json_opt (json_uuid x) rerun_of)]) d1
                           in Inr (reopen_if (list_ex vc_required commands) now task_id d2))))"

definition mutation_of :: "uuid \<Rightarrow> bool \<Rightarrow> run_details \<Rightarrow> run_details verification_mutation" where
  "mutation_of task reopened v = \<lparr>vm_task_id = task, vm_reopened = reopened, vm_value = v\<rparr>"

text \<open>
  The kinds are checked in the order of a \<open>HashSet\<close>, which is not fixed; here the
  first unknown one of the request is reported.
\<close>

definition validate_selected :: "string list \<Rightarrow> (storage_error, unit) outcome" where
  "validate_selected selected =
     (case find (\<lambda>k. k \<notin> set GATE_KINDS) selected of None \<Rightarrow> Inr () | Some k \<Rightarrow> validate_gate_kind k)"

definition create_run ::
    "externals \<Rightarrow> millis \<Rightarrow> uuid \<Rightarrow> (nat \<Rightarrow> uuid) \<Rightarrow> uuid \<Rightarrow> string list \<Rightarrow> string \<Rightarrow> uuid option \<Rightarrow> string
      \<Rightarrow> task_db \<Rightarrow> (storage_error, run_details verification_mutation) outcome \<times> task_db" where
  "create_run x now run_id fresh task_id selected trigger rerun_of actor d =
     checked (validate_verification_actor actor) d
       (checked (validate_selected selected) d
         (case validated (create_run_tx x now run_id fresh task_id selected trigger rerun_of actor) d of
            (Inl e, d') \<Rightarrow> (Inl e, d')
          | (Inr reopened, d') \<Rightarrow>
              (case get_run run_id d' of
                 None \<Rightarrow> (Inl (StorageValidation ''created verification run disappeared''), d')
               | Some v \<Rightarrow> (Inr (mutation_of task_id reopened v), d'))))"

subsection \<open>Running a run\<close>

text \<open>
  What a call on a run does after its transaction: no such run is \<open>None\<close>, otherwise
  the run is read back.
\<close>

definition run_outcome ::
    "uuid \<Rightarrow> (storage_error, (uuid \<times> bool) option) outcome \<times> task_db
      \<Rightarrow> (storage_error, run_details verification_mutation option) outcome \<times> task_db" where
  "run_outcome i r =
     (case r of
        (Inl e, d) \<Rightarrow> (Inl e, d)
      | (Inr None, d) \<Rightarrow> (Inr None, d)
      | (Inr (Some (task_id, reopened)), d) \<Rightarrow>
          (Inr (map_option (mutation_of task_id reopened) (get_run i d)), d))"

definition set_run :: "uuid \<Rightarrow> (verification_run_row \<Rightarrow> verification_run_row) \<Rightarrow> task_db \<Rightarrow> task_db" where
  "set_run i f d = d\<lparr>td_runs := update_rows (\<lambda>r. vr_id r = i) f (td_runs d)\<rparr>"

definition start_tx :: "millis \<Rightarrow> uuid \<Rightarrow> string \<Rightarrow> task_db \<Rightarrow> (sql_error, bool \<times> task_db) outcome" where
  "start_tx now i actor d =
     (case run_identity i d of
        None \<Rightarrow> Inr (False, d)
      | Some (task_id, status) \<Rightarrow>
          if status \<noteq> ''queued'' then Inl (validation_error ''only queued verification runs can start'')
          else Inr (True, record_verification_event now i task_id None ''started'' actor (JObj [])
            (set_run i (\<lambda>r. r\<lparr>vr_status := ''running'', vr_started_at := Some now\<rparr>) d)))"

definition start_run ::
    "millis \<Rightarrow> uuid \<Rightarrow> string \<Rightarrow> task_db \<Rightarrow> (storage_error, run_details option) outcome \<times> task_db" where
  "start_run now i actor d =
     checked (validate_verification_actor actor) d
       (let (r, d') = validated (start_tx now i actor) d
        in (map_outcome (\<lambda>changed. if changed then get_run i d' else None) r, d'))"

definition result_row :: "uuid \<Rightarrow> uuid \<Rightarrow> new_test_result \<Rightarrow> verification_result_row" where
  "result_row i gate r =
     \<lparr>vt_id = nt_id r, vt_run_id = i, vt_gate_id = gate, vt_suite = nt_suite r, vt_name = nt_name r,
      vt_status = nt_status r, vt_duration_ms = nt_duration_ms r, vt_file_path = nt_file_path r,
      vt_line = nt_line r, vt_message = nt_message r, vt_metadata = nt_metadata r\<rparr>"

fun insert_results ::
    "uuid \<Rightarrow> uuid \<Rightarrow> new_test_result list \<Rightarrow> task_db \<Rightarrow> (sql_error, task_db) outcome" where
  "insert_results i gate [] d = Inr d"
| "insert_results i gate (r # rs) d =
     (if \<exists>s \<in> set (td_results d). vt_id s = nt_id r
      then Inl (SqlConstraint ''verification_test_results.id'')
      else insert_results i gate rs (d\<lparr>td_results := td_results d @ [result_row i gate r]\<rparr>))"

definition artifact_row :: "millis \<Rightarrow> uuid \<Rightarrow> uuid \<Rightarrow> new_artifact \<Rightarrow> verification_artifact_row" where
  "artifact_row now i gate a =
     \<lparr>va_id = nf_id a, va_run_id = i, va_gate_id = Some gate, va_kind = nf_kind a, va_hash = nf_hash a,
      va_size_bytes = nf_size_bytes a, va_metadata = nf_metadata a, va_created_at = now\<rparr>"

fun insert_artifacts ::
    "millis \<Rightarrow> uuid \<Rightarrow> uuid \<Rightarrow> new_artifact list \<Rightarrow> task_db \<Rightarrow> (sql_error, task_db) outcome" where
  "insert_artifacts now i gate [] d = Inr d"
| "insert_artifacts now i gate (a # as) d =
     (if \<exists>b \<in> set (td_artifacts d). va_id b = nf_id a
      then Inl (SqlConstraint ''verification_artifacts.id'')
      else if nf_size_bytes a < 0 then Inl (SqlConstraint ''verification_artifacts.size_bytes'')
      else insert_artifacts now i gate as (d\<lparr>td_artifacts := td_artifacts d @ [artifact_row now i gate a]\<rparr>))"

definition set_gate :: "millis \<Rightarrow> string \<Rightarrow> json \<Rightarrow> verification_gate_row \<Rightarrow> verification_gate_row" where
  "set_gate now status summary g =
     g\<lparr>vg_status := status, vg_summary := summary,
       vg_started_at := (case vg_started_at g of None \<Rightarrow> Some now | Some t \<Rightarrow> Some t),
       vg_completed_at := Some now\<rparr>"

definition gate_written ::
    "millis \<Rightarrow> uuid \<Rightarrow> uuid \<Rightarrow> string \<Rightarrow> json \<Rightarrow> task_db \<Rightarrow> task_db" where
  "gate_written now i gate status summary d =
     d\<lparr>td_gates := update_rows (\<lambda>g. vg_id g = gate \<and> vg_run_id g = i) (set_gate now status summary) (td_gates d),
       td_results := delete_rows (\<lambda>r. vt_gate_id r = gate) (td_results d)\<rparr>"

definition record_gate_tx ::
    "millis \<Rightarrow> uuid \<Rightarrow> uuid \<Rightarrow> string \<Rightarrow> json \<Rightarrow> new_test_result list \<Rightarrow> new_artifact list \<Rightarrow> string
      \<Rightarrow> task_db \<Rightarrow> (sql_error, (uuid \<times> bool) option \<times> task_db) outcome" where
  "record_gate_tx now i gate status summary results artifacts actor d =
     (case run_identity i d of
        None \<Rightarrow> Inr (None, d)
      | Some (task_id, run_status) \<Rightarrow>
          if run_status \<noteq> ''running''
          then Inl (validation_error ''gate results require a running verification run'')
          else (case find (\<lambda>g. vg_id g = gate \<and> vg_run_id g = i) (td_gates d) of
             None \<Rightarrow> Inl (validation_error ''verification gate does not belong to this run'')
           | Some g \<Rightarrow>
               (case insert_results i gate results (gate_written now i gate status summary d) of
                  Inl e \<Rightarrow> Inl e
                | Inr d1 \<Rightarrow>
                    (case insert_artifacts now i gate artifacts d1 of
                       Inl e \<Rightarrow> Inl e
                     | Inr d2 \<Rightarrow>
                         let d3 = record_verification_event now i task_id (Some gate) ''gate_recorded'' actor
                               (JObj [(''status'', JStr status), (''resultCount'', JNum (PosInt (length results))),
                                      (''artifactCount'', JNum (PosInt (length artifacts)))]) d2;
                             (reopened, d4) = reopen_if (vg_is_required g \<and> status \<noteq> ''passed'') now task_id d3
                         in Inr (Some (task_id, reopened), d4)))))"

definition record_gate ::
    "millis \<Rightarrow> uuid \<Rightarrow> uuid \<Rightarrow> string \<Rightarrow> json \<Rightarrow> new_test_result list \<Rightarrow> new_artifact list \<Rightarrow> string
      \<Rightarrow> task_db \<Rightarrow> (storage_error, run_details verification_mutation option) outcome \<times> task_db" where
  "record_gate now i gate status summary results artifacts actor d =
     checked (validate_verification_actor actor) d
       (if status \<notin> set GATE_RESULTS
        then (Inl (StorageValidation (''invalid verification gate result '' @ quoted status)), d)
        else checked (validate_results results) d
          (run_outcome i (validated (record_gate_tx now i gate status summary results artifacts actor) d)))"

definition gate_waiting :: "verification_gate_row \<Rightarrow> bool" where
  "gate_waiting g \<longleftrightarrow> vg_status g \<in> {''pending'', ''running''}"

definition finish_tx ::
    "millis \<Rightarrow> uuid \<Rightarrow> string \<Rightarrow> task_db \<Rightarrow> (sql_error, (uuid \<times> bool) option \<times> task_db) outcome" where
  "finish_tx now i actor d =
     (case run_identity i d of
        None \<Rightarrow> Inr (None, d)
      | Some (task_id, status) \<Rightarrow>
          if status \<noteq> ''running'' then Inl (validation_error ''only running verification runs can finish'')
          else if \<exists>g \<in> set (td_gates d). vg_run_id g = i \<and> vg_is_required g
                 \<and> gate_waiting g
          then Inl (validation_error ''required verification gates are still pending'')
          else let failed = count_rows (\<lambda>g. vg_run_id g = i \<and> vg_is_required g \<and> vg_status g \<noteq> ''passed'') (td_gates d);
                   passed = count_rows (\<lambda>g. vg_run_id g = i \<and> vg_status g = ''passed'') (td_gates d);
                   total = count_rows (\<lambda>g. vg_run_id g = i) (td_gates d);
                   final_status = (if failed = 0 then ''passed'' else ''failed'');
                   summary = JObj [(''totalGates'', JNum (PosInt total)), (''passedGates'', JNum (PosInt passed)),
                     (''failedRequiredGates'', JNum (PosInt failed))];
                   d1 = record_verification_event now i task_id None ''finished'' actor
                     (JObj [(''status'', JStr final_status), (''summary'', summary)])
                     (set_run i (\<lambda>r. r\<lparr>vr_status := final_status, vr_summary := summary,
                        vr_completed_at := Some now\<rparr>) d);
                   (reopened, d2) = reopen_if (0 < failed) now task_id d1
               in Inr (Some (task_id, reopened), d2))"

definition finish_run ::
    "millis \<Rightarrow> uuid \<Rightarrow> string \<Rightarrow> task_db \<Rightarrow> (storage_error, run_details verification_mutation option) outcome \<times> task_db" where
  "finish_run now i actor d =
     checked (validate_verification_actor actor) d (run_outcome i (validated (finish_tx now i actor) d))"

definition cancel_tx ::
    "millis \<Rightarrow> uuid \<Rightarrow> string \<Rightarrow> task_db \<Rightarrow> (sql_error, (uuid \<times> bool) option \<times> task_db) outcome" where
  "cancel_tx now i actor d =
     (case run_identity i d of
        None \<Rightarrow> Inr (None, d)
      | Some (task_id, status) \<Rightarrow>
          if status \<notin> {''queued'', ''running''}
          then Inl (validation_error ''only queued or running verification runs can be cancelled'')
          else let d1 = set_run i (\<lambda>r. r\<lparr>vr_status := ''cancelled'', vr_completed_at := Some now\<rparr>) d;
                   d2 = d1\<lparr>td_gates := update_rows (\<lambda>g. vg_run_id g = i \<and> gate_waiting g)
                     (\<lambda>g. g\<lparr>vg_status := ''cancelled'', vg_completed_at := Some now\<rparr>) (td_gates d1)\<rparr>;
                   d3 = record_verification_event now i task_id None ''cancelled'' actor (JObj []) d2;
                   (reopened, d4) = reopen_if (\<exists>g \<in> set (td_gates d3). vg_run_id g = i \<and> vg_is_required g) now task_id d3
               in Inr (Some (task_id, reopened), d4))"

definition cancel_run ::
    "millis \<Rightarrow> uuid \<Rightarrow> string \<Rightarrow> task_db \<Rightarrow> (storage_error, run_details verification_mutation option) outcome \<times> task_db" where
  "cancel_run now i actor d =
     checked (validate_verification_actor actor) d (run_outcome i (validated (cancel_tx now i actor) d))"

subsection \<open>The report and the restart\<close>

text \<open>
  The limitations of a completion report; \<open>browser\<close> says whether the task has
  browser verifications.
\<close>

definition limitations :: "run_details \<Rightarrow> bool \<Rightarrow> string list" where
  "limitations v browser =
     map (\<lambda>(kind, label). ''no '' @ label @ '' verification command was configured for this run'')
       (filter (\<lambda>(kind, label). \<not> list_ex (\<lambda>g. vg_gate_kind g = kind) (rd_gates v)
           \<and> (kind \<noteq> ''browser'' \<or> \<not> browser))
         [(''test'', ''tests''), (''build'', ''build''), (''browser'', ''browser''),
          (''accessibility'', ''accessibility''), (''security'', ''security''), (''git'', ''git'')])
     @ [''stdout and stderr are retained as bounded artifact references, not embedded in this report'']"

definition report_section :: "run_details \<Rightarrow> string \<Rightarrow> verification_gate_row list \<times> nat" where
  "report_section v kind =
     (let gates = filter (\<lambda>g. vg_gate_kind g = kind) (rd_gates v)
      in (gates, length (filter (\<lambda>r. list_ex (\<lambda>g. vg_id g = vt_gate_id r) gates) (rd_results v))))"

text \<open>The statements of \<open>recover_interrupted\<close> on the verification tables, in order.\<close>

definition process_restart :: json where
  "process_restart = JObj [(''reason'', JStr ''process_restart'')]"

definition running_run :: "verification_run_row \<Rightarrow> bool" where
  "running_run r \<longleftrightarrow> vr_status r = ''running''"

definition recover_verifications :: "millis \<Rightarrow> task_db \<Rightarrow> nat \<times> task_db" where
  "recover_verifications now d =
     (let running = filter running_run (td_runs d);
          ids = map vr_id running;
          d1 = fold (\<lambda>r. record_verification_event now (vr_id r) (vr_task_id r) None ''interrupted'' ''system''
                 process_restart) running d;
          d2 = d1\<lparr>td_gates := update_rows (\<lambda>g. vg_run_id g \<in> set ids \<and> gate_waiting g)
                 (\<lambda>g. g\<lparr>vg_status := ''error'', vg_completed_at := Some now, vg_summary := process_restart\<rparr>)
                 (td_gates d1)\<rparr>;
          d3 = d2\<lparr>td_runs := update_rows running_run
                 (\<lambda>r. r\<lparr>vr_status := ''error'', vr_completed_at := Some now, vr_summary := process_restart\<rparr>)
                 (td_runs d2)\<rparr>
      in (length running, d3))"

subsection \<open>Every operation\<close>

text \<open>
  The planning operations run between these; of \<open>OpVerification\<close> only the browser
  tables are taken, the runs and gates being written by the operations here.
\<close>

datatype verification_op =
    ReplaceCommands millis uuid "new_verification_command list"
  | CreateRun millis uuid "nat \<Rightarrow> uuid" uuid "string list" string "uuid option" string
  | StartRun millis uuid string
  | RecordGate millis uuid uuid string json "new_test_result list" "new_artifact list" string
  | FinishRun millis uuid string
  | CancelRun millis uuid string
  | Restart millis
  | OnTasks task_op

fun verification_step :: "externals \<Rightarrow> verification_op \<Rightarrow> task_db \<Rightarrow> task_db" where
  "verification_step x (ReplaceCommands now project cs) d = snd (replace_commands now project cs d)"
| "verification_step x (CreateRun now i fresh task selected trigger rerun actor) d =
     snd (create_run x now i fresh task selected trigger rerun actor d)"
| "verification_step x (StartRun now i actor) d = snd (start_run now i actor d)"
| "verification_step x (RecordGate now i gate status summary results artifacts actor) d =
     snd (record_gate now i gate status summary results artifacts actor d)"
| "verification_step x (FinishRun now i actor) d = snd (finish_run now i actor d)"
| "verification_step x (CancelRun now i actor) d = snd (cancel_run now i actor d)"
| "verification_step x (Restart now) d = snd (recover_verifications now d)"
| "verification_step x (OnTasks op) d =
     (case op of
        OpVerification rs gs ds bs \<Rightarrow> d\<lparr>td_browser_definitions := ds, td_browser_runs := bs\<rparr>
      | _ \<Rightarrow> task_step_fn x op d)"

end
