(* ===== verification/TaskFacts.thy ===== *)
theory TaskFacts
  imports TaskPlanning
begin

text \<open>
  Facts about task planning: the recursive query computes the transitive closure, so the graph
  of dependencies and that of parents stay acyclic and inside one project; the gate and the list
  of blockers agree; a completed task keeps its own plan and criteria satisfied; a plan reads
  back as it was written; a satisfied criterion has its audit record.
\<close>

subsection \<open>Transactions\<close>

lemma is_ok_map_validation [simp]: "is_ok (map_validation r) = is_ok r"
  by (cases r rule: map_validation.cases) (auto split: option.split)

lemma validated_cases:
  obtains (failed) "snd (validated f d) = d" "\<not> is_ok (fst (validated f d))"
  | (good) v d' where "f d = Inr (v, d')" "validated f d = (Inr v, d')"
proof (cases "f d")
  case (Inl e)
  show ?thesis by (rule failed) (simp_all add: Inl validated_def transaction_def)
next
  case (Inr r)
  then show ?thesis using good by (cases r) (simp add: validated_def transaction_def)
qed

lemma checked_simps:
  "snd (checked r d k) = (if is_ok r then snd k else d)"
  "is_ok (fst (checked r d k)) = (is_ok r \<and> is_ok (fst k))"
  "is_ok r \<Longrightarrow> checked r d k = k"
  by (auto simp: checked_def is_ok_iff split: sum.split)

lemma reading_simps:
  "snd (reading get m r) = snd r"
  "get (snd r) = Some v \<Longrightarrow> is_ok (fst r) \<Longrightarrow> fst (reading get m r) = Inr v"
  "is_ok (fst (reading get m r)) = (is_ok (fst r) \<and> get (snd r) \<noteq> None)"
  by (cases r; cases "fst r"; auto simp: reading_def split: option.splits)+

subsection \<open>The recursive query\<close>

lemma set_targets [simp]: "set (targets edges a) = set edges `` {a}"
  by (auto simp: targets_def image_iff)

lemma recursive_union_closed:
  assumes "set queue \<subseteq> set result"
    and "\<And>a b. a \<in> set result \<Longrightarrow> a \<notin> set queue \<Longrightarrow> (a, b) \<in> set edges \<Longrightarrow> b \<in> set result"
  shows "set result \<subseteq> set (recursive_union edges result queue)
    \<and> (\<forall>a b. a \<in> set (recursive_union edges result queue) \<longrightarrow> (a, b) \<in> set edges
          \<longrightarrow> b \<in> set (recursive_union edges result queue))"
  using assms
proof (induction edges result queue rule: recursive_union.induct)
  case (1 edges result)
  then show ?case by auto
next
  case (2 edges result a queue)
  let ?new = "filter (\<lambda>d. d \<notin> set result) (targets edges a)"
  have "set result \<union> set ?new \<subseteq> set (recursive_union edges (result @ ?new) (queue @ ?new))
    \<and> (\<forall>a b. a \<in> set (recursive_union edges (result @ ?new) (queue @ ?new)) \<longrightarrow> (a, b) \<in> set edges
          \<longrightarrow> b \<in> set (recursive_union edges (result @ ?new) (queue @ ?new)))"
    using "2.IH" [OF refl] "2.prems" by auto
  then show ?case by (simp add: Let_def)
qed

lemma recursive_union_sound:
  "set queue \<subseteq> set result \<Longrightarrow>
   set (recursive_union edges result queue) \<subseteq> (set edges)\<^sup>* `` set result"
proof (induction edges result queue rule: recursive_union.induct)
  case (1 edges result)
  then show ?case by auto
next
  case (2 edges result a queue)
  let ?new = "filter (\<lambda>d. d \<notin> set result) (targets edges a)"
  have "set (recursive_union edges (result @ ?new) (queue @ ?new))
      \<subseteq> (set edges)\<^sup>* `` set (result @ ?new)"
    using "2.prems" by (intro "2.IH" [OF refl]) auto
  also have "\<dots> \<subseteq> (set edges)\<^sup>* `` set result"
    using "2.prems" by (auto intro: converse_rtrancl_into_rtrancl)
  finally show ?case by (simp add: Let_def)
qed

lemma ancestors_trancl: "set (ancestors edges a) = (set edges)\<^sup>+ `` {a}"
proof
  have "set (ancestors edges a) \<subseteq> (set edges)\<^sup>* `` (set edges `` {a})"
    using recursive_union_sound [of "targets edges a" "targets edges a" edges]
    by (simp add: ancestors_def)
  then show "set (ancestors edges a) \<subseteq> (set edges)\<^sup>+ `` {a}"
    by (auto dest: rtrancl_into_trancl2)
next
  note c = recursive_union_closed [of "targets edges a" "targets edges a" edges, folded ancestors_def]
  show "(set edges)\<^sup>+ `` {a} \<subseteq> set (ancestors edges a)"
  proof
    fix b assume "b \<in> (set edges)\<^sup>+ `` {a}"
    then have "(a, b) \<in> (set edges)\<^sup>+" by simp
    then show "b \<in> set (ancestors edges a)"
    proof (induction rule: trancl_induct)
      case (base y)
      then show ?case using c by auto
    next
      case (step y z)
      then show ?case using c by blast
    qed
  qed
qed

subsection \<open>The graph invariant\<close>

text \<open>What it depends on: identifier, project and parent of every task, and the dependencies.\<close>

type_synonym skeleton = "(uuid \<times> uuid option \<times> uuid option) list \<times> (uuid \<times> uuid) list"

definition skeleton :: "task_db \<Rightarrow> skeleton" where
  "skeleton d = (map (\<lambda>t. (tk_id t, tk_project_id t, tk_parent_task_id t)) (td_tasks d), dep_edges d)"

definition parents_of :: "(uuid \<times> uuid option \<times> uuid option) list \<Rightarrow> (uuid \<times> uuid) set" where
  "parents_of ts = {(a, p). \<exists>pr. (a, pr, Some p) \<in> set ts}"

definition same_project :: "(uuid \<times> uuid option \<times> uuid option) list \<Rightarrow> uuid \<Rightarrow> uuid \<Rightarrow> bool" where
  "same_project ts a b \<longleftrightarrow> (\<exists>pr p q. (a, pr, p) \<in> set ts \<and> (b, pr, q) \<in> set ts)"

definition graph_ok :: "skeleton \<Rightarrow> bool" where
  "graph_ok s \<longleftrightarrow> distinct (map fst (fst s)) \<and> acyclic (set (snd s)) \<and> acyclic (parents_of (fst s))
     \<and> (\<forall>a b. (a, b) \<in> set (snd s) \<union> parents_of (fst s) \<longrightarrow> same_project (fst s) a b)"

lemma parents_of_edges: "set (parent_edges d) = parents_of (fst (skeleton d))"
proof -
  have "set (List.map_filter (\<lambda>t. map_option (\<lambda>p. (tk_id t, p)) (tk_parent_task_id t)) ts)
      = {(a, p). \<exists>t \<in> set ts. tk_id t = a \<and> tk_parent_task_id t = Some p}" for ts
    by (induction ts) (auto simp: map_filter_simps split: option.splits)
  then have "set (parent_edges d) = {(a, p). \<exists>t \<in> set (td_tasks d). tk_id t = a \<and> tk_parent_task_id t = Some p}"
    by (simp add: parent_edges_def)
  also have "\<dots> = parents_of (fst (skeleton d))"
    by (force simp: parents_of_def skeleton_def)
  finally show ?thesis .
qed

lemma snd_skeleton: "snd (skeleton d) = dep_edges d"
  by (simp add: skeleton_def)

lemma graph_okD:
  "graph_ok s \<Longrightarrow> e \<in> set (snd s) \<union> parents_of (fst s) \<Longrightarrow> same_project (fst s) (fst e) (snd e)"
  by (cases e) (auto simp: graph_ok_def)

lemma find_task_Some: "find_task i d = Some t \<Longrightarrow> t \<in> set (td_tasks d) \<and> tk_id t = i"
  by (auto simp: find_task_def dest: find_Some_in_set)

lemma find_task_None: "find_task i d = None \<longleftrightarrow> i \<notin> tk_id ` set (td_tasks d)"
  by (auto simp: find_task_def find_None_iff)

lemma first_error_Inr: "first_error rs = Inr u \<longleftrightarrow> (\<forall>r \<in> set rs. r = Inr ())"
  by (induction rs rule: first_error.induct) auto

lemma check_Inr [simp]: "check b m = Inr u \<longleftrightarrow> b"
  by (simp add: check_def)

lemma relationships_ok:
  assumes "validate_task_relationships d i project session parent worktree = Inr u"
  shows "parent \<noteq> Some i" "\<not> inconsistent_related i project d"
    and "\<And>p. parent = Some p \<Longrightarrow>
      \<exists>t \<in> set (td_tasks d). tk_id t = p \<and> tk_project_id t = project \<and> (p, i) \<notin> (set (parent_edges d))\<^sup>+"
  using assms
  by (auto simp: validate_task_relationships_def first_error_Inr check_parent_def ancestors_trancl
      split: option.splits dest!: find_task_Some)

lemma transaction_snd:
  "snd (transaction f d) = (case f d of Inl e \<Rightarrow> d | Inr (v, d') \<Rightarrow> d')"
  by (auto simp: transaction_def split: sum.split)

lemma validated_snd: "snd (validated f d) = (case f d of Inl e \<Rightarrow> d | Inr (v, d') \<Rightarrow> d')"
  by (simp add: validated_def transaction_snd split_beta)

text \<open>A new edge from a task closes no cycle when its target does not lead back.\<close>

lemma acyclic_add:
  assumes "acyclic r" and "s \<subseteq> r" and "(b, a) \<notin> r\<^sup>+" and "a \<noteq> b"
  shows "acyclic (insert (a, b) s)"
proof -
  have "acyclic s" using assms(1,2) by (rule acyclic_subset)
  moreover have "(b, a) \<notin> s\<^sup>*"
    using assms(3,4) trancl_mono [OF _ assms(2), of "(b, a)"] by (auto simp: rtrancl_eq_or_trancl)
  ultimately show ?thesis by (simp add: acyclic_insert)
qed


text \<open>Creating: the new task is a source of the parent graph.\<close>

lemma graph_ok_create:
  assumes g: "graph_ok (ts, es)" and new: "i \<notin> fst ` set ts"
    and p: "\<And>q. p = Some q \<Longrightarrow> \<exists>r. (q, pr, r) \<in> set ts"
  shows "graph_ok (ts @ [(i, pr, p)], es)"
proof -
  have par: "parents_of (ts @ [(i, pr, p)]) = parents_of ts \<union> (case p of None \<Rightarrow> {} | Some q \<Rightarrow> {(i, q)})"
    by (auto simp: parents_of_def split: option.split)
  have "same_project ts x y" if "(x, y) \<in> parents_of ts" for x y
    using that g by (simp add: graph_ok_def)
  then have fresh: "x \<noteq> i" "y \<noteq> i" if "(x, y) \<in> parents_of ts" for x y
    using that new by (force simp: same_project_def)+
  have "acyclic (parents_of (ts @ [(i, pr, p)]))"
  proof (cases p)
    case None
    then show ?thesis using g par by (simp add: graph_ok_def)
  next
    case (Some q)
    then have "q \<noteq> i" using p new by force
    moreover have "(q, i) \<notin> (parents_of ts)\<^sup>+"
    proof
      assume "(q, i) \<in> (parents_of ts)\<^sup>+"
      then obtain y where "(y, i) \<in> parents_of ts" by (cases rule: trancl.cases) auto
      with fresh(2) show False by blast
    qed
    ultimately have "acyclic (insert (i, q) (parents_of ts))"
      using g by (intro acyclic_add [of "parents_of ts"]) (auto simp: graph_ok_def)
    then show ?thesis using Some par by simp
  qed
  moreover have "same_project (ts @ [(i, pr, p)]) a b" if "same_project ts a b" for a b
    using that by (auto simp: same_project_def)
  moreover have "same_project (ts @ [(i, pr, p)]) i q" if "p = Some q" for q
    using p [OF that] by (auto simp: same_project_def)
  ultimately show ?thesis
    using g new par by (auto simp: graph_ok_def split: option.splits)
qed

text \<open>Changing the project and parent of one task.\<close>

definition reparent :: "uuid \<Rightarrow> uuid option \<Rightarrow> uuid option
    \<Rightarrow> (uuid \<times> uuid option \<times> uuid option) list \<Rightarrow> (uuid \<times> uuid option \<times> uuid option) list" where
  "reparent i pr p ts = map (\<lambda>t. if fst t = i then (i, pr, p) else t) ts"

lemma graph_ok_reparent:
  assumes g: "graph_ok (ts, es)" and i: "i \<in> fst ` set ts"
    and p: "\<And>q. p = Some q \<Longrightarrow> q \<noteq> i \<and> (\<exists>r. (q, pr, r) \<in> set ts) \<and> (q, i) \<notin> (parents_of ts)\<^sup>+"
    and child: "\<And>a r. (a, r, Some i) \<in> set ts \<Longrightarrow> r = pr"
    and dep: "\<And>a b c q r. (a, b) \<in> set es \<Longrightarrow> (c, q, r) \<in> set ts \<Longrightarrow>
      a = i \<and> c = b \<or> b = i \<and> c = a \<Longrightarrow> q = pr"
  shows "graph_ok (reparent i pr p ts, es)"
proof -
  have mem: "(c, q, r) \<in> set (reparent i pr p ts) \<longleftrightarrow> (if c = i then q = pr \<and> r = p else (c, q, r) \<in> set ts)"
    for c q r
    using i by (auto simp: reparent_def image_iff split: if_splits) force+
  have par: "parents_of (reparent i pr p ts)
      = {(a, b) \<in> parents_of ts. a \<noteq> i} \<union> (case p of None \<Rightarrow> {} | Some q \<Rightarrow> {(i, q)})"
    by (auto simp: parents_of_def mem split: if_splits option.split)
  have "map fst (reparent i pr p ts) = map fst ts" by (auto simp: reparent_def)
  then have dist: "distinct (map fst (reparent i pr p ts))" using g by (simp add: graph_ok_def)
  have sub: "{(a, b) \<in> parents_of ts. a \<noteq> i} \<subseteq> parents_of ts" by auto
  have acyc: "acyclic (parents_of (reparent i pr p ts))"
  proof (cases p)
    case None
    then show ?thesis using g par acyclic_subset [OF _ sub] by (simp add: graph_ok_def)
  next
    case (Some q)
    have "acyclic (insert (i, q) {(a, b) \<in> parents_of ts. a \<noteq> i})"
      using p [OF Some] g by (intro acyclic_add [OF _ sub]) (auto simp: graph_ok_def)
    moreover have "parents_of (reparent i pr p ts) = insert (i, q) {(a, b) \<in> parents_of ts. a \<noteq> i}"
      using par Some by auto
    ultimately show ?thesis by (simp only:)
  qed
  have keep: "same_project (reparent i pr p ts) a b" if "same_project ts a b" "a \<noteq> i" "b \<noteq> i" for a b
    using that by (auto simp: same_project_def mem)
  have with_i: "same_project (reparent i pr p ts) a i" "same_project (reparent i pr p ts) i a"
    if "(a, pr, r) \<in> set ts" for a r
    using that by (cases "a = i"; auto simp: same_project_def mem)+
  have "same_project (reparent i pr p ts) a b" if e: "(a, b) \<in> set es" for a b
  proof -
    have "same_project ts a b" using g e by (auto simp: graph_ok_def)
    with dep [OF e] keep [of a b] with_i show ?thesis
      by (cases "a = i"; cases "b = i") (auto simp: same_project_def mem)
  qed
  moreover have "same_project (reparent i pr p ts) a b" if e: "(a, b) \<in> parents_of (reparent i pr p ts)" for a b
  proof (cases "a = i")
    case True
    with e have "p = Some b" by (auto simp: par split: option.splits)
    with p [OF this] with_i True show ?thesis by blast
  next
    case False
    with e have ab: "(a, b) \<in> parents_of ts" by (auto simp: par split: option.splits)
    then have s: "same_project ts a b" using g by (auto simp: graph_ok_def)
    show ?thesis
    proof (cases "b = i")
      case True
      from ab obtain r where r: "(a, r, Some i) \<in> set ts" by (auto simp: parents_of_def True)
      with child have "r = pr" by blast
      with r with_i True show ?thesis by blast
    next
      case False
      with keep s \<open>a \<noteq> i\<close> show ?thesis by blast
    qed
  qed
  ultimately show ?thesis using g dist acyc by (auto simp: graph_ok_def)
qed

lemma graph_ok_delete:
  assumes g: "graph_ok (ts, es)"
  shows "graph_ok (map (\<lambda>t. if snd (snd t) = Some i then (fst t, fst (snd t), None) else t)
     (filter (\<lambda>t. fst t \<noteq> i) ts), filter (\<lambda>e. fst e \<noteq> i \<and> snd e \<noteq> i) es)" (is "graph_ok (?ts, ?es)")
proof -
  have mem: "(c, q, r) \<in> set ?ts \<longleftrightarrow> c \<noteq> i \<and> ((c, q, r) \<in> set ts \<and> r \<noteq> Some i \<or> r = None \<and> (c, q, Some i) \<in> set ts)"
    for c q r
    by (force simp: image_iff)
  have sub: "parents_of ?ts \<subseteq> parents_of ts" "set ?es \<subseteq> set es"
    by (auto simp: parents_of_def)
  have ends: "a \<noteq> i" "b \<noteq> i" if "(a, b) \<in> set ?es \<union> parents_of ?ts" for a b
    using that by (auto simp: parents_of_def)
  have keep: "same_project ?ts a b" if "same_project ts a b" "a \<noteq> i" "b \<noteq> i" for a b
  proof -
    have "\<exists>r'. (c, q, r') \<in> set ?ts" if "(c, q, r) \<in> set ts" "c \<noteq> i" for c q r
      using that unfolding mem by (cases "r = Some i") auto
    with that show ?thesis unfolding same_project_def by blast
  qed
  have "map fst ?ts = map fst (filter (\<lambda>t. fst t \<noteq> i) ts)" by simp
  then have "distinct (map fst ?ts)"
    using g by (simp add: graph_ok_def distinct_map_filter del: map_map)
  moreover have "acyclic (set ?es)" "acyclic (parents_of ?ts)"
    using g acyclic_subset [OF _ sub(2)] acyclic_subset [OF _ sub(1)] by (simp_all only: graph_ok_def fst_conv snd_conv simp_thms)
  moreover have "same_project ?ts a b" if e: "(a, b) \<in> set ?es \<union> parents_of ?ts" for a b
    using e sub g keep [of a b] ends [OF e] by (auto simp: graph_ok_def)
  ultimately show ?thesis by (simp add: graph_ok_def)
qed

lemma skeleton_update_rows:
  "skeleton (d\<lparr>td_tasks := update_rows q f (td_tasks d)\<rparr>) = skeleton d"
  if "\<And>t. tk_id (f t) = tk_id t" "\<And>t. tk_project_id (f t) = tk_project_id t"
    "\<And>t. tk_parent_task_id (f t) = tk_parent_task_id t"
  using that by (simp add: skeleton_def update_rows_def dep_edges_def)

lemma skeleton_reopen [simp]: "skeleton (snd (reopen_terminal now i d)) = skeleton d"
  by (simp add: reopen_terminal_def Let_def skeleton_update_rows)

lemma td_deps_reopen [simp]: "td_deps (snd (reopen_terminal now i d)) = td_deps d"
  by (simp add: reopen_terminal_def Let_def)

lemma same_project_tasks:
  "s \<in> set (td_tasks d) \<Longrightarrow> t \<in> set (td_tasks d) \<Longrightarrow> tk_project_id s = tk_project_id t \<Longrightarrow>
   same_project (fst (skeleton d)) (tk_id s) (tk_id t)"
  unfolding same_project_def skeleton_def by force

lemma graph_ok_insert_dependencies:
  "insert_dependencies x now i project as d = Inr d' \<Longrightarrow> graph_ok (skeleton d) \<Longrightarrow>
   i \<notin> set as \<Longrightarrow> s \<in> set (td_tasks d) \<Longrightarrow> tk_id s = i \<Longrightarrow> tk_project_id s = project \<Longrightarrow>
   graph_ok (skeleton d')"
proof (induction as arbitrary: d)
  case Nil
  then show ?case by simp
next
  case (Cons a as)
  let ?d = "d\<lparr>td_deps := td_deps d @ [\<lparr>dp_task_id = i, dp_depends_on = a, dp_created_at = now\<rparr>]\<rparr>"
  from Cons.prems obtain t where t: "t \<in> set (td_tasks d)" "tk_id t = a" "tk_project_id t = project"
    and cyc: "(a, i) \<notin> (set (dep_edges d))\<^sup>+"
    and rest: "insert_dependencies x now i project as ?d = Inr d'"
    by (auto simp: ancestors_trancl split: option.splits if_splits dest!: find_task_Some)
  have es: "skeleton ?d = (fst (skeleton d), dep_edges d @ [(i, a)])"
    by (simp add: skeleton_def dep_edges_def)
  have "same_project (fst (skeleton d)) i a"
    using same_project_tasks [OF Cons.prems(4) t(1)] t Cons.prems by simp
  moreover have "acyclic (insert (i, a) (set (dep_edges d)))"
    using Cons.prems cyc by (intro acyclic_add [of "set (dep_edges d)"]) (auto simp: graph_ok_def skeleton_def)
  ultimately have "graph_ok (skeleton ?d)"
    using Cons.prems(2) by (auto simp: graph_ok_def es) (auto simp: skeleton_def)
  with Cons.IH [OF rest] Cons.prems show ?case by simp
qed

lemma graph_ok_fewer:
  assumes "graph_ok (ts, es)" and "set es' \<subseteq> set es"
  shows "graph_ok (ts, es')"
proof -
  have "acyclic (set es')"
    using assms(1) acyclic_subset [OF _ assms(2)] by (simp add: graph_ok_def)
  with assms show ?thesis by (simp add: graph_ok_def) blast
qed

lemma graph_ok_delete_deps:
  "graph_ok (skeleton d) \<Longrightarrow> graph_ok (skeleton (d\<lparr>td_deps := delete_rows q (td_deps d)\<rparr>))"
  by (auto simp: skeleton_def dep_edges_def elim!: graph_ok_fewer)

lemma replace_dependencies_cases:
  obtains "snd (replace_dependencies x now i ids d) = d"
  | s d1 where "i \<notin> set ids" "s \<in> set (td_tasks d)" "tk_id s = i"
      "insert_dependencies x now i (tk_project_id s) ids
         (d\<lparr>td_deps := delete_rows (\<lambda>r. dp_task_id r = i) (td_deps d)\<rparr>) = Inr d1"
      "snd (replace_dependencies x now i ids d) = snd (reopen_terminal now i d1)"
proof (cases "snd (replace_dependencies x now i ids d) = d")
  case True
  then show ?thesis using that(1) by blast
next
  case False
  then show ?thesis
    using that(2)
    by (auto simp: replace_dependencies_def validated_snd replace_dependencies_tx_def split_beta Let_def
        split: option.splits sum.splits if_splits dest!: find_task_Some)
qed

lemma graph_ok_dependencies:
  assumes "graph_ok (skeleton d)"
  shows "graph_ok (skeleton (snd (replace_dependencies x now i ids d)))"
proof (cases rule: replace_dependencies_cases [of x now i ids d])
  case 1
  with assms show ?thesis by simp
next
  case (2 s d1)
  from graph_ok_insert_dependencies [OF 2(4) graph_ok_delete_deps [OF assms] 2(1)] 2 show ?thesis
    by simp
qed

lemma distinct_rows_eq:
  "distinct (map tk_id (td_tasks d)) \<Longrightarrow> s \<in> set (td_tasks d) \<Longrightarrow> t \<in> set (td_tasks d) \<Longrightarrow>
   tk_id s = tk_id t \<Longrightarrow> s = t"
  by (auto simp: distinct_map dest: inj_onD)

lemma graph_ok_tasks_create:
  assumes g: "graph_ok (skeleton d)"
  shows "graph_ok (skeleton (snd (tasks_create now t d)))"
proof -
  have "graph_ok (skeleton d')" if "insert_task now t d = Inr (project, d')" for project d'
  proof -
    from that have rel: "validate_task_relationships d (nk_id t) project (nk_session_id t)
          (nk_parent_task_id t) (nk_worktree_id t) = Inr ()"
      and new: "nk_id t \<notin> tk_id ` set (td_tasks d)"
      and d': "d' = d\<lparr>td_tasks := td_tasks d @ [new_task_row now project t]\<rparr>"
      by (auto simp: insert_task_def find_task_None split: sum.splits if_splits)
    have sk: "skeleton d' = (fst (skeleton d) @ [(nk_id t, project, nk_parent_task_id t)], dep_edges d)"
      by (simp add: skeleton_def d' dep_edges_def new_task_row_def)
    have "\<exists>r. (q, project, r) \<in> set (fst (skeleton d))" if "nk_parent_task_id t = Some q" for q
      using relationships_ok(3) [OF rel that] by (force simp: skeleton_def)
    moreover have "nk_id t \<notin> fst ` set (fst (skeleton d))" using new by (force simp: skeleton_def)
    ultimately show ?thesis
      unfolding sk using g by (intro graph_ok_create) (simp_all add: skeleton_def)
  qed
  with g show ?thesis
    by (auto simp: tasks_create_def validated_snd split_beta split: sum.split)
qed

lemma graph_ok_update_task:
  assumes g: "graph_ok (skeleton d)"
  shows "graph_ok (skeleton (snd (update_task now i p d)))"
proof -
  have "graph_ok (skeleton d')" if tx: "update_task_tx now i p d = Inr (b, d')" for b d'
  proof (cases "find_task i d")
    case None
    with tx g show ?thesis by (simp add: update_task_tx_def)
  next
    case (Some c)
    define c' where "c' = patched now p c"
    let ?ts = "fst (skeleton d)"
    from tx Some have rel: "validate_task_relationships d i (tk_project_id c') (tk_session_id c')
          (tk_parent_task_id c') (tk_worktree_id c') = Inr ()"
      and d': "d' = d\<lparr>td_tasks := update_rows (\<lambda>t. tk_id t = i) (patched now p) (td_tasks d)\<rparr>"
      by (auto simp: update_task_tx_def Let_def c'_def split: sum.splits if_splits)
    have dist: "distinct (map tk_id (td_tasks d))"
      using g by (simp add: graph_ok_def skeleton_def comp_def)
    have c: "c \<in> set (td_tasks d)" "tk_id c = i" using find_task_Some [OF Some] by auto
    have same: "t = c" if "t \<in> set (td_tasks d)" "tk_id t = i" for t
      using distinct_rows_eq [OF dist that(1) c(1)] that c by simp
    have ts: "fst (skeleton d') = reparent i (tk_project_id c') (tk_parent_task_id c') ?ts"
      unfolding d' skeleton_def reparent_def update_rows_def
      using same by (auto simp: c'_def patched_def)
    have "dep_edges d' = dep_edges d" by (simp add: d' dep_edges_def)
    then have sk: "skeleton d' = (reparent i (tk_project_id c') (tk_parent_task_id c') ?ts, dep_edges d)"
      using ts by (simp add: skeleton_def)
    note ok = relationships_ok [OF rel]
    have mem: "(a, q, r) \<in> set ?ts \<longleftrightarrow> (\<exists>t \<in> set (td_tasks d). a = tk_id t \<and> q = tk_project_id t \<and> r = tk_parent_task_id t)"
      for a q r by (auto simp: skeleton_def)
    have child: "r = tk_project_id c'" if "(a, r, Some i) \<in> set ?ts" for a r
      using that ok(2) unfolding mem by (auto simp: inconsistent_related_def)
    have dep: "q = tk_project_id c'"
      if "(a, b) \<in> set (dep_edges d)" "(e, q, r) \<in> set ?ts" "a = i \<and> e = b \<or> b = i \<and> e = a" for a b e q r
    proof (rule ccontr)
      assume q: "q \<noteq> tk_project_id c'"
      from that(1) obtain row where row: "row \<in> set (td_deps d)" "a = dp_task_id row" "b = dp_depends_on row"
        by (auto simp: dep_edges_def)
      from that(2) obtain t where t: "t \<in> set (td_tasks d)" "e = tk_id t" "q = tk_project_id t"
        unfolding mem by blast
      have "tk_id t = (if dp_task_id row = i then dp_depends_on row else dp_task_id row)
          \<and> (dp_task_id row = i \<or> dp_depends_on row = i)"
        using that(3) row t by auto
      with row t q ok(2) show False unfolding inconsistent_related_def by blast
    qed
    show ?thesis
      unfolding sk
    proof (rule graph_ok_reparent)
      show "graph_ok (?ts, dep_edges d)" using g by (simp add: skeleton_def)
      show "i \<in> fst ` set ?ts" using c by (force simp: skeleton_def)
      show "q \<noteq> i \<and> (\<exists>r. (q, tk_project_id c', r) \<in> set ?ts) \<and> (q, i) \<notin> (parents_of ?ts)\<^sup>+"
        if "tk_parent_task_id c' = Some q" for q
        using ok(1) ok(3) [OF that] that unfolding parents_of_edges mem by metis
    qed (use child dep in blast)+
  qed
  with g show ?thesis
    by (auto simp: update_task_def validated_snd split: sum.split)
qed

lemma graph_ok_delete_task:
  assumes g: "graph_ok (skeleton d)"
  shows "graph_ok (skeleton (snd (delete_task i d)))"
proof (cases "find_task i d = None")
  case True
  with g show ?thesis by (simp add: delete_task_def Let_def)
next
  case False
  have deps: "map (\<lambda>r. (dp_task_id r, dp_depends_on r)) (filter (\<lambda>r. dp_task_id r \<noteq> i \<and> dp_depends_on r \<noteq> i) rs)
      = filter (\<lambda>e. fst e \<noteq> i \<and> snd e \<noteq> i) (map (\<lambda>r. (dp_task_id r, dp_depends_on r)) rs)" for rs
    by (induction rs) auto
  have tasks: "map (\<lambda>t. (tk_id t, tk_project_id t, tk_parent_task_id t))
        (update_rows (\<lambda>t. tk_parent_task_id t = Some i) (\<lambda>t. t\<lparr>tk_parent_task_id := None\<rparr>)
          (filter (\<lambda>t. tk_id t \<noteq> i) ts))
      = map (\<lambda>t. if snd (snd t) = Some i then (fst t, fst (snd t), None) else t)
       (filter (\<lambda>t. fst t \<noteq> i) (map (\<lambda>t. (tk_id t, tk_project_id t, tk_parent_task_id t)) ts))" for ts
    by (induction ts) auto
  obtain t where "find_task i d = Some t" using False by auto
  then have "skeleton (snd (delete_task i d)) =
     (map (\<lambda>t. if snd (snd t) = Some i then (fst t, fst (snd t), None) else t)
       (filter (\<lambda>t. fst t \<noteq> i) (fst (skeleton d))), filter (\<lambda>e. fst e \<noteq> i \<and> snd e \<noteq> i) (snd (skeleton d)))"
    by (simp add: delete_task_def Let_def skeleton_def delete_rows_def delete_steps_def dep_edges_def
        deps tasks)
  then show ?thesis using graph_ok_delete [of "fst (skeleton d)" "snd (skeleton d)"] g by simp
qed

lemma skeleton_tables [simp]:
  "skeleton (d\<lparr>td_steps := a\<rparr>) = skeleton d" "skeleton (d\<lparr>td_step_deps := b\<rparr>) = skeleton d"
  "skeleton (d\<lparr>td_criteria := c\<rparr>) = skeleton d" "skeleton (d\<lparr>td_criterion_events := e\<rparr>) = skeleton d"
  "skeleton (d\<lparr>td_runs := rs, td_gates := gs, td_browser_definitions := ds, td_browser_runs := bs\<rparr>) = skeleton d"
  by (simp_all add: skeleton_def dep_edges_def)

lemma insert_steps_tables:
  "insert_steps now i ss d = Inr d' \<Longrightarrow> \<exists>rows. d' = d\<lparr>td_steps := td_steps d @ rows\<rparr>
     \<and> rows = map (\<lambda>(n, s). \<lparr>st_id = dr_id s, st_task_id = i, st_sequence = int n + 1,
          st_title = trim (dr_title s), st_description = dr_description s, st_status = dr_status s,
          st_updated_at = now\<rparr>) ss
     \<and> st_id ` set (td_steps d) \<inter> st_id ` set rows = {}"
proof (induction ss arbitrary: d)
  case Nil
  then show ?case by simp
next
  case (Cons ns ss)
  obtain n s where ns: "ns = (n, s)" by fastforce
  from Cons.prems have new: "dr_id s \<notin> st_id ` set (td_steps d)"
    by (auto simp: ns split: if_splits)
  let ?row = "\<lparr>st_id = dr_id s, st_task_id = i, st_sequence = int n + 1, st_title = trim (dr_title s),
          st_description = dr_description s, st_status = dr_status s, st_updated_at = now\<rparr>"
  from Cons.prems new have "insert_steps now i ss (d\<lparr>td_steps := td_steps d @ [?row]\<rparr>) = Inr d'"
    by (auto simp: ns split: if_splits)
  from Cons.IH [OF this] obtain rows where
    "d' = d\<lparr>td_steps := (td_steps d @ [?row]) @ rows\<rparr>"
    "rows = map (\<lambda>(n, s). \<lparr>st_id = dr_id s, st_task_id = i, st_sequence = int n + 1,
          st_title = trim (dr_title s), st_description = dr_description s, st_status = dr_status s,
          st_updated_at = now\<rparr>) ss"
    "st_id ` set (td_steps d @ [?row]) \<inter> st_id ` set rows = {}"
    by auto
  with new show ?case
    by (intro exI [of _ "?row # rows"]) (auto simp: ns)
qed

lemma skeleton_delete_steps [simp]: "skeleton (delete_steps q d) = skeleton d"
  by (simp add: delete_steps_def Let_def skeleton_def dep_edges_def)

text \<open>Replacing a plan, as far as it succeeds.\<close>

definition plan_rows :: "millis \<Rightarrow> uuid \<Rightarrow> plan_step_draft list \<Rightarrow> step_row list" where
  "plan_rows now i steps = map (\<lambda>(n, s). \<lparr>st_id = dr_id s, st_task_id = i, st_sequence = int n + 1,
          st_title = trim (dr_title s), st_description = dr_description s, st_status = dr_status s,
          st_updated_at = now\<rparr>) (enumerate 0 steps)"

definition with_plan :: "millis \<Rightarrow> uuid \<Rightarrow> plan_step_draft list \<Rightarrow> task_db \<Rightarrow> task_db" where
  "with_plan now i steps d =
     (let d1 = delete_steps (\<lambda>s. st_task_id s = i) d in
      d1\<lparr>td_steps := td_steps d1 @ plan_rows now i steps,
         td_step_deps := td_step_deps d1 @ step_dep_rows now steps\<rparr>)"

lemma replace_plan_tx_Inr:
  assumes "replace_plan_tx now i steps d = Inr (b, d')"
  shows "find_task i d \<noteq> None"
    and "st_id ` set (td_steps (delete_steps (\<lambda>s. st_task_id s = i) d)) \<inter> dr_id ` set steps = {}"
    and "d' = (snd (reopen_terminal now i (with_plan now i steps d)))
           \<lparr>td_tasks := update_rows (\<lambda>t. tk_id t = i) (\<lambda>t. t\<lparr>tk_updated_at := now\<rparr>)
              (td_tasks (snd (reopen_terminal now i (with_plan now i steps d))))\<rparr>"
proof -
  let ?d = "delete_steps (\<lambda>s. st_task_id s = i) d"
  from assms obtain d1 where ex: "find_task i d \<noteq> None"
    and ins: "insert_steps now i (enumerate 0 steps) ?d = Inr d1"
    and d': "d' = (snd (reopen_terminal now i (d1\<lparr>td_step_deps := td_step_deps d1 @ step_dep_rows now steps\<rparr>)))
           \<lparr>td_tasks := update_rows (\<lambda>t. tk_id t = i) (\<lambda>t. t\<lparr>tk_updated_at := now\<rparr>)
              (td_tasks (snd (reopen_terminal now i (d1\<lparr>td_step_deps := td_step_deps d1 @ step_dep_rows now steps\<rparr>))))\<rparr>"
    by (auto simp: replace_plan_tx_def Let_def split_beta split: sum.splits if_splits)
  from insert_steps_tables [OF ins] have d1: "d1 = ?d\<lparr>td_steps := td_steps ?d @ plan_rows now i steps\<rparr>"
    and disj: "st_id ` set (td_steps ?d) \<inter> st_id ` set (plan_rows now i steps) = {}"
    by (auto simp: plan_rows_def)
  have "st_id ` set (plan_rows now i steps) = dr_id ` snd ` set (enumerate 0 steps)"
    by (force simp: plan_rows_def image_iff)
  also have "snd ` set (enumerate 0 steps) = set steps"
    by (metis list.set_map map_snd_enumerate)
  finally show "st_id ` set (td_steps ?d) \<inter> dr_id ` set steps = {}" using disj by simp
  show "find_task i d \<noteq> None" by (rule ex)
  have "d1\<lparr>td_step_deps := td_step_deps d1 @ step_dep_rows now steps\<rparr> = with_plan now i steps d"
    by (simp add: with_plan_def Let_def d1)
  then show "d' = (snd (reopen_terminal now i (with_plan now i steps d)))
           \<lparr>td_tasks := update_rows (\<lambda>t. tk_id t = i) (\<lambda>t. t\<lparr>tk_updated_at := now\<rparr>)
              (td_tasks (snd (reopen_terminal now i (with_plan now i steps d))))\<rparr>"
    unfolding d' by simp
qed

lemma replace_plan_snd:
  "snd (replace_plan now i steps d) =
     (case validate_plan steps of Inl e \<Rightarrow> d
      | Inr u \<Rightarrow> (case replace_plan_tx now i steps d of Inl e \<Rightarrow> d | Inr (b, d') \<Rightarrow> d'))"
  by (simp add: replace_plan_def split_beta validated_snd split: sum.split)

lemma skeleton_plan [simp]: "skeleton (snd (replace_plan now i steps d)) = skeleton d"
proof -
  have "skeleton d' = skeleton d" if "replace_plan_tx now i steps d = Inr (b, d')" for b d'
  proof -
    have "skeleton (with_plan now i steps d) = skeleton d"
      by (simp add: with_plan_def Let_def)
    then show ?thesis
      using replace_plan_tx_Inr(3) [OF that] by (simp add: skeleton_update_rows)
  qed
  then show ?thesis by (simp add: replace_plan_snd split: sum.split prod.split)
qed

lemma skeleton_event [simp]: "skeleton (record_criterion_event now c k a v d) = skeleton d"
  by (simp add: record_criterion_event_def)

lemma skeleton_change [simp]: "skeleton (snd (change_criterion x now i f k a r d)) = skeleton d"
  by (auto simp: change_criterion_def transaction_snd Let_def split_beta split: option.split)

lemma skeleton_criterion_ops [simp]:
  "skeleton (snd (create_criterion x now c a d)) = skeleton d"
  "skeleton (snd (update_criterion x now i de so rq a d)) = skeleton d"
  "skeleton (snd (delete_criterion x now i a d)) = skeleton d"
  "skeleton (snd (add_evidence x now i v a d)) = skeleton d"
  "skeleton (snd (evaluate_criterion x now i b w a d)) = skeleton d"
  "skeleton (snd (override_criterion x now i r a d)) = skeleton d"
  by (auto simp: create_criterion_def update_criterion_def delete_criterion_def add_evidence_def
      evaluate_criterion_def override_criterion_def transaction_snd Let_def split_beta
      split: sum.split option.split)

lemma skeleton_status [simp]: "skeleton (snd (set_task_status now i s d)) = skeleton d"
  by (auto simp: set_task_status_def validated_snd set_task_status_tx_def set_status_row_def
      skeleton_update_rows split: sum.split)

lemma graph_ok_step: "graph_ok (skeleton d) \<Longrightarrow> graph_ok (skeleton (task_step_fn x op d))"
  by (cases op) (simp_all add: graph_ok_tasks_create graph_ok_update_task graph_ok_delete_task
      graph_ok_dependencies)

text \<open>The state the planning starts from: projects, sessions and worktrees, and nothing else.\<close>

definition no_tasks :: "db \<Rightarrow> (uuid \<times> uuid) list \<Rightarrow> task_db" where
  "no_tasks b ws = db.extend b \<lparr>td_worktrees = ws, td_tasks = [], td_deps = [], td_steps = [],
     td_step_deps = [], td_criteria = [], td_criterion_events = [], td_commands = [], td_runs = [], td_gates = [],
     td_results = [], td_artifacts = [], td_verification_events = [],
     td_browser_definitions = [], td_browser_runs = []\<rparr>"

lemma graph_ok_run: "graph_ok (skeleton (run (task_step_fn x) ops (no_tasks b ws)))"
proof -
  have "graph_ok (skeleton (no_tasks b ws))"
    by (simp add: graph_ok_def skeleton_def no_tasks_def dep_edges_def parents_of_def db.defs acyclic_def)
  with graph_ok_step show ?thesis by (rule run_invariant)
qed

text \<open>C12: However tasks are created, moved, deleted and made dependent on each other, neither the
  dependencies nor the parents ever form a cycle, and a dependency or a parent always leads to
  an existing task of the same project.
\<close>

theorem task_graphs_stay_acyclic:
  "let d = run (task_step_fn x) ops (no_tasks b ws) in
     acyclic (set (dep_edges d)) \<and> acyclic (set (parent_edges d))
     \<and> list_all (\<lambda>(a, b). find_task a d \<noteq> None \<and> find_task b d \<noteq> None
          \<and> map_option tk_project_id (find_task a d) = map_option tk_project_id (find_task b d))
        (dep_edges d @ parent_edges d)"
proof -
  let ?d = "run (task_step_fn x) ops (no_tasks b ws)"
  note g = graph_ok_run [of x ops b ws]
  have dist: "distinct (map tk_id (td_tasks ?d))"
    using g by (simp add: graph_ok_def skeleton_def comp_def)
  have same: "find_task a ?d \<noteq> None \<and> find_task b ?d \<noteq> None
      \<and> map_option tk_project_id (find_task a ?d) = map_option tk_project_id (find_task b ?d)"
    if "same_project (fst (skeleton ?d)) a b" for a b
  proof -
    from that obtain s t where "s \<in> set (td_tasks ?d)" "t \<in> set (td_tasks ?d)" "tk_id s = a" "tk_id t = b"
      "tk_project_id s = tk_project_id t"
      by (auto simp: same_project_def skeleton_def)
    then show ?thesis
      using find_key_unique [OF dist] by (simp add: find_task_def)
  qed
  have "same_project (fst (skeleton ?d)) (fst e) (snd e)"
    if "e \<in> set (dep_edges ?d @ parent_edges ?d)" for e
    using that graph_okD [OF g] by (simp only: set_append parents_of_edges snd_skeleton)
  then have "list_all (\<lambda>(a, b). find_task a ?d \<noteq> None \<and> find_task b ?d \<noteq> None
          \<and> map_option tk_project_id (find_task a ?d) = map_option tk_project_id (find_task b ?d))
        (dep_edges ?d @ parent_edges ?d)"
    unfolding list_all_iff case_prod_beta using same by blast
  moreover have "acyclic (set (dep_edges ?d))" "acyclic (set (parent_edges ?d))"
    using g by (simp_all add: graph_ok_def parents_of_edges snd_skeleton)
  ultimately show ?thesis unfolding Let_def by (intro conjI)
qed

subsection \<open>Completed tasks\<close>

definition own_open :: "task_db \<Rightarrow> uuid \<Rightarrow> bool" where
  "own_open d i \<longleftrightarrow> (\<exists>s \<in> set (td_steps d). step_open i s) \<or> (\<exists>c \<in> set (td_criteria d). criterion_open i c)"

definition references_ok :: "task_db \<Rightarrow> bool" where
  "references_ok d \<longleftrightarrow> distinct (map ac_id (td_criteria d))
     \<and> (\<forall>s \<in> set (td_steps d). st_task_id s \<in> tk_id ` set (td_tasks d))
     \<and> (\<forall>c \<in> set (td_criteria d). ac_task_id c \<in> tk_id ` set (td_tasks d))
     \<and> (\<forall>r \<in> set (td_step_deps d). dp_task_id r \<in> st_id ` set (td_steps d)
          \<and> dp_depends_on r \<in> st_id ` set (td_steps d))"

lemma own_open_task: "references_ok d \<Longrightarrow> own_open d i \<Longrightarrow> i \<in> tk_id ` set (td_tasks d)"
  by (auto simp: own_open_def step_open_def criterion_open_def references_ok_def)

lemma td_steps_delete_steps [simp]: "td_steps (delete_steps q d) = delete_rows q (td_steps d)"
  by (simp add: delete_steps_def Let_def)

lemma step_deps_delete_steps:
  assumes "\<forall>r \<in> set (td_step_deps d). dp_task_id r \<in> st_id ` set (td_steps d)
      \<and> dp_depends_on r \<in> st_id ` set (td_steps d)"
  shows "\<forall>r \<in> set (td_step_deps (delete_steps q d)).
      dp_task_id r \<in> st_id ` set (td_steps (delete_steps q d))
      \<and> dp_depends_on r \<in> st_id ` set (td_steps (delete_steps q d))"
proof -
  have key: "x \<in> st_id ` {s \<in> set (td_steps d). \<not> q s}"
    if "x \<in> st_id ` set (td_steps d)" "x \<notin> st_id ` {s \<in> set (td_steps d). q s}" for x
    using that by blast
  show ?thesis using assms by (auto simp: delete_steps_def Let_def intro!: key)
qed

text \<open>Up to the task i, no completed task has an open step or criterion of its own.\<close>

definition gated :: "uuid option \<Rightarrow> task_db \<Rightarrow> bool" where
  "gated e d \<longleftrightarrow> (\<forall>t \<in> set (td_tasks d). is_completed (tk_status t) \<longrightarrow> e \<noteq> Some (tk_id t)
     \<longrightarrow> \<not> own_open d (tk_id t))"

lemma is_completed_review [simp]: "\<not> is_completed ''review''"
  by (simp add: is_completed_def)

lemma tk_ids_update_rows:
  "(\<And>t. tk_id (f t) = tk_id t) \<Longrightarrow> tk_id ` set (update_rows q f ts) = tk_id ` set ts"
  using map_update_rows_same [of tk_id f q ts] by (metis list.set_map)

lemma references_ok_tasks:
  "tk_id ` set ts = tk_id ` set (td_tasks d) \<Longrightarrow> references_ok (d\<lparr>td_tasks := ts\<rparr>) = references_ok d"
  by (simp add: references_ok_def)

lemma own_open_tasks [simp]: "own_open (d\<lparr>td_tasks := ts\<rparr>) i = own_open d i"
  by (simp add: own_open_def)

lemma references_ok_reopen [simp]: "references_ok (snd (reopen_terminal now i d)) = references_ok d"
  unfolding reopen_terminal_def Let_def snd_conv
  by (rule references_ok_tasks) (simp add: tk_ids_update_rows)

lemma own_open_reopen [simp]: "own_open (snd (reopen_terminal now i d)) = own_open d"
  by (rule ext) (simp add: reopen_terminal_def Let_def)

lemma gated_reopen: "gated (Some i) d \<Longrightarrow> gated None (snd (reopen_terminal now i d))"
  by (auto simp: gated_def reopen_terminal_def Let_def set_update_rows own_open_def split: if_splits)

lemma gated_weaken: "gated None d \<Longrightarrow> gated e d"
  by (simp add: gated_def)

text \<open>A rewriting of the tasks that keeps identifiers and completes nothing.\<close>

lemma gated_tasks:
  assumes "gated e d" and "\<And>t. t \<in> set ts \<Longrightarrow> is_completed (tk_status t) \<Longrightarrow>
      (\<exists>s \<in> set (td_tasks d). tk_id s = tk_id t \<and> is_completed (tk_status s)) \<or> \<not> own_open d (tk_id t)"
  shows "gated e (d\<lparr>td_tasks := ts\<rparr>)"
  using assms unfolding gated_def by simp metis

definition planning_ok :: "task_db \<Rightarrow> bool" where
  "planning_ok d \<longleftrightarrow> references_ok d \<and> gated None d"

lemma planning_ok_create: "planning_ok d \<Longrightarrow> planning_ok (snd (tasks_create now t d))"
proof -
  assume ok: "planning_ok d"
  have "planning_ok d'" if "insert_task now t d = Inr (p, d')" for p d'
  proof -
    from that have d': "d' = d\<lparr>td_tasks := td_tasks d @ [new_task_row now p t]\<rparr>"
      and new: "nk_id t \<notin> tk_id ` set (td_tasks d)"
      by (auto simp: insert_task_def find_task_None split: sum.splits if_splits)
    have "\<not> own_open d (nk_id t)"
      using new ok own_open_task by (auto simp: planning_ok_def)
    then have "gated None d'"
      using ok unfolding d' by (intro gated_tasks) (auto simp: planning_ok_def new_task_row_def)
    with ok show ?thesis by (auto simp: planning_ok_def references_ok_def d')
  qed
  with ok show ?thesis
    by (auto simp: tasks_create_def validated_snd split_beta split: sum.split)
qed

lemma planning_ok_rows:
  assumes "planning_ok d" and "\<And>t. tk_id (f t) = tk_id t"
    and "\<And>t. t \<in> set (td_tasks d) \<Longrightarrow> q t \<Longrightarrow> is_completed (tk_status (f t)) \<Longrightarrow>
      is_completed (tk_status t) \<or> \<not> own_open d (tk_id t)"
  shows "planning_ok (d\<lparr>td_tasks := update_rows q f (td_tasks d)\<rparr>)"
proof -
  have "gated None (d\<lparr>td_tasks := update_rows q f (td_tasks d)\<rparr>)"
  proof (rule gated_tasks)
    show "gated None d" using assms(1) by (simp add: planning_ok_def)
    fix t assume "t \<in> set (update_rows q f (td_tasks d))" and c: "is_completed (tk_status t)"
    then obtain s where "s \<in> set (td_tasks d)" "t = (if q s then f s else s)"
      by (auto simp: set_update_rows)
    with assms(2) assms(3) [of s] c
    show "(\<exists>s \<in> set (td_tasks d). tk_id s = tk_id t \<and> is_completed (tk_status s)) \<or> \<not> own_open d (tk_id t)"
      by (cases "q s") auto
  qed
  with assms show ?thesis by (simp add: planning_ok_def references_ok_tasks tk_ids_update_rows)
qed

lemma planning_ok_update: "planning_ok d \<Longrightarrow> planning_ok (snd (update_task now i p d))"
  by (auto simp: update_task_def validated_snd update_task_tx_def Let_def patched_def
      intro!: planning_ok_rows split: sum.split option.split)

lemma planning_ok_status: "planning_ok d \<Longrightarrow> planning_ok (snd (set_task_status now i st d))"
  by (auto simp: set_task_status_def validated_snd set_task_status_tx_def set_status_row_def
      has_completion_blockers_def own_open_def intro!: planning_ok_rows split: sum.split)

lemma planning_ok_delete: "planning_ok d \<Longrightarrow> planning_ok (snd (delete_task i d))"
proof (cases "find_task i d = None")
  case True
  then show "planning_ok d \<Longrightarrow> ?thesis" by (simp add: delete_task_def Let_def)
next
  case False
  assume ok: "planning_ok d"
  let ?d = "snd (delete_task i d)"
  have tables: "td_steps ?d = delete_rows (\<lambda>s. st_task_id s = i) (td_steps d)"
    "td_criteria ?d = delete_rows (\<lambda>c. ac_task_id c = i) (td_criteria d)"
    "td_tasks ?d = update_rows (\<lambda>t. tk_parent_task_id t = Some i) (\<lambda>t. t\<lparr>tk_parent_task_id := None\<rparr>)
       (delete_rows (\<lambda>t. tk_id t = i) (td_tasks d))"
    "td_step_deps ?d = td_step_deps (delete_steps (\<lambda>s. st_task_id s = i) d)"
    using False by (auto simp: delete_task_def Let_def) (auto simp: delete_steps_def Let_def)
  have ids: "tk_id ` set (td_tasks ?d) = tk_id ` set (td_tasks d) - {i}"
    unfolding tables by (subst tk_ids_update_rows) auto
  have "references_ok ?d"
    using ok step_deps_delete_steps [of d "\<lambda>s. st_task_id s = i"]
    unfolding planning_ok_def references_ok_def ids tables(1,2,4) td_steps_delete_steps
    by (auto simp: distinct_map_delete_rows)
  moreover have "gated None ?d"
    unfolding gated_def
  proof (intro ballI impI)
    fix t assume "t \<in> set (td_tasks ?d)" "is_completed (tk_status t)"
    then have "\<exists>s \<in> set (td_tasks d). tk_id s = tk_id t \<and> is_completed (tk_status s)"
      by (auto simp: tables set_update_rows split: if_splits)
    then have "\<not> own_open d (tk_id t)" using ok by (auto simp: planning_ok_def gated_def)
    then show "\<not> own_open ?d (tk_id t)" by (auto simp: own_open_def tables)
  qed
  ultimately show ?thesis by (simp add: planning_ok_def)
qed

lemma planning_ok_tables:
  assumes "planning_ok d" and "td_tasks d' = td_tasks d" "td_steps d' = td_steps d"
    "td_step_deps d' = td_step_deps d" "td_criteria d' = td_criteria d"
  shows "planning_ok d'"
  using assms by (simp add: planning_ok_def references_ok_def gated_def own_open_def)

lemma planning_ok_reopen: "references_ok d \<Longrightarrow> gated (Some i) d \<Longrightarrow> planning_ok (snd (reopen_terminal now i d))"
  by (simp add: planning_ok_def gated_reopen)

lemma insert_dependencies_tables:
  "insert_dependencies x now i p as d = Inr d' \<Longrightarrow> td_tasks d' = td_tasks d \<and> td_steps d' = td_steps d
     \<and> td_step_deps d' = td_step_deps d \<and> td_criteria d' = td_criteria d
     \<and> td_criterion_events d' = td_criterion_events d"
  by (induction as arbitrary: d) (fastforce split: option.splits if_splits)+

lemma planning_ok_dependencies:
  assumes "planning_ok d"
  shows "planning_ok (snd (replace_dependencies x now i ids d))"
proof (cases rule: replace_dependencies_cases [of x now i ids d])
  case 1
  with assms show ?thesis by simp
next
  case (2 s d1)
  have "planning_ok d1"
    using insert_dependencies_tables [OF 2(4)] by (intro planning_ok_tables [OF assms]) simp_all
  then show ?thesis
    unfolding 2(5) by (intro planning_ok_reopen) (auto simp: planning_ok_def gated_weaken)
qed

lemma position_Some: "i \<in> dr_id ` set steps \<Longrightarrow> position i steps \<noteq> None"
  by (induction steps) auto

lemma map_filter_Nil_iff: "List.map_filter f xs = [] \<longleftrightarrow> (\<forall>x \<in> set xs. f x = None)"
  by (induction xs) (auto simp: map_filter_simps split: option.splits)

lemma validate_plan_ok:
  assumes "validate_plan steps = Inr u"
  shows "distinct (map dr_id steps)" and "\<And>n s. (n, s) \<in> set (enumerate 0 steps) \<Longrightarrow> draft_error steps (n, s) = None"
  using assms by (auto simp: validate_plan_def map_filter_Nil_iff split: if_splits list.splits)

lemma draft_ok:
  assumes "validate_plan steps = Inr u" and "s \<in> set steps"
  shows "trim (dr_title s) \<noteq> []" "dr_status s \<in> set STEP_STATUSES"
    "distinct (dr_dependency_ids s)" "set (dr_dependency_ids s) \<subseteq> dr_id ` set steps"
proof -
  obtain n where "n < length steps" "steps ! n = s" using assms(2) by (auto simp: in_set_conv_nth)
  then have "(n, s) \<in> set (enumerate 0 steps)" by (simp add: in_set_enumerate_eq)
  from validate_plan_ok(2) [OF assms(1) this]
  have e: "trim (dr_title s) \<noteq> [] \<and> dr_status s \<in> set STEP_STATUSES
      \<and> distinct (dr_dependency_ids s) \<and> (\<forall>i \<in> set (dr_dependency_ids s). i \<in> dr_id ` set steps)"
    unfolding draft_error_def validate_status_def Let_def prod.case
    by (simp split: if_splits)
  then show "trim (dr_title s) \<noteq> []" "dr_status s \<in> set STEP_STATUSES"
    "distinct (dr_dependency_ids s)" "set (dr_dependency_ids s) \<subseteq> dr_id ` set steps"
    by blast+
qed

lemma set_plan_rows:
  "st_id ` set (plan_rows now i steps) = dr_id ` set steps"
  "\<And>r. r \<in> set (plan_rows now i steps) \<Longrightarrow> st_task_id r = i"
proof -
  have "st_id ` set (plan_rows now i steps) = dr_id ` snd ` set (enumerate 0 steps)"
    by (force simp: plan_rows_def image_iff)
  also have "snd ` set (enumerate 0 steps) = set steps" by (metis list.set_map map_snd_enumerate)
  finally show "st_id ` set (plan_rows now i steps) = dr_id ` set steps" .
qed (auto simp: plan_rows_def)

lemma planning_ok_with_plan:
  assumes ok: "planning_ok d" and v: "validate_plan steps = Inr u" and t: "find_task i d \<noteq> None"
  shows "references_ok (with_plan now i steps d)" "gated (Some i) (with_plan now i steps d)"
proof -
  let ?d = "with_plan now i steps d"
  have tables: "td_tasks ?d = td_tasks d" "td_criteria ?d = td_criteria d"
    "td_steps ?d = delete_rows (\<lambda>s. st_task_id s = i) (td_steps d) @ plan_rows now i steps"
    "td_step_deps ?d = td_step_deps (delete_steps (\<lambda>s. st_task_id s = i) d) @ step_dep_rows now steps"
    by (simp_all add: with_plan_def Let_def) (simp_all add: delete_steps_def Let_def)
  have deps: "dp_task_id r \<in> dr_id ` set steps \<and> dp_depends_on r \<in> dr_id ` set steps"
    if "r \<in> set (step_dep_rows now steps)" for r
    using that draft_ok(4) [OF v, THEN subsetD] by (auto simp: step_dep_rows_def)
  have "i \<in> tk_id ` set (td_tasks d)" using t by (simp add: find_task_None)
  then show "references_ok ?d"
    using ok step_deps_delete_steps [of d "\<lambda>s. st_task_id s = i"] deps set_plan_rows
    unfolding references_ok_def planning_ok_def tables
    by (auto simp: image_Un)
  show "gated (Some i) ?d"
    using ok set_plan_rows(2)
    unfolding gated_def planning_ok_def own_open_def tables
    by (auto simp: step_open_def)
qed

lemma planning_ok_plan: "planning_ok d \<Longrightarrow> planning_ok (snd (replace_plan now i steps d))"
proof -
  assume ok: "planning_ok d"
  have "planning_ok d'" if v: "validate_plan steps = Inr u" and tx: "replace_plan_tx now i steps d = Inr (b, d')" for u b d'
  proof -
    have "planning_ok (snd (reopen_terminal now i (with_plan now i steps d)))"
      using replace_plan_tx_Inr(1) [OF tx] planning_ok_with_plan [OF ok v] by (intro planning_ok_reopen) auto
    then show ?thesis
      unfolding replace_plan_tx_Inr(3) [OF tx] by (rule planning_ok_rows) simp_all
  qed
  with ok show ?thesis by (auto simp: replace_plan_snd split: sum.split)
qed

lemma get_criterion_Some: "get_criterion i d = Some c \<Longrightarrow> c \<in> set (td_criteria d) \<and> ac_id c = i"
  by (auto simp: get_criterion_def dest: find_Some_in_set)

lemma record_event:
  obtains e where "record_criterion_event now c k a v d = d\<lparr>td_criterion_events := td_criterion_events d @ [e]\<rparr>"
    "ce_criterion_id e = ac_id c" "ce_kind e = k" "ce_actor e = trim a"
  by (rule that [where e = "\<lparr>ce_id = foldl max 0 (map ce_id (td_criterion_events d)) + 1,
          ce_criterion_id = ac_id c, ce_task_id = ac_task_id c, ce_kind = k, ce_actor = trim a,
          ce_payload = v, ce_created_at = now\<rparr>"]) (simp_all add: record_criterion_event_def)

text \<open>What one of the operations on a criterion leaves behind when the criterion exists.\<close>

lemma change_criterion_snd:
  assumes f: "\<And>c. ac_id (f c) = ac_id c" "\<And>c. ac_task_id (f c) = ac_task_id c"
  obtains "snd (change_criterion x now i f k a r d) = d"
  | c e d1 where "c \<in> set (td_criteria d)" "ac_id c = i"
      "ce_criterion_id e = i" "ce_kind e = k" "ce_actor e = trim a"
      "d1 = d\<lparr>td_criteria := update_rows (\<lambda>c. ac_id c = i) f (td_criteria d),
              td_criterion_events := td_criterion_events d @ [e]\<rparr>"
      "snd (change_criterion x now i f k a r d) = (if r then snd (reopen_terminal now (ac_task_id c) d1) else d1)"
proof (cases "get_criterion i d")
  case None
  then show ?thesis using that(1) by (simp add: change_criterion_def transaction_snd)
next
  case (Some c)
  have g: "get_criterion i (d\<lparr>td_criteria := update_rows (\<lambda>c. ac_id c = i) f (td_criteria d)\<rparr>) = Some (f c)"
    using Some get_criterion_Some [OF Some] f by (simp add: get_criterion_def find_update_rows)
  let ?d = "d\<lparr>td_criteria := update_rows (\<lambda>c. ac_id c = i) f (td_criteria d)\<rparr>"
  obtain e where e: "record_criterion_event now (f c) k a (json_before_after x c (f c)) ?d
      = ?d\<lparr>td_criterion_events := td_criterion_events ?d @ [e]\<rparr>"
    "ce_criterion_id e = ac_id (f c)" "ce_kind e = k" "ce_actor e = trim a"
    by (rule record_event)
  show ?thesis
  proof (rule that(2))
    show "c \<in> set (td_criteria d)" "ac_id c = i" using get_criterion_Some [OF Some] by auto
    show "ce_criterion_id e = i" "ce_kind e = k" "ce_actor e = trim a"
      using e f get_criterion_Some [OF Some] by auto
    show "snd (change_criterion x now i f k a r d) = (if r then snd (reopen_terminal now (ac_task_id c)
        (d\<lparr>td_criteria := update_rows (\<lambda>c. ac_id c = i) f (td_criteria d),
           td_criterion_events := td_criterion_events d @ [e]\<rparr>))
       else d\<lparr>td_criteria := update_rows (\<lambda>c. ac_id c = i) f (td_criteria d),
           td_criterion_events := td_criterion_events d @ [e]\<rparr>)"
      by (simp add: change_criterion_def transaction_snd Some g Let_def split_beta e(1) f)
  qed (rule refl)
qed

lemma planning_ok_change:
  assumes ok: "planning_ok d" and f: "\<And>c. ac_id (f c) = ac_id c" "\<And>c. ac_task_id (f c) = ac_task_id c"
    and r: "r \<or> (\<forall>c. ac_status (f c) = ac_status c \<and> ac_is_required (f c) = ac_is_required c)"
  shows "planning_ok (snd (change_criterion x now i f k a r d))"
proof (cases rule: change_criterion_snd [of f x now i k a r d, OF f])
  case 1
  with ok show ?thesis by simp
next
  case (2 c e d1)
  have same: "c' = c" if "c' \<in> set (td_criteria d)" "ac_id c' = i" for c'
    using ok that 2(1,2) by (auto simp: planning_ok_def references_ok_def distinct_map dest: inj_onD)
  have ids: "map ac_id (update_rows (\<lambda>c. ac_id c = i) f (td_criteria d)) = map ac_id (td_criteria d)"
    using f by (simp add: map_update_rows_same)
  have refs: "references_ok d1"
    using ok ids f by (auto simp: planning_ok_def references_ok_def 2(6) set_update_rows)
  have mem: "c' \<in> set (td_criteria d1) \<Longrightarrow> \<exists>c0 \<in> set (td_criteria d). c' = c0 \<or> c0 = c \<and> c' = f c" for c'
    using same by (auto simp: 2(6) set_update_rows split: if_splits)
  have gate: "gated (Some (ac_task_id c)) d1"
    unfolding gated_def
  proof (intro ballI impI)
    fix t assume t: "t \<in> set (td_tasks d1)" "is_completed (tk_status t)" "Some (ac_task_id c) \<noteq> Some (tk_id t)"
    then have "\<not> own_open d (tk_id t)" using ok by (auto simp: planning_ok_def gated_def 2(6))
    then show "\<not> own_open d1 (tk_id t)"
      using t(3) mem f by (fastforce simp: own_open_def criterion_open_def 2(6))
  qed
  show ?thesis
  proof (cases r)
    case True
    then show ?thesis unfolding 2(7) using refs gate by (simp add: planning_ok_reopen)
  next
    case False
    with r have st: "ac_status (f c') = ac_status c'" "ac_is_required (f c') = ac_is_required c'" for c' by auto
    have "own_open d1 = own_open d"
    proof (rule ext)
      fix j
      have "criterion_open j (if ac_id c' = i then f c' else c') = criterion_open j c'" for c'
        using st f by (simp add: criterion_open_def)
      then show "own_open d1 j = own_open d j"
        by (simp add: own_open_def 2(6) bex_update_rows)
    qed
    then have "gated None d1" using ok by (simp add: planning_ok_def gated_def 2(6))
    then show ?thesis unfolding 2(7) using refs False by (simp add: planning_ok_def)
  qed
qed

lemma create_criterion_cases:
  obtains "snd (create_criterion x now c a d) = d"
  | e where "trim a \<noteq> []" "get_criterion (nc_id c) d = None" "find_task (nc_task_id c) d \<noteq> None"
      "ce_criterion_id e = nc_id c" "ce_kind e = ''created''" "ce_actor e = trim a"
      "snd (create_criterion x now c a d) = snd (reopen_terminal now (nc_task_id c)
         (d\<lparr>td_criteria := td_criteria d @ [new_criterion_row now c],
            td_criterion_events := td_criterion_events d @ [e]\<rparr>))"
proof (cases "trim (nc_description c) = [] \<or> trim a = [] \<or> get_criterion (nc_id c) d \<noteq> None \<or> find_task (nc_task_id c) d = None")
  case True
  then have "snd (create_criterion x now c a d) = d"
    by (auto simp: create_criterion_def validate_actor_def Let_def split_beta transaction_snd split: sum.split)
  then show ?thesis by (rule that(1))
next
  case False
  let ?row = "new_criterion_row now c" and ?d = "d\<lparr>td_criteria := td_criteria d @ [new_criterion_row now c]\<rparr>"
  obtain e where e: "record_criterion_event now ?row ''created'' a (json_snapshot x ?row) ?d
      = ?d\<lparr>td_criterion_events := td_criterion_events ?d @ [e]\<rparr>"
    "ce_criterion_id e = ac_id ?row" "ce_kind e = ''created''" "ce_actor e = trim a"
    by (rule record_event)
  from False have "snd (create_criterion x now c a d) = snd (reopen_terminal now (nc_task_id c)
      (record_criterion_event now ?row ''created'' a (json_snapshot x ?row) ?d))"
    by (auto simp: create_criterion_def validate_actor_def Let_def split_beta transaction_snd)
  with False e show ?thesis
    by (intro that(2) [of e]) (auto simp: new_criterion_row_def)
qed

lemma planning_ok_create_criterion: "planning_ok d \<Longrightarrow> planning_ok (snd (create_criterion x now c a d))"
proof -
  assume ok: "planning_ok d"
  show ?thesis
  proof (cases rule: create_criterion_cases [of x now c a d])
    case 1
    with ok show ?thesis by simp
  next
    case (2 e)
    have "nc_id c \<notin> ac_id ` set (td_criteria d)"
      using 2(2) by (auto simp: get_criterion_def find_None_iff)
    moreover have "nc_task_id c \<in> tk_id ` set (td_tasks d)"
      using 2(3) by (simp add: find_task_None)
    ultimately show ?thesis
      unfolding 2(7) using ok
      by (intro planning_ok_reopen)
        (auto simp: planning_ok_def references_ok_def gated_def own_open_def criterion_open_def new_criterion_row_def)
  qed
qed

lemma delete_criterion_cases:
  obtains "snd (delete_criterion x now i a d) = d"
  | c e where "c \<in> set (td_criteria d)" "ac_id c = i" "ce_criterion_id e = i" "ce_kind e = ''deleted''"
      "snd (delete_criterion x now i a d) = snd (reopen_terminal now (ac_task_id c)
         (d\<lparr>td_criterion_events := td_criterion_events d @ [e],
            td_criteria := delete_rows (\<lambda>c. ac_id c = i) (td_criteria d)\<rparr>))"
proof (cases "trim a = [] \<or> get_criterion i d = None")
  case True
  then have "snd (delete_criterion x now i a d) = d"
    by (auto simp: delete_criterion_def validate_actor_def transaction_snd)
  then show ?thesis by (rule that(1))
next
  case False
  then obtain c where c: "get_criterion i d = Some c" by auto
  obtain e where e: "record_criterion_event now c ''deleted'' a (json_snapshot x c) d
      = d\<lparr>td_criterion_events := td_criterion_events d @ [e]\<rparr>"
    "ce_criterion_id e = ac_id c" "ce_kind e = ''deleted''" "ce_actor e = trim a"
    by (rule record_event)
  have "snd (delete_criterion x now i a d) = snd (reopen_terminal now (ac_task_id c)
         (d\<lparr>td_criterion_events := td_criterion_events d @ [e],
            td_criteria := delete_rows (\<lambda>c. ac_id c = i) (td_criteria d)\<rparr>))"
    using False by (simp add: delete_criterion_def validate_actor_def Let_def split_beta transaction_snd c e(1))
  then show ?thesis using get_criterion_Some [OF c] e by (intro that(2) [of c e]) auto
qed

lemma planning_ok_delete_criterion: "planning_ok d \<Longrightarrow> planning_ok (snd (delete_criterion x now i a d))"
proof -
  assume ok: "planning_ok d"
  show ?thesis
  proof (cases rule: delete_criterion_cases [of x now i a d])
    case 1
    with ok show ?thesis by simp
  next
    case (2 c e)
    then show ?thesis
      unfolding 2(5) using ok
      by (intro planning_ok_reopen)
        (auto simp: planning_ok_def references_ok_def gated_def own_open_def distinct_map_delete_rows)
  qed
qed

lemma planning_ok_criterion_ops:
  "planning_ok d \<Longrightarrow> planning_ok (snd (update_criterion x now i de so rq a d))"
  "planning_ok d \<Longrightarrow> planning_ok (snd (add_evidence x now i v a d))"
  "planning_ok d \<Longrightarrow> planning_ok (snd (evaluate_criterion x now i b w a d))"
  "planning_ok d \<Longrightarrow> planning_ok (snd (override_criterion x now i r a d))"
  by (auto simp: update_criterion_def add_evidence_def evaluate_criterion_def override_criterion_def
      intro!: planning_ok_change split: sum.split)

lemma planning_ok_step: "planning_ok d \<Longrightarrow> planning_ok (task_step_fn x op d)"
  by (cases op) (auto simp: planning_ok_create planning_ok_update planning_ok_delete planning_ok_status
      planning_ok_dependencies planning_ok_plan planning_ok_create_criterion planning_ok_criterion_ops
      planning_ok_delete_criterion intro: planning_ok_tables)

lemma planning_ok_run: "planning_ok (run (task_step_fn x) ops (no_tasks b ws))"
proof -
  have "planning_ok (no_tasks b ws)"
    by (simp add: planning_ok_def references_ok_def gated_def no_tasks_def db.defs)
  with planning_ok_step show ?thesis by (rule run_invariant)
qed

text \<open>A completed task stays complete: in every reachable state a task whose status is
  completed or done has no unfinished step and no required criterion that is not passed or
  overridden. Every change that could break this sends the task back to review.
\<close>

theorem completed_tasks_stay_satisfied:
  "let d = run (task_step_fn x) ops (no_tasks b ws) in
     list_all (\<lambda>t. filter (step_open (tk_id t)) (td_steps d) = []
         \<and> filter (criterion_open (tk_id t)) (td_criteria d) = [])
       (filter (\<lambda>t. is_completed (tk_status t)) (td_tasks d))"
  using planning_ok_run [of x ops b ws]
  by (auto simp: Let_def planning_ok_def gated_def own_open_def list_all_iff filter_empty_conv)

text \<open>C13: The gate and the report agree. Setting a task to completed or done succeeds exactly
  when the list of blockers that \<open>task.get\<close> shows is empty; a refused attempt leaves every
  table as it was.
\<close>

theorem completion_gate_is_the_report:
  "is_ok (fst (set_task_status now i ''completed'' d)) = blockers_is_empty (completion_blockers i d)
   \<and> is_ok (fst (set_task_status now i ''done'' d)) = blockers_is_empty (completion_blockers i d)
   \<and> (blockers_is_empty (completion_blockers i d) \<or> snd (set_task_status now i ''completed'' d) = d
        \<and> snd (set_task_status now i ''done'' d) = d)"
proof -
  have sorts: "(sort_key k xs = []) = (xs = [])" for k :: "'b \<Rightarrow> 'c::linorder" and xs
    by (metis length_0_conv length_sort)
  have rep: "blockers_is_empty (completion_blockers i d) = (\<not> has_completion_blockers d i)"
    by (auto simp: blockers_is_empty_def completion_blockers_def has_completion_blockers_def
        sorts filter_empty_conv)
  have prefix: "strip_prefix VALIDATION_PREFIX (VALIDATION_PREFIX @ m) = Some m" for m by simp
  have "\<not> is_ok (fst (set_task_status now i st d)) \<and> snd (set_task_status now i st d) = d"
    if "has_completion_blockers d i" "is_completed st" "st \<in> set TASK_STATUSES" for st
    using that by (simp add: set_task_status_def validate_status_def validated_def transaction_def
        set_task_status_tx_def validation_error_def prefix)
  moreover have "is_ok (fst (set_task_status now i st d))"
    if "\<not> has_completion_blockers d i" "st \<in> set TASK_STATUSES" for st
    using that by (simp add: set_task_status_def validate_status_def validated_def transaction_def
        set_task_status_tx_def)
  moreover have "is_completed ''completed''" "is_completed ''done''"
    "''completed'' \<in> set TASK_STATUSES" "''done'' \<in> set TASK_STATUSES"
    by (simp_all add: is_completed_def TASK_STATUSES_def)
  ultimately show ?thesis unfolding rep by blast
qed

subsection \<open>Well-formed rows\<close>

definition task_wf :: "task_row \<Rightarrow> bool" where
  "task_wf t \<longleftrightarrow> tk_status t \<in> set TASK_STATUSES \<and> trim (tk_title t) \<noteq> []
     \<and> \<not> negative (tk_estimated_cost_micros t) \<and> \<not> negative (tk_actual_cost_micros t)
     \<and> currency_ok (tk_cost_currency t)
     \<and> (tk_completed_at t \<noteq> None \<longleftrightarrow> is_completed (tk_status t))"

definition step_wf :: "step_row \<Rightarrow> bool" where
  "step_wf s \<longleftrightarrow> st_title s \<noteq> [] \<and> st_status s \<in> set STEP_STATUSES \<and> 1 \<le> st_sequence s"

text \<open>A criterion and its events: nothing is satisfied without a record of who did it.\<close>

definition judged :: "criterion_event list \<Rightarrow> criterion \<Rightarrow> string \<Rightarrow> (criterion_event \<Rightarrow> bool) \<Rightarrow> bool" where
  "judged es c kind q \<longleftrightarrow>
     list_ex (\<lambda>e. ce_criterion_id e = ac_id c \<and> ce_kind e = kind \<and> ce_actor e \<noteq> [] \<and> q e) es"

definition criterion_wf :: "criterion_event list \<Rightarrow> criterion \<Rightarrow> bool" where
  "criterion_wf es c \<longleftrightarrow> ac_description c \<noteq> [] \<and>
     (if ac_status c = ''pending'' then ac_overridden_by c = None
      else if ac_status c = ''overridden''
      then ac_override_reason c \<notin> {None, Some []}
           \<and> judged es c ''overridden'' (\<lambda>e. ac_overridden_by c = Some (ce_actor e))
      else ac_status c \<in> {''passed'', ''failed''} \<and> ac_overridden_by c = None
           \<and> judged es c ''evaluated'' (\<lambda>e. True))"

lemma criterion_wf_same:
  assumes "criterion_wf es c" and "ac_id c' = ac_id c" "ac_status c' = ac_status c"
    "ac_overridden_by c' = ac_overridden_by c" "ac_override_reason c' = ac_override_reason c"
    "ac_description c' \<noteq> []"
  shows "criterion_wf es c'"
  using assms by (auto simp: criterion_wf_def judged_def split: if_splits)

lemma criterion_wf_description: "criterion_wf es c \<Longrightarrow> ac_description c \<noteq> []"
  by (simp add: criterion_wf_def)

lemma criterion_wf_more: "criterion_wf es c \<Longrightarrow> criterion_wf (es @ [e]) c"
  by (auto simp: criterion_wf_def judged_def)

definition rows_wf :: "task_db \<Rightarrow> bool" where
  "rows_wf d \<longleftrightarrow> (\<forall>t \<in> set (td_tasks d). task_wf t) \<and> (\<forall>s \<in> set (td_steps d). step_wf s)
     \<and> (\<forall>c \<in> set (td_criteria d). criterion_wf (td_criterion_events d) c)"

lemma rows_wf_tasks:
  assumes "rows_wf d" and "\<And>t. task_wf t \<Longrightarrow> q t \<Longrightarrow> task_wf (f t)"
  shows "rows_wf (d\<lparr>td_tasks := update_rows q f (td_tasks d)\<rparr>)"
  using assms by (auto simp: rows_wf_def set_update_rows)

lemma rows_wf_reopen: "rows_wf d \<Longrightarrow> rows_wf (snd (reopen_terminal now i d))"
  unfolding reopen_terminal_def Let_def snd_conv
  by (rule rows_wf_tasks) (simp_all add: task_wf_def TASK_STATUSES_def)

lemma unwrap_or_cases: "(\<And>b. o' = Some b \<Longrightarrow> p b) \<Longrightarrow> (o' = None \<Longrightarrow> p a) \<Longrightarrow> p (unwrap_or o' a)"
  by (cases o') (auto simp: unwrap_or_def)

lemma rows_wf_create: "rows_wf d \<Longrightarrow> rows_wf (snd (tasks_create now t d))"
proof -
  assume ok: "rows_wf d"
  have "rows_wf d'" if "insert_task now t d = Inr (p, d')" "validate_new_task_fields t = Inr u" for p d' u
  proof -
    from that(1) have d': "d' = d\<lparr>td_tasks := td_tasks d @ [new_task_row now p t]\<rparr>"
      by (auto simp: insert_task_def split: sum.splits if_splits)
    have "task_wf (new_task_row now p t)"
      using that(2) by (auto simp: validate_new_task_fields_def validate_status_def task_wf_def
          new_task_row_def split: if_splits)
    with ok show ?thesis by (auto simp: rows_wf_def d')
  qed
  with ok show ?thesis
    by (auto simp: tasks_create_def validated_snd split_beta split: sum.split)
qed

lemma rows_wf_update: "rows_wf d \<Longrightarrow> rows_wf (snd (update_task now i p d))"
proof -
  assume ok: "rows_wf d"
  have wf: "task_wf (patched now p t)" if "task_wf t" "validate_patch i p = Inr u" for t u
  proof -
    have title: "trim (unwrap_or (pt_title p) (tk_title t)) \<noteq> []"
      using that by (cases "pt_title p") (auto simp: validate_patch_def task_wf_def unwrap_or_def split: if_splits)
    have cost: "\<not> negative (unwrap_or (pt_estimated_cost_micros p) (tk_estimated_cost_micros t))"
      "\<not> negative (unwrap_or (pt_actual_cost_micros p) (tk_actual_cost_micros t))"
      using that by (cases "pt_estimated_cost_micros p"; cases "pt_actual_cost_micros p";
        auto simp: validate_patch_def task_wf_def unwrap_or_def flat_negative_def split: if_splits)+
    have "currency_ok (unwrap_or (pt_cost_currency p) (tk_cost_currency t))"
      using that by (cases "pt_cost_currency p") (auto simp: validate_patch_def task_wf_def unwrap_or_def split: if_splits)
    with title cost that(1) show ?thesis by (simp add: task_wf_def patched_def)
  qed
  with ok show ?thesis
    by (auto simp: update_task_def validated_snd update_task_tx_def Let_def
        intro!: rows_wf_tasks split: sum.split option.split)
qed

lemma rows_wf_status: "rows_wf d \<Longrightarrow> rows_wf (snd (set_task_status now i st d))"
  by (auto simp: set_task_status_def validated_snd set_task_status_tx_def set_status_row_def validate_status_def
      task_wf_def intro!: rows_wf_tasks split: sum.split)

lemma rows_wf_tables:
  assumes "rows_wf d" and "td_tasks d' = td_tasks d" "td_steps d' = td_steps d"
    "td_criteria d' = td_criteria d" "td_criterion_events d' = td_criterion_events d"
  shows "rows_wf d'"
  using assms by (simp add: rows_wf_def)

lemma rows_wf_delete: "rows_wf d \<Longrightarrow> rows_wf (snd (delete_task i d))"
proof (cases "find_task i d = None")
  case True
  then show "rows_wf d \<Longrightarrow> ?thesis" by (simp add: delete_task_def Let_def)
next
  case False
  assume "rows_wf d"
  then show ?thesis
    using False by (auto simp: delete_task_def delete_steps_def Let_def rows_wf_def set_update_rows task_wf_def)
qed

lemma rows_wf_dependencies: "rows_wf d \<Longrightarrow> rows_wf (snd (replace_dependencies x now i ids d))"
proof (cases rule: replace_dependencies_cases [of x now i ids d])
  case (2 s d1)
  assume "rows_wf d"
  then have "rows_wf d1"
    using insert_dependencies_tables [OF 2(4)] by (auto intro: rows_wf_tables)
  then show ?thesis unfolding 2(5) by (rule rows_wf_reopen)
qed simp

lemma rows_wf_plan: "rows_wf d \<Longrightarrow> rows_wf (snd (replace_plan now i steps d))"
proof -
  assume ok: "rows_wf d"
  have "rows_wf d'" if v: "validate_plan steps = Inr u" and tx: "replace_plan_tx now i steps d = Inr (b, d')" for u b d'
  proof -
    have "step_wf r" if "r \<in> set (plan_rows now i steps)" for r
    proof -
      from that obtain n s where s: "(n, s) \<in> set (enumerate 0 steps)" and r: "r = \<lparr>st_id = dr_id s,
          st_task_id = i, st_sequence = int n + 1, st_title = trim (dr_title s),
          st_description = dr_description s, st_status = dr_status s, st_updated_at = now\<rparr>"
        by (auto simp: plan_rows_def)
      from s have "s \<in> set steps" by (auto simp: in_set_enumerate_eq)
      from draft_ok(1,2) [OF v this] show ?thesis by (simp add: step_wf_def r)
    qed
    then have "rows_wf (with_plan now i steps d)"
      using ok by (auto simp: rows_wf_def with_plan_def delete_steps_def Let_def)
    then show ?thesis
      unfolding replace_plan_tx_Inr(3) [OF tx]
      by (intro rows_wf_tasks rows_wf_reopen) (simp_all add: task_wf_def)
  qed
  with ok show ?thesis by (auto simp: replace_plan_snd split: sum.split)
qed

lemma rows_wf_change:
  assumes ok: "rows_wf d" and f: "\<And>c. ac_id (f c) = ac_id c" "\<And>c. ac_task_id (f c) = ac_task_id c"
    and wf: "\<And>c e. c \<in> set (td_criteria d) \<Longrightarrow> criterion_wf (td_criterion_events d) c \<Longrightarrow>
      ac_id c = i \<Longrightarrow> ce_criterion_id e = i \<Longrightarrow> ce_kind e = k \<Longrightarrow> ce_actor e = trim a \<Longrightarrow>
      criterion_wf (td_criterion_events d @ [e]) (f c)"
  shows "rows_wf (snd (change_criterion x now i f k a r d))"
proof (cases rule: change_criterion_snd [of f x now i k a r d, OF f])
  case 1
  with ok show ?thesis by simp
next
  case (2 c e d1)
  have "criterion_wf (td_criterion_events d @ [e]) (if ac_id c' = i then f c' else c')"
    if "c' \<in> set (td_criteria d)" for c'
    using that ok wf [OF that _ _ 2(3-5)] by (simp add: rows_wf_def criterion_wf_more)
  then have "rows_wf d1"
    using ok by (simp add: rows_wf_def 2(6) ball_update_rows)
  then show ?thesis unfolding 2(7) by (simp add: rows_wf_reopen)
qed

lemma rows_wf_create_criterion: "rows_wf d \<Longrightarrow> rows_wf (snd (create_criterion x now c a d))"
proof (cases "trim (nc_description c) = []")
  case True
  then show "rows_wf d \<Longrightarrow> ?thesis" by (simp add: create_criterion_def)
next
  case False
  assume ok: "rows_wf d"
  show ?thesis
  proof (cases rule: create_criterion_cases [of x now c a d])
    case 1
    with ok show ?thesis by simp
  next
    case (2 e)
    have "criterion_wf (td_criterion_events d @ [e]) (new_criterion_row now c)"
      using False by (simp add: criterion_wf_def new_criterion_row_def)
    then show ?thesis
      unfolding 2(7) using ok by (intro rows_wf_reopen) (auto simp: rows_wf_def criterion_wf_more)
  qed
qed

lemma rows_wf_delete_criterion: "rows_wf d \<Longrightarrow> rows_wf (snd (delete_criterion x now i a d))"
proof (cases rule: delete_criterion_cases [of x now i a d])
  case (2 c e)
  assume "rows_wf d"
  then show ?thesis
    unfolding 2(5) by (intro rows_wf_reopen) (auto simp: rows_wf_def criterion_wf_more)
qed simp

lemma rows_wf_criterion_ops:
  assumes ok: "rows_wf d"
  shows "rows_wf (snd (update_criterion x now i de so rq a d))"
    "rows_wf (snd (add_evidence x now i v a d))"
    "rows_wf (snd (evaluate_criterion x now i b w a d))"
    "rows_wf (snd (override_criterion x now i r a d))"
proof -
  note defs = criterion_wf_def judged_def
  show "rows_wf (snd (update_criterion x now i de so rq a d))"
  proof (cases "de \<noteq> None \<and> trim (the de) = [] \<or> trim a = []")
    case True
    with ok show ?thesis by (auto simp: update_criterion_def validate_actor_def)
  next
    case False
    then have des: "unwrap_or (map_option trim de) s \<noteq> []" if "s \<noteq> []" for s
      using that by (cases de) (auto simp: unwrap_or_def)
    from False show ?thesis
      unfolding update_criterion_def validate_actor_def
      by simp (intro impI conjI rows_wf_change [OF ok] criterion_wf_same [OF criterion_wf_more];
          simp add: des criterion_wf_description)
  qed
  show "rows_wf (snd (add_evidence x now i v a d))"
    unfolding add_evidence_def using ok
    by (auto split: sum.split intro!: rows_wf_change [OF ok] criterion_wf_same [OF criterion_wf_more])
      (simp add: criterion_wf_description)
  show "rows_wf (snd (evaluate_criterion x now i b w a d))"
    using ok by (auto simp: evaluate_criterion_def validate_actor_def defs intro!: rows_wf_change)
  show "rows_wf (snd (override_criterion x now i r a d))"
    using ok by (auto simp: override_criterion_def defs intro!: rows_wf_change)
qed

lemma rows_wf_step: "rows_wf d \<Longrightarrow> rows_wf (task_step_fn x op d)"
  by (cases op) (auto simp: rows_wf_create rows_wf_update rows_wf_delete rows_wf_status
      rows_wf_dependencies rows_wf_plan rows_wf_create_criterion rows_wf_criterion_ops
      rows_wf_delete_criterion intro: rows_wf_tables)

text \<open>C14: Every row that planning ever stores is well formed: task and step statuses are among
  the declared ones, titles are not blank, costs not negative, currencies three capitals, a task has a
  completion time exactly when it is completed; and every criterion that is not pending has an
  event in its history of the matching kind with a named actor, an overridden one with the reason and
  the actor that the row itself names.
\<close>

theorem stored_rows_well_formed:
  "let d = run (task_step_fn x) ops (no_tasks b ws) in
     list_all task_wf (td_tasks d) \<and> list_all step_wf (td_steps d)
     \<and> list_all (criterion_wf (td_criterion_events d)) (td_criteria d)"
proof -
  have "rows_wf (no_tasks b ws)" by (simp add: rows_wf_def no_tasks_def db.defs)
  with rows_wf_step have "rows_wf (run (task_step_fn x) ops (no_tasks b ws))" by (rule run_invariant)
  then show ?thesis by (simp add: Let_def rows_wf_def list_all_iff)
qed

subsection \<open>A plan reads back\<close>

lemma map_sort_key: "map f (sort_key f xs) = sort (map f xs)"
proof (induction xs)
  case (Cons x xs)
  have "map f (insort_key f x ys) = insort (f x) (map f ys)" for ys by (induction ys) auto
  with Cons show ?case by simp
qed simp

lemma map_validation_Inr [simp]: "map_validation r = Inr v \<longleftrightarrow> r = Inr v"
  by (cases r rule: map_validation.cases) (auto split: option.split)

lemma map_outcome_Inr: "map_outcome f r = Inr v \<longleftrightarrow> (\<exists>a. r = Inr a \<and> v = f a)"
  by (cases r) auto

lemma validated_Inr: "validated f d = (Inr v, d') \<longleftrightarrow> f d = Inr (v, d')"
  by (auto simp: validated_def transaction_def split_beta split: sum.split)

lemma sort_key_all_equal: "(\<And>x. x \<in> set xs \<Longrightarrow> k x = c) \<Longrightarrow> sort_key k xs = xs"
proof -
  assume "\<And>x. x \<in> set xs \<Longrightarrow> k x = c"
  then have "map k xs = replicate (length xs) c" by (induction xs) auto
  then show ?thesis by (intro sort_key_id_if_sorted) simp
qed

lemma filter_step_dep_rows:
  "distinct (map dr_id steps) \<Longrightarrow> s \<in> set steps \<Longrightarrow>
   filter (\<lambda>r. dp_task_id r = dr_id s) (step_dep_rows now steps)
     = map (\<lambda>a. \<lparr>dp_task_id = dr_id s, dp_depends_on = a, dp_created_at = now\<rparr>) (dr_dependency_ids s)"
proof (induction steps)
  case Nil
  then show ?case by simp
next
  case (Cons t steps)
  have none: "filter (\<lambda>r. dp_task_id r = dr_id t) (step_dep_rows now steps) = []"
    using Cons.prems(1) by (auto simp: step_dep_rows_def filter_empty_conv) (metis imageI)
  show ?case
  proof (cases "s = t")
    case True
    then show ?thesis using none by (simp add: step_dep_rows_def)
  next
    case False
    with Cons.prems have "dr_id t \<noteq> dr_id s" "s \<in> set steps" by auto
    then show ?thesis using Cons by (simp add: step_dep_rows_def)
  qed
qed

text \<open>A plan reads back as it was written: after a successful replacement \<open>plan\<close>
  returns one step per draft, in the drafts' order and numbered from 1, with trimmed titles and
  the same descriptions and statuses, and with exactly the draft's dependencies, sorted; and
  that is the value the operation returns. Nothing of the old plan is left.
\<close>

theorem plan_round_trip:
  assumes "replace_plan now i steps (run (task_step_fn x) ops (no_tasks b ws)) = (Inr m, d')"
  shows "mu_value m = plan i d' \<and>
    map (\<lambda>s. (ts_id s, ts_task_id s, ts_sequence s, ts_title s, ts_description s, ts_status s,
             ts_dependency_ids s)) (plan i d')
    = map (\<lambda>(n, s). (dr_id s, i, int n + 1, trim (dr_title s), dr_description s, dr_status s,
             sort (dr_dependency_ids s))) (enumerate 0 steps)"
proof -
  define d where "d = run (task_step_fn x) ops (no_tasks b ws)"
  have ok: "references_ok d" using planning_ok_run by (simp add: d_def planning_ok_def)
  from assms obtain u bb where v: "validate_plan steps = Inr u"
    and tx: "replace_plan_tx now i steps d = Inr (bb, d')" and m: "mu_value m = plan i d'"
    by (cases "validated (replace_plan_tx now i steps) d")
      (auto simp: replace_plan_def d_def [symmetric] map_outcome_Inr validated_Inr split: sum.splits)
  note tx' = replace_plan_tx_Inr [OF tx]
  have tables: "td_steps d' = delete_rows (\<lambda>s. st_task_id s = i) (td_steps d) @ plan_rows now i steps"
    "td_step_deps d' = td_step_deps (delete_steps (\<lambda>s. st_task_id s = i) d) @ step_dep_rows now steps"
    unfolding tx'(3) reopen_terminal_def Let_def
    by (simp_all add: with_plan_def delete_steps_def Let_def)
  have mine: "filter (\<lambda>s. st_task_id s = i) (td_steps d') = plan_rows now i steps"
    using set_plan_rows(2) by (auto simp: tables delete_rows_def filter_empty_conv filter_id_conv)
  have "sorted (map st_sequence (plan_rows now i steps))"
  proof -
    have "map st_sequence (plan_rows now i steps) = map (\<lambda>n. int n + 1) (map fst (enumerate 0 steps))"
      unfolding plan_rows_def map_map by (rule map_cong [OF refl]) (auto simp: comp_def)
    also have "\<dots> = map (\<lambda>n. int n + 1) [0 ..< length steps]"
      by (simp only: map_fst_enumerate add_0)
    finally show ?thesis by (simp add: sorted_iff_nth_mono)
  qed
  then have sorted: "sort_key st_sequence (plan_rows now i steps) = plan_rows now i steps"
    by (rule sort_key_id_if_sorted)
  have deps: "map dp_depends_on (sort_key dp_created_at (sort_key dp_depends_on
         (filter (\<lambda>r. dp_task_id r = dr_id s) (td_step_deps d')))) = sort (dr_dependency_ids s)"
    if s: "s \<in> set steps" for s
  proof -
    have "dr_id s \<notin> st_id ` set (delete_rows (\<lambda>s. st_task_id s = i) (td_steps d))"
      using tx'(2) s by auto
    then have "filter (\<lambda>r. dp_task_id r = dr_id s) (td_step_deps (delete_steps (\<lambda>s. st_task_id s = i) d)) = []"
      using step_deps_delete_steps [of d "\<lambda>s. st_task_id s = i"] ok
      unfolding references_ok_def td_steps_delete_steps filter_empty_conv by metis
    then have f: "filter (\<lambda>r. dp_task_id r = dr_id s) (td_step_deps d')
      = map (\<lambda>a. \<lparr>dp_task_id = dr_id s, dp_depends_on = a, dp_created_at = now\<rparr>) (dr_dependency_ids s)"
      using filter_step_dep_rows [OF validate_plan_ok(1) [OF v] s] by (simp add: tables(2))
    have "sort_key dp_created_at (sort_key dp_depends_on (filter (\<lambda>r. dp_task_id r = dr_id s) (td_step_deps d')))
      = sort_key dp_depends_on (filter (\<lambda>r. dp_task_id r = dr_id s) (td_step_deps d'))"
      by (rule sort_key_all_equal [where c = now]) (auto simp: f)
    then show ?thesis by (simp add: f map_sort_key comp_def)
  qed
  have "map (\<lambda>s. (ts_id s, ts_task_id s, ts_sequence s, ts_title s, ts_description s, ts_status s,
             ts_dependency_ids s)) (plan i d')
    = map (\<lambda>r. (st_id r, st_task_id r, st_sequence r, st_title r, st_description r, st_status r,
        map dp_depends_on (sort_key dp_created_at (sort_key dp_depends_on
         (filter (\<lambda>q. dp_task_id q = st_id r) (td_step_deps d')))))) (plan_rows now i steps)"
    unfolding plan_def mine sorted by (simp add: comp_def)
  also have "\<dots> = map (\<lambda>(n, s). (dr_id s, i, int n + 1, trim (dr_title s), dr_description s, dr_status s,
             sort (dr_dependency_ids s))) (enumerate 0 steps)"
    unfolding plan_rows_def map_map
    by (rule map_cong [OF refl]) (auto simp: in_set_enumerate_eq deps)
  finally show ?thesis using m by simp
qed

definition sample_task :: new_task where
  "sample_task = \<lparr>nk_id = 1, nk_session_id = None, nk_project_id = None, nk_parent_task_id = None,
     nk_worktree_id = None, nk_branch = None, nk_worktree_path = None, nk_agent = None,
     nk_provider = None, nk_title = ''Ship'', nk_description = None, nk_status = ''pending'',
     nk_priority = 0, nk_estimated_cost_micros = None, nk_actual_cost_micros = None,
     nk_cost_currency = ''USD''\<rparr>"

definition sample_plan :: "plan_step_draft list" where
  "sample_plan =
     [\<lparr>dr_id = 11, dr_title = ''Build '', dr_description = None, dr_status = ''pending'',
       dr_dependency_ids = []\<rparr>,
      \<lparr>dr_id = 12, dr_title = ''Test'', dr_description = None, dr_status = ''pending'',
       dr_dependency_ids = [11]\<rparr>]"

lemma sample_task_row:
  "td_tasks (run (task_step_fn sample_externals) [OpCreate 1 sample_task] (no_tasks empty_db []))
     = [new_task_row 1 None sample_task]
   \<and> td_steps (run (task_step_fn sample_externals) [OpCreate 1 sample_task] (no_tasks empty_db [])) = []"
  by (simp add: tasks_create_def validate_new_task_fields_def validate_status_def sample_task_def
      TASK_STATUSES_def trim_def ascii_space_def negative_def currency_ok_def ascii_upper_def
      validated_def transaction_def insert_task_def effective_project_def
      validate_task_relationships_def check_def check_session_def check_worktree_def
      check_parent_def inconsistent_related_def no_tasks_def db.defs empty_db_def find_task_def
      project_exists_def)

lemma plan_round_trip_witness:
  "\<exists>m d'. replace_plan 5 1 sample_plan
       (run (task_step_fn sample_externals) [OpCreate 1 sample_task] (no_tasks empty_db [])) = (Inr m, d')
     \<and> map (\<lambda>s. (ts_sequence s, ts_title s, ts_dependency_ids s)) (plan 1 d')
       = [(1, ''Build'', []), (2, ''Test'', [11])]"
proof -
  let ?d = "run (task_step_fn sample_externals) [OpCreate 1 sample_task] (no_tasks empty_db [])"
  have v: "validate_plan sample_plan = Inr ()"
    by (simp add: validate_plan_def sample_plan_def List.map_filter_simps draft_error_def trim_def
        ascii_space_def validate_status_def STEP_STATUSES_def)
  have "is_ok (replace_plan_tx 5 1 sample_plan ?d)"
    using sample_task_row
    by (simp add: replace_plan_tx_def find_task_def new_task_row_def sample_task_def
        sample_plan_def delete_steps_def Let_def split_beta)
  then obtain b d' where "replace_plan_tx 5 1 sample_plan ?d = Inr (b, d')"
    by (cases "replace_plan_tx 5 1 sample_plan ?d") auto
  then have r: "replace_plan 5 1 sample_plan ?d
      = (Inr \<lparr>mu_task_id = 1, mu_reopened = b, mu_value = plan 1 d'\<rparr>, d')"
    by (simp add: replace_plan_def v validated_def transaction_def)
  from plan_round_trip [OF r, THEN conjunct2]
  have "map (\<lambda>(i, t, n, title, de, st, deps). (n, title, deps))
      (map (\<lambda>s. (ts_id s, ts_task_id s, ts_sequence s, ts_title s, ts_description s, ts_status s,
             ts_dependency_ids s)) (plan 1 d')) = [(1, ''Build'', []), (2, ''Test'', [11])]"
    by (simp only:) (simp add: sample_plan_def trim_def ascii_space_def)
  with r show ?thesis by (auto simp: comp_def)
qed

subsection \<open>What the gate does not keep\<close>

text \<open>The gate looks at dependencies once: a task that was completed stays completed when a
  task it depends on is taken back to work, so a completed task with an unmet dependency is
  reachable, although completing it again would be refused.
\<close>

theorem completed_task_with_unmet_dependency:
  "let two = sample_task\<lparr>nk_id := 2\<rparr>;
       ops = [OpCreate 1 sample_task, OpCreate 1 two, OpDependencies 2 2 [1], OpStatus 3 1 ''completed'',
              OpStatus 4 2 ''completed'', OpStatus 5 1 ''in_progress''];
       d = run (task_step_fn x) ops (no_tasks empty_db [])
   in map (\<lambda>t. (tk_id t, tk_status t)) (td_tasks d) = [(1, ''in_progress''), (2, ''completed'')]
      \<and> cb_unmet_dependency_ids (completion_blockers 2 d) = [1]
      \<and> \<not> is_ok (fst (set_task_status 6 2 ''completed'' d))"
proof -
  define two where "two = sample_task\<lparr>nk_id := 2\<rparr>"
  note create = tasks_create_def validate_new_task_fields_def validate_status_def sample_task_def
      TASK_STATUSES_def trim_def ascii_space_def negative_def currency_ok_def ascii_upper_def
      validated_def transaction_def insert_task_def effective_project_def
      validate_task_relationships_def check_def check_session_def check_worktree_def
      check_parent_def inconsistent_related_def no_tasks_def db.defs empty_db_def find_task_def
      project_exists_def
  let ?row = "\<lambda>i. (new_task_row 1 None sample_task)\<lparr>tk_id := i\<rparr>"
  let ?d0 = "no_tasks empty_db []"
  let ?d2 = "?d0\<lparr>td_tasks := [?row 1, ?row 2]\<rparr>"
  have 1: "run (task_step_fn x) [OpCreate 1 sample_task, OpCreate 1 two] ?d0 = ?d2"
    by (simp add: create two_def new_task_row_def)
  let ?d3 = "?d2\<lparr>td_deps := [\<lparr>dp_task_id = 2, dp_depends_on = 1, dp_created_at = 2\<rparr>]\<rparr>"
  have 2: "task_step_fn x (OpDependencies 2 2 [1]) ?d2 = ?d3"
    by (simp add: replace_dependencies_def validated_def transaction_def replace_dependencies_tx_def
        find_task_def new_task_row_def no_tasks_def db.defs sample_task_def ancestors_def targets_def
        dep_edges_def reopen_terminal_def is_completed_def delete_rows_def)
  note status = set_task_status_def validate_status_def TASK_STATUSES_def validated_def transaction_def
    set_task_status_tx_def has_completion_blockers_def step_open_def dependency_unmet_def
    criterion_open_def gate_open_def browser_definition_open_def browser_run_open_def
    set_status_row_def is_completed_def new_task_row_def sample_task_def no_tasks_def db.defs
    count_rows_def
  let ?st = "\<lambda>i s t. (?row i)\<lparr>tk_status := s, tk_updated_at := t, tk_completed_at := (if is_completed s then Some t else None)\<rparr>"
  have 3: "task_step_fn x (OpStatus 4 2 ''completed'') (task_step_fn x (OpStatus 3 1 ''completed'') ?d3)
      = ?d3\<lparr>td_tasks := [?st 1 ''completed'' 3, ?st 2 ''completed'' 4]\<rparr>"
    by (simp add: status)
  let ?d6 = "?d3\<lparr>td_tasks := [(?st 1 ''in_progress'' 5)\<lparr>tk_started_at := Some 5\<rparr>, ?st 2 ''completed'' 4]\<rparr>"
  have 4: "task_step_fn x (OpStatus 5 1 ''in_progress'') (?d3\<lparr>td_tasks := [?st 1 ''completed'' 3, ?st 2 ''completed'' 4]\<rparr>) = ?d6"
    by (simp add: status)
  have d: "run (task_step_fn x) [OpCreate 1 sample_task, OpCreate 1 two, OpDependencies 2 2 [1],
      OpStatus 3 1 ''completed'', OpStatus 4 2 ''completed'', OpStatus 5 1 ''in_progress''] ?d0 = ?d6"
    using 1 2 3 4 by (simp only: run_simps)
  have "map (\<lambda>t. (tk_id t, tk_status t)) (td_tasks ?d6) = [(1, ''in_progress''), (2, ''completed'')]"
    by simp
  moreover have "cb_unmet_dependency_ids (completion_blockers 2 ?d6) = [1]"
    by (simp add: completion_blockers_def dependency_unmet_def is_completed_def new_task_row_def sample_task_def)
  moreover have "\<not> is_ok (fst (set_task_status 6 2 ''completed'' ?d6))"
    by (simp add: status validation_error_def VALIDATION_PREFIX_def)
  ultimately show ?thesis
    unfolding Let_def two_def [symmetric] d by (intro conjI)
qed

end
