(* ===== verification/VerificationFacts.thy ===== *)
theory VerificationFacts
  imports Verification TaskFacts
begin

text \<open>
  Facts about verification runs: a run's status tells the state of its gates, whatever is
  recorded, finished, cancelled or interrupted; a completed task keeps its newest run passed,
  along every sequence of planning and verification operations; so a task that a failing run
  reopens was reopened by a run that is not its newest.
\<close>

subsection \<open>The newest run\<close>

lemma sort_key_map: "sort_key k (map f xs) = map f (sort_key (\<lambda>x. k (f x)) xs)"
proof -
  have ins: "insort_key k (f x) (map f ys) = map f (insort_key (\<lambda>x. k (f x)) x ys)" for x ys
    by (induction ys) auto
  show ?thesis by (induction xs) (simp_all add: ins)
qed

definition newer :: "verification_run_row \<Rightarrow> verification_run_row \<Rightarrow> bool" where
  "newer r s \<longleftrightarrow> vr_created_at s < vr_created_at r
     \<or> vr_created_at s = vr_created_at r \<and> vr_id s \<le> vr_id r"

text \<open>The head of rows sorted by one key and then, stably, by another.\<close>

lemma hd_sort_key2:
  fixes f g :: "'a \<Rightarrow> int"
  assumes "sort_key f (sort_key g xs) = y # ys"
  shows "y \<in> set xs \<and> (\<forall>x \<in> set xs. f y < f x \<or> f y = f x \<and> g y \<le> g x)"
proof (intro conjI ballI)
  have set: "set (y # ys) = set xs" using assms by (metis set_sort)
  then show "y \<in> set xs" by auto
  fix x assume x: "x \<in> set xs"
  have "sorted (map f (y # ys))" using assms by (metis sorted_sort_key)
  with x set have le: "f y \<le> f x" by auto
  have "g y \<le> g x" if eq: "f x = f y"
  proof -
    have same: "filter (\<lambda>z. f z = f y) (y # ys) = filter (\<lambda>z. f z = f y) (sort_key g xs)"
      using assms by (metis sort_key_stable)
    have "sorted (map g (sort_key g xs))" by simp
    then have "sorted (map g (filter (\<lambda>z. f z = f y) (sort_key g xs)))"
      by (rule sorted_filter)
    moreover have "filter (\<lambda>z. f z = f y) (sort_key g xs) = y # filter (\<lambda>z. f z = f y) ys"
      using same by simp
    moreover have "x \<in> set (filter (\<lambda>z. f z = f y) (sort_key g xs))" using x eq by simp
    ultimately show ?thesis by auto
  qed
  with le show "f y < f x \<or> f y = f x \<and> g y \<le> g x" by force
qed

lemma latest_run_Some:
  assumes "latest_run i d = Some r"
  shows "r \<in> set (td_runs d)" "vr_task_id r = i"
    "\<And>s. s \<in> set (td_runs d) \<Longrightarrow> vr_task_id s = i \<Longrightarrow> newer r s"
proof -
  obtain rs where "sort_key (\<lambda>r. - vr_created_at r) (sort_key (\<lambda>r. - int (vr_id r))
      (filter (\<lambda>r. vr_task_id r = i) (td_runs d))) = r # rs"
    using assms by (auto simp: latest_run_def split: list.splits)
  from hd_sort_key2 [OF this] show "r \<in> set (td_runs d)" "vr_task_id r = i"
    "\<And>s. s \<in> set (td_runs d) \<Longrightarrow> vr_task_id s = i \<Longrightarrow> newer r s"
    by (auto simp: newer_def)
qed

lemma latest_run_None: "latest_run i d = None \<longleftrightarrow> (\<forall>r \<in> set (td_runs d). vr_task_id r \<noteq> i)"
proof -
  have "sort_key f xs = [] \<longleftrightarrow> xs = []" for f :: "verification_run_row \<Rightarrow> int" and xs
    by (metis length_0_conv length_sort)
  then have "latest_run i d = None \<longleftrightarrow> filter (\<lambda>r. vr_task_id r = i) (td_runs d) = []"
    by (simp add: latest_run_def split: list.split) (metis list.distinct(1))
  then show ?thesis by (simp add: filter_empty_conv)
qed

lemma latest_run_iff:
  assumes "distinct (map vr_id (td_runs d))"
  shows "latest_run i d = Some r \<longleftrightarrow> r \<in> set (td_runs d) \<and> vr_task_id r = i
     \<and> (\<forall>s \<in> set (td_runs d). vr_task_id s = i \<longrightarrow> newer r s)"
proof
  assume "latest_run i d = Some r"
  then show "r \<in> set (td_runs d) \<and> vr_task_id r = i
     \<and> (\<forall>s \<in> set (td_runs d). vr_task_id s = i \<longrightarrow> newer r s)"
    using latest_run_Some by blast
next
  assume r: "r \<in> set (td_runs d) \<and> vr_task_id r = i
     \<and> (\<forall>s \<in> set (td_runs d). vr_task_id s = i \<longrightarrow> newer r s)"
  then obtain q where q: "latest_run i d = Some q"
    using latest_run_None [of i d] by (cases "latest_run i d") auto
  have "newer r q" "newer q r" using r latest_run_Some [OF q] by auto
  then have "vr_id r = vr_id q" by (auto simp: newer_def)
  then have "r = q"
    using assms r latest_run_Some(1) [OF q] by (auto simp: distinct_map dest: inj_onD)
  with q show "latest_run i d = Some r" by simp
qed

text \<open>Rewriting rows without touching what the order looks at.\<close>

lemma latest_run_map:
  assumes "filter (\<lambda>r. vr_task_id r = i) (td_runs d') = map f (filter (\<lambda>r. vr_task_id r = i) (td_runs d))"
    and "\<And>r. vr_id (f r) = vr_id r" "\<And>r. vr_created_at (f r) = vr_created_at r"
  shows "latest_run i d' = map_option f (latest_run i d)"
  by (simp add: latest_run_def assms sort_key_map split: list.split)

lemma latest_run_update:
  assumes "td_runs d' = update_rows p f (td_runs d)"
    and f: "\<And>r. vr_id (f r) = vr_id r" "\<And>r. vr_created_at (f r) = vr_created_at r"
      "\<And>r. vr_task_id (f r) = vr_task_id r"
  shows "map_option vr_id (latest_run i d') = map_option vr_id (latest_run i d)"
proof -
  have "vr_task_id (if p r then f r else r) = vr_task_id r" for r using f by simp
  then have "filter (\<lambda>r. vr_task_id r = i) (td_runs d')
      = map (\<lambda>r. if p r then f r else r) (filter (\<lambda>r. vr_task_id r = i) (td_runs d))"
    by (simp add: assms(1) update_rows_map filter_map comp_def)
  from latest_run_map [OF this] show ?thesis
    using f by (simp add: option.map_comp comp_def if_distrib [where f = vr_id] cong: if_cong)
qed

text \<open>A new run is the newest, or the newest one stays.\<close>

lemma latest_run_append:
  assumes "td_runs d' = td_runs d @ [r]" and "distinct (map vr_id (td_runs d'))"
  shows "latest_run i d' = Some r \<or> latest_run i d' = latest_run i d"
proof (cases "latest_run i d'")
  case None
  then have "latest_run i d = None" by (simp add: latest_run_None assms(1))
  with None show ?thesis by simp
next
  case (Some q)
  have dist: "distinct (map vr_id (td_runs d))" using assms by simp
  show ?thesis
  proof (cases "q = r")
    case False
    then have "latest_run i d = Some q"
      using latest_run_Some [OF Some] assms(1) by (simp add: latest_run_iff [OF dist])
    with Some show ?thesis by simp
  qed (simp add: Some)
qed

subsection \<open>Runs and gates in step\<close>

definition own_gates :: "verification_gate_row list \<Rightarrow> verification_run_row \<Rightarrow> verification_gate_row list" where
  "own_gates gs r = filter (\<lambda>g. vg_run_id g = vr_id r) gs"

definition active :: "verification_run_row \<Rightarrow> bool" where
  "active r \<longleftrightarrow> vr_status r \<in> {''queued'', ''running''}"

definition unpassed :: "verification_gate_row \<Rightarrow> bool" where
  "unpassed g \<longleftrightarrow> vg_is_required g \<and> vg_status g \<noteq> ''passed''"

text \<open>What the status of a run says of its gates.\<close>

definition status_tells :: "string \<Rightarrow> verification_gate_row list \<Rightarrow> bool" where
  "status_tells status gs \<longleftrightarrow>
     (if status = ''queued'' then list_all (\<lambda>g. vg_status g = ''pending'') gs
      else if status = ''running'' then True
      else if status = ''passed'' then \<not> list_ex unpassed gs
      else if status = ''failed'' then list_ex (\<lambda>g. unpassed g \<and> \<not> gate_waiting g) gs
      else status \<in> {''cancelled'', ''error''} \<and> \<not> list_ex gate_waiting gs)"

definition run_ok :: "verification_gate_row list \<Rightarrow> verification_run_row \<Rightarrow> bool" where
  "run_ok gs r \<longleftrightarrow> status_tells (vr_status r) (own_gates gs r)"

definition runs_ok :: "task_db \<Rightarrow> bool" where
  "runs_ok d \<longleftrightarrow> distinct (map vr_id (td_runs d))
     \<and> (\<forall>r \<in> set (td_runs d). vr_task_id r \<in> tk_id ` set (td_tasks d) \<and> run_ok (td_gates d) r)
     \<and> (\<forall>g \<in> set (td_gates d). vg_run_id g \<in> vr_id ` set (td_runs d))"

lemma runs_okD:
  assumes "runs_ok d"
  shows "distinct (map vr_id (td_runs d))"
    and "\<And>r. r \<in> set (td_runs d) \<Longrightarrow> vr_task_id r \<in> tk_id ` set (td_tasks d)"
    and "\<And>r. r \<in> set (td_runs d) \<Longrightarrow> run_ok (td_gates d) r"
    and "\<And>g. g \<in> set (td_gates d) \<Longrightarrow> vg_run_id g \<in> vr_id ` set (td_runs d)"
    and "\<And>r s. r \<in> set (td_runs d) \<Longrightarrow> s \<in> set (td_runs d) \<Longrightarrow> vr_id r = vr_id s \<Longrightarrow> r = s"
  using assms by (auto simp: runs_ok_def distinct_map dest: inj_onD)

text \<open>No completed task has an open gate.\<close>

definition verified :: "task_db \<Rightarrow> bool" where
  "verified d \<longleftrightarrow> (\<forall>t \<in> set (td_tasks d). is_completed (tk_status t) \<longrightarrow>
     \<not> (\<exists>g \<in> set (td_gates d). gate_open d (tk_id t) g))"

text \<open>The tasks of \<open>d'\<close> are those of \<open>d\<close>, some perhaps no longer completed.\<close>

definition tasks_kept :: "task_db \<Rightarrow> task_db \<Rightarrow> bool" where
  "tasks_kept d d' \<longleftrightarrow> tk_id ` set (td_tasks d') = tk_id ` set (td_tasks d)
     \<and> (\<forall>t \<in> set (td_tasks d'). is_completed (tk_status t) \<longrightarrow>
          (\<exists>s \<in> set (td_tasks d). tk_id s = tk_id t \<and> is_completed (tk_status s)))"

lemma tasks_kept_same: "td_tasks d' = td_tasks d \<Longrightarrow> tasks_kept d d'"
  by (auto simp: tasks_kept_def)

lemma tasks_kept_reopen: "td_tasks d1 = td_tasks d \<Longrightarrow> tasks_kept d (snd (reopen_terminal now i d1))"
  unfolding tasks_kept_def
proof
  assume d1: "td_tasks d1 = td_tasks d"
  then show "tk_id ` set (td_tasks (snd (reopen_terminal now i d1))) = tk_id ` set (td_tasks d)"
    by (simp add: reopen_terminal_def Let_def tk_ids_update_rows)
  show "\<forall>t \<in> set (td_tasks (snd (reopen_terminal now i d1))). is_completed (tk_status t) \<longrightarrow>
          (\<exists>s \<in> set (td_tasks d). tk_id s = tk_id t \<and> is_completed (tk_status s))"
    by (auto simp: d1 reopen_terminal_def Let_def set_update_rows split: if_splits)
qed

lemma verified_kept:
  assumes "verified d" "tasks_kept d d'"
    and "\<And>i g. g \<in> set (td_gates d') \<Longrightarrow> gate_open d' i g \<Longrightarrow> \<exists>g \<in> set (td_gates d). gate_open d i g"
  shows "verified d'"
  unfolding verified_def
proof (intro ballI impI notI)
  fix t assume t: "t \<in> set (td_tasks d')" "is_completed (tk_status t)"
    and "\<exists>g \<in> set (td_gates d'). gate_open d' (tk_id t) g"
  then have o: "\<exists>g \<in> set (td_gates d). gate_open d (tk_id t) g" using assms(3) by blast
  obtain s where s: "s \<in> set (td_tasks d)" "tk_id s = tk_id t" "is_completed (tk_status s)"
    using assms(2) t unfolding tasks_kept_def by blast
  from assms(1) s(1,3) have "\<not> (\<exists>g \<in> set (td_gates d). gate_open d (tk_id s) g)"
    unfolding verified_def by blast
  with o s(2) show False by simp
qed

subsection \<open>Advancing a run\<close>

text \<open>
  Everything but the creation of a run rewrites runs that are queued or running, and gates of
  these, and leaves their keys alone.
\<close>

inductive advance :: "task_db \<Rightarrow> task_db \<Rightarrow> bool" where
  advance: "advance d d'"
    if "td_runs d' = update_rows p f (td_runs d)" "td_gates d' = update_rows q h (td_gates d)"
      "tasks_kept d d'"
      "\<And>r. vr_id (f r) = vr_id r" "\<And>r. vr_created_at (f r) = vr_created_at r"
      "\<And>r. vr_task_id (f r) = vr_task_id r"
      "\<And>g. vg_run_id (h g) = vg_run_id g" "\<And>g. vg_is_required (h g) = vg_is_required g"
      "\<And>r. r \<in> set (td_runs d) \<Longrightarrow> p r \<Longrightarrow> active r \<and> run_ok (td_gates d') (f r)"
      "\<And>g. g \<in> set (td_gates d) \<Longrightarrow> q g \<Longrightarrow> \<exists>r \<in> set (td_runs d). p r \<and> vr_id r = vg_run_id g"

lemma own_gates_update:
  assumes "\<And>g. vg_run_id (h g) = vg_run_id g" "\<And>g. g \<in> set gs \<Longrightarrow> vg_run_id g = vr_id r \<Longrightarrow> \<not> q g"
  shows "own_gates (update_rows q h gs) r = own_gates gs r"
proof -
  have "filter (\<lambda>g. vg_run_id g = vr_id r) (update_rows q h gs)
      = map (\<lambda>g. if q g then h g else g) (filter (\<lambda>g. vg_run_id g = vr_id r) gs)"
    using assms(1) by (simp add: update_rows_map filter_map comp_def if_distrib [where f = vg_run_id] cong: if_cong)
  also have "\<dots> = filter (\<lambda>g. vg_run_id g = vr_id r) gs"
    using assms(2) by (intro map_idI) auto
  finally show ?thesis by (simp add: own_gates_def)
qed

lemma advance_runs_ok:
  assumes "advance d d'" "runs_ok d"
  shows "runs_ok d'"
  using assms(1)
proof cases
  case (advance p f q h)
  note d = runs_okD [OF assms(2)]
  have ids: "map vr_id (td_runs d') = map vr_id (td_runs d)"
    by (simp add: advance(1,4) map_update_rows_same)
  have ok: "run_ok (td_gates d') (if p r then f r else r)" if r: "r \<in> set (td_runs d)" for r
  proof (cases "p r")
    case True
    with advance(9) [OF r] show ?thesis by simp
  next
    case False
    have "\<not> q g" if "g \<in> set (td_gates d)" "vg_run_id g = vr_id r" for g
      using advance(10) [OF that(1)] d(5) [OF r] that(2) False by metis
    then have "own_gates (td_gates d') r = own_gates (td_gates d) r"
      unfolding advance(2) using advance(7) by (intro own_gates_update)
    with d(3) [OF r] False show ?thesis by (simp add: run_ok_def)
  qed
  have tasks: "tk_id ` set (td_tasks d') = tk_id ` set (td_tasks d)"
    using advance(3) by (simp add: tasks_kept_def)
  have "\<forall>r \<in> set (td_runs d'). vr_task_id r \<in> tk_id ` set (td_tasks d') \<and> run_ok (td_gates d') r"
    using ok d(2) advance(6) unfolding advance(1) ball_update_rows tasks by auto
  moreover have "\<forall>g \<in> set (td_gates d'). vg_run_id g \<in> vr_id ` set (td_runs d')"
    using d(4) arg_cong [OF ids, of set] advance(7) unfolding advance(2) ball_update_rows by auto
  ultimately show ?thesis using d(1) ids by (simp add: runs_ok_def)
qed

lemma advance_open:
  assumes "advance d d'" "runs_ok d" "g' \<in> set (td_gates d')" "gate_open d' i g'"
  shows "\<exists>g \<in> set (td_gates d). gate_open d i g"
  using assms(1)
proof cases
  case (advance p f q h)
  note d = runs_okD [OF assms(2)]
  from assms(3) obtain g where g: "g \<in> set (td_gates d)" "g' = (if q g then h g else g)"
    unfolding advance(2) by (rule in_update_rows)
  have keys: "vg_run_id g' = vg_run_id g" "vg_is_required g' = vg_is_required g"
    using g(2) advance(7,8) by auto
  from assms(4) obtain r' where r': "r' \<in> set (td_runs d')" "vr_id r' = vg_run_id g'"
    "map_option vr_id (latest_run i d') = Some (vr_id r')" "vg_is_required g'"
    "vr_status r' \<noteq> ''passed'' \<or> vg_status g' \<noteq> ''passed''"
    by (auto simp: gate_open_def)
  from r'(1) obtain r where r: "r \<in> set (td_runs d)" "r' = (if p r then f r else r)"
    unfolding advance(1) by (rule in_update_rows)
  have id: "vr_id r' = vr_id r" using r(2) advance(4) by simp
  have lt: "map_option vr_id (latest_run i d) = Some (vr_id r)"
    using latest_run_update [OF advance(1) advance(4,5,6)] r'(3) id by simp
  have "vr_status r \<noteq> ''passed'' \<or> vg_status g \<noteq> ''passed''"
  proof (cases "p r \<or> q g")
    case True
    then have "active r"
    proof
      assume "p r"
      with advance(9) [OF r(1)] show ?thesis by simp
    next
      assume "q g"
      with advance(10) [OF g(1)] obtain s where s: "s \<in> set (td_runs d)" "p s" "vr_id s = vg_run_id g" by blast
      then have "s = r" using d(5) [OF s(1) r(1)] r'(2) id keys by simp
      with advance(9) s show ?thesis by blast
    qed
    then show ?thesis by (auto simp: active_def)
  next
    case False
    with r'(5) r(2) g(2) show ?thesis by simp
  qed
  then have "gate_open d i g"
    using r(1) lt r'(2,4) id keys by (auto simp: gate_open_def intro!: bexI [of _ r])
  with g(1) show ?thesis by blast
qed

lemma advance_verified:
  assumes "advance d d'" "runs_ok d" "verified d"
  shows "verified d'"
proof (rule verified_kept [OF assms(3)])
  show "tasks_kept d d'" using assms(1) by cases
  show "\<exists>g \<in> set (td_gates d). gate_open d i g" if "g \<in> set (td_gates d')" "gate_open d' i g" for i g
    using advance_open [OF assms(1,2) that] .
qed

subsection \<open>The operations advance runs\<close>

lemma find_run_Some: "find_run i d = Some r \<Longrightarrow> r \<in> set (td_runs d) \<and> vr_id r = i"
  by (auto simp: find_run_def dest: find_Some_in_set)

lemma run_identity_Some:
  "run_identity i d = Some (task_id, status) \<Longrightarrow>
     \<exists>r \<in> set (td_runs d). vr_id r = i \<and> vr_task_id r = task_id \<and> vr_status r = status"
  by (auto simp: run_identity_def dest: find_run_Some)

lemma run_outcome_snd [simp]: "snd (run_outcome i r) = snd r"
  by (auto simp: run_outcome_def split: prod.split sum.split option.split)

lemma event_tables [simp]:
  "td_runs (record_verification_event now i task g k a v d) = td_runs d"
  "td_gates (record_verification_event now i task g k a v d) = td_gates d"
  "td_tasks (record_verification_event now i task g k a v d) = td_tasks d"
  "td_steps (record_verification_event now i task g k a v d) = td_steps d"
  "td_step_deps (record_verification_event now i task g k a v d) = td_step_deps d"
  "td_criteria (record_verification_event now i task g k a v d) = td_criteria d"
  by (simp_all add: record_verification_event_def)

lemma reopen_tables [simp]:
  "td_runs (snd (reopen_terminal now i d)) = td_runs d"
  "td_gates (snd (reopen_terminal now i d)) = td_gates d"
  "td_steps (snd (reopen_terminal now i d)) = td_steps d"
  "td_step_deps (snd (reopen_terminal now i d)) = td_step_deps d"
  "td_criteria (snd (reopen_terminal now i d)) = td_criteria d"
  by (simp_all add: reopen_terminal_def Let_def)

lemma set_run_tables [simp]:
  "td_runs (set_run i f d) = update_rows (\<lambda>r. vr_id r = i) f (td_runs d)"
  "td_gates (set_run i f d) = td_gates d" "td_tasks (set_run i f d) = td_tasks d"
  "td_steps (set_run i f d) = td_steps d" "td_step_deps (set_run i f d) = td_step_deps d"
  "td_criteria (set_run i f d) = td_criteria d"
  by (simp_all add: set_run_def)

lemma reopen_if_tables [simp]:
  "td_runs (snd (reopen_if c now i d)) = td_runs d" "td_gates (snd (reopen_if c now i d)) = td_gates d"
  by (simp_all add: reopen_if_def)

lemma td_tasks_reopen_if: "td_tasks d1 = td_tasks d \<Longrightarrow>
    td_tasks (snd (reopen_if c now i d1)) = td_tasks (snd (reopen_if c now i d))"
  by (simp add: reopen_if_def reopen_terminal_def Let_def)

lemma tasks_kept_reopen_if: "td_tasks d1 = td_tasks d \<Longrightarrow> tasks_kept d (snd (reopen_if c now i d1))"
  by (simp add: reopen_if_def tasks_kept_reopen tasks_kept_same)

text \<open>The tables of the plan and the criteria, which no verification call writes.\<close>

definition plan_tables :: "task_db \<Rightarrow> step_row list \<times> dependency_row list \<times> criterion list" where
  "plan_tables d = (td_steps d, td_step_deps d, td_criteria d)"

lemma plan_tables_simps [simp]:
  "plan_tables (record_verification_event now i task g k a v d) = plan_tables d"
  "plan_tables (snd (reopen_terminal now j d)) = plan_tables d"
  "plan_tables (snd (reopen_if c now j d)) = plan_tables d"
  "plan_tables (set_run i f d) = plan_tables d"
  "plan_tables (d\<lparr>td_gates := gs\<rparr>) = plan_tables d" "plan_tables (d\<lparr>td_runs := rs\<rparr>) = plan_tables d"
  "plan_tables (d\<lparr>td_gates := gs, td_results := ts\<rparr>) = plan_tables d"
  "plan_tables (d\<lparr>td_commands := cs, td_gates := gs\<rparr>) = plan_tables d"
  by (simp_all add: plan_tables_def reopen_if_def)

lemma planning_ok_kept:
  assumes "planning_ok d" "tasks_kept d d'" "plan_tables d' = plan_tables d"
  shows "planning_ok d'"
  using assms unfolding planning_ok_def references_ok_def gated_def own_open_def tasks_kept_def plan_tables_def
  by (auto simp del: bex_simps ball_simps) metis+

lemma insert_results_tables:
  "insert_results i gate rs d = Inr d' \<Longrightarrow> td_runs d' = td_runs d \<and> td_gates d' = td_gates d
     \<and> td_tasks d' = td_tasks d \<and> plan_tables d' = plan_tables d"
  by (induction rs arbitrary: d) (fastforce simp: plan_tables_def split: if_splits)+

lemma insert_artifacts_tables:
  "insert_artifacts now i gate as d = Inr d' \<Longrightarrow> td_runs d' = td_runs d \<and> td_gates d' = td_gates d
     \<and> td_tasks d' = td_tasks d \<and> plan_tables d' = plan_tables d"
  by (induction as arbitrary: d) (fastforce simp: plan_tables_def split: if_splits)+

lemma update_rows_id: "update_rows p (\<lambda>r. r) t = t"
  by (simp add: update_rows_map)

lemma own_gates_set: "g \<in> set (own_gates gs r) \<longleftrightarrow> g \<in> set gs \<and> vg_run_id g = vr_id r"
  by (auto simp: own_gates_def)

lemma start_advances:
  assumes "runs_ok d"
  shows "advance d (snd (start_run now i a d)) \<and> plan_tables (snd (start_run now i a d)) = plan_tables d
    \<or> snd (start_run now i a d) = d"
proof (cases "start_tx now i a d")
  case (Inl e)
  then show ?thesis by (simp add: start_run_def checked_simps split_beta Let_def validated_snd)
next
  case (Inr v)
  obtain b d' where v: "v = (b, d')" by (cases v)
  have "advance d d' \<and> plan_tables d' = plan_tables d" if ne: "d' \<noteq> d"
  proof -
    let ?f = "\<lambda>r. r\<lparr>vr_status := ''running'', vr_started_at := Some now\<rparr>"
    obtain t where t: "run_identity i d = Some (t, ''queued'')"
      and d': "d' = record_verification_event now i t None ''started'' a (JObj []) (set_run i ?f d)"
      using Inr ne unfolding v start_tx_def by (auto split: option.splits if_splits)
    from run_identity_Some [OF t] obtain r where r: "r \<in> set (td_runs d)" "vr_id r = i" "vr_status r = ''queued''"
      by blast
    have "advance d d'"
    proof (rule advance.intros [where p = "\<lambda>r. vr_id r = i" and f = ?f and q = "\<lambda>g. False" and h = "\<lambda>g. g"])
      show "active s \<and> run_ok (td_gates d') (?f s)" if "s \<in> set (td_runs d)" "vr_id s = i" for s
        using runs_okD(5) [OF assms that(1) r(1)] that r
        by (simp add: active_def run_ok_def status_tells_def)
    qed (simp_all add: d' tasks_kept_same update_rows_id)
    then show ?thesis by (simp add: d')
  qed
  then show ?thesis
    by (auto simp: start_run_def checked_simps split_beta Let_def validated_snd Inr v)
qed

lemma record_gate_advances:
  assumes "runs_ok d"
  shows "advance d (snd (record_gate now i g st su rs as a d)) \<and> plan_tables (snd (record_gate now i g st su rs as a d)) = plan_tables d
    \<or> snd (record_gate now i g st su rs as a d) = d"
proof (cases "record_gate_tx now i g st su rs as a d")
  case (Inl e)
  then show ?thesis by (simp add: record_gate_def checked_simps validated_snd)
next
  case (Inr v)
  obtain b d' where v: "v = (b, d')" by (cases v)
  have "advance d d' \<and> plan_tables d' = plan_tables d" if ne: "d' \<noteq> d"
  proof -
    obtain t where t: "run_identity i d = Some (t, ''running'')"
      using Inr ne unfolding v record_gate_tx_def by (auto split: option.splits if_splits)
    from run_identity_Some [OF t] obtain r where r: "r \<in> set (td_runs d)" "vr_id r = i" "vr_status r = ''running''"
      by blast
    obtain d1 d2 ev c where 1: "insert_results i g rs (gate_written now i g st su d) = Inr d1"
      and 2: "insert_artifacts now i g as d1 = Inr d2"
      and d': "d' = snd (reopen_if c now t (record_verification_event now i t (Some g) ''gate_recorded'' a ev d2))"
      using Inr t ne unfolding v record_gate_tx_def Let_def split_beta
      by (auto split: option.splits sum.splits if_splits)
    have tab: "td_runs d' = td_runs d" "td_gates d' = td_gates (gate_written now i g st su d)"
      "plan_tables d' = plan_tables d" "tasks_kept d d'"
      using insert_results_tables [OF 1] insert_artifacts_tables [OF 2] unfolding d'
      by (auto simp: gate_written_def tasks_kept_reopen_if)
    have "advance d d'"
    proof (rule advance.intros [where p = "\<lambda>r. vr_id r = i" and f = "\<lambda>r. r"
          and q = "\<lambda>h. vg_id h = g \<and> vg_run_id h = i" and h = "set_gate now st su"])
      show "active s \<and> run_ok (td_gates d') s" if "s \<in> set (td_runs d)" "vr_id s = i" for s
        using runs_okD(5) [OF assms that(1) r(1)] that r
        by (simp add: active_def run_ok_def status_tells_def)
      show "\<exists>r \<in> set (td_runs d). vr_id r = i \<and> vr_id r = vg_run_id h"
        if "vg_id h = g \<and> vg_run_id h = i" for h
        using r that by auto
    qed (simp_all add: tab update_rows_id gate_written_def set_gate_def)
    with tab show ?thesis by simp
  qed
  then show ?thesis
    by (auto simp: record_gate_def checked_simps validated_snd Inr v)
qed

lemma finish_advances:
  assumes "runs_ok d"
  shows "advance d (snd (finish_run now i a d)) \<and> plan_tables (snd (finish_run now i a d)) = plan_tables d
    \<or> snd (finish_run now i a d) = d"
proof (cases "finish_tx now i a d")
  case (Inl e)
  then show ?thesis by (simp add: finish_run_def checked_simps validated_snd)
next
  case (Inr v)
  obtain b d' where v: "v = (b, d')" by (cases v)
  have "advance d d' \<and> plan_tables d' = plan_tables d" if ne: "d' \<noteq> d"
  proof -
    obtain t where t: "run_identity i d = Some (t, ''running'')"
      using Inr ne unfolding v finish_tx_def by (auto split: option.splits if_splits)
    from run_identity_Some [OF t] obtain r where r: "r \<in> set (td_runs d)" "vr_id r = i" "vr_status r = ''running''"
      by blast
    define failed where "failed = count_rows (\<lambda>g. vg_run_id g = i \<and> vg_is_required g \<and> vg_status g \<noteq> ''passed'') (td_gates d)"
    define final where "final = (if failed = 0 then ''passed'' else ''failed'')"
    obtain su ev c where
      none: "\<not> (\<exists>g \<in> set (td_gates d). vg_run_id g = i \<and> vg_is_required g \<and> gate_waiting g)"
      and d': "d' = snd (reopen_if c now t (record_verification_event now i t None ''finished'' a ev
        (set_run i (\<lambda>r. r\<lparr>vr_status := final, vr_summary := su, vr_completed_at := Some now\<rparr>) d)))"
      using Inr t ne unfolding v finish_tx_def Let_def split_beta failed_def [symmetric] final_def
      by (auto split: if_splits)
    have ok: "status_tells final (own_gates (td_gates d) s)" if s: "vr_id s = i" for s
    proof (cases "failed = 0")
      case True
      then show ?thesis
        using s by (auto simp: final_def failed_def count_rows_0_iff status_tells_def list_ex_iff
            own_gates_set unpassed_def)
    next
      case False
      then have "0 < failed" by simp
      then obtain g where "g \<in> set (td_gates d)" "vg_run_id g = i" "vg_is_required g" "vg_status g \<noteq> ''passed''"
        unfolding failed_def count_rows_pos_iff by blast
      with none s have "list_ex (\<lambda>g. unpassed g \<and> \<not> gate_waiting g) (own_gates (td_gates d) s)"
        by (auto simp: list_ex_iff own_gates_set unpassed_def)
      then show ?thesis using False by (simp add: final_def status_tells_def)
    qed
    have "advance d d'"
    proof (rule advance.intros [where p = "\<lambda>r. vr_id r = i" and q = "\<lambda>g. False" and h = "\<lambda>g. g"
          and f = "\<lambda>r. r\<lparr>vr_status := final, vr_summary := su, vr_completed_at := Some now\<rparr>"])
      show "active s \<and> run_ok (td_gates d') (s\<lparr>vr_status := final, vr_summary := su, vr_completed_at := Some now\<rparr>)"
        if "s \<in> set (td_runs d)" "vr_id s = i" for s
        using runs_okD(5) [OF assms that(1) r(1)] that r ok [of s]
        by (simp add: active_def run_ok_def d' own_gates_def)
    qed (simp_all add: d' tasks_kept_reopen_if update_rows_id)
    then show ?thesis by (simp add: d')
  qed
  then show ?thesis by (auto simp: finish_run_def checked_simps validated_snd Inr v)
qed

lemma waiting_after:
  assumes "\<And>g. vg_run_id (h g) = vg_run_id g" "\<And>g. \<not> gate_waiting (h g)"
    and "\<And>g. vg_run_id g = vr_id s \<Longrightarrow> gate_waiting g \<Longrightarrow> q g"
  shows "\<not> list_ex gate_waiting (own_gates (update_rows q h gs) s)"
  using assms by (force simp: list_ex_iff own_gates_set set_update_rows)

lemma cancel_advances:
  assumes "runs_ok d"
  shows "advance d (snd (cancel_run now i a d)) \<and> plan_tables (snd (cancel_run now i a d)) = plan_tables d
    \<or> snd (cancel_run now i a d) = d"
proof (cases "cancel_tx now i a d")
  case (Inl e)
  then show ?thesis by (simp add: cancel_run_def checked_simps validated_snd)
next
  case (Inr v)
  obtain b d' where v: "v = (b, d')" by (cases v)
  have "advance d d' \<and> plan_tables d' = plan_tables d" if ne: "d' \<noteq> d"
  proof -
    let ?f = "\<lambda>r. r\<lparr>vr_status := ''cancelled'', vr_completed_at := Some now\<rparr>"
    let ?h = "\<lambda>g. g\<lparr>vg_status := ''cancelled'', vg_completed_at := Some now\<rparr>"
    let ?q = "\<lambda>g. vg_run_id g = i \<and> gate_waiting g"
    obtain t st where t: "run_identity i d = Some (t, st)" "st \<in> {''queued'', ''running''}"
      using Inr ne unfolding v cancel_tx_def by (auto split: option.splits if_splits)
    from run_identity_Some [OF t(1)] obtain r where r: "r \<in> set (td_runs d)" "vr_id r = i" "vr_status r = st"
      by blast
    obtain c where d': "d' = snd (reopen_if c now t (record_verification_event now i t None ''cancelled'' a (JObj [])
        ((set_run i ?f d)\<lparr>td_gates := update_rows ?q ?h (td_gates d)\<rparr>)))"
      using Inr t ne unfolding v cancel_tx_def Let_def split_beta by auto
    have "advance d d'"
    proof (rule advance.intros [where p = "\<lambda>r. vr_id r = i" and f = ?f and q = ?q and h = ?h])
      show "active s \<and> run_ok (td_gates d') (?f s)" if "s \<in> set (td_runs d)" "vr_id s = i" for s
      proof
        show "active s" using runs_okD(5) [OF assms that(1) r(1)] that r t by (auto simp: active_def)
        have "\<not> list_ex gate_waiting (own_gates (update_rows ?q ?h (td_gates d)) (?f s))"
          by (rule waiting_after) (auto simp: gate_waiting_def that)
        then show "run_ok (td_gates d') (?f s)" by (simp add: run_ok_def status_tells_def d')
      qed
      show "\<exists>r \<in> set (td_runs d). vr_id r = i \<and> vr_id r = vg_run_id g" if "?q g" for g
        using r that by auto
    qed (simp_all add: d' tasks_kept_reopen_if)
    then show ?thesis by (simp add: d')
  qed
  then show ?thesis by (auto simp: cancel_run_def checked_simps validated_snd Inr v)
qed

lemma fold_event_tables:
  "d' = fold (\<lambda>r. record_verification_event now (vr_id r) (vr_task_id r) None k a v) rs d \<Longrightarrow>
     td_runs d' = td_runs d \<and> td_gates d' = td_gates d \<and> td_tasks d' = td_tasks d
     \<and> plan_tables d' = plan_tables d"
  by (induction rs arbitrary: d) simp_all

lemma recover_advances:
  assumes "runs_ok d"
  shows "advance d (snd (recover_verifications now d))"
    and "plan_tables (snd (recover_verifications now d)) = plan_tables d"
proof -
  let ?f = "\<lambda>r. r\<lparr>vr_status := ''error'', vr_completed_at := Some now, vr_summary := process_restart\<rparr>"
  let ?h = "\<lambda>g. g\<lparr>vg_status := ''error'', vg_completed_at := Some now, vg_summary := process_restart\<rparr>"
  let ?ids = "map vr_id (filter running_run (td_runs d))"
  let ?q = "\<lambda>g. vg_run_id g \<in> set ?ids \<and> gate_waiting g"
  let ?d' = "snd (recover_verifications now d)"
  note events = fold_event_tables [OF refl, of now "''interrupted''" "''system''" process_restart "filter running_run (td_runs d)" d]
  have tab: "td_runs ?d' = update_rows running_run ?f (td_runs d)" "td_gates ?d' = update_rows ?q ?h (td_gates d)"
    "td_tasks ?d' = td_tasks d"
    using events by (simp_all add: recover_verifications_def Let_def)
  show "plan_tables ?d' = plan_tables d"
    using events by (simp add: recover_verifications_def Let_def)
  show "advance d ?d'"
  proof (rule advance.intros [where p = running_run and f = ?f and q = ?q and h = ?h])
    show "active s \<and> run_ok (td_gates ?d') (?f s)" if "s \<in> set (td_runs d)" "running_run s" for s
    proof
      show "active s" using that by (simp add: running_run_def active_def)
      have "\<not> list_ex gate_waiting (own_gates (update_rows ?q ?h (td_gates d)) (?f s))"
        by (rule waiting_after) (use that in \<open>auto simp: gate_waiting_def\<close>)
      then show "run_ok (td_gates ?d') (?f s)" by (simp add: run_ok_def status_tells_def tab)
    qed
    show "\<exists>r \<in> set (td_runs d). running_run r \<and> vr_id r = vg_run_id g" if "?q g" for g
      using that by auto
  qed (simp_all add: tab tasks_kept_same)
qed

text \<open>Clearing the command of a gate changes nothing that is looked at.\<close>

lemma gates_relabelled:
  assumes "td_runs d' = td_runs d" "td_tasks d' = td_tasks d" "td_gates d' = map h (td_gates d)"
    and h: "\<And>g. vg_run_id (h g) = vg_run_id g" "\<And>g. vg_is_required (h g) = vg_is_required g"
      "\<And>g. vg_status (h g) = vg_status g"
  shows "runs_ok d \<Longrightarrow> runs_ok d'" "verified d \<Longrightarrow> verified d'"
proof -
  have own: "own_gates (td_gates d') r = map h (own_gates (td_gates d) r)" for r
    using h by (simp add: assms(3) own_gates_def filter_map comp_def)
  have "status_tells st (map h gs) = status_tells st gs" for st gs
    using h by (simp add: status_tells_def list_all_iff list_ex_iff unpassed_def gate_waiting_def)
  then have ok: "run_ok (td_gates d') r = run_ok (td_gates d) r" for r by (simp add: run_ok_def own)
  show "runs_ok d \<Longrightarrow> runs_ok d'" using h by (simp add: runs_ok_def assms(1-3) ok [unfolded assms(3)])
  have "latest_run i d' = latest_run i d" for i by (simp add: latest_run_def assms(1))
  then have "gate_open d' i (h g) = gate_open d i g" for i g using h by (simp add: gate_open_def assms(1))
  then show "verified d \<Longrightarrow> verified d'" by (simp add: verified_def assms(2,3))
qed

lemma insert_commands_tables:
  "insert_commands now project cs d = Inr d' \<Longrightarrow> td_runs d' = td_runs d \<and> td_gates d' = td_gates d
     \<and> td_tasks d' = td_tasks d \<and> plan_tables d' = plan_tables d"
  by (induction cs arbitrary: d) (fastforce simp: plan_tables_def Let_def split: if_splits)+

lemma replace_commands_relabels:
  obtains (same) "snd (replace_commands now project cs d) = d"
  | (relabelled) h where "td_runs (snd (replace_commands now project cs d)) = td_runs d"
      "td_tasks (snd (replace_commands now project cs d)) = td_tasks d"
      "td_gates (snd (replace_commands now project cs d)) = map h (td_gates d)"
      "plan_tables (snd (replace_commands now project cs d)) = plan_tables d"
      "\<And>g. vg_run_id (h g) = vg_run_id g" "\<And>g. vg_is_required (h g) = vg_is_required g"
      "\<And>g. vg_status (h g) = vg_status g"
proof (cases "snd (replace_commands now project cs d) = d")
  case False
  then obtain d' where ins: "insert_commands now project cs (delete_commands project d) = Inr d'"
    and d': "snd (replace_commands now project cs d) = d'"
    by (auto simp: replace_commands_def checked_simps split_beta Let_def validated_snd replace_commands_tx_def
        map_outcome_Inr split: sum.splits if_splits)
  let ?q = "\<lambda>g. case vg_command_id g of None \<Rightarrow> False
    | Some c \<Rightarrow> c \<in> set (map vc_id (filter (\<lambda>c. vc_project_id c = project) (td_commands d)))"
  show ?thesis
    by (rule relabelled [of "\<lambda>g. if ?q g then g\<lparr>vg_command_id := None\<rparr> else g"])
      (use insert_commands_tables [OF ins] in \<open>simp_all add: d' delete_commands_def Let_def update_rows_map plan_tables_def\<close>)
qed (rule same)

subsection \<open>Creating a run\<close>

lemma insert_gates_tables:
  "insert_gates r fresh n cs d = Inr d' \<Longrightarrow> \<exists>gs. td_gates d' = td_gates d @ gs
     \<and> (\<forall>g \<in> set gs. vg_run_id g = r \<and> vg_status g = ''pending'' \<and> (vg_is_required g \<longrightarrow> list_ex vc_required cs))
     \<and> td_runs d' = td_runs d \<and> td_tasks d' = td_tasks d \<and> plan_tables d' = plan_tables d"
proof (induction cs arbitrary: n d)
  case Nil
  then show ?case by simp
next
  case (Cons c cs)
  then have "insert_gates r fresh (n + 1) cs (d\<lparr>td_gates := td_gates d @ [gate_row (fresh n) r c]\<rparr>) = Inr d'"
    by (auto split: if_splits)
  from Cons.IH [OF this] obtain gs where "td_gates d' = td_gates d @ gate_row (fresh n) r c # gs"
    "\<forall>g \<in> set gs. vg_run_id g = r \<and> vg_status g = ''pending'' \<and> (vg_is_required g \<longrightarrow> list_ex vc_required cs)"
    "td_runs d' = td_runs d" "td_tasks d' = td_tasks d" "plan_tables d' = plan_tables d"
    by auto
  then show ?case by (intro exI [of _ "gate_row (fresh n) r c # gs"]) (auto simp: gate_row_def)
qed

lemma create_run_cases:
  obtains (same) "snd (create_run x now i fresh task sel tr re a d) = d"
  | (created) r gs c where "vr_id r = i" "vr_task_id r = task" "vr_status r = ''queued''"
      "\<And>s. s \<in> set (td_runs d) \<Longrightarrow> vr_id s \<noteq> i" "find_task task d \<noteq> None"
      "td_runs (snd (create_run x now i fresh task sel tr re a d)) = td_runs d @ [r]"
      "td_gates (snd (create_run x now i fresh task sel tr re a d)) = td_gates d @ gs"
      "\<And>g. g \<in> set gs \<Longrightarrow> vg_run_id g = i \<and> vg_status g = ''pending'' \<and> (vg_is_required g \<longrightarrow> c)"
      "td_tasks (snd (create_run x now i fresh task sel tr re a d)) = td_tasks (snd (reopen_if c now task d))"
      "plan_tables (snd (create_run x now i fresh task sel tr re a d)) = plan_tables d"
proof (cases "snd (create_run x now i fresh task sel tr re a d) = d")
  case True
  then show ?thesis by (rule same)
next
  case False
  let ?d' = "snd (create_run x now i fresh task sel tr re a d)"
  obtain b where tx: "create_run_tx x now i fresh task sel tr re a d = Inr (b, ?d')"
  proof (cases "create_run_tx x now i fresh task sel tr re a d")
    case (Inl e)
    with False show ?thesis
      by (auto simp: create_run_def checked_simps validated_def transaction_def split: sum.splits if_splits prod.splits)
  next
    case (Inr v)
    obtain b d1 where v: "v = (b, d1)" by (cases v)
    have "?d' = d1"
      using False by (auto simp: create_run_def checked_simps validated_def transaction_def Inr v
          split: sum.splits if_splits option.splits)
    with that show ?thesis using Inr v by simp
  qed
  let ?cs = "\<lambda>project. commands_for_run project sel d"
  from tx obtain project d1 ev where t: "find_task task d \<noteq> None"
    and new: "\<And>s. s \<in> set (td_runs d) \<Longrightarrow> vr_id s \<noteq> i"
    and ins: "insert_gates i fresh 0 (?cs project)
        (d\<lparr>td_runs := td_runs d @ [new_run i task project re tr (run_created_at now task d)]\<rparr>) = Inr d1"
    and b: "reopen_if (list_ex vc_required (?cs project)) now task
        (record_verification_event now i task None ''created'' a ev d1) = (b, ?d')"
    by (auto simp: create_run_tx_def Let_def split: option.splits sum.splits if_splits)
  from arg_cong [OF b, of snd] have d': "?d' = snd (reopen_if (list_ex vc_required (?cs project)) now task
        (record_verification_event now i task None ''created'' a ev d1))" by simp
  from insert_gates_tables [OF ins] obtain gs where gs: "td_gates d1 = td_gates d @ gs"
    "\<forall>g \<in> set gs. vg_run_id g = i \<and> vg_status g = ''pending'' \<and> (vg_is_required g \<longrightarrow> list_ex vc_required (?cs project))"
    "td_runs d1 = td_runs d @ [new_run i task project re tr (run_created_at now task d)]"
    "td_tasks d1 = td_tasks d" "plan_tables d1 = plan_tables d"
    by auto
  show ?thesis
    by (rule created [of "new_run i task project re tr (run_created_at now task d)" gs "list_ex vc_required (?cs project)"])
      (use new t gs in \<open>auto simp: d' new_run_def intro: td_tasks_reopen_if\<close>)
qed

lemma create_run_keeps:
  assumes "runs_ok d" "verified d"
  shows "runs_ok (snd (create_run x now i fresh task sel tr re a d))"
    and "verified (snd (create_run x now i fresh task sel tr re a d))"
    and "planning_ok d \<Longrightarrow> planning_ok (snd (create_run x now i fresh task sel tr re a d))"
proof -
  let ?d' = "snd (create_run x now i fresh task sel tr re a d)"
  have "runs_ok ?d' \<and> verified ?d' \<and> (planning_ok d \<longrightarrow> planning_ok ?d')"
  proof (cases rule: create_run_cases [of x now i fresh task sel tr re a d])
    case same
    with assms show ?thesis by simp
  next
    case (created r gs c)
    note d = runs_okD [OF assms(1)]
    have kept: "tasks_kept d ?d'"
    proof -
      have "tasks_kept d (snd (reopen_if c now task d))" by (simp add: tasks_kept_reopen_if)
      then show ?thesis using created(9) by (simp add: tasks_kept_def)
    qed
    then have ids: "tk_id ` set (td_tasks ?d') = tk_id ` set (td_tasks d)" by (simp add: tasks_kept_def)
    have old: "own_gates (td_gates ?d') s = own_gates (td_gates d) s" if "s \<in> set (td_runs d)" for s
      using created(4) [OF that] created(8) by (auto simp: own_gates_def created(7) filter_empty_conv)
    have fresh: "own_gates (td_gates ?d') r = gs"
    proof -
      have "vg_run_id g \<noteq> i" if "g \<in> set (td_gates d)" for g using d(4) [OF that] created(4) by (metis imageE)
      then show ?thesis using created(8)
        by (auto simp: own_gates_def created(1,7) filter_empty_conv)
    qed
    have dist: "distinct (map vr_id (td_runs ?d'))"
      using d(1) created(4) by (auto simp: created(6) created(1))
    have "run_ok (td_gates ?d') r"
      using created(3,8) by (simp add: run_ok_def fresh status_tells_def list_all_iff)
    moreover have "run_ok (td_gates ?d') s" if "s \<in> set (td_runs d)" for s
      using d(3) [OF that] by (simp add: run_ok_def old [OF that])
    moreover have "vr_task_id r \<in> tk_id ` set (td_tasks d)"
      using created(2,5) by (simp add: find_task_None)
    ultimately have "\<forall>s \<in> set (td_runs ?d'). vr_task_id s \<in> tk_id ` set (td_tasks ?d') \<and> run_ok (td_gates ?d') s"
      unfolding ids created(6) using d(2) by simp
    then have "runs_ok ?d'"
      using dist d(4) created(1,8) by (auto simp: runs_ok_def created(6,7))
    moreover have "verified ?d'"
      unfolding verified_def
    proof (intro ballI impI notI)
      fix t assume t: "t \<in> set (td_tasks ?d')" "is_completed (tk_status t)"
        and "\<exists>g \<in> set (td_gates ?d'). gate_open ?d' (tk_id t) g"
      then obtain g s where g: "g \<in> set (td_gates ?d')" and s: "s \<in> set (td_runs ?d')" "vr_id s = vg_run_id g"
        "map_option vr_id (latest_run (tk_id t) ?d') = Some (vr_id s)" "vg_is_required g"
        "vr_status s \<noteq> ''passed'' \<or> vg_status g \<noteq> ''passed''"
        unfolding gate_open_def by blast
      obtain u where u: "u \<in> set (td_tasks d)" "tk_id u = tk_id t" "is_completed (tk_status u)"
        using kept t unfolding tasks_kept_def by blast
      from latest_run_append [OF created(6) dist] consider (new) "latest_run (tk_id t) ?d' = Some r"
        | (old) "latest_run (tk_id t) ?d' = latest_run (tk_id t) d" by blast
      then show False
      proof cases
        case new
        then have run: "vg_run_id g = i" using s(2,3) created(1) by simp
        have "g \<notin> set (td_gates d)"
        proof
          assume "g \<in> set (td_gates d)"
          from d(4) [OF this] obtain q where "q \<in> set (td_runs d)" "vg_run_id g = vr_id q" by blast
          with created(4) run show False by simp
        qed
        then have "g \<in> set gs" using g by (simp add: created(7))
        then have c: c using created(8) s(4) by blast
        have "tk_id t = task" using latest_run_Some(2) [OF new] created(2) by simp
        moreover have "t \<in> set (td_tasks (snd (reopen_terminal now task d)))"
          using t(1) c by (simp add: created(9) reopen_if_def)
        then obtain u where "t = (if tk_id u = task \<and> is_completed (tk_status u)
            then u\<lparr>tk_status := ''review'', tk_completed_at := None, tk_updated_at := now\<rparr> else u)"
          by (auto simp: reopen_terminal_def Let_def elim!: in_update_rows)
        ultimately show False using t(2) by (simp split: if_splits)
      next
        case old
        then obtain q where q: "latest_run (tk_id t) d = Some q" "vr_id q = vr_id s" using s(3) by auto
        have ne: "vr_id s \<noteq> i" using created(4) [OF latest_run_Some(1) [OF q(1)]] q(2) by simp
        then have "s \<in> set (td_runs d)" using s(1) created(1) unfolding created(6) by auto
        moreover have "g \<notin> set gs" using created(8) [of g] s(2) ne by auto
        then have "g \<in> set (td_gates d)" using g unfolding created(7) by simp
        ultimately have "gate_open d (tk_id t) g"
          using s(2,4,5) q by (auto simp: gate_open_def)
        moreover have "\<not> (\<exists>g \<in> set (td_gates d). gate_open d (tk_id u) g)"
          using assms(2) u(1,3) unfolding verified_def by blast
        ultimately show False using u(2) \<open>g \<in> set (td_gates d)\<close> by simp
      qed
    qed
    moreover have "planning_ok d \<longrightarrow> planning_ok ?d'"
      using planning_ok_kept [OF _ kept created(10)] by blast
    ultimately show ?thesis by blast
  qed
  then show "runs_ok ?d'" "verified ?d'" "planning_ok d \<Longrightarrow> planning_ok ?d'" by blast+
qed

subsection \<open>Planning operations\<close>

text \<open>An operation that leaves the runs alone, completes nothing the gate forbids and deletes no task.\<close>

definition quiet :: "task_db \<Rightarrow> task_db \<Rightarrow> bool" where
  "quiet d d' \<longleftrightarrow> td_runs d' = td_runs d \<and> td_gates d' = td_gates d
     \<and> tk_id ` set (td_tasks d) \<subseteq> tk_id ` set (td_tasks d')
     \<and> (\<forall>t \<in> set (td_tasks d'). is_completed (tk_status t) \<longrightarrow>
          (\<exists>s \<in> set (td_tasks d). tk_id s = tk_id t \<and> is_completed (tk_status s))
          \<or> tk_id t \<notin> tk_id ` set (td_tasks d)
          \<or> \<not> (\<exists>g \<in> set (td_gates d). gate_open d (tk_id t) g))"

lemma quiet_tasks:
  assumes "td_runs d' = td_runs d" "td_gates d' = td_gates d" "tasks_kept d d'"
  shows "quiet d d'"
  unfolding quiet_def
proof (intro conjI ballI impI)
  show "tk_id ` set (td_tasks d) \<subseteq> tk_id ` set (td_tasks d')"
    using assms(3) by (simp add: tasks_kept_def)
  fix t assume "t \<in> set (td_tasks d')" "is_completed (tk_status t)"
  then show "(\<exists>s \<in> set (td_tasks d). tk_id s = tk_id t \<and> is_completed (tk_status s))
      \<or> tk_id t \<notin> tk_id ` set (td_tasks d) \<or> \<not> (\<exists>g \<in> set (td_gates d). gate_open d (tk_id t) g)"
    using assms(3) unfolding tasks_kept_def by blast
qed (fact assms(1,2))+

lemma quiet_same: "td_runs d' = td_runs d \<Longrightarrow> td_gates d' = td_gates d \<Longrightarrow> td_tasks d' = td_tasks d \<Longrightarrow> quiet d d'"
  by (simp add: quiet_tasks tasks_kept_same)

lemma quiet_reopen: "td_runs d1 = td_runs d \<Longrightarrow> td_gates d1 = td_gates d \<Longrightarrow> td_tasks d1 = td_tasks d
    \<Longrightarrow> quiet d (snd (reopen_terminal now i d1))"
  by (simp add: quiet_tasks tasks_kept_reopen)

lemma quiet_rows:
  assumes "\<And>t. tk_id (f t) = tk_id t"
    and "\<And>t. t \<in> set (td_tasks d) \<Longrightarrow> q t \<Longrightarrow> is_completed (tk_status (f t)) \<Longrightarrow>
      is_completed (tk_status t) \<or> \<not> (\<exists>g \<in> set (td_gates d). gate_open d (tk_id t) g)"
  shows "quiet d (d\<lparr>td_tasks := update_rows q f (td_tasks d)\<rparr>)"
  unfolding quiet_def
proof (intro conjI ballI impI)
  let ?d' = "d\<lparr>td_tasks := update_rows q f (td_tasks d)\<rparr>"
  show "tk_id ` set (td_tasks d) \<subseteq> tk_id ` set (td_tasks ?d')"
    using tk_ids_update_rows [of f q "td_tasks d"] assms(1) by simp
  fix t assume t: "t \<in> set (td_tasks ?d')" "is_completed (tk_status t)"
  then obtain s where s: "s \<in> set (td_tasks d)" "t = (if q s then f s else s)"
    by (auto elim!: in_update_rows)
  then have id: "tk_id t = tk_id s" using assms(1) by simp
  show "(\<exists>s \<in> set (td_tasks d). tk_id s = tk_id t \<and> is_completed (tk_status s))
      \<or> tk_id t \<notin> tk_id ` set (td_tasks d) \<or> \<not> (\<exists>g \<in> set (td_gates d). gate_open d (tk_id t) g)"
  proof (cases "is_completed (tk_status s)")
    case True
    with s(1) id show ?thesis by auto
  next
    case False
    then have "q s" "is_completed (tk_status (f s))" using s(2) t(2) by (auto split: if_splits)
    from assms(2) [OF s(1) this] False show ?thesis by (simp add: id)
  qed
qed simp_all

lemma gate_open_same: "td_runs d' = td_runs d \<Longrightarrow> gate_open d' i g = gate_open d i g"
  by (simp add: gate_open_def latest_run_def)

lemma quiet_keeps:
  assumes "quiet d d'" "runs_ok d" "verified d"
  shows "runs_ok d'" "verified d'"
proof -
  have run: "td_runs d' = td_runs d" and gates: "td_gates d' = td_gates d"
    and sub: "tk_id ` set (td_tasks d) \<subseteq> tk_id ` set (td_tasks d')"
    using assms(1) by (simp_all add: quiet_def)
  show "runs_ok d'" using assms(2) sub unfolding runs_ok_def run gates by blast
  note d = runs_okD [OF assms(2)]
  have none: "\<not> gate_open d i g" if "i \<notin> tk_id ` set (td_tasks d)" for i g
  proof
    assume "gate_open d i g"
    then obtain r where "latest_run i d = Some r" by (auto simp: gate_open_def)
    from latest_run_Some [OF this] d(2) that show False by blast
  qed
  show "verified d'"
    unfolding verified_def gates gate_open_same [OF run]
  proof (intro ballI impI)
    fix t assume t: "t \<in> set (td_tasks d')" "is_completed (tk_status t)"
    then consider s where "s \<in> set (td_tasks d)" "tk_id s = tk_id t" "is_completed (tk_status s)"
      | "tk_id t \<notin> tk_id ` set (td_tasks d)" | "\<not> (\<exists>g \<in> set (td_gates d). gate_open d (tk_id t) g)"
      using assms(1) unfolding quiet_def by blast
    then show "\<not> (\<exists>g \<in> set (td_gates d). gate_open d (tk_id t) g)"
    proof cases
      case 1
      then show ?thesis using assms(3) unfolding verified_def by metis
    next
      case 2
      then show ?thesis using none by blast
    qed
  qed
qed

lemma quiet_create: "quiet d (snd (tasks_create now t d))"
proof -
  have "quiet d d'" if "insert_task now t d = Inr (p, d')" for p d'
  proof -
    from that have "d' = d\<lparr>td_tasks := td_tasks d @ [new_task_row now p t]\<rparr>"
      and "nk_id t \<notin> tk_id ` set (td_tasks d)"
      by (auto simp: insert_task_def find_task_None split: sum.splits if_splits)
    then show ?thesis by (auto simp: quiet_def new_task_row_def)
  qed
  then show ?thesis
    by (auto simp: tasks_create_def validated_snd split_beta quiet_same split: sum.split)
qed

lemma quiet_update: "quiet d (snd (update_task now i p d))"
  by (auto simp: update_task_def validated_snd update_task_tx_def Let_def patched_def quiet_same
      intro!: quiet_rows split: sum.split option.split)

lemma quiet_status: "quiet d (snd (set_task_status now i st d))"
  by (auto simp: set_task_status_def validated_snd set_task_status_tx_def set_status_row_def quiet_same
      has_completion_blockers_def intro!: quiet_rows split: sum.split)

lemma insert_dependencies_runs:
  "insert_dependencies x now i p as d = Inr d' \<Longrightarrow> td_runs d' = td_runs d \<and> td_gates d' = td_gates d"
  by (induction as arbitrary: d) (fastforce split: option.splits if_splits)+

lemma quiet_dependencies: "quiet d (snd (replace_dependencies x now i ids d))"
proof (cases rule: replace_dependencies_cases [of x now i ids d])
  case 1
  then show ?thesis by (simp add: quiet_same)
next
  case (2 s d1)
  then show ?thesis
    using insert_dependencies_tables [OF 2(4)] insert_dependencies_runs [OF 2(4)]
    by (simp add: quiet_reopen)
qed

lemma quiet_plan: "quiet d (snd (replace_plan now i steps d))"
proof -
  have "quiet d d'" if tx: "replace_plan_tx now i steps d = Inr (b, d')" for b d'
  proof -
    have w: "td_runs (with_plan now i steps d) = td_runs d" "td_gates (with_plan now i steps d) = td_gates d"
      "td_tasks (with_plan now i steps d) = td_tasks d"
      by (simp_all add: with_plan_def delete_steps_def Let_def)
    have kept: "tasks_kept d (snd (reopen_terminal now i (with_plan now i steps d)))"
      by (rule tasks_kept_reopen) (rule w)
    have "tasks_kept d d'"
      using kept unfolding replace_plan_tx_Inr(3) [OF tx] tasks_kept_def
      by (auto simp add: tk_ids_update_rows ball_update_rows)
    then show ?thesis by (rule quiet_tasks [rotated 2]) (simp_all add: replace_plan_tx_Inr(3) [OF tx] w)
  qed
  then show ?thesis by (simp add: replace_plan_snd quiet_same split: sum.split prod.split)
qed

lemma quiet_change:
  assumes "\<And>c. ac_id (f c) = ac_id c" "\<And>c. ac_task_id (f c) = ac_task_id c"
  shows "quiet d (snd (change_criterion x now i f k a r d))"
proof (cases rule: change_criterion_snd [of f x now i k a r d, OF assms])
  case 1
  then show ?thesis by (simp add: quiet_same)
next
  case (2 c e d1)
  then show ?thesis by (simp add: quiet_same quiet_reopen)
qed

lemma quiet_criterion_ops:
  "quiet d (snd (create_criterion x now c a d))"
  "quiet d (snd (update_criterion x now i de so rq a d))"
  "quiet d (snd (delete_criterion x now i a d))"
  "quiet d (snd (add_evidence x now i v a d))"
  "quiet d (snd (evaluate_criterion x now i b w a d))"
  "quiet d (snd (override_criterion x now i r a d))"
proof -
  show "quiet d (snd (create_criterion x now c a d))"
    by (cases rule: create_criterion_cases [of x now c a d]) (simp_all add: quiet_same quiet_reopen)
  show "quiet d (snd (delete_criterion x now i a d))"
    by (cases rule: delete_criterion_cases [of x now i a d]) (simp_all add: quiet_same quiet_reopen)
qed (auto simp: update_criterion_def add_evidence_def evaluate_criterion_def override_criterion_def
      quiet_same intro!: quiet_change split: sum.split)

lemma delete_task_keeps:
  assumes "runs_ok d" "verified d"
  shows "runs_ok (snd (delete_task i d))" "verified (snd (delete_task i d))"
proof -
  let ?d' = "snd (delete_task i d)"
  have "runs_ok ?d' \<and> verified ?d'"
  proof (cases "find_task i d = None")
    case True
    with assms show ?thesis by (simp add: delete_task_def Let_def)
  next
    case False
    note d = runs_okD [OF assms(1)]
    let ?gone = "map vr_id (filter (\<lambda>r. vr_task_id r = i) (td_runs d))"
    let ?f = "\<lambda>r. r\<lparr>vr_rerun_of_id := None\<rparr>"
    let ?p = "\<lambda>r. case vr_rerun_of_id r of None \<Rightarrow> False | Some k \<Rightarrow> k \<in> set ?gone"
    have tables: "td_runs ?d' = update_rows ?p ?f (delete_rows (\<lambda>r. vr_task_id r = i) (td_runs d))"
      "td_gates ?d' = delete_rows (\<lambda>g. vg_run_id g \<in> set ?gone) (td_gates d)"
      "td_tasks ?d' = update_rows (\<lambda>t. tk_parent_task_id t = Some i) (\<lambda>t. t\<lparr>tk_parent_task_id := None\<rparr>)
         (delete_rows (\<lambda>t. tk_id t = i) (td_tasks d))"
      using False by (auto simp: delete_task_def Let_def delete_steps_def)
    have ids: "tk_id ` set (td_tasks ?d') = tk_id ` set (td_tasks d) - {i}"
      unfolding tables by (subst tk_ids_update_rows) auto
    have gone: "vr_id r \<in> set ?gone \<longleftrightarrow> vr_task_id r = i" if "r \<in> set (td_runs d)" for r
      using d(5) [OF _ that] that by auto
    have own: "own_gates (td_gates ?d') r = own_gates (td_gates d) r"
      if "r \<in> set (td_runs d)" "vr_task_id r \<noteq> i" for r
      using gone [OF that(1)] that(2) unfolding tables(2) own_gates_def delete_rows_def filter_filter
      by (intro filter_cong refl) metis
    have "distinct (map vr_id (td_runs ?d'))"
      unfolding tables by (simp add: map_update_rows_same distinct_map_delete_rows d(1))
    moreover have "\<forall>r \<in> set (td_runs ?d'). vr_task_id r \<in> tk_id ` set (td_tasks ?d') \<and> run_ok (td_gates ?d') r"
    proof
      fix r' assume "r' \<in> set (td_runs ?d')"
      then obtain r where r: "r \<in> set (td_runs d)" "vr_task_id r \<noteq> i" "r' = (if ?p r then ?f r else r)"
        unfolding tables(1) by (auto elim!: in_update_rows)
      then have "vr_task_id r' = vr_task_id r" "vr_status r' = vr_status r" "vr_id r' = vr_id r" by auto
      moreover from this have "own_gates (td_gates ?d') r' = own_gates (td_gates d) r"
        using own [OF r(1,2)] by (simp add: own_gates_def)
      ultimately show "vr_task_id r' \<in> tk_id ` set (td_tasks ?d') \<and> run_ok (td_gates ?d') r'"
        using d(2,3) [OF r(1)] r(2) unfolding ids run_ok_def by simp
    qed
    moreover have "\<forall>g \<in> set (td_gates ?d'). vg_run_id g \<in> vr_id ` set (td_runs ?d')"
    proof
      fix g assume "g \<in> set (td_gates ?d')"
      then have g: "g \<in> set (td_gates d)" "vg_run_id g \<notin> set ?gone" by (auto simp: tables(2))
      then obtain r where r: "r \<in> set (td_runs d)" "vr_id r = vg_run_id g" using d(4) by (metis imageE)
      have "vr_task_id r \<noteq> i" using gone [OF r(1)] g(2) unfolding r(2) by blast
      with r(1) have "r \<in> set (delete_rows (\<lambda>r. vr_task_id r = i) (td_runs d))" by simp
      from updated_in [OF this, of ?p ?f] have "(if ?p r then ?f r else r) \<in> set (td_runs ?d')"
        unfolding tables(1) .
      then show "vg_run_id g \<in> vr_id ` set (td_runs ?d')"
        using r(2) by (force split: if_splits)
    qed
    moreover have "verified ?d'"
      unfolding verified_def
    proof (intro ballI impI notI)
      fix t assume t: "t \<in> set (td_tasks ?d')" "is_completed (tk_status t)"
        and "\<exists>g \<in> set (td_gates ?d'). gate_open ?d' (tk_id t) g"
      then obtain g where g: "g \<in> set (td_gates ?d')" "gate_open ?d' (tk_id t) g" by blast
      obtain u where u: "u \<in> set (td_tasks d)" "tk_id u = tk_id t" "is_completed (tk_status u)" "tk_id t \<noteq> i"
        using t by (auto simp: tables(3) set_update_rows split: if_splits)
      have eq: "filter (\<lambda>r. vr_task_id r = tk_id t) (td_runs ?d')
          = map (\<lambda>r. if ?p r then ?f r else r) (filter (\<lambda>r. vr_task_id r = tk_id t) (td_runs d))"
      proof -
        have "filter (\<lambda>r. vr_task_id r = tk_id t) (delete_rows (\<lambda>r. vr_task_id r = i) (td_runs d))
            = filter (\<lambda>r. vr_task_id r = tk_id t) (td_runs d)"
          unfolding delete_rows_def filter_filter using u(4) by (intro filter_cong) auto
        then show ?thesis
          by (simp add: tables(1) update_rows_map filter_map comp_def if_distrib [where f = vr_task_id] cong: if_cong)
      qed
      have lt: "map_option vr_id (latest_run (tk_id t) ?d') = map_option vr_id (latest_run (tk_id t) d)"
        using latest_run_map [OF eq] by (simp add: option.map_comp comp_def if_distrib [where f = vr_id] cong: if_cong)
      from g(2) obtain r' where r': "r' \<in> set (td_runs ?d')" "vr_id r' = vg_run_id g"
        "map_option vr_id (latest_run (tk_id t) ?d') = Some (vr_id r')"
        "vg_is_required g" "vr_status r' \<noteq> ''passed'' \<or> vg_status g \<noteq> ''passed''"
        by (auto simp: gate_open_def)
      from r'(1) obtain r where r: "r \<in> set (td_runs d)" "r' = (if ?p r then ?f r else r)"
        unfolding tables(1) by (auto elim!: in_update_rows)
      then have "vr_id r' = vr_id r" "vr_status r' = vr_status r" by auto
      with r(1) r'(2-) lt have "gate_open d (tk_id t) g" by (auto simp: gate_open_def intro!: bexI [of _ r])
      moreover have "g \<in> set (td_gates d)" using g(1) by (simp add: tables(2))
      ultimately show False using assms(2) u unfolding verified_def by metis
    qed
    ultimately show ?thesis by (simp add: runs_ok_def)
  qed
  then show "runs_ok ?d'" "verified ?d'" by blast+
qed

subsection \<open>Every sequence of operations\<close>

definition settled :: "task_db \<Rightarrow> bool" where
  "settled d \<longleftrightarrow> planning_ok d \<and> runs_ok d \<and> verified d"

lemma settled_advance:
  "settled d \<Longrightarrow> advance d d' \<and> plan_tables d' = plan_tables d \<or> d' = d \<Longrightarrow> settled d'"
  using planning_ok_kept by (auto simp: settled_def advance_runs_ok advance_verified elim: advance.cases)

lemma settled_planning: "settled d \<Longrightarrow> quiet d (task_step_fn x op d) \<Longrightarrow> settled (task_step_fn x op d)"
  using quiet_keeps planning_ok_step by (auto simp: settled_def)

lemma settled_replace_commands: "settled d \<Longrightarrow> settled (snd (replace_commands now project cs d))"
proof (cases rule: replace_commands_relabels [of now project cs d])
  case (relabelled h)
  assume "settled d"
  with gates_relabelled [OF relabelled(1,2,3,5,6,7)] planning_ok_kept [OF _ tasks_kept_same [OF relabelled(2)] relabelled(4)]
  show ?thesis by (simp add: settled_def)
qed simp

lemma settled_step: "settled d \<Longrightarrow> settled (verification_step x op d)"
proof (cases op)
  case (ReplaceCommands now project cs)
  assume "settled d"
  then show ?thesis unfolding ReplaceCommands verification_step.simps by (rule settled_replace_commands)
next
  case (CreateRun now i fresh task sel tr re a)
  assume "settled d"
  then show ?thesis by (simp add: CreateRun settled_def create_run_keeps)
next
  case (StartRun now i a)
  assume s: "settled d"
  then show ?thesis unfolding StartRun verification_step.simps
    by (rule settled_advance) (rule start_advances, use s in \<open>simp add: settled_def\<close>)
next
  case (RecordGate now i g st su rs as a)
  assume s: "settled d"
  then show ?thesis unfolding RecordGate verification_step.simps
    by (rule settled_advance) (rule record_gate_advances, use s in \<open>simp add: settled_def\<close>)
next
  case (FinishRun now i a)
  assume s: "settled d"
  then show ?thesis unfolding FinishRun verification_step.simps
    by (rule settled_advance) (rule finish_advances, use s in \<open>simp add: settled_def\<close>)
next
  case (CancelRun now i a)
  assume s: "settled d"
  then show ?thesis unfolding CancelRun verification_step.simps
    by (rule settled_advance) (rule cancel_advances, use s in \<open>simp add: settled_def\<close>)
next
  case (Restart now)
  assume s: "settled d"
  then have "runs_ok d" by (simp add: settled_def)
  from recover_advances [OF this] s show ?thesis
    unfolding Restart verification_step.simps by (intro settled_advance [OF s]) simp
next
  case (OnTasks t)
  assume s: "settled d"
  show ?thesis
  proof (cases t)
    case (OpDelete i)
    with s show ?thesis
      by (simp add: OnTasks settled_def delete_task_keeps planning_ok_delete)
  next
    case (OpVerification rs gs ds bs)
    let ?d = "d\<lparr>td_browser_definitions := ds, td_browser_runs := bs\<rparr>"
    have "planning_ok ?d" using s by (auto simp: settled_def intro: planning_ok_tables)
    moreover have "quiet d ?d" by (simp add: quiet_same)
    ultimately show ?thesis using s quiet_keeps [of d ?d] by (simp add: OnTasks OpVerification settled_def)
  qed (use settled_planning [OF s, of x t] in \<open>simp_all add: OnTasks quiet_create quiet_update quiet_status
      quiet_dependencies quiet_plan quiet_criterion_ops\<close>)
qed

lemma settled_run: "settled (run (verification_step x) ops (no_tasks b ws))"
proof -
  have "settled (no_tasks b ws)"
    by (simp add: settled_def planning_ok_def references_ok_def gated_def runs_ok_def verified_def no_tasks_def db.defs)
  with settled_step show ?thesis by (rule run_invariant)
qed

text \<open>C18: A completed task stays verified. Along every sequence of planning calls, verification
  calls and restarts, a task that is completed or done has no unfinished step, no unsatisfied
  required criterion and no gate that holds its completion back: every required gate of its
  newest run has passed. A run that is created, fails, is cancelled or is interrupted never
  leaves a task completed on the word of an older run.
\<close>

theorem completed_tasks_stay_verified:
  "let d = run (verification_step x) ops (no_tasks b ws) in
     list_all (\<lambda>t. filter (gate_open d (tk_id t)) (td_gates d) = []
         \<and> filter (step_open (tk_id t)) (td_steps d) = []
         \<and> filter (criterion_open (tk_id t)) (td_criteria d) = [])
       (filter (\<lambda>t. is_completed (tk_status t)) (td_tasks d))"
  using settled_run [of x ops b ws]
  by (auto simp: Let_def settled_def planning_ok_def gated_def own_open_def verified_def list_all_iff
      filter_empty_conv)

text \<open>C19: The status of a verification run tells the truth about its gates in every reachable
  state: a queued run has only pending gates, a passed run has every required gate passed, a
  failed run has a required gate that was recorded as something else, and a cancelled or
  interrupted run has no gate left pending or running; no other status occurs.
\<close>

theorem run_status_tells_its_gates:
  "let d = run (verification_step x) ops (no_tasks b ws) in
     list_all (\<lambda>r. status_tells (vr_status r) (filter (\<lambda>g. vg_run_id g = vr_id r) (td_gates d))) (td_runs d)"
  using settled_run [of x ops b ws]
  by (auto simp: Let_def settled_def runs_ok_def run_ok_def own_gates_def list_all_iff)

subsection \<open>Reopening by an older run\<close>

text \<open>An answer that reopens its task comes from a run that is not the newest, and no gate was open.\<close>

definition late_reopening ::
    "task_db \<Rightarrow> uuid \<Rightarrow> (storage_error, run_details verification_mutation option) outcome \<Rightarrow> bool" where
  "late_reopening d i answer =
     (case answer of
        Inr (Some m) \<Rightarrow>
          (if vm_reopened m
           then map_option vr_id (latest_run (vm_task_id m) d) \<noteq> Some i
             \<and> filter (gate_open d (vm_task_id m)) (td_gates d) = []
           else True)
      | _ \<Rightarrow> True)"

lemma late_simps [simp]:
  "late_reopening d i (Inl e)" "late_reopening d i (Inr None)"
  "\<not> vm_reopened m \<Longrightarrow> late_reopening d i (Inr (Some m))"
  by (simp_all add: late_reopening_def)

lemma reopened_was_completed:
  assumes "td_tasks d1 = td_tasks d" "fst (reopen_if c now t d1)"
  obtains u where "u \<in> set (td_tasks d)" "tk_id u = t" "is_completed (tk_status u)" c
  using assms by (auto simp: reopen_if_def reopen_terminal_def Let_def count_rows_pos_iff split: if_splits)

lemma late_answer:
  assumes "verified d" and c: "td_tasks d1 = td_tasks d"
    and gate: "c \<Longrightarrow> \<exists>g \<in> set (td_gates d). vg_run_id g = i \<and> vg_is_required g"
    and r: "r \<in> set (td_runs d)" "vr_id r = i" "vr_status r \<noteq> ''passed''"
  shows "late_reopening d i (Inr (map_option (mutation_of t (fst (reopen_if c now t d1))) v))"
proof (cases "v \<noteq> None \<and> fst (reopen_if c now t d1)")
  case True
  then obtain u where u: "u \<in> set (td_tasks d)" "tk_id u = t" "is_completed (tk_status u)" c
    using reopened_was_completed [OF c] by blast
  then have none: "\<not> (\<exists>g \<in> set (td_gates d). gate_open d t g)"
    using assms(1) unfolding verified_def by blast
  moreover have "map_option vr_id (latest_run t d) \<noteq> Some i"
  proof
    assume "map_option vr_id (latest_run t d) = Some i"
    moreover obtain g where "g \<in> set (td_gates d)" "vg_run_id g = i" "vg_is_required g" using gate u(4) by blast
    ultimately have "gate_open d t g" using r by (auto simp: gate_open_def)
    with none \<open>g \<in> set (td_gates d)\<close> show False by blast
  qed
  ultimately show ?thesis
    using True by (auto simp: late_reopening_def mutation_of_def filter_empty_conv)
next
  case False
  then show ?thesis by (cases v) (simp_all add: mutation_of_def)
qed

lemma late_outcome:
  assumes "\<And>t b d'. tx d = Inr (Some (t, b), d') \<Longrightarrow>
      \<exists>c now d1 r. b = fst (reopen_if c now t d1) \<and> td_tasks d1 = td_tasks d
        \<and> (c \<longrightarrow> (\<exists>g \<in> set (td_gates d). vg_run_id g = i \<and> vg_is_required g))
        \<and> r \<in> set (td_runs d) \<and> vr_id r = i \<and> vr_status r \<noteq> ''passed''"
    and "verified d"
  shows "late_reopening d i (fst (run_outcome i (validated tx d)))"
proof (cases rule: validated_cases [of tx d])
  case failed
  then show ?thesis
    by (cases "validated tx d"; cases "fst (validated tx d)") (auto simp: run_outcome_def)
next
  case (good v d')
  show ?thesis
  proof (cases v)
    case None
    then show ?thesis by (simp add: good run_outcome_def)
  next
    case (Some tb)
    obtain t b where tb: "tb = (t, b)" by (cases tb)
    from assms(1) good(1) obtain c now d1 r where *: "b = fst (reopen_if c now t d1)" "td_tasks d1 = td_tasks d"
      "c \<longrightarrow> (\<exists>g \<in> set (td_gates d). vg_run_id g = i \<and> vg_is_required g)"
      "r \<in> set (td_runs d)" "vr_id r = i" "vr_status r \<noteq> ''passed''"
      unfolding Some tb by blast
    from late_answer [OF assms(2) *(2) _ *(4-6), of c t now "get_run i d'"] *(1,3)
    show ?thesis by (simp add: good Some tb run_outcome_def)
  qed
qed

lemma late_checked:
  "late_reopening d i (fst k) \<Longrightarrow> late_reopening d i (fst (checked r d k))"
  by (simp add: checked_def split: sum.split)

lemma late_record_gate: "verified d \<Longrightarrow> late_reopening d i (fst (record_gate now i g st su rs as a d))"
proof -
  assume v: "verified d"
  have "late_reopening d i (fst (run_outcome i (validated (record_gate_tx now i g st su rs as a) d)))"
  proof (rule late_outcome [OF _ v])
    fix t b d' assume tx: "record_gate_tx now i g st su rs as a d = Inr (Some (t, b), d')"
    from tx have id: "run_identity i d = Some (t, ''running'')"
      by (auto simp: record_gate_tx_def Let_def split_beta split: option.splits sum.splits if_splits)
    from tx obtain row d1 d2 ev where find: "find (\<lambda>h. vg_id h = g \<and> vg_run_id h = i) (td_gates d) = Some row"
      and 1: "insert_results i g rs (gate_written now i g st su d) = Inr d1"
      and 2: "insert_artifacts now i g as d1 = Inr d2"
      and b: "b = fst (reopen_if (vg_is_required row \<and> st \<noteq> ''passed'') now t
        (record_verification_event now i t (Some g) ''gate_recorded'' a ev d2))"
      by (auto simp: record_gate_tx_def Let_def split_beta split: option.splits sum.splits if_splits)
    have tasks: "td_tasks (record_verification_event now i t (Some g) ''gate_recorded'' a ev d2) = td_tasks d"
      using insert_results_tables [OF 1] insert_artifacts_tables [OF 2] by (simp add: gate_written_def)
    from run_identity_Some [OF id] obtain r where "r \<in> set (td_runs d)" "vr_id r = i" "vr_status r = ''running''" by blast
    moreover have "(vg_is_required row \<and> st \<noteq> ''passed'') \<longrightarrow> (\<exists>g \<in> set (td_gates d). vg_run_id g = i \<and> vg_is_required g)"
      using find_Some_in_set [OF find] by blast
    ultimately show "\<exists>c now d1 r. b = fst (reopen_if c now t d1) \<and> td_tasks d1 = td_tasks d
        \<and> (c \<longrightarrow> (\<exists>g \<in> set (td_gates d). vg_run_id g = i \<and> vg_is_required g))
        \<and> r \<in> set (td_runs d) \<and> vr_id r = i \<and> vr_status r \<noteq> ''passed''"
      using b tasks
      by (intro exI [of _ "vg_is_required row \<and> st \<noteq> ''passed''"] exI [of _ now] exI [of _ r]
            exI [of _ "record_verification_event now i t (Some g) ''gate_recorded'' a ev d2"]) simp
  qed
  then show ?thesis
    by (auto simp: record_gate_def intro!: late_checked)
qed

lemma late_finish: "verified d \<Longrightarrow> late_reopening d i (fst (finish_run now i a d))"
proof -
  assume v: "verified d"
  have "late_reopening d i (fst (run_outcome i (validated (finish_tx now i a) d)))"
  proof (rule late_outcome [OF _ v])
    fix t b d' assume tx: "finish_tx now i a d = Inr (Some (t, b), d')"
    from tx have id: "run_identity i d = Some (t, ''running'')"
      by (auto simp: finish_tx_def Let_def split_beta split: option.splits if_splits)
    let ?c = "0 < count_rows (\<lambda>g. vg_run_id g = i \<and> vg_is_required g \<and> vg_status g \<noteq> ''passed'') (td_gates d)"
    from tx obtain ev final su where b: "b = fst (reopen_if ?c now t (record_verification_event now i t None
        ''finished'' a ev (set_run i (\<lambda>r. r\<lparr>vr_status := final, vr_summary := su, vr_completed_at := Some now\<rparr>) d)))"
      unfolding finish_tx_def Let_def split_beta id by (auto split: if_splits)
    define d1 where "d1 = record_verification_event now i t None
        ''finished'' a ev (set_run i (\<lambda>r. r\<lparr>vr_status := final, vr_summary := su, vr_completed_at := Some now\<rparr>) d)"
    have "td_tasks d1 = td_tasks d" "b = fst (reopen_if ?c now t d1)" by (simp_all add: d1_def b)
    moreover have "?c \<longrightarrow> (\<exists>g \<in> set (td_gates d). vg_run_id g = i \<and> vg_is_required g)"
      by (auto simp: count_rows_pos_iff)
    moreover from run_identity_Some [OF id] obtain r where "r \<in> set (td_runs d)" "vr_id r = i" "vr_status r = ''running''" by blast
    ultimately show "\<exists>c now d1 r. b = fst (reopen_if c now t d1) \<and> td_tasks d1 = td_tasks d
        \<and> (c \<longrightarrow> (\<exists>g \<in> set (td_gates d). vg_run_id g = i \<and> vg_is_required g))
        \<and> r \<in> set (td_runs d) \<and> vr_id r = i \<and> vr_status r \<noteq> ''passed''"
      by (intro exI [of _ ?c] exI [of _ now] exI [of _ d1] exI [of _ r]) simp
  qed
  then show ?thesis by (simp add: finish_run_def late_checked)
qed

text \<open>Only a run that has been overtaken can reopen a completed task. When recording a gate
  or finishing a run answers that it sent the task back to review, the run is not the newest of
  its task, and no gate was holding the task's completion back: the newest run had passed every
  required gate.
\<close>

theorem only_overtaken_runs_reopen:
  "let d = run (verification_step x) ops (no_tasks b ws) in
     late_reopening d i (fst (record_gate now i g st su rs as a d))
     \<and> late_reopening d i (fst (finish_run now i a d))"
  using settled_run [of x ops b ws] by (simp add: Let_def settled_def late_record_gate late_finish)

subsection \<open>A run that reopens a verified task\<close>

text \<open>
  Two runs of one task are started; the second passes and the task is completed; then the first,
  still running, records a failure.
\<close>

definition sample_command :: new_verification_command where
  "sample_command = \<lparr>nv_id = 21, nv_key = ''unit'', nv_kind = ''test'', nv_command = ''cargo test'',
     nv_cwd = None, nv_required = True, nv_enabled = True, nv_timeout_ms = None\<rparr>"

definition project_only :: db where
  "project_only = empty_db\<lparr>projects := [\<lparr>pr_id = 7, pr_name = ''P'', pr_created_at = 1, pr_updated_at = 1,
     pr_archived_at = None\<rparr>]\<rparr>"

definition overtaken_history :: "verification_op list" where
  "overtaken_history =
     [OnTasks (OpCreate 1 (sample_task\<lparr>nk_project_id := Some 7\<rparr>)),
      ReplaceCommands 2 7 [sample_command],
      CreateRun 3 31 (\<lambda>n. 41 + n) 1 [] ''manual'' None ''user'', StartRun 4 31 ''user'',
      CreateRun 5 32 (\<lambda>n. 51 + n) 1 [] ''manual'' None ''user'', StartRun 6 32 ''user'',
      RecordGate 7 32 51 ''passed'' JNull [] [] ''user'', FinishRun 8 32 ''user'',
      OnTasks (OpStatus 9 1 ''completed'')]"

lemmas task_evaluation = tasks_create_def validate_new_task_fields_def validate_status_def sample_task_def
  TASK_STATUSES_def trim_def ascii_space_def negative_def currency_ok_def ascii_upper_def
  validated_def transaction_def insert_task_def effective_project_def
  validate_task_relationships_def check_def check_session_def check_worktree_def
  check_parent_def inconsistent_related_def no_tasks_def db.defs empty_db_def find_task_def
  project_exists_def project_only_def

lemmas run_evaluation = checked_def validate_verification_actor_def validate_selected_def trim_def ascii_space_def
  validated_def transaction_def Let_def GATE_KINDS_def GATE_RESULTS_def validate_gate_kind_def
  find_task_def find_run_def run_identity_def new_run_def gate_row_def record_verification_event_def set_run_def
  reopen_if_def reopen_terminal_def is_completed_def count_rows_def no_tasks_def db.defs sample_command_def
  empty_db_def project_only_def new_task_row_def sample_task_def

definition history_task :: task_row where
  "history_task = new_task_row 1 (Some 7) (sample_task\<lparr>nk_project_id := Some 7\<rparr>)"

definition history_state ::
    "verification_run_row list \<Rightarrow> verification_gate_row list \<Rightarrow> verification_event list \<Rightarrow> task_db" where
  "history_state rs gs es = (no_tasks project_only [])\<lparr>td_tasks := [history_task], td_commands := [command_row 2 7 sample_command],
     td_runs := rs, td_gates := gs, td_verification_events := es\<rparr>"

definition history_run :: "uuid \<Rightarrow> millis \<Rightarrow> verification_run_row" where
  "history_run i t = new_run i 1 7 None ''manual'' t"

definition history_gate :: "uuid \<Rightarrow> uuid \<Rightarrow> verification_gate_row" where
  "history_gate n i = gate_row n i (command_row 2 7 sample_command)"

lemma history_setup: "run (verification_step x) (take 2 overtaken_history) (no_tasks project_only []) = history_state [] [] []"
  by (simp add: overtaken_history_def task_evaluation history_state_def history_task_def replace_commands_def validate_commands_def checked_def
     sample_command_def validate_gate_kind_def GATE_KINDS_def replace_commands_tx_def delete_commands_def command_row_def new_task_row_def
     delete_rows_def)


lemmas state_evaluation = history_state_def history_task_def history_run_def history_gate_def command_row_def run_evaluation

lemma history_first_run: "\<exists>es'. snd (create_run x 3 31 (\<lambda>n. 41 + n) 1 [] ''manual'' None ''user'' (history_state [] [] es))
  = history_state [history_run 31 3] [history_gate 41 31] es'"
  by (simp add: state_evaluation create_run_def create_run_tx_def
     check_rerun_def commands_for_run_def run_created_at_def get_run_def)

definition started :: "millis \<Rightarrow> verification_run_row \<Rightarrow> verification_run_row" where
  "started t r = r\<lparr>vr_status := ''running'', vr_started_at := Some t\<rparr>"

lemma history_first_started: "\<exists>es'. snd (start_run 4 31 ''user'' (history_state [history_run 31 3] [history_gate 41 31] es))
  = history_state [started 4 (history_run 31 3)] [history_gate 41 31] es'"
  by (simp add: state_evaluation start_run_def start_tx_def started_def)

lemma history_second_run: "\<exists>es'. snd (create_run x 5 32 (\<lambda>n. 51 + n) 1 [] ''manual'' None ''user'' (history_state [started 4 (history_run 31 3)] [history_gate 41 31] es))
  = history_state [started 4 (history_run 31 3), history_run 32 5] [history_gate 41 31, history_gate 51 32] es'"
  by (simp add: state_evaluation create_run_def create_run_tx_def started_def
     check_rerun_def commands_for_run_def run_created_at_def get_run_def)

lemma history_second_started: "\<exists>es'. snd (start_run 6 32 ''user'' (history_state [started 4 (history_run 31 3), history_run 32 5] [history_gate 41 31, history_gate 51 32] es))
  = history_state [started 4 (history_run 31 3),
      started 6 (history_run 32 5)] [history_gate 41 31, history_gate 51 32] es'"
  by (simp add: state_evaluation start_run_def start_tx_def started_def)

lemma history_second_recorded: "\<exists>es'. snd (record_gate 7 32 51 ''passed'' JNull [] [] ''user'' (history_state [started 4 (history_run 31 3),
      started 6 (history_run 32 5)] [history_gate 41 31, history_gate 51 32] es))
  = history_state [started 4 (history_run 31 3),
      started 6 (history_run 32 5)] [history_gate 41 31, set_gate 7 ''passed'' JNull (history_gate 51 32)] es'"
  by (simp add: state_evaluation record_gate_def record_gate_tx_def started_def gate_written_def run_outcome_def set_gate_def delete_rows_def)

definition passed_run :: verification_run_row where
  "passed_run = (started 6 (history_run 32 5))\<lparr>vr_status := ''passed'',
     vr_summary := JObj [(''totalGates'', JNum (PosInt 1)), (''passedGates'', JNum (PosInt 1)),
       (''failedRequiredGates'', JNum (PosInt 0))], vr_completed_at := Some 8\<rparr>"

lemma history_second_passed: "\<exists>es'. snd (finish_run 8 32 ''user'' (history_state [started 4 (history_run 31 3),
      started 6 (history_run 32 5)] [history_gate 41 31, set_gate 7 ''passed'' JNull (history_gate 51 32)] es))
  = history_state [started 4 (history_run 31 3), passed_run] [history_gate 41 31, set_gate 7 ''passed'' JNull (history_gate 51 32)] es'"
  by (simp add: state_evaluation finish_run_def finish_tx_def started_def run_outcome_def set_gate_def passed_run_def gate_waiting_def del: One_nat_def)

definition history_done :: "verification_event list \<Rightarrow> task_db" where
  "history_done es = (history_state [started 4 (history_run 31 3), passed_run] [history_gate 41 31, set_gate 7 ''passed'' JNull (history_gate 51 32)] es)
     \<lparr>td_tasks := [set_status_row 9 ''completed'' history_task]\<rparr>"

lemma history_completed: "snd (set_task_status 9 1 ''completed'' (history_state [started 4 (history_run 31 3), passed_run] [history_gate 41 31, set_gate 7 ''passed'' JNull (history_gate 51 32)] es))
  = history_done es"
  by (simp add: state_evaluation set_task_status_def validate_status_def TASK_STATUSES_def set_task_status_tx_def
    has_completion_blockers_def gate_open_def latest_run_def started_def passed_run_def set_gate_def history_done_def del: One_nat_def)

lemma history_late_failure: "case fst (record_gate 10 31 41 ''failed'' JNull [] [] ''user'' (history_done es)) of Inr (Some m) \<Rightarrow> vm_reopened m \<and> vm_task_id m = 1 | _ \<Rightarrow> False"
  by (simp add: history_done_def state_evaluation record_gate_def record_gate_tx_def started_def gate_written_def run_outcome_def set_gate_def 
     delete_rows_def set_status_row_def get_run_def mutation_of_def passed_run_def del: One_nat_def)

theorem overtaken_failure_reopens:
  "let d = run (verification_step x) overtaken_history (no_tasks project_only []) in
     map tk_status (td_tasks d) = [''completed'']
     \<and> map_option vr_status (latest_run 1 d) = Some ''passed''
     \<and> (case fst (record_gate 10 31 41 ''failed'' JNull [] [] ''user'' d) of
          Inr (Some m) \<Rightarrow> vm_reopened m \<and> vm_task_id m = 1 | _ \<Rightarrow> False)"
proof -
  let ?s = "verification_step x"
  let ?d = "run ?s overtaken_history (no_tasks project_only [])"
  have split: "overtaken_history = take 2 overtaken_history @ drop 2 overtaken_history" by simp
  have rest: "drop 2 overtaken_history =
     [CreateRun 3 31 (\<lambda>n. 41 + n) 1 [] ''manual'' None ''user'', StartRun 4 31 ''user'',
      CreateRun 5 32 (\<lambda>n. 51 + n) 1 [] ''manual'' None ''user'', StartRun 6 32 ''user'',
      RecordGate 7 32 51 ''passed'' JNull [] [] ''user'', FinishRun 8 32 ''user'',
      OnTasks (OpStatus 9 1 ''completed'')]"
    by (simp add: overtaken_history_def)
  have "?d = run ?s (drop 2 overtaken_history) (history_state [] [] [])"
    by (subst split) (simp only: run_append history_setup)
  moreover obtain e2 where "snd (create_run x 3 31 (\<lambda>n. 41 + n) 1 [] ''manual'' None ''user'' (history_state [] [] []))
      = history_state [history_run 31 3] [history_gate 41 31] e2" using history_first_run by blast
  moreover obtain e3 where "snd (start_run 4 31 ''user'' (history_state [history_run 31 3] [history_gate 41 31] e2))
      = history_state [started 4 (history_run 31 3)] [history_gate 41 31] e3" using history_first_started by blast
  moreover note history_second_run [of x e3]
  moreover note history_second_started
  ultimately have "\<exists>es. ?d = history_done es"
    using history_second_run [of x] history_second_started history_second_recorded history_second_passed
      history_completed
    unfolding rest by (simp only: run_simps verification_step.simps task_op.case task_step_fn.simps) metis
  then obtain es where "?d = history_done es" by blast
  then show ?thesis
    using history_late_failure [of es]
    by (simp add: history_done_def history_state_def set_status_row_def latest_run_def started_def passed_run_def
        history_run_def new_run_def)
qed

end
