(* ===== verification/FileTree.thy ===== *)
theory FileTree
  imports Prelude
begin

text \<open>
  The file system calls the code makes, on a tree of files, directories and symbolic links: the
  part of \<open>std::path\<close> and \<open>std::fs\<close> that \<open>retcon-filesystem\<close> uses, as they are
  on Unix. A path is the list of its names below \<open>/\<close>; the tree is the list of its entries
  by path. A call resolves every link on the way, at most forty, as the kernel does; errors of
  the device or of permissions are arguments of the calls that change the tree.
\<close>

subsection \<open>Paths\<close>

type_synonym path = "string list"

datatype component = ParentDir | Normal string

text \<open>
  \<open>Path::components\<close> on a relative rest: empty names and \<open>.\<close> disappear (a leading
  \<open>.\<close>, which Rust keeps as \<open>CurDir\<close>, is skipped by every use in the code).
\<close>

definition component_of :: "string \<Rightarrow> component option" where
  "component_of s = (if s = [] \<or> s = ''.'' then None else if s = ''..'' then Some ParentDir else Some (Normal s))"

definition components :: "string \<Rightarrow> component list" where
  "components s = List.map_filter component_of (split_on (CHR ''/'') s)"

definition is_absolute :: "string \<Rightarrow> bool" where
  "is_absolute s \<longleftrightarrow> starts_with ''/'' s"

text \<open>\<open>Path::starts_with\<close>, \<open>strip_prefix\<close> and \<open>parent\<close>, by whole names.\<close>

fun strip_root :: "path \<Rightarrow> path \<Rightarrow> path option" where
  "strip_root [] p = Some p"
| "strip_root (r # rs) (n # ns) = (if r = n then strip_root rs ns else None)"
| "strip_root (r # rs) [] = None"

definition below :: "path \<Rightarrow> path \<Rightarrow> bool" where
  "below root p \<longleftrightarrow> strip_root root p \<noteq> None"

definition path_text :: "path \<Rightarrow> string" where
  "path_text p = (if p = [] then ''/'' else concat (map (\<lambda>n. CHR ''/'' # n) p))"

subsection \<open>The tree\<close>

datatype node = File string | Directory | Link string

type_synonym file_tree = "(path \<times> node) list"

text \<open>The root directory is always there.\<close>

definition node_at :: "file_tree \<Rightarrow> path \<Rightarrow> node option" where
  "node_at t p = (if p = [] then Some Directory else map_of t p)"

definition put :: "path \<Rightarrow> node \<Rightarrow> file_tree \<Rightarrow> file_tree" where
  "put p n t = (p, n) # filter (\<lambda>e. fst e \<noteq> p) t"

definition del :: "path \<Rightarrow> file_tree \<Rightarrow> file_tree" where
  "del p t = filter (\<lambda>e. fst e \<noteq> p) t"

definition children :: "path \<Rightarrow> file_tree \<Rightarrow> (string \<times> node) list" where
  "children p t = map (\<lambda>(q, n). (last q, n)) (filter (\<lambda>(q, n). q \<noteq> [] \<and> butlast q = p) t)"

subsection \<open>Calls\<close>

datatype io_error =
    IoNotFound | IoNotADirectory | IoIsADirectory | IoInvalidInput | IoFilesystemLoop
  | IoAlreadyExists | IoOther

definition MAX_LINKS :: nat where
  "MAX_LINKS = 40"

text \<open>The kernel's walk from the directory \<open>cur\<close> along the rest of a path.\<close>

function walk :: "file_tree \<Rightarrow> nat \<Rightarrow> path \<Rightarrow> component list \<Rightarrow> (io_error, path) outcome" where
  "walk t n cur [] = Inr cur"
| "walk t n cur (c # cs) =
     (if node_at t cur \<noteq> Some Directory then Inl IoNotADirectory
      else case c of
        ParentDir \<Rightarrow> walk t n (butlast cur) cs
      | Normal name \<Rightarrow>
          (case node_at t (cur @ [name]) of
             None \<Rightarrow> Inl IoNotFound
           | Some (Link target) \<Rightarrow>
               (if n = 0 then Inl IoFilesystemLoop
                else walk t (n - 1) (if is_absolute target then [] else cur) (components target @ cs))
           | Some other \<Rightarrow> walk t n (cur @ [name]) cs))"
  by pat_completeness auto

termination
  by (relation "measures [\<lambda>(t, n, cur, cs). n, \<lambda>(t, n, cur, cs). length cs]") auto

text \<open>A path with a NUL byte is refused before anything is looked up.\<close>

definition has_nul :: "path \<Rightarrow> bool" where
  "has_nul p \<longleftrightarrow> list_ex (\<lambda>n. CHR 0x00 \<in> set n) p"

definition canonicalize :: "file_tree \<Rightarrow> path \<Rightarrow> (io_error, path) outcome" where
  "canonicalize t p = (if has_nul p then Inl IoInvalidInput else walk t MAX_LINKS [] (map Normal p))"

text \<open>Where an entry is or would be: its directory resolved, its own name not followed.\<close>

definition locate :: "file_tree \<Rightarrow> path \<Rightarrow> (io_error, path) outcome" where
  "locate t p =
     (if has_nul p then Inl IoInvalidInput
      else if p = [] then Inr []
      else case walk t MAX_LINKS [] (map Normal (butlast p)) of
        Inl e \<Rightarrow> Inl e
      | Inr q \<Rightarrow> (if node_at t q = Some Directory then Inr (q @ [last p]) else Inl IoNotADirectory))"

definition symlink_metadata :: "file_tree \<Rightarrow> path \<Rightarrow> (io_error, node) outcome" where
  "symlink_metadata t p =
     (case locate t p of
        Inl e \<Rightarrow> Inl e
      | Inr q \<Rightarrow> (case node_at t q of None \<Rightarrow> Inl IoNotFound | Some n \<Rightarrow> Inr n))"

definition metadata :: "file_tree \<Rightarrow> path \<Rightarrow> (io_error, node) outcome" where
  "metadata t p =
     (case canonicalize t p of
        Inl e \<Rightarrow> Inl e
      | Inr q \<Rightarrow> (case node_at t q of None \<Rightarrow> Inl IoNotFound | Some n \<Rightarrow> Inr n))"

definition is_dir :: "file_tree \<Rightarrow> path \<Rightarrow> bool" where
  "is_dir t p \<longleftrightarrow> metadata t p = Inr Directory"

text \<open>Opening and reading to the end; a directory opens but cannot be read.\<close>

definition read_file :: "file_tree \<Rightarrow> path \<Rightarrow> (io_error, string) outcome" where
  "read_file t p =
     (case metadata t p of
        Inl e \<Rightarrow> Inl e
      | Inr (File bytes) \<Rightarrow> Inr bytes
      | Inr Directory \<Rightarrow> Inl IoIsADirectory
      | Inr (Link target) \<Rightarrow> Inl IoFilesystemLoop)"

text \<open>\<open>create_dir\<close> and \<open>create_new\<close>: the entry must not exist, not even as a link.\<close>

definition create_entry :: "node \<Rightarrow> path \<Rightarrow> file_tree \<Rightarrow> (io_error, file_tree) outcome" where
  "create_entry n p t =
     (case locate t p of
        Inl e \<Rightarrow> Inl e
      | Inr q \<Rightarrow> (if node_at t q \<noteq> None then Inl IoAlreadyExists else Inr (put q n t)))"

text \<open>\<open>rename\<close> replaces what is there, but not a directory.\<close>

definition rename :: "path \<Rightarrow> path \<Rightarrow> file_tree \<Rightarrow> (io_error, file_tree) outcome" where
  "rename a b t =
     (case locate t a of
        Inl e \<Rightarrow> Inl e
      | Inr p \<Rightarrow>
          (case locate t b of
             Inl e \<Rightarrow> Inl e
           | Inr q \<Rightarrow>
               (case node_at t p of
                  None \<Rightarrow> Inl IoNotFound
                | Some n \<Rightarrow>
                    (if p = q then Inr t
                     else if node_at t q = Some Directory then Inl IoIsADirectory
                     else Inr (put q n (del p t))))))"

text \<open>\<open>hard_link\<close>: a second name for the file; it must not be taken.\<close>

definition hard_link :: "path \<Rightarrow> path \<Rightarrow> file_tree \<Rightarrow> (io_error, file_tree) outcome" where
  "hard_link a b t =
     (case locate t a of
        Inl e \<Rightarrow> Inl e
      | Inr p \<Rightarrow>
          (case locate t b of
             Inl e \<Rightarrow> Inl e
           | Inr q \<Rightarrow>
               (case node_at t p of
                  None \<Rightarrow> Inl IoNotFound
                | Some n \<Rightarrow> (if node_at t q \<noteq> None then Inl IoAlreadyExists else Inr (put q n t)))))"

text \<open>\<open>let _ = fs::remove_file(p)\<close>: an error leaves the tree as it is.\<close>

definition remove_file :: "path \<Rightarrow> file_tree \<Rightarrow> file_tree" where
  "remove_file p t =
     (case locate t p of
        Inl e \<Rightarrow> t
      | Inr q \<Rightarrow> (case node_at t q of None \<Rightarrow> t | Some Directory \<Rightarrow> t | Some n \<Rightarrow> del q t))"

subsection \<open>Facts\<close>

lemma node_at_put [simp]: "p \<noteq> [] \<Longrightarrow> node_at (put p n t) q = (if q = p then Some n else node_at t q)"
proof -
  have "map_of (filter (\<lambda>e. fst e \<noteq> p) t) q = map_of t q" if "q \<noteq> p" for q
    using that by (induction t) auto
  then show "p \<noteq> [] \<Longrightarrow> ?thesis" by (auto simp: node_at_def put_def)
qed

lemma node_at_del [simp]: "p \<noteq> [] \<Longrightarrow> node_at (del p t) q = (if q = p then None else node_at t q)"
proof -
  have "map_of (filter (\<lambda>e. fst e \<noteq> p) t) q = map_of t q" if "q \<noteq> p" for q
    using that by (induction t) auto
  moreover have "map_of (filter (\<lambda>e. fst e \<noteq> p) t) p = None"
    by (auto simp: map_of_eq_None_iff)
  ultimately show "p \<noteq> [] \<Longrightarrow> ?thesis" by (auto simp: node_at_def del_def)
qed

lemma node_at_root [simp]: "node_at t [] = Some Directory"
  by (simp add: node_at_def)

lemma strip_root_iff: "strip_root r p = Some s \<longleftrightarrow> p = r @ s"
  by (induction r p rule: strip_root.induct) auto

lemma below_iff: "below r p \<longleftrightarrow> (\<exists>s. p = r @ s)"
  by (simp add: below_def strip_root_iff)

lemma below_refl [simp]: "below r r" and below_append [simp]: "below r (r @ s)"
  by (auto simp: below_iff)

text \<open>
  A path is physical when every directory on it is one: no link is crossed, so every call
  works on the very path it is given.
\<close>

definition physical :: "file_tree \<Rightarrow> path \<Rightarrow> bool" where
  "physical t p \<longleftrightarrow> (\<forall>a b. p = a @ b \<longrightarrow> b \<noteq> [] \<longrightarrow> node_at t a = Some Directory)"

lemma physical_Nil [simp]: "physical t []"
  by (simp add: physical_def)

lemma physical_snoc: "physical t (p @ [n]) \<longleftrightarrow> physical t p \<and> node_at t p = Some Directory"
proof
  assume ph: "physical t (p @ [n])"
  show "physical t p \<and> node_at t p = Some Directory"
    unfolding physical_def
  proof (intro conjI allI impI)
    fix a b assume "p = a @ b" "b \<noteq> []"
    then have "p @ [n] = a @ (b @ [n])" by simp
    with ph show "node_at t a = Some Directory" unfolding physical_def by blast
  next
    show "node_at t p = Some Directory" using ph unfolding physical_def by blast
  qed
next
  assume ph: "physical t p \<and> node_at t p = Some Directory"
  show "physical t (p @ [n])"
    unfolding physical_def
  proof (intro allI impI)
    fix a b assume "p @ [n] = a @ b" "b \<noteq> []"
    then obtain b' where "b = b' @ [n]" "p = a @ b'" by (cases b rule: rev_cases) auto
    with ph show "node_at t a = Some Directory" by (cases "b' = []") (auto simp: physical_def)
  qed
qed

text \<open>What a walk ends at is there and physical.\<close>

lemma walk_physical:
  "walk t n cur cs = Inr q \<Longrightarrow> physical t cur \<Longrightarrow> node_at t cur \<noteq> None \<Longrightarrow> \<forall>s. node_at t cur \<noteq> Some (Link s)
     \<Longrightarrow> physical t q \<and> node_at t q \<noteq> None \<and> (\<forall>s. node_at t q \<noteq> Some (Link s))"
proof (induction t n cur cs rule: walk.induct)
  case (1 t n cur)
  then show ?case by simp
next
  case (2 t n cur c cs)
  have dir: "node_at t cur = Some Directory" using "2.prems"(1) by (simp split: if_splits)
  show ?case
  proof (cases c)
    case ParentDir
    have "physical t (butlast cur) \<and> node_at t (butlast cur) = Some Directory"
      using "2.prems"(2) dir by (cases cur rule: rev_cases) (simp_all add: physical_snoc)
    then show ?thesis using "2.IH"(1) [OF _ ParentDir] "2.prems"(1) dir by (simp add: ParentDir)
  next
    case (Normal name)
    note step = "2.prems"(1) [unfolded walk.simps(2) Normal]
    show ?thesis
    proof (cases "node_at t (cur @ [name])")
      case None
      then show ?thesis using step dir by simp
    next
      case (Some nd)
      have snoc: "physical t (cur @ [name])" using "2.prems"(2) dir by (simp add: physical_snoc)
      show ?thesis
      proof (cases nd)
        case (Link target)
        then have "walk t (n - 1) (if is_absolute target then [] else cur) (components target @ cs) = Inr q" "n \<noteq> 0"
          using step dir Some by (auto split: if_splits)
        with "2.IH"(4) [OF _ Normal Some Link] "2.prems"(2) dir show ?thesis by auto
      next
        case (File b)
        then have "walk t n (cur @ [name]) cs = Inr q" using step dir Some by simp
        with "2.IH"(2) [OF _ Normal Some] snoc File Some dir show ?thesis by auto
      next
        case Directory
        then have "walk t n (cur @ [name]) cs = Inr q" using step dir Some by simp
        with "2.IH"(3) [OF _ Normal Some] snoc Directory Some dir show ?thesis by auto
      qed
    qed
  qed
qed

lemma canonicalize_physical:
  assumes "canonicalize t p = Inr q"
  shows "physical t q" "node_at t q \<noteq> None" "node_at t q \<noteq> Some (Link s)"
  using assms walk_physical [of t MAX_LINKS "[]" "map Normal p" q]
  by (auto simp: canonicalize_def split: if_splits)

lemma physical_prefix: "physical t (a @ b) \<Longrightarrow> b \<noteq> [] \<Longrightarrow> physical t a \<and> node_at t a = Some Directory"
proof
  assume ph: "physical t (a @ b)" "b \<noteq> []"
  then show "node_at t a = Some Directory" unfolding physical_def by blast
  show "physical t a"
    unfolding physical_def
  proof (intro allI impI)
    fix c d assume "a = c @ d" "d \<noteq> []"
    then have "a @ b = c @ (d @ b)" "d @ b \<noteq> []" by auto
    with ph(1) show "node_at t c = Some Directory" unfolding physical_def by blast
  qed
qed

lemma walk_straight_append:
  "physical t (cur @ ns) \<Longrightarrow> node_at t (cur @ ns) = Some nd \<Longrightarrow> \<forall>s. nd \<noteq> Link s
     \<Longrightarrow> walk t n cur (map Normal ns @ cs) = walk t n (cur @ ns) cs"
proof (induction ns arbitrary: cur)
  case Nil
  then show ?case by simp
next
  case (Cons m ns)
  have dir: "node_at t cur = Some Directory" using Cons.prems(1) physical_prefix by blast
  have "walk t n (cur @ [m]) (map Normal ns @ cs) = walk t n (cur @ m # ns) cs"
    using Cons.IH [of "cur @ [m]"] Cons.prems by simp
  moreover have "node_at t (cur @ [m]) \<noteq> None \<and> (\<forall>s. node_at t (cur @ [m]) \<noteq> Some (Link s))"
  proof (cases "ns = []")
    case True
    with Cons.prems show ?thesis by auto
  next
    case False
    with physical_prefix [of t "cur @ [m]" ns] Cons.prems(1) show ?thesis by simp
  qed
  ultimately show ?case using dir by (auto split: option.split node.split)
qed

lemma walk_straight:
  "physical t (cur @ ns) \<Longrightarrow> node_at t (cur @ ns) = Some nd \<Longrightarrow> \<forall>s. nd \<noteq> Link s
     \<Longrightarrow> walk t n cur (map Normal ns) = Inr (cur @ ns)"
  using walk_straight_append [of t cur ns nd n "[]"] by simp

lemma canonicalize_straight:
  "physical t p \<Longrightarrow> \<not> has_nul p \<Longrightarrow> node_at t p = Some nd \<Longrightarrow> \<forall>s. nd \<noteq> Link s \<Longrightarrow> canonicalize t p = Inr p"
  using walk_straight [of t "[]" p nd MAX_LINKS] by (simp add: canonicalize_def)

lemma locate_straight: "physical t p \<Longrightarrow> \<not> has_nul p \<Longrightarrow> locate t p = Inr p"
proof (cases p rule: rev_cases)
  case (snoc q n)
  assume ph: "physical t p" "\<not> has_nul p"
  then have q: "physical t q" "node_at t q = Some Directory" by (simp_all add: snoc physical_snoc)
  then have "walk t MAX_LINKS [] (map Normal q) = Inr q"
    using walk_straight [of t "[]" q Directory] by simp
  with q ph show ?thesis by (simp add: locate_def snoc)
qed (simp add: locate_def has_nul_def)

lemma has_nul_append [simp]: "has_nul (a @ b) \<longleftrightarrow> has_nul a \<or> has_nul b"
  by (simp add: has_nul_def)

text \<open>Locating an existing directory's entry ends in a physical path.\<close>

lemma locate_physical:
  assumes "locate t p = Inr q"
  shows "physical t q" "\<not> has_nul p"
proof -
  show "\<not> has_nul p" using assms by (simp add: locate_def split: if_splits)
  show "physical t q"
  proof (cases "p = []")
    case True
    with assms show ?thesis by (simp add: locate_def has_nul_def)
  next
    case False
    then obtain r where "walk t MAX_LINKS [] (map Normal (butlast p)) = Inr r" "q = r @ [last p]"
      "node_at t r = Some Directory"
      using assms by (auto simp: locate_def split: if_splits sum.splits)
    with walk_physical [of t MAX_LINKS "[]" "map Normal (butlast p)" r] show ?thesis
      by (simp add: physical_snoc)
  qed
qed

end
