(* ===== verification/Filesystem.thy ===== *)
theory Filesystem
  imports FileTree "HOL-Library.List_Lexorder" "HOL-Library.Char_ord"
begin

text \<open>
  \<open>crates/retcon-filesystem/src/service.rs\<close>: listing, reading and writing the files of a
  project. A requested path is resolved below the project's root, with every link on the way
  refused; a write is conditional on the revision (the SHA-256 of the content) and replaces the
  file by a staged copy. What other processes do to the tree while the copy is staged is an
  argument of \<open>file_write\<close>, and so are the calls that fail for reasons outside the tree;
  the digest, Unicode's lower case and the fresh identifier of the copy are arguments too. The
  lock that orders the writers of one process is not modelled: a write is one step with one
  window for others.
\<close>

datatype fs_error =
    FsNotFound path
  | FsOutsideRoot path
  | FsTooLarge path nat nat
  | FsInvalidRequest string
  | FsConflict "string option"
  | FsIo io_error
  | FsWatch string

definition fs_is_not_found :: "fs_error \<Rightarrow> bool" where
  "fs_is_not_found e = (case e of FsNotFound p \<Rightarrow> True | FsIo k \<Rightarrow> k = IoNotFound | _ \<Rightarrow> False)"

definition LIST_MAX_ENTRIES :: nat where "LIST_MAX_ENTRIES = 2048"
definition DEFAULT_READ_LIMIT :: nat where "DEFAULT_READ_LIMIT = 512 * 1024"
definition DEFAULT_WRITE_LIMIT :: nat where "DEFAULT_WRITE_LIMIT = 2 * 1024 * 1024"

fun io :: "(io_error, 'a) outcome \<Rightarrow> (fs_error, 'a) outcome" where
  "io (Inl e) = Inl (FsIo e)"
| "io (Inr a) = Inr a"

subsection \<open>Resolving a path below the root\<close>

definition canonical_root :: "file_tree \<Rightarrow> path \<Rightarrow> (fs_error, path) outcome" where
  "canonical_root t root =
     (case canonicalize t root of
        Inl e \<Rightarrow> Inl (if e = IoNotFound then FsNotFound root else FsIo e)
      | Inr r \<Rightarrow> Inr r)"

fun push_component :: "component \<Rightarrow> path \<Rightarrow> path" where
  "push_component ParentDir p = butlast p"
| "push_component (Normal n) p = p @ [n]"

definition normalize_path :: "path \<Rightarrow> component list \<Rightarrow> path" where
  "normalize_path base cs = fold push_component cs base"

text \<open>The loop over the names below the root, \<open>cur\<close> being the part already passed.\<close>

fun reject_from :: "file_tree \<Rightarrow> path \<Rightarrow> path \<Rightarrow> string list \<Rightarrow> (fs_error, unit) outcome" where
  "reject_from t root cur [] = Inr ()"
| "reject_from t root cur (n # ns) =
     (let here = cur @ [n] in
      case symlink_metadata t here of
        Inr (Link target) \<Rightarrow> Inl (FsOutsideRoot here)
      | Inr other \<Rightarrow>
          (case canonicalize t here of
             Inl e \<Rightarrow> Inl (FsIo e)
           | Inr canonical \<Rightarrow>
               (if \<not> below root canonical then Inl (FsOutsideRoot canonical)
                else reject_from t root here ns))
      | Inl e \<Rightarrow> (if e = IoNotFound then Inr () else Inl (FsIo e)))"

definition reject_symlink_traversal :: "file_tree \<Rightarrow> path \<Rightarrow> path \<Rightarrow> (fs_error, unit) outcome" where
  "reject_symlink_traversal t root p =
     (case strip_root root p of
        None \<Rightarrow> Inl (FsOutsideRoot p)
      | Some relative \<Rightarrow> reject_from t root root relative)"

definition joined_path :: "path \<Rightarrow> string \<Rightarrow> path" where
  "joined_path root s = normalize_path (if is_absolute s then [] else root) (components s)"

definition resolve_within_canonical_root :: "file_tree \<Rightarrow> path \<Rightarrow> string \<Rightarrow> (fs_error, path) outcome" where
  "resolve_within_canonical_root t root s =
     (if s = [] then Inr root
      else let joined = joined_path root s
           in if \<not> below root joined then Inl (FsOutsideRoot joined)
              else case reject_symlink_traversal t root joined of
                Inl e \<Rightarrow> Inl e | Inr u \<Rightarrow> Inr joined)"

definition resolve_within_root :: "file_tree \<Rightarrow> path \<Rightarrow> string \<Rightarrow> (fs_error, path) outcome" where
  "resolve_within_root t root s =
     (case canonical_root t root of
        Inl e \<Rightarrow> Inl e
      | Inr r \<Rightarrow> resolve_within_canonical_root t r s)"

subsection \<open>Text, binary data, languages\<close>

text \<open>
  \<open>String::from_utf8_lossy\<close>: the bytes that continue a first byte, and the replacement
  character for every longest piece of a sequence that is not one.
\<close>

definition continuations :: "nat \<Rightarrow> (nat \<times> nat) list option" where
  "continuations b =
     (if b < 0x80 then Some []
      else if b < 0xC2 then None
      else if b < 0xE0 then Some [(0x80, 0xBF)]
      else if b = 0xE0 then Some [(0xA0, 0xBF), (0x80, 0xBF)]
      else if b = 0xED then Some [(0x80, 0x9F), (0x80, 0xBF)]
      else if b < 0xF0 then Some [(0x80, 0xBF), (0x80, 0xBF)]
      else if b = 0xF0 then Some [(0x90, 0xBF), (0x80, 0xBF), (0x80, 0xBF)]
      else if b < 0xF4 then Some [(0x80, 0xBF), (0x80, 0xBF), (0x80, 0xBF)]
      else if b = 0xF4 then Some [(0x80, 0x8F), (0x80, 0xBF), (0x80, 0xBF)]
      else None)"

fun continued :: "(nat \<times> nat) list \<Rightarrow> string \<Rightarrow> bool \<times> nat" where
  "continued [] s = (True, 0)"
| "continued (r # rs) [] = (False, 0)"
| "continued (r # rs) (c # cs) =
     (if fst r \<le> of_char c \<and> of_char c \<le> snd r
      then (let (ok, n) = continued rs cs in (ok, n + 1)) else (False, 0))"

definition REPLACEMENT :: string where
  "REPLACEMENT = [CHR 0xEF, CHR 0xBF, CHR 0xBD]"

function utf8_lossy :: "string \<Rightarrow> string" where
  "utf8_lossy [] = []"
| "utf8_lossy (c # cs) =
     (case continuations (of_char c) of
        None \<Rightarrow> REPLACEMENT @ utf8_lossy cs
      | Some rs \<Rightarrow>
          (let (ok, n) = continued rs cs
           in (if ok then c # take n cs else REPLACEMENT) @ utf8_lossy (drop n cs)))"
  by pat_completeness auto

termination
  by (relation "measure length") auto

definition is_probably_binary :: "string \<Rightarrow> bool" where
  "is_probably_binary bytes =
     (if bytes = [] then False
      else if CHR 0x00 \<in> set bytes then True
      else let sample = min (length bytes) 8192;
               non_text = length (filter (\<lambda>c. of_char c \<le> (8::nat)
                 \<or> 14 \<le> (of_char c :: nat) \<and> of_char c \<le> (31::nat)) (take sample bytes))
           in sample < non_text * 10)"

text \<open>\<open>Path::extension\<close>: what follows the last dot, unless the name starts with it.\<close>

definition extension :: "string \<Rightarrow> string option" where
  "extension name =
     (let r = rev name; ext = takeWhile (\<lambda>c. c \<noteq> CHR ''.'') r; before = dropWhile (\<lambda>c. c \<noteq> CHR ''.'') r
      in if before = [] \<or> tl before = [] then None else Some (rev ext))"

definition languages :: "(string \<times> string) list" where
  "languages =
     [(''rs'', ''rust''), (''dart'', ''dart''), (''js'', ''javascript''), (''mjs'', ''javascript''),
      (''cjs'', ''javascript''), (''ts'', ''typescript''), (''tsx'', ''typescript''), (''json'', ''json''),
      (''yaml'', ''yaml''), (''yml'', ''yaml''), (''toml'', ''toml''), (''md'', ''markdown''),
      (''py'', ''python''), (''go'', ''go''), (''css'', ''css''), (''html'', ''html''), (''htm'', ''html''),
      (''sql'', ''sql''), (''sh'', ''shell''), (''bash'', ''shell''), (''ps1'', ''shell'')]"

definition language_for_path :: "path \<Rightarrow> string" where
  "language_for_path p =
     (case (if p = [] then None else Option.bind (extension (last p)) (map_of languages)) of
        None \<Rightarrow> ''plaintext'' | Some l \<Rightarrow> l)"

text \<open>\<open>base64_encode\<close>, three bytes at a time.\<close>

definition BASE64 :: string where
  "BASE64 = ''ABCDEFGHIJKLMNOPQRSTUVWXYZabcdefghijklmnopqrstuvwxyz0123456789+/''"

definition sextet :: "nat \<Rightarrow> char" where
  "sextet n = BASE64 ! (n mod 64)"

fun base64_encode :: "string \<Rightarrow> string" where
  "base64_encode [] = []"
| "base64_encode [a] =
     (let triple = of_char a * 2 ^ 16
      in [sextet (triple div 2 ^ 18), sextet (triple div 2 ^ 12), CHR ''='', CHR ''=''])"
| "base64_encode [a, b] =
     (let triple = of_char a * 2 ^ 16 + of_char b * 2 ^ 8
      in [sextet (triple div 2 ^ 18), sextet (triple div 2 ^ 12), sextet (triple div 2 ^ 6), CHR ''=''])"
| "base64_encode (a # b # c # bytes) =
     (let triple = of_char a * 2 ^ 16 + of_char b * 2 ^ 8 + of_char c
      in [sextet (triple div 2 ^ 18), sextet (triple div 2 ^ 12), sextet (triple div 2 ^ 6), sextet triple]
         @ base64_encode bytes)"

subsection \<open>Git badges\<close>

record status_entry =
  sn_code :: string
  sn_path :: string

definition porcelain_char_to_badge :: "char \<Rightarrow> string option" where
  "porcelain_char_to_badge c =
     (if c \<in> {CHR ''M'', CHR ''R'', CHR ''C'', CHR ''U''} then Some ''modified''
      else if c \<in> {CHR ''A'', CHR ''?''} then Some ''added''
      else if c = CHR ''D'' then Some ''deleted'' else None)"

definition badge_rank :: "string \<Rightarrow> nat" where
  "badge_rank b = (if b = ''deleted'' then 0 else if b = ''modified'' then 1 else if b = ''added'' then 2 else 3)"

definition merge_git_badge :: "string \<Rightarrow> string \<Rightarrow> string" where
  "merge_git_badge left right =
     (let winner = (if badge_rank left \<le> badge_rank right then left else right)
      in if winner = ''deleted'' then ''deleted'' else if winner = ''added'' then ''added'' else ''modified'')"

definition porcelain_code_to_badge :: "string \<Rightarrow> string option" where
  "porcelain_code_to_badge code =
     (case code of
        a # b # _ \<Rightarrow>
          (case (porcelain_char_to_badge a, porcelain_char_to_badge b) of
             (Some x, Some y) \<Rightarrow> Some (merge_git_badge x y)
           | (Some x, None) \<Rightarrow> Some x
           | (None, r) \<Rightarrow> r)
      | _ \<Rightarrow> None)"

definition trim_end_slashes :: "string \<Rightarrow> string" where
  "trim_end_slashes s = rev (dropWhile (\<lambda>c. c = CHR ''/'') (rev s))"

text \<open>One entry of \<open>git status\<close> goes into the index; a path that is there is merged.\<close>

definition index_entry :: "status_entry \<Rightarrow> (string \<times> string) list \<Rightarrow> (string \<times> string) list" where
  "index_entry entry index =
     (case porcelain_code_to_badge (sn_code entry) of
        None \<Rightarrow> index
      | Some badge \<Rightarrow>
          (let p = replace_char (CHR 0x5C) (CHR ''/'') (trim_end_slashes (sn_path entry))
           in if p = [] then index
              else case map_of index p of
                None \<Rightarrow> index @ [(p, badge)]
              | Some existing \<Rightarrow> map (\<lambda>(k, v). (k, if k = p then merge_git_badge existing badge else v)) index))"

definition build_git_status_index :: "status_entry list \<Rightarrow> (string \<times> string) list" where
  "build_git_status_index entries = fold index_entry entries []"

text \<open>\<open>rsplit_once\<close>, and the loop over the enclosing directories.\<close>

definition before_last_slash :: "string \<Rightarrow> string option" where
  "before_last_slash s =
     (case dropWhile (\<lambda>c. c \<noteq> CHR ''/'') (rev s) of [] \<Rightarrow> None | c # r \<Rightarrow> Some (rev r))"

lemma before_last_slash_shorter [termination_simp]:
  "before_last_slash s = Some q \<Longrightarrow> length q < length s"
  using length_dropWhile_le [of "\<lambda>c. c \<noteq> CHR ''/''" "rev s"]
  by (auto simp: before_last_slash_def split: list.splits)

function ancestor_badge :: "(string \<times> string) list \<Rightarrow> string \<Rightarrow> string option" where
  "ancestor_badge index key =
     (case before_last_slash key of
        None \<Rightarrow> None
      | Some parent \<Rightarrow>
          (case map_of index parent of Some badge \<Rightarrow> Some badge | None \<Rightarrow> ancestor_badge index parent))"
  by pat_completeness auto

termination
  by (relation "measure (\<lambda>(index, key). length key)") (auto simp: before_last_slash_shorter)

declare ancestor_badge.simps [simp del]

definition merge_best :: "string \<Rightarrow> string option \<Rightarrow> string option" where
  "merge_best badge best =
     (case best of None \<Rightarrow> Some badge | Some current \<Rightarrow> Some (merge_git_badge current badge))"

definition badge_below :: "(string \<times> string) list \<Rightarrow> string \<Rightarrow> string option" where
  "badge_below index key =
     fold (\<lambda>(p, badge) best. if starts_with (key @ ''/'') p then merge_best badge best else best) index None"

definition path_to_git_key :: "path \<Rightarrow> string" where
  "path_to_git_key p = join ''/'' (map utf8_lossy p)"

definition git_status_for_path ::
    "file_tree \<Rightarrow> path \<Rightarrow> path \<Rightarrow> bool \<Rightarrow> (string \<times> string) list \<Rightarrow> string option" where
  "git_status_for_path t root p is_directory index =
     (if index = [] then None
      else case strip_root root (case canonicalize t p of Inl e \<Rightarrow> p | Inr q \<Rightarrow> q) of
        None \<Rightarrow> None
      | Some rel \<Rightarrow>
          (let key = path_to_git_key rel
           in if key = [] then None
              else case map_of index key of
                Some badge \<Rightarrow> Some badge
              | None \<Rightarrow>
                  (case ancestor_badge index key of
                     Some badge \<Rightarrow> Some badge
                   | None \<Rightarrow> if is_directory then badge_below index key else None)))"

subsection \<open>Listing and reading\<close>

record file_entry =
  en_name :: string
  en_path :: string
  en_is_directory :: bool
  en_size :: nat
  en_git_status :: "string option"

fun node_size :: "node \<Rightarrow> nat" where
  "node_size (File bytes) = length bytes"
| "node_size Directory = 0"
| "node_size (Link target) = length target"

definition hidden :: "string \<Rightarrow> bool" where
  "hidden name \<longleftrightarrow> starts_with ''.'' name \<and> name \<noteq> ''.gitignore''"

definition entry_of ::
    "file_tree \<Rightarrow> path \<Rightarrow> (string \<times> string) list \<Rightarrow> path \<Rightarrow> string \<times> node \<Rightarrow> file_entry" where
  "entry_of t root index directory e =
     \<lparr>en_name = utf8_lossy (fst e), en_path = utf8_lossy (path_text (directory @ [fst e])),
      en_is_directory = (snd e = Directory), en_size = node_size (snd e),
      en_git_status = git_status_for_path t root (directory @ [fst e]) (snd e = Directory) index\<rparr>"

text \<open>\<open>git\<close> is the answer of \<open>retcon_git::status\<close>, and None its error.\<close>

definition file_list ::
    "(string \<Rightarrow> string) \<Rightarrow> status_entry list option \<Rightarrow> path \<Rightarrow> string option \<Rightarrow> file_tree
      \<Rightarrow> (fs_error, file_entry list) outcome" where
  "file_list lower git root path t =
     (case resolve_within_root t root (case path of None \<Rightarrow> [] | Some p \<Rightarrow> p) of
        Inl e \<Rightarrow> Inl e
      | Inr directory \<Rightarrow>
          if \<not> is_dir t directory
          then Inl (FsInvalidRequest (''path is not a directory: '' @ path_text directory))
          else let index = (case git of None \<Rightarrow> [] | Some es \<Rightarrow> build_git_status_index es);
                   root_canon = (case canonicalize t root of Inl e \<Rightarrow> root | Inr r \<Rightarrow> r);
                   real = (case canonicalize t directory of Inl e \<Rightarrow> directory | Inr r \<Rightarrow> r);
                   shown = take LIST_MAX_ENTRIES
                     (filter (\<lambda>e. \<not> hidden (utf8_lossy (fst e))) (children real t))
               in Inr (sort_key (\<lambda>e. if en_is_directory e then 0 else 1 :: nat)
                        (sort_key (\<lambda>e. lower (en_name e))
                          (map (entry_of t root_canon index directory) shown))))"

record file_read_result =
  rr_path :: string
  rr_content :: "string option"
  rr_content_base64 :: "string option"
  rr_size :: nat
  rr_truncated :: bool
  rr_binary :: bool
  rr_language :: string
  rr_revision :: string

definition file_read ::
    "(string \<Rightarrow> string) \<Rightarrow> path \<Rightarrow> string \<Rightarrow> nat \<Rightarrow> file_tree \<Rightarrow> (fs_error, file_read_result) outcome" where
  "file_read sha root path limit t =
     (case resolve_within_root t root path of
        Inl e \<Rightarrow> Inl e
      | Inr p \<Rightarrow>
          if is_dir t p then Inl (FsInvalidRequest (''path is a directory: '' @ path_text p))
          else case metadata t p of
            Inl e \<Rightarrow> Inl (FsIo e)
          | Inr n \<Rightarrow>
              if limit < node_size n \<and> limit = 0 then Inl (FsTooLarge p (node_size n) limit)
              else case read_file t p of
                Inl e \<Rightarrow> Inl (FsIo e)
              | Inr all \<Rightarrow>
                  let bytes = take limit all; binary = is_probably_binary bytes
                  in Inr \<lparr>rr_path = utf8_lossy (path_text p),
                       rr_content = (if binary then None else Some (utf8_lossy bytes)),
                       rr_content_base64 = (if binary then Some (base64_encode bytes) else None),
                       rr_size = length all, rr_truncated = (limit < length all), rr_binary = binary,
                       rr_language = language_for_path p, rr_revision = sha all\<rparr>)"

subsection \<open>Writing\<close>

datatype write_condition = IfMatch string | IfNoneMatch

definition revision_for_file ::
    "(string \<Rightarrow> string) \<Rightarrow> file_tree \<Rightarrow> path \<Rightarrow> (fs_error, string option) outcome" where
  "revision_for_file sha t p =
     (case read_file t p of
        Inr bytes \<Rightarrow> Inr (Some (sha bytes))
      | Inl e \<Rightarrow> (if e = IoNotFound then Inr None else Inl (FsIo e)))"

definition verify_write_condition ::
    "(string \<Rightarrow> string) \<Rightarrow> file_tree \<Rightarrow> path \<Rightarrow> write_condition \<Rightarrow> (fs_error, unit) outcome" where
  "verify_write_condition sha t p condition =
     (case revision_for_file sha t p of
        Inl e \<Rightarrow> Inl e
      | Inr current \<Rightarrow>
          (if (case condition of IfMatch expected \<Rightarrow> current = Some expected | IfNoneMatch \<Rightarrow> current = None)
           then Inr () else Inl (FsConflict current)))"

text \<open>The calls that change the tree and can fail for reasons of their own.\<close>

datatype write_call =
    CreateDir path | OpenTemp | CopyPermissions | WriteAll | SyncFile | CommitFile | SyncParent

fun ensure_from ::
    "(write_call \<Rightarrow> bool) \<Rightarrow> path \<Rightarrow> path \<Rightarrow> string list \<Rightarrow> file_tree
      \<Rightarrow> (fs_error, unit) outcome \<times> file_tree" where
  "ensure_from fails root cur [] t = (Inr (), t)"
| "ensure_from fails root cur (n # ns) t =
     (let here = cur @ [n];
          made = (case symlink_metadata t here of
              Inr Directory \<Rightarrow> Inr t
            | Inr other \<Rightarrow> Inl (FsOutsideRoot here)
            | Inl e \<Rightarrow>
                (if e \<noteq> IoNotFound then Inl (FsIo e)
                 else if fails (CreateDir here) then Inl (FsIo IoOther)
                 else io (create_entry Directory here t)))
      in case made of
        Inl e \<Rightarrow> (Inl e, t)
      | Inr t' \<Rightarrow>
          (case canonicalize t' here of
             Inl e \<Rightarrow> (Inl (FsIo e), t')
           | Inr canonical \<Rightarrow>
               (if \<not> below root canonical then (Inl (FsOutsideRoot canonical), t')
                else ensure_from fails root here ns t')))"

definition ensure_directories_within_root ::
    "(write_call \<Rightarrow> bool) \<Rightarrow> path \<Rightarrow> path \<Rightarrow> file_tree \<Rightarrow> (fs_error, unit) outcome \<times> file_tree" where
  "ensure_directories_within_root fails root directory t =
     (case strip_root root directory of
        None \<Rightarrow> (Inl (FsOutsideRoot directory), t)
      | Some relative \<Rightarrow> ensure_from fails root root relative t)"

definition temp_name :: "string \<Rightarrow> string" where
  "temp_name fresh = ''.retcon-'' @ fresh @ ''.tmp''"

text \<open>What is known when the content is staged: root, target, directory, its identity.\<close>

record staged =
  sg_root :: path
  sg_parent :: path
  sg_identity :: path
  sg_temp :: path

text \<open>The staged copy; when a call fails the guard removes it.\<close>

definition stage ::
    "(write_call \<Rightarrow> bool) \<Rightarrow> path \<Rightarrow> path \<Rightarrow> string \<Rightarrow> file_tree \<Rightarrow> (fs_error, unit) outcome \<times> file_tree" where
  "stage fails temp p content t =
     (if fails OpenTemp then (Inl (FsIo IoOther), remove_file temp t)
      else case create_entry (File []) temp t of
        Inl e \<Rightarrow> (Inl (FsIo e), remove_file temp t)
      | Inr t1 \<Rightarrow>
          if fails CopyPermissions \<and> is_ok (metadata t1 p) \<or> fails WriteAll then (Inl (FsIo IoOther), remove_file temp t1)
          else (case locate t1 temp of
             Inl e \<Rightarrow> (Inl (FsIo e), remove_file temp t1)
           | Inr q \<Rightarrow>
               (let t2 = put q (File content) t1
                in if fails SyncFile then (Inl (FsIo IoOther), remove_file temp t2) else (Inr (), t2))))"

definition write_prepare ::
    "(string \<Rightarrow> string) \<Rightarrow> (write_call \<Rightarrow> bool) \<Rightarrow> string \<Rightarrow> path \<Rightarrow> string \<Rightarrow> string \<Rightarrow> nat \<Rightarrow> write_condition
      \<Rightarrow> file_tree \<Rightarrow> (fs_error, staged) outcome \<times> file_tree" where
  "write_prepare sha fails fresh root path content limit condition t =
     (if limit < length content
      then (Inl (FsInvalidRequest (''write payload exceeds limit ('' @ decimal (length content) @ ''/'' @ decimal limit @ '')'')), t)
      else case canonical_root t root of
        Inl e \<Rightarrow> (Inl e, t)
      | Inr r \<Rightarrow>
          (case resolve_within_canonical_root t r path of
             Inl e \<Rightarrow> (Inl e, t)
           | Inr p \<Rightarrow>
               if is_dir t p then (Inl (FsInvalidRequest (''path is a directory: '' @ path_text p)), t)
               else case verify_write_condition sha t p condition of
                 Inl e \<Rightarrow> (Inl e, t)
               | Inr u \<Rightarrow>
                   if p = [] then (Inl (FsInvalidRequest ''file path has no parent directory''), t)
                   else (case ensure_directories_within_root fails r (butlast p) t of
                      (Inl e, t1) \<Rightarrow> (Inl e, t1)
                    | (Inr u, t1) \<Rightarrow>
                        (case canonicalize t1 (butlast p) of
                           Inl e \<Rightarrow> (Inl (FsIo e), t1)
                         | Inr identity \<Rightarrow>
                             (case resolve_within_canonical_root t1 r path of
                                Inl e \<Rightarrow> (Inl e, t1)
                              | Inr p1 \<Rightarrow>
                                  (let temp = butlast p @ [temp_name fresh];
                                       (staging, t2) = stage fails temp p1 content t1
                                   in (map_outcome (\<lambda>u. \<lparr>sg_root = r, sg_parent = butlast p,
                                         sg_identity = identity, sg_temp = temp\<rparr>) staging, t2)))))))"

record file_write_result =
  wr_path :: string
  wr_size :: nat
  wr_revision :: string

text \<open>The insertion of the copy: a replacement, or a name that must be free.\<close>

definition insert_staged ::
    "(string \<Rightarrow> string) \<Rightarrow> (write_call \<Rightarrow> bool) \<Rightarrow> write_condition \<Rightarrow> path \<Rightarrow> path \<Rightarrow> file_tree
      \<Rightarrow> (fs_error, file_tree) outcome" where
  "insert_staged sha fails condition temp p t =
     (if fails CommitFile then Inl (FsIo IoOther)
      else case condition of
        IfMatch expected \<Rightarrow> io (rename temp p t)
      | IfNoneMatch \<Rightarrow>
          (case hard_link temp p t of
             Inr t' \<Rightarrow> Inr (remove_file temp t')
           | Inl e \<Rightarrow>
               Inl (if e = IoAlreadyExists
                    then FsConflict (case revision_for_file sha t p of Inl e \<Rightarrow> None | Inr current \<Rightarrow> current)
                    else FsIo e)))"

definition write_commit ::
    "(string \<Rightarrow> string) \<Rightarrow> (write_call \<Rightarrow> bool) \<Rightarrow> string \<Rightarrow> write_condition \<Rightarrow> staged \<Rightarrow> file_tree
      \<Rightarrow> (fs_error, file_write_result) outcome \<times> file_tree" where
  "write_commit sha fails path condition s t =
     (let undone = remove_file (sg_temp s) t in
      case resolve_within_canonical_root t (sg_root s) path of
        Inl e \<Rightarrow> (Inl e, undone)
      | Inr p \<Rightarrow>
          (case canonicalize t (sg_parent s) of
             Inl e \<Rightarrow> (Inl (FsIo e), undone)
           | Inr identity \<Rightarrow>
               if identity \<noteq> sg_identity s then (Inl (FsOutsideRoot (sg_parent s)), undone)
               else case verify_write_condition sha t p condition of
                 Inl e \<Rightarrow> (Inl e, undone)
               | Inr u \<Rightarrow>
                   (case insert_staged sha fails condition (sg_temp s) p t of
                      Inl e \<Rightarrow> (Inl e, undone)
                    | Inr t' \<Rightarrow>
                        if fails SyncParent then (Inl (FsIo IoOther), t')
                        else case metadata t' p of
                          Inl e \<Rightarrow> (Inl (FsIo e), t')
                        | Inr n \<Rightarrow>
                            (case revision_for_file sha t' p of
                               Inl e \<Rightarrow> (Inl e, t')
                             | Inr None \<Rightarrow> (Inl (FsNotFound p), t')
                             | Inr (Some revision) \<Rightarrow>
                                 (Inr \<lparr>wr_path = utf8_lossy (path_text p), wr_size = node_size n,
                                    wr_revision = revision\<rparr>, t')))))"

definition file_write ::
    "(string \<Rightarrow> string) \<Rightarrow> (write_call \<Rightarrow> bool) \<Rightarrow> (file_tree \<Rightarrow> file_tree) \<Rightarrow> string \<Rightarrow> path \<Rightarrow> string
      \<Rightarrow> string \<Rightarrow> nat \<Rightarrow> write_condition \<Rightarrow> file_tree
      \<Rightarrow> (fs_error, file_write_result) outcome \<times> file_tree" where
  "file_write sha fails others fresh root path content limit condition t =
     (case write_prepare sha fails fresh root path content limit condition t of
        (Inl e, t1) \<Rightarrow> (Inl e, t1)
      | (Inr s, t1) \<Rightarrow> write_commit sha fails path condition s (others t1))"

end
