(* ===== verification/FilesystemFacts.thy ===== *)
theory FilesystemFacts
  imports Filesystem
begin

text \<open>
  Facts about the file service: a resolved path is below the root and crosses no link, so what
  is read is the very file that was named; a write changes nothing outside the project, even
  when others rearrange it meanwhile, and replaces the file wholly, under its condition, or not
  at all; what was written reads back; binary content survives its encoding.
\<close>

subsection \<open>Resolving\<close>

lemma io_Inr [simp]: "io r = Inr a \<longleftrightarrow> r = Inr a"
  by (cases r) auto

definition there :: "file_tree \<Rightarrow> path \<Rightarrow> bool" where
  "there t p \<longleftrightarrow> physical t p \<and> node_at t p \<noteq> None \<and> (\<forall>s. node_at t p \<noteq> Some (Link s))"

lemma there_canonical: "canonicalize t p = Inr q \<Longrightarrow> there t q"
  using canonicalize_physical by (auto simp: there_def)

lemma there_canonicalize: "there t p \<Longrightarrow> \<not> has_nul p \<Longrightarrow> canonicalize t p = Inr p"
  by (auto simp: there_def intro: canonicalize_straight)

lemma there_walk: "there t p \<Longrightarrow> walk t n [] (map Normal p @ cs) = walk t n p cs"
  using walk_straight_append [of t "[]" p] by (auto simp: there_def)

lemma canonical_root_Inr: "canonical_root t root = Inr r \<longleftrightarrow> canonicalize t root = Inr r"
  by (auto simp: canonical_root_def split: sum.split)

text \<open>A directory entry below a physical directory is found where it is named.\<close>

lemma locate_below:
  assumes "there t cur" "locate t (cur @ [n]) = Inr q"
  shows "q = cur @ [n]" "node_at t cur = Some Directory" "\<not> has_nul (cur @ [n])"
proof -
  have "walk t MAX_LINKS [] (map Normal cur) = Inr cur"
    using there_walk [OF assms(1), of MAX_LINKS "[]"] by simp
  with assms(2) show "q = cur @ [n]" "node_at t cur = Some Directory" "\<not> has_nul (cur @ [n])"
    by (auto simp: locate_def split: if_splits)
qed

lemma reject_from_step:
  assumes "reject_from t root cur (n # ns) = Inr u" "there t cur"
  shows "node_at t cur = Some Directory" "\<not> has_nul (cur @ [n])"
    and "node_at t (cur @ [n]) = None \<or> there t (cur @ [n]) \<and> reject_from t root (cur @ [n]) ns = Inr u"
proof -
  have "walk t MAX_LINKS [] (map Normal cur) = Inr cur"
    using there_walk [OF assms(2), of MAX_LINKS "[]"] by simp
  then obtain q where q: "locate t (cur @ [n]) = Inr q"
    using assms(1) by (cases "locate t (cur @ [n])")
      (auto simp: symlink_metadata_def Let_def locate_def split: if_splits sum.splits)
  note loc = locate_below [OF assms(2) q]
  show "node_at t cur = Some Directory" "\<not> has_nul (cur @ [n])" by (fact loc)+
  show "node_at t (cur @ [n]) = None \<or> there t (cur @ [n]) \<and> reject_from t root (cur @ [n]) ns = Inr u"
    using assms loc q by (auto simp: symlink_metadata_def Let_def there_def physical_snoc
        split: option.splits node.splits sum.splits if_splits)
qed

lemma reject_from_walk:
  "reject_from t root cur ns = Inr u \<Longrightarrow> there t cur \<Longrightarrow> walk t n cur (map Normal ns) = Inr q \<Longrightarrow> q = cur @ ns"
proof (induction ns arbitrary: cur)
  case Nil
  then show ?case by simp
next
  case (Cons m ns)
  note step = reject_from_step [OF Cons.prems(1,2)]
  have some: "node_at t (cur @ [m]) \<noteq> None" using Cons.prems(3) step(1) by (auto split: option.splits)
  with step(3) have th: "there t (cur @ [m])" "reject_from t root (cur @ [m]) ns = Inr u" by auto
  then have "walk t n (cur @ [m]) (map Normal ns) = Inr q"
    using Cons.prems(3) step(1) some by (auto simp: there_def split: node.splits option.splits)
  with Cons.IH [OF th(2,1)] show ?case by simp
qed

lemma resolved_below: "resolve_within_canonical_root t r s = Inr p \<Longrightarrow> below r p"
  by (auto simp: resolve_within_canonical_root_def Let_def split: if_splits sum.splits)

lemma resolved_path: "resolve_within_canonical_root t r s = Inr p \<Longrightarrow> p = (if s = [] then r else joined_path r s)"
  by (auto simp: resolve_within_canonical_root_def Let_def split: if_splits sum.splits)

lemma resolved_rejects:
  assumes "resolve_within_canonical_root t r s = Inr p"
  obtains ns u where "p = r @ ns" "reject_from t r r ns = Inr u"
proof (cases "s = []")
  case True
  with assms that [of "[]"] show ?thesis by (simp add: resolve_within_canonical_root_def)
next
  case False
  with assms obtain u where "reject_symlink_traversal t r p = Inr u"
    by (auto simp: resolve_within_canonical_root_def Let_def split: if_splits sum.splits)
  with that show ?thesis
    by (auto simp: reject_symlink_traversal_def strip_root_iff split: option.splits)
qed

lemma resolved_canonical:
  assumes "resolve_within_canonical_root t r s = Inr p" "there t r" "canonicalize t p = Inr q"
  shows "q = p"
proof -
  obtain ns u where ns: "p = r @ ns" "reject_from t r r ns = Inr u" using resolved_rejects [OF assms(1)] .
  have "walk t MAX_LINKS r (map Normal ns) = Inr q"
    using assms(3) there_walk [OF assms(2), of MAX_LINKS "map Normal ns"]
    by (simp add: canonicalize_def ns(1) split: if_splits)
  from reject_from_walk [OF ns(2) assms(2) this] ns(1) show ?thesis by simp
qed

text \<open>C20: A path that the service resolves lies below the project's real root, and when there
  is something at it, that is where it really is: no symbolic link and no \<open>..\<close> of the
  request leads a list, a read or a write to another place.
\<close>

theorem resolved_paths_stay_inside:
  "case resolve_within_root t root s of
     Inl e \<Rightarrow> True
   | Inr p \<Rightarrow>
       (case canonicalize t root of
          Inl e \<Rightarrow> False
        | Inr r \<Rightarrow> below r p \<and> (case canonicalize t p of Inl e \<Rightarrow> True | Inr q \<Rightarrow> q = p))"
  using resolved_below resolved_canonical there_canonical
  by (auto simp: resolve_within_root_def canonical_root_Inr split: sum.split)

subsection \<open>Writing\<close>

lemma resolved_parent:
  assumes "resolve_within_canonical_root t r s = Inr (r @ n # ns)" "there t r"
  shows "node_at t r = Some Directory"
proof -
  obtain ms u where "r @ n # ns = r @ ms" "reject_from t r r ms = Inr u" using resolved_rejects [OF assms(1)] .
  then have "reject_from t r r (n # ns) = Inr u" by simp
  from reject_from_step(1) [OF this assms(2)] show ?thesis .
qed

text \<open>What directory creation leaves: new directories on the way, and a physical way.\<close>

lemma ensure_from_tree:
  assumes "there t cur" "below root cur" "ensure_from fails root cur ns t = (res, t')"
  shows "(node_at t' q = node_at t q \<or> (\<exists>a b. ns = a @ b \<and> a \<noteq> [] \<and> q = cur @ a) \<and> node_at t q = None
        \<and> node_at t' q = Some Directory)
     \<and> (is_ok res \<longrightarrow> there t' (cur @ ns) \<and> (ns \<noteq> [] \<longrightarrow> node_at t' (cur @ ns) = Some Directory
          \<and> \<not> has_nul (cur @ ns)))"
  using assms
proof (induction ns arbitrary: cur t)
  case Nil
  then show ?case by simp
next
  case (Cons n ns)
  let ?here = "cur @ [n]"
  define made where "made = (case symlink_metadata t ?here of
              Inr Directory \<Rightarrow> Inr t
            | Inr other \<Rightarrow> Inl (FsOutsideRoot ?here)
            | Inl e \<Rightarrow>
                (if e \<noteq> IoNotFound then Inl (FsIo e)
                 else if fails (CreateDir ?here) then Inl (FsIo IoOther)
                 else io (create_entry Directory ?here t)))"
  show ?case
  proof (cases made)
    case (Inl e)
    then show ?thesis using Cons.prems(3) by (auto simp: made_def [symmetric] Let_def)
  next
    case (Inr t1)
    have cur: "walk t MAX_LINKS [] (map Normal cur) = Inr cur"
      using there_walk [OF Cons.prems(1), of MAX_LINKS "[]"] by simp
    obtain l where l: "locate t ?here = Inr l"
      using Inr unfolding made_def
      by (cases "locate t ?here") (auto simp: symlink_metadata_def create_entry_def split: if_splits)
    note loc = locate_below [OF Cons.prems(1) l]
    have t1: "t1 = t \<and> node_at t ?here = Some Directory
        \<or> t1 = put ?here Directory t \<and> node_at t ?here = None"
      using Inr unfolding made_def
      by (auto simp: symlink_metadata_def create_entry_def l loc(1) split: if_splits option.splits node.splits)
    have ne: "?here \<noteq> []" by simp
    have dir: "node_at t1 ?here = Some Directory" using t1 by (auto simp: node_at_put [OF ne])
    have ph: "physical t1 cur \<and> node_at t1 cur = Some Directory"
    proof -
      have "node_at t1 a = node_at t a" if "a \<noteq> ?here" for a
        using t1 that by (auto simp: node_at_put [OF ne])
      moreover have "a \<noteq> ?here" if "cur = a @ b" for a b using that by auto
      ultimately show ?thesis
        using Cons.prems(1) loc(2) unfolding there_def physical_def by (metis append.right_neutral)
    qed
    then have th: "there t1 ?here" using dir by (simp add: there_def physical_snoc)
    have can: "canonicalize t1 ?here = Inr ?here" using th loc(3) by (rule there_canonicalize)
    have be: "below root ?here" using Cons.prems(2) by (auto simp: below_iff)
    have rest: "ensure_from fails root ?here ns t1 = (res, t')"
      using Cons.prems(3) can be Inr by (simp add: made_def [symmetric] Let_def)
    note ih = Cons.IH [OF th be rest]
    show ?thesis
    proof
      show "node_at t' q = node_at t q \<or> (\<exists>a b. n # ns = a @ b \<and> a \<noteq> [] \<and> q = cur @ a) \<and> node_at t q = None
        \<and> node_at t' q = Some Directory"
      proof (cases "q = ?here")
        case True
        have "node_at t' q = node_at t1 q" using ih dir True by auto
        with True t1 dir show ?thesis by (auto intro!: exI [of _ "[n]"])
      next
        case False
        then have "node_at t1 q = node_at t q" using t1 by (auto simp: node_at_put [OF ne])
        moreover have "\<exists>a' b'. n # ns = a' @ b' \<and> a' \<noteq> [] \<and> q = cur @ a'" if "ns = a @ b" "q = ?here @ a" for a b
          using that by (intro exI [of _ "n # a"] exI [of _ b]) simp
        ultimately show ?thesis using ih by metis
      qed
      show "is_ok res \<longrightarrow> there t' (cur @ n # ns) \<and> (n # ns \<noteq> [] \<longrightarrow> node_at t' (cur @ n # ns) = Some Directory
          \<and> \<not> has_nul (cur @ n # ns))"
      proof (cases "ns = []")
        case True
        then show ?thesis using rest th dir loc(3) by auto
      next
        case False
        with ih show ?thesis by auto
      qed
    qed
  qed
qed

lemma locate_last: "locate t p = Inr q \<Longrightarrow> p \<noteq> [] \<Longrightarrow> q \<noteq> [] \<and> last q = last p"
  by (auto simp: locate_def split: if_splits sum.splits)

lemma remove_file_node: "node_at (remove_file p t) q = node_at t q \<or> p \<noteq> [] \<and> locate t p = Inr q"
proof (cases "locate t p")
  case (Inr l)
  show ?thesis
  proof (cases "p = []")
    case True
    then show ?thesis by (simp add: remove_file_def locate_def has_nul_def)
  next
    case False
    with locate_last [OF Inr] have "l \<noteq> []" by simp
    then show ?thesis using False by (auto simp: remove_file_def Inr split: option.split node.split)
  qed
qed (simp add: remove_file_def)

lemma stage_tree:
  assumes "there t parent" "stage fails (parent @ [n]) p content t = (res, t')"
  shows "q \<noteq> parent @ [n] \<Longrightarrow> node_at t' q = node_at t q"
    and "is_ok res \<Longrightarrow> node_at t' (parent @ [n]) = Some (File content) \<and> node_at t parent = Some Directory
      \<and> \<not> has_nul (parent @ [n])"
proof -
  let ?temp = "parent @ [n]"
  have ne: "?temp \<noteq> []" by simp
  have at: "l = ?temp" if "locate u ?temp = Inr l" "\<And>a. a \<noteq> ?temp \<Longrightarrow> node_at u a = node_at t a" for u l
  proof -
    have "node_at u a = node_at t a" if "parent = a @ b" for a b
      using that \<open>\<And>a. a \<noteq> ?temp \<Longrightarrow> node_at u a = node_at t a\<close> by auto
    then have "there u parent" using assms(1) unfolding there_def physical_def by (metis append.right_neutral)
    from locate_below(1) [OF this that(1)] show ?thesis .
  qed
  have removed: "node_at (remove_file ?temp u) q = node_at t q"
    if "q \<noteq> ?temp" "\<And>a. a \<noteq> ?temp \<Longrightarrow> node_at u a = node_at t a" for u q
    using remove_file_node [of ?temp u q] at [OF _ that(2)] that by auto
  show "node_at t' q = node_at t q" if q: "q \<noteq> ?temp"
  proof (cases "create_entry (File []) ?temp t")
    case (Inl e)
    then show ?thesis using assms(2) removed [OF q] by (auto simp: stage_def split: if_splits)
  next
    case (Inr t1)
    then obtain l where l: "locate t ?temp = Inr l" "t1 = put l (File []) t"
      by (auto simp: create_entry_def split: sum.splits if_splits)
    have t1: "t1 = put ?temp (File []) t" using l(2) at [OF l(1)] by simp
    then have n1: "node_at t1 a = node_at t a" if "a \<noteq> ?temp" for a using that by (simp add: node_at_put [OF ne])
    show ?thesis
      using assms(2) removed [OF q] n1 q at [OF _ n1]
      by (auto simp: stage_def Inr Let_def node_at_put [OF ne] split: if_splits sum.splits)
  qed
  assume ok: "is_ok res"
  then obtain t1 l1 where c: "create_entry (File []) ?temp t = Inr t1" and l1: "locate t1 ?temp = Inr l1"
    and t': "t' = put l1 (File content) t1"
    using assms(2) by (auto simp: stage_def Let_def split: if_splits sum.splits)
  then obtain l where l: "locate t ?temp = Inr l" "t1 = put l (File []) t"
    by (auto simp: create_entry_def split: sum.splits if_splits)
  have t1: "t1 = put ?temp (File []) t" using l(2) at [OF l(1)] by simp
  have "l1 = ?temp" using at [OF l1] by (simp add: t1 node_at_put [OF ne])
  with t' show "node_at t' ?temp = Some (File content) \<and> node_at t parent = Some Directory \<and> \<not> has_nul ?temp"
    using locate_below(2,3) [OF assms(1) l(1)] by (simp add: node_at_put [OF ne])
qed

text \<open>The two stages at which \<open>write_prepare\<close> touches the tree.\<close>

lemma write_prepare_cases:
  assumes "write_prepare sha fails fresh root path content limit condition t = (res, t')"
  obtains (untouched) "t' = t" "\<not> is_ok res"
  | (directories) r p made where "canonicalize t root = Inr r" "resolve_within_canonical_root t r path = Inr p"
      "p \<noteq> []" "\<not> is_dir t p" "ensure_directories_within_root fails r (butlast p) t = (made, t')" "\<not> is_ok res"
  | (staged) r p t1 identity p1 staging where "canonicalize t root = Inr r" "resolve_within_canonical_root t r path = Inr p"
      "p \<noteq> []" "\<not> is_dir t p" "ensure_directories_within_root fails r (butlast p) t = (Inr (), t1)"
      "canonicalize t1 (butlast p) = Inr identity"
      "stage fails (butlast p @ [temp_name fresh]) p1 content t1 = (staging, t')"
      "res = map_outcome (\<lambda>u. \<lparr>sg_root = r, sg_parent = butlast p, sg_identity = identity,
         sg_temp = butlast p @ [temp_name fresh]\<rparr>) staging"
      "verify_write_condition sha t p condition = Inr ()"
proof -
  note def = assms [unfolded write_prepare_def canonical_root_def Let_def]
  show thesis
  proof (cases "limit < length content")
    case True
    then show thesis using def by (intro untouched) auto
  next
    case False
    note 1 = def [unfolded if_not_P [OF False]]
    show thesis
    proof (cases "canonicalize t root")
      case (Inl e)
      then show thesis using 1 by (intro untouched) auto
    next
      case (Inr r)
      note 2 = 1 [unfolded Inr sum.case]
      show thesis
      proof (cases "resolve_within_canonical_root t r path")
        case (Inl e)
        then show thesis using 2 by (intro untouched) auto
      next
        case p: (Inr p)
        show thesis
        proof (cases "is_dir t p \<or> p = [] \<or> \<not> is_ok (verify_write_condition sha t p condition)")
          case True
          then show thesis using 2
            by (intro untouched) (auto simp: p is_ok_iff split: if_splits sum.splits)
        next
          case False
          then obtain v where v: "\<not> is_dir t p" "p \<noteq> []" "verify_write_condition sha t p condition = Inr v"
            by (auto simp: is_ok_iff)
          obtain made t1 where e: "ensure_directories_within_root fails r (butlast p) t = (made, t1)"
            by fastforce
          note 3 = 2 [unfolded p sum.case if_not_P [OF v(1)] v(3) if_not_P [OF v(2)] e prod.case]
          show thesis
          proof (cases made)
            case (Inl er)
            then show thesis using 3 Inr p v e by (intro directories [of r p made]) auto
          next
            case (Inr u)
            note made = this
            show thesis
            proof (cases "is_ok (canonicalize t1 (butlast p)) \<and> is_ok (resolve_within_canonical_root t1 r path)")
              case False
              then show thesis using 3 made \<open>canonicalize t root = Inr r\<close> p v e
                by (intro directories [of r p made]) (auto simp: is_ok_iff split: sum.splits)
            next
              case True
              then obtain identity p1 where c: "canonicalize t1 (butlast p) = Inr identity"
                "resolve_within_canonical_root t1 r path = Inr p1"
                by (auto simp: is_ok_iff)
              obtain staging t2 where st: "stage fails (butlast p @ [temp_name fresh]) p1 content t1 = (staging, t2)"
                by fastforce
              from 3 made c st show thesis
                using \<open>canonicalize t root = Inr r\<close> p v e
                by (intro staged [of r p t1 identity p1 staging]) auto
            qed
          qed
        qed
      qed
    qed
  qed
qed

text \<open>The path that is written, below a real root.\<close>

lemma prepared_path:
  assumes "canonicalize t root = Inr r" "resolve_within_canonical_root t r path = Inr p" "p \<noteq> []"
    "ensure_directories_within_root fails r (butlast p) t = (made, t1)"
  obtains (refused) "t1 = t" "\<not> is_ok made"
  | (made) ns n where "p = r @ ns @ [n]" "butlast p = r @ ns" "ensure_from fails r r ns t = (made, t1)" "there t r"
proof (cases "strip_root r (butlast p)")
  case None
  with assms(4) show ?thesis by (intro refused) (auto simp: ensure_directories_within_root_def)
next
  case (Some ns)
  then have "butlast p = r @ ns" by (simp add: strip_root_iff)
  moreover from this have "p = r @ ns @ [last p]" using assms(3) append_butlast_last_id [OF assms(3)] by simp
  ultimately show ?thesis
    using assms Some by (intro made [of ns "last p"]) (auto simp: ensure_directories_within_root_def there_canonical)
qed

text \<open>
  Preparing creates directories above the target and perhaps the staged copy, all below the
  root; when it succeeds, the copy holds the content in the target's real directory.
\<close>

lemma write_prepare_tree:
  assumes "write_prepare sha fails fresh root path content limit condition t = (res, t')"
    and "canonicalize t root = Inr r"
  shows "node_at t' q = node_at t q \<or> below r q \<and> (node_at t q = None \<and> node_at t' q = Some Directory \<or> last q = temp_name fresh)"
    and "resolve_within_canonical_root t r path = Inr p \<Longrightarrow> last p \<noteq> temp_name fresh \<Longrightarrow> node_at t' p = node_at t p"
    and "res = Inr s \<Longrightarrow> \<exists>ns n. resolve_within_canonical_root t r path = Inr (r @ ns @ [n])
      \<and> s = \<lparr>sg_root = r, sg_parent = r @ ns, sg_identity = r @ ns, sg_temp = r @ ns @ [temp_name fresh]\<rparr>
      \<and> node_at t' (r @ ns @ [temp_name fresh]) = Some (File content)"
proof -
  have main: "(\<forall>q. node_at t' q = node_at t q \<or> below r q \<and> (node_at t q = None \<and> node_at t' q = Some Directory \<or> last q = temp_name fresh))
    \<and> (\<forall>p. resolve_within_canonical_root t r path = Inr p \<longrightarrow> last p \<noteq> temp_name fresh \<longrightarrow> node_at t' p = node_at t p)
    \<and> (\<forall>s. res = Inr s \<longrightarrow> (\<exists>ns n. resolve_within_canonical_root t r path = Inr (r @ ns @ [n])
      \<and> s = \<lparr>sg_root = r, sg_parent = r @ ns, sg_identity = r @ ns, sg_temp = r @ ns @ [temp_name fresh]\<rparr>
      \<and> node_at t' (r @ ns @ [temp_name fresh]) = Some (File content)))"
  proof (cases rule: write_prepare_cases [OF assms(1), case_names untouched directories staged])
    case untouched
    then show ?thesis by auto
  next
    case (directories r' p made)
    then have r: "r' = r" using assms(2) by simp
    note d = directories [unfolded r]
    show ?thesis
    proof (cases rule: prepared_path [OF assms(2) d(2,3,5), case_names refused made])
      case refused
      then show ?thesis using d(6) by auto
    next
      case (made ns n)
      note tree = ensure_from_tree [OF made(4) below_refl made(3)]
      have dir: "node_at t' q = node_at t q \<or> (\<exists>a b. ns = a @ b \<and> a \<noteq> [] \<and> q = r @ a) \<and> node_at t q = None
        \<and> node_at t' q = Some Directory" for q using tree by blast
      have "node_at t' p = node_at t p" using dir [of p] made(1) by auto
      moreover have "below r q" if "\<exists>a b. ns = a @ b \<and> a \<noteq> [] \<and> q = r @ a" for q using that by auto
      ultimately show ?thesis using dir d(2,6) by (auto, metis)
    qed
  next
    case (staged r' p t1 identity p1 staging)
    then have r: "r' = r" using assms(2) by simp
    note d = staged [unfolded r]
    show ?thesis
    proof (cases rule: prepared_path [OF assms(2) d(2,3,5), case_names refused made])
      case refused
      then show ?thesis by simp
    next
      case (made ns n)
      note tree = ensure_from_tree [OF made(4) below_refl made(3)]
      have dir: "node_at t1 q = node_at t q \<or> (\<exists>a b. ns = a @ b \<and> a \<noteq> [] \<and> q = r @ a) \<and> node_at t q = None
        \<and> node_at t1 q = Some Directory" for q using tree by blast
      have th: "there t1 (r @ ns)" using tree by simp
      have st: "stage fails ((r @ ns) @ [temp_name fresh]) p1 content t1 = (staging, t')"
        using d(7) by (simp add: made(2))
      have nul: "\<not> has_nul (r @ ns)" using d(6) by (auto simp: made(2) canonicalize_def split: if_splits)
      have id: "identity = r @ ns" using there_canonicalize [OF th nul] d(6) by (simp add: made(2))
      have same: "node_at t' q = node_at t1 q" if "q \<noteq> r @ ns @ [temp_name fresh]" for q
        using stage_tree(1) [OF th st] that by simp
      have "node_at t' q = node_at t q \<or> below r q \<and> (node_at t q = None \<and> node_at t' q = Some Directory \<or> last q = temp_name fresh)" for q
        using dir [of q] same [of q] by (cases "q = r @ ns @ [temp_name fresh]") auto
      moreover have "node_at t' p = node_at t p" if "last p \<noteq> temp_name fresh"
      proof -
        have "p \<noteq> r @ ns @ [temp_name fresh]" using that made(1) by auto
        with same dir [of p] made(1) show ?thesis by auto
      qed
      moreover have "\<exists>ns n. resolve_within_canonical_root t r path = Inr (r @ ns @ [n])
        \<and> s = \<lparr>sg_root = r, sg_parent = r @ ns, sg_identity = r @ ns, sg_temp = r @ ns @ [temp_name fresh]\<rparr>
        \<and> node_at t' (r @ ns @ [temp_name fresh]) = Some (File content)" if res: "res = Inr s" for s
      proof -
        obtain u where u: "staging = Inr u" using res d(8) by (cases staging) auto
        then have "s = \<lparr>sg_root = r, sg_parent = r @ ns, sg_identity = r @ ns, sg_temp = r @ ns @ [temp_name fresh]\<rparr>"
          using res d(8) by (simp add: made(2) id)
        moreover have "resolve_within_canonical_root t r path = Inr (r @ ns @ [n])" using d(2) made(1) by simp
        ultimately show ?thesis using stage_tree(2) [OF th st] u by auto
      qed
      ultimately show ?thesis using d(2) by auto
    qed
  qed
  then show "node_at t' q = node_at t q \<or> below r q \<and> (node_at t q = None \<and> node_at t' q = Some Directory \<or> last q = temp_name fresh)"
    "resolve_within_canonical_root t r path = Inr p \<Longrightarrow> last p \<noteq> temp_name fresh \<Longrightarrow> node_at t' p = node_at t p"
    "res = Inr s \<Longrightarrow> \<exists>ns n. resolve_within_canonical_root t r path = Inr (r @ ns @ [n])
      \<and> s = \<lparr>sg_root = r, sg_parent = r @ ns, sg_identity = r @ ns, sg_temp = r @ ns @ [temp_name fresh]\<rparr>
      \<and> node_at t' (r @ ns @ [temp_name fresh]) = Some (File content)"
    by blast+
qed

text \<open>The copy takes the place of the target, in the target's real directory.\<close>

definition committed :: "path \<Rightarrow> path \<Rightarrow> file_tree \<Rightarrow> file_tree \<Rightarrow> bool" where
  "committed temp p t t' \<longleftrightarrow> (\<forall>q. node_at t' q =
     (if q = p then node_at t temp else if q = temp then None else node_at t q))"

lemma insert_staged_tree:
  assumes "insert_staged sha fails condition (d @ [m]) (d @ [n]) t = Inr t'" "there t d" "m \<noteq> n"
    and copy: "\<And>nd. node_at t (d @ [m]) = Some nd \<Longrightarrow> nd \<noteq> Directory"
  shows "committed (d @ [m]) (d @ [n]) t t'" "node_at t (d @ [m]) \<noteq> None"
    "condition = IfNoneMatch \<Longrightarrow> node_at t (d @ [n]) = None"
    "node_at t d = Some Directory" "\<not> has_nul (d @ [n])"
proof -
  have ne: "d @ [m] \<noteq> []" "d @ [n] \<noteq> []" by simp_all
  have all: "committed (d @ [m]) (d @ [n]) t t' \<and> node_at t (d @ [m]) \<noteq> None
     \<and> (condition = IfNoneMatch \<longrightarrow> node_at t (d @ [n]) = None) \<and> node_at t d = Some Directory \<and> \<not> has_nul (d @ [n])"
  proof (cases condition)
    case (IfMatch expected)
    then have rn: "rename (d @ [m]) (d @ [n]) t = Inr t'"
      using assms(1) by (simp add: insert_staged_def split: if_splits)
    then obtain l k where l: "locate t (d @ [m]) = Inr l" "locate t (d @ [n]) = Inr k"
      by (auto simp: rename_def split: sum.splits)
    from rn locate_below [OF assms(2) l(1)] locate_below [OF assms(2) l(2)] assms(3) IfMatch show ?thesis
      by (auto simp: rename_def l committed_def node_at_put [OF ne(2)] node_at_del [OF ne(1)]
          split: option.splits if_splits)
  next
    case IfNoneMatch
    then obtain t1 where hl: "hard_link (d @ [m]) (d @ [n]) t = Inr t1" and t': "t' = remove_file (d @ [m]) t1"
      using assms(1) by (auto simp: insert_staged_def split: if_splits sum.splits)
    then obtain l k where l: "locate t (d @ [m]) = Inr l" "locate t (d @ [n]) = Inr k"
      by (auto simp: hard_link_def split: sum.splits)
    note b = locate_below [OF assms(2) l(1)] locate_below [OF assms(2) l(2)]
    obtain nd where nd: "node_at t (d @ [m]) = Some nd" "node_at t (d @ [n]) = None" "t1 = put (d @ [n]) nd t"
      using hl b by (auto simp: hard_link_def l split: option.splits if_splits)
    have n1: "node_at t1 q = (if q = d @ [n] then Some nd else node_at t q)" for q
      by (simp add: nd(3) node_at_put [OF ne(2)])
    have "physical t1 d \<and> node_at t1 d = Some Directory"
    proof -
      have "node_at t1 a = node_at t a" if "d = a @ c" for a c using that by (auto simp: n1)
      then show ?thesis using assms(2) b(2) unfolding there_def physical_def by (metis append.right_neutral)
    qed
    then have "physical t1 (d @ [m])" by (simp add: physical_snoc)
    then have "locate t1 (d @ [m]) = Inr (d @ [m])" using b(3) by (rule locate_straight)
    moreover have "nd \<noteq> Directory" using copy nd(1) by blast
    ultimately have "t' = del (d @ [m]) t1"
      using nd(1) assms(3) by (auto simp: t' remove_file_def n1 split: node.split)
    then show ?thesis using IfNoneMatch nd(1,2) b assms(3)
      by (auto simp: committed_def node_at_del [OF ne(1)] n1)
  qed
  then show "committed (d @ [m]) (d @ [n]) t t'" "node_at t (d @ [m]) \<noteq> None"
    "condition = IfNoneMatch \<Longrightarrow> node_at t (d @ [n]) = None"
    "node_at t d = Some Directory" "\<not> has_nul (d @ [n])" by blast+
qed

lemma write_commit_cases:
  assumes "write_commit sha fails path condition s t = (res, t')"
    and s: "s = \<lparr>sg_root = r, sg_parent = d, sg_identity = d, sg_temp = d @ [m]\<rparr>"
    and p: "(if path = [] then r else joined_path r path) = d @ [n]" and "m \<noteq> n"
    and copy: "\<And>nd. node_at t (d @ [m]) = Some nd \<Longrightarrow> nd \<noteq> Directory"
  obtains (undone) "t' = remove_file (d @ [m]) t" "\<not> is_ok res"
  | (kept) nd where "there t d" "node_at t d = Some Directory" "\<not> has_nul (d @ [n])"
      "node_at t (d @ [m]) = Some nd" "committed (d @ [m]) (d @ [n]) t t'"
      "verify_write_condition sha t (d @ [n]) condition = Inr ()"
      "condition = IfNoneMatch \<Longrightarrow> node_at t (d @ [n]) = None"
      "\<And>w. res = Inr w \<Longrightarrow> \<exists>k. metadata t' (d @ [n]) = Inr k \<and> wr_size w = node_size k
         \<and> revision_for_file sha t' (d @ [n]) = Inr (Some (wr_revision w))"
      "resolve_within_canonical_root t r path = Inr (d @ [n])"
proof -
  note def = assms(1) [unfolded write_commit_def Let_def s staged.select_convs]
  show thesis
  proof (cases "resolve_within_canonical_root t r path")
    case (Inl e)
    then show thesis using def by (intro undone) auto
  next
    case (Inr p')
    have p': "p' = d @ [n]" using resolved_path [OF Inr] p by simp
    note 1 = def [unfolded Inr p' sum.case]
    show thesis
    proof (cases "canonicalize t d = Inr d \<and> is_ok (verify_write_condition sha t (d @ [n]) condition)
        \<and> is_ok (insert_staged sha fails condition (d @ [m]) (d @ [n]) t)")
      case False
      then show thesis using 1
        by (intro undone) (auto simp: is_ok_iff split: sum.splits if_splits)
    next
      case True
      then obtain v t1 where c: "canonicalize t d = Inr d" and v: "verify_write_condition sha t (d @ [n]) condition = Inr ()"
        and ins: "insert_staged sha fails condition (d @ [m]) (d @ [n]) t = Inr t1"
        by (auto simp: is_ok_iff)
      have th: "there t d" using c by (rule there_canonical)
      note tree = insert_staged_tree [OF ins th assms(4) copy]
      note 2 = 1 [unfolded c sum.case v ins]
      have t': "t' = t1" using 2 by (auto split: sum.splits if_splits option.splits)
      obtain nd where nd: "node_at t (d @ [m]) = Some nd" using tree(2) by auto
      show thesis
      proof (rule kept [OF th tree(4,5) nd _ v tree(3)])
        show "committed (d @ [m]) (d @ [n]) t t'" using tree(1) t' by simp
        show "\<exists>k. metadata t' (d @ [n]) = Inr k \<and> wr_size w = node_size k
           \<and> revision_for_file sha t' (d @ [n]) = Inr (Some (wr_revision w))" if "res = Inr w" for w
          using 2 that t' by (auto split: sum.splits if_splits option.splits)
        show "resolve_within_canonical_root t r path = Inr (d @ [n])" using Inr p' by simp
      qed
    qed
  qed
qed

text \<open>Whatever the copy has become, only the target and names like the copy's are touched.\<close>

lemma remove_file_only: "last p = m \<Longrightarrow> p \<noteq> [] \<Longrightarrow> last q \<noteq> m \<Longrightarrow> node_at (remove_file p t) q = node_at t q"
  using remove_file_node [of p t q] locate_last [of t p q] by auto




text \<open>What the conditions of a write say of the tree the copy is inserted into.\<close>

definition condition_holds :: "(string \<Rightarrow> string) \<Rightarrow> file_tree \<Rightarrow> path \<Rightarrow> write_condition \<Rightarrow> bool" where
  "condition_holds sha t p condition =
     (case condition of
        IfMatch expected \<Rightarrow> (case node_at t p of Some (File bytes) \<Rightarrow> sha bytes = expected | _ \<Rightarrow> False)
      | IfNoneMatch \<Rightarrow> node_at t p = None)"

lemma verify_holds:
  assumes "verify_write_condition sha t (d @ [n]) condition = Inr u" "there t d" "node_at t d = Some Directory"
    "\<not> has_nul (d @ [n])" "condition = IfNoneMatch \<Longrightarrow> node_at t (d @ [n]) = None"
    "\<forall>target. node_at t (d @ [n]) \<noteq> Some (Link target)"
  shows "condition_holds sha t (d @ [n]) condition"
proof (cases condition)
  case IfNoneMatch
  then show ?thesis using assms(5) by (simp add: condition_holds_def)
next
  case (IfMatch expected)
  with assms(1) obtain bytes where b: "read_file t (d @ [n]) = Inr bytes" "sha bytes = expected"
    by (auto simp: verify_write_condition_def revision_for_file_def split: sum.splits if_splits)
  then obtain q where q: "canonicalize t (d @ [n]) = Inr q" "node_at t q = Some (File bytes)"
    by (auto simp: read_file_def metadata_def split: sum.splits node.splits option.splits)
  have "walk t MAX_LINKS d [Normal n] = Inr q"
    using q(1) assms(4) there_walk [OF assms(2), of MAX_LINKS "[Normal n]"] by (simp add: canonicalize_def)
  then have "q = d @ [n]"
    using assms(3,6) by (auto split: option.splits node.splits)
  with q b IfMatch show ?thesis by (simp add: condition_holds_def)
qed

lemma read_committed:
  assumes "there t d" "node_at t d = Some Directory" "\<not> has_nul (d @ [n])" "m \<noteq> n"
    "committed (d @ [m]) (d @ [n]) t t'" "node_at t (d @ [m]) = Some (File content)"
  shows "canonicalize t' (d @ [n]) = Inr (d @ [n])" "node_at t' (d @ [n]) = Some (File content)"
proof -
  have n: "node_at t' q = (if q = d @ [n] then Some (File content) else if q = d @ [m] then None else node_at t q)" for q
    using assms(5,6) by (simp add: committed_def)
  show f: "node_at t' (d @ [n]) = Some (File content)" by (simp add: n)
  have "node_at t' a = node_at t a" if "d = a @ c" for a c using that by (auto simp: n)
  then have "physical t' d \<and> node_at t' d = Some Directory"
    using assms(1,2) unfolding there_def physical_def by (metis append.right_neutral)
  then have "there t' (d @ [n])" using f by (simp add: there_def physical_snoc)
  then show "canonicalize t' (d @ [n]) = Inr (d @ [n])" using assms(3) by (rule there_canonicalize)
qed

lemma reject_from_no_link:
  "reject_from t root cur (ns @ [n]) = Inr u \<Longrightarrow> there t cur \<Longrightarrow> there t (cur @ ns)
     \<Longrightarrow> node_at t (cur @ ns @ [n]) \<noteq> Some (Link target)"
proof (induction ns arbitrary: cur)
  case Nil
  then show ?case using reject_from_step(3) [of t root cur n "[]" u] by (auto simp: there_def)
next
  case (Cons m ns)
  have "node_at t (cur @ [m]) \<noteq> None"
    using Cons.prems(3) physical_prefix [of t "cur @ [m]" ns] by (cases "ns = []") (auto simp: there_def)
  with reject_from_step(3) [of t root cur m "ns @ [n]" u] Cons.prems(1,2)
  have "there t (cur @ [m])" "reject_from t root (cur @ [m]) (ns @ [n]) = Inr u" by auto
  with Cons.IH [of "cur @ [m]"] Cons.prems(3) show ?case by simp
qed

lemma resolved_no_link:
  assumes "resolve_within_canonical_root t r path = Inr (r @ ns @ [n])" "there t (r @ ns)"
  shows "node_at t (r @ ns @ [n]) \<noteq> Some (Link target)"
proof -
  obtain ms u where "r @ ns @ [n] = r @ ms" "reject_from t r r ms = Inr u" using resolved_rejects [OF assms(1)] .
  then have "reject_from t r r (ns @ [n]) = Inr u" by simp
  moreover have "there t r"
    using assms(2) physical_prefix [of t r ns] by (cases "ns = []") (auto simp: there_def)
  ultimately show ?thesis using assms(2) by (rule reject_from_no_link)
qed

text \<open>
  A write whose copy others leave alone, at a path that is not the copy's: either the file
  ends up with the content, and in the tree it was inserted into the condition held, or the file
  is as others left it; and a success is the former.
\<close>

lemma file_write_outcome:
  assumes root: "canonicalize t root = Inr r"
    and others: "\<And>u q. last q = temp_name fresh \<Longrightarrow> node_at (others u) q = node_at u q"
    and path: "resolve_within_canonical_root t r path = Inr p" "last p \<noteq> temp_name fresh"
    and w: "file_write sha fails others fresh root path content limit condition t = (res, t')"
    and prep: "write_prepare sha fails fresh root path content limit condition t = (prepared, t1)"
  shows "(node_at t' p = node_at (if is_ok prepared then others t1 else t) p \<and> \<not> is_ok res)
     \<or> (is_ok prepared \<and> node_at t' p = Some (File content) \<and> canonicalize t' p = Inr p
        \<and> condition_holds sha (others t1) p condition
        \<and> (\<forall>x. res = Inr x \<longrightarrow> wr_size x = length content \<and> wr_revision x = sha content))"
proof -
  note tree = write_prepare_tree [OF prep root]
  show ?thesis
  proof (cases prepared)
    case (Inl e)
    then show ?thesis using w tree(2) [OF path] by (auto simp: file_write_def prep)
  next
    case (Inr s)
    from tree(3) [OF Inr] obtain ns n where rp: "p = (r @ ns) @ [n]"
      and s: "s = \<lparr>sg_root = r, sg_parent = r @ ns, sg_identity = r @ ns, sg_temp = (r @ ns) @ [temp_name fresh]\<rparr>"
      and copy1: "node_at t1 ((r @ ns) @ [temp_name fresh]) = Some (File content)"
      using path(1) by auto
    let ?u = "others t1"
    have copy: "node_at ?u ((r @ ns) @ [temp_name fresh]) = Some (File content)"
      using others [of "(r @ ns) @ [temp_name fresh]" t1] copy1 by simp
    have com: "write_commit sha fails path condition s ?u = (res, t')"
      using w by (simp add: file_write_def prep Inr)
    have pp: "(if path = [] then r else joined_path r path) = (r @ ns) @ [n]"
      using resolved_path [OF path(1)] rp by simp
    have ne: "temp_name fresh \<noteq> n" using path(2) rp by auto
    show ?thesis
    proof (cases rule: write_commit_cases [OF com s pp ne, case_names copy undone kept])
      case (copy nd)
      then show ?case using \<open>node_at ?u ((r @ ns) @ [temp_name fresh]) = Some (File content)\<close> by simp
    next
      case undone
      have "node_at t' p = node_at ?u p"
        unfolding undone(1) using path(2) by (intro remove_file_only [of _ "temp_name fresh"]) auto
      then show ?thesis using undone(2) Inr by simp
    next
      case (kept nd)
      note rc = read_committed [OF kept(1,2,3) ne kept(5) copy]
      have "node_at ?u (r @ ns @ [n]) \<noteq> Some (Link target)" for target
        using resolved_no_link [of ?u r path ns n] kept(9,1) by simp
      then have "condition_holds sha ?u p condition"
        using verify_holds [OF kept(6,1,2,3,7)] rp by simp
      moreover have "wr_size x = length content \<and> wr_revision x = sha content" if "res = Inr x" for x
        using kept(8) [OF that] rc
        by (auto simp: metadata_def revision_for_file_def read_file_def)
      ultimately show ?thesis using rc rp Inr by auto
    qed
  qed
qed


subsection \<open>Reading back\<close>

text \<open>Directories and links that stay lead where they led.\<close>

lemma walk_kept:
  "walk t n cur cs = Inr q \<Longrightarrow> node_at t q = Some Directory
     \<Longrightarrow> (\<And>a. node_at t a = Some Directory \<Longrightarrow> node_at t' a = Some Directory)
     \<Longrightarrow> (\<And>a target. node_at t a = Some (Link target) \<Longrightarrow> node_at t' a = Some (Link target))
     \<Longrightarrow> walk t' n cur cs = Inr q"
proof (induction t n cur cs rule: walk.induct)
  case (1 t n cur)
  then show ?case by simp
next
  case (2 t n cur c cs)
  have dir: "node_at t cur = Some Directory" "node_at t' cur = Some Directory"
    using "2.prems"(1,3) by (simp_all split: if_splits)
  show ?case
  proof (cases c)
    case ParentDir
    then show ?thesis using "2.IH"(1) [OF _ ParentDir] "2.prems" dir by simp
  next
    case (Normal name)
    note step = "2.prems"(1) [unfolded walk.simps(2) Normal]
    obtain nd where nd: "node_at t (cur @ [name]) = Some nd" using step dir by (auto split: option.splits)
    show ?thesis
    proof (cases nd)
      case (Link target)
      then have l: "walk t (n - 1) (if is_absolute target then [] else cur) (components target @ cs) = Inr q" "n \<noteq> 0"
        using step dir nd by (auto split: if_splits)
      from "2.IH"(4) [OF _ Normal nd Link l(2,1)] dir l(2) "2.prems"(2-4) nd Link show ?thesis
        by (simp add: Normal)
    next
      case Directory
      with "2.IH"(3) [OF _ Normal nd] step dir nd "2.prems"(2-4) show ?thesis by (simp add: Normal)
    next
      case (File b)
      have "walk t n (cur @ [name]) cs = Inr q" using step dir nd File by simp
      then have False
        using nd File "2.prems"(2) by (cases cs) (auto split: if_splits)
      then show ?thesis ..
    qed
  qed
qed

lemma reject_from_straight:
  "there t (cur @ ns) \<Longrightarrow> \<not> has_nul (cur @ ns) \<Longrightarrow> below root cur \<Longrightarrow> reject_from t root cur ns = Inr ()"
proof (induction ns arbitrary: cur)
  case Nil
  then show ?case by simp
next
  case (Cons n ns)
  let ?here = "cur @ [n]"
  have th: "there t ?here"
    using Cons.prems(1) physical_prefix [of t ?here ns] by (cases "ns = []") (auto simp: there_def)
  have nul: "\<not> has_nul ?here" using Cons.prems(2) by (simp add: has_nul_def)
  have be: "below root ?here" using Cons.prems(3) by (auto simp: below_iff)
  have "reject_from t root ?here ns = Inr ()" using Cons.IH [of ?here] Cons.prems(1,2) be by simp
  moreover have "locate t ?here = Inr ?here" using th nul by (intro locate_straight) (auto simp: there_def)
  ultimately show ?case
    using there_canonicalize [OF th nul] be th
    by (auto simp: symlink_metadata_def there_def Let_def split: option.split node.split)
qed

text \<open>A real path below the root is accepted as it is written.\<close>

lemma resolve_straight:
  assumes "there t p" "\<not> has_nul p" "p = (if path = [] then r else joined_path r path)" "below r p"
  shows "resolve_within_canonical_root t r path = Inr p"
proof (cases "path = []")
  case False
  obtain ns where ns: "p = r @ ns" using assms(4) by (auto simp: below_iff)
  then have "reject_symlink_traversal t r p = Inr ()"
    using reject_from_straight [of t r ns r] assms(1,2)
    by (simp add: reject_symlink_traversal_def strip_root_iff [THEN iffD2])
  with False assms(3,4) show ?thesis by (simp add: resolve_within_canonical_root_def)
qed (use assms in \<open>simp add: resolve_within_canonical_root_def\<close>)

text \<open>A write that succeeds leaves the old directories and links, and the file is found where it was named.\<close>

lemma written_file_is_there:
  assumes w: "file_write sha fails (\<lambda>u. u) fresh root path content limit condition t = (Inr x, t')"
    and unused: "\<And>q. q \<noteq> [] \<Longrightarrow> last q = temp_name fresh \<Longrightarrow> node_at t q = None"
    and p: "resolve_within_root t root path = Inr p" "last p \<noteq> temp_name fresh"
  shows "resolve_within_root t' root path = Inr p" "canonicalize t' p = Inr p"
    "node_at t' p = Some (File content)" "wr_revision x = sha content"
    "canonical_root t' root = canonical_root t root"
proof -
  obtain r where r: "canonicalize t root = Inr r" and rp: "resolve_within_canonical_root t r path = Inr p"
    using p(1) by (auto simp: resolve_within_root_def canonical_root_Inr split: sum.splits)
  obtain prepared t1 where prep: "write_prepare sha fails fresh root path content limit condition t = (prepared, t1)"
    by fastforce
  from file_write_outcome [OF r _ rp p(2) w prep]
  have out: "is_ok prepared" "node_at t' p = Some (File content)" "canonicalize t' p = Inr p"
    "condition_holds sha t1 p condition" "wr_revision x = sha content" by auto
  note tree = write_prepare_tree [OF prep r]
  obtain s where s: "prepared = Inr s" using out(1) by (auto simp: is_ok_iff)
  from tree(3) [OF s] obtain ns n where pn: "p = (r @ ns) @ [n]"
    and sv: "s = \<lparr>sg_root = r, sg_parent = r @ ns, sg_identity = r @ ns, sg_temp = (r @ ns) @ [temp_name fresh]\<rparr>"
    and copy1: "node_at t1 ((r @ ns) @ [temp_name fresh]) = Some (File content)"
    using rp by auto
  have com: "write_commit sha fails path condition s t1 = (Inr x, t')" using w by (simp add: file_write_def prep s)
  have pp: "(if path = [] then r else joined_path r path) = (r @ ns) @ [n]" using resolved_path [OF rp] pn by simp
  have ne: "temp_name fresh \<noteq> n" using p(2) pn by auto
  have c: "committed ((r @ ns) @ [temp_name fresh]) p t1 t'"
  proof (cases rule: write_commit_cases [OF com sv pp ne, case_names copy undone kept])
    case (copy nd)
    then show ?case using copy1 by simp
  qed (simp_all add: pn)
  have same: "node_at t' a = node_at t a" if a: "node_at t a \<noteq> None" "\<forall>b. node_at t a \<noteq> Some (File b)" for a
  proof -
    have t1: "node_at t1 a = node_at t a"
      using tree(1) [of a] a unused [of a] by (cases "a = []") auto
    moreover have "a \<noteq> p"
      using out(4) tree(2) [OF rp p(2)] a
      by (auto simp: condition_holds_def split: write_condition.splits option.splits node.splits)
    moreover have "a \<noteq> (r @ ns) @ [temp_name fresh]" using unused [of "(r @ ns) @ [temp_name fresh]"] a(1) by auto
    ultimately show ?thesis using c by (simp add: committed_def)
  qed
  have dir: "node_at t r = Some Directory"
    using rp resolved_parent [of t r path] there_canonical [OF r] by (cases ns) (auto simp: pn)
  have "walk t' MAX_LINKS [] (map Normal root) = Inr r"
    by (rule walk_kept [of t]) (use r dir same in \<open>auto simp: canonicalize_def split: if_splits\<close>)
  then have r': "canonicalize t' root = Inr r" using r by (simp add: canonicalize_def split: if_splits)
  have "resolve_within_canonical_root t' r path = Inr p"
    using resolve_straight [of t' p path r] there_canonical [OF out(3)] out(3) resolved_path [OF rp] resolved_below [OF rp]
    by (auto simp: canonicalize_def split: if_splits)
  then show "resolve_within_root t' root path = Inr p" by (simp add: resolve_within_root_def canonical_root_def r')
  show "canonicalize t' p = Inr p" "node_at t' p = Some (File content)" "wr_revision x = sha content"
    by (fact out)+
  show "canonical_root t' root = canonical_root t root" by (simp add: canonical_root_def r r')
qed

text \<open>C23: What is written reads back. After a write that succeeded, a read of the same path with
  a large enough limit gives the content (as text, or in base 64 when it is binary), its size and
  the revision the write answered; and a writer that still expects another revision is refused
  with the current one, and nothing is changed.
\<close>

theorem written_file_reads_back:
  assumes w: "file_write sha fails (\<lambda>u. u) fresh root path content limit condition t = (Inr x, t')"
    and unused: "\<And>q. q \<noteq> [] \<Longrightarrow> last q = temp_name fresh \<Longrightarrow> node_at t q = None"
    and p: "resolve_within_root t root path = Inr p" "last p \<noteq> temp_name fresh"
    and limits: "length content \<le> read_limit" "length other \<le> limit2"
    and stale: "expected \<noteq> wr_revision x"
  shows "(case file_read sha root path read_limit t' of
            Inl e \<Rightarrow> False
          | Inr rr \<Rightarrow> rr_revision rr = wr_revision x \<and> rr_size rr = length content \<and> \<not> rr_truncated rr
              \<and> (if is_probably_binary content then rr_content_base64 rr = Some (base64_encode content)
                 else rr_content rr = Some (utf8_lossy content)))
     \<and> file_write sha fails2 others2 fresh2 root path other limit2 (IfMatch expected) t'
        = (Inl (FsConflict (Some (wr_revision x))), t')"
proof
  note f = written_file_is_there [OF w unused p]
  have m: "metadata t' p = Inr (File content)" by (simp add: metadata_def f(2,3))
  then have rd: "read_file t' p = Inr content" and nd: "\<not> is_dir t' p" by (simp_all add: read_file_def is_dir_def)
  show "case file_read sha root path read_limit t' of
            Inl e \<Rightarrow> False
          | Inr rr \<Rightarrow> rr_revision rr = wr_revision x \<and> rr_size rr = length content \<and> \<not> rr_truncated rr
              \<and> (if is_probably_binary content then rr_content_base64 rr = Some (base64_encode content)
                 else rr_content rr = Some (utf8_lossy content))"
    using limits(1) by (simp add: file_read_def f(1,4) nd m rd Let_def)
  obtain r where r: "canonical_root t' root = Inr r" "resolve_within_canonical_root t' r path = Inr p"
    using f(1) by (auto simp: resolve_within_root_def split: sum.splits)
  have "verify_write_condition sha t' p (IfMatch expected) = Inl (FsConflict (Some (sha content)))"
    using stale by (simp add: verify_write_condition_def revision_for_file_def rd f(4))
  then have "write_prepare sha fails2 fresh2 root path other limit2 (IfMatch expected) t'
      = (Inl (FsConflict (Some (sha content))), t')"
    using limits(2) by (simp add: write_prepare_def r nd)
  then show "file_write sha fails2 others2 fresh2 root path other limit2 (IfMatch expected) t'
        = (Inl (FsConflict (Some (wr_revision x))), t')"
    by (simp add: file_write_def f(4))
qed

subsection \<open>Base 64\<close>

text \<open>The decoder: four characters at a time.\<close>

definition desextet :: "char \<Rightarrow> nat" where
  "desextet c = length (takeWhile (\<lambda>b. b \<noteq> c) BASE64)"

fun base64_decode :: "string \<Rightarrow> string" where
  "base64_decode (a # b # c # d # rest) =
     (let triple = desextet a * 2 ^ 18 + desextet b * 2 ^ 12
            + (if c = CHR ''='' then 0 else desextet c * 2 ^ 6) + (if d = CHR ''='' then 0 else desextet d)
      in (if c = CHR ''='' then [char_of (triple div 2 ^ 16)]
          else if d = CHR ''='' then [char_of (triple div 2 ^ 16), char_of (triple div 2 ^ 8)]
          else [char_of (triple div 2 ^ 16), char_of (triple div 2 ^ 8), char_of triple])
         @ base64_decode rest)"
| "base64_decode _ = []"

lemma desextet_sextet [simp]: "desextet (sextet n) = n mod 64" and sextet_neq [simp]: "sextet n \<noteq> CHR ''=''"
proof -
  have "list_all (\<lambda>k. desextet (BASE64 ! k) = k \<and> BASE64 ! k \<noteq> CHR ''='') [0..<64]"
    by code_simp
  then have "desextet (BASE64 ! k) = k \<and> BASE64 ! k \<noteq> CHR ''=''" if "k < 64" for k
    using that by (simp add: list_all_iff)
  from this [of "n mod 64"] show "desextet (sextet n) = n mod 64" "sextet n \<noteq> CHR ''=''"
    by (simp_all add: sextet_def)
qed

lemma four_sextets:
  assumes "(v::nat) < 2 ^ 24"
  shows "v div 2 ^ 18 mod 64 * 2 ^ 18 + v div 2 ^ 12 mod 64 * 2 ^ 12 + v div 2 ^ 6 mod 64 * 2 ^ 6 + v mod 64 = v"
proof -
  define x where "x = v div 64"
  define y where "y = x div 64"
  define z where "z = y div 64"
  have e: "v div 2 ^ 6 = x" "v div 2 ^ 12 = y" "v div 2 ^ 18 = z"
    by (simp_all add: x_def y_def z_def flip: div_mult2_eq)
  have "z < 64" using assms by (simp add: e(3) [symmetric] less_mult_imp_div_less)
  moreover have "v = x * 64 + v mod 64" "x = y * 64 + x mod 64" "y = z * 64 + y mod 64"
    by (simp_all add: x_def y_def z_def)
  ultimately show ?thesis unfolding e by simp
qed

lemma three_bytes:
  fixes a b c :: nat
  assumes "a < 256" "b < 256" "c < 256"
  shows "a * 2 ^ 16 + b * 2 ^ 8 + c < 2 ^ 24" "(a * 2 ^ 16 + b * 2 ^ 8 + c) div 2 ^ 16 = a"
    "(a * 2 ^ 16 + b * 2 ^ 8 + c) div 2 ^ 8 mod 256 = b" "(a * 2 ^ 16 + b * 2 ^ 8 + c) mod 256 = c"
proof -
  show "a * 2 ^ 16 + b * 2 ^ 8 + c < 2 ^ 24" using assms by simp
  have "b * 2 ^ 8 + c < 2 ^ 16" using assms by simp
  then show "(a * 2 ^ 16 + b * 2 ^ 8 + c) div 2 ^ 16 = a" by (simp add: add.assoc)
  have "(a * 2 ^ 16 + b * 2 ^ 8 + c) div 2 ^ 8 = a * 256 + b" using assms(3) by simp
  then show "(a * 2 ^ 16 + b * 2 ^ 8 + c) div 2 ^ 8 mod 256 = b" using assms(2) by simp
  have "a * 2 ^ 16 + b * 2 ^ 8 + c = c + 256 * (a * 256 + b)" by simp
  then have "(a * 2 ^ 16 + b * 2 ^ 8 + c) mod 256 = c mod 256" by (simp only: mod_mult_self2)
  then show "(a * 2 ^ 16 + b * 2 ^ 8 + c) mod 256 = c" using assms(3) by simp
qed

lemma char_mod_256: "n mod 256 = of_char c \<Longrightarrow> char_of (n :: nat) = c"
  by (metis char_of_mod_256 char_of_char)

text \<open>The base 64 text of a binary file decodes to its bytes, for every content.\<close>

theorem base64_round_trip: "base64_decode (base64_encode bytes) = bytes"
proof (induction bytes rule: base64_encode.induct)
  case 1
  then show ?case by simp
next
  case (2 a)
  let ?v = "(of_char a :: nat) * 2 ^ 16"
  have "(of_char a :: nat) < 256" by simp
  then have v: "?v < 2 ^ 24" by simp
  have z: "?v div 2 ^ 6 mod 64 = 0" "?v mod 64 = 0" by simp_all
  have t: "?v div 2 ^ 18 mod 64 * 2 ^ 18 + ?v div 2 ^ 12 mod 64 * 2 ^ 12 = ?v"
    using four_sextets [OF v] by (simp only: z mult_zero_left add_0_right)
  show ?case
    by (simp only: base64_encode.simps base64_decode.simps Let_def desextet_sextet sextet_neq if_False if_True
        add_0_right t append_Nil2) simp
next
  case (3 a b)
  let ?v = "(of_char a :: nat) * 2 ^ 16 + of_char b * 2 ^ 8"
  have lt: "(of_char a :: nat) < 256" "(of_char b :: nat) < 256" "(0::nat) < 256" by simp_all
  note v = three_bytes [OF lt, unfolded add_0_right]
  have "?v = 64 * (of_char a * 1024 + of_char b * 4)" by simp
  then have z: "?v mod 64 = 0" by (metis mod_mult_self1_is_0)
  have t: "?v div 2 ^ 18 mod 64 * 2 ^ 18 + ?v div 2 ^ 12 mod 64 * 2 ^ 12 + ?v div 2 ^ 6 mod 64 * 2 ^ 6 = ?v"
    using four_sextets [OF v(1)] by (simp only: z add_0_right)
  show ?case
    by (simp only: base64_encode.simps base64_decode.simps Let_def desextet_sextet sextet_neq if_False if_True
        add_0_right t v(2) append_Nil2 append_Nil append_Cons char_mod_256 [OF v(3)] char_of_char refl)
next
  case (4 a b c bytes)
  let ?v = "(of_char a :: nat) * 2 ^ 16 + of_char b * 2 ^ 8 + of_char c"
  have lt: "(of_char a :: nat) < 256" "(of_char b :: nat) < 256" "(of_char c :: nat) < 256" by simp_all
  note v = three_bytes [OF lt]
  show ?case
    by (simp only: base64_encode.simps base64_decode.simps Let_def desextet_sextet sextet_neq if_False if_True append_Cons append_Nil
        four_sextets [OF v(1)] v(2) char_mod_256 [OF v(3)] char_mod_256 [OF v(4)] char_of_char 4)
qed

subsection \<open>Badges\<close>

definition BADGES :: "string list" where
  "BADGES = [''deleted'', ''modified'', ''added'']"

text \<open>The strongest of some badges.\<close>

definition strongest :: "string list \<Rightarrow> string option" where
  "strongest bs = find (\<lambda>b. b \<in> set bs) BADGES"

lemma merge_badges: "a \<in> set BADGES \<Longrightarrow> b \<in> set BADGES \<Longrightarrow>
    merge_git_badge a b \<in> set BADGES \<and> strongest (a # b # bs) = strongest (merge_git_badge a b # bs)"
  by (auto simp: BADGES_def merge_git_badge_def badge_rank_def strongest_def)

lemma code_badge: "porcelain_code_to_badge code = Some b \<Longrightarrow> b \<in> set BADGES"
proof -
  have h: "porcelain_char_to_badge c = Some x \<Longrightarrow> x \<in> set BADGES" for c x
    by (auto simp: porcelain_char_to_badge_def BADGES_def split: if_splits)
  then show "porcelain_code_to_badge code = Some b \<Longrightarrow> b \<in> set BADGES"
    using merge_badges [OF h h]
    by (auto simp: porcelain_code_to_badge_def split: list.splits option.splits)
qed

lemma index_badges: "snd ` set (build_git_status_index entries) \<subseteq> set BADGES"
proof -
  have step: "snd ` set (index_entry e index) \<subseteq> set BADGES" if "snd ` set index \<subseteq> set BADGES" for e index
  proof (cases "porcelain_code_to_badge (sn_code e)")
    case (Some b)
    note b = code_badge [OF Some]
    let ?p = "replace_char (CHR 0x5C) (CHR ''/'') (trim_end_slashes (sn_path e))"
    show ?thesis
    proof (cases "map_of index ?p")
      case None
      with that b Some show ?thesis by (auto simp: index_entry_def Let_def)
    next
      case (Some old)
      have v: "x \<in> set BADGES" if "(k, x) \<in> set index" for k x
        using that \<open>snd ` set index \<subseteq> set BADGES\<close> by force
      then have "merge_git_badge old b \<in> set BADGES" using map_of_SomeD [OF Some] merge_badges b by blast
      with v have "\<forall>y \<in> set (map (\<lambda>(k, v). (k, if k = ?p then merge_git_badge old b else v)) index). snd y \<in> set BADGES"
        by auto
      then show ?thesis
        using that by (auto simp: index_entry_def Let_def \<open>porcelain_code_to_badge (sn_code e) = Some b\<close> Some
            simp del: set_map)
    qed
  qed (use that in \<open>simp add: index_entry_def\<close>)
  have "snd ` set (fold index_entry entries index) \<subseteq> set BADGES" if "snd ` set index \<subseteq> set BADGES" for index
    using that step by (induction entries arbitrary: index) simp_all
  from this [of "[]"] show ?thesis by (simp add: build_git_status_index_def)
qed

text \<open>The badge of a directory is the strongest badge of what git reports below it (deleted
  before modified before added), and none when it reports nothing there: the result does not
  depend on the order in which the index, a hash map in the code, is walked.
\<close>

theorem directory_badge_is_strongest:
  "let index = build_git_status_index entries in
     badge_below index key = strongest (map snd (filter (\<lambda>(p, badge). starts_with (key @ ''/'') p) index))"
proof -
  let ?f = "\<lambda>(p, badge) best. if starts_with (key @ ''/'') p then merge_best badge best else best"
  let ?in = "\<lambda>index. map snd (filter (\<lambda>(p, badge). starts_with (key @ ''/'') p) index)"
  have some: "fold ?f index (Some b) = strongest (b # ?in index)"
    if "snd ` set index \<subseteq> set BADGES" "b \<in> set BADGES" for index b
    using that
  proof (induction index arbitrary: b)
    case Nil
    then show ?case by (auto simp: strongest_def BADGES_def)
  next
    case (Cons e index)
    obtain p c where e: "e = (p, c)" by (cases e)
    show ?case
    proof (cases "starts_with (key @ ''/'') p")
      case True
      have "c \<in> set BADGES" using Cons.prems(1) by (simp add: e)
      note m = merge_badges [OF Cons.prems(2) this]
      with Cons.IH [of "merge_git_badge b c"] Cons.prems(1) True show ?thesis by (simp add: e merge_best_def)
    next
      case False
      with Cons.IH [OF _ Cons.prems(2)] Cons.prems(1) show ?thesis by (simp add: e)
    qed
  qed
  have "fold ?f index None = strongest (?in index)" if "snd ` set index \<subseteq> set BADGES" for index
    using that
  proof (induction index)
    case Nil
    then show ?case by (simp add: strongest_def BADGES_def)
  next
    case (Cons e index)
    obtain p c where e: "e = (p, c)" by (cases e)
    with Cons some [of index c] show ?case by (simp add: merge_best_def)
  qed
  from this [OF index_badges] show ?thesis by (simp add: badge_below_def Let_def)
qed

subsection \<open>A small project\<close>

definition sample_tree :: file_tree where
  "sample_tree = [([''p''], Directory), ([''p'', ''a''], File ''old''), ([''q''], Directory),
     ([''q'', ''b''], File ''kept'')]"

lemma sample_facts:
  "canonicalize sample_tree [''p''] = Inr [''p'']"
  "resolve_within_canonical_root sample_tree [''p''] ''a'' = Inr [''p'', ''a'']"
  "resolve_within_root sample_tree [''p''] ''a'' = Inr [''p'', ''a'']"
  by code_simp+


lemma sample_unused: "q \<noteq> [] \<Longrightarrow> last q = temp_name ''1'' \<Longrightarrow> node_at sample_tree q = None"
  by (auto simp: node_at_def sample_tree_def temp_name_def split: if_splits)

lemma sample_write:
  "is_ok (fst (file_write (\<lambda>s. s) (\<lambda>c. False) (\<lambda>u. u) ''1'' [''p''] ''a'' ''new'' 9 (IfMatch ''old'') sample_tree))"
  by code_simp


lemma written_file_reads_back_witness:
  "case file_write (\<lambda>s. s) (\<lambda>c. False) (\<lambda>u. u) ''1'' [''p''] ''a'' ''new'' 9 (IfMatch ''old'') sample_tree of
     (Inl e, t') \<Rightarrow> False
   | (Inr x, t') \<Rightarrow>
       (case file_read (\<lambda>s. s) [''p''] ''a'' 9 t' of Inl e \<Rightarrow> False | Inr rr \<Rightarrow> rr_content rr = Some ''new'')
       \<and> file_write (\<lambda>s. s) (\<lambda>c. False) (\<lambda>u. u) ''2'' [''p''] ''a'' ''lost'' 9 (IfMatch ''old'') t'
          = (Inl (FsConflict (Some ''new'')), t')"
proof -
  obtain x t' where w: "file_write (\<lambda>s. s) (\<lambda>c. False) (\<lambda>u. u) ''1'' [''p''] ''a'' ''new'' 9 (IfMatch ''old'') sample_tree = (Inr x, t')"
    using sample_write by (cases "file_write (\<lambda>s. s) (\<lambda>c. False) (\<lambda>u. u) ''1'' [''p''] ''a'' ''new'' 9 (IfMatch ''old'') sample_tree")
      (auto simp: is_ok_iff)
  have name: "last [''p'', ''a''] \<noteq> temp_name ''1''" by (simp add: temp_name_def)
  have rev: "wr_revision x = ''new''" using written_file_is_there(4) [OF w sample_unused sample_facts(3) name] .
  have plain: "\<not> is_probably_binary ''new''" "utf8_lossy ''new'' = ''new''"
    by (simp_all add: is_probably_binary_def continuations_def)
  from written_file_reads_back [OF w sample_unused sample_facts(3) name, of 9 "''lost''" 9 "''old''" "\<lambda>c. False" "\<lambda>u. u" "''2''"]
  show ?thesis by (auto simp: w rev plain simp del: utf8_lossy.simps split: sum.splits)
qed

end
