(* ===== verification/DevServers.thy ===== *)
theory DevServers
  imports TaskPlanning
begin

text \<open>
  \<open>crates/retcon-storage/src/dev_servers.rs\<close> and the part of \<open>recovery.rs\<close> that
  touches its tables: development-server configurations, the instances started from them, the
  leases of local ports and the history of events. The tables sit beside those of the tasks,
  whose rows the scope checks read and whose deletion acts on them through the foreign keys of
  \<open>migrations/0008_durable_dev_servers.sql\<close>. A call takes one clock reading and its fresh
  identifiers as arguments. A \<open>BTreeMap\<close> is the list of its entries in key order; the
  environment is kept decoded.
\<close>

subsection \<open>Rows\<close>

record dev_config =
  dc_id :: uuid
  dc_project_id :: uuid
  dc_worktree_id :: "uuid option"
  dc_name :: string
  dc_command :: string
  dc_cwd :: string
  dc_host :: string
  dc_preferred_port :: "int option"
  dc_auto_start :: bool
  dc_env_allowlist :: "string list"
  dc_environment_keys :: "string list"
  dc_created_at :: millis
  dc_updated_at :: millis

text \<open>A row of \<open>dev_server_configs\<close>: what is read back, and the environment's values.\<close>

record dev_config_row =
  cr_config :: dev_config
  cr_environment :: "(string \<times> string) list"

record new_dev_config =
  nd_id :: uuid
  nd_project_id :: uuid
  nd_worktree_id :: "uuid option"
  nd_name :: string
  nd_command :: string
  nd_cwd :: string
  nd_host :: string
  nd_preferred_port :: "int option"
  nd_auto_start :: bool
  nd_env_allowlist :: "string list"
  nd_environment :: "(string \<times> string) list"

record dev_instance =
  di_id :: uuid
  di_config_id :: uuid
  di_project_id :: uuid
  di_worktree_id :: "uuid option"
  di_task_id :: "uuid option"
  di_port :: int
  di_status :: string
  di_pid :: "int option"
  di_url :: "string option"
  di_preview :: json
  di_log_artifact_hash :: "string option"
  di_failure :: "string option"
  di_created_at :: millis
  di_started_at :: "millis option"
  di_stopped_at :: "millis option"

record port_lease =
  dl_id :: uuid
  dl_port :: int
  dl_project_id :: uuid
  dl_worktree_id :: "uuid option"
  dl_task_id :: "uuid option"
  dl_config_id :: uuid
  dl_instance_id :: "uuid option"
  dl_status :: string
  dl_leased_at :: millis
  dl_released_at :: "millis option"

record dev_event =
  dv_id :: int
  dv_instance_id :: uuid
  dv_config_id :: uuid
  dv_project_id :: uuid
  dv_kind :: string
  dv_actor :: string
  dv_payload :: json
  dv_created_at :: millis

record dev_db =
  dd_tasks :: task_db
  dd_configs :: "dev_config_row list"
  dd_instances :: "dev_instance list"
  dd_leases :: "port_lease list"
  dd_events :: "dev_event list"

subsection \<open>Checks\<close>

definition ascii_hexdigit_lower :: "char \<Rightarrow> bool" where
  "ascii_hexdigit_lower c \<longleftrightarrow>
     ascii_digit c \<or> (97 \<le> (of_char c :: nat) \<and> of_char c \<le> (102 :: nat))"

definition valid_env_key :: "string \<Rightarrow> bool" where
  "valid_env_key k \<longleftrightarrow>
     (case k of [] \<Rightarrow> False
      | c # _ \<Rightarrow> list_all (\<lambda>b. ascii_upper b \<or> ascii_digit b \<or> b = CHR ''_'') k \<and> \<not> ascii_digit c)"

definition validate_port :: "int \<Rightarrow> (storage_error, unit) outcome" where
  "validate_port p =
     (if 1024 \<le> p \<and> p \<le> 65535 then Inr ()
      else Inl (StorageValidation ''dev server port must be between 1024 and 65535''))"

definition validate_dev_actor :: "string \<Rightarrow> (storage_error, unit) outcome" where
  "validate_dev_actor a =
     (if trim a = [] then Inl (StorageValidation ''dev server actor cannot be empty'') else Inr ())"

definition validate_hash :: "string \<Rightarrow> (storage_error, unit) outcome" where
  "validate_hash h =
     (if length h = 64 \<and> list_all ascii_hexdigit_lower h then Inr ()
      else Inl (StorageValidation ''invalid dev server log artifact hash''))"

definition has_nul :: "string \<Rightarrow> bool" where
  "has_nul s \<longleftrightarrow> CHR 0x00 \<in> set s"

definition validate_dev_config :: "new_dev_config \<Rightarrow> (storage_error, unit) outcome" where
  "validate_dev_config c =
     (if trim (nd_name c) = [] \<or> trim (nd_command c) = [] \<or> trim (nd_cwd c) = [] \<or> trim (nd_host c) = []
      then Inl (StorageValidation ''dev server name, command, cwd, and host cannot be empty'')
      else if list_ex has_nul [nd_name c, nd_command c, nd_cwd c, nd_host c]
        \<or> list_ex has_nul (map snd (nd_environment c))
      then Inl (StorageValidation ''dev server configuration cannot contain NUL bytes'')
      else case (case nd_preferred_port c of None \<Rightarrow> Inr () | Some p \<Rightarrow> validate_port p) of
        Inl e \<Rightarrow> Inl e
      | Inr u \<Rightarrow>
          if \<not> distinct (nd_env_allowlist c)
          then Inl (StorageValidation ''environment allowlist keys must be unique'')
          else if \<not> list_all valid_env_key (nd_env_allowlist c)
          then Inl (StorageValidation ''environment allowlist contains an invalid key'')
          else case find (\<lambda>k. \<not> valid_env_key k \<or> k \<notin> set (nd_env_allowlist c)) (map fst (nd_environment c)) of
            Some k \<Rightarrow> Inl (StorageValidation (''environment key '' @ quoted k @ '' is not allowlisted''))
          | None \<Rightarrow> Inr ())"

text \<open>
  \<open>char::is_control\<close> of a character of the text: a byte below 32, the byte 127, or one of
  U+0080 to U+009F, whose encoding is the byte C2 followed by the byte 80 to 9F.
\<close>

fun has_control :: "string \<Rightarrow> bool" where
  "has_control [] = False"
| "has_control (c # cs) =
     ((of_char c :: nat) < 32 \<or> (of_char c :: nat) = 127
      \<or> ((of_char c :: nat) = 194
         \<and> (case cs of [] \<Rightarrow> False | b # _ \<Rightarrow> 128 \<le> (of_char b :: nat) \<and> (of_char b :: nat) \<le> 159))
      \<or> has_control cs)"

definition url_remainder :: "string \<Rightarrow> string option" where
  "url_remainder url =
     (case strip_prefix ''http://'' url of Some r \<Rightarrow> Some r | None \<Rightarrow> strip_prefix ''https://'' url)"

definition url_authority :: "string \<Rightarrow> string" where
  "url_authority remainder =
     to_ascii_lowercase (takeWhile (\<lambda>c. c \<notin> {CHR ''/'', CHR ''?'', CHR ''#''}) remainder)"

definition validate_local_preview_url :: "string \<Rightarrow> int \<Rightarrow> (sql_error, unit) outcome" where
  "validate_local_preview_url url port =
     (case url_remainder url of
        None \<Rightarrow> Inl (validation_error ''development server preview URL must use HTTP or HTTPS'')
      | Some remainder \<Rightarrow>
          let authority = url_authority remainder; expected = decimal_int port
          in if authority \<notin> {''localhost:'' @ expected, ''127.0.0.1:'' @ expected, ''[::1]:'' @ expected}
               \<or> has_control url
             then Inl (validation_error ''development server preview URL must target the leased local port'')
             else Inr ())"

subsection \<open>Scopes and ports\<close>

definition find_config_row :: "uuid \<Rightarrow> dev_db \<Rightarrow> dev_config_row option" where
  "find_config_row i d = find (\<lambda>r. dc_id (cr_config r) = i) (dd_configs d)"

definition find_instance :: "uuid \<Rightarrow> dev_db \<Rightarrow> dev_instance option" where
  "find_instance i d = find (\<lambda>r. di_id r = i) (dd_instances d)"

definition config_identity :: "uuid \<Rightarrow> dev_db \<Rightarrow> (sql_error, uuid \<times> uuid option) outcome" where
  "config_identity i d =
     (case find_config_row i d of
        None \<Rightarrow> Inl (validation_error ''dev server config does not exist'')
      | Some r \<Rightarrow> Inr (dc_project_id (cr_config r), dc_worktree_id (cr_config r)))"

definition validate_task_scope ::
    "dev_db \<Rightarrow> uuid option \<Rightarrow> uuid \<Rightarrow> uuid option \<Rightarrow> (sql_error, uuid option) outcome" where
  "validate_task_scope d task project config_worktree =
     (case task of
        None \<Rightarrow> Inr config_worktree
      | Some i \<Rightarrow>
          (case find_task i (dd_tasks d) of
             None \<Rightarrow> Inl (validation_error ''dev server task does not exist'')
           | Some t \<Rightarrow>
               if tk_project_id t \<noteq> Some project
               then Inl (validation_error ''dev server task belongs to a different project'')
               else if tk_worktree_id t \<noteq> None
                 \<and> Option.bind (tk_worktree_id t) (\<lambda>w. worktree_project w (dd_tasks d)) \<noteq> Some project
               then Inl (validation_error ''dev server task worktree belongs to a different project'')
               else if config_worktree \<noteq> None \<and> tk_worktree_id t \<noteq> config_worktree
               then Inl (validation_error ''dev server task belongs to a different worktree'')
               else Inr (case config_worktree of Some w \<Rightarrow> Some w | None \<Rightarrow> tk_worktree_id t)))"

text \<open>The two lines every scoped operation starts with: the project and worktree it acts in.\<close>

definition scope_of :: "uuid \<Rightarrow> uuid option \<Rightarrow> dev_db \<Rightarrow> (sql_error, uuid \<times> uuid option) outcome" where
  "scope_of config_id task_id d =
     (case config_identity config_id d of
        Inl e \<Rightarrow> Inl e
      | Inr (project, config_worktree) \<Rightarrow>
          map_outcome (\<lambda>w. (project, w)) (validate_task_scope d task_id project config_worktree))"

definition lease_active :: "port_lease \<Rightarrow> bool" where
  "lease_active l \<longleftrightarrow> dl_status l = ''active''"

definition instance_live :: "dev_instance \<Rightarrow> bool" where
  "instance_live i \<longleftrightarrow> di_status i \<in> {''starting'', ''running'', ''stopping''}"

text \<open>Live, or orphaned while its lease is still active: the instance may hold its port.\<close>

definition holds_port :: "port_lease list \<Rightarrow> dev_instance \<Rightarrow> bool" where
  "holds_port leases i \<longleftrightarrow>
     instance_live i
     \<or> (di_status i = ''orphaned''
        \<and> (\<exists>l \<in> set leases. dl_instance_id l = Some (di_id i) \<and> lease_active l))"

definition has_active_instance :: "uuid \<Rightarrow> uuid option \<Rightarrow> dev_db \<Rightarrow> bool" where
  "has_active_instance config_id task_id d \<longleftrightarrow>
     (\<exists>i \<in> set (dd_instances d). di_config_id i = config_id \<and> di_task_id i = task_id
        \<and> holds_port (dd_leases d) i)"

definition port_used :: "int \<Rightarrow> dev_db \<Rightarrow> bool" where
  "port_used p d \<longleftrightarrow> (\<exists>l \<in> set (dd_leases d). dl_port l = p \<and> lease_active l)"

type_synonym port_owner = "uuid \<times> uuid option \<times> uuid option \<times> uuid"

definition lease_owner :: "port_lease \<Rightarrow> port_owner" where
  "lease_owner l = (dl_project_id l, dl_worktree_id l, dl_task_id l, dl_config_id l)"

definition lease_of :: "port_owner \<Rightarrow> port_lease \<Rightarrow> bool" where
  "lease_of owner l \<longleftrightarrow> lease_owner l = owner \<and> lease_active l"

definition release_leases :: "millis \<Rightarrow> (port_lease \<Rightarrow> bool) \<Rightarrow> dev_db \<Rightarrow> dev_db" where
  "release_leases now p d = d\<lparr>dd_leases := update_rows p
     (\<lambda>l. l\<lparr>dl_status := ''released'', dl_released_at := Some now\<rparr>) (dd_leases d)\<rparr>"

text \<open>The insertion of an active lease, with the key, the checks and the two unique indexes it meets.\<close>

definition insert_lease ::
    "millis \<Rightarrow> uuid \<Rightarrow> int \<Rightarrow> port_owner \<Rightarrow> dev_db \<Rightarrow> (sql_error, dev_db) outcome" where
  "insert_lease now i port owner d =
     (if \<exists>l \<in> set (dd_leases d). dl_id l = i then Inl (SqlConstraint ''dev_server_port_leases.id'')
      else if port < 1024 \<or> 65535 < port then Inl (SqlConstraint ''port BETWEEN 1024 AND 65535'')
      else if port_used port d then Inl (SqlConstraint ''idx_dev_server_active_port'')
      else if \<exists>l \<in> set (dd_leases d). lease_of owner l then Inl (SqlConstraint ''idx_dev_server_active_owner'')
      else case owner of (project, worktree, task, config) \<Rightarrow>
        Inr (d\<lparr>dd_leases := dd_leases d @
          [\<lparr>dl_id = i, dl_port = port, dl_project_id = project, dl_worktree_id = worktree,
            dl_task_id = task, dl_config_id = config, dl_instance_id = None,
            dl_status = ''active'', dl_leased_at = now, dl_released_at = None\<rparr>]\<rparr>))"

definition SERVER_PORTS :: "int list" where
  "SERVER_PORTS = [3000..9999]"

definition find_available_port :: "int option \<Rightarrow> dev_db \<Rightarrow> (sql_error, int) outcome" where
  "find_available_port preferred d =
     (case (case preferred of None \<Rightarrow> None | Some p \<Rightarrow> if port_used p d then None else Some p) of
        Some p \<Rightarrow> Inr p
      | None \<Rightarrow>
          (case find (\<lambda>p. \<not> port_used p d) SERVER_PORTS of
             Some p \<Rightarrow> Inr p
           | None \<Rightarrow> Inl (validation_error ''no development server port is available'')))"

definition record_dev_event ::
    "millis \<Rightarrow> uuid \<Rightarrow> uuid \<Rightarrow> uuid \<Rightarrow> string \<Rightarrow> string \<Rightarrow> json \<Rightarrow> dev_db \<Rightarrow> dev_db" where
  "record_dev_event now i config project kind actor payload d =
     d\<lparr>dd_events := dd_events d @
        [\<lparr>dv_id = foldl max 0 (map dv_id (dd_events d)) + 1, dv_instance_id = i, dv_config_id = config,
          dv_project_id = project, dv_kind = kind, dv_actor = actor, dv_payload = payload,
          dv_created_at = now\<rparr>]\<rparr>"

subsection \<open>Configurations\<close>

text \<open>\<open>idx_dev_server_config_name_owner\<close>: another row with the same project, worktree and name.\<close>

definition config_name_taken :: "dev_config \<Rightarrow> dev_db \<Rightarrow> bool" where
  "config_name_taken c d \<longleftrightarrow>
     (\<exists>r \<in> set (dd_configs d). dc_id (cr_config r) \<noteq> dc_id c
        \<and> dc_project_id (cr_config r) = dc_project_id c
        \<and> dc_worktree_id (cr_config r) = dc_worktree_id c \<and> dc_name (cr_config r) = dc_name c)"

definition config_row_of :: "millis \<Rightarrow> millis \<Rightarrow> new_dev_config \<Rightarrow> dev_config_row" where
  "config_row_of created now c =
     \<lparr>cr_config =
        \<lparr>dc_id = nd_id c, dc_project_id = nd_project_id c, dc_worktree_id = nd_worktree_id c,
         dc_name = trim (nd_name c), dc_command = trim (nd_command c), dc_cwd = trim (nd_cwd c),
         dc_host = trim (nd_host c), dc_preferred_port = nd_preferred_port c,
         dc_auto_start = nd_auto_start c, dc_env_allowlist = nd_env_allowlist c,
         dc_environment_keys = map fst (nd_environment c), dc_created_at = created,
         dc_updated_at = now\<rparr>,
      cr_environment = nd_environment c\<rparr>"

definition upsert_config :: "millis \<Rightarrow> new_dev_config \<Rightarrow> dev_db \<Rightarrow> (sql_error, unit \<times> dev_db) outcome" where
  "upsert_config now c d =
     (case find_config_row (nd_id c) d of
        Some r \<Rightarrow>
          if dc_project_id (cr_config r) \<noteq> nd_project_id c
          then Inl (validation_error ''dev server config belongs to a different project'')
          else (let row = config_row_of (dc_created_at (cr_config r)) now c
                in if config_name_taken (cr_config row) d
                   then Inl (SqlConstraint ''idx_dev_server_config_name_owner'')
                   else Inr ((), d\<lparr>dd_configs := update_rows (\<lambda>r. dc_id (cr_config r) = nd_id c)
                                     (\<lambda>r. row) (dd_configs d)\<rparr>))
      | None \<Rightarrow>
          (let row = config_row_of now now c
           in if config_name_taken (cr_config row) d
              then Inl (SqlConstraint ''idx_dev_server_config_name_owner'')
              else Inr ((), d\<lparr>dd_configs := dd_configs d @ [row]\<rparr>)))"

definition config_by_id :: "uuid \<Rightarrow> dev_db \<Rightarrow> dev_config option" where
  "config_by_id i d = map_option cr_config (find_config_row i d)"

definition launch_config :: "uuid \<Rightarrow> dev_db \<Rightarrow> dev_config_row option" where
  "launch_config i d = find_config_row i d"

definition save_config_tx :: "millis \<Rightarrow> new_dev_config \<Rightarrow> dev_db \<Rightarrow> (sql_error, unit \<times> dev_db) outcome" where
  "save_config_tx now c d =
     (if \<not> project_exists (Some (nd_project_id c)) (dd_tasks d)
      then Inl (validation_error ''dev server project does not exist'')
      else case (case nd_worktree_id c of
          None \<Rightarrow> Inr ()
        | Some w \<Rightarrow>
            (case worktree_project w (dd_tasks d) of
               None \<Rightarrow> Inl (validation_error ''dev server worktree does not exist'')
             | Some p \<Rightarrow> check (p = nd_project_id c)
                           ''dev server worktree belongs to a different project'')) of
        Inl e \<Rightarrow> Inl e
      | Inr u \<Rightarrow> upsert_config now c d)"

definition save_config ::
    "millis \<Rightarrow> new_dev_config \<Rightarrow> dev_db \<Rightarrow> (storage_error, dev_config) outcome \<times> dev_db" where
  "save_config now c d =
     checked (validate_dev_config c) d
       (reading (config_by_id (nd_id c)) ''saved dev server config disappeared''
         (validated (save_config_tx now c) d))"

definition list_dev_configs :: "uuid \<Rightarrow> dev_db \<Rightarrow> dev_config list" where
  "list_dev_configs project d =
     sort_key dc_name (sort_key dc_id
       (filter (\<lambda>c. dc_project_id c = project) (map cr_config (dd_configs d))))"

text \<open>\<open>NULL\<close> sorts before every identifier.\<close>

definition null_first :: "uuid option \<Rightarrow> nat" where
  "null_first w = (case w of None \<Rightarrow> 0 | Some i \<Rightarrow> Suc i)"

definition list_auto_start_configs :: "dev_db \<Rightarrow> dev_config list" where
  "list_auto_start_configs d =
     sort_key dc_project_id (sort_key (\<lambda>c. null_first (dc_worktree_id c)) (sort_key dc_name
       (sort_key dc_id (filter dc_auto_start (map cr_config (dd_configs d))))))"

definition set_auto_start :: "millis \<Rightarrow> uuid \<Rightarrow> bool \<Rightarrow> dev_db \<Rightarrow> dev_config option \<times> dev_db" where
  "set_auto_start now i enabled d =
     (let p = (\<lambda>r. dc_id (cr_config r) = i);
          d' = d\<lparr>dd_configs := update_rows p (\<lambda>r. r\<lparr>cr_config :=
                   (cr_config r)\<lparr>dc_auto_start := enabled, dc_updated_at := now\<rparr>\<rparr>) (dd_configs d)\<rparr>
      in (if 0 < count_rows p (dd_configs d) then config_by_id i d' else None, d'))"

subsection \<open>Leases and instances\<close>

definition find_lease :: "uuid \<Rightarrow> dev_db \<Rightarrow> port_lease option" where
  "find_lease i d = find (\<lambda>l. dl_id l = i) (dd_leases d)"

definition assign_port_tx ::
    "millis \<Rightarrow> uuid \<Rightarrow> uuid \<Rightarrow> uuid option \<Rightarrow> int \<Rightarrow> dev_db \<Rightarrow> (sql_error, unit \<times> dev_db) outcome" where
  "assign_port_tx now lease_id config_id task_id port d =
     (case scope_of config_id task_id d of
        Inl e \<Rightarrow> Inl e
      | Inr (project, worktree) \<Rightarrow>
          let owner = (project, worktree, task_id, config_id)
          in if has_active_instance config_id task_id d
             then Inl (validation_error ''cannot change the port of an active development server'')
             else if port_used port d
             then Inl (validation_error (''port '' @ decimal_int port @ '' is already leased''))
             else map_outcome (\<lambda>d'. ((), d'))
                    (insert_lease now lease_id port owner (release_leases now (lease_of owner) d)))"

definition assign_port ::
    "millis \<Rightarrow> uuid \<Rightarrow> uuid \<Rightarrow> uuid option \<Rightarrow> int \<Rightarrow> string \<Rightarrow> dev_db
      \<Rightarrow> (storage_error, port_lease) outcome \<times> dev_db" where
  "assign_port now lease_id config_id task_id port actor d =
     checked (validate_port port) d (checked (validate_dev_actor actor) d
       (reading (find_lease lease_id) ''created port lease disappeared''
         (validated (assign_port_tx now lease_id config_id task_id port) d)))"

definition release_port_tx ::
    "millis \<Rightarrow> uuid \<Rightarrow> uuid option \<Rightarrow> dev_db \<Rightarrow> (sql_error, bool \<times> dev_db) outcome" where
  "release_port_tx now config_id task_id d =
     (case scope_of config_id task_id d of
        Inl e \<Rightarrow> Inl e
      | Inr (project, worktree) \<Rightarrow>
          let owner = (project, worktree, task_id, config_id)
          in if has_active_instance config_id task_id d
             then Inl (validation_error ''cannot release the port of an active development server'')
             else Inr (0 < count_rows (lease_of owner) (dd_leases d), release_leases now (lease_of owner) d))"

definition release_port ::
    "millis \<Rightarrow> uuid \<Rightarrow> uuid option \<Rightarrow> dev_db \<Rightarrow> (storage_error, bool) outcome \<times> dev_db" where
  "release_port now config_id task_id d = validated (release_port_tx now config_id task_id) d"

text \<open>The lease a start uses: the active one of the owner, or a new one of an available port.\<close>

definition lease_for_start ::
    "millis \<Rightarrow> uuid \<Rightarrow> port_owner \<Rightarrow> int option \<Rightarrow> dev_db \<Rightarrow> (sql_error, (uuid \<times> int) \<times> dev_db) outcome" where
  "lease_for_start now fresh owner preferred d =
     (case find (lease_of owner) (dd_leases d) of
        Some l \<Rightarrow> Inr ((dl_id l, dl_port l), d)
      | None \<Rightarrow>
          (case find_available_port preferred d of
             Inl e \<Rightarrow> Inl e
           | Inr port \<Rightarrow> map_outcome (\<lambda>d'. ((fresh, port), d')) (insert_lease now fresh port owner d)))"

definition insert_instance ::
    "millis \<Rightarrow> uuid \<Rightarrow> port_owner \<Rightarrow> int \<Rightarrow> dev_db \<Rightarrow> (sql_error, dev_db) outcome" where
  "insert_instance now i owner port d =
     (if \<exists>r \<in> set (dd_instances d). di_id r = i then Inl (SqlConstraint ''dev_server_instances.id'')
      else if port < 1024 \<or> 65535 < port then Inl (SqlConstraint ''port BETWEEN 1024 AND 65535'')
      else case owner of (project, worktree, task, config) \<Rightarrow>
        Inr (d\<lparr>dd_instances := dd_instances d @
          [\<lparr>di_id = i, di_config_id = config, di_project_id = project, di_worktree_id = worktree,
            di_task_id = task, di_port = port, di_status = ''starting'', di_pid = None, di_url = None,
            di_preview = JObj [], di_log_artifact_hash = None, di_failure = None,
            di_created_at = now, di_started_at = None, di_stopped_at = None\<rparr>]\<rparr>))"

definition set_lease_instance :: "uuid \<Rightarrow> uuid \<Rightarrow> dev_db \<Rightarrow> dev_db" where
  "set_lease_instance lease_id i d = d\<lparr>dd_leases := update_rows (\<lambda>l. dl_id l = lease_id)
     (\<lambda>l. l\<lparr>dl_instance_id := Some i\<rparr>) (dd_leases d)\<rparr>"

definition prepare_start_tx ::
    "millis \<Rightarrow> uuid \<Rightarrow> uuid \<Rightarrow> uuid \<Rightarrow> uuid option \<Rightarrow> string \<Rightarrow> dev_db \<Rightarrow> (sql_error, unit \<times> dev_db) outcome"
  where
  "prepare_start_tx now instance_id fresh_lease config_id task_id actor d =
     (case scope_of config_id task_id d of
        Inl e \<Rightarrow> Inl e
      | Inr (project, worktree) \<Rightarrow>
          let owner = (project, worktree, task_id, config_id)
          in if has_active_instance config_id task_id d
             then Inl (validation_error ''this development server already has an active instance'')
             else case lease_for_start now fresh_lease owner
                    (Option.bind (config_by_id config_id d) dc_preferred_port) d of
               Inl e \<Rightarrow> Inl e
             | Inr ((lease_id, port), d1) \<Rightarrow>
                 (case insert_instance now instance_id owner port d1 of
                    Inl e \<Rightarrow> Inl e
                  | Inr d2 \<Rightarrow>
                      Inr ((), record_dev_event now instance_id config_id project ''starting'' actor
                        (JObj [(''port'', json_int port)]) (set_lease_instance lease_id instance_id d2))))"

definition prepare_start ::
    "millis \<Rightarrow> uuid \<Rightarrow> uuid \<Rightarrow> uuid \<Rightarrow> uuid option \<Rightarrow> string \<Rightarrow> dev_db
      \<Rightarrow> (storage_error, dev_instance) outcome \<times> dev_db" where
  "prepare_start now instance_id fresh_lease config_id task_id actor d =
     checked (validate_dev_actor actor) d
       (reading (find_instance instance_id) ''created server instance disappeared''
         (validated (prepare_start_tx now instance_id fresh_lease config_id task_id actor) d))"

subsection \<open>The life of an instance\<close>

definition transition_valid :: "string \<Rightarrow> string \<Rightarrow> bool" where
  "transition_valid current status \<longleftrightarrow>
     (if status = ''running'' then current = ''starting''
      else if status = ''stopping'' then current \<in> {''starting'', ''running''}
      else if status = ''stopped'' then current = ''stopping''
      else if status = ''failed'' \<or> status = ''orphaned''
      then current \<in> {''starting'', ''running'', ''stopping''}
      else False)"

definition coalesce :: "'a option \<Rightarrow> 'a option \<Rightarrow> 'a option" where
  "coalesce a b = (case a of Some v \<Rightarrow> Some v | None \<Rightarrow> b)"

definition transitioned ::
    "millis \<Rightarrow> string \<Rightarrow> int option \<Rightarrow> string option \<Rightarrow> json option \<Rightarrow> string option
      \<Rightarrow> dev_instance \<Rightarrow> dev_instance" where
  "transitioned now status pid url preview failure i =
     i\<lparr>di_status := status, di_pid := coalesce pid (di_pid i), di_url := coalesce url (di_url i),
       di_preview := (case preview of Some v \<Rightarrow> v | None \<Rightarrow> di_preview i), di_failure := failure,
       di_started_at := (if status = ''running'' then coalesce (di_started_at i) (Some now)
                         else di_started_at i),
       di_stopped_at := (if status = ''stopped'' \<or> status = ''failed'' then Some now
                         else di_stopped_at i)\<rparr>"

definition check_running :: "int option \<Rightarrow> string option \<Rightarrow> int \<Rightarrow> (sql_error, unit) outcome" where
  "check_running pid url port =
     (if (case pid of Some v \<Rightarrow> v \<le> 0 | None \<Rightarrow> False)
      then Inl (validation_error ''development server runtime returned an invalid process identifier'')
      else case url of
        None \<Rightarrow> Inl (validation_error ''development server runtime did not return a preview URL'')
      | Some u \<Rightarrow> validate_local_preview_url u port)"

definition update_instance :: "uuid \<Rightarrow> (dev_instance \<Rightarrow> dev_instance) \<Rightarrow> dev_db \<Rightarrow> dev_db" where
  "update_instance i f d = d\<lparr>dd_instances := update_rows (\<lambda>r. di_id r = i) f (dd_instances d)\<rparr>"

definition lease_held_by :: "uuid \<Rightarrow> port_lease \<Rightarrow> bool" where
  "lease_held_by i l \<longleftrightarrow> dl_instance_id l = Some i \<and> lease_active l"

definition transition_tx ::
    "millis \<Rightarrow> uuid \<Rightarrow> string \<Rightarrow> int option \<Rightarrow> string option \<Rightarrow> json option \<Rightarrow> string option \<Rightarrow> string
      \<Rightarrow> bool \<Rightarrow> dev_db \<Rightarrow> (sql_error, bool \<times> dev_db) outcome" where
  "transition_tx now i status pid url preview failure actor release d =
     (case find_instance i d of
        None \<Rightarrow> Inr (False, d)
      | Some r \<Rightarrow>
          if \<not> transition_valid (di_status r) status
          then Inl (validation_error (''cannot transition development server from '' @
                 quoted (di_status r) @ '' to '' @ quoted status))
          else case (if status = ''running'' then check_running pid url (di_port r) else Inr ()) of
            Inl e \<Rightarrow> Inl e
          | Inr u \<Rightarrow>
              let d1 = update_instance i (transitioned now status pid url preview failure) d;
                  d2 = (if release then release_leases now (lease_held_by i) d1 else d1)
              in Inr (True, record_dev_event now i (di_config_id r) (di_project_id r) status actor
                   (JObj [(''failure'', json_opt JStr failure)]) d2))"

text \<open>What \<open>transition\<close>, \<open>mark_exited\<close> and \<open>reassign_instance_port\<close> end with: the instance is read back.\<close>

definition reading_instance ::
    "uuid \<Rightarrow> (storage_error, bool) outcome \<times> dev_db
      \<Rightarrow> (storage_error, dev_instance option) outcome \<times> dev_db" where
  "reading_instance i r = (map_outcome (\<lambda>b. find_instance i (snd r)) (fst r), snd r)"

definition transition ::
    "millis \<Rightarrow> uuid \<Rightarrow> string \<Rightarrow> int option \<Rightarrow> string option \<Rightarrow> json option \<Rightarrow> string option \<Rightarrow> string
      \<Rightarrow> bool \<Rightarrow> dev_db \<Rightarrow> (storage_error, dev_instance option) outcome \<times> dev_db" where
  "transition now i status pid url preview failure actor release d =
     checked (validate_dev_actor actor) d (reading_instance i
       (validated (transition_tx now i status pid url preview failure actor release) d))"

definition mark_running where
  "mark_running now i pid url preview actor =
     transition now i ''running'' pid (Some url) (Some preview) None actor False"

definition begin_stop where
  "begin_stop now i actor = transition now i ''stopping'' None None None None actor False"

definition mark_stopped where
  "mark_stopped now i actor = transition now i ''stopped'' None None None None actor True"

definition mark_failed where
  "mark_failed now i failure actor = transition now i ''failed'' None None None (Some failure) actor True"

definition mark_orphaned where
  "mark_orphaned now i failure actor =
     transition now i ''orphaned'' None None None (Some failure) actor False"

definition mark_exited_tx ::
    "millis \<Rightarrow> uuid \<Rightarrow> string \<Rightarrow> dev_db \<Rightarrow> (sql_error, bool \<times> dev_db) outcome" where
  "mark_exited_tx now i actor d =
     (case find_instance i d of
        None \<Rightarrow> Inr (False, d)
      | Some r \<Rightarrow>
          if di_status r \<noteq> ''running''
          then Inl (validation_error (''cannot record a runtime exit while development server is '' @
                 quoted (di_status r)))
          else Inr (True, record_dev_event now i (di_config_id r) (di_project_id r) ''runtime_exited'' actor
                 (JObj []) (release_leases now (lease_held_by i)
                   (update_instance i (\<lambda>r. r\<lparr>di_status := ''stopped'', di_stopped_at := Some now\<rparr>) d))))"

definition mark_exited ::
    "millis \<Rightarrow> uuid \<Rightarrow> string \<Rightarrow> dev_db \<Rightarrow> (storage_error, dev_instance option) outcome \<times> dev_db" where
  "mark_exited now i actor d =
     checked (validate_dev_actor actor) d (reading_instance i (validated (mark_exited_tx now i actor) d))"

text \<open>The unique index on active ports, after an update of the leases.\<close>

definition active_ports_distinct :: "dev_db \<Rightarrow> bool" where
  "active_ports_distinct d \<longleftrightarrow> distinct (map dl_port (filter lease_active (dd_leases d)))"

definition reassign_port_tx ::
    "millis \<Rightarrow> uuid \<Rightarrow> int \<Rightarrow> string \<Rightarrow> dev_db \<Rightarrow> (sql_error, bool \<times> dev_db) outcome" where
  "reassign_port_tx now i port actor d =
     (case find_instance i d of
        None \<Rightarrow> Inr (False, d)
      | Some r \<Rightarrow>
          if di_status r \<noteq> ''starting''
          then Inl (validation_error ''only a starting development server may reassign its port'')
          else if di_port r = port then Inr (True, d)
          else if \<exists>l \<in> set (dd_leases d). dl_port l = port \<and> lease_active l \<and> dl_instance_id l \<noteq> Some i
          then Inl (validation_error (''port '' @ decimal_int port @ '' is already leased''))
          else
            let d1 = d\<lparr>dd_leases := update_rows (lease_held_by i) (\<lambda>l. l\<lparr>dl_port := port\<rparr>) (dd_leases d)\<rparr>
            in if \<not> active_ports_distinct d1 then Inl (SqlConstraint ''idx_dev_server_active_port'')
               else if count_rows (lease_held_by i) (dd_leases d) \<noteq> 1
               then Inl (validation_error ''development server has no active port lease'')
               else Inr (True, record_dev_event now i (di_config_id r) (di_project_id r) ''port_changed'' actor
                      (JObj [(''from'', json_int (di_port r)), (''to'', json_int port)])
                      (update_instance i (\<lambda>r. r\<lparr>di_port := port\<rparr>) d1)))"

definition reassign_instance_port ::
    "millis \<Rightarrow> uuid \<Rightarrow> int \<Rightarrow> string \<Rightarrow> dev_db
      \<Rightarrow> (storage_error, dev_instance option) outcome \<times> dev_db" where
  "reassign_instance_port now i port actor d =
     checked (validate_port port) d (checked (validate_dev_actor actor) d
       (reading_instance i (validated (reassign_port_tx now i port actor) d)))"

definition record_runtime_event ::
    "millis \<Rightarrow> uuid \<Rightarrow> string \<Rightarrow> string \<Rightarrow> json \<Rightarrow> dev_db \<Rightarrow> (storage_error, bool) outcome \<times> dev_db" where
  "record_runtime_event now i kind actor payload d =
     checked (validate_dev_actor actor) d
       (if trim kind = []
        then (Inl (StorageValidation ''development server event kind cannot be empty''), d)
        else transaction (\<lambda>d. case find_instance i d of
               None \<Rightarrow> Inr (False, d)
             | Some r \<Rightarrow> Inr (True, record_dev_event now i (di_config_id r) (di_project_id r) kind actor payload d)) d)"

definition set_log_artifact ::
    "uuid \<Rightarrow> string \<Rightarrow> dev_db \<Rightarrow> (storage_error, bool) outcome \<times> dev_db" where
  "set_log_artifact i hash d =
     checked (validate_hash hash) d
       (Inr (0 < count_rows (\<lambda>r. di_id r = i) (dd_instances d)),
        update_instance i (\<lambda>r. r\<lparr>di_log_artifact_hash := Some hash\<rparr>) d)"

definition list_instances :: "uuid \<Rightarrow> dev_db \<Rightarrow> dev_instance list" where
  "list_instances project d =
     sort_key (\<lambda>r. - di_created_at r) (sort_key (\<lambda>r. - int (di_id r))
       (filter (\<lambda>r. di_project_id r = project) (dd_instances d)))"

definition dev_history :: "uuid \<Rightarrow> dev_db \<Rightarrow> dev_event list" where
  "dev_history i d = sort_key dv_id (filter (\<lambda>e. dv_instance_id e = i) (dd_events d))"

subsection \<open>Restart and deletion of tasks\<close>

text \<open>
  The statements of \<open>recover_interrupted\<close> on the tables above: an event for every live
  instance, then the instances, then the leases. The result counts instances and leases.
\<close>

definition orphaned_by_restart :: "millis \<Rightarrow> dev_instance \<Rightarrow> dev_instance" where
  "orphaned_by_restart now i = i\<lparr>di_status := ''orphaned'', di_pid := None,
     di_failure := Some ''core process restarted'', di_stopped_at := Some now\<rparr>"

definition recover_dev_servers :: "millis \<Rightarrow> dev_db \<Rightarrow> (nat \<times> nat) \<times> dev_db" where
  "recover_dev_servers now d =
     (let interrupted = filter instance_live (dd_instances d);
          d1 = fold (\<lambda>i. record_dev_event now (di_id i) (di_config_id i) (di_project_id i) ''orphaned''
                 ''system'' (JObj [(''reason'', JStr ''process_restart'')])) interrupted d;
          d2 = d1\<lparr>dd_instances := update_rows instance_live
                 (orphaned_by_restart now) (dd_instances d1)\<rparr>;
          d3 = d2\<lparr>dd_instances := update_rows
                 (\<lambda>i. di_status i = ''orphaned'' \<and> (\<exists>l \<in> set (dd_leases d2). lease_held_by (di_id i) l))
                 (\<lambda>i. i\<lparr>di_pid := None\<rparr>) (dd_instances d2)\<rparr>;
          p = (\<lambda>l. lease_active l \<and> dl_instance_id l \<noteq> None)
      in ((length interrupted, count_rows p (dd_leases d3)),
          d3\<lparr>dd_leases := update_rows p (\<lambda>l. l\<lparr>dl_status := ''stale'', dl_released_at := Some now\<rparr>)
               (dd_leases d3)\<rparr>))"

text \<open>
  \<open>DELETE FROM tasks\<close> with the foreign keys of these tables: the instances of the task lose
  it (\<open>ON DELETE SET NULL\<close>), its leases are deleted (\<open>ON DELETE CASCADE\<close>).
\<close>

definition delete_task_with_servers :: "uuid \<Rightarrow> dev_db \<Rightarrow> bool \<times> dev_db" where
  "delete_task_with_servers i d =
     (let (found, tasks) = delete_task i (dd_tasks d)
      in (found,
          if find_task i (dd_tasks d) = None then d
          else d\<lparr>dd_tasks := tasks,
                 dd_instances := update_rows (\<lambda>r. di_task_id r = Some i)
                   (\<lambda>r. r\<lparr>di_task_id := None\<rparr>) (dd_instances d),
                 dd_leases := delete_rows (\<lambda>l. dl_task_id l = Some i) (dd_leases d)\<rparr>))"

end
