(* ===== verification/Browser.thy ===== *)
theory Browser
  imports DevServers
begin

text \<open>
  \<open>crates/retcon-storage/src/browser.rs\<close> and the statements of \<open>recovery.rs\<close> on its
  tables: the managed browser sessions with their profiles, tabs, observations, console and network
  entries, takeovers and history. The tables sit beside those of the development servers, which the
  scope of a session reads; deleting a task acts on them through the foreign keys of
  \<open>migrations/0009_durable_browser.sql\<close>. Rows written before that migration, which have no
  project, are invisible to every operation and are left out. A call takes one clock reading and its
  fresh identifiers as arguments; a payload is kept decoded.
\<close>

definition MAX_HISTORY_ENTRIES :: nat where "MAX_HISTORY_ENTRIES = 1000"

subsection \<open>Rows\<close>

record new_browser_session =
  nw_id :: uuid
  nw_project_id :: uuid
  nw_task_id :: "uuid option"
  nw_dev_server_instance_id :: "uuid option"
  nw_profile_id :: uuid
  nw_profile_path :: string
  nw_persistent_profile :: bool
  nw_network_policy :: string

record browser_session =
  bs_id :: uuid
  bs_project_id :: uuid
  bs_task_id :: "uuid option"
  bs_worktree_id :: "uuid option"
  bs_dev_server_instance_id :: "uuid option"
  bs_profile_id :: uuid
  bs_status :: string
  bs_service_session_id :: "string option"
  bs_service_version :: "string option"
  bs_service_protocol :: "int option"
  bs_network_policy :: string
  bs_failure :: "string option"
  bs_started_at :: millis
  bs_updated_at :: millis
  bs_ended_at :: "millis option"

record browser_profile =
  bp_id :: uuid
  bp_project_id :: uuid
  bp_worktree_id :: "uuid option"
  bp_task_id :: "uuid option"
  bp_path :: string
  bp_persistent :: bool
  bp_status :: string
  bp_created_at :: millis
  bp_updated_at :: millis
  bp_released_at :: "millis option"

record browser_tab =
  bt_id :: uuid
  bt_session_id :: uuid
  bt_service_tab_id :: string
  bt_url :: "string option"
  bt_title :: "string option"
  bt_status :: string
  bt_created_at :: millis
  bt_updated_at :: millis
  bt_closed_at :: "millis option"

record browser_observation =
  bo_id :: uuid
  bo_session_id :: uuid
  bo_tab_id :: "uuid option"
  bo_kind :: string
  bo_artifact_hash :: string
  bo_mime_type :: string
  bo_size_bytes :: int
  bo_metadata :: json
  bo_created_at :: millis

record browser_history_event =
  bh_id :: int
  bh_session_id :: uuid
  bh_project_id :: uuid
  bh_kind :: string
  bh_actor :: string
  bh_payload :: json
  bh_created_at :: millis

record browser_takeover =
  tk_over_id :: uuid
  tk_over_session_id :: uuid
  tk_over_actor :: string
  tk_over_reason :: "string option"
  tk_over_started_at :: millis
  tk_over_ended_at :: "millis option"
  tk_over_end_reason :: "string option"

text \<open>A row of \<open>browser_console_entries\<close> or \<open>browser_network_entries\<close>.\<close>

record log_entry =
  le_id :: int
  le_session_id :: uuid
  le_payload :: json
  le_created_at :: millis

record browser_db =
  bd_servers :: dev_db
  bd_profiles :: "browser_profile list"
  bd_sessions :: "browser_session list"
  bd_tabs :: "browser_tab list"
  bd_takeovers :: "browser_takeover list"
  bd_observations :: "browser_observation list"
  bd_history :: "browser_history_event list"
  bd_console :: "log_entry list"
  bd_network :: "log_entry list"

subsection \<open>Checks\<close>

definition validate_browser_actor :: "string \<Rightarrow> (storage_error, unit) outcome" where
  "validate_browser_actor a =
     (if trim a = [] then Inl (StorageValidation ''browser actor cannot be empty'') else Inr ())"

definition validate_new_session ::
    "new_browser_session \<Rightarrow> string \<Rightarrow> (storage_error, unit) outcome" where
  "validate_new_session n actor =
     (case validate_browser_actor actor of
        Inl e \<Rightarrow> Inl e
      | Inr u \<Rightarrow>
          if trim (nw_profile_path n) = [] \<or> 32768 < length (nw_profile_path n) \<or> has_nul (nw_profile_path n)
          then Inl (StorageValidation ''browser profile path is invalid'')
          else if nw_network_policy n \<notin> {''loopback'', ''network''}
          then Inl (StorageValidation (''browser network policy must be '' @ quoted ''loopback'' @ '' or ''
                 @ quoted ''network''))
          else Inr ())"

definition validate_browser_hash :: "string \<Rightarrow> (storage_error, unit) outcome" where
  "validate_browser_hash h =
     (if length h = 64 \<and> list_all ascii_hexdigit_lower h then Inr ()
      else Inl (StorageValidation ''invalid browser artifact hash''))"

subsection \<open>Lookups\<close>

definition find_browser_session :: "uuid \<Rightarrow> browser_db \<Rightarrow> browser_session option" where
  "find_browser_session i d = find (\<lambda>s. bs_id s = i) (bd_sessions d)"

definition find_profile :: "uuid \<Rightarrow> browser_db \<Rightarrow> browser_profile option" where
  "find_profile i d = find (\<lambda>p. bp_id p = i) (bd_profiles d)"

definition find_tab :: "uuid \<Rightarrow> browser_db \<Rightarrow> browser_tab option" where
  "find_tab i d = find (\<lambda>t. bt_id t = i) (bd_tabs d)"

definition tab_by_service_id :: "uuid \<Rightarrow> string \<Rightarrow> browser_db \<Rightarrow> browser_tab option" where
  "tab_by_service_id session service_tab d =
     find (\<lambda>t. bt_session_id t = session \<and> bt_service_tab_id t = service_tab) (bd_tabs d)"

definition find_observation :: "uuid \<Rightarrow> browser_db \<Rightarrow> browser_observation option" where
  "find_observation i d = find (\<lambda>r. bo_id r = i) (bd_observations d)"

definition find_takeover :: "uuid \<Rightarrow> browser_db \<Rightarrow> browser_takeover option" where
  "find_takeover i d = find (\<lambda>t. tk_over_id t = i) (bd_takeovers d)"

definition takeover_open :: "browser_takeover \<Rightarrow> bool" where
  "takeover_open t \<longleftrightarrow> tk_over_ended_at t = None"

definition active_takeover :: "uuid \<Rightarrow> browser_db \<Rightarrow> browser_takeover option" where
  "active_takeover session d =
     find (\<lambda>t. tk_over_session_id t = session \<and> takeover_open t) (bd_takeovers d)"

definition list_browser_sessions :: "uuid \<Rightarrow> browser_db \<Rightarrow> browser_session list" where
  "list_browser_sessions project d =
     sort_key (\<lambda>s. - bs_started_at s) (sort_key (\<lambda>s. - int (bs_id s))
       (filter (\<lambda>s. bs_project_id s = project) (bd_sessions d)))"

definition list_tabs :: "uuid \<Rightarrow> browser_db \<Rightarrow> browser_tab list" where
  "list_tabs session d =
     sort_key bt_created_at (sort_key bt_id (filter (\<lambda>t. bt_session_id t = session) (bd_tabs d)))"

definition list_observations :: "uuid \<Rightarrow> browser_db \<Rightarrow> browser_observation list" where
  "list_observations session d =
     sort_key (\<lambda>r. - bo_created_at r) (sort_key (\<lambda>r. - int (bo_id r))
       (filter (\<lambda>r. bo_session_id r = session) (bd_observations d)))"

definition browser_history_of :: "uuid \<Rightarrow> browser_db \<Rightarrow> browser_history_event list" where
  "browser_history_of session d =
     sort_key bh_id (filter (\<lambda>e. bh_session_id e = session) (bd_history d))"

definition session_project :: "browser_db \<Rightarrow> uuid \<Rightarrow> (sql_error, uuid) outcome" where
  "session_project d i =
     (case find_browser_session i d of
        None \<Rightarrow> Inl (validation_error ''durable browser session does not exist'')
      | Some s \<Rightarrow> Inr (bs_project_id s))"

definition record_browser_event ::
    "millis \<Rightarrow> uuid \<Rightarrow> uuid \<Rightarrow> string \<Rightarrow> string \<Rightarrow> json \<Rightarrow> browser_db \<Rightarrow> browser_db" where
  "record_browser_event now session project kind actor payload d =
     d\<lparr>bd_history := bd_history d @
        [\<lparr>bh_id = foldl max 0 (map bh_id (bd_history d)) + 1, bh_session_id = session,
          bh_project_id = project, bh_kind = kind, bh_actor = actor, bh_payload = payload,
          bh_created_at = now\<rparr>]\<rparr>"

subsection \<open>Starting a session\<close>

text \<open>The task and worktree a session belongs to, from the task asked for and its server.\<close>

definition scope_task ::
    "browser_db \<Rightarrow> uuid \<Rightarrow> uuid option \<Rightarrow> (sql_error, uuid option) outcome" where
  "scope_task d project requested =
     (case requested of
        None \<Rightarrow> Inr None
      | Some i \<Rightarrow>
          (case find_task i (dd_tasks (bd_servers d)) of
             None \<Rightarrow> Inl (validation_error ''browser task does not exist'')
           | Some t \<Rightarrow>
               if tk_project_id t \<noteq> Some project
               then Inl (validation_error ''browser task belongs to a different project'')
               else Inr (tk_worktree_id t)))"

definition browser_scope ::
    "browser_db \<Rightarrow> uuid \<Rightarrow> uuid option \<Rightarrow> uuid option
      \<Rightarrow> (sql_error, uuid option \<times> uuid option) outcome" where
  "browser_scope d project task_id server =
     (case scope_task d project task_id of
        Inl e \<Rightarrow> Inl e
      | Inr worktree_id \<Rightarrow>
          (case server of
             None \<Rightarrow> Inr (task_id, worktree_id)
           | Some i \<Rightarrow>
               (case find_instance i (bd_servers d) of
                  None \<Rightarrow> Inl (validation_error ''browser development server does not exist'')
                | Some r \<Rightarrow>
                    if di_project_id r \<noteq> project
                    then Inl (validation_error ''browser development server belongs to a different project'')
                    else if di_status r \<noteq> ''running''
                    then Inl (validation_error ''browser development server is not running'')
                    else if task_id \<noteq> None \<and> task_id \<noteq> di_task_id r
                    then Inl (validation_error ''browser task and development server task scope differ'')
                    else if worktree_id \<noteq> None \<and> di_worktree_id r \<noteq> None \<and> worktree_id \<noteq> di_worktree_id r
                    then Inl (validation_error ''browser task and development server worktree differ'')
                    else Inr (if task_id = None then di_task_id r else task_id,
                              if worktree_id = None then di_worktree_id r else worktree_id))))"

definition profile_active :: "browser_profile \<Rightarrow> bool" where
  "profile_active p \<longleftrightarrow> bp_status p = ''active''"

definition profile_owner :: "browser_profile \<Rightarrow> uuid \<times> uuid option \<times> uuid option" where
  "profile_owner p = (bp_project_id p, bp_worktree_id p, bp_task_id p)"

definition new_profile ::
    "millis \<Rightarrow> new_browser_session \<Rightarrow> uuid option \<Rightarrow> uuid option \<Rightarrow> browser_profile" where
  "new_profile now n worktree_id task_id =
     \<lparr>bp_id = nw_profile_id n, bp_project_id = nw_project_id n, bp_worktree_id = worktree_id,
      bp_task_id = task_id, bp_path = nw_profile_path n, bp_persistent = nw_persistent_profile n,
      bp_status = ''active'', bp_created_at = now, bp_updated_at = now, bp_released_at = None\<rparr>"

text \<open>The insertion of a profile: its key, the unique path, \<open>idx_browser_active_profile_owner\<close>.\<close>

definition insert_profile :: "browser_profile \<Rightarrow> browser_db \<Rightarrow> (sql_error, browser_db) outcome" where
  "insert_profile p d =
     (if \<exists>q \<in> set (bd_profiles d). bp_id q = bp_id p then Inl (SqlConstraint ''browser_profiles.id'')
      else if \<exists>q \<in> set (bd_profiles d). bp_path q = bp_path p then Inl (SqlConstraint ''browser_profiles.path'')
      else if \<exists>q \<in> set (bd_profiles d). profile_active q \<and> profile_owner q = profile_owner p
      then Inl (SqlConstraint ''idx_browser_active_profile_owner'')
      else Inr (d\<lparr>bd_profiles := bd_profiles d @ [p]\<rparr>))"

definition new_session_row ::
    "millis \<Rightarrow> new_browser_session \<Rightarrow> uuid option \<Rightarrow> uuid option \<Rightarrow> browser_session" where
  "new_session_row now n worktree_id task_id =
     \<lparr>bs_id = nw_id n, bs_project_id = nw_project_id n, bs_task_id = task_id,
      bs_worktree_id = worktree_id, bs_dev_server_instance_id = nw_dev_server_instance_id n,
      bs_profile_id = nw_profile_id n, bs_status = ''starting'', bs_service_session_id = None,
      bs_service_version = None, bs_service_protocol = None, bs_network_policy = nw_network_policy n,
      bs_failure = None, bs_started_at = now, bs_updated_at = now, bs_ended_at = None\<rparr>"

definition prepare_session_tx ::
    "externals \<Rightarrow> millis \<Rightarrow> new_browser_session \<Rightarrow> string \<Rightarrow> browser_db
      \<Rightarrow> (sql_error, unit \<times> browser_db) outcome" where
  "prepare_session_tx x now n actor d =
     (if \<not> project_exists (Some (nw_project_id n)) (dd_tasks (bd_servers d))
      then Inl (validation_error ''browser project does not exist'')
      else case browser_scope d (nw_project_id n) (nw_task_id n) (nw_dev_server_instance_id n) of
        Inl e \<Rightarrow> Inl e
      | Inr (task_id, worktree_id) \<Rightarrow>
          (case insert_profile (new_profile now n worktree_id task_id) d of
             Inl e \<Rightarrow> Inl e
           | Inr d1 \<Rightarrow>
               if \<exists>s \<in> set (bd_sessions d1). bs_id s = nw_id n then Inl (SqlConstraint ''browser_sessions.id'')
               else Inr ((), record_browser_event now (nw_id n) (nw_project_id n) ''starting'' actor
                      (JObj [(''taskId'', json_opt (json_uuid x) task_id),
                             (''worktreeId'', json_opt (json_uuid x) worktree_id),
                             (''profileId'', json_uuid x (nw_profile_id n)),
                             (''networkPolicy'', JStr (nw_network_policy n))])
                      (d1\<lparr>bd_sessions := bd_sessions d1 @ [new_session_row now n worktree_id task_id]\<rparr>))))"

text \<open>After a transaction the row is read back; it cannot have disappeared.\<close>

definition reading_back ::
    "(browser_db \<Rightarrow> 'r option) \<Rightarrow> string \<Rightarrow> (storage_error, 'a) outcome \<times> browser_db
      \<Rightarrow> (storage_error, 'r) outcome \<times> browser_db" where
  "reading_back look message r =
     (case r of
        (Inl e, d) \<Rightarrow> (Inl e, d)
      | (Inr v, d) \<Rightarrow> (case look d of Some row \<Rightarrow> (Inr row, d) | None \<Rightarrow> (Inl (StorageValidation message), d)))"

definition prepare_session ::
    "externals \<Rightarrow> millis \<Rightarrow> new_browser_session \<Rightarrow> string \<Rightarrow> browser_db
      \<Rightarrow> (storage_error, browser_session) outcome \<times> browser_db" where
  "prepare_session x now n actor d =
     checked (validate_new_session n actor) d
       (reading_back (find_browser_session (nw_id n)) ''created browser session disappeared''
         (validated (prepare_session_tx x now n actor) d))"

subsection \<open>The lifecycle of a session\<close>

definition session_live :: "browser_session \<Rightarrow> bool" where
  "session_live s \<longleftrightarrow> bs_status s \<in> {''starting'', ''running'', ''stopping''}"

definition browser_transition_valid :: "string \<Rightarrow> string \<Rightarrow> bool" where
  "browser_transition_valid current target =
     (if target = ''running'' then current = ''starting''
      else if target = ''stopping'' then current = ''running''
      else if target = ''stopped'' then current = ''stopping''
      else if target \<in> {''failed'', ''orphaned''} then current \<in> {''starting'', ''running'', ''stopping''}
      else False)"

text \<open>\<open>COALESCE(?, column)\<close>.\<close>

definition coalesce :: "'a option \<Rightarrow> 'a option \<Rightarrow> 'a option" where
  "coalesce new old = (case new of None \<Rightarrow> old | Some v \<Rightarrow> Some v)"

definition moved_session ::
    "millis \<Rightarrow> string \<Rightarrow> string option \<Rightarrow> (string \<times> string \<times> int) option \<Rightarrow> browser_session
      \<Rightarrow> browser_session" where
  "moved_session now target failure service s =
     s\<lparr>bs_status := target,
       bs_service_session_id := coalesce (map_option fst service) (bs_service_session_id s),
       bs_service_version := coalesce (map_option (fst \<circ> snd) service) (bs_service_version s),
       bs_service_protocol := coalesce (map_option (snd \<circ> snd) service) (bs_service_protocol s),
       bs_failure := failure, bs_updated_at := now,
       bs_ended_at := (if target \<in> {''stopped'', ''failed'', ''orphaned''} then Some now else bs_ended_at s)\<rparr>"

definition freed_profile :: "millis \<Rightarrow> browser_profile \<Rightarrow> browser_profile" where
  "freed_profile now p =
     p\<lparr>bp_status := (if bp_persistent p then ''available'' else ''released''), bp_updated_at := now,
       bp_released_at := Some now\<rparr>"

definition ended_takeover :: "millis \<Rightarrow> string \<Rightarrow> browser_takeover \<Rightarrow> browser_takeover" where
  "ended_takeover now reason t = t\<lparr>tk_over_ended_at := Some now, tk_over_end_reason := Some reason\<rparr>"

definition browser_transition_tx ::
    "millis \<Rightarrow> uuid \<Rightarrow> string \<Rightarrow> string option \<Rightarrow> (string \<times> string \<times> int) option \<Rightarrow> string
      \<Rightarrow> browser_db \<Rightarrow> (sql_error, bool \<times> browser_db) outcome" where
  "browser_transition_tx now i target failure service actor d =
     (case find_browser_session i d of
        None \<Rightarrow> Inr (False, d)
      | Some s \<Rightarrow>
          if \<not> browser_transition_valid (bs_status s) target
          then Inl (validation_error (''cannot transition browser session from '' @ quoted (bs_status s)
                 @ '' to '' @ quoted target))
          else
            let d1 = d\<lparr>bd_sessions := update_rows (\<lambda>r. bs_id r = i)
                       (moved_session now target failure service) (bd_sessions d)\<rparr>;
                d2 = (if target \<in> {''stopped'', ''failed''}
                      then d1\<lparr>bd_profiles := update_rows (\<lambda>p. bp_id p = bs_profile_id s \<and> profile_active p)
                             (freed_profile now) (bd_profiles d1)\<rparr>
                      else d1);
                d3 = (if target \<in> {''stopped'', ''failed'', ''orphaned''}
                      then d2\<lparr>bd_takeovers := update_rows (\<lambda>t. tk_over_session_id t = i \<and> takeover_open t)
                             (ended_takeover now target) (bd_takeovers d2)\<rparr>
                      else d2)
            in Inr (True, record_browser_event now i (bs_project_id s) target actor
                 (JObj [(''failure'', json_opt JStr failure)]) d3))"

definition browser_transition ::
    "millis \<Rightarrow> uuid \<Rightarrow> string \<Rightarrow> string option \<Rightarrow> (string \<times> string \<times> int) option \<Rightarrow> string
      \<Rightarrow> browser_db \<Rightarrow> (storage_error, browser_session option) outcome \<times> browser_db" where
  "browser_transition now i target failure service actor d =
     checked (validate_browser_actor actor) d
       (let (r, d') = validated (browser_transition_tx now i target failure service actor) d
        in (map_outcome (\<lambda>b. find_browser_session i d') r, d'))"

definition browser_mark_running ::
    "millis \<Rightarrow> uuid \<Rightarrow> string \<Rightarrow> string \<Rightarrow> int \<Rightarrow> string \<Rightarrow> browser_db
      \<Rightarrow> (storage_error, browser_session option) outcome \<times> browser_db" where
  "browser_mark_running now i service_session version protocol actor d =
     (if trim service_session = [] \<or> 256 < length service_session \<or> has_control service_session
        \<or> trim version = [] \<or> 128 < length version \<or> has_control version \<or> protocol \<le> 0
      then (Inl (StorageValidation ''browser service identity cannot be empty''), d)
      else browser_transition now i ''running'' None (Some (service_session, version, protocol)) actor d)"

definition browser_begin_stop ::
    "millis \<Rightarrow> uuid \<Rightarrow> string \<Rightarrow> browser_db
      \<Rightarrow> (storage_error, browser_session option) outcome \<times> browser_db" where
  "browser_begin_stop now i actor d = browser_transition now i ''stopping'' None None actor d"

definition browser_mark_stopped ::
    "millis \<Rightarrow> uuid \<Rightarrow> string \<Rightarrow> browser_db
      \<Rightarrow> (storage_error, browser_session option) outcome \<times> browser_db" where
  "browser_mark_stopped now i actor d = browser_transition now i ''stopped'' None None actor d"

definition browser_mark_failed ::
    "millis \<Rightarrow> uuid \<Rightarrow> string \<Rightarrow> string \<Rightarrow> browser_db
      \<Rightarrow> (storage_error, browser_session option) outcome \<times> browser_db" where
  "browser_mark_failed now i failure actor d = browser_transition now i ''failed'' (Some failure) None actor d"

definition browser_mark_orphaned ::
    "millis \<Rightarrow> uuid \<Rightarrow> string \<Rightarrow> string \<Rightarrow> browser_db
      \<Rightarrow> (storage_error, browser_session option) outcome \<times> browser_db" where
  "browser_mark_orphaned now i failure actor d =
     browser_transition now i ''orphaned'' (Some failure) None actor d"

subsection \<open>Tabs\<close>

text \<open>\<open>INSERT .. ON CONFLICT(browser_session_id,service_tab_id) DO UPDATE SET\<close>.\<close>

definition upsert_tab_row ::
    "millis \<Rightarrow> uuid \<Rightarrow> uuid \<Rightarrow> string \<Rightarrow> string option \<Rightarrow> string option \<Rightarrow> browser_db
      \<Rightarrow> (sql_error, browser_db) outcome" where
  "upsert_tab_row now fresh session service_tab url title d =
     (if tab_by_service_id session service_tab d \<noteq> None
      then Inr (d\<lparr>bd_tabs := update_rows
             (\<lambda>t. bt_session_id t = session \<and> bt_service_tab_id t = service_tab)
             (\<lambda>t. t\<lparr>bt_url := coalesce url (bt_url t), bt_title := coalesce title (bt_title t),
                   bt_status := ''open'', bt_updated_at := now, bt_closed_at := None\<rparr>) (bd_tabs d)\<rparr>)
      else if \<exists>t \<in> set (bd_tabs d). bt_id t = fresh then Inl (SqlConstraint ''browser_tabs.id'')
      else Inr (d\<lparr>bd_tabs := bd_tabs d @
             [\<lparr>bt_id = fresh, bt_session_id = session, bt_service_tab_id = service_tab, bt_url = url,
               bt_title = title, bt_status = ''open'', bt_created_at = now, bt_updated_at = now,
               bt_closed_at = None\<rparr>]\<rparr>))"

definition upsert_tab_tx ::
    "millis \<Rightarrow> uuid \<Rightarrow> uuid \<Rightarrow> string \<Rightarrow> string option \<Rightarrow> string option \<Rightarrow> string \<Rightarrow> browser_db
      \<Rightarrow> (sql_error, unit \<times> browser_db) outcome" where
  "upsert_tab_tx now fresh session service_tab url title actor d =
     (case session_project d session of
        Inl e \<Rightarrow> Inl e
      | Inr project \<Rightarrow>
          map_outcome (\<lambda>d'. ((), record_browser_event now session project ''tab_updated'' actor
              (JObj [(''serviceTabId'', JStr service_tab), (''url'', json_opt JStr url),
                     (''title'', json_opt JStr title)]) d'))
            (upsert_tab_row now fresh session service_tab url title d))"

definition upsert_tab ::
    "millis \<Rightarrow> uuid \<Rightarrow> uuid \<Rightarrow> string \<Rightarrow> string option \<Rightarrow> string option \<Rightarrow> string \<Rightarrow> browser_db
      \<Rightarrow> (storage_error, browser_tab) outcome \<times> browser_db" where
  "upsert_tab now fresh session service_tab url title actor d =
     (if trim service_tab = [] \<or> 256 < length service_tab \<or> has_control service_tab
        \<or> (case url of None \<Rightarrow> False | Some v \<Rightarrow> 8192 < length v \<or> has_control v)
        \<or> (case title of None \<Rightarrow> False | Some v \<Rightarrow> 4096 < length v \<or> has_control v)
      then (Inl (StorageValidation ''browser tab id cannot be empty''), d)
      else checked (validate_browser_actor actor) d
        (reading_back (tab_by_service_id session service_tab) ''browser tab disappeared''
          (validated (upsert_tab_tx now fresh session service_tab url title actor) d)))"

definition close_tab_tx ::
    "externals \<Rightarrow> millis \<Rightarrow> uuid \<Rightarrow> uuid \<Rightarrow> string \<Rightarrow> browser_db
      \<Rightarrow> (sql_error, bool \<times> browser_db) outcome" where
  "close_tab_tx x now session tab actor d =
     (case session_project d session of
        Inl e \<Rightarrow> Inl e
      | Inr project \<Rightarrow>
          let p = (\<lambda>t. bt_id t = tab \<and> bt_session_id t = session \<and> bt_status t = ''open'');
              d1 = d\<lparr>bd_tabs := update_rows p
                     (\<lambda>t. t\<lparr>bt_status := ''closed'', bt_updated_at := now, bt_closed_at := Some now\<rparr>)
                     (bd_tabs d)\<rparr>
          in if 0 < count_rows p (bd_tabs d)
             then Inr (True, record_browser_event now session project ''tab_closed'' actor
                    (JObj [(''tabId'', json_uuid x tab)]) d1)
             else Inr (False, d1))"

definition close_tab ::
    "externals \<Rightarrow> millis \<Rightarrow> uuid \<Rightarrow> uuid \<Rightarrow> string \<Rightarrow> browser_db
      \<Rightarrow> (storage_error, bool) outcome \<times> browser_db" where
  "close_tab x now session tab actor d =
     checked (validate_browser_actor actor) d (validated (close_tab_tx x now session tab actor) d)"

subsection \<open>Observations\<close>

definition record_observation_tx ::
    "externals \<Rightarrow> millis \<Rightarrow> browser_observation \<Rightarrow> string \<Rightarrow> browser_db
      \<Rightarrow> (sql_error, unit \<times> browser_db) outcome" where
  "record_observation_tx x now r actor d =
     (case session_project d (bo_session_id r) of
        Inl e \<Rightarrow> Inl e
      | Inr project \<Rightarrow>
          if (case bo_tab_id r of None \<Rightarrow> False
              | Some t \<Rightarrow> \<not> (\<exists>b \<in> set (bd_tabs d). bt_id b = t \<and> bt_session_id b = bo_session_id r))
          then Inl (validation_error ''browser observation tab does not belong to session'')
          else if \<exists>o' \<in> set (bd_observations d). bo_id o' = bo_id r
          then Inl (SqlConstraint ''browser_observations.id'')
          else Inr ((), record_browser_event now (bo_session_id r) project ''observation_recorded'' actor
                 (JObj [(''observationId'', json_uuid x (bo_id r)), (''kind'', JStr (bo_kind r)),
                        (''artifactHash'', JStr (bo_artifact_hash r)),
                        (''sizeBytes'', json_int (bo_size_bytes r))])
                 (d\<lparr>bd_observations := bd_observations d @ [r]\<rparr>)))"

definition record_observation ::
    "externals \<Rightarrow> millis \<Rightarrow> uuid \<Rightarrow> uuid \<Rightarrow> uuid option \<Rightarrow> string \<Rightarrow> string \<Rightarrow> string \<Rightarrow> int \<Rightarrow> json
      \<Rightarrow> string \<Rightarrow> browser_db \<Rightarrow> (storage_error, browser_observation) outcome \<times> browser_db" where
  "record_observation x now fresh session tab kind hash mime bytes metadata actor d =
     checked (validate_browser_actor actor) d (checked (validate_browser_hash hash) d
       (if trim kind = [] \<or> 64 < length kind \<or> trim mime = [] \<or> 128 < length mime \<or> bytes < 0
        then (Inl (StorageValidation ''invalid browser observation metadata''), d)
        else if 256 * 1024 < length (json_text x metadata)
        then (Inl (StorageValidation ''browser observation metadata exceeds 256 KiB''), d)
        else reading_back (find_observation fresh) ''browser observation disappeared''
          (validated (record_observation_tx x now
             \<lparr>bo_id = fresh, bo_session_id = session, bo_tab_id = tab, bo_kind = kind,
              bo_artifact_hash = hash, bo_mime_type = mime, bo_size_bytes = bytes,
              bo_metadata = metadata, bo_created_at = now\<rparr> actor) d)))"

subsection \<open>Console and network entries\<close>

text \<open>The statements on \<open>{table}\<close>: the insertions, the deletion of all but the newest entries.\<close>

fun insert_entries :: "millis \<Rightarrow> uuid \<Rightarrow> json list \<Rightarrow> log_entry list \<Rightarrow> log_entry list" where
  "insert_entries now session [] t = t"
| "insert_entries now session (v # vs) t =
     insert_entries now session vs (t @
       [\<lparr>le_id = foldl max 0 (map le_id t) + 1, le_session_id = session, le_payload = v,
         le_created_at = now\<rparr>])"

definition newest_entries :: "uuid \<Rightarrow> nat \<Rightarrow> log_entry list \<Rightarrow> log_entry list" where
  "newest_entries session n t =
     take n (rev (sort_key le_id (filter (\<lambda>e. le_session_id e = session) t)))"

definition prune_entries :: "uuid \<Rightarrow> log_entry list \<Rightarrow> log_entry list" where
  "prune_entries session t =
     delete_rows (\<lambda>e. le_session_id e = session
       \<and> le_id e \<notin> le_id ` set (newest_entries session MAX_HISTORY_ENTRIES t)) t"

definition append_bounded ::
    "millis \<Rightarrow> string \<Rightarrow> uuid \<Rightarrow> json list \<Rightarrow> browser_db \<Rightarrow> (storage_error, nat) outcome \<times> browser_db" where
  "append_bounded now table session entries d =
     (let grow = (\<lambda>t. prune_entries session (insert_entries now session entries t)) in
      if table \<notin> {''browser_console_entries'', ''browser_network_entries''}
      then (Inl (StorageValidation ''invalid browser history table''), d)
      else validated (\<lambda>d. case session_project d session of
             Inl e \<Rightarrow> Inl e
           | Inr project \<Rightarrow>
               Inr (length entries,
                 if table = ''browser_console_entries'' then d\<lparr>bd_console := grow (bd_console d)\<rparr>
                 else d\<lparr>bd_network := grow (bd_network d)\<rparr>)) d)"

definition append_console ::
    "millis \<Rightarrow> uuid \<Rightarrow> json list \<Rightarrow> browser_db \<Rightarrow> (storage_error, nat) outcome \<times> browser_db" where
  "append_console now session entries d = append_bounded now ''browser_console_entries'' session entries d"

definition append_network ::
    "millis \<Rightarrow> uuid \<Rightarrow> json list \<Rightarrow> browser_db \<Rightarrow> (storage_error, nat) outcome \<times> browser_db" where
  "append_network now session entries d = append_bounded now ''browser_network_entries'' session entries d"

definition bounded_entries :: "string \<Rightarrow> uuid \<Rightarrow> nat \<Rightarrow> browser_db \<Rightarrow> (storage_error, json list) outcome" where
  "bounded_entries table session limit d =
     (if table \<notin> {''browser_console_entries'', ''browser_network_entries''}
      then Inl (StorageValidation ''invalid browser history table'')
      else Inr (map le_payload (newest_entries session (min (max limit 1) MAX_HISTORY_ENTRIES)
             (if table = ''browser_console_entries'' then bd_console d else bd_network d))))"

definition console :: "uuid \<Rightarrow> nat \<Rightarrow> browser_db \<Rightarrow> (storage_error, json list) outcome" where
  "console session limit d = bounded_entries ''browser_console_entries'' session limit d"

definition network :: "uuid \<Rightarrow> nat \<Rightarrow> browser_db \<Rightarrow> (storage_error, json list) outcome" where
  "network session limit d = bounded_entries ''browser_network_entries'' session limit d"

subsection \<open>Takeovers\<close>

definition start_takeover_tx ::
    "externals \<Rightarrow> millis \<Rightarrow> uuid \<Rightarrow> uuid \<Rightarrow> string \<Rightarrow> string option \<Rightarrow> browser_db
      \<Rightarrow> (sql_error, unit \<times> browser_db) outcome" where
  "start_takeover_tx x now fresh session actor reason d =
     (case find_browser_session session d of
        None \<Rightarrow> Inl (validation_error ''durable browser session does not exist'')
      | Some s \<Rightarrow>
          if bs_status s \<noteq> ''running''
          then Inl (validation_error ''browser takeover requires a running session'')
          else if \<exists>t \<in> set (bd_takeovers d). tk_over_id t = fresh
          then Inl (SqlConstraint ''browser_takeovers.id'')
          else if \<exists>t \<in> set (bd_takeovers d). tk_over_session_id t = session \<and> takeover_open t
          then Inl (SqlConstraint ''idx_browser_active_takeover'')
          else Inr ((), record_browser_event now session (bs_project_id s) ''takeover_started'' actor
                 (JObj [(''takeoverId'', json_uuid x fresh), (''reason'', json_opt JStr reason)])
                 (d\<lparr>bd_takeovers := bd_takeovers d @
                    [\<lparr>tk_over_id = fresh, tk_over_session_id = session, tk_over_actor = actor,
                      tk_over_reason = reason, tk_over_started_at = now, tk_over_ended_at = None,
                      tk_over_end_reason = None\<rparr>]\<rparr>)))"

definition start_takeover ::
    "externals \<Rightarrow> millis \<Rightarrow> uuid \<Rightarrow> uuid \<Rightarrow> string \<Rightarrow> string option \<Rightarrow> browser_db
      \<Rightarrow> (storage_error, browser_takeover) outcome \<times> browser_db" where
  "start_takeover x now fresh session actor reason d =
     checked (validate_browser_actor actor) d
       (if (case reason of None \<Rightarrow> False | Some v \<Rightarrow> 4096 < length v \<or> has_nul v)
        then (Inl (StorageValidation ''browser takeover reason is invalid''), d)
        else reading_back (find_takeover fresh) ''browser takeover disappeared''
          (validated (start_takeover_tx x now fresh session actor reason) d))"

definition stop_takeover_tx ::
    "externals \<Rightarrow> millis \<Rightarrow> uuid \<Rightarrow> string \<Rightarrow> string \<Rightarrow> browser_db
      \<Rightarrow> (sql_error, uuid option \<times> browser_db) outcome" where
  "stop_takeover_tx x now session actor reason d =
     (case session_project d session of
        Inl e \<Rightarrow> Inl e
      | Inr project \<Rightarrow>
          (case active_takeover session d of
             None \<Rightarrow> Inr (None, d)
           | Some t \<Rightarrow>
               Inr (Some (tk_over_id t), record_browser_event now session project ''takeover_stopped'' actor
                 (JObj [(''takeoverId'', json_uuid x (tk_over_id t)), (''reason'', JStr reason)])
                 (d\<lparr>bd_takeovers := update_rows (\<lambda>r. tk_over_id r = tk_over_id t)
                      (ended_takeover now reason) (bd_takeovers d)\<rparr>))))"

definition stop_takeover ::
    "externals \<Rightarrow> millis \<Rightarrow> uuid \<Rightarrow> string \<Rightarrow> string \<Rightarrow> browser_db
      \<Rightarrow> (storage_error, browser_takeover option) outcome \<times> browser_db" where
  "stop_takeover x now session actor reason d =
     checked (validate_browser_actor actor) d
       (let (r, d') = validated (stop_takeover_tx x now session actor reason) d
        in (map_outcome (\<lambda>i. Option.bind i (\<lambda>i. find_takeover i d')) r, d'))"

definition browser_record_event ::
    "millis \<Rightarrow> uuid \<Rightarrow> string \<Rightarrow> string \<Rightarrow> json \<Rightarrow> browser_db \<Rightarrow> (storage_error, unit) outcome \<times> browser_db" where
  "browser_record_event now session kind actor payload d =
     checked (validate_browser_actor actor) d
       (validated (\<lambda>d. map_outcome (\<lambda>project. ((), record_browser_event now session project kind actor payload d))
          (session_project d session)) d)"

subsection \<open>Restart and deletion of tasks\<close>

text \<open>
  The statements of \<open>recover_interrupted\<close> on these tables; the counts of interrupted sessions
  and of profiles that were still active.
\<close>

definition interrupted_session :: "millis \<Rightarrow> browser_session \<Rightarrow> browser_session" where
  "interrupted_session now s =
     s\<lparr>bs_status := ''interrupted'', bs_failure := Some ''core process restarted'',
       bs_updated_at := now, bs_ended_at := Some now\<rparr>"

definition orphaned_profile :: "millis \<Rightarrow> browser_profile \<Rightarrow> browser_profile" where
  "orphaned_profile now p =
     p\<lparr>bp_status := ''orphaned'', bp_updated_at := now, bp_released_at := Some now\<rparr>"

definition recover_browsers :: "millis \<Rightarrow> browser_db \<Rightarrow> (nat \<times> nat) \<times> browser_db" where
  "recover_browsers now d =
     (let live = filter session_live (bd_sessions d);
          d1 = fold (\<lambda>s. record_browser_event now (bs_id s) (bs_project_id s) ''interrupted'' ''system''
                 (JObj [(''reason'', JStr ''process_restart'')])) live d
      in ((length live, count_rows profile_active (bd_profiles d1)),
          d1\<lparr>bd_sessions := update_rows session_live (interrupted_session now) (bd_sessions d1),
             bd_takeovers := update_rows takeover_open (ended_takeover now ''process_restart'')
               (bd_takeovers d1),
             bd_profiles := update_rows profile_active (orphaned_profile now) (bd_profiles d1)\<rparr>))"

text \<open>
  \<open>DELETE FROM tasks\<close>: the profiles and sessions of the task lose it (\<open>ON DELETE SET
  NULL\<close>). Two active profiles may then have one owner, which the unique index refuses: the
  statement fails and nothing is deleted.
\<close>

definition profile_without_task :: "uuid \<Rightarrow> browser_profile \<Rightarrow> browser_profile" where
  "profile_without_task i p = (if bp_task_id p = Some i then p\<lparr>bp_task_id := None\<rparr> else p)"

definition owners_distinct :: "browser_profile list \<Rightarrow> bool" where
  "owners_distinct ps \<longleftrightarrow> distinct (map profile_owner (filter profile_active ps))"

definition delete_task_with_browsers :: "uuid \<Rightarrow> browser_db \<Rightarrow> (storage_error, bool) outcome \<times> browser_db" where
  "delete_task_with_browsers i d =
     (let (found, servers) = delete_task_with_servers i (bd_servers d);
          profiles = map (profile_without_task i) (bd_profiles d)
      in if \<not> found then (Inr False, d)
         else if \<not> owners_distinct profiles then (Inl (constraint ''idx_browser_active_profile_owner''), d)
         else (Inr True, d\<lparr>bd_servers := servers, bd_profiles := profiles,
                bd_sessions := update_rows (\<lambda>s. bs_task_id s = Some i)
                  (\<lambda>s. s\<lparr>bs_task_id := None\<rparr>) (bd_sessions d)\<rparr>))"

end
