(* ===== verification/DevServerFacts.thy ===== *)
theory DevServerFacts
  imports DevServers TaskFacts
begin

text \<open>
  What holds of the port ledger: the ledger of \<open>DevServers\<close> refines an abstract pool of
  ports, every live server has the one active lease for its port, and a start succeeds while
  a port is free. The deletion of a task breaks the second, which is shown last.
\<close>

subsection \<open>The operations, as steps\<close>

datatype dev_op =
    DevSave millis new_dev_config
  | DevAutoStart millis uuid bool
  | DevAssign millis uuid uuid "uuid option" int string
  | DevRelease millis uuid "uuid option"
  | DevStart millis uuid uuid uuid "uuid option" string
  | DevRunning millis uuid "int option" string json string
  | DevBeginStop millis uuid string
  | DevStopped millis uuid string
  | DevFailed millis uuid string string
  | DevOrphaned millis uuid string string
  | DevExited millis uuid string
  | DevReassign millis uuid int string
  | DevEvent millis uuid string string json
  | DevLog uuid string
  | DevRestart millis
  | DevTask task_op

definition dev_task_step :: "externals \<Rightarrow> task_op \<Rightarrow> dev_db \<Rightarrow> dev_db" where
  "dev_task_step x op d =
     (case op of
        OpDelete i \<Rightarrow> snd (delete_task_with_servers i d)
      | _ \<Rightarrow> d\<lparr>dd_tasks := task_step_fn x op (dd_tasks d)\<rparr>)"

fun dev_step :: "externals \<Rightarrow> dev_op \<Rightarrow> dev_db \<Rightarrow> dev_db" where
  "dev_step x (DevSave now c) d = snd (save_config now c d)"
| "dev_step x (DevAutoStart now i b) d = snd (set_auto_start now i b d)"
| "dev_step x (DevAssign now l c t p a) d = snd (assign_port now l c t p a d)"
| "dev_step x (DevRelease now c t) d = snd (release_port now c t d)"
| "dev_step x (DevStart now i l c t a) d = snd (prepare_start now i l c t a d)"
| "dev_step x (DevRunning now i pid url v a) d = snd (mark_running now i pid url v a d)"
| "dev_step x (DevBeginStop now i a) d = snd (begin_stop now i a d)"
| "dev_step x (DevStopped now i a) d = snd (mark_stopped now i a d)"
| "dev_step x (DevFailed now i f a) d = snd (mark_failed now i f a d)"
| "dev_step x (DevOrphaned now i f a) d = snd (mark_orphaned now i f a d)"
| "dev_step x (DevExited now i a) d = snd (mark_exited now i a d)"
| "dev_step x (DevReassign now i p a) d = snd (reassign_instance_port now i p a d)"
| "dev_step x (DevEvent now i k a v) d = snd (record_runtime_event now i k a v d)"
| "dev_step x (DevLog i h) d = snd (set_log_artifact i h d)"
| "dev_step x (DevRestart now) d = snd (recover_dev_servers now d)"
| "dev_step x (DevTask op) d = dev_task_step x op d"

definition no_servers :: "task_db \<Rightarrow> dev_db" where
  "no_servers t = \<lparr>dd_tasks = t, dd_configs = [], dd_instances = [], dd_leases = [], dd_events = []\<rparr>"

subsection \<open>What an operation does to the ledger\<close>

text \<open>
  The two tables of the ledger, and the ways an operation can change them. \<open>SetInstance\<close>
  stands for every update of one instance that keeps its identity and port.
\<close>

type_synonym ledger = "dev_instance list \<times> port_lease list"

definition ledger :: "dev_db \<Rightarrow> ledger" where
  "ledger d = (dd_instances d, dd_leases d)"

definition instance_owner :: "dev_instance \<Rightarrow> port_owner" where
  "instance_owner i = (di_project_id i, di_worktree_id i, di_task_id i, di_config_id i)"

definition released :: "millis \<Rightarrow> port_lease \<Rightarrow> port_lease" where
  "released now l = l\<lparr>dl_status := ''released'', dl_released_at := Some now\<rparr>"

lemma released_simps [simp]:
  "\<not> lease_active (released now l)" "dl_id (released now l) = dl_id l"
  "dl_port (released now l) = dl_port l" "dl_instance_id (released now l) = dl_instance_id l"
  "lease_owner (released now l) = lease_owner l"
  by (simp_all add: released_def lease_active_def lease_owner_def)

lemma release_leases_simps [simp]:
  "dd_leases (release_leases now p d) = update_rows p (released now) (dd_leases d)"
  "dd_instances (release_leases now p d) = dd_instances d"
  "dd_tasks (release_leases now p d) = dd_tasks d" "dd_configs (release_leases now p d) = dd_configs d"
  by (simp_all add: release_leases_def released_def [abs_def])

lemma record_dev_event_simps [simp]:
  "dd_leases (record_dev_event now i c p k a v d) = dd_leases d"
  "dd_instances (record_dev_event now i c p k a v d) = dd_instances d"
  "dd_tasks (record_dev_event now i c p k a v d) = dd_tasks d"
  "dd_configs (record_dev_event now i c p k a v d) = dd_configs d"
  by (simp_all add: record_dev_event_def)

lemma update_instance_simps [simp]:
  "dd_leases (update_instance i f d) = dd_leases d"
  "dd_instances (update_instance i f d) = update_rows (\<lambda>r. di_id r = i) f (dd_instances d)"
  by (simp_all add: update_instance_def)

text \<open>Nobody holds a lease of the owner, nor has its slot.\<close>

definition vacant :: "ledger \<Rightarrow> port_owner \<Rightarrow> bool" where
  "vacant s owner \<longleftrightarrow> (case owner of (p, w, t, c) \<Rightarrow>
     \<not> (\<exists>i \<in> set (fst s). di_config_id i = c \<and> di_task_id i = t \<and> holds_port (snd s) i))"

definition new_lease :: "millis \<Rightarrow> uuid \<Rightarrow> int \<Rightarrow> port_owner \<Rightarrow> port_lease" where
  "new_lease now i port owner = (case owner of (p, w, t, c) \<Rightarrow>
     \<lparr>dl_id = i, dl_port = port, dl_project_id = p, dl_worktree_id = w, dl_task_id = t,
      dl_config_id = c, dl_instance_id = None, dl_status = ''active'', dl_leased_at = now,
      dl_released_at = None\<rparr>)"

definition new_instance :: "millis \<Rightarrow> uuid \<Rightarrow> port_owner \<Rightarrow> int \<Rightarrow> dev_instance" where
  "new_instance now i owner port = (case owner of (p, w, t, c) \<Rightarrow>
     \<lparr>di_id = i, di_config_id = c, di_project_id = p, di_worktree_id = w, di_task_id = t,
      di_port = port, di_status = ''starting'', di_pid = None, di_url = None, di_preview = JObj [],
      di_log_artifact_hash = None, di_failure = None, di_created_at = now, di_started_at = None,
      di_stopped_at = None\<rparr>)"

definition lease_room :: "port_lease list \<Rightarrow> uuid \<Rightarrow> int \<Rightarrow> port_owner \<Rightarrow> bool" where
  "lease_room ls i port owner \<longleftrightarrow> i \<notin> dl_id ` set ls \<and> 1024 \<le> port \<and> port \<le> 65535
     \<and> (\<forall>l \<in> set ls. lease_active l \<longrightarrow> dl_port l \<noteq> port \<and> lease_owner l \<noteq> owner)"

definition up :: "dev_instance \<Rightarrow> bool" where
  "up i \<longleftrightarrow> instance_live i \<or> di_status i = ''orphaned''"

definition url_ok :: "dev_instance \<Rightarrow> bool" where
  "url_ok i \<longleftrightarrow> (\<exists>u. di_url i = Some u \<and> validate_local_preview_url u (di_port i) = Inr ())"

text \<open>An update of an instance that keeps its identity, port and owner, and whether it is up.\<close>

definition same_instance :: "dev_instance \<Rightarrow> dev_instance \<Rightarrow> bool" where
  "same_instance r r' \<longleftrightarrow> di_id r' = di_id r \<and> di_port r' = di_port r \<and> instance_owner r' = instance_owner r"

definition same_life :: "dev_instance \<Rightarrow> dev_instance \<Rightarrow> bool" where
  "same_life r r' \<longleftrightarrow> (up r' \<longleftrightarrow> up r) \<and> (instance_live r' \<longrightarrow> instance_live r)
     \<and> (di_status r' = ''running'' \<longrightarrow> url_ok r')"

definition with_port :: "int \<Rightarrow> dev_instance \<Rightarrow> dev_instance" where
  "with_port p r = r\<lparr>di_port := p\<rparr>"

definition lease_with_port :: "int \<Rightarrow> port_lease \<Rightarrow> port_lease" where
  "lease_with_port p l = l\<lparr>dl_port := p\<rparr>"

definition staled :: "millis \<Rightarrow> port_lease \<Rightarrow> port_lease" where
  "staled now l = l\<lparr>dl_status := ''stale'', dl_released_at := Some now\<rparr>"

definition without_task :: "dev_instance \<Rightarrow> dev_instance" where
  "without_task r = r\<lparr>di_task_id := None\<rparr>"

definition forget_task :: "uuid \<Rightarrow> ledger \<Rightarrow> ledger" where
  "forget_task t s = (update_rows (\<lambda>r. di_task_id r = Some t) without_task (fst s),
     delete_rows (\<lambda>l. dl_task_id l = Some t) (snd s))"

inductive ledger_step :: "ledger \<Rightarrow> ledger \<Rightarrow> bool" where
  Keep: "ledger_step s s"
| Release: "vacant (rs, ls) owner \<Longrightarrow>
    ledger_step (rs, ls) (rs, update_rows (lease_of owner) (released now) ls)"
| Reserve: "lease_room ls l port owner \<Longrightarrow> ledger_step (rs, ls) (rs, ls @ [new_lease now l port owner])"
| Start: "vacant (rs, ls) owner \<Longrightarrow> l \<in> set ls \<Longrightarrow> lease_of owner l \<Longrightarrow> i \<notin> di_id ` set rs \<Longrightarrow>
    ledger_step (rs, ls) (rs @ [new_instance now i owner (dl_port l)],
      update_rows (\<lambda>k. dl_id k = dl_id l) (dl_instance_id_update (\<lambda>_. Some i)) ls)"
| Status: "(\<And>r. r \<in> set rs \<Longrightarrow> di_id r = i \<Longrightarrow> same_instance r (f r) \<and> same_life r (f r)) \<Longrightarrow>
    ledger_step (rs, ls) (update_rows (\<lambda>r. di_id r = i) f rs, ls)"
| Finish: "(\<And>r. r \<in> set rs \<Longrightarrow> di_id r = i \<Longrightarrow> same_instance r (f r) \<and> \<not> up (f r)) \<Longrightarrow>
    ledger_step (rs, ls) (update_rows (\<lambda>r. di_id r = i) f rs, update_rows (lease_held_by i) (released now) ls)"
| Reassign: "(\<And>r. r \<in> set rs \<Longrightarrow> di_id r = i \<Longrightarrow> di_status r = ''starting'') \<Longrightarrow>
    1024 \<le> p \<Longrightarrow> p \<le> 65535 \<Longrightarrow> count_rows (lease_held_by i) ls = 1 \<Longrightarrow>
    (\<And>l. l \<in> set ls \<Longrightarrow> lease_active l \<Longrightarrow> dl_port l = p \<Longrightarrow> dl_instance_id l = Some i) \<Longrightarrow>
    ledger_step (rs, ls) (update_rows (\<lambda>r. di_id r = i) (with_port p) rs,
      update_rows (lease_held_by i) (lease_with_port p) ls)"
| Restart: "(\<And>r. r \<in> set rs \<Longrightarrow> same_instance r (f r)
      \<and> di_status (f r) = (if instance_live r then ''orphaned'' else di_status r)) \<Longrightarrow>
    ledger_step (rs, ls)
      (map f rs, update_rows (\<lambda>l. lease_active l \<and> dl_instance_id l \<noteq> None) (staled now) ls)"

definition ledger_ok :: "ledger \<Rightarrow> bool" where
  "ledger_ok s \<longleftrightarrow> distinct (map di_id (fst s)) \<and> distinct (map dl_id (snd s))
     \<and> (\<forall>l \<in> set (snd s). 1024 \<le> dl_port l \<and> dl_port l \<le> 65535)
     \<and> (\<forall>l \<in> set (snd s). \<forall>m \<in> set (snd s). lease_active l \<and> lease_active m
          \<and> (dl_port l = dl_port m \<or> lease_owner l = lease_owner m) \<longrightarrow> dl_id l = dl_id m)
     \<and> (\<forall>l \<in> set (snd s). \<forall>k. lease_held_by k l \<longrightarrow>
          (\<exists>r \<in> set (fst s). di_id r = k \<and> up r \<and> di_port r = dl_port l \<and> instance_owner r = lease_owner l))
     \<and> (\<forall>r \<in> set (fst s). di_status r = ''running'' \<longrightarrow> url_ok r)"

definition ledger_full :: "ledger \<Rightarrow> bool" where
  "ledger_full s \<longleftrightarrow>
     (\<forall>r \<in> set (fst s). instance_live r \<longrightarrow> (\<exists>l \<in> set (snd s). lease_held_by (di_id r) l))
     \<and> (\<forall>r \<in> set (fst s). \<forall>q \<in> set (fst s). holds_port (snd s) r \<and> holds_port (snd s) q
          \<and> di_config_id r = di_config_id q \<and> di_task_id r = di_task_id q \<longrightarrow> di_id r = di_id q)"

lemma holds_port_iff: "holds_port ls r \<longleftrightarrow> instance_live r
     \<or> di_status r = ''orphaned'' \<and> (\<exists>l \<in> set ls. lease_held_by (di_id r) l)"
  by (auto simp: holds_port_def lease_held_by_def)

lemma lease_held_simps [simp]:
  "\<not> lease_held_by k (released now l)" "\<not> lease_held_by k (staled now l)"
  "lease_held_by k (lease_with_port p l) = lease_held_by k l"
  "\<not> lease_held_by k (new_lease now i port owner)"
  "lease_active (new_lease now i port owner)" "dl_id (new_lease now i port owner) = i"
  "dl_port (new_lease now i port owner) = port" "lease_owner (new_lease now i port owner) = owner"
  "\<not> lease_active (staled now l)" "dl_id (staled now l) = dl_id l" "dl_port (staled now l) = dl_port l"
  "lease_owner (staled now l) = lease_owner l"
  "lease_active (lease_with_port p l) = lease_active l" "dl_id (lease_with_port p l) = dl_id l"
  "dl_port (lease_with_port p l) = p" "lease_owner (lease_with_port p l) = lease_owner l"
  by (simp_all add: lease_held_by_def lease_active_def staled_def lease_with_port_def
      new_lease_def lease_owner_def split_beta released_def)

lemma held_update [simp]:
  "lease_held_by k (dl_instance_id_update (\<lambda>_. Some i) l) \<longleftrightarrow> k = i \<and> lease_active l"
  "lease_active (dl_instance_id_update f l) = lease_active l"
  "lease_owner (dl_instance_id_update f l) = lease_owner l"
  by (auto simp: lease_held_by_def lease_active_def lease_owner_def)

lemma new_instance_simps [simp]:
  "di_id (new_instance now i owner port) = i" "di_port (new_instance now i owner port) = port"
  "instance_owner (new_instance now i owner port) = owner" "up (new_instance now i owner port)"
  "instance_live (new_instance now i owner port)" "di_status (new_instance now i owner port) = ''starting''"
  by (simp_all add: new_instance_def instance_owner_def up_def instance_live_def split_beta)

lemma with_port_simps [simp]:
  "di_id (with_port p r) = di_id r" "di_port (with_port p r) = p" "up (with_port p r) = up r"
  "instance_owner (with_port p r) = instance_owner r" "instance_live (with_port p r) = instance_live r"
  "di_status (with_port p r) = di_status r"
  by (simp_all add: with_port_def up_def instance_live_def instance_owner_def)

lemma ledger_okD:
  assumes "ledger_ok (rs, ls)"
  shows "distinct (map di_id rs)" "distinct (map dl_id ls)"
    "\<forall>l \<in> set ls. 1024 \<le> dl_port l \<and> dl_port l \<le> 65535"
    "\<forall>l \<in> set ls. \<forall>m \<in> set ls. lease_active l \<and> lease_active m
       \<and> (dl_port l = dl_port m \<or> lease_owner l = lease_owner m) \<longrightarrow> dl_id l = dl_id m"
    "\<forall>l \<in> set ls. \<forall>k. lease_held_by k l \<longrightarrow>
       (\<exists>r \<in> set rs. di_id r = k \<and> up r \<and> di_port r = dl_port l \<and> instance_owner r = lease_owner l)"
    "\<forall>r \<in> set rs. di_status r = ''running'' \<longrightarrow> url_ok r"
  using assms unfolding ledger_ok_def fst_conv snd_conv by iprover+

lemma ledger_okI:
  assumes "distinct (map di_id rs)" "distinct (map dl_id ls)"
    "\<And>l. l \<in> set ls \<Longrightarrow> 1024 \<le> dl_port l \<and> dl_port l \<le> 65535"
    "\<And>l m. l \<in> set ls \<Longrightarrow> m \<in> set ls \<Longrightarrow> lease_active l \<Longrightarrow> lease_active m \<Longrightarrow>
       dl_port l = dl_port m \<or> lease_owner l = lease_owner m \<Longrightarrow> dl_id l = dl_id m"
    "\<And>l k. l \<in> set ls \<Longrightarrow> lease_held_by k l \<Longrightarrow>
       \<exists>r \<in> set rs. di_id r = k \<and> up r \<and> di_port r = dl_port l \<and> instance_owner r = lease_owner l"
    "\<And>r. r \<in> set rs \<Longrightarrow> di_status r = ''running'' \<Longrightarrow> url_ok r"
  shows "ledger_ok (rs, ls)"
proof (unfold ledger_ok_def fst_conv snd_conv, intro conjI ballI allI impI, goal_cases)
  case (5 l m)
  then show ?case using assms(4) [of l m] by iprover
next
  case (6 l k)
  then show ?case by (rule assms(5))
qed (use assms in iprover)+

lemma ledger_held:
  assumes "ledger_ok (rs, ls)" "l \<in> set ls" "lease_held_by k l"
  obtains r where "r \<in> set rs" "di_id r = k" "up r" "di_port r = dl_port l" "instance_owner r = lease_owner l"
  using ledger_okD(5) [OF assms(1)] assms(2,3) that by blast

lemma ledger_same_lease:
  assumes "ledger_ok (rs, ls)" "l \<in> set ls" "m \<in> set ls" "lease_active l" "lease_active m"
    and "dl_port l = dl_port m \<or> lease_owner l = lease_owner m"
  shows "l = m"
proof -
  have "dl_id l = dl_id m" using ledger_okD(4) [OF assms(1)] assms(2-) by blast
  moreover have "inj_on dl_id (set ls)" using ledger_okD(2) [OF assms(1)] by (simp add: distinct_map)
  ultimately show ?thesis using assms(2,3) by (simp add: inj_onD)
qed

lemma same_instance_id: "di_id r = di_id q \<Longrightarrow> ledger_ok (rs, ls) \<Longrightarrow> r \<in> set rs \<Longrightarrow> q \<in> set rs \<Longrightarrow> r = q"
  using ledger_okD(1) [of rs ls] by (simp add: distinct_map inj_on_def)

text \<open>A lease of an owner whose slot is vacant is held by no instance.\<close>

lemma vacant_unheld:
  assumes "ledger_ok (rs, ls)" "vacant (rs, ls) owner" "l \<in> set ls" "lease_of owner l"
  shows "\<not> lease_held_by k l"
proof
  assume held: "lease_held_by k l"
  obtain r where r: "r \<in> set rs" "di_id r = k" "up r" "instance_owner r = lease_owner l"
    using ledger_held [OF assms(1,3) held] by blast
  have "holds_port ls r" using r held assms(3) by (auto simp: holds_port_iff up_def)
  with r assms(2,4) show False
    by (auto simp: vacant_def lease_of_def instance_owner_def split: prod.splits)
qed

subsection \<open>Every step keeps the ledger sound\<close>

text \<open>Leases that become inactive: the others are as before, and the instances follow an update of theirs.\<close>

lemma ledger_ok_deactivate:
  assumes ok: "ledger_ok (rs, ls)"
    and g: "\<And>l. \<not> lease_active (g l) \<and> dl_id (g l) = dl_id l \<and> dl_port (g l) = dl_port l"
    and f: "\<And>r. r \<in> set rs \<Longrightarrow> q r \<Longrightarrow> same_instance r (f r)"
    and run: "\<And>r. r \<in> set rs \<Longrightarrow> q r \<Longrightarrow> di_status (f r) = ''running'' \<Longrightarrow> url_ok (f r)"
    and up: "\<And>r l. r \<in> set rs \<Longrightarrow> q r \<Longrightarrow> l \<in> set ls \<Longrightarrow> lease_held_by (di_id r) l \<Longrightarrow> \<not> p l \<Longrightarrow> up r \<Longrightarrow> up (f r)"
  shows "ledger_ok (update_rows q f rs, update_rows p g ls)"
proof (rule ledger_okI)
  show "distinct (map di_id (update_rows q f rs))"
    using ledger_okD(1) [OF ok] f by (subst map_key_update_rows) (auto simp: same_instance_def)
  show "distinct (map dl_id (update_rows p g ls))"
    using ledger_okD(2) [OF ok] g by (subst map_key_update_rows) auto
  show "1024 \<le> dl_port l \<and> dl_port l \<le> 65535" if "l \<in> set (update_rows p g ls)" for l
    using that ledger_okD(3) [OF ok] g by (auto elim!: in_update_rows split: if_splits)
  have act: "l \<in> set ls \<and> \<not> p l" if "l \<in> set (update_rows p g ls)" "lease_active l" for l
    using that g by (auto elim!: in_update_rows split: if_splits)
  show "dl_id l = dl_id m"
    if "l \<in> set (update_rows p g ls)" "m \<in> set (update_rows p g ls)" "lease_active l" "lease_active m"
      "dl_port l = dl_port m \<or> lease_owner l = lease_owner m" for l m
    using act [OF that(1,3)] act [OF that(2,4)] that(3-) ledger_okD(4) [OF ok] by blast
  show "\<exists>r \<in> set (update_rows q f rs). di_id r = k \<and> up r \<and> di_port r = dl_port l
      \<and> instance_owner r = lease_owner l"
    if in': "l \<in> set (update_rows p g ls)" and held: "lease_held_by k l" for l k
  proof -
    have l: "l \<in> set ls" "\<not> p l" using act [OF in'] held by (auto simp: lease_held_by_def)
    obtain r where r: "r \<in> set rs" "di_id r = k" "up r" "di_port r = dl_port l"
      "instance_owner r = lease_owner l" using ledger_held [OF ok l(1) held] .
    show ?thesis
    proof (cases "q r")
      case True
      then have "up (f r)" "same_instance r (f r)" using f up [OF r(1) True l(1)] held l(2) r True by auto
      then show ?thesis using r True updated_in [OF r(1), of q f] by (auto simp: same_instance_def)
    next
      case False
      then show ?thesis using r updated_in [OF r(1), of q f] by auto
    qed
  qed
  show "url_ok r" if "r \<in> set (update_rows q f rs)" "di_status r = ''running''" for r
    using that run ledger_okD(6) [OF ok] by (auto elim!: in_update_rows split: if_splits)
qed

lemma ledger_ok_reserve:
  assumes ok: "ledger_ok (rs, ls)" and room: "lease_room ls i port owner"
  shows "ledger_ok (rs, ls @ [new_lease now i port owner])"
proof (rule ledger_okI)
  note ledgers = ledger_okD(4) [OF ok]
  show "distinct (map di_id rs)" by (rule ledger_okD(1) [OF ok])
  show "distinct (map dl_id (ls @ [new_lease now i port owner]))"
    using ledger_okD(2) [OF ok] room by (simp add: lease_room_def)
  show "1024 \<le> dl_port l \<and> dl_port l \<le> 65535" if "l \<in> set (ls @ [new_lease now i port owner])" for l
    using that ledger_okD(3) [OF ok] room by (auto simp: lease_room_def)
  show "dl_id l = dl_id m"
    if "l \<in> set (ls @ [new_lease now i port owner])" "m \<in> set (ls @ [new_lease now i port owner])"
      "lease_active l" "lease_active m" "dl_port l = dl_port m \<or> lease_owner l = lease_owner m" for l m
  proof (cases "l \<in> set ls \<and> m \<in> set ls")
    case True
    with ledgers that(3-) show ?thesis by blast
  next
    case False
    have other: "dl_port k \<noteq> port \<and> lease_owner k \<noteq> owner" if "k \<in> set ls" "lease_active k" for k
      using that room unfolding lease_room_def by blast
    from False that(1,2) consider "l = m" | "l \<in> set ls" "m = new_lease now i port owner"
      | "m \<in> set ls" "l = new_lease now i port owner" by auto
    then show ?thesis
      using other [of l] other [of m] that(3-) by cases auto
  qed
  show "\<exists>r \<in> set rs. di_id r = k \<and> up r \<and> di_port r = dl_port l \<and> instance_owner r = lease_owner l"
    if "l \<in> set (ls @ [new_lease now i port owner])" "lease_held_by k l" for l k
    using that ledger_okD(5) [OF ok] by auto
  show "url_ok r" if "r \<in> set rs" "di_status r = ''running''" for r
    using that ledger_okD(6) [OF ok] by blast
qed

lemma ledger_ok_start:
  assumes ok: "ledger_ok (rs, ls)" and vacant: "vacant (rs, ls) owner" and l0: "l0 \<in> set ls"
    and mine: "lease_of owner l0" and fresh: "i \<notin> di_id ` set rs"
  shows "ledger_ok (rs @ [new_instance now i owner (dl_port l0)],
     update_rows (\<lambda>k. dl_id k = dl_id l0) (dl_instance_id_update (\<lambda>_. Some i)) ls)" (is "ledger_ok (?rs, ?ls)")
proof (rule ledger_okI)
  have only: "l = l0" if "l \<in> set ls" "dl_id l = dl_id l0" for l
    using that l0 ledger_okD(2) [OF ok] by (simp add: distinct_map inj_on_def)
  show "distinct (map di_id ?rs)" using ledger_okD(1) [OF ok] fresh by simp
  show "distinct (map dl_id ?ls)" using ledger_okD(2) [OF ok] by (subst map_key_update_rows) simp_all
  show "1024 \<le> dl_port l \<and> dl_port l \<le> 65535" if "l \<in> set ?ls" for l
    using that ledger_okD(3) [OF ok] by (auto elim!: in_update_rows split: if_splits)
  show "dl_id l = dl_id m"
    if l: "l \<in> set ?ls" "lease_active l" and m: "m \<in> set ?ls" "lease_active m"
      and eq: "dl_port l = dl_port m \<or> lease_owner l = lease_owner m" for l m
  proof -
    obtain l' where l': "l' \<in> set ls" "dl_id l' = dl_id l" "lease_active l'" "dl_port l' = dl_port l"
      "lease_owner l' = lease_owner l"
      using l by (auto elim!: in_update_rows split: if_splits)
    obtain m' where m': "m' \<in> set ls" "dl_id m' = dl_id m" "lease_active m'" "dl_port m' = dl_port m"
      "lease_owner m' = lease_owner m"
      using m by (auto elim!: in_update_rows split: if_splits)
    show ?thesis using ledger_same_lease [OF ok l'(1) m'(1)] l' m' eq by auto
  qed
  show "\<exists>r \<in> set ?rs. di_id r = k \<and> up r \<and> di_port r = dl_port l \<and> instance_owner r = lease_owner l"
    if in': "l \<in> set ?ls" and held: "lease_held_by k l" for l k
  proof -
    obtain l' where l': "l' \<in> set ls" "l = (if dl_id l' = dl_id l0 then dl_instance_id_update (\<lambda>_. Some i) l' else l')"
      using in' by (rule in_update_rows)
    show ?thesis
    proof (cases "dl_id l' = dl_id l0")
      case True
      then show ?thesis using l' only held mine by (auto simp: lease_of_def)
    next
      case False
      then have "\<exists>r \<in> set rs. di_id r = k \<and> up r \<and> di_port r = dl_port l \<and> instance_owner r = lease_owner l"
        using ledger_okD(5) [OF ok] l' held by auto
      then show ?thesis by auto
    qed
  qed
  show "url_ok r" if "r \<in> set ?rs" "di_status r = ''running''" for r
    using that ledger_okD(6) [OF ok] by auto
qed

lemma held_unique:
  assumes ok: "ledger_ok (rs, ls)" and "l \<in> set ls" "m \<in> set ls" "lease_held_by k l" "lease_held_by k m"
  shows "l = m"
proof -
  obtain r where r: "r \<in> set rs" "di_id r = k" "di_port r = dl_port l"
    using ledger_held [OF ok assms(2,4)] by blast
  obtain q where q: "q \<in> set rs" "di_id q = k" "di_port q = dl_port m"
    using ledger_held [OF ok assms(3,5)] by blast
  have "r = q" using same_instance_id [OF _ ok r(1) q(1)] r q by simp
  then show ?thesis
    using ledger_same_lease [OF ok assms(2,3)] assms(4,5) r q by (simp add: lease_held_by_def)
qed

lemma ledger_ok_reassign:
  assumes ok: "ledger_ok (rs, ls)"
    and st: "\<And>r. r \<in> set rs \<Longrightarrow> di_id r = i \<Longrightarrow> di_status r = ''starting''"
    and range: "1024 \<le> p" "p \<le> 65535"
    and free: "\<And>l. l \<in> set ls \<Longrightarrow> lease_active l \<Longrightarrow> dl_port l = p \<Longrightarrow> dl_instance_id l = Some i"
  shows "ledger_ok (update_rows (\<lambda>r. di_id r = i) (with_port p) rs,
     update_rows (lease_held_by i) (lease_with_port p) ls)" (is "ledger_ok (?rs, ?ls)")
proof (rule ledger_okI)
  show "distinct (map di_id ?rs)" using ledger_okD(1) [OF ok] by (subst map_key_update_rows) simp_all
  show "distinct (map dl_id ?ls)" using ledger_okD(2) [OF ok] by (subst map_key_update_rows) simp_all
  show "1024 \<le> dl_port l \<and> dl_port l \<le> 65535" if "l \<in> set ?ls" for l
    using that ledger_okD(3) [OF ok] range by (auto elim!: in_update_rows split: if_splits)
  show "dl_id l = dl_id m"
    if l: "l \<in> set ?ls" "lease_active l" and m: "m \<in> set ?ls" "lease_active m"
      and eq: "dl_port l = dl_port m \<or> lease_owner l = lease_owner m" for l m
  proof -
    obtain l' where l': "l' \<in> set ls" "l = (if lease_held_by i l' then lease_with_port p l' else l')"
      using l(1) by (rule in_update_rows)
    obtain m' where m': "m' \<in> set ls" "m = (if lease_held_by i m' then lease_with_port p m' else m')"
      using m(1) by (rule in_update_rows)
    have act: "lease_active l'" "lease_active m'" using l(2) m(2) l' m' by (auto split: if_splits)
    have same: "dl_id l = dl_id l'" "dl_id m = dl_id m'" "lease_owner l = lease_owner l'"
      "lease_owner m = lease_owner m'" using l' m' by auto
    show ?thesis
    proof (cases "lease_held_by i l' \<longleftrightarrow> lease_held_by i m'")
      case True
      show ?thesis
      proof (cases "lease_held_by i l'")
        case held: True
        then have "l' = m'" using held_unique [OF ok l'(1) m'(1)] True by blast
        then show ?thesis using same by simp
      next
        case False
        then have "l = l'" "m = m'" using l' m' True by auto
        then show ?thesis using ledger_same_lease [OF ok l'(1) m'(1) act] eq by simp
      qed
    next
      case False
      have "dl_port l \<noteq> dl_port m"
        using False l' m' act free [OF l'(1)] free [OF m'(1)] by (auto simp: lease_held_by_def)
      then show ?thesis using ledger_same_lease [OF ok l'(1) m'(1) act] eq same by simp
    qed
  qed
  show "\<exists>r \<in> set ?rs. di_id r = k \<and> up r \<and> di_port r = dl_port l \<and> instance_owner r = lease_owner l"
    if in': "l \<in> set ?ls" and held: "lease_held_by k l" for l k
  proof -
    obtain l' where l': "l' \<in> set ls" "l = (if lease_held_by i l' then lease_with_port p l' else l')"
      using in' by (rule in_update_rows)
    have held': "lease_held_by k l'" using held l' by (auto split: if_splits)
    obtain r where r: "r \<in> set rs" "di_id r = k" "up r" "di_port r = dl_port l'" "instance_owner r = lease_owner l'"
      using ledger_held [OF ok l'(1) held'] .
    have "(k = i) = lease_held_by i l'" using held' by (auto simp: lease_held_by_def)
    then show ?thesis
      using l' r by (intro bexI [OF _ updated_in [OF r(1), of "\<lambda>r. di_id r = i" "with_port p"]]) auto
  qed
  show "url_ok r" if "r \<in> set ?rs" "di_status r = ''running''" for r
    using that st ledger_okD(6) [OF ok] by (auto elim!: in_update_rows split: if_splits)
qed

lemma ledger_ok_forget:
  assumes ok: "ledger_ok s"
  shows "ledger_ok (forget_task t s)"
proof (cases s)
  case (Pair rs ls)
  let ?rs = "update_rows (\<lambda>r. di_task_id r = Some t) without_task rs"
  let ?ls = "delete_rows (\<lambda>l. dl_task_id l = Some t) ls"
  have ok: "ledger_ok (rs, ls)" using ok Pair by simp
  have keep: "di_id (without_task r) = di_id r" "up (without_task r) = up r"
    "di_status (without_task r) = di_status r" "url_ok (without_task r) = url_ok r" for r
    by (simp_all add: without_task_def up_def instance_live_def url_ok_def)
  have "ledger_ok (?rs, ?ls)"
  proof (rule ledger_okI)
    show "distinct (map di_id ?rs)"
      using ledger_okD(1) [OF ok] by (subst map_key_update_rows) (simp_all add: keep)
    show "distinct (map dl_id ?ls)" using ledger_okD(2) [OF ok] by (rule distinct_map_delete_rows)
    show "1024 \<le> dl_port l \<and> dl_port l \<le> 65535" if "l \<in> set ?ls" for l
      using that ledger_okD(3) [OF ok] by simp
    show "dl_id l = dl_id m"
      if "l \<in> set ?ls" "m \<in> set ?ls" "lease_active l" "lease_active m"
        "dl_port l = dl_port m \<or> lease_owner l = lease_owner m" for l m
      using ledger_same_lease [OF ok, of l m] that by simp
    show "\<exists>r \<in> set ?rs. di_id r = k \<and> up r \<and> di_port r = dl_port l \<and> instance_owner r = lease_owner l"
      if in': "l \<in> set ?ls" and held: "lease_held_by k l" for l k
    proof -
      have l: "l \<in> set ls" "dl_task_id l \<noteq> Some t" using in' by simp_all
      obtain r where r: "r \<in> set rs" "di_id r = k" "up r" "di_port r = dl_port l" "instance_owner r = lease_owner l"
        using ledger_held [OF ok l(1) held] .
      then have "di_task_id r \<noteq> Some t" using l by (simp add: instance_owner_def lease_owner_def)
      then show ?thesis using r updated_in [OF r(1), of "\<lambda>r. di_task_id r = Some t" without_task] by auto
    qed
    show "url_ok r" if "r \<in> set ?rs" "di_status r = ''running''" for r
      using that ledger_okD(6) [OF ok] by (auto elim!: in_update_rows split: if_splits simp: keep)
  qed
  then show ?thesis using Pair by (simp add: forget_task_def)
qed

lemma orphaned_simps [simp]:
  "same_instance r (orphaned_by_restart now r)" "up (orphaned_by_restart now r)"
  "di_status (orphaned_by_restart now r) = ''orphaned''" "\<not> instance_live (orphaned_by_restart now r)"
  by (simp_all add: same_instance_def orphaned_by_restart_def up_def instance_owner_def instance_live_def)

lemma not_up_status: "\<not> up r \<Longrightarrow> di_status r \<noteq> ''running''"
  by (auto simp: up_def instance_live_def)

lemma ledger_ok_step: "ledger_step s s' \<Longrightarrow> ledger_ok s \<Longrightarrow> ledger_ok s'"
proof (induction rule: ledger_step.induct)
  case (Release rs ls owner now)
  show ?case
    using ledger_ok_deactivate [OF Release.prems, of "released now" "\<lambda>_. False" id "lease_of owner"]
    by (simp add: update_rows_never)
next
  case (Reserve ls l port owner rs now)
  then show ?case by (simp add: ledger_ok_reserve)
next
  case (Start rs ls owner l i now)
  then show ?case by (simp add: ledger_ok_start)
next
  case (Status rs i f ls)
  show ?case
    using ledger_ok_deactivate [OF Status.prems, of "released 0" "\<lambda>r. di_id r = i" f "\<lambda>_. False"] Status.hyps
    by (simp add: update_rows_never same_life_def)
next
  case (Finish rs i f ls now)
  show ?case
    by (rule ledger_ok_deactivate [OF Finish.prems]) (use Finish.hyps not_up_status in auto)
next
  case (Reassign rs i p ls)
  then show ?case by (intro ledger_ok_reassign)
next
  case (Restart rs f ls now)
  let ?p = "\<lambda>l. lease_active l \<and> dl_instance_id l \<noteq> None"
  have "ledger_ok (update_rows (\<lambda>r. True) f rs, update_rows ?p (staled now) ls)"
  proof (rule ledger_ok_deactivate [OF Restart.prems])
    show "same_instance r (f r)" if "r \<in> set rs" for r using Restart.hyps that by blast
    have "di_status (f r) \<noteq> ''running''" if "r \<in> set rs" for r
      using Restart.hyps [OF that] by (auto simp: instance_live_def)
    then show "url_ok (f r)" if "r \<in> set rs" "di_status (f r) = ''running''" for r using that by blast
    show "up (f r)" if "l \<in> set ls" "lease_held_by (di_id r) l" "\<not> ?p l" for r l
      using that by (simp add: lease_held_by_def)
  qed simp
  then show ?case by (simp add: update_rows_def)
qed

subsection \<open>The operations take such steps\<close>

lemma vacant_ledger: "vacant (ledger d) (p, w, t, c) \<longleftrightarrow> \<not> has_active_instance c t d"
  by (simp add: vacant_def ledger_def has_active_instance_def)

lemma insert_lease_Inr:
  "insert_lease now i port owner d = Inr d' \<longleftrightarrow>
     lease_room (dd_leases d) i port owner
     \<and> d' = d\<lparr>dd_leases := dd_leases d @ [new_lease now i port owner]\<rparr>"
  by (auto simp: insert_lease_def lease_room_def port_used_def lease_of_def new_lease_def
      split: prod.splits if_splits)

lemma insert_instance_Inr:
  "insert_instance now i owner port d = Inr d' \<longleftrightarrow>
     i \<notin> di_id ` set (dd_instances d) \<and> 1024 \<le> port \<and> port \<le> 65535
     \<and> d' = d\<lparr>dd_instances := dd_instances d @ [new_instance now i owner port]\<rparr>"
  by (auto simp: insert_instance_def new_instance_def split: prod.splits if_splits)

lemma assign_port_cases:
  obtains (same) "snd (assign_port now l c t port a d) = d" "\<not> is_ok (fst (assign_port now l c t port a d))"
  | (assigned) p w where "vacant (ledger d) (p, w, t, c)" "\<not> port_used port d"
      "lease_room (update_rows (lease_of (p, w, t, c)) (released now) (dd_leases d)) l port (p, w, t, c)"
      "ledger (snd (assign_port now l c t port a d)) = (dd_instances d,
         update_rows (lease_of (p, w, t, c)) (released now) (dd_leases d) @ [new_lease now l port (p, w, t, c)])"
proof (cases "is_ok (validate_port port) \<and> is_ok (validate_dev_actor a)")
  case False
  show ?thesis by (rule same) (use False in \<open>auto simp: assign_port_def checked_simps\<close>)
next
  case True
  let ?f = "assign_port_tx now l c t port"
  show ?thesis
  proof (cases rule: validated_cases [of ?f d])
    case failed
    show ?thesis
      by (rule same) (use failed True in \<open>simp_all add: assign_port_def checked_simps reading_simps\<close>)
  next
    case (good u d')
    have "snd (assign_port now l c t port a d) = d'"
      using True good(2) by (simp add: assign_port_def checked_simps reading_simps)
    moreover obtain p w where "vacant (ledger d) (p, w, t, c)" "\<not> port_used port d"
      "insert_lease now l port (p, w, t, c) (release_leases now (lease_of (p, w, t, c)) d) = Inr d'"
      using good(1) by (auto simp: assign_port_tx_def vacant_ledger Let_def map_outcome_Inr split: sum.splits if_splits)
    ultimately show ?thesis using assigned [of p w] by (simp add: insert_lease_Inr ledger_def)
  qed
qed

lemma release_port_cases:
  obtains (same) "snd (release_port now c t d) = d"
  | (released) p w where "vacant (ledger d) (p, w, t, c)"
      "snd (release_port now c t d) = release_leases now (lease_of (p, w, t, c)) d"
proof (cases rule: validated_cases [of "release_port_tx now c t" d])
  case failed
  show ?thesis by (rule same) (use failed in \<open>simp add: release_port_def\<close>)
next
  case (good v d')
  obtain p w where "vacant (ledger d) (p, w, t, c)" "d' = release_leases now (lease_of (p, w, t, c)) d"
    using good(1) by (auto simp: release_port_tx_def vacant_ledger Let_def split: sum.splits if_splits)
  then show ?thesis using released [of p w] good(2) by (simp add: release_port_def)
qed

lemma lease_for_start_cases:
  assumes "lease_for_start now fresh owner pref d = Inr ((l, port), d1)"
  obtains (old) k where "k \<in> set (dd_leases d)" "lease_of owner k" "l = dl_id k" "port = dl_port k" "d1 = d"
  | (new) "lease_room (dd_leases d) fresh port owner" "l = fresh"
      "d1 = d\<lparr>dd_leases := dd_leases d @ [new_lease now fresh port owner]\<rparr>"
proof (cases "find (lease_of owner) (dd_leases d)")
  case (Some k)
  show ?thesis
    by (rule old [of k]) (use Some assms find_Some_in_set [OF Some] in \<open>simp_all add: lease_for_start_def\<close>)
next
  case None
  obtain q where "find_available_port pref d = Inr q"
    using assms None by (cases "find_available_port pref d") (simp_all add: lease_for_start_def)
  then show ?thesis using assms None new
    by (simp add: lease_for_start_def map_outcome_Inr insert_lease_Inr)
qed

lemma prepare_start_tx_Inr:
  assumes "prepare_start_tx now i fresh c t a d = Inr (u, d')"
  shows "\<exists>p w l port d1 d2. vacant (ledger d) (p, w, t, c)
     \<and> lease_for_start now fresh (p, w, t, c) (Option.bind (config_by_id c d) dc_preferred_port) d
        = Inr ((l, port), d1)
     \<and> insert_instance now i (p, w, t, c) port d1 = Inr d2
     \<and> d' = record_dev_event now i c p ''starting'' a (JObj [(''port'', json_int port)])
        (set_lease_instance l i d2)"
proof (cases "scope_of c t d")
  case (Inl e)
  then show ?thesis using assms by (simp add: prepare_start_tx_def)
next
  case (Inr pw)
  obtain p w where pw: "pw = (p, w)" by (cases pw)
  note a1 = assms [unfolded prepare_start_tx_def Inr pw sum.case prod.case Let_def]
  have vac: "\<not> has_active_instance c t d" using a1 by (auto split: if_splits)
  note a2 = a1 [unfolded if_not_P [OF vac]]
  show ?thesis
  proof (cases "lease_for_start now fresh (p, w, t, c) (Option.bind (config_by_id c d) dc_preferred_port) d")
    case Inl
    then show ?thesis using a2 by simp
  next
    case (Inr r)
    obtain l port d1 where r: "r = ((l, port), d1)" by (cases r) auto
    note a3 = a2 [unfolded Inr r sum.case prod.case]
    show ?thesis
    proof (cases "insert_instance now i (p, w, t, c) port d1")
      case Inl
      then show ?thesis using a3 by simp
    next
      case ins: (Inr d2)
      have "d' = record_dev_event now i c p ''starting'' a (JObj [(''port'', json_int port)])
          (set_lease_instance l i d2)" using a3 unfolding ins sum.case by simp
      then show ?thesis using vac Inr r ins by (intro exI conjI) (simp_all add: vacant_ledger)
    qed
  qed
qed

lemma prepare_start_cases:
  obtains (same) "snd (prepare_start now i fresh c t a d) = d" "\<not> is_ok (fst (prepare_start now i fresh c t a d))"
  | (started) p w d1 k where "vacant (ledger d) (p, w, t, c)"
      "d1 = d \<or> (lease_room (dd_leases d) fresh (dl_port k) (p, w, t, c)
         \<and> k = new_lease now fresh (dl_port k) (p, w, t, c) \<and> d1 = d\<lparr>dd_leases := dd_leases d @ [k]\<rparr>)"
      "k \<in> set (dd_leases d1)" "lease_of (p, w, t, c) k" "i \<notin> di_id ` set (dd_instances d)"
      "ledger (snd (prepare_start now i fresh c t a d)) =
        (dd_instances d @ [new_instance now i (p, w, t, c) (dl_port k)],
         update_rows (\<lambda>m. dl_id m = dl_id k) (dl_instance_id_update (\<lambda>_. Some i)) (dd_leases d1))"
      "fst (prepare_start now i fresh c t a d) = Inr (new_instance now i (p, w, t, c) (dl_port k))"
proof (cases "is_ok (validate_dev_actor a)")
  case False
  show ?thesis by (rule same) (use False in \<open>auto simp: prepare_start_def checked_simps\<close>)
next
  case True
  let ?f = "prepare_start_tx now i fresh c t a"
  show ?thesis
  proof (cases rule: validated_cases [of ?f d])
    case failed
    show ?thesis
      by (rule same) (use failed True in \<open>simp_all add: prepare_start_def checked_simps reading_simps\<close>)
  next
    case (good u d')
    obtain p w l port d1 d2 where vac: "vacant (ledger d) (p, w, t, c)"
      and lease: "lease_for_start now fresh (p, w, t, c) (Option.bind (config_by_id c d) dc_preferred_port) d
        = Inr ((l, port), d1)"
      and inst: "insert_instance now i (p, w, t, c) port d1 = Inr d2"
      and d': "d' = record_dev_event now i c p ''starting'' a (JObj [(''port'', json_int port)])
        (set_lease_instance l i d2)"
      using prepare_start_tx_Inr [OF good(1)] by blast
    have snd: "snd (prepare_start now i fresh c t a d) = d'"
      using True good(2) by (simp add: prepare_start_def checked_simps reading_simps)
    note inst' = inst [unfolded insert_instance_Inr]
    have same_instances: "dd_instances d1 = dd_instances d"
      using lease by (cases rule: lease_for_start_cases) auto
    have led: "ledger d' = (dd_instances d @ [new_instance now i (p, w, t, c) port],
        update_rows (\<lambda>m. dl_id m = l) (dl_instance_id_update (\<lambda>_. Some i)) (dd_leases d1))"
      using inst' same_instances by (simp add: d' ledger_def set_lease_instance_def)
    have "find (\<lambda>r. di_id r = i) (dd_instances d) = None"
      using inst' same_instances by (auto simp: find_None_iff)
    then have "find_instance i d' = Some (new_instance now i (p, w, t, c) port)"
      using led by (simp add: ledger_def find_instance_def find_append)
    then have fst: "fst (prepare_start now i fresh c t a d) = Inr (new_instance now i (p, w, t, c) port)"
      using True good(2) by (simp add: prepare_start_def checked_simps reading_simps)
    show ?thesis
      using lease
    proof (cases rule: lease_for_start_cases)
      case (old k)
      show ?thesis
      proof (rule started [OF vac])
        show "d = d \<or> (lease_room (dd_leases d) fresh (dl_port k) (p, w, t, c)
            \<and> k = new_lease now fresh (dl_port k) (p, w, t, c) \<and> d = d\<lparr>dd_leases := dd_leases d @ [k]\<rparr>)"
          by simp
        show "i \<notin> di_id ` set (dd_instances d)" using inst' same_instances by simp
        show "fst (prepare_start now i fresh c t a d) = Inr (new_instance now i (p, w, t, c) (dl_port k))"
          using fst old by simp
        show "ledger (snd (prepare_start now i fresh c t a d)) =
          (dd_instances d @ [new_instance now i (p, w, t, c) (dl_port k)],
           update_rows (\<lambda>m. dl_id m = dl_id k) (dl_instance_id_update (\<lambda>_. Some i)) (dd_leases d))"
          using led snd old by simp
      qed (fact old)+
    next
      case new
      let ?k = "new_lease now fresh port (p, w, t, c)"
      show ?thesis
      proof (rule started [OF vac])
        show "d1 = d \<or> (lease_room (dd_leases d) fresh (dl_port ?k) (p, w, t, c)
            \<and> ?k = new_lease now fresh (dl_port ?k) (p, w, t, c) \<and> d1 = d\<lparr>dd_leases := dd_leases d @ [?k]\<rparr>)"
          using new by simp
        show "?k \<in> set (dd_leases d1)" using new by simp
        show "lease_of (p, w, t, c) ?k" by (simp add: lease_of_def)
        show "i \<notin> di_id ` set (dd_instances d)" using inst' same_instances by simp
        show "fst (prepare_start now i fresh c t a d) = Inr (new_instance now i (p, w, t, c) (dl_port ?k))"
          using fst by simp
        show "ledger (snd (prepare_start now i fresh c t a d)) =
          (dd_instances d @ [new_instance now i (p, w, t, c) (dl_port ?k)],
           update_rows (\<lambda>m. dl_id m = dl_id ?k) (dl_instance_id_update (\<lambda>_. Some i)) (dd_leases d1))"
          using led snd new by simp
      qed
    qed
  qed
qed

lemma find_instance_Some: "find_instance i d = Some r \<Longrightarrow> r \<in> set (dd_instances d) \<and> di_id r = i"
  by (auto simp: find_instance_def dest: find_Some_in_set)

lemma reading_instance_snd [simp]: "snd (reading_instance i r) = snd r"
  by (simp add: reading_instance_def)

lemma transitioned_same: "same_instance r (transitioned now st pid url v f r)"
  by (simp add: transitioned_def same_instance_def instance_owner_def)

lemma transitioned_status [simp]:
  "di_status (transitioned now st pid url v f r) = st"
  "instance_live (transitioned now st pid url v f r) \<longleftrightarrow> st \<in> {''starting'', ''running'', ''stopping''}"
  "up (transitioned now st pid url v f r) \<longleftrightarrow> st \<in> {''starting'', ''running'', ''stopping'', ''orphaned''}"
  by (auto simp: transitioned_def instance_live_def up_def)

lemma transition_valid_live: "transition_valid cur st \<Longrightarrow> cur \<in> {''starting'', ''running'', ''stopping''}"
  by (auto simp: transition_valid_def split: if_splits)

lemma check_running_Inr:
  "check_running pid url port = Inr u \<Longrightarrow> \<exists>v. url = Some v \<and> validate_local_preview_url v port = Inr ()"
  by (auto simp: check_running_def split: if_splits option.splits)

lemma transition_tx_step:
  assumes ok: "ledger_ok (ledger d)" and tx: "transition_tx now i st pid url v f a rel d = Inr (b, d')"
    and rel: "rel \<longleftrightarrow> st \<in> {''stopped'', ''failed''}"
  shows "d' = d \<or> (\<exists>r. find_instance i d = Some r \<and> instance_live r \<and> ledger d' =
     (update_rows (\<lambda>r. di_id r = i) (transitioned now st pid url v f) (dd_instances d),
      if rel then update_rows (lease_held_by i) (released now) (dd_leases d) else dd_leases d))
     \<and> ledger_step (ledger d) (ledger d')"
proof (cases "find_instance i d")
  case None
  then show ?thesis using tx by (simp add: transition_tx_def)
next
  case (Some r)
  note a1 = tx [unfolded transition_tx_def Some option.case]
  have valid: "transition_valid (di_status r) st" using a1 by (auto split: if_splits)
  define c where "c = (if st = ''running'' then check_running pid url (di_port r) else Inr ())"
  note a3 = a1 [folded c_def]
  from a3 obtain u where c: "c = Inr u" using valid by (cases c) simp_all
  have d': "ledger d' = (update_rows (\<lambda>r. di_id r = i) (transitioned now st pid url v f) (dd_instances d),
      if rel then update_rows (lease_held_by i) (released now) (dd_leases d) else dd_leases d)"
    using a3 valid unfolding c sum.case Let_def by (auto simp: ledger_def)
  have r: "r \<in> set (dd_instances d)" "di_id r = i" using find_instance_Some [OF Some] by auto
  have live: "instance_live r" using transition_valid_live [OF valid] by (simp add: instance_live_def)
  have only: "q = r" if "q \<in> set (dd_instances d)" "di_id q = i" for q
    using same_instance_id [of q r "dd_instances d" "dd_leases d"] that r ok by (simp add: ledger_def)
  have url: "url_ok (transitioned now st pid url v f r)" if "st = ''running''"
    using check_running_Inr [of pid url "di_port r" u] c that
    by (auto simp: c_def url_ok_def transitioned_def coalesce_def)
  have st: "st \<in> {''running'', ''stopping'', ''stopped'', ''failed'', ''orphaned''}"
    using valid by (auto simp: transition_valid_def split: if_splits)
  have "ledger_step (ledger d) (ledger d')"
  proof (cases rel)
    case True
    then have "\<not> up (transitioned now st pid url v f q)" for q using rel by auto
    then show ?thesis unfolding d' using True
      by (simp add: ledger_def) (rule ledger_step.Finish, simp add: transitioned_same)
  next
    case False
    have "same_life q (transitioned now st pid url v f q)" if "q \<in> set (dd_instances d)" "di_id q = i" for q
      using only [OF that] live st False rel url by (auto simp: same_life_def up_def)
    then show ?thesis unfolding d' using False
      by (simp add: ledger_def) (rule ledger_step.Status, simp add: transitioned_same)
  qed
  then show ?thesis using Some live d' by blast
qed

lemma transition_cases:
  assumes ok: "ledger_ok (ledger d)" and rel: "rel \<longleftrightarrow> st \<in> {''stopped'', ''failed''}"
  obtains (same) "snd (transition now i st pid url v f a rel d) = d"
  | (moved) r where "find_instance i d = Some r" "instance_live r"
      "ledger (snd (transition now i st pid url v f a rel d)) =
        (update_rows (\<lambda>r. di_id r = i) (transitioned now st pid url v f) (dd_instances d),
         if rel then update_rows (lease_held_by i) (released now) (dd_leases d) else dd_leases d)"
      "ledger_step (ledger d) (ledger (snd (transition now i st pid url v f a rel d)))"
proof (cases "is_ok (validate_dev_actor a)")
  case False
  show ?thesis by (rule same) (use False in \<open>simp add: transition_def checked_simps\<close>)
next
  case True
  show ?thesis
  proof (cases rule: validated_cases [of "transition_tx now i st pid url v f a rel" d])
    case failed
    show ?thesis by (rule same) (use failed True in \<open>simp add: transition_def checked_simps\<close>)
  next
    case (good b d')
    have snd: "snd (transition now i st pid url v f a rel d) = d'"
      using good True by (simp add: transition_def checked_simps)
    show ?thesis using transition_tx_step [OF ok good(1) rel] same moved unfolding snd by blast
  qed
qed

lemma mark_exited_cases:
  assumes ok: "ledger_ok (ledger d)"
  obtains (same) "snd (mark_exited now i a d) = d"
  | (moved) r f where "find_instance i d = Some r" "instance_live r"
      "ledger (snd (mark_exited now i a d)) =
        (update_rows (\<lambda>r. di_id r = i) f (dd_instances d),
         update_rows (lease_held_by i) (released now) (dd_leases d))"
      "ledger_step (ledger d) (ledger (snd (mark_exited now i a d)))"
proof (cases "is_ok (validate_dev_actor a)")
  case False
  show ?thesis by (rule same) (use False in \<open>simp add: mark_exited_def checked_simps\<close>)
next
  case True
  show ?thesis
  proof (cases rule: validated_cases [of "mark_exited_tx now i a" d])
    case failed
    show ?thesis by (rule same) (use failed True in \<open>simp add: mark_exited_def checked_simps\<close>)
  next
    case (good b d')
    have snd: "snd (mark_exited now i a d) = d'" using good True by (simp add: mark_exited_def checked_simps)
    show ?thesis
    proof (cases "find_instance i d")
      case None
      then show ?thesis using good(1) same snd by (simp add: mark_exited_tx_def)
    next
      case (Some r)
      define f :: "dev_instance \<Rightarrow> dev_instance"
        where "f = (\<lambda>r. r\<lparr>di_status := ''stopped'', di_stopped_at := Some now\<rparr>)"
      note tx = good(1) [unfolded mark_exited_tx_def Some option.case, folded f_def]
      have run: "di_status r = ''running''" using tx by (auto split: if_splits)
      have led: "ledger d' = (update_rows (\<lambda>r. di_id r = i) f (dd_instances d),
         update_rows (lease_held_by i) (released now) (dd_leases d))"
        using tx run by (auto simp: ledger_def)
      have f: "same_instance q (f q)" "\<not> up (f q)" for q
        by (simp_all add: f_def same_instance_def instance_owner_def up_def instance_live_def)
      have "ledger_step (ledger d) (ledger d')"
        unfolding led by (simp add: ledger_def) (rule ledger_step.Finish, simp add: f)
      moreover have "instance_live r" using run by (simp add: instance_live_def)
      ultimately show ?thesis using moved [of r f] Some led unfolding snd by blast
    qed
  qed
qed

lemma reassign_cases:
  assumes ok: "ledger_ok (ledger d)"
  obtains (same) "snd (reassign_instance_port now i p a d) = d"
  | (moved) r where "find_instance i d = Some r" "instance_live r" "1024 \<le> p" "p \<le> 65535"
      "count_rows (lease_held_by i) (dd_leases d) = 1"
      "\<And>l. l \<in> set (dd_leases d) \<Longrightarrow> lease_active l \<Longrightarrow> dl_port l = p \<Longrightarrow> dl_instance_id l = Some i"
      "di_port r \<noteq> p"
      "ledger (snd (reassign_instance_port now i p a d)) =
        (update_rows (\<lambda>r. di_id r = i) (with_port p) (dd_instances d),
         update_rows (lease_held_by i) (lease_with_port p) (dd_leases d))"
      "ledger_step (ledger d) (ledger (snd (reassign_instance_port now i p a d)))"
proof (cases "is_ok (validate_port p) \<and> is_ok (validate_dev_actor a)")
  case False
  show ?thesis by (rule same) (use False in \<open>auto simp: reassign_instance_port_def checked_simps\<close>)
next
  case True
  show ?thesis
  proof (cases rule: validated_cases [of "reassign_port_tx now i p a" d])
    case failed
    show ?thesis by (rule same) (use failed True in \<open>simp add: reassign_instance_port_def checked_simps\<close>)
  next
    case (good b d')
    have snd: "snd (reassign_instance_port now i p a d) = d'"
      using good True by (simp add: reassign_instance_port_def checked_simps)
    have range: "1024 \<le> p" "p \<le> 65535" using True by (auto simp: validate_port_def split: if_splits)
    show ?thesis
    proof (cases "find_instance i d")
      case None
      then show ?thesis using good(1) same snd by (simp add: reassign_port_tx_def)
    next
      case (Some r)
      have upd: "(\<lambda>l. l\<lparr>dl_port := p\<rparr>) = lease_with_port p" "(\<lambda>r. r\<lparr>di_port := p\<rparr>) = with_port p"
        by (simp_all add: lease_with_port_def [abs_def] with_port_def [abs_def])
      note tx = good(1) [unfolded reassign_port_tx_def Some option.case Let_def upd]
      have st: "di_status r = ''starting''" using tx by (auto split: if_splits)
      show ?thesis
      proof (cases "di_port r = p")
        case True
        then show ?thesis using tx same snd st by simp
      next
        case False
        have free: "\<not> (\<exists>l \<in> set (dd_leases d). dl_port l = p \<and> lease_active l \<and> dl_instance_id l \<noteq> Some i)"
          and one: "count_rows (lease_held_by i) (dd_leases d) = 1"
          using tx st False by (auto split: if_splits)
        have led: "ledger d' = (update_rows (\<lambda>r. di_id r = i) (with_port p) (dd_instances d),
            update_rows (lease_held_by i) (lease_with_port p) (dd_leases d))"
          using tx st False free one by (auto simp: ledger_def split: if_splits)
        have r: "r \<in> set (dd_instances d)" "di_id r = i" using find_instance_Some [OF Some] by auto
        have only: "di_status q = ''starting''" if "q \<in> set (dd_instances d)" "di_id q = i" for q
          using same_instance_id [of q r "dd_instances d" "dd_leases d"] that r ok st by (simp add: ledger_def)
        have free': "dl_instance_id l = Some i" if "l \<in> set (dd_leases d)" "lease_active l" "dl_port l = p" for l
          using free that by blast
        have "ledger_step (ledger d) (ledger d')"
          unfolding led unfolding ledger_def by (rule ledger_step.Reassign [OF only range one free'])
        moreover have "instance_live r" using st by (simp add: instance_live_def)
        ultimately show ?thesis using moved [of r] Some led range one free' False unfolding snd by blast
      qed
    qed
  qed
qed

lemma ledger_set_log [simp]:
  "ledger (snd (set_log_artifact i h d)) = (if is_ok (validate_hash h)
     then (update_rows (\<lambda>r. di_id r = i) (\<lambda>r. r\<lparr>di_log_artifact_hash := Some h\<rparr>) (dd_instances d), dd_leases d)
     else ledger d)"
  by (simp add: set_log_artifact_def checked_simps ledger_def)

lemma ledger_save_config [simp]: "ledger (snd (save_config now c d)) = ledger d"
proof (cases rule: validated_cases [of "save_config_tx now c" d])
  case failed
  then show ?thesis by (simp add: save_config_def checked_simps reading_simps)
next
  case (good u d')
  have "ledger d' = ledger d"
    using good(1) by (auto simp: save_config_tx_def upsert_config_def Let_def ledger_def split: if_splits sum.splits option.splits)
  then show ?thesis using good by (simp add: save_config_def checked_simps reading_simps)
qed

lemma ledger_auto_start [simp]: "ledger (snd (set_auto_start now i b d)) = ledger d"
  by (simp add: set_auto_start_def ledger_def Let_def)

lemma ledger_runtime_event [simp]: "ledger (snd (record_runtime_event now i k a v d)) = ledger d"
  by (auto simp: record_runtime_event_def checked_simps transaction_def ledger_def split: option.split)

lemma fold_record_ledger:
  "ledger (fold (\<lambda>i. record_dev_event now (di_id i) (di_config_id i) (di_project_id i) k a v) is d) = ledger d"
  by (induction "is" arbitrary: d) (simp_all add: ledger_def)

lemma update_rows_twice:
  "update_rows q g (update_rows p f t) = map (\<lambda>r. let r' = if p r then f r else r in if q r' then g r' else r') t"
  by (simp add: update_rows_def Let_def)

lemma restart_step:
  obtains f where
    "\<forall>r. same_instance r (f r) \<and> di_status (f r) = (if instance_live r then ''orphaned'' else di_status r)"
    "ledger (snd (recover_dev_servers now d)) = (map f (dd_instances d),
       update_rows (\<lambda>l. lease_active l \<and> dl_instance_id l \<noteq> None) (staled now) (dd_leases d))"
proof -
  define q :: "dev_instance \<Rightarrow> bool" where "q = (\<lambda>i. di_status i = ''orphaned'' \<and> (\<exists>l \<in> set (dd_leases d). lease_held_by (di_id i) l))"
  define f :: "dev_instance \<Rightarrow> dev_instance" where "f = (\<lambda>r. let r' = if instance_live r then orphaned_by_restart now r else r
     in if q r' then r'\<lparr>di_pid := None\<rparr> else r')"
  have "\<forall>r. same_instance r (f r) \<and> di_status (f r) = (if instance_live r then ''orphaned'' else di_status r)"
    by (simp add: f_def Let_def same_instance_def instance_owner_def orphaned_by_restart_def)
  moreover have "ledger (snd (recover_dev_servers now d)) = (map f (dd_instances d),
       update_rows (\<lambda>l. lease_active l \<and> dl_instance_id l \<noteq> None) (staled now) (dd_leases d))"
    using fold_record_ledger [of now "''orphaned''" "''system''"
        "JObj [(''reason'', JStr ''process_restart'')]" "filter instance_live (dd_instances d)" d]
    by (simp add: recover_dev_servers_def Let_def ledger_def update_rows_twice f_def q_def staled_def [abs_def])
  ultimately show thesis using that by blast
qed

text \<open>Which operations delete a task.\<close>

definition deletes_task :: "dev_op \<Rightarrow> bool" where
  "deletes_task op \<longleftrightarrow> (case op of DevTask (OpDelete i) \<Rightarrow> True | _ \<Rightarrow> False)"

lemma delete_task_ledger:
  "ledger (snd (delete_task_with_servers i d)) = ledger d
   \<or> ledger (snd (delete_task_with_servers i d)) = forget_task i (ledger d)"
  by (simp add: delete_task_with_servers_def split_beta ledger_def forget_task_def without_task_def [abs_def])

lemma task_step_ledger:
  "\<not> deletes_task (DevTask op) \<Longrightarrow> ledger (dev_task_step x op d) = ledger d"
  by (cases op) (simp_all add: dev_task_step_def deletes_task_def ledger_def)

lemma same_ledger: "ledger s = ledger s' \<Longrightarrow> ledger_step\<^sup>*\<^sup>* (ledger s) (ledger s')"
  by simp

lemma dev_step_ledger:
  assumes ok: "ledger_ok (ledger d)" and del: "\<not> deletes_task op"
  shows "ledger_step\<^sup>*\<^sup>* (ledger d) (ledger (dev_step x op d))"
proof -
  have moved: "ledger_step\<^sup>*\<^sup>* (ledger d) (ledger (snd (transition now i st pid url v f a rel d)))"
    if "rel \<longleftrightarrow> st \<in> {''stopped'', ''failed''}" for now i st pid url v f a rel
    using transition_cases [OF ok that, of now i pid url v f a] by cases auto
  show ?thesis
  proof (cases op)
    case (DevAssign now l c t port a)
    show ?thesis
      using assign_port_cases [of now l c t port a d]
    proof cases
      case same
      then show ?thesis using DevAssign by simp
    next
      case (assigned p w)
      then have "ledger_step (ledger d) (dd_instances d, update_rows (lease_of (p, w, t, c)) (released now) (dd_leases d))"
        unfolding ledger_def by (intro ledger_step.Release)
      moreover have "ledger_step (dd_instances d, update_rows (lease_of (p, w, t, c)) (released now) (dd_leases d))
          (ledger (snd (assign_port now l c t port a d)))"
        unfolding assigned(4) using assigned(3) by (rule ledger_step.Reserve)
      ultimately show ?thesis using DevAssign by auto
    qed
  next
    case (DevRelease now c t)
    show ?thesis
      using release_port_cases [of now c t d]
    proof cases
      case same
      then show ?thesis using DevRelease by simp
    next
      case (released p w)
      then have "ledger_step (ledger d) (ledger (release_leases now (lease_of (p, w, t, c)) d))"
        unfolding ledger_def by (simp add: ledger_step.Release)
      then show ?thesis using DevRelease released by auto
    qed
  next
    case (DevStart now i l c t a)
    show ?thesis
      using prepare_start_cases [of now i l c t a d]
    proof cases
      case same
      then show ?thesis using DevStart by simp
    next
      case (started p w d1 k)
      have one: "ledger_step\<^sup>*\<^sup>* (ledger d) (dd_instances d, dd_leases d1)"
      proof (cases "d1 = d")
        case True
        then show ?thesis by (simp add: ledger_def)
      next
        case False
        then have "lease_room (dd_leases d) l (dl_port k) (p, w, t, c)"
          "dd_leases d1 = dd_leases d @ [new_lease now l (dl_port k) (p, w, t, c)]"
          using started(2) by auto
        then show ?thesis unfolding ledger_def by (auto intro: ledger_step.Reserve)
      qed
      have "dd_leases d1 = dd_leases d
          \<or> dd_leases d1 = dd_leases d @ [new_lease now l (dl_port k) (p, w, t, c)]"
        using started(2) by auto
      then have "(\<exists>m \<in> set (dd_leases d1). lease_held_by z m) = (\<exists>m \<in> set (dd_leases d). lease_held_by z m)" for z
        by auto
      then have "vacant (dd_instances d, dd_leases d1) (p, w, t, c)"
        using started(1) by (simp add: vacant_def ledger_def holds_port_iff)
      then have "ledger_step (dd_instances d, dd_leases d1) (ledger (snd (prepare_start now i l c t a d)))"
        unfolding started(6) by (rule ledger_step.Start [OF _ started(3,4,5)])
      then show ?thesis using one DevStart by auto
    qed
  next
    case (DevExited now i a)
    show ?thesis using mark_exited_cases [OF ok, of now i a] DevExited by cases auto
  next
    case (DevReassign now i p a)
    show ?thesis using reassign_cases [OF ok, of now i p a] DevReassign by cases auto
  next
    case (DevLog i h)
    have log: "same_instance r (r\<lparr>di_log_artifact_hash := Some h\<rparr>)" "up (r\<lparr>di_log_artifact_hash := Some h\<rparr>) = up r"
      "instance_live (r\<lparr>di_log_artifact_hash := Some h\<rparr>) = instance_live r"
      "url_ok (r\<lparr>di_log_artifact_hash := Some h\<rparr>) = url_ok r" for r :: dev_instance
      by (simp_all add: same_instance_def up_def instance_owner_def instance_live_def url_ok_def)
    have "\<forall>r \<in> set (dd_instances d). di_status r = ''running'' \<longrightarrow> url_ok r"
      using ok unfolding ledger_def by (rule ledger_okD(6))
    then have "ledger_step (ledger d) (update_rows (\<lambda>r. di_id r = i) (\<lambda>r. r\<lparr>di_log_artifact_hash := Some h\<rparr>) (dd_instances d), dd_leases d)"
      unfolding ledger_def by (intro ledger_step.Status) (simp add: same_life_def log)
    then show ?thesis using DevLog by (auto simp: r_into_rtranclp)
  next
    case (DevRestart now)
    obtain f where f: "\<forall>r. same_instance r (f r) \<and> di_status (f r) = (if instance_live r then ''orphaned'' else di_status r)"
      "ledger (snd (recover_dev_servers now d)) = (map f (dd_instances d),
         update_rows (\<lambda>l. lease_active l \<and> dl_instance_id l \<noteq> None) (staled now) (dd_leases d))"
      using restart_step [of now d] by blast
    have "ledger_step (ledger d) (ledger (snd (recover_dev_servers now d)))"
      unfolding f(2) unfolding ledger_def by (rule ledger_step.Restart) (use f(1) in blast)
    then show ?thesis using DevRestart by auto
  next
    case (DevTask op')
    then show ?thesis using task_step_ledger [of op' x d] del by simp
  qed (simp_all add: mark_running_def begin_stop_def mark_stopped_def mark_failed_def mark_orphaned_def moved)
qed

lemma ledger_ok_dev_step:
  assumes "ledger_ok (ledger d)"
  shows "ledger_ok (ledger (dev_step x op d))"
proof (cases "deletes_task op")
  case True
  then obtain i where "op = DevTask (OpDelete i)"
    by (auto simp: deletes_task_def split: dev_op.splits task_op.splits)
  then show ?thesis
    using delete_task_ledger [of i d] assms ledger_ok_forget [OF assms, of i] by (auto simp: dev_task_step_def)
next
  case False
  from dev_step_ledger [OF assms False, of x] assms show ?thesis
    by (induction rule: rtranclp_induct) (auto intro: ledger_ok_step)
qed

lemma ledger_ok_run: "ledger_ok (ledger (run (dev_step x) ops (no_servers t)))"
proof -
  have "ledger_ok (ledger (no_servers t))" by (simp add: no_servers_def ledger_def ledger_ok_def)
  with ledger_ok_dev_step show ?thesis by (rule run_invariant)
qed

subsection \<open>The pool of ports\<close>

text \<open>What the ledger is for: a partial map from ports to the owners that hold them.\<close>

type_synonym pool = "int \<rightharpoonup> port_owner"

definition ports_of :: "dev_db \<Rightarrow> pool" where
  "ports_of d = map_of (map (\<lambda>l. (dl_port l, lease_owner l)) (filter lease_active (dd_leases d)))"

definition owner_task :: "port_owner \<Rightarrow> uuid option" where
  "owner_task owner = fst (snd (snd owner))"

text \<open>
  What each operation may do to the pool. An operation that fails, or that does not concern
  ports, leaves it alone.
\<close>

fun pool_spec :: "dev_op \<Rightarrow> pool \<Rightarrow> pool \<Rightarrow> bool" where
  "pool_spec (DevAssign now l c t port a) P P' \<longleftrightarrow> P' = P \<or>
     (port \<notin> dom P \<and> 1024 \<le> port \<and> port \<le> 65535 \<and>
      (\<exists>p w. P' = (P |` {q. P q \<noteq> Some (p, w, t, c)}) (port \<mapsto> (p, w, t, c))))"
| "pool_spec (DevRelease now c t) P P' \<longleftrightarrow> P' = P \<or> (\<exists>p w. P' = P |` {q. P q \<noteq> Some (p, w, t, c)})"
| "pool_spec (DevStart now i l c t a) P P' \<longleftrightarrow> P' = P \<or>
     (\<exists>port p w. port \<notin> dom P \<and> (p, w, t, c) \<notin> ran P \<and> 1024 \<le> port \<and> port \<le> 65535
        \<and> P' = P(port \<mapsto> (p, w, t, c)))"
| "pool_spec (DevStopped now i a) P P' \<longleftrightarrow> P' = P \<or> (\<exists>port. P' = P(port := None))"
| "pool_spec (DevFailed now i f a) P P' \<longleftrightarrow> P' = P \<or> (\<exists>port. P' = P(port := None))"
| "pool_spec (DevExited now i a) P P' \<longleftrightarrow> P' = P \<or> (\<exists>port. P' = P(port := None))"
| "pool_spec (DevReassign now i port a) P P' \<longleftrightarrow> P' = P \<or>
     (\<exists>old owner. P old = Some owner \<and> port \<notin> dom P \<and> 1024 \<le> port \<and> port \<le> 65535
        \<and> P' = P(old := None, port \<mapsto> owner))"
| "pool_spec (DevRestart now) P P' \<longleftrightarrow> (\<exists>ports. P' = P |` ports)"
| "pool_spec (DevTask (OpDelete t)) P P' \<longleftrightarrow>
     P' = P \<or> P' = P |` {q. \<forall>owner. P q = Some owner \<longrightarrow> owner_task owner \<noteq> Some t}"
| "pool_spec op P P' \<longleftrightarrow> P' = P"

definition pool_of :: "port_lease list \<Rightarrow> pool" where
  "pool_of ls = map_of (map (\<lambda>l. (dl_port l, lease_owner l)) (filter lease_active ls))"

lemma ports_of_ledger: "ports_of d = pool_of (snd (ledger d))"
  by (simp add: ports_of_def pool_of_def ledger_def)

lemma distinct_ports:
  assumes ok: "ledger_ok (rs, ls)"
  shows "distinct (map dl_port (filter lease_active ls))"
  by (rule distinct_map_filter_key [OF ledger_okD(2) [OF ok]])
    (use ledger_same_lease [OF ok] in blast)

lemma pool_of_Some:
  assumes ok: "ledger_ok (rs, ls)"
  shows "pool_of ls port = Some owner \<longleftrightarrow> (\<exists>l \<in> set ls. lease_active l \<and> dl_port l = port \<and> lease_owner l = owner)"
proof -
  have "distinct (map fst (map (\<lambda>l. (dl_port l, lease_owner l)) (filter lease_active ls)))"
    using distinct_ports [OF ok] by (simp add: comp_def)
  then have "pool_of ls port = Some owner
      \<longleftrightarrow> (port, owner) \<in> set (map (\<lambda>l. (dl_port l, lease_owner l)) (filter lease_active ls))"
    unfolding pool_of_def by (rule map_of_eq_Some_iff)
  then show ?thesis by auto
qed

lemma pool_eqI: "(\<And>port owner. P port = Some owner \<longleftrightarrow> Q port = Some owner) \<Longrightarrow> P = (Q :: pool)"
  by (rule ext) (metis option.exhaust)

lemma restrict_Some: "(P |` S) q = Some v \<longleftrightarrow> q \<in> S \<and> P q = Some v"
  by (simp add: restrict_map_def)

lemma pool_deactivated:
  assumes ok: "ledger_ok (rs, update_rows p g ls)" and g: "\<And>l. \<not> lease_active (g l)"
  shows "pool_of (update_rows p g ls) port = Some owner
     \<longleftrightarrow> (\<exists>l \<in> set ls. \<not> p l \<and> lease_active l \<and> dl_port l = port \<and> lease_owner l = owner)"
  unfolding pool_of_Some [OF ok] bex_update_rows by (rule bex_cong) (use g in auto)

lemma pool_release:
  assumes "ledger_ok (rs, ls)" "ledger_ok (rs', update_rows (lease_of owner) (released now) ls)"
  shows "pool_of (update_rows (lease_of owner) (released now) ls) = pool_of ls |` {q. pool_of ls q \<noteq> Some owner}"
proof (rule pool_eqI)
  fix port v
  show "pool_of (update_rows (lease_of owner) (released now) ls) port = Some v
      \<longleftrightarrow> (pool_of ls |` {q. pool_of ls q \<noteq> Some owner}) port = Some v"
    unfolding pool_deactivated [OF assms(2) released_simps(1)] restrict_Some
    using pool_of_Some [OF assms(1), of port v] by (auto simp: lease_of_def)
qed

lemma pool_append:
  "pool_of (ls @ [new_lease now l port owner]) = (case pool_of ls port of None \<Rightarrow> (pool_of ls)(port \<mapsto> owner)
     | Some v \<Rightarrow> pool_of ls)"
  by (rule ext) (simp add: pool_of_def map_add_def split: option.split)

lemma pool_finish:
  assumes ok: "ledger_ok (rs, ls)" and ok': "ledger_ok (rs', update_rows (lease_held_by i) (released now) ls)"
  shows "pool_of (update_rows (lease_held_by i) (released now) ls) = pool_of ls
     \<or> (\<exists>port. pool_of (update_rows (lease_held_by i) (released now) ls) = (pool_of ls)(port := None))"
proof (cases "\<exists>l \<in> set ls. lease_held_by i l")
  case False
  then have "update_rows (lease_held_by i) (released now) ls = ls" by (intro update_rows_none) auto
  then show ?thesis by simp
next
  case True
  then obtain l where l: "l \<in> set ls" "lease_held_by i l" by blast
  then have act: "lease_active l" by (simp add: lease_held_by_def)
  have "pool_of (update_rows (lease_held_by i) (released now) ls) = (pool_of ls)(dl_port l := None)"
  proof (rule pool_eqI)
    fix port v
    have "(\<not> lease_held_by i m) = (dl_port m \<noteq> dl_port l)" if "m \<in> set ls" "lease_active m" for m
      using held_unique [OF ok that(1) l(1) _ l(2)] ledger_same_lease [OF ok that(1) l(1) that(2) act] l by blast
    then show "pool_of (update_rows (lease_held_by i) (released now) ls) port = Some v
        \<longleftrightarrow> ((pool_of ls)(dl_port l := None)) port = Some v"
      unfolding pool_deactivated [OF ok' released_simps(1)]
      using pool_of_Some [OF ok, of port v] by (auto simp: fun_upd_def)
  qed
  then show ?thesis by blast
qed

lemma pool_reassign:
  assumes ok: "ledger_ok (rs, ls)" and ok': "ledger_ok (rs', update_rows (lease_held_by i) (lease_with_port p) ls)"
    and one: "count_rows (lease_held_by i) ls = 1"
    and free: "\<And>l. l \<in> set ls \<Longrightarrow> lease_active l \<Longrightarrow> dl_port l = p \<Longrightarrow> dl_instance_id l = Some i"
    and r: "r \<in> set rs" "di_id r = i" "di_port r \<noteq> p"
  shows "\<exists>old owner. pool_of ls old = Some owner \<and> p \<notin> dom (pool_of ls)
     \<and> pool_of (update_rows (lease_held_by i) (lease_with_port p) ls) = (pool_of ls)(old := None, p \<mapsto> owner)"
proof -
  obtain l where l: "l \<in> set ls" "lease_held_by i l" using one count_rows_pos_iff [of "lease_held_by i" ls] by auto
  then have act: "lease_active l" by (simp add: lease_held_by_def)
  have port: "dl_port l \<noteq> p"
  proof -
    obtain q where "q \<in> set rs" "di_id q = i" "di_port q = dl_port l" using ledger_held [OF ok l] by blast
    then show ?thesis using same_instance_id [of q r rs ls] ok r by auto
  qed
  have only: "lease_held_by i m \<longleftrightarrow> m = l" if "m \<in> set ls" for m
    using held_unique [OF ok that l(1) _ l(2)] l by blast
  have nofree: "dl_port m \<noteq> p" if "m \<in> set ls" "lease_active m" for m
    using free [OF that] only [OF that(1)] that(2) port by (auto simp: lease_held_by_def)
  have "pool_of ls p \<noteq> Some v" for v unfolding pool_of_Some [OF ok] using nofree by blast
  then have "pool_of ls p = None" by (cases "pool_of ls p") blast+
  moreover have "pool_of ls (dl_port l) = Some (lease_owner l)" using pool_of_Some [OF ok] l act by auto
  moreover have "pool_of (update_rows (lease_held_by i) (lease_with_port p) ls)
      = (pool_of ls)(dl_port l := None, p \<mapsto> lease_owner l)"
  proof (rule pool_eqI)
    fix q v
    have "(\<exists>m \<in> set ls. lease_active (if lease_held_by i m then lease_with_port p m else m)
          \<and> dl_port (if lease_held_by i m then lease_with_port p m else m) = q
          \<and> lease_owner (if lease_held_by i m then lease_with_port p m else m) = v)
        \<longleftrightarrow> (q = p \<and> lease_owner l = v) \<or> (\<exists>m \<in> set ls. m \<noteq> l \<and> lease_active m \<and> dl_port m = q \<and> lease_owner m = v)"
      using l act only by (auto split: if_splits)
    also have "\<dots> \<longleftrightarrow> ((pool_of ls)(dl_port l := None, p \<mapsto> lease_owner l)) q = Some v"
    proof -
      have "m \<noteq> l \<longleftrightarrow> dl_port m \<noteq> dl_port l" if "m \<in> set ls" "lease_active m" for m
        using ledger_same_lease [OF ok that(1) l(1) that(2) act] by blast
      then show ?thesis using pool_of_Some [OF ok, of q v] nofree by (auto simp: fun_upd_def)
    qed
    finally show "pool_of (update_rows (lease_held_by i) (lease_with_port p) ls) q = Some v
        \<longleftrightarrow> ((pool_of ls)(dl_port l := None, p \<mapsto> lease_owner l)) q = Some v"
      unfolding pool_of_Some [OF ok'] bex_update_rows .
  qed
  ultimately show ?thesis by blast
qed

lemma pool_restart:
  assumes ok: "ledger_ok (rs, ls)" and ok': "ledger_ok (rs', update_rows p (staled now) ls)"
  shows "\<exists>ports. pool_of (update_rows p (staled now) ls) = pool_of ls |` ports"
proof -
  let ?ports = "{q. \<exists>l \<in> set ls. \<not> p l \<and> lease_active l \<and> dl_port l = q}"
  have "pool_of (update_rows p (staled now) ls) = pool_of ls |` ?ports"
  proof (rule pool_eqI)
    fix q v
    show "pool_of (update_rows p (staled now) ls) q = Some v \<longleftrightarrow> (pool_of ls |` ?ports) q = Some v"
      unfolding pool_deactivated [OF ok' lease_held_simps(9)] restrict_Some pool_of_Some [OF ok]
      using ledger_same_lease [OF ok] by blast
  qed
  then show ?thesis by blast
qed

lemma pool_forget:
  assumes ok: "ledger_ok (rs, ls)"
  shows "pool_of (snd (forget_task t (rs, ls)))
     = pool_of ls |` {q. \<forall>owner. pool_of ls q = Some owner \<longrightarrow> owner_task owner \<noteq> Some t}"
proof (rule pool_eqI)
  fix q v
  obtain rs' where ok': "ledger_ok (rs', delete_rows (\<lambda>l. dl_task_id l = Some t) ls)"
    using ledger_ok_forget [OF ok, of t] by (simp add: forget_task_def)
  have task: "owner_task v = dl_task_id l" if "lease_owner l = v" for l v
    using that by (auto simp: owner_task_def lease_owner_def)
  have "(pool_of ls |` {q. \<forall>owner. pool_of ls q = Some owner \<longrightarrow> owner_task owner \<noteq> Some t}) q = Some v
      \<longleftrightarrow> pool_of ls q = Some v \<and> owner_task v \<noteq> Some t"
    unfolding restrict_Some mem_Collect_eq by (metis option.inject)
  also have "\<dots> \<longleftrightarrow> (\<exists>l \<in> set (delete_rows (\<lambda>l. dl_task_id l = Some t) ls). lease_active l \<and> dl_port l = q \<and> lease_owner l = v)"
    unfolding pool_of_Some [OF ok] set_delete_rows using task by fastforce
  finally show "pool_of (snd (forget_task t (rs, ls))) q = Some v
      \<longleftrightarrow> (pool_of ls |` {q. \<forall>owner. pool_of ls q = Some owner \<longrightarrow> owner_task owner \<noteq> Some t}) q = Some v"
    unfolding forget_task_def snd_conv pool_of_Some [OF ok'] by blast
qed

lemma pool_step_transition:
  assumes ok: "ledger_ok (ledger d)" and rel: "rel \<longleftrightarrow> st \<in> {''stopped'', ''failed''}"
    and ok': "ledger_ok (ledger d')" and d': "d' = snd (transition now i st pid url v f a rel d)"
  shows "ports_of d' = ports_of d \<or> (rel \<and> (\<exists>port. ports_of d' = (ports_of d)(port := None)))"
  using transition_cases [OF ok rel, of now i pid url v f a, case_names same moved]
proof cases
  case same
  then show ?thesis by (simp add: d')
next
  case (moved r)
  have leases: "snd (ledger d') = (if rel then update_rows (lease_held_by i) (released now) (dd_leases d) else dd_leases d)"
    unfolding d' moved(3) by simp
  show ?thesis
  proof (cases rel)
    case True
    then have "ledger_ok (fst (ledger d'), update_rows (lease_held_by i) (released now) (dd_leases d))"
      using ok' leases by (metis prod.collapse)
    from pool_finish [OF ok [unfolded ledger_def] this] show ?thesis
      using True leases by (simp add: ports_of_ledger) (simp add: ledger_def)
  next
    case False
    then show ?thesis using leases by (simp add: ports_of_ledger) (simp add: ledger_def)
  qed
qed

lemma pool_none: "\<not> port_used port d \<Longrightarrow> ledger_ok (ledger d) \<Longrightarrow> ports_of d port = None"
  using pool_of_Some [of "dd_instances d" "dd_leases d" port]
  by (cases "ports_of d port") (auto simp: ports_of_ledger ledger_def port_used_def)

lemma room_unused:
  assumes ok: "ledger_ok (rs, ls)" and room: "lease_room ls i port owner"
  shows "pool_of ls port = None" "owner \<notin> ran (pool_of ls)"
proof -
  have no: "dl_port l \<noteq> port \<and> lease_owner l \<noteq> owner" if "l \<in> set ls" "lease_active l" for l
    using room that unfolding lease_room_def by blast
  have "pool_of ls port \<noteq> Some v" for v unfolding pool_of_Some [OF ok] using no by blast
  then show "pool_of ls port = None" by (cases "pool_of ls port") blast+
  show "owner \<notin> ran (pool_of ls)"
    unfolding ran_def mem_Collect_eq pool_of_Some [OF ok] using no by blast
qed

lemma pool_spec_step:
  assumes ok: "ledger_ok (ledger d)"
  shows "pool_spec op (ports_of d) (ports_of (dev_step x op d))"
proof -
  note ok' = ledger_ok_dev_step [OF ok, of x op]
  note okd = ok [unfolded ledger_def]
  have ok'': "ledger_ok (rs, ls)" if "ledger (dev_step x op d) = (rs, ls)" for rs ls using ok' that by simp
  have tr: "ports_of (snd (transition now i st pid url v f a rel d)) = ports_of d
      \<or> (rel \<and> (\<exists>port. ports_of (snd (transition now i st pid url v f a rel d)) = (ports_of d)(port := None)))"
    if "rel \<longleftrightarrow> st \<in> {''stopped'', ''failed''}" "dev_step x op d = snd (transition now i st pid url v f a rel d)"
    for now i st pid url v f a rel
    using pool_step_transition [OF ok that(1), of _ now i pid url v f a] ok' that(2) by metis
  show ?thesis
  proof (cases op)
    case (DevAssign now l c t port a)
    show ?thesis
      using assign_port_cases [of now l c t port a d]
    proof cases
      case same
      then show ?thesis using DevAssign by simp
    next
      case (assigned p w)
      let ?o = "(p, w, t, c)" and ?ls = "update_rows (lease_of (p, w, t, c)) (released now) (dd_leases d)"
      have rel: "ledger_ok (dd_instances d, ?ls)"
        using ledger_ok_step [OF ledger_step.Release okd] assigned(1) by (simp add: ledger_def)
      have "pool_of ?ls = ports_of d |` {q. ports_of d q \<noteq> Some ?o}"
        using pool_release [OF okd rel] by (simp add: ports_of_ledger ledger_def)
      then have "ports_of (dev_step x op d) = (ports_of d |` {q. ports_of d q \<noteq> Some ?o})(port \<mapsto> ?o)"
        using assigned(4) room_unused [OF rel assigned(3)] DevAssign by (simp add: ports_of_ledger pool_append)
      moreover have "1024 \<le> port" "port \<le> 65535" using assigned(3) by (simp_all add: lease_room_def)
      moreover have "port \<notin> dom (ports_of d)" using pool_none [OF assigned(2) ok] by (simp add: domIff)
      ultimately show ?thesis using DevAssign by auto
    qed
  next
    case (DevRelease now c t)
    show ?thesis
      using release_port_cases [of now c t d]
    proof cases
      case same
      then show ?thesis using DevRelease by simp
    next
      case (released p w)
      have "ports_of (dev_step x op d) = ports_of d |` {q. ports_of d q \<noteq> Some (p, w, t, c)}"
        using pool_release [OF okd ok''] released(2) DevRelease by (simp add: ports_of_ledger ledger_def)
      then show ?thesis using DevRelease by auto
    qed
  next
    case (DevStart now i l c t a)
    show ?thesis
      using prepare_start_cases [of now i l c t a d]
    proof cases
      case same
      then show ?thesis using DevStart by simp
    next
      case (started p w d1 k)
      have "map (\<lambda>l. (dl_port l, lease_owner l)) (filter lease_active
            (update_rows (\<lambda>m. dl_id m = dl_id k) (dl_instance_id_update (\<lambda>_. Some i)) ls))
          = map (\<lambda>l. (dl_port l, lease_owner l)) (filter lease_active ls)" for ls
        by (induction ls) auto
      then have step: "ports_of (dev_step x op d) = pool_of (dd_leases d1)"
        using started(6) DevStart by (simp add: ports_of_ledger pool_of_def)
      show ?thesis
      proof (cases "d1 = d")
        case True
        then show ?thesis using step DevStart by (simp add: ports_of_def pool_of_def)
      next
        case False
        then have room: "lease_room (dd_leases d) l (dl_port k) (p, w, t, c)"
          and ls: "dd_leases d1 = dd_leases d @ [new_lease now l (dl_port k) (p, w, t, c)]"
          using started(2) by auto
        have "ports_of (dev_step x op d) = (ports_of d)(dl_port k \<mapsto> (p, w, t, c))"
          using step room_unused(1) [OF okd room] by (simp add: ls pool_append) (simp add: ports_of_def pool_of_def)
        moreover have "dl_port k \<notin> dom (ports_of d)" "(p, w, t, c) \<notin> ran (ports_of d)"
          using room_unused [OF okd room] by (simp_all add: ports_of_def pool_of_def domIff)
        moreover have "1024 \<le> dl_port k" "dl_port k \<le> 65535" using room by (simp_all add: lease_room_def)
        ultimately show ?thesis using DevStart by auto
      qed
    qed
  next
    case (DevExited now i a)
    show ?thesis
      using mark_exited_cases [OF ok, of now i a, case_names same moved]
    proof cases
      case same
      then show ?thesis using DevExited by simp
    next
      case (moved r f)
      from pool_finish [OF okd ok''] show ?thesis
        using moved(3) DevExited by (simp add: ports_of_ledger) (simp add: ledger_def)
    qed
  next
    case (DevReassign now i p a)
    show ?thesis
      using reassign_cases [OF ok, of now i p a, case_names same moved]
    proof cases
      case same
      then show ?thesis using DevReassign by simp
    next
      case (moved r)
      have r: "r \<in> set (dd_instances d)" "di_id r = i" using find_instance_Some [OF moved(1)] by auto
      have led: "ledger (dev_step x op d) = (update_rows (\<lambda>r. di_id r = i) (with_port p) (dd_instances d),
          update_rows (lease_held_by i) (lease_with_port p) (dd_leases d))"
        using moved(8) by (simp only: DevReassign dev_step.simps)
      have P: "ports_of d = pool_of (dd_leases d)"
        "ports_of (dev_step x op d) = pool_of (update_rows (lease_held_by i) (lease_with_port p) (dd_leases d))"
        by (simp_all only: ports_of_ledger led snd_conv) (simp add: ledger_def)
      show ?thesis
        unfolding P unfolding DevReassign pool_spec.simps
        using pool_reassign [OF okd ok'' [OF led] moved(5,6) r moved(7)] moved(3,4) by blast
    qed
  next
    case (DevRestart now)
    obtain f where "ledger (snd (recover_dev_servers now d)) = (map f (dd_instances d),
         update_rows (\<lambda>l. lease_active l \<and> dl_instance_id l \<noteq> None) (staled now) (dd_leases d))"
      using restart_step [of now d] by blast
    then show ?thesis
      using pool_restart [OF okd ok''] DevRestart by (simp add: ports_of_ledger) (simp add: ledger_def)
  next
    case (DevTask op')
    show ?thesis
    proof (cases op')
      case (OpDelete t)
      let ?d = "snd (delete_task_with_servers t d)"
      have dev: "dev_step x (DevTask (OpDelete t)) d = ?d" by (simp add: dev_task_step_def)
      have P: "ports_of d = pool_of (dd_leases d)" by (simp add: ports_of_def pool_of_def)
      have "ports_of ?d = ports_of d \<or> ports_of ?d
          = ports_of d |` {q. \<forall>owner. ports_of d q = Some owner \<longrightarrow> owner_task owner \<noteq> Some t}"
      proof (cases "ledger ?d = ledger d")
        case True
        then show ?thesis by (simp add: ports_of_ledger)
      next
        case False
        then have "ledger ?d = forget_task t (ledger d)" using delete_task_ledger [of t d] by blast
        then have "ledger ?d = forget_task t (dd_instances d, dd_leases d)" unfolding ledger_def [of d] .
        then show ?thesis using pool_forget [OF okd, of t] unfolding P by (simp only: ports_of_ledger simp_thms)
      qed
      then show ?thesis unfolding DevTask OpDelete dev pool_spec.simps .
    qed (use task_step_ledger [of op' x d] DevTask in
        \<open>simp_all add: deletes_task_def ports_of_ledger\<close>)
  next
    case (DevStopped now i a)
    then show ?thesis using tr [of True "''stopped''"] by (auto simp: mark_stopped_def)
  next
    case (DevFailed now i f a)
    then show ?thesis using tr [of True "''failed''"] by (auto simp: mark_failed_def)
  next
    case (DevRunning now i pid url v a)
    then show ?thesis using tr [of False "''running''"] by (auto simp: mark_running_def)
  next
    case (DevBeginStop now i a)
    then show ?thesis using tr [of False "''stopping''"] by (auto simp: begin_stop_def)
  next
    case (DevOrphaned now i f a)
    then show ?thesis using tr [of False "''orphaned''"] by (auto simp: mark_orphaned_def)
  qed (simp_all add: ports_of_ledger, simp_all add: ledger_def)
qed

subsection \<open>Live servers hold their ports\<close>

lemma ledger_fullI:
  assumes "\<And>r. r \<in> set rs \<Longrightarrow> instance_live r \<Longrightarrow> \<exists>l \<in> set ls. lease_held_by (di_id r) l"
    and "\<And>r q. r \<in> set rs \<Longrightarrow> q \<in> set rs \<Longrightarrow> holds_port ls r \<Longrightarrow> holds_port ls q \<Longrightarrow>
      di_config_id r = di_config_id q \<Longrightarrow> di_task_id r = di_task_id q \<Longrightarrow> di_id r = di_id q"
  shows "ledger_full (rs, ls)"
  using assms unfolding ledger_full_def fst_conv snd_conv by blast

lemma ledger_fullD:
  assumes "ledger_full (rs, ls)"
  shows "r \<in> set rs \<Longrightarrow> instance_live r \<Longrightarrow> \<exists>l \<in> set ls. lease_held_by (di_id r) l"
    and "r \<in> set rs \<Longrightarrow> q \<in> set rs \<Longrightarrow> holds_port ls r \<Longrightarrow> holds_port ls q \<Longrightarrow>
      di_config_id r = di_config_id q \<Longrightarrow> di_task_id r = di_task_id q \<Longrightarrow> di_id r = di_id q"
  using assms unfolding ledger_full_def fst_conv snd_conv by blast+

text \<open>An update after which no instance is live or holds a port that was not before, and live ones keep a lease.\<close>

lemma ledger_full_update:
  assumes full: "ledger_full (rs, ls)"
    and same: "\<And>r. r \<in> set rs \<Longrightarrow> same_instance r (f r)"
    and live: "\<And>r. r \<in> set rs \<Longrightarrow> instance_live (f r) \<Longrightarrow> instance_live r"
    and lease: "\<And>r l. r \<in> set rs \<Longrightarrow> instance_live (f r) \<Longrightarrow> l \<in> set ls \<Longrightarrow> lease_held_by (di_id r) l \<Longrightarrow>
        \<exists>l \<in> set ls'. lease_held_by (di_id r) l"
    and holds: "\<And>r. r \<in> set rs \<Longrightarrow> holds_port ls' (f r) \<Longrightarrow> holds_port ls r"
  shows "ledger_full (map f rs, ls')"
proof (rule ledger_fullI)
  fix r' assume "r' \<in> set (map f rs)" and live': "instance_live r'"
  then obtain r where r: "r \<in> set rs" "r' = f r" by auto
  then obtain l where "l \<in> set ls" "lease_held_by (di_id r) l" using ledger_fullD(1) [OF full r(1)] live live' by blast
  then have "\<exists>l \<in> set ls'. lease_held_by (di_id r) l" using lease r live' by blast
  then show "\<exists>l \<in> set ls'. lease_held_by (di_id r') l" using same [OF r(1)] r by (simp add: same_instance_def)
next
  fix r' q' assume "r' \<in> set (map f rs)" "q' \<in> set (map f rs)" and h: "holds_port ls' r'" "holds_port ls' q'"
    and eq: "di_config_id r' = di_config_id q'" "di_task_id r' = di_task_id q'"
  then obtain r q where r: "r \<in> set rs" "r' = f r" "q \<in> set rs" "q' = f q" by auto
  have "di_id r = di_id q"
    using ledger_fullD(2) [OF full r(1,3)] holds [OF r(1)] holds [OF r(3)] h eq same [OF r(1)] same [OF r(3)] r
    by (simp add: same_instance_def instance_owner_def)
  then show "di_id r' = di_id q'" using same [OF r(1)] same [OF r(3)] r by (simp add: same_instance_def)
qed

lemma same_instance_refl [simp]: "same_instance r r"
  by (simp add: same_instance_def)

lemma ledger_full_leases:
  assumes "ledger_full (rs, ls)"
    and "\<And>k. (\<exists>l \<in> set ls'. lease_held_by k l) = (\<exists>l \<in> set ls. lease_held_by k l)"
  shows "ledger_full (rs, ls')"
  using ledger_full_update [OF assms(1), of id ls'] assms(2) by (simp add: holds_port_iff) blast

lemma ledger_full_map:
  assumes full: "ledger_full (rs, ls)"
    and same: "\<And>r. di_id (f r) = di_id r" "\<And>r. di_config_id (f r) = di_config_id r"
      "\<And>r. di_task_id (f r) = di_task_id r" "\<And>r. di_status (f r) = di_status r"
  shows "ledger_full (map f rs, ls)"
proof (rule ledger_fullI)
  have live: "instance_live (f r) = instance_live r" "holds_port ls (f r) = holds_port ls r" for r
    by (simp_all add: instance_live_def holds_port_iff same)
  show "\<exists>l \<in> set ls. lease_held_by (di_id r) l" if "r \<in> set (map f rs)" "instance_live r" for r
    using that ledger_fullD(1) [OF full] by (auto simp: live same)
  show "di_id r = di_id q" if "r \<in> set (map f rs)" "q \<in> set (map f rs)" "holds_port ls r" "holds_port ls q"
    "di_config_id r = di_config_id q" "di_task_id r = di_task_id q" for r q
  proof -
    have "\<exists>r' q'. r' \<in> set rs \<and> r = f r' \<and> q' \<in> set rs \<and> q = f q'" using that(1,2) by auto
    then obtain r' q' where "r' \<in> set rs" "r = f r'" "q' \<in> set rs" "q = f q'" by blast
    then show ?thesis using ledger_fullD(2) [OF full, of r' q'] \<open>holds_port ls r\<close> \<open>holds_port ls q\<close>
        \<open>di_config_id r = di_config_id q\<close> \<open>di_task_id r = di_task_id q\<close> by (simp add: live same)
  qed
qed

lemma ledger_full_start:
  assumes ok: "ledger_ok (rs, ls)" and full: "ledger_full (rs, ls)" and vacant: "vacant (rs, ls) owner"
    and l: "l \<in> set ls" "lease_of owner l" and fresh: "i \<notin> di_id ` set rs"
  shows "ledger_full (rs @ [new_instance now i owner (dl_port l)],
     update_rows (\<lambda>k. dl_id k = dl_id l) (dl_instance_id_update (\<lambda>_. Some i)) ls)" (is "ledger_full (?rs, ?ls)")
proof -
  have only: "m = l" if "m \<in> set ls" "dl_id m = dl_id l" for m
    using that l(1) ledger_okD(2) [OF ok] by (simp add: distinct_map inj_on_def)
  have mine: "\<exists>m \<in> set ?ls. lease_held_by i m"
    unfolding bex_update_rows using l by (intro bexI [of _ l]) (simp_all add: lease_of_def)
  have others: "(\<exists>m \<in> set ?ls. lease_held_by k m) = (\<exists>m \<in> set ls. lease_held_by k m)" if "k \<noteq> i" for k
    unfolding bex_update_rows using that only vacant_unheld [OF ok vacant l] by (auto split: if_splits)
  have free: "\<not> (di_config_id r = di_config_id (new_instance now i owner (dl_port l))
      \<and> di_task_id r = di_task_id (new_instance now i owner (dl_port l)))"
    if "r \<in> set rs" "holds_port ls r" for r
    using that vacant by (auto simp: vacant_def new_instance_def split: prod.splits)
  have old: "di_id r \<noteq> i" "holds_port ?ls r = holds_port ls r" if "r \<in> set rs" for r
    using that fresh others [of "di_id r"] by (auto simp: holds_port_iff)
  show ?thesis
  proof (rule ledger_fullI)
    show "\<exists>m \<in> set ?ls. lease_held_by (di_id r) m" if "r \<in> set ?rs" "instance_live r" for r
      using that mine old others ledger_fullD(1) [OF full] by auto
    show "di_id r = di_id q" if "r \<in> set ?rs" "q \<in> set ?rs" "holds_port ?ls r" "holds_port ?ls q"
      "di_config_id r = di_config_id q" "di_task_id r = di_task_id q" for r q
      using that old free [of r] free [of q] ledger_fullD(2) [OF full, of r q] by auto
  qed
qed

lemma ledger_full_step: "ledger_step s s' \<Longrightarrow> ledger_ok s \<Longrightarrow> ledger_full s \<Longrightarrow> ledger_full s'"
proof (induction rule: ledger_step.induct)
  case (Release rs ls owner now)
  show ?case
    by (rule ledger_full_leases [OF Release.prems(2)])
      (use vacant_unheld [OF Release.prems(1) Release.hyps] in \<open>auto simp: bex_update_rows split: if_splits\<close>)
next
  case (Reserve ls l port owner rs now)
  show ?case by (rule ledger_full_leases [OF Reserve.prems(2)]) auto
next
  case (Start rs ls owner l i now)
  then show ?case by (intro ledger_full_start)
next
  case (Status rs i f ls)
  show ?case
    unfolding update_rows_map
  proof (rule ledger_full_update [OF Status.prems(2)])
    fix r assume r: "r \<in> set rs"
    show "same_instance r (if di_id r = i then f r else r)" using Status.hyps r by simp
    show "instance_live (if di_id r = i then f r else r) \<Longrightarrow> instance_live r"
      using Status.hyps [OF r] by (auto simp: same_life_def split: if_splits)
    show "holds_port ls (if di_id r = i then f r else r) \<Longrightarrow> holds_port ls r"
      using Status.hyps [OF r] by (auto simp: holds_port_iff same_life_def same_instance_def up_def split: if_splits)
  qed blast
next
  case (Finish rs i f ls now)
  have held: "(\<exists>l \<in> set (update_rows (lease_held_by i) (released now) ls). lease_held_by k l)
      = (\<exists>l \<in> set ls. lease_held_by k l)" if "k \<noteq> i" for k
    unfolding bex_update_rows by (rule bex_cong) (use that in \<open>auto simp: lease_held_by_def split: if_splits\<close>)
  have dead: "\<not> instance_live (f r)" "\<not> holds_port ls' (f r)" if "r \<in> set rs" "di_id r = i" for r ls'
    using Finish.hyps [OF that] by (auto simp: up_def holds_port_iff)
  show ?case
    unfolding update_rows_map [of "\<lambda>r. di_id r = i"]
  proof (rule ledger_full_update [OF Finish.prems(2)])
    fix r assume r: "r \<in> set rs"
    show "same_instance r (if di_id r = i then f r else r)" using Finish.hyps r by simp
    show "instance_live (if di_id r = i then f r else r) \<Longrightarrow> instance_live r"
      using dead(1) [OF r] by (simp split: if_splits)
    show "\<exists>l \<in> set (update_rows (lease_held_by i) (released now) ls). lease_held_by (di_id r) l"
      if "instance_live (if di_id r = i then f r else r)" "l \<in> set ls" "lease_held_by (di_id r) l" for l
      using held [of "di_id r"] dead(1) [OF r] that by (auto split: if_splits)
    show "holds_port (update_rows (lease_held_by i) (released now) ls) (if di_id r = i then f r else r) \<Longrightarrow>
        holds_port ls r"
      using held [of "di_id r"] dead(2) [OF r] by (auto simp: holds_port_iff split: if_splits)
  qed
next
  case (Reassign rs i p ls)
  have held: "(\<exists>l \<in> set (update_rows (lease_held_by i) (lease_with_port p) ls). lease_held_by k l)
      = (\<exists>l \<in> set ls. lease_held_by k l)" for k
    unfolding bex_update_rows by (auto split: if_splits)
  have "ledger_full (rs, update_rows (lease_held_by i) (lease_with_port p) ls)"
    by (rule ledger_full_leases [OF Reassign.prems(2) held])
  then show ?case
    unfolding update_rows_map [of "\<lambda>r. di_id r = i"]
    by (rule ledger_full_map) (simp_all add: with_port_def)
next
  case (Restart rs f ls now)
  show ?case
  proof (rule ledger_full_update [OF Restart.prems(2)])
    fix r assume r: "r \<in> set rs"
    show "same_instance r (f r)" using Restart.hyps r by simp
    have dead: "\<not> instance_live (f r)" using Restart.hyps [OF r] by (auto simp: instance_live_def)
    then show "instance_live (f r) \<Longrightarrow> instance_live r" by simp
    show "\<exists>l \<in> set (update_rows (\<lambda>l. lease_active l \<and> dl_instance_id l \<noteq> None) (staled now) ls).
        lease_held_by (di_id r) l" if "instance_live (f r)" using dead that by simp
    have "\<not> (\<exists>l \<in> set (update_rows (\<lambda>l. lease_active l \<and> dl_instance_id l \<noteq> None) (staled now) ls). lease_held_by k l)" for k
      unfolding bex_update_rows by (auto simp: lease_held_by_def split: if_splits)
    then show "holds_port (update_rows (\<lambda>l. lease_active l \<and> dl_instance_id l \<noteq> None) (staled now) ls) (f r)
        \<Longrightarrow> holds_port ls r" using dead by (simp add: holds_port_iff)
  qed
qed simp

lemma ledger_full_dev_step:
  assumes "ledger_ok (ledger d) \<and> ledger_full (ledger d)" and "\<not> deletes_task op"
  shows "ledger_ok (ledger (dev_step x op d)) \<and> ledger_full (ledger (dev_step x op d))"
  using dev_step_ledger [OF conjunct1 [OF assms(1)] assms(2), of x] assms(1)
  by (induction rule: rtranclp_induct) (auto intro: ledger_ok_step ledger_full_step)

lemma ledger_full_run:
  "ledger_ok (ledger (run (dev_step x) (filter (\<lambda>op. \<not> deletes_task op) ops) (no_servers t)))
   \<and> ledger_full (ledger (run (dev_step x) (filter (\<lambda>op. \<not> deletes_task op) ops) (no_servers t)))"
proof -
  have "ledger_ok (ledger d) \<and> ledger_full (ledger d) \<Longrightarrow>
      ledger_ok (ledger (run (dev_step x) (filter (\<lambda>op. \<not> deletes_task op) ops) d))
      \<and> ledger_full (ledger (run (dev_step x) (filter (\<lambda>op. \<not> deletes_task op) ops) d))" for d
    by (induction ops arbitrary: d) (simp_all add: ledger_full_dev_step)
  moreover have "ledger_ok (ledger (no_servers t)) \<and> ledger_full (ledger (no_servers t))"
    by (simp add: no_servers_def ledger_def ledger_ok_def ledger_full_def)
  ultimately show ?thesis by blast
qed

text \<open>C15: The ledger of leases refines a pool of ports. In every reachable state, deletions of
  tasks included, each operation does to the map from ports to their owners what its
  specification allows and nothing else; no owner ever has two ports, and every port is in the
  allowed range.
\<close>

theorem ledger_refines_pool:
  "let d = run (dev_step x) ops (no_servers t); P = ports_of d
   in pool_spec op P (ports_of (dev_step x op d)) \<and> inj_on P (dom P) \<and> dom P \<subseteq> {1024..65535}"
proof -
  let ?d = "run (dev_step x) ops (no_servers t)"
  have ok: "ledger_ok (ledger ?d)" by (rule ledger_ok_run)
  note okd = ok [unfolded ledger_def]
  have P: "ports_of ?d = pool_of (dd_leases ?d)" by (simp add: ports_of_def pool_of_def)
  have "inj_on (ports_of ?d) (dom (ports_of ?d))"
  proof (rule inj_onI)
    fix a b assume "a \<in> dom (ports_of ?d)" and eq: "ports_of ?d a = ports_of ?d b"
    then obtain owner where a: "ports_of ?d a = Some owner" by blast
    then have "ports_of ?d b = Some owner" using eq by simp
    with a show "a = b"
      unfolding P pool_of_Some [OF okd] using ledger_same_lease [OF okd] by blast
  qed
  moreover have "dom (ports_of ?d) \<subseteq> {1024..65535}"
    unfolding dom_def P using pool_of_Some [OF okd] ledger_okD(3) [OF okd] by auto
  ultimately show ?thesis using pool_spec_step [OF ok] by (simp add: Let_def)
qed

text \<open>C16: While no task is deleted, every live server owns its port: in every reachable state it
  holds exactly one active lease, for its own port and owner; no two servers that may hold a port
  share a port or a configuration and task; and the preview URL of a running server is one that
  targets its port on the local host.
\<close>

theorem live_servers_hold_their_port:
  "let d = run (dev_step x) (filter (\<lambda>op. \<not> deletes_task op) ops) (no_servers t);
       live = filter instance_live (dd_instances d)
   in list_all (\<lambda>r. map (\<lambda>l. (dl_port l, lease_owner l)) (filter (lease_held_by (di_id r)) (dd_leases d))
          = [(di_port r, instance_owner r)]) live
      \<and> distinct (map di_port live)
      \<and> distinct (map (\<lambda>r. (di_config_id r, di_task_id r)) (filter (holds_port (dd_leases d)) (dd_instances d)))
      \<and> list_all url_ok (filter (\<lambda>r. di_status r = ''running'') (dd_instances d))"
proof -
  define d where "d = run (dev_step x) (filter (\<lambda>op. \<not> deletes_task op) ops) (no_servers t)"
  have ok: "ledger_ok (dd_instances d, dd_leases d)" and full: "ledger_full (dd_instances d, dd_leases d)"
    using ledger_full_run [of x ops t] by (simp_all add: d_def ledger_def)
  have one: "map (\<lambda>l. (dl_port l, lease_owner l)) (filter (lease_held_by (di_id r)) (dd_leases d))
      = [(di_port r, instance_owner r)]" if r: "r \<in> set (dd_instances d)" "instance_live r" for r
  proof -
    obtain l where l: "l \<in> set (dd_leases d)" "lease_held_by (di_id r) l"
      using ledger_fullD(1) [OF full r] by blast
    obtain q where q: "q \<in> set (dd_instances d)" "di_id q = di_id r" "di_port q = dl_port l"
      "instance_owner q = lease_owner l" using ledger_held [OF ok l] .
    have "q = r" by (rule same_instance_id [OF q(2) ok q(1) r(1)])
    moreover have "filter (lease_held_by (di_id r)) (dd_leases d) = [l]"
      by (rule filter_unique [where p = "lease_held_by (di_id r)", OF ledger_okD(2) [OF ok] l]) (rule held_unique [OF ok _ l(1) _ l(2)])
    ultimately show ?thesis using q by simp
  qed
  have ports: "di_id r = di_id q"
    if rq: "r \<in> set (dd_instances d)" "q \<in> set (dd_instances d)" "instance_live r" "instance_live q"
      "di_port r = di_port q" for r q
  proof -
    from one [OF rq(1,3)] obtain l where l: "filter (lease_held_by (di_id r)) (dd_leases d) = [l]"
      "dl_port l = di_port r" by (auto simp: Cons_eq_map_conv map_eq_Cons_conv)
    from one [OF rq(2,4)] obtain m where m: "filter (lease_held_by (di_id q)) (dd_leases d) = [m]"
      "dl_port m = di_port q" by (auto simp: Cons_eq_map_conv map_eq_Cons_conv)
    have "l \<in> set (filter (lease_held_by (di_id r)) (dd_leases d))"
      "m \<in> set (filter (lease_held_by (di_id q)) (dd_leases d))" unfolding l(1) m(1) by simp_all
    then have "l = m" using ledger_same_lease [OF ok, of l m] l(2) m(2) rq(5) by (simp add: lease_held_by_def)
    then show ?thesis
      using \<open>l \<in> _\<close> \<open>m \<in> _\<close> by (simp add: lease_held_by_def)
  qed
  have "distinct (map di_port (filter instance_live (dd_instances d)))"
    by (rule distinct_map_filter_key [OF ledger_okD(1) [OF ok]]) (rule ports)
  moreover have "distinct (map (\<lambda>r. (di_config_id r, di_task_id r))
      (filter (holds_port (dd_leases d)) (dd_instances d)))"
    by (rule distinct_map_filter_key [OF ledger_okD(1) [OF ok]]) (rule ledger_fullD(2) [OF full]; simp)
  moreover have "list_all url_ok (filter (\<lambda>r. di_status r = ''running'') (dd_instances d))"
    using ledger_okD(6) [OF ok] by (simp add: list_all_iff)
  ultimately show ?thesis using one by (simp add: Let_def list_all_iff d_def [symmetric])
qed

end
