(* ===== verification/DevServerStarts.thy ===== *)
theory DevServerStarts
  imports DevServerFacts
begin

text \<open>
  Two more facts of \<open>DevServers\<close>: a start is only refused for the reasons the code gives,
  so it succeeds while a port is free, and the deletion of a task takes the leases of its live
  servers away. Both are run on concrete tables at the end of their sections.
\<close>

subsection \<open>A start succeeds while a port is free\<close>

text \<open>Only saving a configuration and its auto-start flag touch the configurations.\<close>

lemma validated_configs:
  assumes "\<And>v d'. f d = Inr (v, d') \<Longrightarrow> dd_configs d' = dd_configs d"
  shows "dd_configs (snd (validated f d)) = dd_configs d"
  using assms by (cases rule: validated_cases [of f d]) auto

lemma tx_configs:
  "assign_port_tx now l c t p d = Inr (u, d') \<Longrightarrow> dd_configs d' = dd_configs d"
  "release_port_tx now c t d = Inr (b, d') \<Longrightarrow> dd_configs d' = dd_configs d"
  "transition_tx now i st pid url v f a rel d = Inr (b, d') \<Longrightarrow> dd_configs d' = dd_configs d"
  "mark_exited_tx now i a d = Inr (b, d') \<Longrightarrow> dd_configs d' = dd_configs d"
  "reassign_port_tx now i p a d = Inr (b, d') \<Longrightarrow> dd_configs d' = dd_configs d"
  by (auto simp: assign_port_tx_def release_port_tx_def transition_tx_def mark_exited_tx_def
      reassign_port_tx_def Let_def map_outcome_Inr insert_lease_Inr update_instance_def
      split: sum.splits if_splits option.splits)

lemma prepare_start_tx_configs:
  assumes "prepare_start_tx now i l c t a d = Inr (u, d')"
  shows "dd_configs d' = dd_configs d"
proof -
  obtain p w k port d1 d2 where
    *: "lease_for_start now l (p, w, t, c) (Option.bind (config_by_id c d) dc_preferred_port) d = Inr ((k, port), d1)"
    "insert_instance now i (p, w, t, c) port d1 = Inr d2"
    "d' = record_dev_event now i c p ''starting'' a (JObj [(''port'', json_int port)]) (set_lease_instance k i d2)"
    using prepare_start_tx_Inr [OF assms] by blast
  have "dd_configs d1 = dd_configs d" using *(1) by (cases rule: lease_for_start_cases) auto
  then show ?thesis using *(2,3) by (simp add: insert_instance_Inr set_lease_instance_def)
qed

lemma op_configs:
  "dd_configs (snd (validated (assign_port_tx now l c t p) d)) = dd_configs d"
  "dd_configs (snd (validated (release_port_tx now c t) d)) = dd_configs d"
  "dd_configs (snd (validated (transition_tx now i st pid url v f a rel) d)) = dd_configs d"
  "dd_configs (snd (validated (mark_exited_tx now i a) d)) = dd_configs d"
  "dd_configs (snd (validated (reassign_port_tx now i p a) d)) = dd_configs d"
  "dd_configs (snd (validated (prepare_start_tx now i l c t a) d)) = dd_configs d"
  by (rule validated_configs, erule tx_configs prepare_start_tx_configs)+

lemma fold_record_configs:
  "dd_configs (fold (\<lambda>i. record_dev_event now (di_id i) (di_config_id i) (di_project_id i) k a v) is d) = dd_configs d"
  by (induction "is" arbitrary: d) simp_all

definition configs_valid :: "dev_db \<Rightarrow> bool" where
  "configs_valid d \<longleftrightarrow> (\<forall>r \<in> set (dd_configs d). \<forall>p. dc_preferred_port (cr_config r) = Some p \<longrightarrow>
     1024 \<le> p \<and> p \<le> 65535)"

lemma configs_valid_same: "dd_configs d' = dd_configs d \<Longrightarrow> configs_valid d \<Longrightarrow> configs_valid d'"
  by (simp add: configs_valid_def)

lemma dev_config_checked:
  assumes "validate_dev_config c = Inr u" "nd_preferred_port c = Some p"
  shows "1024 \<le> p \<and> p \<le> 65535"
  using assms by (auto simp: validate_dev_config_def validate_port_def split: if_splits)

lemma save_config_valid:
  assumes "configs_valid d"
  shows "configs_valid (snd (save_config now c d))"
proof (cases "validate_dev_config c")
  case (Inl e)
  then show ?thesis using assms by (simp add: save_config_def checked_simps)
next
  case (Inr u)
  have row: "1024 \<le> p \<and> p \<le> 65535" if "dc_preferred_port (cr_config (config_row_of cr now c)) = Some p" for cr p
    using dev_config_checked [OF Inr] that by (simp add: config_row_of_def)
  show ?thesis
  proof (cases rule: validated_cases [of "save_config_tx now c" d])
    case failed
    then show ?thesis using assms by (simp add: save_config_def checked_simps reading_simps)
  next
    case (good v d')
    have "upsert_config now c d = Inr (v, d')"
      using good(1) by (auto simp: save_config_tx_def split: if_splits sum.splits option.splits)
    then have "(\<exists>cr q. dd_configs d' = update_rows q (\<lambda>r. config_row_of cr now c) (dd_configs d))
        \<or> dd_configs d' = dd_configs d @ [config_row_of now now c]"
    proof (cases "find_config_row (nd_id c) d")
      case None
      then show ?thesis using \<open>upsert_config now c d = Inr (v, d')\<close>
        by (auto simp: upsert_config_def Let_def split: if_splits)
    next
      case (Some r)
      then have "dd_configs d' = update_rows (\<lambda>r. dc_id (cr_config r) = nd_id c)
          (\<lambda>k. config_row_of (dc_created_at (cr_config r)) now c) (dd_configs d)"
        using \<open>upsert_config now c d = Inr (v, d')\<close>
        by (auto simp: upsert_config_def Let_def split: if_splits)
      then show ?thesis by blast
    qed
    then have "configs_valid d'"
      unfolding configs_valid_def using assms row
      by (elim disjE exE) (simp_all add: ball_update_rows configs_valid_def)
    then show ?thesis using good Inr by (simp add: save_config_def checked_simps reading_simps)
  qed
qed

lemma configs_valid_step:
  assumes "configs_valid d"
  shows "configs_valid (dev_step x op d)"
proof -
  have tr: "configs_valid (snd (transition now i st pid url v f a rel d))" for now i st pid url v f a rel
    by (rule configs_valid_same [OF _ assms])
      (simp add: transition_def checked_simps op_configs)
  show ?thesis
  proof (cases op)
    case (DevSave now c)
    then show ?thesis using save_config_valid [OF assms] by simp
  next
    case (DevAutoStart now i b)
    then show ?thesis using assms
      by (auto simp: set_auto_start_def Let_def configs_valid_def ball_update_rows)
  next
    case (DevAssign now l c t p a)
    show ?thesis
      by (rule configs_valid_same [OF _ assms]) (simp add: DevAssign assign_port_def checked_simps
          reading_simps op_configs)
  next
    case (DevRelease now c t)
    show ?thesis
      by (rule configs_valid_same [OF _ assms]) (simp add: DevRelease release_port_def
          op_configs)
  next
    case (DevStart now i l c t a)
    show ?thesis
      by (rule configs_valid_same [OF _ assms]) (simp add: DevStart prepare_start_def checked_simps
          reading_simps op_configs)
  next
    case (DevExited now i a)
    show ?thesis
      by (rule configs_valid_same [OF _ assms]) (simp add: DevExited mark_exited_def checked_simps
          op_configs)
  next
    case (DevReassign now i p a)
    show ?thesis
      by (rule configs_valid_same [OF _ assms]) (simp add: DevReassign reassign_instance_port_def checked_simps
          op_configs)
  next
    case (DevEvent now i k a v)
    show ?thesis
      by (rule configs_valid_same [OF _ assms]) (auto simp: DevEvent record_runtime_event_def checked_simps
          transaction_def split: option.split)
  next
    case (DevLog i h)
    then show ?thesis using assms
      by (simp add: set_log_artifact_def checked_simps update_instance_def configs_valid_def)
  next
    case (DevRestart now)
    show ?thesis
      by (rule configs_valid_same [OF _ assms])
        (simp add: DevRestart recover_dev_servers_def Let_def fold_record_configs)
  next
    case (DevTask op')
    show ?thesis
      by (rule configs_valid_same [OF _ assms], cases op')
        (simp_all add: DevTask dev_task_step_def delete_task_with_servers_def split_beta)
  qed (simp_all add: mark_running_def begin_stop_def mark_stopped_def mark_failed_def mark_orphaned_def tr)
qed

lemma configs_valid_run: "configs_valid (run (dev_step x) ops (no_servers t))"
proof -
  have "configs_valid (no_servers t)" by (simp add: no_servers_def configs_valid_def)
  with configs_valid_step show ?thesis by (rule run_invariant)
qed

text \<open>The free ports of the search range: some port is unused while fewer than 7000 leases lie in it.\<close>

lemma free_port_exists:
  assumes "length (filter (\<lambda>l. lease_active l \<and> 3000 \<le> dl_port l \<and> dl_port l \<le> 9999) (dd_leases d)) < 7000"
  shows "\<exists>p. find (\<lambda>p. \<not> port_used p d) SERVER_PORTS = Some p"
proof (rule ccontr)
  let ?ls = "filter (\<lambda>l. lease_active l \<and> 3000 \<le> dl_port l \<and> dl_port l \<le> 9999) (dd_leases d)"
  assume "\<nexists>p. find (\<lambda>p. \<not> port_used p d) SERVER_PORTS = Some p"
  then have "find (\<lambda>p. \<not> port_used p d) SERVER_PORTS = None" by auto
  then have "\<forall>p \<in> set SERVER_PORTS. port_used p d" by (auto simp: find_None_iff)
  then have "\<forall>p \<in> {3000..9999}. port_used p d" by (simp only: SERVER_PORTS_def set_upto)
  then have "{3000..9999} \<subseteq> dl_port ` set ?ls" by (auto simp: port_used_def)
  then have "card {3000..9999 :: int} \<le> card (dl_port ` set ?ls)"
    by (rule card_mono [rotated]) simp
  also have "\<dots> \<le> card (set ?ls)" by (rule card_image_le) simp
  also have "\<dots> \<le> length ?ls" by (rule card_length)
  finally show False using assms by (simp only: card_atLeastAtMost_int)
qed

text \<open>The port a start is given: its owner's lease, the preferred port if it is free, else the lowest free one.\<close>

definition start_port :: "port_owner \<Rightarrow> int option \<Rightarrow> dev_db \<Rightarrow> int" where
  "start_port owner preferred d =
     (let lowest = hd (filter (\<lambda>q. \<not> port_used q d) SERVER_PORTS)
      in case find (lease_of owner) (dd_leases d) of
           Some m \<Rightarrow> dl_port m
         | None \<Rightarrow> (case preferred of None \<Rightarrow> lowest | Some q \<Rightarrow> if port_used q d then lowest else q))"

lemma find_hd_filter: "find p xs = Some v \<Longrightarrow> hd (filter p xs) = v"
  by (induction xs) (auto split: if_splits)

lemma lease_for_start_succeeds:
  assumes ok: "ledger_ok (ledger d)" and valid: "\<And>q. pref = Some q \<Longrightarrow> 1024 \<le> q \<and> q \<le> 65535"
    and fresh: "l \<notin> dl_id ` set (dd_leases d)"
    and room: "length (filter (\<lambda>l. lease_active l \<and> 3000 \<le> dl_port l \<and> dl_port l \<le> 9999) (dd_leases d)) < 7000"
  shows "\<exists>k d1. lease_for_start now l owner pref d = Inr ((k, start_port owner pref d), d1)
     \<and> dd_instances d1 = dd_instances d \<and> 1024 \<le> start_port owner pref d \<and> start_port owner pref d \<le> 65535"
proof (cases "find (lease_of owner) (dd_leases d)")
  case (Some m)
  then have "m \<in> set (dd_leases d)" using find_Some_in_set [OF Some] by simp
  then have "1024 \<le> dl_port m \<and> dl_port m \<le> 65535" using ledger_okD(3) [OF ok [unfolded ledger_def]] by blast
  then show ?thesis using Some by (simp add: lease_for_start_def start_port_def)
next
  case None
  obtain q where q: "find (\<lambda>p. \<not> port_used p d) SERVER_PORTS = Some q" using free_port_exists [OF room] by blast
  then have "q \<in> set SERVER_PORTS" and free: "\<not> port_used q d" by (auto dest: find_Some_in_set)
  then have range: "1024 \<le> q \<and> q \<le> 65535" unfolding SERVER_PORTS_def set_upto by simp
  have avail: "find_available_port pref d = Inr (start_port owner pref d)"
    using None q find_hd_filter [OF q] by (simp add: find_available_port_def start_port_def split: option.split)
  have port: "\<not> port_used (start_port owner pref d) d \<and> 1024 \<le> start_port owner pref d \<and> start_port owner pref d \<le> 65535"
    using None valid free range find_hd_filter [OF q] by (simp add: start_port_def split: option.split)
  have "\<forall>m \<in> set (dd_leases d). \<not> lease_of owner m" using None unfolding find_None_iff by blast
  then have "lease_room (dd_leases d) l (start_port owner pref d) owner"
    using fresh port unfolding lease_room_def port_used_def lease_of_def by blast
  then have "insert_lease now l (start_port owner pref d) owner d
      = Inr (d\<lparr>dd_leases := dd_leases d @ [new_lease now l (start_port owner pref d) owner]\<rparr>)"
    by (simp add: insert_lease_Inr)
  then show ?thesis using None avail port by (simp add: lease_for_start_def)
qed

lemma prepare_start_ok:
  assumes scope: "scope_of c k d = Inr (p, w)" and idle: "\<not> has_active_instance c k d" and actor: "trim a \<noteq> []"
    and lease: "lease_for_start now l (p, w, k, c) (Option.bind (config_by_id c d) dc_preferred_port) d = Inr ((m, port), d1)"
    and inst: "dd_instances d1 = dd_instances d" "1024 \<le> port" "port \<le> 65535" "i \<notin> di_id ` set (dd_instances d)"
  shows "fst (prepare_start now i l c k a d) = Inr (new_instance now i (p, w, k, c) port)"
proof -
  have "insert_instance now i (p, w, k, c) port d1 = Inr (d1\<lparr>dd_instances := dd_instances d @ [new_instance now i (p, w, k, c) port]\<rparr>)"
    using inst by (simp add: insert_instance_Inr)
  then obtain d' where tx: "prepare_start_tx now i l c k a d = Inr ((), d')"
      and led: "dd_instances d' = dd_instances d @ [new_instance now i (p, w, k, c) port]"
    using scope idle lease by (simp add: prepare_start_tx_def Let_def set_lease_instance_def)
  have "find (\<lambda>r. di_id r = i) (dd_instances d) = None" using inst(4) by (auto simp: find_None_iff)
  then have "find_instance i d' = Some (new_instance now i (p, w, k, c) port)"
    using led by (simp add: find_instance_def find_append)
  then show ?thesis
    using tx actor by (simp add: prepare_start_def validate_dev_actor_def checked_def reading_def validated_def transaction_def)
qed

text \<open>C17: A start succeeds: when the scope of a configuration and task is valid, nothing of them
  is active, the identifiers are fresh and fewer than 7000 leases lie in the searched range, a
  start returns a starting instance of that scope, on the port its owner has leased, else the
  preferred port if it is free, else the lowest free port of the range.
\<close>

theorem start_finds_a_port:
  assumes "scope_of c k (run (dev_step x) ops (no_servers t)) = Inr (p, w)"
    and "\<not> has_active_instance c k (run (dev_step x) ops (no_servers t))" and "trim a \<noteq> []"
    and "i \<notin> di_id ` set (dd_instances (run (dev_step x) ops (no_servers t)))"
    and "l \<notin> dl_id ` set (dd_leases (run (dev_step x) ops (no_servers t)))"
    and "length (filter (\<lambda>l. lease_active l \<and> 3000 \<le> dl_port l \<and> dl_port l \<le> 9999)
          (dd_leases (run (dev_step x) ops (no_servers t)))) < 7000"
  shows "let d = run (dev_step x) ops (no_servers t);
             r = new_instance now i (p, w, k, c)
                   (start_port (p, w, k, c) (Option.bind (config_by_id c d) dc_preferred_port) d)
         in fst (prepare_start now i l c k a d) = Inr r
            \<and> find_instance i (snd (prepare_start now i l c k a d)) = Some r"
proof -
  define d where "d = run (dev_step x) ops (no_servers t)"
  note h = assms [folded d_def]
  have ok: "ledger_ok (ledger d)" unfolding d_def by (rule ledger_ok_run)
  have valid: "1024 \<le> q \<and> q \<le> 65535" if "Option.bind (config_by_id c d) dc_preferred_port = Some q" for q
    using that configs_valid_run [of x ops t] find_Some_in_set
    by (fastforce simp: configs_valid_def config_by_id_def find_config_row_def d_def [symmetric] bind_eq_Some_conv)
  from lease_for_start_succeeds [OF ok valid h(5,6)] obtain m d1 where
    "lease_for_start now l (p, w, k, c) (Option.bind (config_by_id c d) dc_preferred_port) d
       = Inr ((m, start_port (p, w, k, c) (Option.bind (config_by_id c d) dc_preferred_port) d), d1)"
    "dd_instances d1 = dd_instances d"
    "1024 \<le> start_port (p, w, k, c) (Option.bind (config_by_id c d) dc_preferred_port) d"
    "start_port (p, w, k, c) (Option.bind (config_by_id c d) dc_preferred_port) d \<le> 65535" by blast
  from prepare_start_ok [OF h(1-3) this h(4)]
  have fst: "fst (prepare_start now i l c k a d) = Inr (new_instance now i (p, w, k, c)
      (start_port (p, w, k, c) (Option.bind (config_by_id c d) dc_preferred_port) d))" .
  have "find_instance i (snd (prepare_start now i l c k a d)) = Some r"
    if "fst (prepare_start now i l c k a d) = Inr r" for r
    using that h(3)
    by (auto simp: prepare_start_def validate_dev_actor_def checked_def reading_def split: sum.splits option.splits prod.splits)
  with fst show ?thesis by (simp add: Let_def d_def [symmetric])
qed

definition sample_dev_config :: new_dev_config where
  "sample_dev_config = \<lparr>nd_id = 5, nd_project_id = 1, nd_worktree_id = None, nd_name = ''web'',
     nd_command = ''serve'', nd_cwd = [CHR ''.''], nd_host = ''localhost'', nd_preferred_port = Some 4173,
     nd_auto_start = False, nd_env_allowlist = [], nd_environment = []\<rparr>"

definition sample_task_db :: task_db where
  "sample_task_db = (no_tasks (empty_db\<lparr>projects := [\<lparr>pr_id = 1, pr_name = ''Web'', pr_created_at = 0,
       pr_updated_at = 0, pr_archived_at = None\<rparr>]\<rparr>) [])
     \<lparr>td_tasks := [new_task_row 0 (Some 1) sample_task]\<rparr>"

definition sample_dev_db :: dev_db where
  "sample_dev_db = (no_servers sample_task_db)\<lparr>dd_configs := [config_row_of 1 1 sample_dev_config]\<rparr>"

lemma sample_saved: "run (dev_step x) [DevSave 1 sample_dev_config] (no_servers sample_task_db) = sample_dev_db"
proof -
  have v: "validate_dev_config sample_dev_config = Inr ()"
    by (simp add: validate_dev_config_def sample_dev_config_def trim_def ascii_space_def has_nul_def validate_port_def)
  have "save_config_tx 1 sample_dev_config (no_servers sample_task_db) = Inr ((), sample_dev_db)"
    by (simp add: save_config_tx_def upsert_config_def find_config_row_def no_servers_def project_exists_def
        sample_dev_config_def sample_task_db_def no_tasks_def db.defs empty_db_def config_name_taken_def Let_def
        sample_dev_db_def)
  then show ?thesis by (simp add: save_config_def checked_simps reading_simps v validated_def transaction_def)
qed

lemma sample_scope:
  "scope_of 5 None sample_dev_db = Inr (1, None)" "scope_of 5 (Some 1) sample_dev_db = Inr (1, None)"
  by (simp_all add: scope_of_def config_identity_def find_config_row_def sample_dev_db_def no_servers_def
      config_row_of_def sample_dev_config_def validate_task_scope_def find_task_def sample_task_db_def
      new_task_row_def sample_task_def)

theorem start_finds_a_port_witness:
  "fst (prepare_start 2 7 8 5 None ''me'' (run (dev_step sample_externals) [DevSave 1 sample_dev_config] (no_servers sample_task_db)))
     = Inr (new_instance 2 7 (1, None, None, 5) 4173)"
proof -
  have "trim ''me'' \<noteq> []" by (simp add: trim_def ascii_space_def)
  note h = start_finds_a_port [of 5 None sample_externals "[DevSave 1 sample_dev_config]" sample_task_db 1 None
      "''me''" 7 8 2, unfolded sample_saved Let_def, OF sample_scope(1) _ this]
  have "\<not> has_active_instance 5 None sample_dev_db" "dd_instances sample_dev_db = []" "dd_leases sample_dev_db = []"
    by (simp_all add: has_active_instance_def sample_dev_db_def no_servers_def)
  moreover have "start_port (1, None, None, 5) (Option.bind (config_by_id 5 sample_dev_db) dc_preferred_port) sample_dev_db = 4173"
    by (simp add: start_port_def Let_def config_by_id_def find_config_row_def sample_dev_db_def no_servers_def
        config_row_of_def sample_dev_config_def port_used_def)
  ultimately show ?thesis unfolding sample_saved using h by simp
qed

subsection \<open>Deleting a task\<close>

text \<open>Deleting a task takes the port of its running servers out of the ledger: every live server
  of the task stays recorded as live, now without a task, while its port is free for others.
\<close>

theorem deleting_a_task_frees_live_ports:
  "let d = run (dev_step x) (filter (\<lambda>op. \<not> deletes_task op) ops) (no_servers t);
       d' = dev_step x (DevTask (OpDelete k)) d;
       servers = filter (\<lambda>r. instance_live r \<and> di_task_id r = Some k) (dd_instances d)
   in list_all (\<lambda>r. r\<lparr>di_task_id := None\<rparr> \<in> set (dd_instances d') \<and> ports_of d' (di_port r) = None)
        (if find_task k (dd_tasks d) = None then [] else servers)"
proof -
  define d where "d = run (dev_step x) (filter (\<lambda>op. \<not> deletes_task op) ops) (no_servers t)"
  have ok: "ledger_ok (dd_instances d, dd_leases d)" and full: "ledger_full (dd_instances d, dd_leases d)"
    using ledger_full_run [of x ops t] by (simp_all add: d_def ledger_def)
  have "r\<lparr>di_task_id := None\<rparr> \<in> set (dd_instances d') \<and> ports_of d' (di_port r) = None"
    if found: "find_task k (dd_tasks d) \<noteq> None" and d': "d' = dev_step x (DevTask (OpDelete k)) d"
      and r: "r \<in> set (dd_instances d)" "instance_live r" "di_task_id r = Some k" for r d'
  proof -
    have led: "ledger d' = forget_task k (dd_instances d, dd_leases d)"
      using found unfolding d' by (auto simp: dev_task_step_def delete_task_with_servers_def split_beta
          ledger_def forget_task_def without_task_def [abs_def])
    have "without_task r \<in> set (dd_instances d')"
      using led updated_in [OF r(1), of "\<lambda>r. di_task_id r = Some k" without_task] r(3)
      by (simp add: ledger_def forget_task_def)
    moreover obtain l where l: "l \<in> set (dd_leases d)" "lease_held_by (di_id r) l"
      using ledger_fullD(1) [OF full r(1,2)] by blast
    obtain q where q: "q \<in> set (dd_instances d)" "di_id q = di_id r" "di_port q = dl_port l"
      "instance_owner q = lease_owner l" using ledger_held [OF ok l] .
    have "q = r" by (rule same_instance_id [OF q(2) ok q(1) r(1)])
    then have "pool_of (dd_leases d) (di_port r) = Some (instance_owner r)"
      unfolding pool_of_Some [OF ok] using l q by (auto simp: lease_held_by_def)
    moreover have "owner_task (instance_owner r) = Some k" using r(3) by (simp add: owner_task_def instance_owner_def)
    ultimately have "ports_of d' (di_port r) = None"
      unfolding ports_of_ledger led pool_forget [OF ok]
      by (simp add: restrict_map_def del: split_paired_All split_paired_Ex)
    with \<open>without_task r \<in> _\<close> show ?thesis by (simp add: without_task_def)
  qed
  then show ?thesis by (simp add: Let_def list_all_iff d_def [symmetric])
qed

theorem deleting_a_task_frees_live_ports_witness:
  "let d = run (dev_step sample_externals) [DevSave 1 sample_dev_config, DevStart 2 7 8 5 (Some 1) ''me''] (no_servers sample_task_db);
       d' = dev_step sample_externals (DevTask (OpDelete 1)) d;
       r = new_instance 2 7 (1, None, Some 1, 5) 4173
   in dd_instances d = [r] \<and> ports_of d 4173 = Some (1, None, Some 1, 5)
      \<and> r\<lparr>di_task_id := None\<rparr> \<in> set (dd_instances d') \<and> instance_live (r\<lparr>di_task_id := None\<rparr>) \<and> ports_of d' 4173 = None"
proof -
  let ?r = "new_instance 2 7 (1, None, Some 1, 5) 4173"
  let ?l = "(new_lease 2 8 4173 (1, None, Some 1, 5))\<lparr>dl_instance_id := Some 7\<rparr>"
  let ?ops = "[DevSave 1 sample_dev_config, DevStart 2 7 8 5 (Some 1) ''me'']"
  let ?d = "run (dev_step sample_externals) ?ops (no_servers sample_task_db)"
  have empty: "\<not> has_active_instance 5 (Some 1) sample_dev_db" "dd_instances sample_dev_db = []"
    "dd_leases sample_dev_db = []" "Option.bind (config_by_id 5 sample_dev_db) dc_preferred_port = Some 4173"
    "dd_tasks sample_dev_db = sample_task_db"
    by (simp_all add: has_active_instance_def sample_dev_db_def no_servers_def config_by_id_def find_config_row_def
        config_row_of_def sample_dev_config_def)
  have actor: "validate_dev_actor ''me'' = Inr ()" by (simp add: validate_dev_actor_def trim_def ascii_space_def)
  have "lease_for_start 2 8 (1, None, Some 1, 5) (Some 4173) sample_dev_db
      = Inr ((8, 4173), sample_dev_db\<lparr>dd_leases := [new_lease 2 8 4173 (1, None, Some 1, 5)]\<rparr>)"
    by (simp add: lease_for_start_def empty find_available_port_def port_used_def insert_lease_def new_lease_def)
  then have start: "dev_step sample_externals (DevStart 2 7 8 5 (Some 1) ''me'') sample_dev_db
      = record_dev_event 2 7 5 1 ''starting'' ''me'' (JObj [(''port'', json_int 4173)])
          (sample_dev_db\<lparr>dd_instances := [?r], dd_leases := [?l]\<rparr>)"
    using empty actor by (simp add: prepare_start_def prepare_start_tx_def sample_scope Let_def checked_def reading_simps
        validated_def transaction_def insert_instance_Inr [THEN iffD2] set_lease_instance_def insert_instance_def new_instance_def del: One_nat_def)
  have "?d = run (dev_step sample_externals) [DevStart 2 7 8 5 (Some 1) ''me'']
      (run (dev_step sample_externals) [DevSave 1 sample_dev_config] (no_servers sample_task_db))" by simp
  also have "\<dots> = dev_step sample_externals (DevStart 2 7 8 5 (Some 1) ''me'') sample_dev_db"
    unfolding sample_saved by (simp only: run_simps)
  finally have d: "dd_instances ?d = [?r]" "dd_leases ?d = [?l]" "dd_tasks ?d = sample_task_db"
    unfolding start using empty(5) by simp_all
  have task: "find_task 1 sample_task_db \<noteq> None"
    by (simp add: find_task_def sample_task_db_def new_task_row_def sample_task_def)
  have port: "ports_of ?d 4173 = Some (1, None, Some 1, 5)"
    using d(2) by (simp add: ports_of_def new_lease_def lease_active_def lease_owner_def)
  have ops: "filter (\<lambda>op. \<not> deletes_task op) ?ops = ?ops" by (simp add: deletes_task_def)
  have "instance_live ?r" "di_task_id ?r = Some 1" "instance_live (?r\<lparr>di_task_id := None\<rparr>)" "di_port ?r = 4173"
    by (simp_all add: new_instance_def instance_live_def)
  note r = this
  define d where "d = ?d"
  have "list_all (\<lambda>r. r\<lparr>di_task_id := None\<rparr> \<in> set (dd_instances (dev_step sample_externals (DevTask (OpDelete 1)) d))
        \<and> ports_of (dev_step sample_externals (DevTask (OpDelete 1)) d) (di_port r) = None)
      (if find_task 1 (dd_tasks d) = None then []
       else filter (\<lambda>r. instance_live r \<and> di_task_id r = Some 1) (dd_instances d))"
    using deleting_a_task_frees_live_ports [of sample_externals ?ops sample_task_db 1]
    unfolding ops Let_def d_def .
  then have "?r\<lparr>di_task_id := None\<rparr> \<in> set (dd_instances (dev_step sample_externals (DevTask (OpDelete 1)) d))
      \<and> ports_of (dev_step sample_externals (DevTask (OpDelete 1)) d) 4173 = None"
    unfolding d(3) [folded d_def] if_not_P [OF task] d(1) [folded d_def]
    using r by (simp del: dev_step.simps One_nat_def)
  then show ?thesis
    using d(1) [folded d_def] port [folded d_def] r(3) unfolding Let_def d_def [symmetric] by blast
qed

end
