(* ===== verification/BrowserFacts.thy ===== *)
theory BrowserFacts
  imports Browser DevServerStarts
begin

text \<open>
  What holds of the managed browsers in every state that calls, restarts and the deletion of tasks
  can reach: who owns a profile, when a takeover is open, what the logs keep, and when a task cannot
  be deleted because of its browsers.
\<close>

subsection \<open>The operations, as steps\<close>

datatype browser_op =
    BPrepare millis new_browser_session string
  | BRunning millis uuid string string int string
  | BBeginStop millis uuid string
  | BStopped millis uuid string
  | BFailed millis uuid string string
  | BOrphaned millis uuid string string
  | BTab millis uuid uuid string "string option" "string option" string
  | BCloseTab millis uuid uuid string
  | BObserve millis uuid uuid "uuid option" string string string int json string
  | BConsole millis uuid "json list"
  | BNetwork millis uuid "json list"
  | BTakeover millis uuid uuid string "string option"
  | BEndTakeover millis uuid string string
  | BNote millis uuid string string json
  | BRestart millis
  | BServer dev_op

definition server_step :: "externals \<Rightarrow> dev_op \<Rightarrow> browser_db \<Rightarrow> browser_db" where
  "server_step x op d =
     (case op of
        DevTask (OpDelete i) \<Rightarrow> snd (delete_task_with_browsers i d)
      | _ \<Rightarrow> d\<lparr>bd_servers := dev_step x op (bd_servers d)\<rparr>)"

fun browser_step :: "externals \<Rightarrow> browser_op \<Rightarrow> browser_db \<Rightarrow> browser_db" where
  "browser_step x (BPrepare now n a) d = snd (prepare_session x now n a d)"
| "browser_step x (BRunning now i s v p a) d = snd (browser_mark_running now i s v p a d)"
| "browser_step x (BBeginStop now i a) d = snd (browser_begin_stop now i a d)"
| "browser_step x (BStopped now i a) d = snd (browser_mark_stopped now i a d)"
| "browser_step x (BFailed now i f a) d = snd (browser_mark_failed now i f a d)"
| "browser_step x (BOrphaned now i f a) d = snd (browser_mark_orphaned now i f a d)"
| "browser_step x (BTab now t s st u ti a) d = snd (upsert_tab now t s st u ti a d)"
| "browser_step x (BCloseTab now s t a) d = snd (close_tab x now s t a d)"
| "browser_step x (BObserve now r s t k h m n v a) d = snd (record_observation x now r s t k h m n v a d)"
| "browser_step x (BConsole now s vs) d = snd (append_console now s vs d)"
| "browser_step x (BNetwork now s vs) d = snd (append_network now s vs d)"
| "browser_step x (BTakeover now t s a r) d = snd (start_takeover x now t s a r d)"
| "browser_step x (BEndTakeover now s a r) d = snd (stop_takeover x now s a r d)"
| "browser_step x (BNote now s k a v) d = snd (browser_record_event now s k a v d)"
| "browser_step x (BRestart now) d =
     (let d1 = snd (recover_browsers now d)
      in d1\<lparr>bd_servers := snd (recover_dev_servers now (bd_servers d1))\<rparr>)"
| "browser_step x (BServer op) d = server_step x op d"

definition no_browsers :: "dev_db \<Rightarrow> browser_db" where
  "no_browsers s = \<lparr>bd_servers = s, bd_profiles = [], bd_sessions = [], bd_tabs = [], bd_takeovers = [],
     bd_observations = [], bd_history = [], bd_console = [], bd_network = []\<rparr>"

subsection \<open>Ownership\<close>

definition session_scope :: "browser_session \<Rightarrow> uuid \<times> uuid option \<times> uuid option" where
  "session_scope s = (bs_project_id s, bs_worktree_id s, bs_task_id s)"

definition session_up :: "browser_session \<Rightarrow> bool" where
  "session_up s \<longleftrightarrow> bs_status s \<in> {''running'', ''stopping''}"

type_synonym holdings = "browser_profile list \<times> browser_session list \<times> browser_takeover list"

definition holdings :: "browser_db \<Rightarrow> holdings" where
  "holdings d = (bd_profiles d, bd_sessions d, bd_takeovers d)"

definition owned :: "holdings \<Rightarrow> bool" where
  "owned h = (case h of (ps, ss, ts) \<Rightarrow>
     distinct (map bp_id ps) \<and> distinct (map bs_id ss) \<and> distinct (map bs_profile_id ss)
     \<and> distinct (map tk_over_id ts) \<and> owners_distinct ps
     \<and> (\<forall>s \<in> set ss. \<exists>p \<in> set ps. bp_id p = bs_profile_id s
          \<and> (session_live s \<longrightarrow> profile_active p \<and> profile_owner p = session_scope s))
     \<and> (\<forall>t \<in> set ts. takeover_open t \<longrightarrow> (\<exists>s \<in> set ss. bs_id s = tk_over_session_id t \<and> session_up s))
     \<and> (\<forall>t \<in> set ts. \<forall>u \<in> set ts. takeover_open t \<and> takeover_open u
          \<and> tk_over_session_id t = tk_over_session_id u \<longrightarrow> tk_over_id t = tk_over_id u))"

lemma ownedD:
  assumes "owned (ps, ss, ts)"
  shows "distinct (map bp_id ps)" "distinct (map bs_id ss)" "distinct (map bs_profile_id ss)"
    "distinct (map tk_over_id ts)" "owners_distinct ps"
    "s \<in> set ss \<Longrightarrow> \<exists>p \<in> set ps. bp_id p = bs_profile_id s
       \<and> (session_live s \<longrightarrow> profile_active p \<and> profile_owner p = session_scope s)"
    "t \<in> set ts \<Longrightarrow> takeover_open t \<Longrightarrow> \<exists>s \<in> set ss. bs_id s = tk_over_session_id t \<and> session_up s"
    "t \<in> set ts \<Longrightarrow> u \<in> set ts \<Longrightarrow> takeover_open t \<Longrightarrow> takeover_open u \<Longrightarrow>
       tk_over_session_id t = tk_over_session_id u \<Longrightarrow> tk_over_id t = tk_over_id u"
  using assms unfolding owned_def prod.case by blast+

lemma ownedI:
  assumes "distinct (map bp_id ps)" "distinct (map bs_id ss)" "distinct (map bs_profile_id ss)"
    "distinct (map tk_over_id ts)" "owners_distinct ps"
    and "\<And>s. s \<in> set ss \<Longrightarrow> \<exists>p \<in> set ps. bp_id p = bs_profile_id s
       \<and> (session_live s \<longrightarrow> profile_active p \<and> profile_owner p = session_scope s)"
    and "\<And>t. t \<in> set ts \<Longrightarrow> takeover_open t \<Longrightarrow> \<exists>s \<in> set ss. bs_id s = tk_over_session_id t \<and> session_up s"
    and "\<And>t u. t \<in> set ts \<Longrightarrow> u \<in> set ts \<Longrightarrow> takeover_open t \<Longrightarrow> takeover_open u \<Longrightarrow>
       tk_over_session_id t = tk_over_session_id u \<Longrightarrow> tk_over_id t = tk_over_id u"
  shows "owned (ps, ss, ts)"
  using assms unfolding owned_def prod.case by blast

lemma up_live: "session_up s \<Longrightarrow> session_live s"
  by (auto simp: session_up_def session_live_def)

lemma owners_distinct_update:
  assumes "owners_distinct ps" and "\<And>p. p \<in> set ps \<Longrightarrow> q p \<Longrightarrow> \<not> profile_active (f p)"
  shows "owners_distinct (update_rows q f ps)"
proof -
  have "map profile_owner (filter profile_active (update_rows q f ps))
      = map profile_owner (filter (\<lambda>p. \<not> q p) (filter profile_active ps))"
    using assms(2) by (induction ps) auto
  moreover have "distinct (map profile_owner (filter (\<lambda>p. \<not> q p) (filter profile_active ps)))"
    using assms(1) unfolding owners_distinct_def by (rule distinct_map_filter)
  ultimately show ?thesis by (simp only: owners_distinct_def)
qed

text \<open>
  Sessions that move on, profiles that are freed and takeovers that end: whoever stays live keeps
  its profile, whoever stays taken over stays up.
\<close>

lemma owned_update:
  assumes ok: "owned (ps, ss, ts)"
    and p: "\<And>p. p \<in> set ps \<Longrightarrow> qp p \<Longrightarrow> bp_id (fp p) = bp_id p \<and> \<not> profile_active (fp p)"
    and s: "\<And>s. s \<in> set ss \<Longrightarrow> qs s \<Longrightarrow> bs_id (fs s) = bs_id s \<and> bs_profile_id (fs s) = bs_profile_id s
         \<and> session_scope (fs s) = session_scope s \<and> (session_live (fs s) \<longrightarrow> session_live s)"
    and t: "\<And>t. t \<in> set ts \<Longrightarrow> qt t \<Longrightarrow> tk_over_id (ft t) = tk_over_id t \<and> \<not> takeover_open (ft t)"
    and keep: "\<And>s p. s \<in> set ss \<Longrightarrow> p \<in> set ps \<Longrightarrow> bp_id p = bs_profile_id s \<Longrightarrow> qp p \<Longrightarrow>
         profile_active p \<Longrightarrow> \<not> session_live (if qs s then fs s else s)"
    and taken: "\<And>s t. s \<in> set ss \<Longrightarrow> t \<in> set ts \<Longrightarrow> takeover_open t \<Longrightarrow> \<not> qt t \<Longrightarrow> bs_id s = tk_over_session_id t \<Longrightarrow>
         session_up s \<Longrightarrow> session_up (if qs s then fs s else s)"
  shows "owned (update_rows qp fp ps, update_rows qs fs ss, update_rows qt ft ts)"
proof -
  have ids: "map bp_id (update_rows qp fp ps) = map bp_id ps"
    "map bs_id (update_rows qs fs ss) = map bs_id ss"
    "map bs_profile_id (update_rows qs fs ss) = map bs_profile_id ss"
    "map tk_over_id (update_rows qt ft ts) = map tk_over_id ts"
    using p s t by (auto intro!: map_key_update_rows)
  have open': "t \<in> set ts \<and> \<not> qt t" if "t \<in> set (update_rows qt ft ts)" "takeover_open t" for t
    using that t by (auto elim!: in_update_rows split: if_splits)
  have live: "\<exists>p \<in> set (update_rows qp fp ps). bp_id p = bs_profile_id s'
      \<and> (session_live s' \<longrightarrow> profile_active p \<and> profile_owner p = session_scope s')"
    if s': "s' \<in> set (update_rows qs fs ss)" for s'
  proof -
    obtain s0 where s0: "s0 \<in> set ss" "s' = (if qs s0 then fs s0 else s0)"
      using s' by (rule in_update_rows)
    obtain p0 where p0: "p0 \<in> set ps" "bp_id p0 = bs_profile_id s0"
      "session_live s0 \<Longrightarrow> profile_active p0 \<and> profile_owner p0 = session_scope s0"
      using ownedD(6) [OF ok s0(1)] by blast
    let ?p = "if qp p0 then fp p0 else p0"
    have "?p \<in> set (update_rows qp fp ps)" using p0(1) by (rule updated_in)
    moreover have "bp_id ?p = bs_profile_id s'" using p [OF p0(1)] s [OF s0(1)] p0 s0 by auto
    moreover have "profile_active ?p \<and> profile_owner ?p = session_scope s'" if l: "session_live s'"
    proof -
      have l0: "session_live s0" and sc: "session_scope s' = session_scope s0"
        using l s [OF s0(1)] s0(2) by (auto split: if_splits)
      then have "\<not> qp p0" using keep [OF s0(1) p0(1,2)] p0(3) l s0(2) by auto
      then show ?thesis using p0(3) [OF l0] sc by simp
    qed
    ultimately show ?thesis by blast
  qed
  have up: "\<exists>s \<in> set (update_rows qs fs ss). bs_id s = tk_over_session_id u \<and> session_up s"
    if u: "u \<in> set (update_rows qt ft ts)" "takeover_open u" for u
  proof -
    have u': "u \<in> set ts" "\<not> qt u" using open' [OF u] by auto
    obtain s0 where s0: "s0 \<in> set ss" "bs_id s0 = tk_over_session_id u" "session_up s0"
      using ownedD(7) [OF ok u'(1) u(2)] by blast
    then have "session_up (if qs s0 then fs s0 else s0)" using taken u u' by blast
    moreover have "bs_id (if qs s0 then fs s0 else s0) = tk_over_session_id u" using s s0 by auto
    ultimately show ?thesis using updated_in [OF s0(1)] by blast
  qed
  have same: "tk_over_id u = tk_over_id v"
    if "u \<in> set (update_rows qt ft ts)" "v \<in> set (update_rows qt ft ts)" "takeover_open u" "takeover_open v"
      "tk_over_session_id u = tk_over_session_id v" for u v
    using ownedD(8) [OF ok, of u v] open' that by blast
  show ?thesis
  proof (rule ownedI)
    show "owners_distinct (update_rows qp fp ps)"
      using ownedD(5) [OF ok] p by (intro owners_distinct_update) auto
    show "distinct (map bp_id (update_rows qp fp ps))" unfolding ids by (rule ownedD(1) [OF ok])
    show "distinct (map bs_id (update_rows qs fs ss))" unfolding ids by (rule ownedD(2) [OF ok])
    show "distinct (map bs_profile_id (update_rows qs fs ss))" unfolding ids by (rule ownedD(3) [OF ok])
    show "distinct (map tk_over_id (update_rows qt ft ts))" unfolding ids by (rule ownedD(4) [OF ok])
  qed (rule live up same, assumption+)+
qed


text \<open>A session is prepared: a new profile and a new session of one scope that no active profile has.\<close>

lemma owned_prepare:
  assumes ok: "owned (ps, ss, ts)"
    and p: "bp_id p \<notin> bp_id ` set ps" "profile_active p" "bp_id p = bs_profile_id s"
      "profile_owner p = session_scope s" "profile_owner p \<notin> profile_owner ` {q \<in> set ps. profile_active q}"
    and s: "bs_id s \<notin> bs_id ` set ss"
  shows "owned (ps @ [p], ss @ [s], ts)"
proof (rule ownedI)
  have "bs_profile_id s \<notin> bs_profile_id ` set ss"
    using ownedD(6) [OF ok] p(1,3) by (auto simp: image_iff) fastforce
  then show "distinct (map bs_profile_id (ss @ [s]))" using ownedD(3) [OF ok] by simp
  show "distinct (map bp_id (ps @ [p]))" using ownedD(1) [OF ok] p(1) by simp
  show "distinct (map bs_id (ss @ [s]))" using ownedD(2) [OF ok] s by simp
  show "distinct (map tk_over_id ts)" by (rule ownedD(4) [OF ok])
  show "owners_distinct (ps @ [p])"
    using ownedD(5) [OF ok] p(2,5) by (auto simp: owners_distinct_def)
  show "\<exists>q \<in> set (ps @ [p]). bp_id q = bs_profile_id r
      \<and> (session_live r \<longrightarrow> profile_active q \<and> profile_owner q = session_scope r)"
    if "r \<in> set (ss @ [s])" for r
    using ownedD(6) [OF ok, of r] that p(2-4) by auto
  show "\<exists>r \<in> set (ss @ [s]). bs_id r = tk_over_session_id t \<and> session_up r"
    if "t \<in> set ts" "takeover_open t" for t
    using ownedD(7) [OF ok that] by auto
qed (rule ownedD(8) [OF ok])

lemma owned_takeover:
  assumes ok: "owned (ps, ss, ts)" and t: "tk_over_id t \<notin> tk_over_id ` set ts"
    and s: "s \<in> set ss" "bs_id s = tk_over_session_id t" "session_up s"
    and none: "\<And>u. u \<in> set ts \<Longrightarrow> takeover_open u \<Longrightarrow> tk_over_session_id u \<noteq> tk_over_session_id t"
  shows "owned (ps, ss, ts @ [t])"
proof (rule ownedI)
  show "distinct (map tk_over_id (ts @ [t]))" using ownedD(4) [OF ok] t by simp
  show "\<exists>r \<in> set ss. bs_id r = tk_over_session_id u \<and> session_up r"
    if "u \<in> set (ts @ [t])" "takeover_open u" for u
    using ownedD(7) [OF ok, of u] that s by auto
  show "tk_over_id u = tk_over_id v"
    if "u \<in> set (ts @ [t])" "v \<in> set (ts @ [t])" "takeover_open u" "takeover_open v"
      "tk_over_session_id u = tk_over_session_id v" for u v
    using ownedD(8) [OF ok, of u v] that none [of u] none [of v] by auto
qed (use ownedD(1-6) [OF ok] in blast)+

definition session_without_task :: "uuid \<Rightarrow> browser_session \<Rightarrow> browser_session" where
  "session_without_task i s = (if bs_task_id s = Some i then s\<lparr>bs_task_id := None\<rparr> else s)"

lemma forgotten_simps [simp]:
  "bp_id (profile_without_task i p) = bp_id p" "profile_active (profile_without_task i p) = profile_active p"
  "bs_id (session_without_task i s) = bs_id s" "bs_profile_id (session_without_task i s) = bs_profile_id s"
  "session_live (session_without_task i s) = session_live s"
  "session_up (session_without_task i s) = session_up s"
  by (simp_all add: profile_without_task_def session_without_task_def profile_active_def session_live_def
      session_up_def)

lemma forgotten_scope:
  "profile_owner p = session_scope s \<Longrightarrow>
     profile_owner (profile_without_task i p) = session_scope (session_without_task i s)"
  by (auto simp: profile_without_task_def session_without_task_def profile_owner_def session_scope_def)

lemma owned_forget:
  assumes ok: "owned (ps, ss, ts)" and d: "owners_distinct (map (profile_without_task i) ps)"
  shows "owned (map (profile_without_task i) ps, map (session_without_task i) ss, ts)"
proof (rule ownedI)
  show "distinct (map bp_id (map (profile_without_task i) ps))" using ownedD(1) [OF ok] by (simp add: comp_def)
  show "distinct (map bs_id (map (session_without_task i) ss))" using ownedD(2) [OF ok] by (simp add: comp_def)
  show "distinct (map bs_profile_id (map (session_without_task i) ss))"
    using ownedD(3) [OF ok] by (simp add: comp_def)
  show "\<exists>p \<in> set (map (profile_without_task i) ps). bp_id p = bs_profile_id s
      \<and> (session_live s \<longrightarrow> profile_active p \<and> profile_owner p = session_scope s)"
    if "s \<in> set (map (session_without_task i) ss)" for s
    using that ownedD(6) [OF ok] forgotten_scope by fastforce
  show "\<exists>s \<in> set (map (session_without_task i) ss). bs_id s = tk_over_session_id t \<and> session_up s"
    if "t \<in> set ts" "takeover_open t" for t
    using ownedD(7) [OF ok that] by auto
  show "distinct (map tk_over_id ts)" by (rule ownedD(4) [OF ok])
  show "owners_distinct (map (profile_without_task i) ps)" by (rule d)
qed (rule ownedD(8) [OF ok])


subsection \<open>Every operation keeps ownership\<close>

lemma record_browser_event_simps [simp]:
  "bd_profiles (record_browser_event now s p k a v d) = bd_profiles d"
  "bd_sessions (record_browser_event now s p k a v d) = bd_sessions d"
  "bd_takeovers (record_browser_event now s p k a v d) = bd_takeovers d"
  "bd_tabs (record_browser_event now s p k a v d) = bd_tabs d"
  "bd_console (record_browser_event now s p k a v d) = bd_console d"
  "bd_network (record_browser_event now s p k a v d) = bd_network d"
  "bd_servers (record_browser_event now s p k a v d) = bd_servers d"
  "holdings (record_browser_event now s p k a v d) = holdings d"
  by (simp_all add: record_browser_event_def holdings_def)

lemma fold_events [simp]:
  "holdings (fold (\<lambda>s. record_browser_event now (f s) (g s) k a v) ss d) = holdings d"
  "bd_servers (fold (\<lambda>s. record_browser_event now (f s) (g s) k a v) ss d) = bd_servers d"
  "bd_console (fold (\<lambda>s. record_browser_event now (f s) (g s) k a v) ss d) = bd_console d"
  "bd_network (fold (\<lambda>s. record_browser_event now (f s) (g s) k a v) ss d) = bd_network d"
  by (induction ss arbitrary: d) simp_all

text \<open>What a guarded transaction leaves behind: the old tables, or what its operation made of them.\<close>

lemma after_validated:
  "(\<And>v d'. operation d = Inr (v, d') \<Longrightarrow> P d') \<Longrightarrow> P d \<Longrightarrow> P (snd (validated operation d))"
  by (cases "operation d") (auto simp: validated_def transaction_def)

lemma after_checked: "P (snd k) \<Longrightarrow> P d \<Longrightarrow> P (snd (checked c d k))"
  by (cases c) (auto simp: checked_def)

lemma after_if: "P (snd a) \<Longrightarrow> P (snd b) \<Longrightarrow> P (snd (if c then a else b))"
  by simp

lemma snd_reading_back [simp]: "snd (reading_back look m r) = snd r"
  by (cases r rule: prod.exhaust, rename_tac a b, case_tac a)
    (auto simp: reading_back_def split: option.splits)

lemma holdings_eq: "holdings d = (bd_profiles d, bd_sessions d, bd_takeovers d)"
  by (simp add: holdings_def)

lemma moved_session_simps [simp]:
  "bs_id (moved_session now target f v s) = bs_id s"
  "bs_profile_id (moved_session now target f v s) = bs_profile_id s"
  "session_scope (moved_session now target f v s) = session_scope s"
  "bs_status (moved_session now target f v s) = target"
  by (simp_all add: moved_session_def session_scope_def)

lemma freed_profile_simps [simp]:
  "bp_id (freed_profile now p) = bp_id p" "\<not> profile_active (freed_profile now p)"
  by (simp_all add: freed_profile_def profile_active_def)

lemma ended_takeover_simps [simp]:
  "tk_over_id (ended_takeover now r t) = tk_over_id t" "\<not> takeover_open (ended_takeover now r t)"
  by (simp_all add: ended_takeover_def takeover_open_def)

lemma interrupted_simps [simp]:
  "bs_id (interrupted_session now s) = bs_id s"
  "bs_profile_id (interrupted_session now s) = bs_profile_id s"
  "session_scope (interrupted_session now s) = session_scope s" "\<not> session_live (interrupted_session now s)"
  "bp_id (orphaned_profile now p) = bp_id p" "\<not> profile_active (orphaned_profile now p)"
  by (simp_all add: interrupted_session_def orphaned_profile_def session_scope_def session_live_def
      profile_active_def)

lemma owned_transition:
  assumes ok: "owned (holdings d)" and tx: "browser_transition_tx now i target failure service actor d = Inr (b, d')"
  shows "owned (holdings d')"
proof (cases "find_browser_session i d")
  case None
  then show ?thesis using tx ok by (simp add: browser_transition_tx_def)
next
  case (Some s)
  have s: "s \<in> set (bd_sessions d)" "bs_id s = i"
    using find_Some_in_set Some by (force simp: find_browser_session_def)+
  have ok': "owned (bd_profiles d, bd_sessions d, bd_takeovers d)" using ok by (simp add: holdings_eq)
  have the: "r = s" if "r \<in> set (bd_sessions d)" "bs_id r = i" for r
    using ownedD(2) [OF ok'] s that by (simp add: distinct_map inj_on_def)
  have prof: "r = s" if "r \<in> set (bd_sessions d)" "bs_profile_id r = bs_profile_id s" for r
    using ownedD(3) [OF ok'] s that by (simp add: distinct_map inj_on_def)
  have v: "browser_transition_valid (bs_status s) target"
    using tx Some by (auto simp: browser_transition_tx_def Let_def split: if_splits)
  have live: "session_live s" and target: "target \<in> {''running'', ''stopping'', ''stopped'', ''failed'', ''orphaned''}"
    using v by (auto simp: browser_transition_valid_def session_live_def split: if_splits)
  define qp where "qp = (\<lambda>p. target \<in> {''stopped'', ''failed''} \<and> bp_id p = bs_profile_id s \<and> profile_active p)"
  define qt where "qt = (\<lambda>t. target \<in> {''stopped'', ''failed'', ''orphaned''} \<and> tk_over_session_id t = i \<and> takeover_open t)"
  have h: "holdings d' = (update_rows qp (freed_profile now) (bd_profiles d),
      update_rows (\<lambda>r. bs_id r = i) (moved_session now target failure service) (bd_sessions d),
      update_rows qt (ended_takeover now target) (bd_takeovers d))"
    using tx Some v by (auto simp: browser_transition_tx_def Let_def holdings_eq qp_def qt_def update_rows_never)
  show ?thesis
    unfolding h
  proof (rule owned_update [OF ok'], goal_cases)
    case (2 r)
    then show ?case using the live by (auto simp: session_live_def)
  next
    case (4 r p)
    then have "r = s" using prof by (simp add: qp_def)
    then show ?case using 4 s by (auto simp: qp_def session_live_def)
  next
    case (5 r t)
    show ?case
    proof (cases "bs_id r = i")
      case True
      then have "r = s" using the 5(1) by simp
      moreover have "target \<notin> {''stopped'', ''failed'', ''orphaned''}" using 5 True by (auto simp: qt_def)
      moreover have "bs_status s \<noteq> ''starting''" using 5(6) \<open>r = s\<close> by (auto simp: session_up_def)
      ultimately show ?thesis using target v True by (auto simp: session_up_def browser_transition_valid_def)
    qed (use 5 in simp)
  qed (simp_all add: qp_def qt_def)
qed


lemmas owned_intros = after_validated [where P = "\<lambda>d. owned (holdings d)"]
  after_checked [where P = "\<lambda>d. owned (holdings d)"] after_if [where P = "\<lambda>d. owned (holdings d)"]

lemma owned_browser_transition:
  "owned (holdings d) \<Longrightarrow> owned (holdings (snd (browser_transition now i target f v actor d)))"
  unfolding browser_transition_def Let_def split_beta
  by (rule owned_intros, unfold snd_conv, rule owned_intros) (auto dest: owned_transition)

lemma owned_prepare_session:
  assumes ok: "owned (holdings d)"
  shows "owned (holdings (snd (prepare_session x now n actor d)))"
proof -
  have "owned (holdings d')" if tx: "prepare_session_tx x now n actor d = Inr (v, d')" for v d'
  proof -
    obtain task worktree where h: "holdings d' = (bd_profiles d @ [new_profile now n worktree task],
        bd_sessions d @ [new_session_row now n worktree task], bd_takeovers d)"
      and p: "nw_profile_id n \<notin> bp_id ` set (bd_profiles d)"
        "\<forall>q \<in> set (bd_profiles d). profile_active q \<longrightarrow> profile_owner q \<noteq> profile_owner (new_profile now n worktree task)"
      and s: "nw_id n \<notin> bs_id ` set (bd_sessions d)"
    proof -
      from tx obtain task worktree d1 where "insert_profile (new_profile now n worktree task) d = Inr d1"
        and "\<forall>s \<in> set (bd_sessions d1). bs_id s \<noteq> nw_id n"
        and "d' = record_browser_event now (nw_id n) (nw_project_id n) ''starting'' actor
               (JObj [(''taskId'', json_opt (json_uuid x) task),
                      (''worktreeId'', json_opt (json_uuid x) worktree),
                      (''profileId'', json_uuid x (nw_profile_id n)),
                      (''networkPolicy'', JStr (nw_network_policy n))])
               (d1\<lparr>bd_sessions := bd_sessions d1 @ [new_session_row now n worktree task]\<rparr>)"
        by (auto simp: prepare_session_tx_def split: if_splits sum.splits prod.splits)
      then show thesis
        by (intro that [of worktree task]) (auto simp: insert_profile_def new_profile_def holdings_eq split: if_splits)
    qed
    show ?thesis
      unfolding h
      by (rule owned_prepare) (use ok p s in \<open>auto simp: holdings_eq new_profile_def new_session_row_def
        profile_active_def profile_owner_def session_scope_def\<close>)
  qed
  then show ?thesis
    unfolding prepare_session_def by (intro owned_intros) (simp_all add: ok owned_intros(1))
qed

lemma owned_start_takeover:
  assumes ok: "owned (holdings d)"
  shows "owned (holdings (snd (start_takeover x now t s actor r d)))"
proof -
  have "owned (holdings d')" if tx: "start_takeover_tx x now t s actor r d = Inr (v, d')" for v d'
  proof (cases "find_browser_session s d")
    case None
    then show ?thesis using tx by (simp add: start_takeover_tx_def)
  next
    case (Some row)
    then have row: "row \<in> set (bd_sessions d)" "bs_id row = s"
      using find_Some_in_set by (force simp: find_browser_session_def)+
    let ?u = "\<lparr>tk_over_id = t, tk_over_session_id = s, tk_over_actor = actor, tk_over_reason = r,
      tk_over_started_at = now, tk_over_ended_at = None, tk_over_end_reason = None\<rparr>"
    have h: "holdings d' = (bd_profiles d, bd_sessions d, bd_takeovers d @ [?u])"
      and u: "t \<notin> tk_over_id ` set (bd_takeovers d)"
        "\<forall>v \<in> set (bd_takeovers d). takeover_open v \<longrightarrow> tk_over_session_id v \<noteq> s"
      and up: "session_up row"
      using tx Some by (auto simp: start_takeover_tx_def holdings_eq session_up_def split: if_splits)
    show ?thesis
      unfolding h by (rule owned_takeover [OF _ _ row(1)]) (use ok row u up in \<open>auto simp: holdings_eq\<close>)
  qed
  then show ?thesis
    unfolding start_takeover_def by (intro owned_intros) (simp_all add: ok owned_intros(1))
qed

lemma owned_stop_takeover:
  assumes ok: "owned (holdings d)"
  shows "owned (holdings (snd (stop_takeover x now s actor r d)))"
proof -
  have "owned (holdings d')" if tx: "stop_takeover_tx x now s actor r d = Inr (v, d')" for v d'
  proof (cases "active_takeover s d")
    case None
    then show ?thesis using tx ok by (auto simp: stop_takeover_tx_def split: sum.splits)
  next
    case (Some u)
    then have h: "holdings d' = (update_rows (\<lambda>r. False) id (bd_profiles d), update_rows (\<lambda>r. False) id (bd_sessions d),
        update_rows (\<lambda>r. tk_over_id r = tk_over_id u) (ended_takeover now r) (bd_takeovers d))"
      using tx by (auto simp: stop_takeover_tx_def holdings_eq update_rows_never split: sum.splits)
    show ?thesis
      unfolding h by (rule owned_update) (use ok in \<open>simp_all add: holdings_eq\<close>)
  qed
  then show ?thesis
    unfolding stop_takeover_def Let_def split_beta
    by (intro owned_intros(2)) (simp_all add: ok owned_intros(1))
qed

lemma owned_recover:
  assumes ok: "owned (holdings d)"
  shows "owned (holdings (snd (recover_browsers now d)))"
proof -
  have h: "holdings (snd (recover_browsers now d)) = (update_rows profile_active (orphaned_profile now) (bd_profiles d),
      update_rows session_live (interrupted_session now) (bd_sessions d),
      update_rows takeover_open (ended_takeover now ''process_restart'') (bd_takeovers d))"
    using fold_events(1) [of now bs_id bs_project_id "''interrupted''" "''system''"
        "JObj [(''reason'', JStr ''process_restart'')]" "filter session_live (bd_sessions d)" d]
    by (simp add: recover_browsers_def Let_def holdings_eq)
  show ?thesis
    unfolding h by (rule owned_update) (use ok in \<open>auto simp: holdings_eq\<close>)
qed

lemma owned_delete_task:
  assumes ok: "owned (holdings d)"
  shows "owned (holdings (snd (delete_task_with_browsers i d)))"
proof -
  have "update_rows (\<lambda>s. bs_task_id s = Some i) (\<lambda>s. s\<lparr>bs_task_id := None\<rparr>) (bd_sessions d)
      = map (session_without_task i) (bd_sessions d)"
    by (simp add: update_rows_map session_without_task_def [abs_def])
  then show ?thesis
    using ok owned_forget [of "bd_profiles d" "bd_sessions d" "bd_takeovers d" i]
    by (simp add: delete_task_with_browsers_def split_beta Let_def holdings_eq)
qed

text \<open>The calls that touch none of the three tables.\<close>

lemma holdings_others [simp]:
  "holdings (snd (upsert_tab now f s st u ti a d)) = holdings d"
  "holdings (snd (close_tab x now s t a d)) = holdings d"
  "holdings (snd (record_observation x now o' s t' k h m n v a d)) = holdings d"
  "holdings (snd (append_bounded now tb s vs d)) = holdings d"
  "holdings (snd (browser_record_event now s k a v d)) = holdings d"
proof -
  note same = after_validated [where P = "\<lambda>e. holdings e = holdings d"]
    after_checked [where P = "\<lambda>e. holdings e = holdings d"] after_if [where P = "\<lambda>e. holdings e = holdings d"]
  show "holdings (snd (upsert_tab now f s st u ti a d)) = holdings d"
    unfolding upsert_tab_def
    by (intro same; simp?; intro same(1))
      (auto simp: upsert_tab_tx_def upsert_tab_row_def holdings_eq split: sum.splits if_splits)
  show "holdings (snd (close_tab x now s t a d)) = holdings d"
    unfolding close_tab_def
    by (intro same) (auto simp: close_tab_tx_def Let_def holdings_eq split: sum.splits if_splits)
  show "holdings (snd (record_observation x now o' s t' k h m n v a d)) = holdings d"
    unfolding record_observation_def
    by (intro same; simp?; intro same(1))
      (auto simp: record_observation_tx_def holdings_eq split: sum.splits if_splits option.splits)
  show "holdings (snd (append_bounded now tb s vs d)) = holdings d"
    unfolding append_bounded_def Let_def
    by (intro same) (auto simp: holdings_eq split: sum.splits)
  show "holdings (snd (browser_record_event now s k a v d)) = holdings d"
    unfolding browser_record_event_def
    by (intro same) (auto split: sum.splits elim!: map_outcome.elims)
qed

lemma owned_step: "owned (holdings d) \<Longrightarrow> owned (holdings (browser_step x op d))"
proof (cases op)
  case (BRestart now)
  assume "owned (holdings d)"
  from owned_recover [OF this, of now] show ?thesis
    by (simp add: BRestart Let_def holdings_def)
next
  case (BServer op')
  assume "owned (holdings d)"
  then show ?thesis
    using owned_delete_task
    by (simp add: BServer server_step_def holdings_def split: dev_op.splits task_op.splits)
qed (simp_all add: owned_prepare_session owned_start_takeover owned_stop_takeover owned_browser_transition
    browser_mark_running_def browser_begin_stop_def browser_mark_stopped_def browser_mark_failed_def
    browser_mark_orphaned_def append_console_def append_network_def)

lemma owned_reachable: "owned (holdings (run (browser_step x) ops (no_browsers s)))"
  by (rule run_invariant [where I = "\<lambda>d. owned (holdings d)"])
    (rule owned_step, assumption, simp add: holdings_def no_browsers_def owned_def owners_distinct_def)


lemma distinct_map_filter_inj:
  "distinct (map k xs) \<Longrightarrow> distinct (map f (filter p xs)) \<longleftrightarrow>
     (\<forall>a \<in> set xs. \<forall>b \<in> set xs. p a \<and> p b \<and> f a = f b \<longrightarrow> k a = k b)"
  unfolding distinct_map inj_on_def set_filter by (simp only: distinct_filter) blast

lemma live_scopes_distinct:
  assumes ok: "owned (ps, ss, ts)"
  shows "distinct (map session_scope (filter session_live ss))"
proof (rule distinct_map_filter_key [OF ownedD(2) [OF ok]])
  fix a b
  assume ab: "a \<in> set ss" "b \<in> set ss" "session_live a" "session_live b" "session_scope a = session_scope b"
  obtain p q where p: "p \<in> set ps" "bp_id p = bs_profile_id a" "profile_active p" "profile_owner p = session_scope a"
    and q: "q \<in> set ps" "bp_id q = bs_profile_id b" "profile_active q" "profile_owner q = session_scope b"
    using ownedD(6) [OF ok ab(1)] ownedD(6) [OF ok ab(2)] ab(3,4) by blast
  have "bp_id p = bp_id q"
    using ownedD(5) [OF ok] distinct_map_filter_inj [OF ownedD(1) [OF ok]] p q ab(5)
    unfolding owners_distinct_def by metis
  then have "bs_profile_id a = bs_profile_id b" using p(2) q(2) by simp
  then have "a = b" using ownedD(3) [OF ok] ab(1,2) unfolding distinct_map inj_on_def by blast
  then show "bs_id a = bs_id b" by simp
qed

text \<open>C24: In every state that calls, restarts and deleted tasks can reach, the live browser sessions have
  distinct scopes (project, worktree and task), no two sessions have a profile in common, the profile
  of a live session is active and has the scope of the session, and a takeover that is open belongs to
  a session that is running or stopping, to which no other open takeover belongs.
\<close>

theorem browsers_own_their_profile:
  "let d = run (browser_step x) ops (no_browsers s);
       live = filter session_live (bd_sessions d);
       taken = filter takeover_open (bd_takeovers d)
   in distinct (map session_scope live) \<and> distinct (map bs_profile_id (bd_sessions d))
      \<and> list_all (\<lambda>b. list_ex (\<lambda>p. bp_id p = bs_profile_id b \<and> bp_status p = ''active''
            \<and> profile_owner p = session_scope b) (bd_profiles d)) live
      \<and> distinct (map tk_over_session_id taken)
      \<and> list_all (\<lambda>t. list_ex (\<lambda>b. bs_id b = tk_over_session_id t
            \<and> bs_status b \<in> {''running'', ''stopping''}) (bd_sessions d)) taken"
proof -
  let ?d = "run (browser_step x) ops (no_browsers s)"
  have ok: "owned (bd_profiles ?d, bd_sessions ?d, bd_takeovers ?d)"
    using owned_reachable by (simp add: holdings_def)
  have "distinct (map tk_over_session_id (filter takeover_open (bd_takeovers ?d)))"
    using ownedD(8) [OF ok] by (intro distinct_map_filter_key [OF ownedD(4) [OF ok]])
  moreover have "\<exists>p \<in> set (bd_profiles ?d). bp_id p = bs_profile_id b \<and> bp_status p = ''active''
      \<and> profile_owner p = session_scope b" if "b \<in> set (bd_sessions ?d)" "session_live b" for b
    using ownedD(6) [OF ok that(1)] that(2) unfolding profile_active_def by blast
  moreover have "\<exists>b \<in> set (bd_sessions ?d). bs_id b = tk_over_session_id t
      \<and> bs_status b \<in> {''running'', ''stopping''}" if "t \<in> set (bd_takeovers ?d)" "takeover_open t" for t
    using ownedD(7) [OF ok that] unfolding session_up_def by blast
  ultimately show ?thesis
    using live_scopes_distinct [OF ok] ownedD(3) [OF ok]
    unfolding Let_def list_all_iff list_ex_iff set_filter by blast
qed

subsection \<open>When a task cannot be deleted\<close>

definition clashes :: "uuid \<Rightarrow> browser_profile list \<Rightarrow> bool" where
  "clashes i ps \<longleftrightarrow> list_ex (\<lambda>p. list_ex (\<lambda>q. profile_active p \<and> profile_active q
     \<and> bp_task_id p = Some i \<and> bp_task_id q = None \<and> bp_project_id p = bp_project_id q
     \<and> bp_worktree_id p = bp_worktree_id q) ps) ps"

lemma owners_distinct_forget:
  assumes ids: "distinct (map bp_id ps)" and ok: "owners_distinct ps"
  shows "owners_distinct (map (profile_without_task i) ps) \<longleftrightarrow> \<not> clashes i ps"
proof -
  let ?f = "profile_without_task i"
  have "filter profile_active (map ?f ps) = map ?f (filter profile_active ps)"
    by (simp add: filter_map comp_def)
  then have "owners_distinct (map ?f ps) \<longleftrightarrow> distinct (map (profile_owner \<circ> ?f) (filter profile_active ps))"
    by (simp add: owners_distinct_def)
  also have "\<dots> \<longleftrightarrow> (\<forall>p \<in> set ps. \<forall>q \<in> set ps. profile_active p \<and> profile_active q
      \<and> profile_owner (?f p) = profile_owner (?f q) \<longrightarrow> bp_id p = bp_id q)"
    by (simp add: distinct_map_filter_inj [OF ids])
  also have "\<dots> \<longleftrightarrow> \<not> clashes i ps"
  proof -
    have same: "profile_owner (?f p) = profile_owner (?f q) \<longleftrightarrow> profile_owner p = profile_owner q
        \<or> bp_project_id p = bp_project_id q \<and> bp_worktree_id p = bp_worktree_id q
          \<and> (bp_task_id p = Some i \<and> bp_task_id q = None \<or> bp_task_id p = None \<and> bp_task_id q = Some i)" for p q
      by (auto simp: profile_owner_def profile_without_task_def)
    have inj: "bp_id p = bp_id q"
      if "p \<in> set ps" "q \<in> set ps" "profile_active p" "profile_active q" "profile_owner p = profile_owner q" for p q
      using ok that unfolding owners_distinct_def distinct_map_filter_inj [OF ids] by blast
    have eq: "p = q" if "p \<in> set ps" "q \<in> set ps" "bp_id p = bp_id q" for p q
      using ids that by (simp add: distinct_map inj_on_def)
    show ?thesis
      unfolding clashes_def list_ex_iff same
    proof (intro iffI notI)
      assume all: "\<forall>p \<in> set ps. \<forall>q \<in> set ps. profile_active p \<and> profile_active q
        \<and> (profile_owner p = profile_owner q \<or> bp_project_id p = bp_project_id q
          \<and> bp_worktree_id p = bp_worktree_id q
          \<and> (bp_task_id p = Some i \<and> bp_task_id q = None \<or> bp_task_id p = None \<and> bp_task_id q = Some i))
        \<longrightarrow> bp_id p = bp_id q"
      assume "\<exists>p \<in> set ps. \<exists>q \<in> set ps. profile_active p \<and> profile_active q \<and> bp_task_id p = Some i
        \<and> bp_task_id q = None \<and> bp_project_id p = bp_project_id q \<and> bp_worktree_id p = bp_worktree_id q"
      then obtain p q where pq: "p \<in> set ps" "q \<in> set ps" "bp_task_id p = Some i" "bp_task_id q = None"
        and "bp_id p = bp_id q" using all by blast
      then have "p = q" using eq by blast
      then show False using pq by simp
    next
      assume no: "\<not> (\<exists>p \<in> set ps. \<exists>q \<in> set ps. profile_active p \<and> profile_active q \<and> bp_task_id p = Some i
        \<and> bp_task_id q = None \<and> bp_project_id p = bp_project_id q \<and> bp_worktree_id p = bp_worktree_id q)"
      show "\<forall>p \<in> set ps. \<forall>q \<in> set ps. profile_active p \<and> profile_active q
        \<and> (profile_owner p = profile_owner q \<or> bp_project_id p = bp_project_id q
          \<and> bp_worktree_id p = bp_worktree_id q
          \<and> (bp_task_id p = Some i \<and> bp_task_id q = None \<or> bp_task_id p = None \<and> bp_task_id q = Some i))
        \<longrightarrow> bp_id p = bp_id q"
      proof (intro ballI impI, elim conjE disjE, goal_cases)
        case (1 p q)
        then show ?case by (intro inj)
      next
        case (2 p q)
        then have "\<exists>p \<in> set ps. \<exists>q \<in> set ps. profile_active p \<and> profile_active q \<and> bp_task_id p = Some i
          \<and> bp_task_id q = None \<and> bp_project_id p = bp_project_id q \<and> bp_worktree_id p = bp_worktree_id q"
          by (intro bexI [of _ p] bexI [of _ q] conjI)
        with no show ?case by contradiction
      next
        case (3 p q)
        then have "\<exists>p \<in> set ps. \<exists>q \<in> set ps. profile_active p \<and> profile_active q \<and> bp_task_id p = Some i
          \<and> bp_task_id q = None \<and> bp_project_id p = bp_project_id q \<and> bp_worktree_id p = bp_worktree_id q"
          by (intro bexI [of _ q] bexI [of _ p] conjI) simp_all
        with no show ?case by contradiction
      qed
    qed
  qed
  finally show ?thesis .
qed

text \<open>In every reachable state the deletion of a task fails exactly when the task exists and an active
  browser profile of the task meets one of the same project and worktree that has no task: losing the
  task would give the two one owner. A deletion that fails, or finds no task, changes nothing.
\<close>

theorem browsers_block_task_deletion:
  "let d = run (browser_step x) ops (no_browsers s);
       (r, d') = delete_task_with_browsers i d;
       exists = (find_task i (dd_tasks (bd_servers d)) \<noteq> None)
   in (\<not> is_ok r \<longleftrightarrow> exists \<and> clashes i (bd_profiles d))
      \<and> (if exists \<and> \<not> clashes i (bd_profiles d) then r = Inr True
         else d' = d \<and> (r = Inr False \<longleftrightarrow> \<not> exists))"
proof -
  let ?d = "run (browser_step x) ops (no_browsers s)"
  have ok: "owned (bd_profiles ?d, bd_sessions ?d, bd_takeovers ?d)"
    using owned_reachable by (simp add: holdings_def)
  have found: "fst (delete_task_with_servers i e) = (find_task i (dd_tasks e) \<noteq> None)" for e
    by (simp add: delete_task_with_servers_def delete_task_def split_beta Let_def)
  show ?thesis
    using owners_distinct_forget [OF ownedD(1,5) [OF ok], of i]
    by (simp add: delete_task_with_browsers_def split_beta Let_def found)
qed


text \<open>Such a meeting is two calls away: a browser for the project, another for one of its tasks.\<close>

definition sample_browser :: "uuid \<Rightarrow> uuid option \<Rightarrow> new_browser_session" where
  "sample_browser i task =
     \<lparr>nw_id = i, nw_project_id = 1, nw_task_id = task, nw_dev_server_instance_id = None,
      nw_profile_id = i + 100, nw_profile_path = replicate i (CHR ''p''), nw_persistent_profile = False,
      nw_network_policy = ''loopback''\<rparr>"

lemma sample_browser_prepared:
  assumes "i \<in> {1, 2}" and "task \<in> {None, Some 1}" and "bd_servers d = sample_dev_db"
    and "\<And>p. p \<in> set (bd_profiles d) \<Longrightarrow> bp_id p \<noteq> i + 100 \<and> bp_path p \<noteq> replicate i (CHR ''p'') \<and> bp_task_id p \<noteq> task"
    and "\<And>b. b \<in> set (bd_sessions d) \<Longrightarrow> bs_id b \<noteq> i"
  shows "bd_servers (snd (prepare_session x now (sample_browser i task) ''me'' d)) = sample_dev_db"
    and "bd_profiles (snd (prepare_session x now (sample_browser i task) ''me'' d))
       = bd_profiles d @ [new_profile now (sample_browser i task) None task]"
    and "bd_sessions (snd (prepare_session x now (sample_browser i task) ''me'' d))
       = bd_sessions d @ [new_session_row now (sample_browser i task) None task]"
proof -
  have v: "validate_new_session (sample_browser i task) ''me'' = Inr ()"
    using assms(1) by (auto simp: validate_new_session_def validate_browser_actor_def sample_browser_def trim_def
        ascii_space_def has_nul_def replicate_Suc numeral_2_eq_2)
  have scope: "browser_scope d 1 task None = Inr (task, None)"
    using assms(2,3) by (auto simp: browser_scope_def scope_task_def find_task_def sample_dev_db_def no_servers_def
        sample_task_db_def new_task_row_def sample_task_def)
  have "project_exists (Some 1) (dd_tasks (bd_servers d))"
    using assms(3) by (simp add: project_exists_def sample_dev_db_def no_servers_def sample_task_db_def no_tasks_def
        db.defs empty_db_def)
  moreover have "insert_profile (new_profile now (sample_browser i task) None task) d
      = Inr (d\<lparr>bd_profiles := bd_profiles d @ [new_profile now (sample_browser i task) None task]\<rparr>)"
    using assms(4) by (auto simp: insert_profile_def new_profile_def sample_browser_def profile_owner_def)
  ultimately have "\<exists>h. snd (validated (prepare_session_tx x now (sample_browser i task) ''me'') d)
      = d\<lparr>bd_profiles := bd_profiles d @ [new_profile now (sample_browser i task) None task],
          bd_sessions := bd_sessions d @ [new_session_row now (sample_browser i task) None task], bd_history := h\<rparr>"
    using scope assms(5) by (auto simp: validated_def transaction_def prepare_session_tx_def record_browser_event_def
        sample_browser_def)
  then show "bd_servers (snd (prepare_session x now (sample_browser i task) ''me'' d)) = sample_dev_db"
    and "bd_profiles (snd (prepare_session x now (sample_browser i task) ''me'' d))
       = bd_profiles d @ [new_profile now (sample_browser i task) None task]"
    and "bd_sessions (snd (prepare_session x now (sample_browser i task) ''me'' d))
       = bd_sessions d @ [new_session_row now (sample_browser i task) None task]"
    using assms(3) by (auto simp: prepare_session_def v checked_def)
qed

lemma blocked_deletion:
  "\<not> is_ok (fst (delete_task_with_browsers 1 (run (browser_step x)
     [BPrepare 1 (sample_browser 1 None) ''me'', BPrepare 2 (sample_browser 2 (Some 1)) ''me'']
     (no_browsers sample_dev_db))))"
proof -
  let ?d1 = "snd (prepare_session x 1 (sample_browser 1 None) ''me'' (no_browsers sample_dev_db))"
  let ?d = "snd (prepare_session x 2 (sample_browser 2 (Some 1)) ''me'' ?d1)"
  have "bd_servers ?d = sample_dev_db \<and> bd_profiles ?d = [new_profile 1 (sample_browser 1 None) None None,
      new_profile 2 (sample_browser 2 (Some 1)) None (Some 1)]"
    using sample_browser_prepared [of 2 "Some 1" ?d1 x 2] sample_browser_prepared [of 1 None "no_browsers sample_dev_db" x 1]
    by (simp add: no_browsers_def new_profile_def new_session_row_def sample_browser_def numeral_2_eq_2)
  then have "\<not> is_ok (fst (delete_task_with_browsers 1 ?d))"
    by (simp add: delete_task_with_browsers_def split_beta Let_def delete_task_with_servers_def delete_task_def
        find_task_def sample_dev_db_def no_servers_def sample_task_db_def new_task_row_def sample_task_def
        owners_distinct_def new_profile_def profile_without_task_def profile_active_def profile_owner_def
        sample_browser_def)
  then show ?thesis by simp
qed

subsection \<open>The console and network logs\<close>

definition payloads :: "uuid \<Rightarrow> log_entry list \<Rightarrow> json list" where
  "payloads s t = map le_payload (filter (\<lambda>e. le_session_id e = s) t)"

definition ordered :: "log_entry list \<Rightarrow> bool" where
  "ordered t \<longleftrightarrow> sorted_wrt (<) (map le_id t)"

definition others :: "uuid \<Rightarrow> log_entry list \<Rightarrow> log_entry list" where
  "others s t = filter (\<lambda>e. le_session_id e \<noteq> s) t"

lemma insert_entries_ordered:
  "ordered t \<Longrightarrow> ordered (insert_entries now s vs t)
     \<and> payloads s (insert_entries now s vs t) = payloads s t @ vs
     \<and> others s (insert_entries now s vs t) = others s t"
proof (induction vs arbitrary: t)
  case (Cons v vs)
  let ?t = "t @ [\<lparr>le_id = foldl max 0 (map le_id t) + 1, le_session_id = s, le_payload = v, le_created_at = now\<rparr>]"
  have "le_id e < foldl max 0 (map le_id t) + 1" if "e \<in> set t" for e
    using foldl_max_upper [of 0 "map le_id t"] that by force
  then have "ordered ?t" using Cons.prems by (simp add: ordered_def sorted_wrt_append)
  from Cons.IH [OF this] show ?case by (simp add: payloads_def others_def)
qed (simp add: payloads_def others_def)

lemma ordered_filter: "ordered t \<Longrightarrow> ordered (filter p t)"
  unfolding ordered_def sorted_wrt_map by (rule sorted_wrt_filter)

lemma ordered_sorted: "ordered t \<Longrightarrow> sort_key le_id t = t"
  unfolding ordered_def by (intro sort_key_id_if_sorted) (simp add: strict_sorted_imp_sorted)

lemma ordered_distinct: "ordered t \<Longrightarrow> distinct (map le_id t)"
  unfolding ordered_def by (simp add: strict_sorted_iff)

lemma newest_ordered:
  "ordered t \<Longrightarrow> newest_entries s n t = take n (rev (filter (\<lambda>e. le_session_id e = s) t))"
  by (simp add: newest_entries_def ordered_sorted ordered_filter)

lemma filter_in_drop:
  assumes "distinct (map k xs)"
  shows "filter (\<lambda>e. k e \<in> k ` set (drop n xs)) xs = drop n xs"
proof -
  have ds: "set (take n xs) \<inter> set (drop n xs) = {}" and inj: "inj_on k (set xs)"
    using assms set_take_disj_set_drop_if_distinct [of xs n n] by (simp_all add: distinct_map)
  have mem: "k e \<in> k ` set (drop n xs) \<longleftrightarrow> e \<in> set (drop n xs)" if "e \<in> set xs" for e
    using inj that set_drop_subset [of n xs] by (auto simp: inj_on_def)
  have "filter (\<lambda>e. k e \<in> k ` set (drop n xs)) xs = filter (\<lambda>e. e \<in> set (drop n xs)) xs"
    by (rule filter_cong) (simp_all add: mem)
  also have "\<dots> = filter (\<lambda>e. e \<in> set (drop n xs)) (take n xs @ drop n xs)" by simp
  also have "\<dots> = drop n xs" using ds by (simp only: filter_append) (auto simp: filter_empty_conv filter_id_conv)
  finally show ?thesis .
qed

lemma prune_entries_ordered:
  assumes ok: "ordered t"
  shows "ordered (prune_entries s t)" and "others s (prune_entries s t) = others s t"
    and "payloads s (prune_entries s t)
       = drop (length (payloads s t) - MAX_HISTORY_ENTRIES) (payloads s t)"
proof -
  show "ordered (prune_entries s t)" unfolding prune_entries_def delete_rows_def by (rule ordered_filter [OF ok])
  show "others s (prune_entries s t) = others s t"
    by (simp add: prune_entries_def delete_rows_def others_def conj_commute cong: conj_cong)
  let ?mine = "filter (\<lambda>e. le_session_id e = s) t"
  let ?n = "length ?mine - MAX_HISTORY_ENTRIES"
  have "set (newest_entries s MAX_HISTORY_ENTRIES t) = set (drop ?n ?mine)"
    by (simp add: newest_ordered [OF ok] take_rev)
  then have "filter (\<lambda>e. le_session_id e = s) (prune_entries s t)
      = filter (\<lambda>e. le_id e \<in> le_id ` set (drop ?n ?mine)) ?mine"
    by (simp add: prune_entries_def delete_rows_def conj_commute cong: conj_cong)
  also have "\<dots> = drop ?n ?mine"
    by (rule filter_in_drop) (rule ordered_distinct [OF ordered_filter [OF ok]])
  finally show "payloads s (prune_entries s t)
       = drop (length (payloads s t) - MAX_HISTORY_ENTRIES) (payloads s t)"
    by (simp add: payloads_def drop_map)
qed


lemma newest_kept: "m \<le> n \<Longrightarrow> take m (rev (drop (length xs - n) xs)) = take m (rev xs)"
  by (cases "n \<le> length xs") (auto simp: rev_drop min_def)

definition logs_ordered :: "browser_db \<Rightarrow> bool" where
  "logs_ordered d \<longleftrightarrow> ordered (bd_console d) \<and> ordered (bd_network d)"

lemma append_bounded_ordered:
  "logs_ordered d \<Longrightarrow> logs_ordered (snd (append_bounded now table s vs d))"
  unfolding append_bounded_def Let_def
  by (intro after_if [where P = logs_ordered] after_validated [where P = logs_ordered])
    (auto simp: logs_ordered_def insert_entries_ordered prune_entries_ordered(1) split: sum.splits)

lemma logs_others:
  "logs_ordered d \<Longrightarrow> logs_ordered (snd (prepare_session x now n a d))"
  "logs_ordered d \<Longrightarrow> logs_ordered (snd (browser_transition now i target f v a d))"
  "logs_ordered d \<Longrightarrow> logs_ordered (snd (upsert_tab now t s st u ti a d))"
  "logs_ordered d \<Longrightarrow> logs_ordered (snd (close_tab x now s t a d))"
  "logs_ordered d \<Longrightarrow> logs_ordered (snd (record_observation x now o' s t' k h m m' v' a d))"
  "logs_ordered d \<Longrightarrow> logs_ordered (snd (start_takeover x now t s a r d))"
  "logs_ordered d \<Longrightarrow> logs_ordered (snd (stop_takeover x now s a w d))"
  "logs_ordered d \<Longrightarrow> logs_ordered (snd (browser_record_event now s k a v' d))"
proof -
  note keep = after_validated [where P = logs_ordered] after_checked [where P = logs_ordered]
    after_if [where P = logs_ordered]
  assume ok: "logs_ordered d"
  have insert: "insert_profile p d = Inr d' \<Longrightarrow> logs_ordered d'" for p d'
    using ok by (auto simp: insert_profile_def logs_ordered_def split: if_splits)
  show "logs_ordered (snd (prepare_session x now n a d))"
    unfolding prepare_session_def
    by (intro keep; (simp add: ok)?; (intro keep)?)
      (use ok in \<open>auto simp: prepare_session_tx_def logs_ordered_def split: if_splits sum.splits
        dest!: insert [unfolded logs_ordered_def]\<close>)
  show "logs_ordered (snd (browser_transition now i target f v a d))"
    unfolding browser_transition_def Let_def split_beta
    by (intro keep; (simp add: ok)?; (intro keep)?)
      (use ok in \<open>auto simp: browser_transition_tx_def logs_ordered_def Let_def split: if_splits option.splits\<close>)
  show "logs_ordered (snd (upsert_tab now t s st u ti a d))"
    unfolding upsert_tab_def
    by (intro keep; (simp add: ok)?; (intro keep)?)
      (use ok in \<open>auto simp: upsert_tab_tx_def upsert_tab_row_def logs_ordered_def split: sum.splits if_splits\<close>)
  show "logs_ordered (snd (close_tab x now s t a d))"
    unfolding close_tab_def
    by (intro keep) (use ok in \<open>auto simp: close_tab_tx_def Let_def logs_ordered_def split: sum.splits if_splits\<close>)
  show "logs_ordered (snd (record_observation x now o' s t' k h m m' v' a d))"
    unfolding record_observation_def
    by (intro keep; (simp add: ok)?; (intro keep)?)
      (use ok in \<open>auto simp: record_observation_tx_def logs_ordered_def split: sum.splits if_splits option.splits\<close>)
  show "logs_ordered (snd (start_takeover x now t s a r d))"
    unfolding start_takeover_def
    by (intro keep; (simp add: ok)?; (intro keep)?)
      (use ok in \<open>auto simp: start_takeover_tx_def logs_ordered_def split: if_splits option.splits\<close>)
  show "logs_ordered (snd (stop_takeover x now s a w d))"
    unfolding stop_takeover_def Let_def split_beta
    by (intro keep; (simp add: ok)?; (intro keep)?)
      (use ok in \<open>auto simp: stop_takeover_tx_def logs_ordered_def split: sum.splits option.splits\<close>)
  show "logs_ordered (snd (browser_record_event now s k a v' d))"
    unfolding browser_record_event_def
    by (intro keep) (use ok in \<open>auto simp: logs_ordered_def split: sum.splits elim!: map_outcome.elims\<close>)
qed

lemma logs_step: "logs_ordered d \<Longrightarrow> logs_ordered (browser_step x op d)"
proof (cases op)
  case (BRestart now)
  assume "logs_ordered d"
  then show ?thesis by (simp add: BRestart Let_def recover_browsers_def logs_ordered_def)
next
  case (BServer op')
  assume "logs_ordered d"
  then show ?thesis
    by (simp add: BServer server_step_def delete_task_with_browsers_def split_beta Let_def logs_ordered_def
        split: dev_op.splits task_op.splits)
qed (simp_all add: logs_others append_bounded_ordered browser_mark_running_def browser_begin_stop_def
    browser_mark_stopped_def browser_mark_failed_def browser_mark_orphaned_def append_console_def
    append_network_def)

lemma logs_reachable: "logs_ordered (run (browser_step x) ops (no_browsers s))"
  by (rule run_invariant [where I = logs_ordered])
    (rule logs_step, assumption, simp add: logs_ordered_def no_browsers_def ordered_def)

text \<open>In every reachable state, appending entries to the console log of a session fails, changing
  nothing, exactly when the session does not exist. Otherwise the log afterwards holds the newest 1000
  of the old entries followed by the new ones, a read of any limit gives the newest of them, newest
  first, and neither the log of another session nor the network log changes.
\<close>

theorem console_keeps_the_newest:
  "let d = run (browser_step x) ops (no_browsers s);
       all = payloads i (bd_console d) @ vs;
       (r, d') = append_console now i vs d
   in if find_browser_session i d = None then \<not> is_ok r \<and> d' = d
      else r = Inr (length vs)
        \<and> payloads i (bd_console d') = drop (length all - 1000) all
        \<and> console i k d' = Inr (take (min (max k 1) 1000) (rev all))
        \<and> others i (bd_console d') = others i (bd_console d) \<and> bd_network d' = bd_network d"
proof (cases "find_browser_session i (run (browser_step x) ops (no_browsers s))")
  case None
  then show ?thesis
    by (simp add: Let_def append_console_def append_bounded_def validated_def transaction_def session_project_def
        validation_error_def VALIDATION_PREFIX_def)
next
  case (Some b)
  let ?d = "run (browser_step x) ops (no_browsers s)"
  let ?new = "insert_entries now i vs (bd_console ?d)"
  let ?t = "prune_entries i ?new"
  let ?all = "payloads i (bd_console ?d) @ vs"
  have new: "ordered ?new" "payloads i ?new = ?all" "others i ?new = others i (bd_console ?d)"
    using insert_entries_ordered logs_reachable [unfolded logs_ordered_def] by blast+
  have t: "ordered ?t" "payloads i ?t = drop (length ?all - 1000) ?all" "others i ?t = others i (bd_console ?d)"
    using prune_entries_ordered [OF new(1), of i] new(2,3) by (simp_all add: MAX_HISTORY_ENTRIES_def)
  have app: "append_console now i vs ?d = (Inr (length vs), ?d\<lparr>bd_console := ?t\<rparr>)"
    using Some by (simp add: append_console_def append_bounded_def validated_def transaction_def session_project_def)
  have "map le_payload (newest_entries i (min (max k 1) 1000) ?t) = take (min (max k 1) 1000) (rev ?all)"
  proof -
    have "map le_payload (newest_entries i (min (max k 1) 1000) ?t)
        = take (min (max k 1) 1000) (rev (payloads i ?t))"
      by (simp add: newest_ordered [OF t(1)] payloads_def take_map rev_map)
    also have "\<dots> = take (min (max k 1) 1000) (rev ?all)"
      unfolding t(2) by (rule newest_kept) simp
    finally show ?thesis .
  qed
  then show ?thesis
    using Some t by (simp add: Let_def app console_def bounded_entries_def MAX_HISTORY_ENTRIES_def)
qed

end
