(* ===== verification/BrowserVerification.thy ===== *)
theory BrowserVerification
  imports Browser Verification
begin

text \<open>
  \<open>crates/retcon-storage/src/browser_verification.rs\<close> and the statements of
  \<open>recovery.rs\<close> on its tables: the definitions of browser verifications with their variants,
  the runs, the evidence recorded when a run completes, its review, and the approved baselines. The
  tables sit beside those of the managed browsers; \<open>gate_view\<close> gives the columns that the
  completion gate of \<open>TaskPlanning\<close> reads. An \<open>f64\<close> is the number of its IEEE 754
  bits, on which the range checks are exact. A call takes one clock reading and its fresh identifiers
  as arguments; JSON columns are kept decoded.
\<close>

definition MAX_JSON_BYTES :: nat where "MAX_JSON_BYTES = 1024 * 1024"
definition MAX_COLLECTION :: nat where "MAX_COLLECTION = 1000"

subsection \<open>Floating-point numbers\<close>

type_synonym f64 = nat

text \<open>
  The bits of a non-negative number grow with it; minus zero is equal to zero. So
  \<open>(0.0..=1.0).contains(v)\<close> and \<open>(0.0..=8.0).contains(v)\<close> are comparisons of bits, which
  no NaN passes.
\<close>

definition f64_is_zero :: "f64 \<Rightarrow> bool" where
  "f64_is_zero v \<longleftrightarrow> v = 0 \<or> v = 9223372036854775808"

definition in_unit_interval :: "f64 \<Rightarrow> bool" where
  "in_unit_interval v \<longleftrightarrow> v \<le> 4607182418800017408 \<or> f64_is_zero v"

definition in_zero_to_eight :: "f64 \<Rightarrow> bool" where
  "in_zero_to_eight v \<longleftrightarrow> v \<le> 4620693217682128896 \<or> f64_is_zero v"

text \<open>\<open>Value::as_f64\<close> of a number, as far as the question whether it lies between 0 and 1.\<close>

definition json_ratio_out_of_range :: "json \<Rightarrow> bool" where
  "json_ratio_out_of_range v \<longleftrightarrow>
     (case v of
        JNum (PosInt n) \<Rightarrow> 1 < n
      | JNum (NegInt i) \<Rightarrow> True
      | JNum (FloatBits b) \<Rightarrow> \<not> in_unit_interval b
      | _ \<Rightarrow> False)"

subsection \<open>Rows\<close>

record new_bv_variant =
  nz_id :: uuid
  nz_key :: string
  nz_width :: int
  nz_height :: int
  nz_device_scale :: f64
  nz_device_name :: "string option"
  nz_sort_order :: int

record new_bv_definition =
  nb_id :: uuid
  nb_project_id :: uuid
  nb_task_id :: "uuid option"
  nb_dev_server_config_id :: "uuid option"
  nb_name :: string
  nb_target_url :: string
  nb_steps :: json
  nb_assertions :: json
  nb_visual_policy :: json
  nb_fail_on_accessibility :: bool
  nb_variants :: "new_bv_variant list"
  nb_status :: string
  nb_required :: bool
  nb_timeout_ms :: int
  nb_max_retries :: int

record bv_variant =
  bz_id :: uuid
  bz_definition_id :: uuid
  bz_key :: string
  bz_width :: int
  bz_height :: int
  bz_device_scale :: f64
  bz_device_name :: "string option"
  bz_sort_order :: int

text \<open>A row of \<open>browser_verification_definitions\<close>; its variants are rows of their own.\<close>

record bv_definition =
  bn_id :: uuid
  bn_project_id :: uuid
  bn_task_id :: "uuid option"
  bn_dev_server_config_id :: "uuid option"
  bn_name :: string
  bn_target_url :: string
  bn_steps :: json
  bn_assertions :: json
  bn_visual_policy :: json
  bn_fail_on_accessibility :: bool
  bn_status :: string
  bn_required :: bool
  bn_timeout_ms :: int
  bn_max_retries :: int
  bn_created_at :: millis
  bn_updated_at :: millis

record new_bv_run =
  nq_id :: uuid
  nq_definition_id :: uuid
  nq_task_id :: uuid
  nq_dev_server_instance_id :: "uuid option"
  nq_browser_session_id :: "uuid option"
  nq_idempotency_key :: "string option"

record bv_run =
  bw_id :: uuid
  bw_definition_id :: uuid
  bw_project_id :: uuid
  bw_task_id :: uuid
  bw_dev_server_instance_id :: "uuid option"
  bw_browser_session_id :: "uuid option"
  bw_status :: string
  bw_attempt :: int
  bw_max_attempts :: int
  bw_timeout_ms :: int
  bw_idempotency_key :: "string option"
  bw_runner_version :: "string option"
  bw_blocking_failures :: nat
  bw_critical_accessibility :: nat
  bw_warning_count :: nat
  bw_visual_differences :: nat
  bw_console_errors :: nat
  bw_summary :: json
  bw_review :: json
  bw_failure :: "string option"
  bw_created_at :: millis
  bw_started_at :: "millis option"
  bw_completed_at :: "millis option"
  bw_updated_at :: millis

record bv_event =
  bq_id :: int
  bq_run_id :: uuid
  bq_sequence :: int
  bq_kind :: string
  bq_severity :: string
  bq_actor :: string
  bq_payload :: json
  bq_created_at :: millis

record new_bv_event =
  nl_kind :: string
  nl_severity :: string
  nl_payload :: json

record new_assertion_result =
  nx_name :: string
  nx_required :: bool
  nx_status :: string
  nx_message :: "string option"

record new_bv_artifact =
  nk_id :: uuid
  nk_kind :: string
  nk_hash :: string
  nk_mime_type :: string
  nk_size_bytes :: int
  nk_metadata :: json

record bv_artifact =
  bk_id :: uuid
  bk_run_id :: uuid
  bk_kind :: string
  bk_hash :: string
  bk_mime_type :: string
  bk_size_bytes :: int
  bk_metadata :: json
  bk_created_at :: millis

record new_comparison =
  ny_id :: uuid
  ny_baseline_id :: "uuid option"
  ny_variant_key :: string
  ny_current_hash :: string
  ny_difference_hash :: "string option"
  ny_pixel_difference_ratio :: f64
  ny_perceptual_difference_ratio :: "f64 option"
  ny_threshold_ratio :: f64
  ny_status :: string
  ny_ignore_regions :: json

record bv_comparison =
  by_id :: uuid
  by_run_id :: uuid
  by_baseline_id :: "uuid option"
  by_variant_key :: string
  by_current_hash :: string
  by_difference_hash :: "string option"
  by_pixel_difference_ratio :: f64
  by_perceptual_difference_ratio :: "f64 option"
  by_threshold_ratio :: f64
  by_status :: string
  by_ignore_regions :: json
  by_created_at :: millis

record new_console_evidence =
  ng_level :: string
  ng_message :: string
  ng_source :: "string option"

record bv_console_evidence =
  bg_id :: int
  bg_run_id :: uuid
  bg_sequence :: int
  bg_entry :: new_console_evidence
  bg_created_at :: millis

record new_network_evidence =
  nu_method :: string
  nu_url :: string
  nu_status_code :: "int option"
  nu_failure :: "string option"
  nu_duration_ms :: "int option"

record bv_network_evidence =
  bu_id :: int
  bu_run_id :: uuid
  bu_sequence :: int
  bu_entry :: new_network_evidence
  bu_created_at :: millis

record new_accessibility =
  nh_id :: uuid
  nh_rule_id :: string
  nh_severity :: string
  nh_message :: string
  nh_selector :: "string option"
  nh_help_url :: "string option"
  nh_artifact_hash :: "string option"
  nh_metadata :: json

record bv_accessibility =
  ba_run_id :: uuid
  ba_finding :: new_accessibility
  ba_status :: string
  ba_created_at :: millis

record bv_outcome =
  ou_runner_version :: string
  ou_summary :: json
  ou_timeline :: "new_bv_event list"
  ou_assertions :: "new_assertion_result list"
  ou_artifacts :: "new_bv_artifact list"
  ou_comparisons :: "new_comparison list"
  ou_console :: "new_console_evidence list"
  ou_network :: "new_network_evidence list"
  ou_accessibility :: "new_accessibility list"

record bv_baseline =
  bb_id :: uuid
  bb_definition_id :: uuid
  bb_variant_key :: string
  bb_artifact_hash :: string
  bb_source_run_id :: "uuid option"
  bb_status :: string
  bb_approved_by :: string
  bb_approved_at :: millis
  bb_metadata :: json

record bv_db =
  bv_browsers :: browser_db
  bv_definitions :: "bv_definition list"
  bv_variants :: "bv_variant list"
  bv_runs :: "bv_run list"
  bv_events :: "bv_event list"
  bv_artifacts :: "bv_artifact list"
  bv_comparisons :: "bv_comparison list"
  bv_console :: "bv_console_evidence list"
  bv_network :: "bv_network_evidence list"
  bv_accessibility :: "bv_accessibility list"
  bv_baselines :: "bv_baseline list"

text \<open>The task tables, and the tasks with the columns the completion gate reads.\<close>

definition bv_tasks :: "bv_db \<Rightarrow> task_db" where
  "bv_tasks d = dd_tasks (bd_servers (bv_browsers d))"

definition with_bv_tasks :: "task_db \<Rightarrow> bv_db \<Rightarrow> bv_db" where
  "with_bv_tasks t d = d\<lparr>bv_browsers := (bv_browsers d)\<lparr>bd_servers :=
     (bd_servers (bv_browsers d))\<lparr>dd_tasks := t\<rparr>\<rparr>\<rparr>"

definition definition_columns :: "bv_definition \<Rightarrow> browser_definition_row" where
  "definition_columns n = \<lparr>bd_id = bn_id n, bd_project_id = bn_project_id n, bd_task_id = bn_task_id n,
     bd_name = bn_name n, bd_status = bn_status n, bd_is_required = bn_required n\<rparr>"

definition run_columns :: "bv_run \<Rightarrow> browser_run_row" where
  "run_columns r = \<lparr>br_id = bw_id r, br_definition_id = bw_definition_id r, br_task_id = bw_task_id r,
     br_status = bw_status r, br_blocking_failures = bw_blocking_failures r,
     br_critical_accessibility = bw_critical_accessibility r, br_created_at = bw_created_at r\<rparr>"

definition gate_view :: "bv_db \<Rightarrow> task_db" where
  "gate_view d = (bv_tasks d)\<lparr>td_browser_definitions := map definition_columns (bv_definitions d),
     td_browser_runs := map run_columns (bv_runs d)\<rparr>"

subsection \<open>Checks of a definition\<close>

definition valid_url :: "string \<Rightarrow> bool" where
  "valid_url v \<longleftrightarrow> length v \<le> 8192 \<and> \<not> has_control v
     \<and> (starts_with ''http://'' v \<or> starts_with ''https://'' v)"

definition validate_bv_actor :: "string \<Rightarrow> (storage_error, unit) outcome" where
  "validate_bv_actor a =
     (if trim a = [] \<or> 128 < length a
      then Inl (StorageValidation ''browser verification actor is invalid'') else Inr ())"

definition validate_bv_hash :: "string \<Rightarrow> (storage_error, unit) outcome" where
  "validate_bv_hash h =
     (if length h = 64 \<and> list_all ascii_hexdigit_lower h then Inr ()
      else Inl (StorageValidation ''browser verification artifact hash is invalid''))"

definition encode_json :: "externals \<Rightarrow> json \<Rightarrow> string \<Rightarrow> (storage_error, unit) outcome" where
  "encode_json x v label =
     (if MAX_JSON_BYTES < length (json_text x v) then Inl (StorageValidation (label @ '' exceeds 1 MiB''))
      else Inr ())"

text \<open>\<open>?\<close> between two checks, and a check of every element.\<close>

fun and_then :: "('e, unit) outcome \<Rightarrow> ('e, unit) outcome \<Rightarrow> ('e, unit) outcome" where
  "and_then (Inl e) k = Inl e"
| "and_then (Inr u) k = k"

fun check_all :: "('a \<Rightarrow> ('e, unit) outcome) \<Rightarrow> 'a list \<Rightarrow> ('e, unit) outcome" where
  "check_all f [] = Inr ()"
| "check_all f (v # vs) = and_then (f v) (check_all f vs)"

definition require :: "bool \<Rightarrow> string \<Rightarrow> (storage_error, unit) outcome" where
  "require ok message = (if ok then Inr () else Inl (StorageValidation message))"

definition safe_id_char :: "char \<Rightarrow> bool" where
  "safe_id_char c \<longleftrightarrow> ascii_alphanumeric c \<or> c = CHR ''-'' \<or> c = CHR ''_''"

definition STEP_KINDS :: "string list" where
  "STEP_KINDS = [''navigate'', ''click'', ''fill'', ''press'', ''wait'', ''assert.text'',
     ''assert.element'', ''assert.status'', ''assert.console'', ''screenshot'', ''accessibility'']"

definition step_enabled :: "json \<Rightarrow> bool" where
  "step_enabled s \<longleftrightarrow> Option.bind (json_get ''enabled'' s) json_as_bool \<noteq> Some False"

definition step_supported :: "json \<Rightarrow> bool" where
  "step_supported s \<longleftrightarrow> (case json_get_str ''kind'' s of None \<Rightarrow> False | Some k \<Rightarrow> k \<in> set STEP_KINDS)"

definition step_compares :: "json \<Rightarrow> bool" where
  "step_compares s \<longleftrightarrow> step_enabled s \<and> json_get_str ''kind'' s = Some ''screenshot''
     \<and> Option.bind (json_get ''compare'' s) json_as_bool \<noteq> Some False"

definition step_id_safe :: "json \<Rightarrow> bool" where
  "step_id_safe s \<longleftrightarrow> (case json_get_str ''id'' s of
      None \<Rightarrow> False
    | Some i \<Rightarrow> i \<noteq> [] \<and> length i \<le> 128 \<and> list_all safe_id_char i)"

definition validate_steps :: "json list \<Rightarrow> (storage_error, unit) outcome" where
  "validate_steps steps =
     and_then (require (length steps \<le> 256 \<and> list_all step_supported (filter step_enabled steps))
         ''browser verification contains an unsupported step'')
       (require (case filter step_compares steps of [] \<Rightarrow> True | [s] \<Rightarrow> step_id_safe s | _ \<Rightarrow> False)
         ''browser verification allows at most one compare screenshot and requires a safe step id'')"

definition selector_valid :: "json \<Rightarrow> bool" where
  "selector_valid v \<longleftrightarrow> (case json_as_str v of
      None \<Rightarrow> False
    | Some s \<Rightarrow> trim s \<noteq> [] \<and> length s \<le> 512 \<and> \<not> has_control s)"

definition validate_selectors :: "json \<Rightarrow> string \<Rightarrow> (storage_error, unit) outcome" where
  "validate_selectors policy key =
     (case json_get key policy of
        None \<Rightarrow> Inr ()
      | Some v \<Rightarrow>
          (case json_as_array v of
             None \<Rightarrow> Inl (StorageValidation ''browser verification dynamic regions must be arrays'')
           | Some vs \<Rightarrow> require (length vs \<le> 64 \<and> list_all selector_valid vs)
               ''browser verification dynamic region is invalid''))"

definition validate_visual_policy :: "externals \<Rightarrow> json \<Rightarrow> (storage_error, unit) outcome" where
  "validate_visual_policy x v =
     (case v of
        JObj kvs \<Rightarrow>
          and_then (check_all (\<lambda>key. require
              (case json_get key v of None \<Rightarrow> True | Some r \<Rightarrow> \<not> json_ratio_out_of_range r)
              ''browser verification visual thresholds must be between 0 and 1'')
            [''pixelThreshold'', ''maxDiffPixelRatio'', ''perceptualThreshold''])
          (and_then (check_all (validate_selectors v) [''dynamicRegions'', ''maskSelectors'', ''ignoreSelectors''])
            (encode_json x v ''browser verification visual policy''))
      | _ \<Rightarrow> Inl (StorageValidation ''browser verification visual policy must be an object''))"

text \<open>The loop over the variants, with the keys and the orders seen so far.\<close>

fun validate_variants :: "string list \<Rightarrow> int list \<Rightarrow> new_bv_variant list \<Rightarrow> (storage_error, unit) outcome" where
  "validate_variants keys orders [] = Inr ()"
| "validate_variants keys orders (v # vs) =
     (if trim (nz_key v) = [] \<or> 128 < length (nz_key v) \<or> \<not> list_all safe_id_char (nz_key v)
        \<or> trim (nz_key v) \<in> set keys \<or> nz_sort_order v \<in> set orders
        \<or> nz_width v < 1 \<or> 16384 < nz_width v \<or> nz_height v < 1 \<or> 16384 < nz_height v
        \<or> \<not> in_zero_to_eight (nz_device_scale v) \<or> f64_is_zero (nz_device_scale v)
      then Inl (StorageValidation ''browser verification responsive variant is invalid'')
      else validate_variants (trim (nz_key v) # keys) (nz_sort_order v # orders) vs)"

definition validate_definition ::
    "externals \<Rightarrow> new_bv_definition \<Rightarrow> string \<Rightarrow> (storage_error, unit) outcome" where
  "validate_definition x n actor =
     and_then (validate_bv_actor actor)
    (and_then (require (trim (nb_name n) \<noteq> [] \<and> length (nb_name n) \<le> 256 \<and> valid_url (nb_target_url n)
         \<and> nb_status n \<in> {''active'', ''disabled'', ''archived''}
         \<and> 500 \<le> nb_timeout_ms n \<and> nb_timeout_ms n \<le> 120000
         \<and> 0 \<le> nb_max_retries n \<and> nb_max_retries n \<le> 3
         \<and> nb_variants n \<noteq> [] \<and> length (nb_variants n) \<le> 32)
       ''browser verification definition is invalid'')
    (case (json_as_array (nb_steps n), json_as_array (nb_assertions n)) of
       (Some steps, Some assertions) \<Rightarrow>
         and_then (validate_steps steps)
        (and_then (encode_json x (nb_steps n) ''browser verification steps'')
        (and_then (encode_json x (nb_assertions n) ''browser verification assertions'')
        (and_then (validate_visual_policy x (nb_visual_policy n))
           (validate_variants [] [] (nb_variants n)))))
     | _ \<Rightarrow> Inl (StorageValidation ''browser verification steps and assertions must be arrays'')))"

subsection \<open>Definitions\<close>

definition find_bv_definition :: "uuid \<Rightarrow> bv_db \<Rightarrow> bv_definition option" where
  "find_bv_definition i d = find (\<lambda>n. bn_id n = i) (bv_definitions d)"

definition find_bv_run :: "uuid \<Rightarrow> bv_db \<Rightarrow> bv_run option" where
  "find_bv_run i d = find (\<lambda>r. bw_id r = i) (bv_runs d)"

definition variants_of :: "uuid \<Rightarrow> bv_db \<Rightarrow> bv_variant list" where
  "variants_of i d = sort_key bz_sort_order (sort_key bz_id (filter (\<lambda>v. bz_definition_id v = i) (bv_variants d)))"

text \<open>\<open>definition\<close>: the row with its variants.\<close>

definition bv_definition_get :: "uuid \<Rightarrow> bv_db \<Rightarrow> (bv_definition \<times> bv_variant list) option" where
  "bv_definition_get i d = map_option (\<lambda>n. (n, variants_of i d)) (find_bv_definition i d)"

definition bv_definitions_list :: "uuid \<Rightarrow> bv_db \<Rightarrow> (bv_definition \<times> bv_variant list) list" where
  "bv_definitions_list project d =
     map (\<lambda>n. (n, variants_of (bn_id n) d)) (sort_key bn_name (sort_key bn_id
       (filter (\<lambda>n. bn_project_id n = project) (bv_definitions d))))"

definition validate_definition_scope :: "bv_db \<Rightarrow> new_bv_definition \<Rightarrow> (sql_error, unit) outcome" where
  "validate_definition_scope d n =
     and_then
       (case nb_task_id n of
          None \<Rightarrow> Inr ()
        | Some i \<Rightarrow>
            (case find_task i (bv_tasks d) of
               None \<Rightarrow> Inl (validation_error ''browser verification task does not exist'')
             | Some t \<Rightarrow>
                 if tk_project_id t \<noteq> Some (nb_project_id n)
                 then Inl (validation_error ''browser verification task belongs to a different project'')
                 else Inr ()))
       (case nb_dev_server_config_id n of
          None \<Rightarrow> Inr ()
        | Some i \<Rightarrow>
            (case config_by_id i (bd_servers (bv_browsers d)) of
               None \<Rightarrow> Inl (validation_error
                 ''browser verification development server config does not exist'')
             | Some c \<Rightarrow>
                 if dc_project_id c \<noteq> nb_project_id n
                 then Inl (validation_error
                   ''browser verification development server belongs to a different project'')
                 else Inr ()))"

definition definition_row :: "millis \<Rightarrow> millis \<Rightarrow> new_bv_definition \<Rightarrow> bv_definition" where
  "definition_row created now n =
     \<lparr>bn_id = nb_id n, bn_project_id = nb_project_id n, bn_task_id = nb_task_id n,
      bn_dev_server_config_id = nb_dev_server_config_id n, bn_name = trim (nb_name n),
      bn_target_url = trim (nb_target_url n), bn_steps = nb_steps n, bn_assertions = nb_assertions n,
      bn_visual_policy = nb_visual_policy n, bn_fail_on_accessibility = nb_fail_on_accessibility n,
      bn_status = nb_status n, bn_required = nb_required n, bn_timeout_ms = nb_timeout_ms n,
      bn_max_retries = nb_max_retries n, bn_created_at = created, bn_updated_at = now\<rparr>"

text \<open>\<open>length\<close> of a text column counts characters: the bytes that do not continue one.\<close>

definition sql_length :: "string \<Rightarrow> nat" where
  "sql_length s = length (filter (\<lambda>c. \<not> (128 \<le> (of_char c :: nat) \<and> (of_char c :: nat) < 192)) s)"

text \<open>
  \<open>INSERT .. ON CONFLICT(id) DO UPDATE .. WHERE project_id=excluded.project_id\<close>, with the
  check on the visual policy and the unique names of a project.
\<close>

definition upsert_definition ::
    "externals \<Rightarrow> millis \<Rightarrow> new_bv_definition \<Rightarrow> bv_db \<Rightarrow> (sql_error, bv_db) outcome" where
  "upsert_definition x now n d =
     (if 65536 < sql_length (json_text x (nb_visual_policy n)) then Inl (SqlConstraint ''CHECK'')
      else if \<exists>r \<in> set (bv_definitions d). bn_id r \<noteq> nb_id n \<and> bn_project_id r = nb_project_id n
        \<and> bn_name r = trim (nb_name n)
      then Inl (SqlConstraint ''browser_verification_definitions.name'')
      else case find_bv_definition (nb_id n) d of
        None \<Rightarrow> Inr (d\<lparr>bv_definitions := bv_definitions d @ [definition_row now now n]\<rparr>)
      | Some r \<Rightarrow>
          if bn_project_id r \<noteq> nb_project_id n
          then Inl (validation_error ''browser verification definition belongs to a different project'')
          else Inr (d\<lparr>bv_definitions := update_rows (\<lambda>r. bn_id r = nb_id n)
                 (\<lambda>r. definition_row (bn_created_at r) now n) (bv_definitions d)\<rparr>))"

definition variant_row :: "uuid \<Rightarrow> new_bv_variant \<Rightarrow> bv_variant" where
  "variant_row i v =
     \<lparr>bz_id = nz_id v, bz_definition_id = i, bz_key = trim (nz_key v), bz_width = nz_width v,
      bz_height = nz_height v, bz_device_scale = nz_device_scale v, bz_device_name = nz_device_name v,
      bz_sort_order = nz_sort_order v\<rparr>"

text \<open>Insertions one after the other into a table with a unique key.\<close>

definition insert_rows ::
    "string \<Rightarrow> ('r \<Rightarrow> 'k) \<Rightarrow> 'r list \<Rightarrow> 'r list \<Rightarrow> (sql_error, 'r list) outcome" where
  "insert_rows name key rows table =
     (if distinct (map key rows) \<and> set (map key rows) \<inter> set (map key table) = {}
      then Inr (table @ rows) else Inl (SqlConstraint name))"

definition save_definition_tx ::
    "externals \<Rightarrow> millis \<Rightarrow> new_bv_definition \<Rightarrow> bv_db \<Rightarrow> (sql_error, unit \<times> bv_db) outcome" where
  "save_definition_tx x now n d =
     (if \<not> project_exists (Some (nb_project_id n)) (bv_tasks d)
      then Inl (validation_error ''browser verification project does not exist'')
      else case validate_definition_scope d n of
        Inl e \<Rightarrow> Inl e
      | Inr u \<Rightarrow>
          (case upsert_definition x now n d of
             Inl e \<Rightarrow> Inl e
           | Inr d1 \<Rightarrow>
               map_outcome (\<lambda>t. ((), d1\<lparr>bv_variants := t\<rparr>))
                 (insert_rows ''browser_verification_variants'' bz_id
                   (map (variant_row (nb_id n)) (nb_variants n))
                   (delete_rows (\<lambda>v. bz_definition_id v = nb_id n) (bv_variants d1)))))"

definition save_definition ::
    "externals \<Rightarrow> millis \<Rightarrow> new_bv_definition \<Rightarrow> string \<Rightarrow> bv_db
      \<Rightarrow> (storage_error, bv_definition \<times> bv_variant list) outcome \<times> bv_db" where
  "save_definition x now n actor d =
     checked (validate_definition x n actor) d
       (case validated (save_definition_tx x now n) d of
          (Inl e, d') \<Rightarrow> (Inl e, d')
        | (Inr u, d') \<Rightarrow>
            (case bv_definition_get (nb_id n) d' of
               Some v \<Rightarrow> (Inr v, d')
             | None \<Rightarrow> (Inl (StorageValidation ''saved browser verification definition disappeared''), d')))"

subsection \<open>Runs: reading them back\<close>

record bv_details =
  de_run :: bv_run
  de_definition :: "bv_definition \<times> bv_variant list"
  de_events :: "bv_event list"
  de_artifacts :: "bv_artifact list"
  de_comparisons :: "bv_comparison list"
  de_console :: "bv_console_evidence list"
  de_network :: "bv_network_evidence list"
  de_accessibility :: "bv_accessibility list"

definition events_of_run :: "uuid \<Rightarrow> bv_db \<Rightarrow> bv_event list" where
  "events_of_run i d = sort_key bq_sequence (filter (\<lambda>e. bq_run_id e = i) (bv_events d))"

definition artifacts_of_run :: "uuid \<Rightarrow> bv_db \<Rightarrow> bv_artifact list" where
  "artifacts_of_run i d =
     sort_key bk_created_at (sort_key bk_id (filter (\<lambda>r. bk_run_id r = i) (bv_artifacts d)))"

definition comparisons_of_run :: "uuid \<Rightarrow> bv_db \<Rightarrow> bv_comparison list" where
  "comparisons_of_run i d =
     sort_key by_variant_key (sort_key by_id (filter (\<lambda>r. by_run_id r = i) (bv_comparisons d)))"

definition console_of_run :: "uuid \<Rightarrow> bv_db \<Rightarrow> bv_console_evidence list" where
  "console_of_run i d = sort_key bg_sequence (filter (\<lambda>r. bg_run_id r = i) (bv_console d))"

definition network_of_run :: "uuid \<Rightarrow> bv_db \<Rightarrow> bv_network_evidence list" where
  "network_of_run i d = sort_key bu_sequence (filter (\<lambda>r. bu_run_id r = i) (bv_network d))"

definition accessibility_of_run :: "uuid \<Rightarrow> bv_db \<Rightarrow> bv_accessibility list" where
  "accessibility_of_run i d =
     sort_key (\<lambda>r. if nh_severity (ba_finding r) = ''critical'' then 0 else 1 :: nat)
       (sort_key (\<lambda>r. nh_rule_id (ba_finding r)) (sort_key (\<lambda>r. nh_id (ba_finding r))
         (filter (\<lambda>r. ba_run_id r = i) (bv_accessibility d))))"

definition bv_get :: "uuid \<Rightarrow> bv_db \<Rightarrow> (storage_error, bv_details option) outcome" where
  "bv_get i d =
     (case find_bv_run i d of
        None \<Rightarrow> Inr None
      | Some r \<Rightarrow>
          (case bv_definition_get (bw_definition_id r) d of
             None \<Rightarrow> Inl (StorageValidation ''browser verification definition disappeared'')
           | Some n \<Rightarrow>
               Inr (Some \<lparr>de_run = r, de_definition = n, de_events = events_of_run i d,
                 de_artifacts = artifacts_of_run i d, de_comparisons = comparisons_of_run i d,
                 de_console = console_of_run i d, de_network = network_of_run i d,
                 de_accessibility = accessibility_of_run i d\<rparr>)))"

definition bv_runs_of_task :: "uuid \<Rightarrow> bv_db \<Rightarrow> bv_run list" where
  "bv_runs_of_task i d =
     sort_key (\<lambda>r. - bw_created_at r) (sort_key (\<lambda>r. - int (bw_id r))
       (filter (\<lambda>r. bw_task_id r = i) (bv_runs d)))"

definition comparison_run :: "uuid \<Rightarrow> bv_db \<Rightarrow> (bv_comparison \<times> bv_run) option" where
  "comparison_run i d =
     Option.bind (find (\<lambda>c. by_id c = i) (bv_comparisons d))
       (\<lambda>c. map_option (\<lambda>r. (c, r)) (find_bv_run (by_run_id c) d))"

definition comparison_project_id :: "uuid \<Rightarrow> bv_db \<Rightarrow> uuid option" where
  "comparison_project_id i d = map_option (\<lambda>cr. bw_project_id (snd cr)) (comparison_run i d)"

definition comparison_artifact_hash :: "uuid \<Rightarrow> bv_db \<Rightarrow> string option" where
  "comparison_artifact_hash i d = map_option by_current_hash (find (\<lambda>c. by_id c = i) (bv_comparisons d))"

definition active_baselines :: "uuid \<Rightarrow> bv_db \<Rightarrow> bv_baseline list" where
  "active_baselines i d =
     sort_key bb_variant_key (sort_key bb_id
       (filter (\<lambda>b. bb_definition_id b = i \<and> bb_status b = ''active'') (bv_baselines d)))"

text \<open>Every mutation ends with \<open>self.get(id)?.map(..)\<close>.\<close>

definition bv_mutated ::
    "uuid \<Rightarrow> (storage_error, (uuid \<times> bool) option) outcome \<times> bv_db
      \<Rightarrow> (storage_error, bv_details verification_mutation option) outcome \<times> bv_db" where
  "bv_mutated i r =
     (case r of
        (Inl e, d) \<Rightarrow> (Inl e, d)
      | (Inr None, d) \<Rightarrow> (Inr None, d)
      | (Inr (Some (task, reopened)), d) \<Rightarrow>
          (map_outcome (map_option (\<lambda>v. \<lparr>vm_task_id = task, vm_reopened = reopened, vm_value = v\<rparr>))
             (bv_get i d), d))"

subsection \<open>Events and reopening\<close>

definition append_bv_event ::
    "millis \<Rightarrow> uuid \<Rightarrow> string \<Rightarrow> string \<Rightarrow> string \<Rightarrow> json \<Rightarrow> bv_db \<Rightarrow> bv_db" where
  "append_bv_event now i kind severity actor payload d =
     d\<lparr>bv_events := bv_events d @
        [\<lparr>bq_id = foldl max 0 (map bq_id (bv_events d)) + 1, bq_run_id = i,
          bq_sequence = foldl max 0 (map bq_sequence (filter (\<lambda>e. bq_run_id e = i) (bv_events d))) + 1,
          bq_kind = kind, bq_severity = severity, bq_actor = actor, bq_payload = payload,
          bq_created_at = now\<rparr>]\<rparr>"

definition bv_reopen_if :: "bool \<Rightarrow> millis \<Rightarrow> uuid \<Rightarrow> bv_db \<Rightarrow> bool \<times> bv_db" where
  "bv_reopen_if c now task d =
     (let (reopened, t) = reopen_if c now task (bv_tasks d) in (reopened, with_bv_tasks t d))"

definition update_bv_run :: "uuid \<Rightarrow> (bv_run \<Rightarrow> bv_run) \<Rightarrow> bv_db \<Rightarrow> bv_db" where
  "update_bv_run i f d = d\<lparr>bv_runs := update_rows (\<lambda>r. bw_id r = i) f (bv_runs d)\<rparr>"

subsection \<open>Queueing, starting, stopping\<close>

definition validate_run_owners ::
    "bv_db \<Rightarrow> uuid \<Rightarrow> uuid \<Rightarrow> uuid option \<Rightarrow> uuid option \<Rightarrow> uuid option \<Rightarrow> (sql_error, unit) outcome" where
  "validate_run_owners d project task config server browser =
     and_then
       (if config = None \<and> server = None then Inr ()
        else case server of
          None \<Rightarrow> Inl (validation_error ''browser verification requires a running development server'')
        | Some i \<Rightarrow>
            (case find_instance i (bd_servers (bv_browsers d)) of
               None \<Rightarrow> Inl (validation_error
                 ''browser verification development server instance does not exist'')
             | Some r \<Rightarrow>
                 if (case config of None \<Rightarrow> False | Some c \<Rightarrow> di_config_id r \<noteq> c)
                   \<or> di_project_id r \<noteq> project \<or> di_status r \<noteq> ''running'' \<or> di_task_id r \<noteq> Some task
                 then Inl (validation_error
                   ''browser verification development server ownership or state is invalid'')
                 else Inr ()))
       (case browser of
          None \<Rightarrow> Inr ()
        | Some i \<Rightarrow>
            (case find_browser_session i (bv_browsers d) of
               None \<Rightarrow> Inl (validation_error ''browser verification browser session does not exist'')
             | Some s \<Rightarrow>
                 if bs_project_id s \<noteq> project
                   \<or> (case bs_task_id s of None \<Rightarrow> False | Some t \<Rightarrow> t \<noteq> task)
                   \<or> bs_status s \<noteq> ''running''
                 then Inl (validation_error
                   ''browser verification browser session ownership or state is invalid'')
                 else Inr ()))"

definition idempotency_key_invalid :: "string option \<Rightarrow> bool" where
  "idempotency_key_invalid key \<longleftrightarrow>
     (case key of None \<Rightarrow> False | Some k \<Rightarrow> k = [] \<or> 128 < length k \<or> has_control k)"

text \<open>The run that was queued with the same definition, task and key.\<close>

definition same_request :: "new_bv_run \<Rightarrow> bv_run \<Rightarrow> bool" where
  "same_request q r \<longleftrightarrow> nq_idempotency_key q \<noteq> None \<and> bw_definition_id r = nq_definition_id q
     \<and> bw_task_id r = nq_task_id q \<and> bw_idempotency_key r = nq_idempotency_key q"

definition queued_run :: "millis \<Rightarrow> new_bv_run \<Rightarrow> bv_definition \<Rightarrow> bv_run" where
  "queued_run now q n =
     \<lparr>bw_id = nq_id q, bw_definition_id = nq_definition_id q, bw_project_id = bn_project_id n,
      bw_task_id = nq_task_id q, bw_dev_server_instance_id = nq_dev_server_instance_id q,
      bw_browser_session_id = nq_browser_session_id q, bw_status = ''queued'', bw_attempt = 1,
      bw_max_attempts = bn_max_retries n + 1, bw_timeout_ms = bn_timeout_ms n,
      bw_idempotency_key = nq_idempotency_key q, bw_runner_version = None, bw_blocking_failures = 0,
      bw_critical_accessibility = 0, bw_warning_count = 0, bw_visual_differences = 0,
      bw_console_errors = 0, bw_summary = JObj [], bw_review = JObj [], bw_failure = None,
      bw_created_at = now, bw_started_at = None, bw_completed_at = None, bw_updated_at = now\<rparr>"

definition queue_run_tx ::
    "externals \<Rightarrow> millis \<Rightarrow> new_bv_run \<Rightarrow> string \<Rightarrow> bv_db \<Rightarrow> (sql_error, bool \<times> bv_db) outcome" where
  "queue_run_tx x now q actor d =
     (case find_bv_definition (nq_definition_id q) d of
        None \<Rightarrow> Inl (validation_error ''browser verification definition does not exist'')
      | Some n \<Rightarrow>
          if bn_status n \<noteq> ''active''
          then Inl (validation_error ''browser verification definition is not active'')
          else case find_task (nq_task_id q) (bv_tasks d) of
            None \<Rightarrow> Inl (validation_error ''browser verification task does not exist'')
          | Some t \<Rightarrow>
              (case tk_project_id t of
                 None \<Rightarrow> Inl (validation_error ''browser verification task has no project'')
               | Some project \<Rightarrow>
                   if project \<noteq> bn_project_id n
                     \<or> (case bn_task_id n of None \<Rightarrow> False | Some i \<Rightarrow> i \<noteq> nq_task_id q)
                   then Inl (validation_error ''browser verification task is outside the definition scope'')
                   else case validate_run_owners d (bn_project_id n) (nq_task_id q)
                       (bn_dev_server_config_id n) (nq_dev_server_instance_id q) (nq_browser_session_id q) of
                     Inl e \<Rightarrow> Inl e
                   | Inr u \<Rightarrow>
                       if \<exists>r \<in> set (bv_runs d). bw_id r = nq_id q
                       then Inl (SqlConstraint ''browser_verification_runs.id'')
                       else if \<exists>r \<in> set (bv_runs d). same_request q r
                       then Inl (SqlConstraint ''idx_browser_verification_run_idempotency'')
                       else Inr (bv_reopen_if (bn_required n) now (nq_task_id q)
                         (append_bv_event now (nq_id q) ''queued'' ''info'' actor
                           (JObj [(''definitionId'', json_uuid x (nq_definition_id q)),
                                  (''attempt'', JNum (PosInt 1)),
                                  (''maxAttempts'', json_int (bn_max_retries n + 1))])
                           (d\<lparr>bv_runs := bv_runs d @ [queued_run now q n]\<rparr>)))))"

definition queue_run ::
    "externals \<Rightarrow> millis \<Rightarrow> new_bv_run \<Rightarrow> string \<Rightarrow> bv_db
      \<Rightarrow> (storage_error, bv_details verification_mutation) outcome \<times> bv_db" where
  "queue_run x now q actor d =
     checked (validate_bv_actor actor) d
       (if idempotency_key_invalid (nq_idempotency_key q)
        then (Inl (StorageValidation ''browser verification idempotency key is invalid''), d)
        else let answer = (\<lambda>i reopened message d'.
            (case bv_get i d' of
               Inl e \<Rightarrow> Inl e
             | Inr None \<Rightarrow> Inl (StorageValidation message)
             | Inr (Some v) \<Rightarrow> Inr \<lparr>vm_task_id = nq_task_id q, vm_reopened = reopened, vm_value = v\<rparr>))
          in case find (same_request q) (bv_runs d) of
               Some r \<Rightarrow> (answer (bw_id r) False ''idempotent browser verification run disappeared'' d, d)
             | None \<Rightarrow>
                 (case validated (queue_run_tx x now q actor) d of
                    (Inl e, d') \<Rightarrow> (Inl e, d')
                  | (Inr reopened, d') \<Rightarrow>
                      (answer (nq_id q) reopened ''created browser verification run disappeared'' d', d')))"

definition start_bv_tx :: "millis \<Rightarrow> uuid \<Rightarrow> string \<Rightarrow> bv_db \<Rightarrow> (sql_error, bool \<times> bv_db) outcome" where
  "start_bv_tx now i actor d =
     (case find_bv_run i d of
        None \<Rightarrow> Inr (False, d)
      | Some r \<Rightarrow>
          if bw_status r \<noteq> ''queued''
          then Inl (validation_error ''only queued browser verification runs can start'')
          else Inr (True, append_bv_event now i ''started'' ''info'' actor (JObj [])
                 (update_bv_run i (\<lambda>r. r\<lparr>bw_status := ''running'', bw_started_at := Some now,
                    bw_updated_at := now\<rparr>) d)))"

definition start_bv ::
    "millis \<Rightarrow> uuid \<Rightarrow> string \<Rightarrow> bv_db \<Rightarrow> (storage_error, bv_details option) outcome \<times> bv_db" where
  "start_bv now i actor d =
     checked (validate_bv_actor actor) d
       (case validated (start_bv_tx now i actor) d of
          (Inl e, d') \<Rightarrow> (Inl e, d')
        | (Inr changed, d') \<Rightarrow> (if changed then bv_get i d' else Inr None, d'))"

text \<open>The common end of \<open>cancel\<close> and \<open>fail\<close>: the run is over, its task goes back to review.\<close>

definition stop_bv_tx ::
    "millis \<Rightarrow> uuid \<Rightarrow> string \<Rightarrow> (bv_run \<Rightarrow> bv_run) \<Rightarrow> string \<Rightarrow> string \<Rightarrow> string \<Rightarrow> json \<Rightarrow> bv_db
      \<Rightarrow> (sql_error, (uuid \<times> bool) option \<times> bv_db) outcome" where
  "stop_bv_tx now i refusal f kind severity actor payload d =
     (case find_bv_run i d of
        None \<Rightarrow> Inr (None, d)
      | Some r \<Rightarrow>
          if bw_status r \<notin> {''queued'', ''running''} then Inl (validation_error refusal)
          else let (reopened, d') = bv_reopen_if True now (bw_task_id r)
                     (append_bv_event now i kind severity actor payload (update_bv_run i f d))
               in Inr (Some (bw_task_id r, reopened), d'))"

definition cancel_bv ::
    "millis \<Rightarrow> uuid \<Rightarrow> string \<Rightarrow> bv_db
      \<Rightarrow> (storage_error, bv_details verification_mutation option) outcome \<times> bv_db" where
  "cancel_bv now i actor d =
     checked (validate_bv_actor actor) d (bv_mutated i (validated (stop_bv_tx now i
       ''only queued or running browser verification runs can be cancelled''
       (\<lambda>r. r\<lparr>bw_status := ''cancelled'', bw_completed_at := Some now, bw_updated_at := now\<rparr>)
       ''cancelled'' ''warning'' actor (JObj [])) d))"

definition fail_bv ::
    "millis \<Rightarrow> uuid \<Rightarrow> string \<Rightarrow> string \<Rightarrow> bv_db
      \<Rightarrow> (storage_error, bv_details verification_mutation option) outcome \<times> bv_db" where
  "fail_bv now i failure actor d =
     checked (validate_bv_actor actor) d
       (if trim failure = [] \<or> 4096 < length failure
        then (Inl (StorageValidation ''browser verification failure is invalid''), d)
        else bv_mutated i (validated (stop_bv_tx now i ''browser verification run is already terminal''
          (\<lambda>r. r\<lparr>bw_status := ''error'', bw_failure := Some failure, bw_completed_at := Some now,
                bw_updated_at := now\<rparr>)
          ''error'' ''error'' actor (JObj [(''failure'', JStr failure)])) d))"

subsection \<open>Completing\<close>

definition assertion_valid :: "new_assertion_result \<Rightarrow> bool" where
  "assertion_valid a \<longleftrightarrow> trim (nx_name a) \<noteq> [] \<and> length (nx_name a) \<le> 512
     \<and> nx_status a \<in> {''passed'', ''failed'', ''error'', ''approved''}"

definition timeline_event_valid :: "new_bv_event \<Rightarrow> bool" where
  "timeline_event_valid e \<longleftrightarrow> trim (nl_kind e) \<noteq> [] \<and> length (nl_kind e) \<le> 128
     \<and> nl_severity e \<in> {''info'', ''warning'', ''error'', ''critical''}"

definition validate_bv_artifact :: "externals \<Rightarrow> new_bv_artifact \<Rightarrow> (storage_error, unit) outcome" where
  "validate_bv_artifact x a =
     and_then (validate_bv_hash (nk_hash a))
    (and_then (require (trim (nk_kind a) \<noteq> [] \<and> length (nk_kind a) \<le> 64 \<and> trim (nk_mime_type a) \<noteq> []
         \<and> length (nk_mime_type a) \<le> 128 \<and> 0 \<le> nk_size_bytes a) ''browser verification artifact is invalid'')
       (encode_json x (nk_metadata a) ''browser verification artifact metadata''))"

definition optional_hash :: "string option \<Rightarrow> (storage_error, unit) outcome" where
  "optional_hash h = (case h of None \<Rightarrow> Inr () | Some v \<Rightarrow> validate_bv_hash v)"

definition validate_comparison :: "new_comparison \<Rightarrow> (storage_error, unit) outcome" where
  "validate_comparison c =
     and_then (validate_bv_hash (ny_current_hash c))
    (and_then (optional_hash (ny_difference_hash c))
       (require (ny_status c \<in> {''matched'', ''different'', ''missing_baseline'', ''approved''}
           \<and> in_unit_interval (ny_pixel_difference_ratio c)
           \<and> (case ny_perceptual_difference_ratio c of None \<Rightarrow> True | Some r \<Rightarrow> in_unit_interval r)
           \<and> in_unit_interval (ny_threshold_ratio c))
         ''browser visual comparison ratios must be between 0 and 1''))"

definition console_valid :: "new_console_evidence \<Rightarrow> bool" where
  "console_valid e \<longleftrightarrow> length (ng_message e) \<le> 65536
     \<and> ng_level e \<in> {''debug'', ''info'', ''warning'', ''error'', ''critical''}"

definition network_valid :: "new_network_evidence \<Rightarrow> bool" where
  "network_valid e \<longleftrightarrow> nu_method e \<noteq> [] \<and> length (nu_method e) \<le> 32 \<and> valid_url (nu_url e)
     \<and> (case nu_duration_ms e of None \<Rightarrow> True | Some t \<Rightarrow> 0 \<le> t)"

definition validate_accessibility :: "externals \<Rightarrow> new_accessibility \<Rightarrow> (storage_error, unit) outcome" where
  "validate_accessibility x f =
     and_then (require (trim (nh_rule_id f) \<noteq> [] \<and> trim (nh_message f) \<noteq> []
         \<and> nh_severity f \<in> {''warning'', ''critical''}) ''browser accessibility finding is invalid'')
    (and_then (optional_hash (nh_artifact_hash f))
       (encode_json x (nh_metadata f) ''browser accessibility metadata''))"

definition validate_outcome :: "externals \<Rightarrow> bv_outcome \<Rightarrow> string \<Rightarrow> (storage_error, unit) outcome" where
  "validate_outcome x v actor =
     and_then (validate_bv_actor actor)
    (and_then (require (trim (ou_runner_version v) \<noteq> [] \<and> length (ou_runner_version v) \<le> 128
         \<and> length (ou_timeline v) \<le> MAX_COLLECTION \<and> length (ou_assertions v) \<le> MAX_COLLECTION
         \<and> length (ou_artifacts v) \<le> 64 \<and> length (ou_comparisons v) \<le> 128
         \<and> length (ou_console v) \<le> MAX_COLLECTION \<and> length (ou_network v) \<le> MAX_COLLECTION
         \<and> length (ou_accessibility v) \<le> MAX_COLLECTION)
       ''browser verification result exceeds configured limits'')
    (and_then (encode_json x (ou_summary v) ''browser verification summary'')
    (and_then (check_all (\<lambda>a. require (assertion_valid a) ''browser verification assertion is invalid'')
       (ou_assertions v))
    (and_then (check_all (\<lambda>e. and_then
         (require (timeline_event_valid e) ''browser verification timeline event is invalid'')
         (encode_json x (nl_payload e) ''browser verification timeline payload'')) (ou_timeline v))
    (and_then (check_all (validate_bv_artifact x) (ou_artifacts v))
    (and_then (check_all validate_comparison (ou_comparisons v))
    (and_then (check_all (\<lambda>e. require (console_valid e) ''browser console evidence is invalid'')
       (ou_console v))
    (and_then (check_all (\<lambda>e. require (network_valid e) ''browser network evidence is invalid'')
       (ou_network v))
       (check_all (validate_accessibility x) (ou_accessibility v))))))))))"

text \<open>What the outcome amounts to.\<close>

record bv_counts =
  co_blocking :: nat
  co_critical :: nat
  co_warnings :: nat
  co_visual :: nat
  co_console_errors :: nat

definition count :: "('a \<Rightarrow> bool) \<Rightarrow> 'a list \<Rightarrow> nat" where
  "count p xs = length (filter p xs)"

definition outcome_counts :: "bool \<Rightarrow> bv_outcome \<Rightarrow> bv_counts" where
  "outcome_counts fail_on_accessibility v =
     \<lparr>co_blocking = count (\<lambda>a. nx_required a \<and> nx_status a \<notin> {''passed'', ''approved''}) (ou_assertions v),
      co_critical = (if fail_on_accessibility
        then count (\<lambda>f. nh_severity f = ''critical'') (ou_accessibility v) else 0),
      co_warnings = count (\<lambda>f. nh_severity f = ''warning''
          \<or> (\<not> fail_on_accessibility \<and> nh_severity f = ''critical'')) (ou_accessibility v)
        + count (\<lambda>e. ng_level e = ''warning'') (ou_console v),
      co_visual = count (\<lambda>c. ny_status c \<in> {''different'', ''missing_baseline''}) (ou_comparisons v),
      co_console_errors = count (\<lambda>e. ng_level e \<in> {''error'', ''critical''}) (ou_console v)\<rparr>"

definition final_status :: "bv_counts \<Rightarrow> string" where
  "final_status c =
     (if 0 < co_blocking c \<or> 0 < co_critical c then ''failed''
      else if 0 < co_visual c \<or> 0 < co_warnings c then ''needs_review'' else ''passed'')"

definition artifact_of :: "millis \<Rightarrow> uuid \<Rightarrow> new_bv_artifact \<Rightarrow> bv_artifact" where
  "artifact_of now i a =
     \<lparr>bk_id = nk_id a, bk_run_id = i, bk_kind = nk_kind a, bk_hash = nk_hash a,
      bk_mime_type = nk_mime_type a, bk_size_bytes = nk_size_bytes a, bk_metadata = nk_metadata a,
      bk_created_at = now\<rparr>"

definition comparison_of :: "millis \<Rightarrow> uuid \<Rightarrow> new_comparison \<Rightarrow> bv_comparison" where
  "comparison_of now i c =
     \<lparr>by_id = ny_id c, by_run_id = i, by_baseline_id = ny_baseline_id c,
      by_variant_key = ny_variant_key c, by_current_hash = ny_current_hash c,
      by_difference_hash = ny_difference_hash c,
      by_pixel_difference_ratio = ny_pixel_difference_ratio c,
      by_perceptual_difference_ratio = ny_perceptual_difference_ratio c,
      by_threshold_ratio = ny_threshold_ratio c, by_status = ny_status c,
      by_ignore_regions = ny_ignore_regions c, by_created_at = now\<rparr>"

definition assertion_event :: "new_assertion_result \<Rightarrow> new_bv_event" where
  "assertion_event a =
     \<lparr>nl_kind = ''assertion'',
      nl_severity = (if nx_required a \<and> nx_status a \<noteq> ''passed'' then ''error'' else ''info''),
      nl_payload = JObj [(''name'', JStr (nx_name a)), (''required'', JBool (nx_required a)),
        (''status'', JStr (nx_status a)), (''message'', json_opt JStr (nx_message a))]\<rparr>"

fun append_bv_events :: "millis \<Rightarrow> uuid \<Rightarrow> string \<Rightarrow> new_bv_event list \<Rightarrow> bv_db \<Rightarrow> bv_db" where
  "append_bv_events now i actor [] d = d"
| "append_bv_events now i actor (e # es) d =
     append_bv_events now i actor es
       (append_bv_event now i (nl_kind e) (nl_severity e) actor (nl_payload e) d)"

text \<open>\<open>enumerate\<close>, with the row ids that follow the greatest one.\<close>

definition console_rows :: "millis \<Rightarrow> uuid \<Rightarrow> int \<Rightarrow> new_console_evidence list \<Rightarrow> bv_console_evidence list" where
  "console_rows now i highest es =
     map (\<lambda>(k, e). \<lparr>bg_id = highest + int k + 1, bg_run_id = i, bg_sequence = int k + 1, bg_entry = e,
        bg_created_at = now\<rparr>) (List.enumerate 0 es)"

definition network_rows :: "millis \<Rightarrow> uuid \<Rightarrow> int \<Rightarrow> new_network_evidence list \<Rightarrow> bv_network_evidence list" where
  "network_rows now i highest es =
     map (\<lambda>(k, e). \<lparr>bu_id = highest + int k + 1, bu_run_id = i, bu_sequence = int k + 1, bu_entry = e,
        bu_created_at = now\<rparr>) (List.enumerate 0 es)"

text \<open>The insertions of the evidence, in the order of the code.\<close>

definition insert_evidence ::
    "millis \<Rightarrow> uuid \<Rightarrow> bv_outcome \<Rightarrow> bv_db \<Rightarrow> (sql_error, bv_db) outcome" where
  "insert_evidence now i v d =
     (case insert_rows ''browser_verification_artifacts.id'' bk_id
         (map (artifact_of now i) (ou_artifacts v)) (bv_artifacts d) of
        Inl e \<Rightarrow> Inl e
      | Inr artifacts \<Rightarrow>
     (if \<exists>c \<in> set (ou_comparisons v). ny_baseline_id c \<noteq> None
          \<and> ny_baseline_id c \<notin> Some ` bb_id ` set (bv_baselines d)
      then Inl (SqlConstraint ''FOREIGN KEY'')
      else case insert_rows ''browser_visual_comparisons.id'' by_id
         (map (comparison_of now i) (ou_comparisons v)) (bv_comparisons d) of
        Inl e \<Rightarrow> Inl e
      | Inr comparisons \<Rightarrow>
     (case insert_rows ''browser_console_evidence.sequence'' (\<lambda>r. (bg_run_id r, bg_sequence r))
         (console_rows now i (foldl max 0 (map bg_id (bv_console d))) (ou_console v)) (bv_console d) of
        Inl e \<Rightarrow> Inl e
      | Inr consoles \<Rightarrow>
     (case insert_rows ''browser_network_evidence.sequence'' (\<lambda>r. (bu_run_id r, bu_sequence r))
         (network_rows now i (foldl max 0 (map bu_id (bv_network d))) (ou_network v)) (bv_network d) of
        Inl e \<Rightarrow> Inl e
      | Inr networks \<Rightarrow>
     (case insert_rows ''browser_accessibility_findings.id'' (\<lambda>r. nh_id (ba_finding r))
         (map (\<lambda>f. \<lparr>ba_run_id = i, ba_finding = f, ba_status = ''open'', ba_created_at = now\<rparr>)
           (ou_accessibility v)) (bv_accessibility d) of
        Inl e \<Rightarrow> Inl e
      | Inr findings \<Rightarrow>
          Inr (d\<lparr>bv_artifacts := artifacts, bv_comparisons := comparisons, bv_console := consoles,
            bv_network := networks, bv_accessibility := findings\<rparr>))))))"

definition completed_run :: "millis \<Rightarrow> bv_outcome \<Rightarrow> bv_counts \<Rightarrow> bv_run \<Rightarrow> bv_run" where
  "completed_run now v c r =
     r\<lparr>bw_status := final_status c, bw_runner_version := Some (ou_runner_version v),
       bw_blocking_failures := co_blocking c, bw_critical_accessibility := co_critical c,
       bw_warning_count := co_warnings c, bw_visual_differences := co_visual c,
       bw_console_errors := co_console_errors c, bw_summary := ou_summary v,
       bw_completed_at := Some now, bw_updated_at := now\<rparr>"

definition complete_bv_tx ::
    "millis \<Rightarrow> uuid \<Rightarrow> bv_outcome \<Rightarrow> string \<Rightarrow> bv_db
      \<Rightarrow> (sql_error, (uuid \<times> bool) option \<times> bv_db) outcome" where
  "complete_bv_tx now i v actor d =
     (case Option.bind (find_bv_run i d)
         (\<lambda>r. map_option (\<lambda>n. (r, n)) (find_bv_definition (bw_definition_id r) d)) of
        None \<Rightarrow> Inr (None, d)
      | Some (r, n) \<Rightarrow>
          if bw_status r \<noteq> ''running''
          then Inl (validation_error ''browser verification result requires a running run'')
          else
            let c = outcome_counts (bn_fail_on_accessibility n) v;
                status = final_status c
            in case insert_evidence now i v (append_bv_events now i actor
                 (ou_timeline v @ map assertion_event (ou_assertions v)) d) of
                 Inl e \<Rightarrow> Inl e
               | Inr d1 \<Rightarrow>
                   let (reopened, d2) = bv_reopen_if (status \<noteq> ''passed'') now (bw_task_id r)
                     (append_bv_event now i ''completed''
                       (if status = ''failed'' then ''error''
                        else if status = ''needs_review'' then ''warning'' else ''info'') actor
                       (JObj [(''status'', JStr status), (''blockingFailures'', json_nat (co_blocking c)),
                              (''criticalAccessibility'', json_nat (co_critical c)),
                              (''warnings'', json_nat (co_warnings c)),
                              (''visualDifferences'', json_nat (co_visual c)),
                              (''consoleErrors'', json_nat (co_console_errors c))])
                       (update_bv_run i (completed_run now v c) d1))
                   in Inr (Some (bw_task_id r, reopened), d2))"

definition complete_bv ::
    "externals \<Rightarrow> millis \<Rightarrow> uuid \<Rightarrow> bv_outcome \<Rightarrow> string \<Rightarrow> bv_db
      \<Rightarrow> (storage_error, bv_details verification_mutation option) outcome \<times> bv_db" where
  "complete_bv x now i v actor d =
     checked (validate_outcome x v actor) d (bv_mutated i (validated (complete_bv_tx now i v actor) d))"

subsection \<open>Review and baselines\<close>

definition review_bv_tx ::
    "millis \<Rightarrow> uuid \<Rightarrow> string \<Rightarrow> string \<Rightarrow> string \<Rightarrow> bv_db
      \<Rightarrow> (sql_error, (uuid \<times> bool) option \<times> bv_db) outcome" where
  "review_bv_tx now i decision reason actor d =
     (case find_bv_run i d of
        None \<Rightarrow> Inr (None, d)
      | Some r \<Rightarrow>
          if bw_status r \<notin> {''needs_review'', ''failed''}
          then Inl (validation_error ''browser verification run is not reviewable'')
          else if decision = ''approve'' \<and> (0 < bw_blocking_failures r \<or> 0 < bw_critical_accessibility r)
          then Inl (validation_error
            ''blocking assertions and critical accessibility findings cannot be approved away'')
          else
            let target = (if decision = ''approve'' then ''approved'' else ''failed'');
                review = JObj [(''decision'', JStr decision), (''reason'', JStr reason),
                  (''actor'', JStr actor), (''reviewedAt'', json_int now)];
                d1 = update_bv_run i (\<lambda>r. r\<lparr>bw_status := target, bw_review := review,
                  bw_updated_at := now\<rparr>) d;
                (reopened, d2) = bv_reopen_if (target \<noteq> ''approved'') now (bw_task_id r)
                  (append_bv_event now i ''reviewed'' (if decision = ''approve'' then ''info'' else ''warning'')
                    actor (JObj [(''decision'', JStr decision), (''reason'', JStr reason)]) d1)
            in Inr (Some (bw_task_id r, reopened), d2))"

definition review_bv ::
    "millis \<Rightarrow> uuid \<Rightarrow> string \<Rightarrow> string \<Rightarrow> string \<Rightarrow> bv_db
      \<Rightarrow> (storage_error, bv_details verification_mutation option) outcome \<times> bv_db" where
  "review_bv now i decision reason actor d =
     checked (validate_bv_actor actor) d
       (if decision \<notin> {''approve'', ''reject''} \<or> trim reason = [] \<or> 4096 < length reason
        then (Inl (StorageValidation ''browser verification review is invalid''), d)
        else bv_mutated i (validated (review_bv_tx now i decision reason actor) d))"

definition approve_baseline_tx ::
    "externals \<Rightarrow> millis \<Rightarrow> uuid \<Rightarrow> uuid \<Rightarrow> string \<Rightarrow> bv_db \<Rightarrow> (sql_error, bool \<times> bv_db) outcome" where
  "approve_baseline_tx x now fresh i actor d =
     (case comparison_run i d of
        None \<Rightarrow> Inr (False, d)
      | Some (c, r) \<Rightarrow>
          let variant = by_variant_key c;
              baselines = update_rows (\<lambda>b. bb_definition_id b = bw_definition_id r
                  \<and> bb_variant_key b = variant \<and> bb_status b = ''active'')
                (\<lambda>b. b\<lparr>bb_status := ''superseded''\<rparr>) (bv_baselines d);
              row = \<lparr>bb_id = fresh, bb_definition_id = bw_definition_id r, bb_variant_key = variant,
                bb_artifact_hash = by_current_hash c, bb_source_run_id = Some (bw_id r),
                bb_status = ''active'', bb_approved_by = actor, bb_approved_at = now,
                bb_metadata = JObj [(''keying'', JStr ''single_compared_screenshot_per_variant'')]\<rparr>
          in if \<exists>b \<in> set (bv_baselines d). bb_id b = fresh
             then Inl (SqlConstraint ''browser_verification_baselines.id'')
             else Inr (True, append_bv_event now (bw_id r) ''baseline_approved'' ''info'' actor
               (JObj [(''baselineId'', json_uuid x fresh), (''comparisonId'', json_uuid x i),
                      (''variantKey'', JStr variant), (''artifactHash'', JStr (by_current_hash c))])
               (d\<lparr>bv_baselines := baselines @ [row],
                  bv_comparisons := update_rows (\<lambda>c. by_id c = i)
                    (\<lambda>c. c\<lparr>by_baseline_id := Some fresh, by_status := ''approved''\<rparr>) (bv_comparisons d)\<rparr>)))"

definition approve_baseline ::
    "externals \<Rightarrow> millis \<Rightarrow> uuid \<Rightarrow> uuid \<Rightarrow> string \<Rightarrow> bv_db
      \<Rightarrow> (storage_error, bv_baseline option) outcome \<times> bv_db" where
  "approve_baseline x now fresh i actor d =
     checked (validate_bv_actor actor) d
       (let (r, d') = validated (approve_baseline_tx x now fresh i actor) d
        in (map_outcome (\<lambda>changed. if changed then find (\<lambda>b. bb_id b = fresh) (bv_baselines d') else None) r, d'))"

subsection \<open>Restart and deletion of tasks\<close>

text \<open>The statements of \<open>recover_interrupted\<close> on these tables, and the number of runs they stop.\<close>

definition bv_unfinished :: "bv_run \<Rightarrow> bool" where
  "bv_unfinished r \<longleftrightarrow> bw_status r \<in> {''queued'', ''running''}"

definition recover_bv :: "millis \<Rightarrow> bv_db \<Rightarrow> nat \<times> bv_db" where
  "recover_bv now d =
     (let unfinished = filter bv_unfinished (bv_runs d);
          reason = JObj [(''reason'', JStr ''process_restart'')];
          d1 = fold (\<lambda>r. append_bv_event now (bw_id r) ''interrupted'' ''warning'' ''system'' reason) unfinished d
      in (length unfinished,
          d1\<lparr>bv_runs := update_rows bv_unfinished
               (\<lambda>r. r\<lparr>bw_status := ''interrupted'', bw_completed_at := Some now, bw_updated_at := now,
                 bw_failure := Some ''core process restarted before browser verification completed'',
                 bw_summary := reason\<rparr>) (bv_runs d1)\<rparr>))"

text \<open>
  \<open>DELETE FROM tasks\<close>: the definitions of the task go with it, with the task's runs and those
  of these definitions, and everything that was recorded for them. A baseline or comparison of what
  stays loses its reference to what goes.
\<close>

definition delete_task_with_verifications :: "uuid \<Rightarrow> bv_db \<Rightarrow> (storage_error, bool) outcome \<times> bv_db" where
  "delete_task_with_verifications i d =
     (case delete_task_with_browsers i (bv_browsers d) of
        (Inr True, browsers) \<Rightarrow>
          (let defs = map bn_id (filter (\<lambda>n. bn_task_id n = Some i) (bv_definitions d));
               runs = map bw_id (filter (\<lambda>r. bw_task_id r = i \<or> bw_definition_id r \<in> set defs) (bv_runs d));
               baselines = map bb_id (filter (\<lambda>b. bb_definition_id b \<in> set defs) (bv_baselines d))
           in (Inr True, d\<lparr>bv_browsers := browsers,
                bv_definitions := delete_rows (\<lambda>n. bn_id n \<in> set defs) (bv_definitions d),
                bv_variants := delete_rows (\<lambda>v. bz_definition_id v \<in> set defs) (bv_variants d),
                bv_runs := delete_rows (\<lambda>r. bw_id r \<in> set runs) (bv_runs d),
                bv_events := delete_rows (\<lambda>e. bq_run_id e \<in> set runs) (bv_events d),
                bv_artifacts := delete_rows (\<lambda>r. bk_run_id r \<in> set runs) (bv_artifacts d),
                bv_comparisons := update_rows
                  (\<lambda>c. case by_baseline_id c of None \<Rightarrow> False | Some b \<Rightarrow> b \<in> set baselines)
                  (\<lambda>c. c\<lparr>by_baseline_id := None\<rparr>)
                  (delete_rows (\<lambda>c. by_run_id c \<in> set runs) (bv_comparisons d)),
                bv_console := delete_rows (\<lambda>r. bg_run_id r \<in> set runs) (bv_console d),
                bv_network := delete_rows (\<lambda>r. bu_run_id r \<in> set runs) (bv_network d),
                bv_accessibility := delete_rows (\<lambda>r. ba_run_id r \<in> set runs) (bv_accessibility d),
                bv_baselines := update_rows
                  (\<lambda>b. case bb_source_run_id b of None \<Rightarrow> False | Some r \<Rightarrow> r \<in> set runs)
                  (\<lambda>b. b\<lparr>bb_source_run_id := None\<rparr>)
                  (delete_rows (\<lambda>b. bb_id b \<in> set baselines) (bv_baselines d))\<rparr>))
      | (r, browsers) \<Rightarrow> (r, d))"

end
