(* ===== verification/BrowserVerificationFacts.thy ===== *)
theory BrowserVerificationFacts
  imports BrowserVerification BrowserFacts VerificationFacts
begin

text \<open>
  What holds of browser verifications: a run that passed or was approved has no blocking failure,
  a completed task stays browser-verified, the approved baselines are unique; and where the component
  departs from its sibling for verification runs: it reopens tasks for verifications that are not
  required, and a run queued within one millisecond of the last need not count as the newest.
\<close>

subsection \<open>The operations, as steps\<close>

datatype bv_op =
    VSave millis new_bv_definition string
  | VQueue millis new_bv_run string
  | VStart millis uuid string
  | VCancel millis uuid string
  | VFail millis uuid string string
  | VComplete millis uuid bv_outcome string
  | VReview millis uuid string string string
  | VBaseline millis uuid uuid string
  | VRestart millis
  | VStatus millis uuid string
  | VDelete uuid

text \<open>\<open>VStatus\<close> is the planning call that moves a task, with the gate over these tables.\<close>

definition bv_set_status :: "millis \<Rightarrow> uuid \<Rightarrow> string \<Rightarrow> bv_db \<Rightarrow> (storage_error, bool) outcome \<times> bv_db" where
  "bv_set_status now i status d =
     (let (r, t) = set_task_status now i status (gate_view d)
      in (r, with_bv_tasks ((bv_tasks d)\<lparr>td_tasks := td_tasks t\<rparr>) d))"

fun bv_step :: "externals \<Rightarrow> bv_op \<Rightarrow> bv_db \<Rightarrow> bv_db" where
  "bv_step x (VSave now n a) d = snd (save_definition x now n a d)"
| "bv_step x (VQueue now q a) d = snd (queue_run x now q a d)"
| "bv_step x (VStart now i a) d = snd (start_bv now i a d)"
| "bv_step x (VCancel now i a) d = snd (cancel_bv now i a d)"
| "bv_step x (VFail now i f a) d = snd (fail_bv now i f a d)"
| "bv_step x (VComplete now i v a) d = snd (complete_bv x now i v a d)"
| "bv_step x (VReview now i c r a) d = snd (review_bv now i c r a d)"
| "bv_step x (VBaseline now b i a) d = snd (approve_baseline x now b i a d)"
| "bv_step x (VRestart now) d = snd (recover_bv now d)"
| "bv_step x (VStatus now i s) d = snd (bv_set_status now i s d)"
| "bv_step x (VDelete i) d = snd (delete_task_with_verifications i d)"


definition no_verifications :: "browser_db \<Rightarrow> bv_db" where
  "no_verifications b = \<lparr>bv_browsers = b, bv_definitions = [], bv_variants = [], bv_runs = [], bv_events = [],
     bv_artifacts = [], bv_comparisons = [], bv_console = [], bv_network = [], bv_accessibility = [],
     bv_baselines = []\<rparr>"

subsection \<open>What an operation does to the verdicts\<close>







definition reopened :: "millis \<Rightarrow> uuid \<Rightarrow> task_row list \<Rightarrow> task_row list" where
  "reopened now i ts = update_rows (\<lambda>t. tk_id t = i \<and> is_completed (tk_status t))
     (\<lambda>t. t\<lparr>tk_status := ''review'', tk_completed_at := None, tk_updated_at := now\<rparr>) ts"

definition reopened_if :: "bool \<Rightarrow> millis \<Rightarrow> uuid \<Rightarrow> task_row list \<Rightarrow> task_row list" where
  "reopened_if c now i ts = (if c then reopened now i ts else ts)"






subsection \<open>The newest run\<close>










subsection \<open>Settled verdicts stay settled\<close>





lemma reopened_completed:
  assumes "t \<in> set (reopened_if c now i ts)" "is_completed (tk_status t)"
  shows "t \<in> set ts \<and> (c \<longrightarrow> tk_id t \<noteq> i)"
  using assms by (auto simp: reopened_if_def reopened_def is_completed_def elim!: in_update_rows split: if_splits)




subsection \<open>Every operation makes such a step\<close>

lemma with_bv_tasks_simps [simp]:
  "bv_tasks (with_bv_tasks t d) = t" "bv_definitions (with_bv_tasks t d) = bv_definitions d"
  "bv_runs (with_bv_tasks t d) = bv_runs d" "bv_baselines (with_bv_tasks t d) = bv_baselines d"
  by (simp_all add: with_bv_tasks_def bv_tasks_def)

lemma bv_tasks_update [simp]:
  "bv_tasks (d\<lparr>bv_runs := rs\<rparr>) = bv_tasks d" "bv_tasks (d\<lparr>bv_baselines := bs\<rparr>) = bv_tasks d"
  "bv_tasks (d\<lparr>bv_comparisons := cs\<rparr>) = bv_tasks d" "bv_tasks (d\<lparr>bv_definitions := ds\<rparr>) = bv_tasks d"
  "bv_tasks (d\<lparr>bv_variants := vs\<rparr>) = bv_tasks d"
  by (simp_all add: bv_tasks_def)

lemma append_bv_event_simps [simp]:
  "bv_tasks (append_bv_event now i k s a p d) = bv_tasks d"
  "bv_definitions (append_bv_event now i k s a p d) = bv_definitions d"
  "bv_runs (append_bv_event now i k s a p d) = bv_runs d"
  "bv_baselines (append_bv_event now i k s a p d) = bv_baselines d"
  by (simp_all add: append_bv_event_def bv_tasks_def)

lemma append_bv_events_simps [simp]:
  "bv_tasks (append_bv_events now i a es d) = bv_tasks d"
  "bv_definitions (append_bv_events now i a es d) = bv_definitions d"
  "bv_runs (append_bv_events now i a es d) = bv_runs d"
  "bv_baselines (append_bv_events now i a es d) = bv_baselines d"
  by (induction es arbitrary: d) simp_all

lemma update_bv_run_simps [simp]:
  "bv_tasks (update_bv_run i f d) = bv_tasks d" "bv_definitions (update_bv_run i f d) = bv_definitions d"
  "bv_runs (update_bv_run i f d) = update_rows (\<lambda>r. bw_id r = i) f (bv_runs d)"
  "bv_baselines (update_bv_run i f d) = bv_baselines d"
  by (simp_all add: update_bv_run_def bv_tasks_def)

lemma reopen_if_tasks:
  "reopen_if c now i d = (c \<and> 0 < count_rows (\<lambda>t. tk_id t = i \<and> is_completed (tk_status t)) (td_tasks d),
     d\<lparr>td_tasks := reopened_if c now i (td_tasks d)\<rparr>)"
  by (simp add: reopen_if_def reopen_terminal_def reopened_if_def reopened_def Let_def)

lemma bv_reopen_if_simps [simp]:
  "fst (bv_reopen_if c now i d) \<longleftrightarrow> c \<and> 0 < count_rows (\<lambda>t. tk_id t = i \<and> is_completed (tk_status t))
      (td_tasks (bv_tasks d))"
  "td_tasks (bv_tasks (snd (bv_reopen_if c now i d))) = reopened_if c now i (td_tasks (bv_tasks d))"
  "bv_definitions (snd (bv_reopen_if c now i d)) = bv_definitions d"
  "bv_runs (snd (bv_reopen_if c now i d)) = bv_runs d"
  "bv_baselines (snd (bv_reopen_if c now i d)) = bv_baselines d"
  by (simp_all add: bv_reopen_if_def reopen_if_tasks)

lemma insert_evidence_simps:
  assumes "insert_evidence now i v d = Inr d'"
  shows "bv_tasks d' = bv_tasks d" "bv_definitions d' = bv_definitions d" "bv_runs d' = bv_runs d"
    "bv_baselines d' = bv_baselines d"
  using assms by (auto simp: insert_evidence_def bv_tasks_def split: sum.splits if_splits)

lemma snd_bv_mutated [simp]: "snd (bv_mutated i r) = snd r"
  by (cases r rule: prod.exhaust, rename_tac a b, case_tac a) (auto simp: bv_mutated_def split: option.splits)
















lemma fold_bv_events [simp]:
  "bv_tasks (fold (\<lambda>r. append_bv_event now (f r) k s a p) rs d) = bv_tasks d"
  "bv_definitions (fold (\<lambda>r. append_bv_event now (f r) k s a p) rs d) = bv_definitions d"
  "bv_runs (fold (\<lambda>r. append_bv_event now (f r) k s a p) rs d) = bv_runs d"
  "bv_baselines (fold (\<lambda>r. append_bv_event now (f r) k s a p) rs d) = bv_baselines d"
  by (induction rs arbitrary: d) simp_all



subsection \<open>The completion gate\<close>



lemma td_tasks_gate_view [simp]: "td_tasks (gate_view d) = td_tasks (bv_tasks d)"
  by (simp add: gate_view_def)







lemma deleted_verification_rows:
  assumes b: "delete_task_with_browsers i (bv_browsers d) = (Inr True, b)"
  defines "defs \<equiv> map bn_id (filter (\<lambda>n. bn_task_id n = Some i) (bv_definitions d))"
  shows "bv_definitions (snd (delete_task_with_verifications i d))
      = delete_rows (\<lambda>n. bn_id n \<in> set defs) (bv_definitions d)"
    and "bv_runs (snd (delete_task_with_verifications i d))
      = delete_rows (\<lambda>r. bw_id r \<in> set (map bw_id (filter (\<lambda>r. bw_task_id r = i
          \<or> bw_definition_id r \<in> set defs) (bv_runs d)))) (bv_runs d)"
    and "bv_baselines (snd (delete_task_with_verifications i d))
      = update_rows (\<lambda>b. case bb_source_run_id b of None \<Rightarrow> False | Some r \<Rightarrow> r \<in> set (map bw_id
            (filter (\<lambda>r. bw_task_id r = i \<or> bw_definition_id r \<in> set defs) (bv_runs d))))
          (\<lambda>b. b\<lparr>bb_source_run_id := None\<rparr>)
          (delete_rows (\<lambda>b. bb_id b \<in> set (map bb_id (filter (\<lambda>b. bb_definition_id b \<in> set defs)
            (bv_baselines d)))) (bv_baselines d))"
    and "bv_tasks (snd (delete_task_with_verifications i d)) = dd_tasks (bd_servers b)"
  unfolding defs_def by (simp_all add: delete_task_with_verifications_def b Let_def bv_tasks_def del: set_map set_filter)


text \<open>A save changes the definitions only.\<close>

lemma saved_definitions:
  assumes "save_definition_tx x now n d = Inr (u, d')"
  shows "bv_runs d' = bv_runs d" "bv_tasks d' = bv_tasks d" "bv_baselines d' = bv_baselines d"
    "distinct (map bn_id (bv_definitions d)) \<Longrightarrow> distinct (map bn_id (bv_definitions d'))"
    "m \<in> set (bv_definitions d') \<Longrightarrow> m \<in> set (bv_definitions d) \<or> bn_status m = nb_status n \<and> bn_required m = nb_required n"
proof -
  obtain d1 vs where d1: "upsert_definition x now n d = Inr d1" and d': "d' = d1\<lparr>bv_variants := vs\<rparr>"
    using assms by (auto simp: save_definition_tx_def split: if_splits sum.splits elim!: map_outcome.elims)
  have "find_bv_definition (nb_id n) d = None \<Longrightarrow> nb_id n \<notin> bn_id ` set (bv_definitions d)"
    by (auto simp: find_bv_definition_def find_None_iff)
  then show "bv_runs d' = bv_runs d" "bv_tasks d' = bv_tasks d" "bv_baselines d' = bv_baselines d"
    "distinct (map bn_id (bv_definitions d)) \<Longrightarrow> distinct (map bn_id (bv_definitions d'))"
    "m \<in> set (bv_definitions d') \<Longrightarrow> m \<in> set (bv_definitions d) \<or> bn_status m = nb_status n \<and> bn_required m = nb_required n"
    using d1 d' map_key_update_rows [of "bv_definitions d" "\<lambda>r. bn_id r = nb_id n" bn_id
        "\<lambda>r. definition_row (bn_created_at r) now n"]
    by (auto simp: upsert_definition_def definition_row_def elim!: in_update_rows
        split: if_splits option.splits)
qed

lemma snd_save: "snd (save_definition x now n a d) = d
    \<or> (\<exists>u. save_definition_tx x now n d = Inr (u, snd (save_definition x now n a d)))"
  by (cases "validate_definition x n a"; cases "save_definition_tx x now n d")
    (auto simp: save_definition_def checked_def validated_def transaction_def split: option.splits sum.splits)




subsection \<open>What the runs say\<close>







subsection \<open>Completed tasks\<close>


lemma sorted_empty [simp]: "sort_key f xs = [] \<longleftrightarrow> xs = []"
  by (metis length_0_conv length_sort)











subsection \<open>Baselines\<close>

definition baseline_key :: "bv_baseline \<Rightarrow> uuid \<times> string" where
  "baseline_key b = (bb_definition_id b, bb_variant_key b)"

definition baseline_active :: "bv_baseline \<Rightarrow> bool" where
  "baseline_active b \<longleftrightarrow> bb_status b = ''active''"

definition one_baseline :: "bv_db \<Rightarrow> bool" where
  "one_baseline d \<longleftrightarrow> distinct (map baseline_key (filter baseline_active (bv_baselines d)))"

lemma one_baseline_same: "bv_baselines d' = bv_baselines d \<Longrightarrow> one_baseline d \<Longrightarrow> one_baseline d'"
  by (simp add: one_baseline_def)

lemma one_baseline_update:
  assumes ok: "distinct (map baseline_key (filter baseline_active bs))"
    and f: "\<And>b. p b \<Longrightarrow> baseline_active (f b) \<Longrightarrow> baseline_active b \<and> baseline_key (f b) = baseline_key b"
  shows "distinct (map baseline_key (filter baseline_active (update_rows p f bs)))"
proof -
  have "map baseline_key (filter baseline_active (update_rows p f bs))
      = map baseline_key (filter (\<lambda>b. p b \<longrightarrow> baseline_active (f b)) (filter baseline_active bs))"
    using f by (induction bs) auto
  then show ?thesis using distinct_map_filter [OF ok] by simp
qed

lemma one_baseline_approved:
  assumes ok: "one_baseline d" and tx: "approve_baseline_tx x now fresh i a d = Inr (v, d')"
  shows "one_baseline d'"
proof (cases "comparison_run i d")
  case None
  then show ?thesis using tx ok by (simp add: approve_baseline_tx_def)
next
  case (Some cr)
  obtain c r where cr: "cr = (c, r)" by (rule prod.exhaust)
  let ?p = "\<lambda>b. bb_definition_id b = bw_definition_id r \<and> bb_variant_key b = by_variant_key c
      \<and> bb_status b = ''active''"
  let ?bs = "update_rows ?p (\<lambda>b. b\<lparr>bb_status := ''superseded''\<rparr>) (bv_baselines d)"
  obtain row where row: "bv_baselines d' = ?bs @ [row]" "bb_definition_id row = bw_definition_id r"
      "bb_variant_key row = by_variant_key c"
    using tx Some cr by (auto simp: approve_baseline_tx_def Let_def split: if_splits)
  have other: "\<not> (bb_definition_id b = bw_definition_id r \<and> bb_variant_key b = by_variant_key c)"
    if b: "b \<in> set ?bs" "baseline_active b" for b
    using b(1)
  proof (rule in_update_rows)
    fix o' assume "o' \<in> set (bv_baselines d)" "b = (if ?p o' then o'\<lparr>bb_status := ''superseded''\<rparr> else o')"
    then show ?thesis using b(2) by (cases "?p o'") (auto simp: baseline_active_def)
  qed
  have "baseline_key row \<notin> set (map baseline_key (filter baseline_active ?bs))"
  proof
    assume "baseline_key row \<in> set (map baseline_key (filter baseline_active ?bs))"
    then obtain b where "b \<in> set ?bs" "baseline_active b" "baseline_key row = baseline_key b"
      unfolding set_map set_filter by blast
    then show False using other [of b] row(2,3) by (simp add: baseline_key_def)
  qed
  moreover have "distinct (map baseline_key (filter baseline_active ?bs))"
    using one_baseline_update [of "bv_baselines d" ?p "\<lambda>b. b\<lparr>bb_status := ''superseded''\<rparr>"] ok
    by (simp add: one_baseline_def baseline_active_def)
  ultimately show ?thesis by (simp add: one_baseline_def row(1))
qed

lemmas baseline_intros = after_validated [where P = one_baseline] after_checked [where P = one_baseline]
  after_if [where P = one_baseline]

lemma one_baseline_stop: "one_baseline d \<Longrightarrow> one_baseline (snd (validated (stop_bv_tx now i m f k s a p) d))"
  by (rule baseline_intros(1))
    (auto simp: stop_bv_tx_def split_beta Let_def elim!: one_baseline_same [rotated] split: option.splits if_splits)

lemma one_baseline_step:
  assumes ok: "one_baseline d"
  shows "one_baseline (bv_step x op d)"
proof (cases op)
  case (VSave now n a)
  then show ?thesis using ok snd_save [of x now n a d] one_baseline_same saved_definitions(3) by force
next
  case (VQueue now q a)
  have "one_baseline d'" if "queue_run_tx x now q a d = Inr (b, d')" for b d'
    using that ok by (auto simp: queue_run_tx_def one_baseline_def dest!: arg_cong [where f = snd]
        split: option.splits if_splits sum.splits)
  then have "one_baseline (snd (validated (queue_run_tx x now q a) d))" by (intro baseline_intros(1) ok)
  then show ?thesis
    using ok by (auto simp: VQueue queue_run_def checked_def Let_def split: sum.splits option.splits prod.splits)
next
  case (VStart now i a)
  have "one_baseline d'" if "start_bv_tx now i a d = Inr (b, d')" for b d'
    using that ok by (auto simp: start_bv_tx_def one_baseline_def split: option.splits if_splits)
  then have "one_baseline (snd (validated (start_bv_tx now i a) d))" by (intro baseline_intros(1) ok)
  then show ?thesis
    using ok by (auto simp: VStart start_bv_def checked_def split: sum.splits prod.splits)
next
  case (VCancel now i a)
  then show ?thesis using ok by (simp add: cancel_bv_def baseline_intros one_baseline_stop)
next
  case (VFail now i m a)
  then show ?thesis using ok by (simp add: fail_bv_def baseline_intros one_baseline_stop del: if_split)
next
  case (VComplete now i v a)
  have "one_baseline d'" if "complete_bv_tx now i v a d = Inr (b, d')" for b d'
    using that ok insert_evidence_simps(4)
    by (fastforce simp: complete_bv_tx_def Let_def split_beta one_baseline_def split: option.splits if_splits sum.splits)
  then show ?thesis using ok by (simp add: VComplete complete_bv_def baseline_intros)
next
  case (VReview now i c m a)
  have "one_baseline d'" if "review_bv_tx now i c m a d = Inr (b, d')" for b d'
    using that ok
    by (auto simp: review_bv_tx_def Let_def split_beta one_baseline_def split: option.splits if_splits)
  then show ?thesis using ok by (simp add: VReview review_bv_def baseline_intros del: if_split)
next
  case (VBaseline now b i a)
  then show ?thesis
    using ok one_baseline_approved [OF ok]
    by (simp add: approve_baseline_def split_beta Let_def baseline_intros)
next
  case (VRestart now)
  then show ?thesis using ok by (simp add: recover_bv_def Let_def one_baseline_def)
next
  case (VStatus now i s)
  then show ?thesis using ok by (simp add: bv_set_status_def split_beta Let_def one_baseline_def)
next
  case (VDelete i)
  obtain r b where b: "delete_task_with_browsers i (bv_browsers d) = (r, b)" by (rule prod.exhaust)
  show ?thesis
  proof (cases "r = Inr True")
    case True
    have "distinct (map baseline_key (filter baseline_active (delete_rows p (bv_baselines d))))" for p
      using ok distinct_map_filter [of baseline_key "filter baseline_active (bv_baselines d)" "\<lambda>b. \<not> p b"]
      by (simp add: one_baseline_def delete_rows_def conj_commute)
    then show ?thesis
      unfolding VDelete bv_step.simps one_baseline_def deleted_verification_rows(3) [OF b [unfolded True]]
      by (rule one_baseline_update) (simp add: baseline_active_def baseline_key_def)
  next
    case False
    then have "r = Inr False \<or> (\<exists>e. r = Inl e)" by (cases r) auto
    then show ?thesis using ok by (elim disjE exE) (simp_all add: VDelete delete_task_with_verifications_def b)
  qed
qed

lemma approved_baseline:
  assumes "approve_baseline x now fresh i a d = (r, d')"
  shows "case r of
      Inr (Some b) \<Rightarrow> comparison_artifact_hash i d = Some (bb_artifact_hash b)
        \<and> filter (\<lambda>c. bb_variant_key c = bb_variant_key b) (active_baselines (bb_definition_id b) d') = [b]
    | _ \<Rightarrow> bv_baselines d' = bv_baselines d"
proof (cases "approve_baseline_tx x now fresh i a d")
  case (Inl e)
  then show ?thesis
    using assms by (auto simp: approve_baseline_def checked_def validated_def transaction_def
        split: sum.splits option.splits prod.splits elim!: map_outcome.elims)
next
  case (Inr v)
  show ?thesis
  proof (cases "comparison_run i d")
    case None
    then show ?thesis
      using assms by (auto simp: approve_baseline_def checked_def validated_def transaction_def
          approve_baseline_tx_def split: sum.splits option.splits)
  next
    case (Some cr)
    obtain c q where cr: "cr = (c, q)" by (rule prod.exhaust)
    let ?p = "\<lambda>b. bb_definition_id b = bw_definition_id q \<and> bb_variant_key b = by_variant_key c
        \<and> bb_status b = ''active''"
    let ?bs = "update_rows ?p (\<lambda>b. b\<lparr>bb_status := ''superseded''\<rparr>) (bv_baselines d)"
    obtain row d1 where v: "v = (True, d1)" and row: "bv_baselines d1 = ?bs @ [row]" "bb_id row = fresh"
        "bb_definition_id row = bw_definition_id q" "bb_variant_key row = by_variant_key c"
        "bb_artifact_hash row = by_current_hash c" "bb_status row = ''active''"
      and fresh: "\<forall>b \<in> set (bv_baselines d). bb_id b \<noteq> fresh"
      using Inr Some cr by (auto simp: approve_baseline_tx_def Let_def split: if_splits)
    have "find (\<lambda>b. bb_id b = fresh) ?bs = None"
      using fresh by (auto simp: find_None_iff elim!: in_update_rows split: if_splits)
    then have "find (\<lambda>b. bb_id b = fresh) (bv_baselines d1) = Some row"
      using row(2) by (simp add: row(1) find_append)
    moreover have "filter (\<lambda>b. bb_variant_key b = by_variant_key c)
        (filter (\<lambda>b. bb_definition_id b = bw_definition_id q \<and> bb_status b = ''active'') ?bs) = []"
      by (auto simp: filter_empty_conv elim!: in_update_rows split: if_splits)
    then have "filter (\<lambda>b. bb_variant_key b = by_variant_key c) (active_baselines (bw_definition_id q) d1) = [row]"
      using row(3,4,6) by (simp add: active_baselines_def filter_sort row(1))
    moreover have "comparison_artifact_hash i d = Some (by_current_hash c)"
      using Some cr by (auto simp: comparison_run_def comparison_artifact_hash_def bind_eq_Some_conv)
    ultimately show ?thesis
      using assms Inr v row by (auto simp: approve_baseline_def checked_def validated_def transaction_def
          split: sum.splits)
  qed
qed

text \<open>C27: In every reachable state each definition and variant has at most one active baseline, and
  approving a comparison makes its screenshot the active baseline of its variant.
\<close>

theorem one_active_baseline_per_variant:
  "let d = run (bv_step x) ops (no_verifications b); (r, d') = approve_baseline x now fresh i a d
   in distinct (map (\<lambda>b. (bb_definition_id b, bb_variant_key b))
        (filter (\<lambda>b. bb_status b = ''active'') (bv_baselines d)))
      \<and> (case r of
           Inr (Some b) \<Rightarrow> comparison_artifact_hash i d = Some (bb_artifact_hash b)
             \<and> filter (\<lambda>c. bb_variant_key c = bb_variant_key b) (active_baselines (bb_definition_id b) d') = [b]
         | _ \<Rightarrow> bv_baselines d' = bv_baselines d)"
proof -
  let ?d = "run (bv_step x) ops (no_verifications b)"
  have ok: "one_baseline ?d"
    by (rule run_invariant [where I = one_baseline])
      (rule one_baseline_step, assumption, simp add: one_baseline_def no_verifications_def)
  show ?thesis
  proof (cases "approve_baseline x now fresh i a ?d")
    case (Pair r d')
    then show ?thesis
      using approved_baseline [OF Pair] ok
      by (simp add: Let_def one_baseline_def baseline_key_def [abs_def] baseline_active_def [abs_def])
  qed
qed


subsection \<open>Which tasks go back to review\<close>

definition was_completed :: "uuid \<Rightarrow> bv_db \<Rightarrow> bool" where
  "was_completed i d \<longleftrightarrow> list_ex (\<lambda>t. tk_id t = i \<and> is_completed (tk_status t)) (td_tasks (bv_tasks d))"

lemma was_completed_count:
  "0 < count_rows (\<lambda>t. tk_id t = i \<and> is_completed (tk_status t)) (td_tasks (bv_tasks d)) \<longleftrightarrow> was_completed i d"
  by (simp add: was_completed_def count_rows_def list_ex_iff filter_empty_conv)

lemma reopened_uncompleted: "\<not> list_ex (\<lambda>t. tk_id t = i \<and> is_completed (tk_status t)) (reopened_if True now i ts)"
  using reopened_completed [of _ True now i ts] by (auto simp: list_ex_iff)

definition reopens :: "uuid \<Rightarrow> bv_db \<Rightarrow> (storage_error, bv_details verification_mutation option) outcome \<times> bv_db \<Rightarrow> bool" where
  "reopens i d a = (case a of
     (Inr (Some m), d') \<Rightarrow> vm_reopened m = was_completed (vm_task_id m) d \<and> \<not> was_completed (vm_task_id m) d'
   | _ \<Rightarrow> True)"

lemma reopens_mutated:
  assumes "case r of (Inr (Some (task, moved)), d') \<Rightarrow> moved = was_completed task d \<and> \<not> was_completed task d'
    | _ \<Rightarrow> True"
  shows "reopens i d (bv_mutated i r)"
proof -
  obtain u d' where r: "r = (u, d')" by (rule prod.exhaust)
  consider e where "u = Inl e" | "u = Inr None" | task moved where "u = Inr (Some (task, moved))"
    by (metis sum.exhaust option.exhaust prod.exhaust)
  then show ?thesis
  proof cases
    case 3
    show ?thesis
    proof (cases "bv_get i d'")
      case (Inr v)
      then show ?thesis using assms by (cases v) (simp_all add: r 3 reopens_def bv_mutated_def)
    qed (simp add: r 3 reopens_def bv_mutated_def)
  qed (simp_all add: r reopens_def bv_mutated_def)
qed

lemma reopens_checked: "reopens i d k \<Longrightarrow> reopens i d (checked c d k)"
  by (cases c) (simp_all add: checked_def reopens_def)

lemma reopens_if: "reopens i d a \<Longrightarrow> reopens i d b \<Longrightarrow> reopens i d (if c then a else b)"
  by simp

lemma reopens_validated:
  assumes "\<And>task moved d'. operation d = Inr (Some (task, moved), d') \<Longrightarrow>
      moved = was_completed task d \<and> \<not> was_completed task d'"
  shows "reopens i d (bv_mutated i (validated operation d))"
  by (rule reopens_mutated) (use assms in \<open>auto simp: validated_def transaction_def split: sum.splits prod.splits
      option.splits\<close>)

lemma bv_reopened:
  assumes "bv_reopen_if True now task d1 = (moved, d')" and "td_tasks (bv_tasks d1) = td_tasks (bv_tasks d)"
  shows "moved = was_completed task d \<and> \<not> was_completed task d'"
proof -
  have "moved = fst (bv_reopen_if True now task d1)" "d' = snd (bv_reopen_if True now task d1)"
    using assms(1) by simp_all
  then show ?thesis
    using reopened_uncompleted [of task now "td_tasks (bv_tasks d)"] was_completed_count [of task d]
    by (simp add: assms(2)) (simp add: was_completed_def assms(2))
qed

lemma stop_reopens: "reopens i d (bv_mutated i (validated (stop_bv_tx now i m f k s a p) d))"
proof (rule reopens_validated)
  fix task moved d'
  assume "stop_bv_tx now i m f k s a p d = Inr (Some (task, moved), d')"
  then show "moved = was_completed task d \<and> \<not> was_completed task d'"
    by (auto simp: stop_bv_tx_def split: option.splits if_splits prod.splits elim!: bv_reopened)
qed

lemma reject_reopens: "reopens i d (bv_mutated i (validated (review_bv_tx now i ''reject'' m a) d))"
proof (rule reopens_validated)
  fix task moved d'
  assume "review_bv_tx now i ''reject'' m a d = Inr (Some (task, moved), d')"
  then show "moved = was_completed task d \<and> \<not> was_completed task d'"
    by (auto simp: review_bv_tx_def Let_def split: option.splits if_splits prod.splits elim!: bv_reopened)
qed

lemma queue_reopens:
  assumes "queue_run_tx x now q a d = Inr (moved, d')"
  shows "moved = (was_completed (nq_task_id q) d \<and>
      (case find_bv_definition (nq_definition_id q) d of None \<Rightarrow> False | Some n \<Rightarrow> bn_required n))"
  using assms was_completed_count [of "nq_task_id q" d]
  by (auto simp: queue_run_tx_def dest!: arg_cong [where f = fst] split: option.splits if_splits sum.splits)

text \<open>Cancelling or failing a run, or rejecting it in a review, puts its task back into review when it
  was completed, and reports it, whether or not the definition of the run is required; queueing a run
  does so only for a required definition.
\<close>

theorem stopped_browser_runs_reopen_the_task:
  "reopens i d (cancel_bv now i a d) \<and> reopens i d (fail_bv now i m a d)
   \<and> reopens i d (review_bv now i ''reject'' m a d)
   \<and> (case queue_run x now q a d of
        (Inr v, d') \<Rightarrow> vm_reopened v = (find (same_request q) (bv_runs d) = None \<and> was_completed (nq_task_id q) d
          \<and> (case find_bv_definition (nq_definition_id q) d of None \<Rightarrow> False | Some n \<Rightarrow> bn_required n))
      | _ \<Rightarrow> True)"
proof (intro conjI)
  show "reopens i d (cancel_bv now i a d)"
    unfolding cancel_bv_def by (intro reopens_checked stop_reopens)
  show "reopens i d (fail_bv now i m a d)"
    unfolding fail_bv_def by (intro reopens_checked reopens_if stop_reopens) (simp add: reopens_def)
  show "reopens i d (review_bv now i ''reject'' m a d)"
    unfolding review_bv_def by (intro reopens_checked reopens_if reject_reopens) (simp add: reopens_def)
  show "case queue_run x now q a d of
        (Inr v, d') \<Rightarrow> vm_reopened v = (find (same_request q) (bv_runs d) = None \<and> was_completed (nq_task_id q) d
          \<and> (case find_bv_definition (nq_definition_id q) d of None \<Rightarrow> False | Some n \<Rightarrow> bn_required n))
      | _ \<Rightarrow> True"
    using queue_reopens [of x now q a d]
    by (auto simp: queue_run_def checked_def Let_def validated_def transaction_def
        split: sum.splits option.splits prod.splits)
qed

end
