(* ===== verification/Frame.thy ===== *)
theory Frame
  imports CoreErrors Filesystem
begin

text \<open>
  \<open>crates/retcon-core/src/frame.rs\<close>: reading one line from a transport that delivers its
  bytes in pieces. The future that reads a line keeps what it has consumed in a buffer of its own; a
  poll of it consumes what has arrived and either completes or waits for more. The buffer is lost
  when the future is dropped before it completes.
\<close>

definition MAX_FRAME_BYTES :: nat where "MAX_FRAME_BYTES = 1024 * 1024"

text \<open>
  What the code takes from \<open>serde_json\<close>, the standard library and \<open>chrono\<close>: the
  text of a UTF-8 error, the parser of JSON text (objects as their entries in the order of the text,
  repeated keys included) with its error, the error of decoding a value as a named type, and the text
  of a time.
\<close>

record serde =
  sd_utf8_error :: "string \<Rightarrow> string"
  sd_parse :: "string \<Rightarrow> (string, json) outcome"
  sd_decode_error :: "string \<Rightarrow> json \<Rightarrow> string"
  sd_time_text :: "millis \<Rightarrow> string"

text \<open>\<open>String::from_utf8\<close> succeeds.\<close>

function utf8_valid :: "string \<Rightarrow> bool" where
  "utf8_valid [] = True"
| "utf8_valid (c # cs) =
     (case continuations (of_char c) of
        None \<Rightarrow> False
      | Some rs \<Rightarrow> (let (ok, n) = continued rs cs in ok \<and> utf8_valid (drop n cs)))"
  by pat_completeness auto

termination
  by (relation "measure length") auto

text \<open>
  The read half: the bytes that have arrived and nobody consumed, and whether the peer has closed
  its side after them.
\<close>

record pipe =
  pi_available :: string
  pi_closed :: bool

datatype 'a poll = Pending string | Ready 'a

abbreviation newline :: char where "newline \<equiv> CHR 0x0A"
abbreviation carriage_return :: char where "carriage_return \<equiv> CHR 0x0D"

definition oversized :: "externals \<Rightarrow> core_error" where
  "oversized x = core_error_new x CodeInvalidRequest SourceRpc
     ''Retcon received an oversized local request.'' ''frame exceeds 1048576 bytes''"

definition pop_byte :: "char \<Rightarrow> string \<Rightarrow> string" where
  "pop_byte c s = (if s \<noteq> [] \<and> last s = c then butlast s else s)"

definition trimmed_line :: "externals \<Rightarrow> serde \<Rightarrow> string \<Rightarrow> (core_error, string option) outcome" where
  "trimmed_line x sd buffer =
     (let b = pop_byte carriage_return (pop_byte newline buffer)
      in if b = [] then Inr None
         else if utf8_valid b then Inr (Some b)
         else Inl (core_error_new x CodeInvalidRequest SourceRpc
           ''Retcon received an invalid local request.'' (sd_utf8_error sd b)))"

definition capped_line :: "externals \<Rightarrow> serde \<Rightarrow> string \<Rightarrow> (core_error, string option) outcome" where
  "capped_line x sd buffer =
     (if MAX_FRAME_BYTES + 1 < length buffer then Inl (oversized x) else trimmed_line x sd buffer)"

text \<open>
  One poll of \<open>read_capped_line\<close>, \<open>buffer\<close> being what the future has consumed so far.
  \<open>read_until\<close> consumes up to and with the first newline, or everything there is. At the end
  of the input it reports what the buffer holds; the loop then asks once more, is told 0, and takes
  the buffer for a line.
\<close>

definition poll_line ::
    "externals \<Rightarrow> serde \<Rightarrow> string \<Rightarrow> pipe \<Rightarrow> (core_error, string option) outcome poll \<times> pipe" where
  "poll_line x sd buffer p =
     (let line = takeWhile (\<lambda>c. c \<noteq> newline) (pi_available p);
          rest = dropWhile (\<lambda>c. c \<noteq> newline) (pi_available p)
      in case rest of
           c # cs \<Rightarrow> (Ready (capped_line x sd (buffer @ line @ [c])), p\<lparr>pi_available := cs\<rparr>)
         | [] \<Rightarrow>
             (let p' = p\<lparr>pi_available := []\<rparr>
              in if \<not> pi_closed p then (Pending (buffer @ line), p')
                 else if buffer @ line = [] then (Ready (Inr None), p')
                 else (Ready (capped_line x sd (buffer @ line)), p')))"

text \<open>The lines a transport gives when nothing interrupts the reader, and the error that ended it.\<close>

fun read_lines ::
    "nat \<Rightarrow> externals \<Rightarrow> serde \<Rightarrow> string \<Rightarrow> pipe \<Rightarrow> string list \<times> core_error option" where
  "read_lines 0 x sd buffer p = ([], None)"
| "read_lines (Suc n) x sd buffer p =
     (case poll_line x sd buffer p of
        (Pending b, p') \<Rightarrow> ([], None)
      | (Ready (Inl e), p') \<Rightarrow> ([], Some e)
      | (Ready (Inr None), p') \<Rightarrow> ([], None)
      | (Ready (Inr (Some l)), p') \<Rightarrow> (let (ls, e) = read_lines n x sd [] p' in (l # ls, e)))"

subsection \<open>Facts\<close>

text \<open>What goes into one line of the wire: text that is no blank line and does not end in CR.\<close>

definition sendable :: "string \<Rightarrow> bool" where
  "sendable l \<longleftrightarrow> l \<noteq> [] \<and> newline \<notin> set l \<and> last l \<noteq> carriage_return \<and> utf8_valid l
     \<and> length l \<le> MAX_FRAME_BYTES"

lemma takeWhile_line [simp]:
  "newline \<notin> set l \<Longrightarrow> takeWhile (\<lambda>c. c \<noteq> newline) (l @ newline # r) = l"
  "newline \<notin> set l \<Longrightarrow> dropWhile (\<lambda>c. c \<noteq> newline) (l @ newline # r) = newline # r"
  by (induction l) auto

lemma takeWhile_part [simp]:
  "newline \<notin> set l \<Longrightarrow> takeWhile (\<lambda>c. c \<noteq> newline) l = l"
  "newline \<notin> set l \<Longrightarrow> dropWhile (\<lambda>c. c \<noteq> newline) l = []"
  by (induction l) auto

lemma poll_nothing:
  assumes "dropWhile (\<lambda>c. c \<noteq> newline) (pi_available p) = []"
  shows "poll_line x sd buffer p =
    ((if \<not> pi_closed p then Pending (buffer @ pi_available p)
      else if buffer @ pi_available p = [] then Ready (Inr None)
      else Ready (capped_line x sd (buffer @ pi_available p))), p\<lparr>pi_available := []\<rparr>)"
proof -
  have all: "takeWhile (\<lambda>c. c \<noteq> newline) (pi_available p) = pi_available p"
    using takeWhile_dropWhile_id [of "\<lambda>c. c \<noteq> newline" "pi_available p"] assms by simp
  show ?thesis unfolding poll_line_def Let_def assms list.case all by simp
qed

text \<open>A piece without a newline is only buffered, however long it is.\<close>

lemma poll_part:
  "newline \<notin> set a \<Longrightarrow> pi_available p = a \<Longrightarrow> \<not> pi_closed p \<Longrightarrow>
     poll_line x sd buffer p = (Pending (buffer @ a), p\<lparr>pi_available := []\<rparr>)"
  by (simp add: poll_line_def)

lemma poll_complete:
  "newline \<notin> set l \<Longrightarrow> pi_available p = l @ newline # r \<Longrightarrow>
     poll_line x sd buffer p = (Ready (capped_line x sd (buffer @ l @ [newline])), p\<lparr>pi_available := r\<rparr>)"
  by (simp add: poll_line_def)

lemma capped_sendable: "sendable l \<Longrightarrow> capped_line x sd (l @ [newline]) = Inr (Some l)"
  by (simp add: sendable_def capped_line_def trimmed_line_def pop_byte_def Let_def)

lemma poll_sendable:
  assumes "sendable (buffer @ l)" "pi_available p = l @ newline # r"
  shows "poll_line x sd buffer p = (Ready (Inr (Some (buffer @ l))), p\<lparr>pi_available := r\<rparr>)"
proof -
  have "newline \<notin> set l" using assms(1) by (simp add: sendable_def)
  then show ?thesis
    using poll_complete [OF _ assms(2), of x sd buffer] capped_sendable [OF assms(1), of x sd]
    by simp
qed

lemma read_lines_written:
  "list_all sendable ls \<Longrightarrow> length ls < n \<Longrightarrow>
     read_lines n x sd [] \<lparr>pi_available = concat (map (\<lambda>l. l @ [newline]) ls), pi_closed = c\<rparr> = (ls, None)"
proof (induction ls arbitrary: n)
  case Nil
  then show ?case by (cases n; cases c) (simp_all add: poll_line_def)
next
  case (Cons l ls)
  obtain m where n: "n = Suc m" using Cons.prems(2) by (cases n) auto
  let ?p = "\<lparr>pi_available = concat (map (\<lambda>l. l @ [newline]) (l # ls)), pi_closed = c\<rparr>"
  have "poll_line x sd [] ?p
      = (Ready (Inr (Some l)), ?p\<lparr>pi_available := concat (map (\<lambda>l. l @ [newline]) ls)\<rparr>)"
    using poll_sendable [of "[]" l ?p] Cons.prems(1) by simp
  then show ?case using Cons.IH [of m] Cons.prems by (simp add: n)
qed

text \<open>A line that was accepted is at most one byte longer than the limit, and only an unterminated one.\<close>

lemma capped_line_bound:
  assumes "capped_line x sd b = Inr (Some l)"
  shows "length l \<le> MAX_FRAME_BYTES + 1" "last b = newline \<Longrightarrow> length l \<le> MAX_FRAME_BYTES"
    "l \<noteq> []" "utf8_valid l"
  using assms by (auto simp: capped_line_def trimmed_line_def pop_byte_def Let_def split: if_splits)

end
