(* ===== verification/Protocol.thy ===== *)
theory Protocol
  imports Frame "HOL-Library.List_Lexorder" "HOL-Library.Char_ord"
begin

text \<open>
  \<open>crates/retcon-protocol/src/lib.rs\<close>: the messages of the wire and their decoding as the
  derived \<open>Deserialize\<close> implementations do it (an object with exactly the known fields, or an
  array of the fields in order), the negotiation of features, the catalogue of methods, and the
  redaction of a line for the trace log. The parameter types of single methods belong to their
  handlers.
\<close>

definition VERSION :: nat where "VERSION = 1"

definition SERVER_FEATURES :: "string list" where
  "SERVER_FEATURES = [''events.replay'', ''request.cancel'', ''ping'', ''core.health'', ''core.version'']"

subsection \<open>Values\<close>

text \<open>
  A \<open>Value\<close> made from parsed text: its maps are sorted by key and keep the last entry of a key.
\<close>

fun insert_entry :: "string \<Rightarrow> json \<Rightarrow> (string \<times> json) list \<Rightarrow> (string \<times> json) list" where
  "insert_entry k v [] = [(k, v)]"
| "insert_entry k v (e # es) =
     (if k = fst e then (k, v) # es else if k < fst e then (k, v) # e # es else e # insert_entry k v es)"

definition collect_entries :: "(string \<times> json) list \<Rightarrow> (string \<times> json) list" where
  "collect_entries kvs = foldl (\<lambda>es e. insert_entry (fst e) (snd e) es) [] kvs"

fun json_value :: "json \<Rightarrow> json" where
  "json_value (JArr vs) = JArr (map json_value vs)"
| "json_value (JObj kvs) = JObj (collect_entries (map (\<lambda>e. (fst e, json_value (snd e))) kvs))"
| "json_value v = v"

definition from_str :: "serde \<Rightarrow> string \<Rightarrow> (string, json) outcome" where
  "from_str sd s = map_outcome json_value (sd_parse sd s)"

subsection \<open>Decoding\<close>

text \<open>
  \<open>#[serde(deny_unknown_fields)]\<close>: the fields of a struct, absent ones as \<open>None\<close>; no
  field twice, no other field, no more elements than fields.
\<close>

fun struct_fields :: "string list \<Rightarrow> json \<Rightarrow> json option list option" where
  "struct_fields names (JObj kvs) =
     (if distinct (map fst kvs) \<and> list_all (\<lambda>k. k \<in> set names) (map fst kvs)
      then Some (map (map_of kvs) names) else None)"
| "struct_fields names (JArr vs) =
     (if length vs \<le> length names
      then Some (map Some vs @ replicate (length names - length vs) None) else None)"
| "struct_fields names v = None"

definition decode_u32 :: "json \<Rightarrow> nat option" where
  "decode_u32 v = Option.bind (json_as_u64 v) (\<lambda>n. if n \<le> 4294967295 then Some n else None)"

fun decode_strings :: "json list \<Rightarrow> string list option" where
  "decode_strings [] = Some []"
| "decode_strings (JStr s # vs) = map_option ((#) s) (decode_strings vs)"
| "decode_strings (v # vs) = None"

text \<open>An enum of one unit variant: its name, or the object that maps it to null.\<close>

definition decode_unit :: "string \<Rightarrow> json \<Rightarrow> bool" where
  "decode_unit name v \<longleftrightarrow> v = JStr name \<or> v = JObj [(name, JNull)]"

definition decode_auth :: "json \<Rightarrow> string option" where
  "decode_auth v =
     (case struct_fields [''auth''] v of
        Some [Some a] \<Rightarrow> json_as_str a
      | _ \<Rightarrow> None)"

record client_hello =
  ch_protocol_version :: nat
  ch_client_version :: string
  ch_features :: "string list"

definition decode_hello :: "json \<Rightarrow> client_hello option" where
  "decode_hello v =
     (case struct_fields [''kind'', ''protocolVersion'', ''clientVersion'', ''features''] v of
        Some [Some k, Some p, Some c, Some f] \<Rightarrow>
          if decode_unit ''client.hello'' k
          then (case (decode_u32 p, json_as_str c, Option.bind (json_as_array f) decode_strings) of
                  (Some n, Some s, Some fs) \<Rightarrow>
                    Some \<lparr>ch_protocol_version = n, ch_client_version = s, ch_features = fs\<rparr>
                | _ \<Rightarrow> None)
          else None
      | _ \<Rightarrow> None)"

definition decode_ping :: "json \<Rightarrow> bool" where
  "decode_ping v \<longleftrightarrow>
     (case struct_fields [''kind''] v of Some [Some k] \<Rightarrow> decode_unit ''ping'' k | _ \<Rightarrow> False)"

definition decode_cancel :: "json \<Rightarrow> nat option" where
  "decode_cancel v =
     (case struct_fields [''kind'', ''id''] v of
        Some [Some k, Some i] \<Rightarrow> if decode_unit ''request.cancel'' k then json_as_u64 i else None
      | _ \<Rightarrow> None)"

definition decode_request :: "json \<Rightarrow> request option" where
  "decode_request v =
     (case struct_fields [''id'', ''method'', ''params''] v of
        Some [Some i, Some m, p] \<Rightarrow>
          (case (json_as_u64 i, json_as_str m) of
             (Some n, Some s) \<Rightarrow>
               Some \<lparr>rq_id = n, rq_method = s, rq_params = (case p of None \<Rightarrow> JNull | Some w \<Rightarrow> w)\<rparr>
           | _ \<Rightarrow> None)
      | _ \<Rightarrow> None)"

datatype client_message = MsgRequest request | MsgPing | MsgCancel nat

definition parse_message :: "serde \<Rightarrow> string \<Rightarrow> (string, client_message) outcome" where
  "parse_message sd line =
     (case from_str sd line of
        Inl e \<Rightarrow> Inl e
      | Inr v \<Rightarrow>
          if json_get_str ''kind'' v = Some ''ping''
          then (if decode_ping v then Inr MsgPing else Inl (sd_decode_error sd ''Ping'' v))
          else if json_get_str ''kind'' v = Some ''request.cancel''
          then (case decode_cancel v of
                  Some i \<Rightarrow> Inr (MsgCancel i) | None \<Rightarrow> Inl (sd_decode_error sd ''CancelRequest'' v))
          else (case decode_request v of
                  Some r \<Rightarrow> Inr (MsgRequest r) | None \<Rightarrow> Inl (sd_decode_error sd ''Request'' v)))"

subsection \<open>Hello\<close>

definition negotiate_features :: "string list \<Rightarrow> string list \<Rightarrow> string list" where
  "negotiate_features client server = filter (\<lambda>f. f \<in> set server) client"

text \<open>\<open>serde_json::to_value(ServerHello)\<close>.\<close>

definition server_hello :: "string \<Rightarrow> string list \<Rightarrow> json" where
  "server_hello version features =
     JObj [(''features'', JArr (map JStr features)), (''kind'', JStr ''server.hello''),
           (''protocolVersion'', json_nat VERSION), (''serverVersion'', JStr version)]"

subsection \<open>Traces\<close>

text \<open>Control characters become question marks; those of two bytes are U+0080 to U+009F.\<close>

fun mask_controls :: "string \<Rightarrow> string" where
  "mask_controls [] = []"
| "mask_controls [c] = [if (of_char c :: nat) < 32 \<or> (of_char c :: nat) = 127 then CHR ''?'' else c]"
| "mask_controls (c # d # cs) =
     (if (of_char c :: nat) = 194 \<and> 128 \<le> (of_char d :: nat) \<and> (of_char d :: nat) < 160
      then CHR ''?'' # mask_controls cs
      else (if (of_char c :: nat) < 32 \<or> (of_char c :: nat) = 127 then CHR ''?'' else c)
        # mask_controls (d # cs))"

definition redact_line_for_trace :: "externals \<Rightarrow> serde \<Rightarrow> string \<Rightarrow> string" where
  "redact_line_for_trace x sd line =
     (case from_str sd line of
        Inr v \<Rightarrow> json_text x (scrub_json x v)
      | Inl e \<Rightarrow> mask_controls line)"

subsection \<open>The catalogue\<close>

definition method_catalog :: "(string \<times> string list) list" where
  "method_catalog =
     [(''core'', [''core.health'', ''core.version'', ''core.capabilities'', ''core.diagnostics'',
         ''core.shutdown'']),
      (''events'', [''events.replay'', ''events.emit'']),
      (''jobs'', [''jobs.list'', ''jobs.get'', ''jobs.cancel'', ''jobs.forceStop'']),
      (''project'', [''project.open'', ''project.clone'', ''project.list'', ''project.inspect'',
         ''project.updateMetadata'', ''project.remove'']),
      (''provider'', [''provider.metadata'', ''provider.doctor'']),
      (''session'', [''session.create'', ''session.list'', ''session.start'', ''session.cancel'',
         ''session.pause'', ''session.resume'']),
      (''turn'', [''turn.send'', ''turn.cancel'']),
      (''task'', [''task.create'', ''task.get'', ''task.list'', ''task.update'', ''task.delete'',
         ''task.status.set'', ''task.dependencies.replace'', ''task.plan.get'',
         ''task.plan.replace'', ''task.acceptance.list'', ''task.acceptance.create'',
         ''task.acceptance.update'', ''task.acceptance.delete'',
         ''task.acceptance.evidence'', ''task.acceptance.evaluate'',
         ''task.acceptance.override'']),
      (''terminal'', [''terminal.detectShells'', ''terminal.start'', ''terminal.input'',
         ''terminal.resize'', ''terminal.kill'', ''terminal.list'', ''terminal.scrollback'']),
      (''git'', [''git.status'', ''git.defaultBranch'', ''git.branchList'', ''git.branchCreate'',
         ''git.branchDelete'', ''git.checkout'', ''git.stage'', ''git.unstage'',
         ''git.stageHunk'', ''git.discardHunk'', ''git.commit'', ''git.push'',
         ''git.conflicts'', ''git.submodules'', ''git.worktreeList'',
         ''git.worktreeListStored'', ''git.worktreeAdd'', ''git.worktreeRemove'',
         ''git.worktreeAssign'', ''git.diff'']),
      (''agent'', [''agent.detect'', ''agent.start'', ''agent.cancel'']),
      (''browser'', [''browser.startService'', ''browser.stopService'', ''browser.call'',
         ''browser.session.start'', ''browser.session.stop'', ''browser.session.list'',
         ''browser.session.status'', ''browser.session.history'',
         ''browser.service.diagnostics'', ''browser.tab.list'', ''browser.tab.open'',
         ''browser.tab.close'', ''browser.tab.activate'', ''browser.navigate'',
         ''browser.back'', ''browser.forward'', ''browser.reload'',
         ''browser.observation.screenshot'', ''browser.observation.snapshot'',
         ''browser.observation.logs'', ''browser.observation.trace'',
         ''browser.observation.list'', ''browser.automation.action'',
         ''browser.automation.script'', ''browser.automation.upload'',
         ''browser.automation.download'', ''browser.takeover.start'',
         ''browser.takeover.stop'', ''browser.takeover.status'',
         ''browser.verification.definition.create'',
         ''browser.verification.definition.update'',
         ''browser.verification.definition.list'', ''browser.verification.definition.get'',
         ''browser.verification.run'', ''browser.verification.cancel'',
         ''browser.verification.get'', ''browser.verification.list'',
         ''browser.verification.review'', ''browser.verification.baseline.approve'']),
      (''file'', [''file.list'', ''file.read'', ''file.write'', ''file.watch'', ''file.unwatch'']),
      (''checkpoint'', [''checkpoint.create'', ''checkpoint.list'', ''checkpoint.get'',
         ''checkpoint.preview'', ''checkpoint.restore'']),
      (''approval'', [''approval.list'', ''approval.decide'']),
      (''permission'', [''permission.rules.list'', ''permission.rules.create'', ''permission.rules.delete'']),
      (''secrets'', [''secrets.scan'']),
      (''storage'', [''storage.status'', ''storage.recover'', ''storage.layout.get'',
         ''storage.layout.save'', ''storage.layout.list''])]"

definition all_methods :: "string list" where
  "all_methods = remdups (concat (map snd method_catalog))"

end
