(* ===== verification/ServerState.thy ===== *)
theory ServerState
  imports ApprovalEngine EventBus Jobs BrowserVerification
begin

text \<open>
  The state behind the RPC server (\<open>crates/retcon-core/src/state.rs\<close>): the database with all
  its tables (those of \<open>repositories.rs\<close> for worktrees, checkpoints and file changes beside the
  others), the artifacts by their hash, the event bus, the job supervisor and the shutdown flag; what
  other handlers work on is a field of any type. The engine's calls see the base tables of the
  database, through \<open>base\<close> and \<open>with_base\<close>. A call has its clock readings and fresh identifiers in
  a record.
\<close>

record repository_location =
  rl_id :: uuid
  rl_project_id :: uuid
  rl_path :: string

record git_worktree =
  gw_id :: uuid
  gw_session_id :: "uuid option"
  gw_location_id :: uuid
  gw_path :: string
  gw_branch :: "string option"
  gw_head_oid :: "string option"
  gw_status :: string
  gw_created_at :: millis
  gw_removed_at :: "millis option"

record git_checkpoint =
  gc_id :: uuid
  gc_worktree_id :: uuid
  gc_turn_id :: "uuid option"
  gc_kind :: string
  gc_base_oid :: "string option"
  gc_patch_artifact_hash :: "string option"
  gc_created_at :: millis

record file_change =
  fc_id :: uuid
  fc_turn_id :: "uuid option"
  fc_checkpoint_id :: "uuid option"
  fc_path :: string
  fc_change_kind :: string
  fc_before_hash :: "string option"
  fc_after_hash :: "string option"
  fc_created_at :: millis

record 'h server =
  sv_db :: bv_db
  sv_locations :: "repository_location list"
  sv_worktrees :: "git_worktree list"
  sv_checkpoints :: "git_checkpoint list"
  sv_changes :: "file_change list"
  sv_artifacts :: "(string \<times> string) list"
  sv_bus :: event_bus
  sv_jobs :: supervisor
  sv_shutdown :: bool
  sv_schema_version :: "nat option"
  sv_recovery :: json
  sv_rest :: 'h

record call =
  cl_now :: millis
  cl_uptime_ms :: nat
  cl_fresh :: "nat \<Rightarrow> uuid"
  cl_error_id :: uuid

text \<open>The process: failing database calls, the bypass flag, the token, the version, the file system's
  \<open>canonicalize\<close> (paths are UTF-8).\<close>

record config =
  cf_fault :: faults
  cf_bypass :: bool
  cf_token :: string
  cf_version :: string
  cf_canonical :: "string \<Rightarrow> string option"

definition later :: "nat \<Rightarrow> call \<Rightarrow> call" where
  "later n cl = cl\<lparr>cl_fresh := \<lambda>k. cl_fresh cl (n + k)\<rparr>"

subsection \<open>The base tables\<close>

definition base :: "'h server \<Rightarrow> db" where
  "base s = db.truncate (bv_tasks (sv_db s))"

definition with_base :: "db \<Rightarrow> 'h server \<Rightarrow> 'h server" where
  "with_base d s = s\<lparr>sv_db := with_bv_tasks (db.extend d (db.more (bv_tasks (sv_db s)))) (sv_db s)\<rparr>"

lemma base_with_base [simp]: "base (with_base d s) = d"
  by (simp add: base_def with_base_def with_bv_tasks_def bv_tasks_def db.defs)

lemma with_bv_tasks_same: "with_bv_tasks (bv_tasks d) d = d"
  by (simp add: with_bv_tasks_def bv_tasks_def)

lemma with_base_base [simp]: "with_base (base s) s = s"
proof -
  have "db.extend (db.truncate t) (db.more t) = t" for t :: task_db
    by (cases t) (simp add: db.defs)
  then show ?thesis by (simp add: base_def with_base_def with_bv_tasks_same)
qed

lemma with_base_simps [simp]:
  "sv_bus (with_base d s) = sv_bus s" "sv_jobs (with_base d s) = sv_jobs s"
  "sv_shutdown (with_base d s) = sv_shutdown s" "sv_rest (with_base d s) = sv_rest s"
  by (simp_all add: with_base_def)

subsection \<open>Parameters of a request\<close>

definition param_str :: "string \<Rightarrow> request \<Rightarrow> string option" where
  "param_str key r = json_get_str key (rq_params r)"

definition param_uuid :: "externals \<Rightarrow> string \<Rightarrow> request \<Rightarrow> uuid option" where
  "param_uuid x key r = Option.bind (param_str key r) (uuid_parse_ok x)"

definition param_u64 :: "string \<Rightarrow> nat \<Rightarrow> request \<Rightarrow> nat" where
  "param_u64 key fallback r = (case json_get_u64 key (rq_params r) of Some n \<Rightarrow> n | None \<Rightarrow> fallback)"

subsection \<open>Events\<close>

text \<open>\<open>state.emit\<close>: the event itself is not looked at.\<close>

definition emit_event_to :: "millis \<Rightarrow> uuid \<Rightarrow> string \<Rightarrow> json \<Rightarrow> 'h server \<Rightarrow> 'h server" where
  "emit_event_to now fresh kind payload s = s\<lparr>sv_bus := snd (emit_event now fresh kind payload (sv_bus s))\<rparr>"

fun emit_audit :: "call \<Rightarrow> audit_record list \<Rightarrow> 'h server \<Rightarrow> 'h server" where
  "emit_audit cl [] s = s"
| "emit_audit cl (a # as) s =
     emit_audit (later 1 cl) as (emit_event_to (cl_now cl) (cl_fresh cl 0) (au_kind a) (au_payload a) s)"

lemma emit_audit_simps [simp]:
  "sv_db (emit_audit cl as s) = sv_db s" "sv_jobs (emit_audit cl as s) = sv_jobs s"
  "sv_shutdown (emit_audit cl as s) = sv_shutdown s" "sv_rest (emit_audit cl as s) = sv_rest s"
  "base (emit_audit cl as s) = base s"
  by (induction as arbitrary: cl s) (simp_all add: emit_event_to_def base_def)

end
