(* ===== verification/PermissionsRpc.thy ===== *)
theory PermissionsRpc
  imports ServerState
begin

text \<open>
  \<open>crates/retcon-core/src/permissions_rpc.rs\<close> and \<open>secrets_rpc.rs\<close>: the handlers of
  the \<open>approval\<close>, \<open>permission\<close> and \<open>secrets\<close> namespaces. They call the approval
  engine and the scanner, write the audit records to the event bus and answer with the rows as JSON.
\<close>

definition permission_error :: "externals \<Rightarrow> nat \<Rightarrow> permission_error \<Rightarrow> response" where
  "permission_error x i e =
     (case e of
        ApprovalNotFound \<Rightarrow> not_found x i ''That approval request could not be found.'' ''approval not found''
      | ApprovalAlreadyDecided \<Rightarrow>
          invalid x i ''That approval request has already been decided.'' ''approval already decided''
      | RuleNotFound \<Rightarrow>
          not_found x i ''That permission rule could not be found.'' ''permission rule not found''
      | PermissionStorage err \<Rightarrow> failed i (core_error_from_storage x err))"

definition approval_to_json :: "externals \<Rightarrow> approval \<Rightarrow> json" where
  "approval_to_json x a =
     JObj [(''decidedAt'', json_opt json_int (ap_decided_at a)),
           (''decision'', (case ap_decision a of None \<Rightarrow> JNull | Some v \<Rightarrow> v)),
           (''id'', json_uuid x (ap_id a)), (''request'', ap_request a),
           (''requestedAt'', json_int (ap_requested_at a)),
           (''sessionId'', json_uuid x (ap_session_id a)), (''status'', JStr (ap_status a)),
           (''toolCallId'', json_opt (json_uuid x) (ap_tool_call_id a))]"

definition rule_to_json :: "externals \<Rightarrow> permission_rule \<Rightarrow> json" where
  "rule_to_json x r =
     JObj [(''createdAt'', json_int (ru_created_at r)), (''effect'', JStr (ru_effect r)),
           (''expiresAt'', json_opt json_int (ru_expires_at r)), (''id'', json_uuid x (ru_id r)),
           (''matcher'', ru_matcher r), (''projectId'', json_opt (json_uuid x) (ru_project_id r)),
           (''scope'', JStr (ru_scope r))]"

definition parse_uuid_param :: "externals \<Rightarrow> nat \<Rightarrow> json \<Rightarrow> string \<Rightarrow> (response, uuid) outcome" where
  "parse_uuid_param x i params key =
     (case json_get_str key params of
        Some raw \<Rightarrow>
          (case uuid_parse x raw of
             Inr u \<Rightarrow> Inr u
           | Inl e \<Rightarrow> Inl (invalid x i (''The '' @ key @ '' is invalid.'') e))
      | None \<Rightarrow> Inl (invalid x i (''The request is missing '' @ key @ ''.'') (missing key @ '' parameter'')))"

text \<open>An optional identifier: absent or null, or a string that must parse.\<close>

definition optional_uuid_param ::
    "externals \<Rightarrow> nat \<Rightarrow> json \<Rightarrow> string \<Rightarrow> string \<Rightarrow> (response, uuid option) outcome" where
  "optional_uuid_param x i params key label =
     (case json_get key params of
        None \<Rightarrow> Inr None
      | Some JNull \<Rightarrow> Inr None
      | Some v \<Rightarrow>
          (case json_as_str v of
             Some raw \<Rightarrow>
               (case uuid_parse x raw of
                  Inr u \<Rightarrow> Inr (Some u)
                | Inl e \<Rightarrow> Inl (invalid x i (''The '' @ label @ '' is invalid.'') e))
           | None \<Rightarrow> Inl (invalid x i (''The '' @ label @ '' must be a string.'')
               (key @ '' must be a UUID string or null''))))"

definition approval_list_rpc :: "externals \<Rightarrow> request \<Rightarrow> 'h server \<Rightarrow> response" where
  "approval_list_rpc x r s =
     (case optional_uuid_param x (rq_id r) (rq_params r) ''sessionId'' ''session ID'' of
        Inl e \<Rightarrow> e
      | Inr session_id \<Rightarrow>
          RespOk (rq_id r) (JObj
            [(''approvals'', JArr (map (approval_to_json x)
                (list_approvals (param_str ''status'' r) session_id (param_u64 ''limit'' 100 r) (base s)))),
             (''pendingCount'', json_nat (pending_count (base s)))]))"

definition approval_decide_rpc ::
    "externals \<Rightarrow> config \<Rightarrow> call \<Rightarrow> request \<Rightarrow> 'h server \<Rightarrow> response \<times> 'h server" where
  "approval_decide_rpc x cf cl r s =
     (let i = rq_id r; params = rq_params r
      in case parse_uuid_param x i params ''approvalId'' of
           Inl e \<Rightarrow> (e, s)
         | Inr approval_id \<Rightarrow>
             (case Option.bind (param_str ''decision'' r) decision_parse of
                None \<Rightarrow> (invalid x i ''The approval decision must be approve or deny.''
                  ''decision must be approve or deny'', s)
              | Some decision \<Rightarrow>
                  let remember = (case remember_parse (param_str ''remember'' r) of
                                    Some v \<Rightarrow> v | None \<Rightarrow> RememberOnce)
                  in case optional_uuid_param x i params ''projectId'' ''project ID'' of
                       Inl e \<Rightarrow> (e, s)
                     | Inr project_id \<Rightarrow>
                         (case decide x (cf_fault cf) (cl_now cl) (cl_fresh cl 0) approval_id decision
                             remember project_id (base s) of
                            (Inl e, d) \<Rightarrow> (permission_error x i e, with_base d s)
                          | (Inr (a, audit), d) \<Rightarrow>
                              (RespOk i (JObj [(''approval'', approval_to_json x a)]),
                               emit_audit (later 1 cl) audit (with_base d s)))))"

definition rules_list_rpc :: "externals \<Rightarrow> request \<Rightarrow> 'h server \<Rightarrow> response" where
  "rules_list_rpc x r s =
     (case parse_uuid_param x (rq_id r) (rq_params r) ''projectId'' of
        Inl e \<Rightarrow> e
      | Inr p \<Rightarrow> RespOk (rq_id r) (JObj [(''rules'', JArr (map (rule_to_json x) (list_rules p (base s))))]))"

definition rules_create_rpc ::
    "externals \<Rightarrow> call \<Rightarrow> request \<Rightarrow> 'h server \<Rightarrow> response \<times> 'h server" where
  "rules_create_rpc x cl r s =
     (let i = rq_id r; params = rq_params r
      in case optional_uuid_param x i params ''projectId'' ''project ID'' of
           Inl e \<Rightarrow> (e, s)
         | Inr project_id \<Rightarrow>
             (case param_str ''effect'' r of
                None \<Rightarrow> (invalid x i ''The permission rule is missing an effect.''
                  (missing ''effect'' @ '' parameter''), s)
              | Some effect \<Rightarrow>
                  if effect_parse effect = None
                  then (invalid x i ''The permission rule effect must be allow or deny.''
                    ''effect must be allow or deny'', s)
                  else case json_get ''matcher'' params of
                    None \<Rightarrow> (invalid x i ''The permission rule is missing a matcher.''
                      (missing ''matcher'' @ '' parameter''), s)
                  | Some matcher \<Rightarrow>
                      (case create_rule x (cl_now cl)
                          \<lparr>nr_id = cl_fresh cl 0, nr_project_id = project_id,
                           nr_scope = (case param_str ''scope'' r of Some v \<Rightarrow> v | None \<Rightarrow> ''rpc''),
                           nr_effect = effect, nr_matcher = matcher,
                           nr_expires_at = Option.bind (json_get ''expiresAt'' params) json_as_i64\<rparr>
                          (base s) of
                         (Inl e, d) \<Rightarrow> (permission_error x i e, with_base d s)
                       | (Inr (rule, audit), d) \<Rightarrow>
                           (RespOk i (JObj [(''rule'', rule_to_json x rule)]),
                            emit_audit (later 1 cl) [audit] (with_base d s)))))"

definition rules_delete_rpc ::
    "externals \<Rightarrow> call \<Rightarrow> request \<Rightarrow> 'h server \<Rightarrow> response \<times> 'h server" where
  "rules_delete_rpc x cl r s =
     (case parse_uuid_param x (rq_id r) (rq_params r) ''ruleId'' of
        Inl e \<Rightarrow> (e, s)
      | Inr rule_id \<Rightarrow>
          (case delete_rule rule_id (base s) of
             (True, d) \<Rightarrow>
               (RespOk (rq_id r) (JObj [(''deleted'', JBool True)]),
                emit_audit cl [audit_rule_deleted x rule_id] (with_base d s))
           | (False, d) \<Rightarrow> (permission_error x (rq_id r) RuleNotFound, with_base d s)))"

definition permissions_handle ::
    "externals \<Rightarrow> config \<Rightarrow> call \<Rightarrow> request \<Rightarrow> 'h server \<Rightarrow> response \<times> 'h server" where
  "permissions_handle x cf cl r s =
     (let m = rq_method r
      in if m = ''approval.list'' then (approval_list_rpc x r s, s)
         else if m = ''approval.decide'' then approval_decide_rpc x cf cl r s
         else if m = ''permission.rules.list'' then (rules_list_rpc x r s, s)
         else if m = ''permission.rules.create'' then rules_create_rpc x cl r s
         else if m = ''permission.rules.delete'' then rules_delete_rpc x cl r s
         else (not_found x (rq_id r) ''The requested permission operation is not available.''
                 (''unknown permission RPC method: '' @ m), s))"

subsection \<open>Secrets\<close>

definition quoted :: "string \<Rightarrow> string" where
  "quoted s = [CHR 0x27] @ s @ [CHR 0x27]"

fun finding_kind_str :: "finding_kind \<Rightarrow> string" where
  "finding_kind_str FindPattern = ''pattern''"
| "finding_kind_str FindEntropy = ''entropy''"

definition scan_result_json :: "secret_finding list \<Rightarrow> json" where
  "scan_result_json fs =
     JObj [(''clean'', JBool (scan_is_clean fs)), (''findingCount'', json_nat (length fs)),
           (''findings'', JArr (map (\<lambda>f. JObj
              [(''end'', json_nat (find_end f)), (''kind'', JStr (finding_kind_str (find_kind f))),
               (''label'', JStr (find_label f)), (''start'', json_nat (find_start f))]) fs)),
           (''summary'', JStr (scan_summary fs))]"

definition secrets_handle :: "externals \<Rightarrow> request \<Rightarrow> response" where
  "secrets_handle x r =
     (let i = rq_id r
      in if rq_method r = ''secrets.scan''
         then (case param_str ''text'' r of
                 Some t \<Rightarrow> RespOk i (scan_result_json (scan_text x t))
               | None \<Rightarrow>
                   (case json_get_array ''texts'' (rq_params r) of
                      Some ts \<Rightarrow>
                        let blobs = List.map_filter json_as_str ts
                        in if blobs = []
                           then invalid x i ''Secret scanning requires text or texts.''
                             (missing ''text'' @ '' or non-empty '' @ quoted ''texts'' @ '' parameter'')
                           else RespOk i (scan_result_json (scan_texts x blobs))
                    | None \<Rightarrow> invalid x i ''Secret scanning requires text or texts.''
                        (missing ''text'' @ '' or '' @ quoted ''texts'' @ '' parameter'')))
         else not_found x i ''The requested secret operation is not available.''
           (''unknown secrets RPC method: '' @ rq_method r))"

end
