(* ===== verification/Server.thy ===== *)
theory Server
  imports Protocol PermissionsRpc
begin

text \<open>
  \<open>crates/retcon-core/src/server.rs\<close>: the front door. A request passes the secret scan of
  prompts, the resolution of the project it belongs to and the approval engine before any handler
  sees it; then it is answered here or routed by the first piece of its method. A connection
  authenticates, says hello and then serves lines and events, one at a time. The handlers of the
  other namespaces and the diagnostics snapshot are parameters. A handler runs without interruption
  here; what else happens in the core meanwhile is a step of its own.
\<close>

record 'h handlers =
  hn_handle :: "string \<Rightarrow> call \<Rightarrow> request \<Rightarrow> 'h server \<Rightarrow> response \<times> 'h server"
  hn_diagnostics :: "call \<Rightarrow> 'h server \<Rightarrow> json"

definition invalid_request :: "externals \<Rightarrow> string \<Rightarrow> core_error" where
  "invalid_request x technical =
     core_error_new x CodeInvalidRequest SourceRpc ''Retcon received an invalid local request.'' technical"

subsection \<open>Whose request it is\<close>

text \<open>
  \<open>find_by_workspace_path\<close>: an active project with a location or a tracked worktree at the path;
  then one with a worktree that resolves to it, relative to its location. Where the query leaves the
  choice open, the first in the tables' order.
\<close>

definition tracked_worktrees :: "'h server \<Rightarrow> uuid \<Rightarrow> git_worktree list" where
  "tracked_worktrees s l = filter (\<lambda>w. gw_location_id w = l \<and> gw_removed_at w = None) (sv_worktrees s)"

definition locations_of :: "'h server \<Rightarrow> uuid \<Rightarrow> repository_location list" where
  "locations_of s p = filter (\<lambda>l. rl_project_id l = p) (sv_locations s)"

definition at_path :: "'h server \<Rightarrow> string \<Rightarrow> project \<Rightarrow> bool" where
  "at_path s path p \<longleftrightarrow> pr_archived_at p = None
     \<and> list_ex (\<lambda>l. rl_path l = path \<or> list_ex (\<lambda>w. gw_path w = path) (tracked_worktrees s (rl_id l)))
         (locations_of s (pr_id p))"

text \<open>\<open>Path::join\<close> onto a directory.\<close>

definition path_join :: "string \<Rightarrow> string \<Rightarrow> string" where
  "path_join root path =
     (if starts_with ''/'' path then path
      else if root = [] \<or> ends_with ''/'' root then root @ path else root @ ''/'' @ path)"

definition resolves_to :: "config \<Rightarrow> 'h server \<Rightarrow> string \<Rightarrow> project \<Rightarrow> bool" where
  "resolves_to cf s path p \<longleftrightarrow> pr_archived_at p = None
     \<and> list_ex (\<lambda>l. list_ex (\<lambda>w. cf_canonical cf (path_join (rl_path l) (gw_path w)) = Some path)
           (tracked_worktrees s (rl_id l))) (locations_of s (pr_id p))"

definition find_by_workspace_path :: "config \<Rightarrow> string \<Rightarrow> 'h server \<Rightarrow> project option" where
  "find_by_workspace_path cf path s =
     (case find (at_path s path) (projects (base s)) of
        Some p \<Rightarrow> Some p
      | None \<Rightarrow> find (resolves_to cf s path) (projects (base s)))"

definition workspace_param :: "request \<Rightarrow> string option" where
  "workspace_param r =
     (let m = rq_method r
      in if starts_with ''file.'' m then param_str ''root'' r
         else if m \<in> {''ide.openFile'', ''ide.openDiff'', ''ide.openTerminalLocation''}
         then param_str ''workspacePath'' r
         else if m \<in> {''ide.openProject'', ''ide.openWorktree''} then param_str ''path'' r
         else None)"

definition workspace_project :: "config \<Rightarrow> request \<Rightarrow> 'h server \<Rightarrow> uuid option" where
  "workspace_project cf r s =
     Option.bind (workspace_param r) (\<lambda>raw. Option.bind (cf_canonical cf raw)
       (\<lambda>path. map_option pr_id (find_by_workspace_path cf path s)))"

text \<open>The project the request names, when there is one.\<close>

definition named_project :: "externals \<Rightarrow> request \<Rightarrow> 'h server \<Rightarrow> uuid option" where
  "named_project x r s =
     Option.bind (param_uuid x ''projectId'' r)
       (\<lambda>p. if projects_get p (base s) = None then None else Some p)"

definition dev_server_project :: "externals \<Rightarrow> request \<Rightarrow> 'h server \<Rightarrow> uuid option" where
  "dev_server_project x r s =
     (let servers = bd_servers (bv_browsers (sv_db s))
      in if rq_method r = ''devServer.configure'' then named_project x r s
         else case param_uuid x ''configId'' r of
           Some c \<Rightarrow> map_option dc_project_id (config_by_id c servers)
         | None \<Rightarrow> Option.bind (param_uuid x ''instanceId'' r)
             (\<lambda>i. map_option di_project_id (find_instance i servers)))"

definition verification_project :: "externals \<Rightarrow> request \<Rightarrow> 'h server \<Rightarrow> uuid option" where
  "verification_project x r s =
     (case param_uuid x ''definitionId'' r of
        Some i \<Rightarrow> map_option bn_project_id (find_bv_definition i (sv_db s))
      | None \<Rightarrow>
          (case param_uuid x ''runId'' r of
             Some i \<Rightarrow> map_option bw_project_id (find_bv_run i (sv_db s))
           | None \<Rightarrow>
               (case param_uuid x ''comparisonId'' r of
                  Some i \<Rightarrow> comparison_project_id i (sv_db s)
                | None \<Rightarrow> named_project x r s)))"

definition session_project_id :: "uuid \<Rightarrow> 'h server \<Rightarrow> uuid option" where
  "session_project_id i s = map_option bs_project_id (find_browser_session i (bv_browsers (sv_db s)))"

definition browser_project :: "externals \<Rightarrow> request \<Rightarrow> 'h server \<Rightarrow> uuid option" where
  "browser_project x r s =
     (case param_uuid x ''sessionId'' r of
        Some i \<Rightarrow> session_project_id i s
      | None \<Rightarrow>
          if requires_approval (rq_method r) \<and> rq_method r \<noteq> ''browser.session.start'' then None
          else case param_uuid x ''tabId'' r of
            Some t \<Rightarrow> Option.bind (find_tab t (bv_browsers (sv_db s)))
                (\<lambda>tab. session_project_id (bt_session_id tab) s)
          | None \<Rightarrow> named_project x r s)"

definition permission_project_id :: "externals \<Rightarrow> config \<Rightarrow> request \<Rightarrow> 'h server \<Rightarrow> uuid option" where
  "permission_project_id x cf r s =
     (case workspace_project cf r s of
        Some p \<Rightarrow> Some p
      | None \<Rightarrow>
          if starts_with ''devServer.'' (rq_method r) then dev_server_project x r s
          else if starts_with ''browser.verification.'' (rq_method r) then verification_project x r s
          else if starts_with ''browser.'' (rq_method r) then browser_project x r s
          else named_project x r s)"

definition missing_owner :: "request \<Rightarrow> uuid option \<Rightarrow> bool" where
  "missing_owner r project \<longleftrightarrow> project = None
     \<and> (rq_method r \<in> {''devServer.start'', ''devServer.stop'', ''devServer.restart'', ''devServer.autoStart.set''}
        \<or> (starts_with ''browser.'' (rq_method r)
           \<and> rq_method r \<notin> {''browser.startService'', ''browser.stopService'', ''browser.call''}
           \<and> requires_approval (rq_method r)))"

subsection \<open>The gates\<close>

definition ungated :: "string \<Rightarrow> bool" where
  "ungated m \<longleftrightarrow> m \<in> {''approval.list'', ''approval.decide'', ''permission.rules.list'',
     ''permission.rules.create'', ''permission.rules.delete'', ''secrets.scan''}"

definition prompt_findings :: "externals \<Rightarrow> request \<Rightarrow> secret_finding list" where
  "prompt_findings x r =
     (if rq_method r = ''turn.send''
      then (case param_str ''prompt'' r of None \<Rightarrow> [] | Some t \<Rightarrow> scan_text x t) else [])"

definition secrets_refusal :: "externals \<Rightarrow> request \<Rightarrow> response" where
  "secrets_refusal x r =
     failed (rq_id r) (with_suggested_fix
       ''Remove API keys, tokens, passwords, and private keys from the prompt before sending.''
       (core_error_new x CodePermissionDenied SourceRpc
         ''Retcon blocked this turn because the prompt may contain secrets.''
         (''secret scan blocked turn.send: '' @ scan_summary (prompt_findings x r))))"

definition owner_refusal :: "externals \<Rightarrow> request \<Rightarrow> response" where
  "owner_refusal x r =
     not_found x (rq_id r) ''The requested protected resource was not found.'' ''permission owner not found''"

definition permission_refusal ::
    "externals \<Rightarrow> request \<Rightarrow> string \<Rightarrow> string \<Rightarrow> uuid option \<Rightarrow> response" where
  "permission_refusal x r user technical approval =
     (let e = with_retryable True (with_suggested_fix
          ''Approve this action in the Retcon approval center, then retry the request with approvalId.''
          (core_error_new x CodePermissionDenied SourceRpc user technical))
      in failed (rq_id r)
           (case approval of
              None \<Rightarrow> e
            | Some a \<Rightarrow> with_diagnostic x (JObj [(''approvalId'', json_uuid x a)]) e))"

definition checked_by_engine ::
    "externals \<Rightarrow> config \<Rightarrow> call \<Rightarrow> request \<Rightarrow> 'h server \<Rightarrow> permission_check \<times> db" where
  "checked_by_engine x cf cl r s =
     check_rpc x (cf_fault cf) (cf_bypass cf) (cl_now cl) (cl_fresh cl 0) (rq_method r) (rq_params r)
       (permission_project_id x cf r s) (base s)"

text \<open>The two blocks of \<open>dispatch\<close> before the routing: a refusal, or the state to go on from.\<close>

definition gate ::
    "externals \<Rightarrow> config \<Rightarrow> call \<Rightarrow> request \<Rightarrow> 'h server \<Rightarrow> response option \<times> 'h server" where
  "gate x cf cl r s =
     (if \<not> scan_is_clean (prompt_findings x r) then (Some (secrets_refusal x r), s)
      else if ungated (rq_method r) then (None, s)
      else if missing_owner r (permission_project_id x cf r s) then (Some (owner_refusal x r), s)
      else let (check, d) = checked_by_engine x cf cl r s;
               s' = emit_audit (later 1 cl) (pc_audit check) (with_base d s)
           in case pc_permission check of
                PermAllowed \<Rightarrow> (None, s')
              | PermDenied user technical approval \<Rightarrow>
                  (Some (permission_refusal x r user technical approval), s'))"

subsection \<open>Answers given here\<close>

definition event_json :: "externals \<Rightarrow> serde \<Rightarrow> event_envelope \<Rightarrow> json" where
  "event_json x sd e =
     JObj [(''category'', JStr (event_category_str (ev_category e))), (''id'', json_uuid x (ev_id e)),
           (''kind'', JStr (ev_kind e)), (''payload'', ev_payload e),
           (''sequence'', json_nat (ev_sequence e)), (''timestamp'', JStr (sd_time_text sd (ev_timestamp e)))]"

definition job_json :: "externals \<Rightarrow> serde \<Rightarrow> job_snapshot \<Rightarrow> json" where
  "job_json x sd j =
     JObj [(''attempts'', json_nat (js_attempts j)),
           (''child_process_ids'', JArr (map json_nat (js_child_process_ids j))),
           (''created_at'', JStr (sd_time_text sd (js_created_at j))),
           (''elapsed_ms'', json_nat (js_elapsed_ms j)),
           (''failure'', json_opt JStr (js_failure j)),
           (''failure_class'', json_opt (\<lambda>c. JStr (failure_class_str c)) (js_failure_class j)),
           (''finished_at'', json_opt (\<lambda>t. JStr (sd_time_text sd t)) (js_finished_at j)),
           (''id'', json_uuid x (js_id j)), (''max_attempts'', json_nat (js_max_attempts j)),
           (''name'', JStr (js_name j)), (''owner'', JStr (js_owner j)),
           (''started_at'', json_opt (\<lambda>t. JStr (sd_time_text sd t)) (js_started_at j)),
           (''status'', JStr (job_status_str (js_status j))), (''timeout_ms'', json_nat (js_timeout_ms j))]"

definition health :: "call \<Rightarrow> 'h server \<Rightarrow> json" where
  "health cl s =
     (let ok = sv_schema_version s \<noteq> None
      in JObj [(''recovery'', sv_recovery s), (''status'', JStr (if ok then ''healthy'' else ''degraded'')),
               (''storage'', JObj [(''schema_version'', json_opt json_nat (sv_schema_version s)),
                  (''status'', JStr (if ok then ''healthy'' else ''unavailable''))]),
               (''uptime_ms'', json_nat (cl_uptime_ms cl))])"

definition CAPABILITIES :: "string list" where
  "CAPABILITIES = [''acceptance_gates'', ''approval_engine'', ''checkpoints'', ''durable_browser'',
     ''durable_browser_verification'', ''durable_dev_servers'', ''durable_storage'', ''durable_verification'',
     ''event_replay'', ''filesystem'', ''ide_integration'', ''job_supervisor'', ''layout_persistence'',
     ''lifecycle'', ''local_diagnostics'', ''provider_framework'', ''session_engine'', ''storage_recovery'',
     ''structured_errors'', ''task_planning'']"

definition capabilities :: json where
  "capabilities = JObj (map (\<lambda>k. (k, JBool True)) CAPABILITIES)"

definition job_request ::
    "externals \<Rightarrow> serde \<Rightarrow> call \<Rightarrow> request \<Rightarrow> 'h server \<Rightarrow> response \<times> 'h server" where
  "job_request x sd cl r s =
     (case param_str ''id'' r of
        None \<Rightarrow> (failed (rq_id r) (invalid_request x ''missing job id''), s)
      | Some raw \<Rightarrow>
          (case uuid_parse_ok x raw of
             None \<Rightarrow> (failed (rq_id r) (invalid_request x ''invalid job id''), s)
           | Some i \<Rightarrow>
               if rq_method r = ''jobs.get''
               then (RespOk (rq_id r) (JObj [(''job'',
                       json_opt (job_json x sd) (get_job (cl_now cl) i (sv_jobs s)))]), s)
               else let (ok, jobs) = (if rq_method r = ''jobs.cancel'' then cancel_job i (sv_jobs s)
                                      else force_stop (cl_now cl) i (sv_jobs s))
                    in (RespOk (rq_id r) (JObj [(''accepted'', JBool ok)]), s\<lparr>sv_jobs := jobs\<rparr>)))"

definition builtin ::
    "externals \<Rightarrow> serde \<Rightarrow> config \<Rightarrow> 'h handlers \<Rightarrow> call \<Rightarrow> request \<Rightarrow> 'h server
      \<Rightarrow> (response \<times> 'h server) option" where
  "builtin x sd cf h cl r s =
     (let m = rq_method r; i = rq_id r
      in if m = ''core.health'' then Some (RespOk i (health cl s), s)
         else if m = ''core.version''
         then Some (RespOk i (JObj [(''protocolVersion'', json_nat 1), (''version'', JStr (cf_version cf))]), s)
         else if m = ''core.capabilities'' then Some (RespOk i capabilities, s)
         else if m = ''core.diagnostics'' then Some (RespOk i (hn_diagnostics h cl s), s)
         else if m = ''core.shutdown''
         then Some (RespOk i (JObj [(''accepted'', JBool True)]), s\<lparr>sv_shutdown := True\<rparr>)
         else if m = ''events.replay''
         then Some (RespOk i (JObj
           [(''events'', JArr (map (event_json x sd)
               (replay (sv_bus s) (param_u64 ''afterSequence'' 0 r) (param_u64 ''limit'' 100 r)))),
            (''latestSequence'', json_nat (latest_sequence (sv_bus s)))]), s)
         else if m = ''events.emit''
         then (let (e, b) = emit_event (cl_now cl) (cl_fresh cl 0)
                 (case param_str ''kind'' r of Some k \<Rightarrow> k | None \<Rightarrow> ''system.test'')
                 (case json_get ''payload'' (rq_params r) of Some v \<Rightarrow> v | None \<Rightarrow> JObj []) (sv_bus s)
               in Some (RespOk i (event_json x sd e), s\<lparr>sv_bus := b\<rparr>))
         else if m = ''jobs.list''
         then (let (js, jobs) = list_jobs (cl_now cl) (param_u64 ''offset'' 0 r) (param_u64 ''limit'' 100 r)
                 (sv_jobs s)
               in Some (RespOk i (JObj [(''jobs'', JArr (map (job_json x sd) js))]), s\<lparr>sv_jobs := jobs\<rparr>))
         else if m \<in> {''jobs.get'', ''jobs.cancel'', ''jobs.forceStop''} then Some (job_request x sd cl r s)
         else None)"

definition HANDLED :: "string list" where
  "HANDLED = [''project'', ''provider'', ''session'', ''turn'', ''terminal'', ''git'', ''agent'', ''browser'',
     ''storage'', ''file'', ''checkpoint'', ''task'', ''verification'', ''devServer'', ''diagnostics'', ''ide'']"

definition namespace :: "string \<Rightarrow> string" where
  "namespace m = hd (split_on (CHR ''.'') m)"

definition route ::
    "externals \<Rightarrow> serde \<Rightarrow> config \<Rightarrow> 'h handlers \<Rightarrow> call \<Rightarrow> request \<Rightarrow> 'h server
      \<Rightarrow> response \<times> 'h server" where
  "route x sd cf h cl r s =
     (case builtin x sd cf h cl r s of
        Some a \<Rightarrow> a
      | None \<Rightarrow>
          let n = namespace (rq_method r)
          in if n \<in> set HANDLED then hn_handle h n cl r s
             else if n = ''approval'' \<or> n = ''permission'' then permissions_handle x cf cl r s
             else if n = ''secrets'' then (secrets_handle x r, s)
             else (not_found x (rq_id r) ''The requested core operation is not available.''
                     (''unknown RPC method: '' @ rq_method r), s))"

text \<open>The gate takes at most two fresh identifiers, an approval's and its event's.\<close>

definition dispatch ::
    "externals \<Rightarrow> serde \<Rightarrow> config \<Rightarrow> 'h handlers \<Rightarrow> call \<Rightarrow> request \<Rightarrow> 'h server
      \<Rightarrow> response \<times> 'h server" where
  "dispatch x sd cf h cl r s =
     (case gate x cf cl r s of
        (Some refusal, s') \<Rightarrow> (refusal, s')
      | (None, s') \<Rightarrow> route x sd cf h (later 2 cl) r s')"

end
