(* ===== verification/Connection.thy ===== *)
theory Connection
  imports Server
begin

text \<open>
  \<open>serve_connection\<close> of \<open>crates/retcon-core/src/server.rs\<close> as a state machine. Its
  inputs are what the runtime decides: bytes arrive, the peer closes its side, the read branch of
  \<open>select!\<close> is polled, an event is received, a write fails, the rest of the core does
  something. While a request is dispatched the connection reads nothing.
\<close>

datatype phase = AwaitAuth | AwaitHello | Serving | Ended "core_error option"

record conn =
  cn_phase :: phase
  cn_reading :: string
  cn_pipe :: pipe
  cn_written :: "json list"
  cn_cancellable :: "nat list"

datatype broadcast = Delivered event_envelope | Lagged nat | BusClosed

datatype 'h conn_input =
    Arrives string
  | Closes
  | ReadFails string
  | Polls call "string option"
  | Receives broadcast "string option"
  | Meanwhile "'h server \<Rightarrow> 'h server"

definition accepted :: conn where
  "accepted = \<lparr>cn_phase = AwaitAuth, cn_reading = [], cn_pipe = \<lparr>pi_available = [], pi_closed = False\<rparr>,
     cn_written = [], cn_cancellable = []\<rparr>"

subsection \<open>Responses on the wire\<close>

fun error_source_str :: "error_source \<Rightarrow> string" where
  "error_source_str SourceLifecycle = ''lifecycle''"
| "error_source_str SourceRpc = ''rpc''"
| "error_source_str SourceStorage = ''storage''"
| "error_source_str SourceSystem = ''system''"

definition core_error_json :: "externals \<Rightarrow> uuid \<Rightarrow> core_error \<Rightarrow> json" where
  "core_error_json x i e =
     JObj ([(''code'', JStr (error_code_str (ce_code e)))]
       @ (case ce_diagnostic e of None \<Rightarrow> [] | Some d \<Rightarrow> [(''diagnostic'', d)])
       @ [(''id'', json_uuid x i), (''retryable'', JBool (ce_retryable e)),
          (''source'', JStr (error_source_str (ce_source e))),
          (''suggested_fix'', json_opt JStr (ce_suggested_fix e)),
          (''technical_message'', JStr (ce_technical_message e)),
          (''user_message'', JStr (ce_user_message e))])"

fun response_json :: "externals \<Rightarrow> uuid \<Rightarrow> response \<Rightarrow> json" where
  "response_json x fresh (RespOk i v) = JObj [(''id'', json_nat i), (''result'', v)]"
| "response_json x fresh (RespError i e) = JObj [(''error'', core_error_json x fresh e), (''id'', json_nat i)]"

text \<open>\<open>write_json_value\<close>: the bytes of a message.\<close>

definition encode_message :: "externals \<Rightarrow> json \<Rightarrow> string" where
  "encode_message x v = json_text x v @ [newline]"

definition ended :: "core_error option \<Rightarrow> conn \<Rightarrow> conn" where
  "ended e c = c\<lparr>cn_phase := Ended e\<rparr>"

definition send :: "externals \<Rightarrow> string option \<Rightarrow> json \<Rightarrow> conn \<Rightarrow> conn" where
  "send x fault v c =
     (case fault of
        None \<Rightarrow> c\<lparr>cn_written := cn_written c @ [v]\<rparr>
      | Some cause \<Rightarrow> ended (Some (core_error_io x ''write RPC response'' cause)) c)"

subsection \<open>A line\<close>

definition authenticate :: "externals \<Rightarrow> serde \<Rightarrow> config \<Rightarrow> string \<Rightarrow> conn \<Rightarrow> conn" where
  "authenticate x sd cf line c =
     (case sd_parse sd line of
        Inl e \<Rightarrow> ended (Some (invalid_request x ''The authentication message is malformed.'')) c
      | Inr v \<Rightarrow>
          (case decode_auth v of
             None \<Rightarrow> ended (Some (invalid_request x ''The authentication message is malformed.'')) c
           | Some token \<Rightarrow>
               if token \<noteq> cf_token cf
               then ended (Some (core_error_new x CodeAuthenticationFailed SourceRpc
                 ''Retcon could not authenticate this local client.''
                 ''RPC authentication token mismatch'')) c
               else c\<lparr>cn_phase := AwaitHello\<rparr>))"

definition greet ::
    "externals \<Rightarrow> serde \<Rightarrow> config \<Rightarrow> string option \<Rightarrow> string \<Rightarrow> conn \<Rightarrow> conn" where
  "greet x sd cf fault line c =
     (case map_outcome decode_hello (sd_parse sd line) of
        Inr (Some hello) \<Rightarrow>
          if ch_protocol_version hello \<noteq> VERSION
          then ended (Some (invalid_request x
            (''unsupported protocol version '' @ decimal (ch_protocol_version hello)))) c
          else send x fault (server_hello (cf_version cf)
            (negotiate_features (ch_features hello) SERVER_FEATURES)) (c\<lparr>cn_phase := Serving\<rparr>)
      | _ \<Rightarrow> ended (Some (invalid_request x ''The client hello message is malformed.'')) c)"

definition serve_line ::
    "externals \<Rightarrow> serde \<Rightarrow> config \<Rightarrow> 'h handlers \<Rightarrow> call \<Rightarrow> string option \<Rightarrow> string \<Rightarrow> conn
      \<Rightarrow> 'h server \<Rightarrow> conn \<times> 'h server" where
  "serve_line x sd cf h cl fault line c s =
     (case parse_message sd line of
        Inl e \<Rightarrow> (send x fault (response_json x (cl_error_id cl) (RespError 0 (invalid_request x e))) c, s)
      | Inr MsgPing \<Rightarrow> (send x fault (JObj [(''kind'', JStr ''pong'')]) c, s)
      | Inr (MsgCancel i) \<Rightarrow> (c\<lparr>cn_cancellable := removeAll i (cn_cancellable c)\<rparr>, s)
      | Inr (MsgRequest r) \<Rightarrow>
          let c1 = c\<lparr>cn_cancellable := rq_id r # cn_cancellable c\<rparr>;
              (response, s') = dispatch x sd cf h cl r s
          in (send x fault (response_json x (cl_error_id cl) response)
                (c1\<lparr>cn_cancellable := removeAll (rq_id r) (cn_cancellable c1)\<rparr>), s'))"

definition on_line ::
    "externals \<Rightarrow> serde \<Rightarrow> config \<Rightarrow> 'h handlers \<Rightarrow> call \<Rightarrow> string option
      \<Rightarrow> (core_error, string option) outcome \<Rightarrow> conn \<Rightarrow> 'h server \<Rightarrow> conn \<times> 'h server" where
  "on_line x sd cf h cl fault r c s =
     (case r of
        Inl e \<Rightarrow> (ended (Some e) c, s)
      | Inr None \<Rightarrow>
          (case cn_phase c of
             AwaitAuth \<Rightarrow> (ended (Some (invalid_request x ''Authentication is required.'')) c, s)
           | AwaitHello \<Rightarrow> (ended (Some (invalid_request x ''client.hello is required.'')) c, s)
           | _ \<Rightarrow> (ended None c, s))
      | Inr (Some line) \<Rightarrow>
          (case cn_phase c of
             AwaitAuth \<Rightarrow> (authenticate x sd cf line c, s)
           | AwaitHello \<Rightarrow> (greet x sd cf fault line c, s)
           | _ \<Rightarrow> serve_line x sd cf h cl fault line c s))"

subsection \<open>The steps\<close>

text \<open>
  The read branch of \<open>select!\<close>: the future goes on from its buffer. A received event completes
  the other branch and drops the future, with its buffer; the next round starts a new one.
\<close>

definition poll_read ::
    "externals \<Rightarrow> serde \<Rightarrow> config \<Rightarrow> 'h handlers \<Rightarrow> call \<Rightarrow> string option \<Rightarrow> conn \<Rightarrow> 'h server
      \<Rightarrow> conn \<times> 'h server" where
  "poll_read x sd cf h cl fault c s =
     (case poll_line x sd (cn_reading c) (cn_pipe c) of
        (Pending b, p) \<Rightarrow> (c\<lparr>cn_reading := b, cn_pipe := p\<rparr>, s)
      | (Ready r, p) \<Rightarrow> on_line x sd cf h cl fault r (c\<lparr>cn_reading := [], cn_pipe := p\<rparr>) s)"

definition receive :: "externals \<Rightarrow> serde \<Rightarrow> string option \<Rightarrow> broadcast \<Rightarrow> conn \<Rightarrow> conn" where
  "receive x sd fault b c =
     (if cn_phase c \<noteq> Serving then c
      else let c1 = c\<lparr>cn_reading := []\<rparr>
           in case b of
                Delivered e \<Rightarrow> send x fault (JObj [(''event'', event_json x sd e)]) c1
              | Lagged n \<Rightarrow> send x fault (JObj [(''event'', JObj [(''kind'', JStr ''system.eventsLagged''),
                    (''payload'', JObj [(''skipped'', json_nat n)])])]) c1
              | BusClosed \<Rightarrow> ended None c1)"

fun is_over :: "phase \<Rightarrow> bool" where
  "is_over (Ended e) = True"
| "is_over p = False"

definition conn_step ::
    "externals \<Rightarrow> serde \<Rightarrow> config \<Rightarrow> 'h handlers \<Rightarrow> 'h conn_input \<Rightarrow> conn \<times> 'h server
      \<Rightarrow> conn \<times> 'h server" where
  "conn_step x sd cf h i cs =
     (case cs of (c, s) \<Rightarrow>
        (case i of
           Meanwhile f \<Rightarrow> (c, f s)
         | Arrives b \<Rightarrow>
             (if pi_closed (cn_pipe c) then (c, s)
              else (c\<lparr>cn_pipe := (cn_pipe c)\<lparr>pi_available := pi_available (cn_pipe c) @ b\<rparr>\<rparr>, s))
         | Closes \<Rightarrow> (c\<lparr>cn_pipe := (cn_pipe c)\<lparr>pi_closed := True\<rparr>\<rparr>, s)
         | ReadFails cause \<Rightarrow>
             (if is_over (cn_phase c) then (c, s)
              else (ended (Some (core_error_io x ''read RPC frame'' cause)) c, s))
         | Polls cl fault \<Rightarrow>
             (if is_over (cn_phase c) then (c, s) else poll_read x sd cf h cl fault c s)
         | Receives b fault \<Rightarrow> (receive x sd fault b c, s)))"

end
