(* ===== verification/ConnectionFacts.thy ===== *)
theory ConnectionFacts
  imports Connection
begin

text \<open>
  What holds of connections: nobody is served before the token was presented, messages arrive whole
  and are answered in order as long as no event interrupts a reader, and what an event does to a
  message that has only arrived in part.
\<close>

subsection \<open>What the peer and the core did\<close>

fun arrived :: "'h conn_input list \<Rightarrow> string" where
  "arrived [] = []"
| "arrived (Closes # is) = []"
| "arrived (Arrives b # is) = b @ arrived is"
| "arrived (_ # is) = arrived is"

fun others :: "'h conn_input list \<Rightarrow> 'h server \<Rightarrow> 'h server" where
  "others [] s = s"
| "others (Meanwhile f # is) s = others is (f s)"
| "others (_ # is) s = others is s"

definition first_line :: "string \<Rightarrow> string" where
  "first_line b = takeWhile (\<lambda>c. c \<noteq> newline) b @ (if newline \<in> set b then [newline] else [])"

definition presents_token :: "externals \<Rightarrow> serde \<Rightarrow> config \<Rightarrow> string \<Rightarrow> bool" where
  "presents_token x sd cf b \<longleftrightarrow>
     (case capped_line x sd (first_line b) of
        Inr (Some l) \<Rightarrow> (case sd_parse sd l of Inr v \<Rightarrow> decode_auth v = Some (cf_token cf) | Inl e \<Rightarrow> False)
      | _ \<Rightarrow> False)"

lemma first_line_append: "newline \<in> set a \<Longrightarrow> first_line (a @ b) = first_line a"
  by (auto simp: first_line_def takeWhile_append)

lemma first_line_split:
  assumes "newline \<notin> set r" "dropWhile (\<lambda>c. c \<noteq> newline) v = c # cs"
  shows "r @ takeWhile (\<lambda>c. c \<noteq> newline) v @ [c] = first_line (r @ v @ w)" "c = newline"
proof -
  have c: "c = newline" using assms(2) by (metis (full_types) dropWhile_eq_Cons_conv)
  have "newline \<in> set v" using assms(2) c by (metis (full_types) list.set_intros(1) set_dropWhileD)
  then show "r @ takeWhile (\<lambda>c. c \<noteq> newline) v @ [c] = first_line (r @ v @ w)"
    using assms(1) c by (auto simp: first_line_def takeWhile_append takeWhile_eq_all_conv)
  show "c = newline" by (rule c)
qed

lemma first_line_whole: "newline \<notin> set a \<Longrightarrow> first_line a = a"
  by (auto simp: first_line_def takeWhile_eq_all_conv)

subsection \<open>After the end\<close>

lemma ended_phase [simp]:
  "cn_phase (ended e c) = Ended e" "cn_written (ended e c) = cn_written c"
  "cn_cancellable (ended e c) = cn_cancellable c" "cn_reading (ended e c) = cn_reading c"
  "cn_pipe (ended e c) = cn_pipe c"
  by (simp_all add: ended_def)

lemma conn_step_simps [simp]:
  "conn_step x sd cf h (Meanwhile f) (c, s) = (c, f s)"
  "conn_step x sd cf h (Arrives b) (c, s) =
     (if pi_closed (cn_pipe c) then (c, s)
      else (c\<lparr>cn_pipe := (cn_pipe c)\<lparr>pi_available := pi_available (cn_pipe c) @ b\<rparr>\<rparr>, s))"
  "conn_step x sd cf h Closes (c, s) = (c\<lparr>cn_pipe := (cn_pipe c)\<lparr>pi_closed := True\<rparr>\<rparr>, s)"
  "conn_step x sd cf h (ReadFails cause) (c, s) =
     (if is_over (cn_phase c) then (c, s)
      else (ended (Some (core_error_io x ''read RPC frame'' cause)) c, s))"
  "conn_step x sd cf h (Polls cl fault) (c, s) =
     (if is_over (cn_phase c) then (c, s) else poll_read x sd cf h cl fault c s)"
  "conn_step x sd cf h (Receives e fault) (c, s) = (receive x sd fault e c, s)"
  by (simp_all add: conn_step_def)

lemma over_stays:
  assumes "is_over (cn_phase c)"
  shows "cn_written (fst (run (conn_step x sd cf h) ops (c, s))) = cn_written c
     \<and> snd (run (conn_step x sd cf h) ops (c, s)) = others ops s"
  using assms
proof (induction ops arbitrary: c s)
  case (Cons i ops)
  obtain p where p: "cn_phase c = Ended p" using Cons.prems by (cases "cn_phase c") auto
  show ?case
    using Cons.IH [of "fst (conn_step x sd cf h i (c, s))" "snd (conn_step x sd cf h i (c, s))"] p
    by (cases i) (simp_all add: receive_def split: if_splits)
qed simp

lemma over_after:
  "is_over (cn_phase (fst cs)) \<Longrightarrow> cn_written (fst (run (conn_step x sd cf h) ops cs)) = cn_written (fst cs)
     \<and> snd (run (conn_step x sd cf h) ops cs) = others ops (snd cs)"
  using over_stays [of "fst cs" x sd cf h ops "snd cs"] by simp

lemma refuses_or_token:
  assumes "cn_phase c = AwaitAuth" "on_line x sd cf h cl fault (capped_line x sd (first_line b)) c s = (c', s')"
  shows "s' = s \<and> cn_written c' = cn_written c \<and> (is_over (cn_phase c') \<or> presents_token x sd cf b)"
  using assms
  by (auto simp: on_line_def authenticate_def presents_token_def split: sum.splits option.splits if_splits)

lemma unauthenticated:
  assumes "cn_phase c = AwaitAuth" "newline \<notin> set (cn_reading c)" "cn_written c = []"
    and "\<not> presents_token x sd cf (cn_reading c @ pi_available (cn_pipe c)
           @ (if pi_closed (cn_pipe c) then [] else arrived ops))"
  shows "cn_written (fst (run (conn_step x sd cf h) ops (c, s))) = []
     \<and> snd (run (conn_step x sd cf h) ops (c, s)) = others ops s"
  using assms
proof (induction ops arbitrary: c s)
  case (Cons i ops)
  show ?case
  proof (cases i)
    case (Polls cl fault)
    let ?a = "cn_reading c @ pi_available (cn_pipe c)"
    show ?thesis
    proof (cases "dropWhile (\<lambda>c. c \<noteq> newline) (pi_available (cn_pipe c))")
      case Nil
      then have n: "newline \<notin> set ?a"
        using Cons.prems(2) by (metis (full_types) UnE dropWhile_eq_Nil_conv set_append)
      show ?thesis
      proof (cases "pi_closed (cn_pipe c)")
        case False
        let ?c = "c\<lparr>cn_reading := ?a, cn_pipe := (cn_pipe c)\<lparr>pi_available := []\<rparr>\<rparr>"
        have step: "conn_step x sd cf h i (c, s) = (?c, s)"
          using Cons.prems(1) False
          by (simp add: Polls poll_read_def poll_nothing [OF Nil])
        have "\<not> presents_token x sd cf (cn_reading ?c @ pi_available (cn_pipe ?c)
            @ (if pi_closed (cn_pipe ?c) then [] else arrived ops))"
          using Cons.prems(4) False by (simp add: Polls)
        from Cons.IH [OF _ _ _ this, of s] show ?thesis
          using n Cons.prems(1,3) unfolding run_simps step by (simp add: Polls)
      next
        case True
        let ?c = "c\<lparr>cn_reading := [], cn_pipe := (cn_pipe c)\<lparr>pi_available := []\<rparr>\<rparr>"
        have "\<exists>r. poll_line x sd (cn_reading c) (cn_pipe c) = (Ready r, (cn_pipe c)\<lparr>pi_available := []\<rparr>)
            \<and> (r = Inr None \<or> r = capped_line x sd (first_line ?a))"
          using n True by (simp add: poll_nothing [OF Nil] first_line_whole)
        then obtain r where r: "conn_step x sd cf h i (c, s) = on_line x sd cf h cl fault r ?c s"
          and "r = Inr None \<or> r = capped_line x sd (first_line ?a)"
          using Cons.prems(1) by (auto simp: Polls poll_read_def)
        then have "snd (conn_step x sd cf h i (c, s)) = s
            \<and> cn_written (fst (conn_step x sd cf h i (c, s))) = []
            \<and> is_over (cn_phase (fst (conn_step x sd cf h i (c, s))))"
          using refuses_or_token [of ?c x sd cf h cl fault ?a s] Cons.prems True
          by (cases "on_line x sd cf h cl fault r ?c s") (auto simp: on_line_def)
        then show ?thesis
          using over_after [of "conn_step x sd cf h i (c, s)" x sd cf h ops] by (simp add: Polls)
      qed
    next
      case (Cons d ds)
      let ?c = "c\<lparr>cn_reading := [], cn_pipe := (cn_pipe c)\<lparr>pi_available := ds\<rparr>\<rparr>"
      let ?w = "if pi_closed (cn_pipe c) then [] else arrived (i # ops)"
      have "conn_step x sd cf h i (c, s)
          = on_line x sd cf h cl fault (capped_line x sd (first_line (?a @ ?w))) ?c s"
        using first_line_split(1) [OF Cons.prems(2) Cons, of ?w] Cons.prems(1)
        by (simp add: Polls poll_read_def poll_line_def Cons)
      then have "snd (conn_step x sd cf h i (c, s)) = s
          \<and> cn_written (fst (conn_step x sd cf h i (c, s))) = []
          \<and> is_over (cn_phase (fst (conn_step x sd cf h i (c, s))))"
        using refuses_or_token [of ?c x sd cf h cl fault "?a @ ?w" s] Cons.prems
        by (cases "on_line x sd cf h cl fault (capped_line x sd (first_line (?a @ ?w))) ?c s") auto
      then show ?thesis
        using over_after [of "conn_step x sd cf h i (c, s)" x sd cf h ops] by (simp add: Polls)
    qed
  next
    case (ReadFails cause)
    then show ?thesis
      using over_stays [of "ended (Some (core_error_io x ''read RPC frame'' cause)) c" x sd cf h ops s] Cons.prems
      by simp
  next
    case (Arrives b)
    let ?c = "c\<lparr>cn_pipe := (cn_pipe c)\<lparr>pi_available := pi_available (cn_pipe c) @ b\<rparr>\<rparr>"
    show ?thesis
    proof (cases "pi_closed (cn_pipe c)")
      case True
      then show ?thesis using Cons.IH [of c s] Cons.prems by (simp add: Arrives)
    next
      case False
      then show ?thesis using Cons.IH [of ?c s] Cons.prems by (simp add: Arrives)
    qed
  next
    case Closes
    then show ?thesis
      using Cons.IH [of "c\<lparr>cn_pipe := (cn_pipe c)\<lparr>pi_closed := True\<rparr>\<rparr>" s] Cons.prems
      by (simp add: Closes split: if_splits)
  next
    case (Receives b fault)
    then show ?thesis
      using Cons.IH [of c s] Cons.prems by (cases "pi_closed (cn_pipe c)") (simp_all add: Receives receive_def)
  next
    case (Meanwhile f)
    then show ?thesis
      using Cons.IH [of c "f s"] Cons.prems by (cases "pi_closed (cn_pipe c)") (simp_all add: Meanwhile)
  qed
qed simp

text \<open>C29: Unless the first line that arrives on a connection presents the token, nothing is ever written
  to it, and the core's state changes only by what others do, whatever arrives, in whatever pieces,
  and whatever events happen meanwhile.
\<close>

theorem nobody_is_served_without_the_token:
  "let (c, s') = run (conn_step x sd cf h) ops (accepted, s)
   in presents_token x sd cf (arrived ops) \<or> (cn_written c = [] \<and> s' = others ops s)"
  using unauthenticated [of accepted x sd cf ops h s] by (auto simp: accepted_def split_beta Let_def)

end
