(* ===== verification/ConnectionOrder.thy ===== *)
theory ConnectionOrder
  imports ConnectionFacts
begin

text \<open>
  Messages on a connection: every line is answered once and in order however its bytes arrive, as
  long as no event interrupts a reader; what an event does to a message that has arrived in part;
  what is buffered; what a cancel frame does.
\<close>

subsection \<open>Answers carry the identifier of their request\<close>

lemma parse_uuid_param_id [simp]:
  "parse_uuid_param x i params key = Inl e \<Longrightarrow> response_id e = i"
  by (auto simp: parse_uuid_param_def parse_uuid_def split: option.splits sum.splits)

lemma optional_uuid_param_id [simp]:
  "optional_uuid_param x i params key label = Inl e \<Longrightarrow> response_id e = i"
  by (cases "case json_get key params of None \<Rightarrow> JNull | Some v \<Rightarrow> v")
    (auto simp: optional_uuid_param_def parse_uuid_def split: option.splits sum.splits)

lemma permission_error_id [simp]: "response_id (permission_error x i e) = i"
  by (cases e) (simp_all add: permission_error_def)

lemma approval_decide_id: "response_id (fst (approval_decide_rpc x cf cl r s)) = rq_id r"
  unfolding approval_decide_rpc_def
  by (auto simp: Let_def split: sum.splits option.splits prod.splits)

lemma rules_create_id: "response_id (fst (rules_create_rpc x cl r s)) = rq_id r"
  unfolding rules_create_rpc_def
  by (auto simp: Let_def split: sum.splits option.splits prod.splits)

lemma permissions_handle_id: "response_id (fst (permissions_handle x cf cl r s)) = rq_id r"
  unfolding permissions_handle_def
  by (auto simp: Let_def approval_decide_id rules_create_id approval_list_rpc_def rules_list_rpc_def
      rules_delete_rpc_def split: sum.splits prod.splits bool.splits)

lemma secrets_handle_id: "response_id (secrets_handle x r) = rq_id r"
  by (auto simp: secrets_handle_def Let_def split: option.splits)

lemma job_request_id: "response_id (fst (job_request x sd cl r s)) = rq_id r"
  by (auto simp: job_request_def Let_def split: option.splits prod.splits)

lemma builtin_id: "builtin x sd cf h cl r s = Some a \<Longrightarrow> response_id (fst a) = rq_id r"
  by (auto simp: builtin_def Let_def job_request_id split: if_splits prod.splits)

definition answers_its_request :: "'h handlers \<Rightarrow> bool" where
  "answers_its_request h \<longleftrightarrow> (\<forall>n cl r s. response_id (fst (hn_handle h n cl r s)) = rq_id r)"

lemma route_id: "answers_its_request h \<Longrightarrow> response_id (fst (route x sd cf h cl r s)) = rq_id r"
  using builtin_id [of x sd cf h cl r s]
  by (auto simp: route_def Let_def answers_its_request_def permissions_handle_id secrets_handle_id
      split: option.splits)

lemma gate_id: "gate x cf cl r s = (Some refusal, s') \<Longrightarrow> response_id refusal = rq_id r"
  by (auto simp: gate_def Let_def secrets_refusal_def owner_refusal_def permission_refusal_def
      split: if_splits prod.splits rpc_permission.splits)

lemma dispatch_id: "answers_its_request h \<Longrightarrow> response_id (fst (dispatch x sd cf h cl r s)) = rq_id r"
  by (auto simp: dispatch_def route_id gate_id split: prod.splits option.splits)

subsection \<open>Lines and their answers\<close>

definition wire :: "string list \<Rightarrow> string" where
  "wire ls = concat (map (\<lambda>l. l @ [newline]) ls)"

lemma wire_simps [simp]: "wire [] = []" "wire (l # ls) = l @ newline # wire ls"
  by (simp_all add: wire_def)

definition reply_id :: "json \<Rightarrow> nat option" where
  "reply_id v = json_get_u64 ''id'' v"

lemma reply_id_simps [simp]:
  "reply_id (response_json x i a) = Some (response_id a)"
  "reply_id (JObj [(''error'', v'), (''id'', json_nat n)]) = Some n"
  "reply_id (JObj [(''kind'', JStr k)]) = None" "reply_id (server_hello v fs) = None"
  by (cases a) (simp_all add: reply_id_def json_get_u64_def server_hello_def json_nat_def)

text \<open>The identifiers of the messages a line is answered with; a pong and the hello have none.\<close>

definition reply_of :: "serde \<Rightarrow> string \<Rightarrow> nat option list" where
  "reply_of sd line =
     (case parse_message sd line of
        Inl e \<Rightarrow> [Some 0]
      | Inr MsgPing \<Rightarrow> [None]
      | Inr (MsgCancel i) \<Rightarrow> []
      | Inr (MsgRequest r) \<Rightarrow> [Some (rq_id r)])"

fun replies :: "serde \<Rightarrow> phase \<Rightarrow> string list \<Rightarrow> nat option list" where
  "replies sd p [] = []"
| "replies sd AwaitAuth (l # ls) = replies sd AwaitHello ls"
| "replies sd AwaitHello (l # ls) = None # replies sd Serving ls"
| "replies sd Serving (l # ls) = reply_of sd l @ replies sd Serving ls"
| "replies sd (Ended e) (l # ls) = []"

text \<open>The client does its part: token, then a hello of the right version.\<close>

fun well_met :: "serde \<Rightarrow> config \<Rightarrow> phase \<Rightarrow> string list \<Rightarrow> bool" where
  "well_met sd cf AwaitAuth (l # ls) \<longleftrightarrow>
     (case sd_parse sd l of Inr v \<Rightarrow> decode_auth v = Some (cf_token cf) | Inl e \<Rightarrow> False)
     \<and> well_met sd cf AwaitHello ls"
| "well_met sd cf AwaitHello (l # ls) \<longleftrightarrow>
     (case map_outcome decode_hello (sd_parse sd l) of
        Inr (Some g) \<Rightarrow> ch_protocol_version g = VERSION | _ \<Rightarrow> False)"
| "well_met sd cf (Ended e) ls \<longleftrightarrow> False"
| "well_met sd cf p ls \<longleftrightarrow> True"

lemma wire_split:
  assumes "newline \<notin> set a" "a @ newline # r = wire ls" "list_all sendable ls"
  obtains ls' where "ls = a # ls'" "r = wire ls'"
proof (cases ls)
  case Nil
  then show ?thesis using assms(2) by simp
next
  case (Cons l ls')
  have "newline \<notin> set l" using assms(3) by (simp add: Cons sendable_def)
  then have "a = l"
    using takeWhile_line(1) [of a r] takeWhile_line(1) [of l "wire ls'"] assms(1,2) by (simp add: Cons)
  then show ?thesis using that [of ls'] assms(2) by (simp add: Cons)
qed

lemma line_answered:
  assumes "answers_its_request h" "well_met sd cf (cn_phase c) (l # ls)"
    and "on_line x sd cf h cl None (Inr (Some l)) c s = (c', s')"
  shows "well_met sd cf (cn_phase c') ls
     \<and> map reply_id (cn_written c') @ replies sd (cn_phase c') ls
        = map reply_id (cn_written c) @ replies sd (cn_phase c) (l # ls)
     \<and> cn_reading c' = cn_reading c \<and> cn_pipe c' = cn_pipe c"
proof (cases "cn_phase c")
  case AwaitAuth
  then show ?thesis using assms
    by (auto simp: on_line_def authenticate_def split: sum.splits option.splits)
next
  case AwaitHello
  then show ?thesis using assms
    by (cases ls) (auto simp: on_line_def greet_def send_def split: sum.splits option.splits)
next
  case Serving
  have w: "well_met sd cf Serving ls" for ls by (cases ls) simp_all
  have d: "dispatch x sd cf h cl r s = (a, t) \<Longrightarrow> response_id a = rq_id r" for r a t
    using dispatch_id [OF assms(1), of x sd cf cl r s] by simp
  show ?thesis
  proof (cases "parse_message sd l")
    case (Inl e)
    then show ?thesis using assms(3) Serving
      by (auto simp: on_line_def serve_line_def send_def reply_of_def w)
  next
    case (Inr m)
    then show ?thesis using assms(3) Serving d
      by (cases m) (auto simp: on_line_def serve_line_def send_def reply_of_def w Let_def split: prod.splits)
  qed
next
  case (Ended e)
  then show ?thesis using assms by simp
qed

text \<open>What is still to come: the lines of which no newline was read.\<close>

definition still :: "serde \<Rightarrow> config \<Rightarrow> string \<Rightarrow> nat option list \<Rightarrow> conn \<Rightarrow> string list \<Rightarrow> bool" where
  "still sd cf rest goal c ls \<longleftrightarrow> list_all sendable ls \<and> well_met sd cf (cn_phase c) ls
     \<and> \<not> pi_closed (cn_pipe c) \<and> newline \<notin> set (cn_reading c)
     \<and> cn_reading c @ pi_available (cn_pipe c) @ rest = wire ls
     \<and> map reply_id (cn_written c) @ replies sd (cn_phase c) ls = goal"

lemma poll_still:
  assumes h: "answers_its_request h" and i: "still sd cf rest goal c ls"
    and step: "conn_step x sd cf h (Polls cl None) (c, s) = (c', s')"
  shows "(still sd cf rest goal c' ls \<and> newline \<notin> set (cn_reading c @ pi_available (cn_pipe c)))
     \<or> (\<exists>l ls'. ls = l # ls' \<and> still sd cf rest goal c' ls')"
proof -
  have o: "\<not> is_over (cn_phase c)" using i by (cases "cn_phase c") (auto simp: still_def)
  note i' = i [unfolded still_def]
  show ?thesis
  proof (cases "newline \<in> set (pi_available (cn_pipe c))")
    case False
    then have "poll_line x sd (cn_reading c) (cn_pipe c)
        = (Pending (cn_reading c @ pi_available (cn_pipe c)), (cn_pipe c)\<lparr>pi_available := []\<rparr>)"
      using poll_part [of "pi_available (cn_pipe c)" "cn_pipe c"] i' by simp
    then have "c' = c\<lparr>cn_reading := cn_reading c @ pi_available (cn_pipe c),
        cn_pipe := (cn_pipe c)\<lparr>pi_available := []\<rparr>\<rparr>"
      using step o by (simp add: poll_read_def)
    then show ?thesis using i' False by (simp add: still_def)
  next
    case True
    then obtain a r where a: "pi_available (cn_pipe c) = a @ newline # r" "newline \<notin> set a"
      by (meson split_list_first)
    then obtain ls' where ls: "ls = (cn_reading c @ a) # ls'" "r @ rest = wire ls'"
      using wire_split [of "cn_reading c @ a" "r @ rest" ls] i' by auto
    let ?c = "c\<lparr>cn_reading := [], cn_pipe := (cn_pipe c)\<lparr>pi_available := r\<rparr>\<rparr>"
    have "sendable (cn_reading c @ a)" using i' ls(1) by simp
    from poll_sendable [OF this, of "cn_pipe c" r x sd] a(1)
    have "poll_line x sd (cn_reading c) (cn_pipe c)
        = (Ready (Inr (Some (cn_reading c @ a))), (cn_pipe c)\<lparr>pi_available := r\<rparr>)" by simp
    then have "on_line x sd cf h cl None (Inr (Some (cn_reading c @ a))) ?c s = (c', s')"
      using step o by (simp add: poll_read_def)
    from line_answered [OF h _ this, of ls'] have "still sd cf rest goal c' ls'"
      using i' ls by (auto simp: still_def)
    then show ?thesis using ls(1) by blast
  qed
qed

text \<open>The inputs that leave the reader alone.\<close>

fun quiet :: "'h conn_input \<Rightarrow> bool" where
  "quiet (Arrives b) = True"
| "quiet (Polls cl fault) = (fault = None)"
| "quiet (Meanwhile f) = True"
| "quiet i = False"

lemma quiet_still:
  assumes "answers_its_request h"
  shows "list_all quiet ops \<Longrightarrow> still sd cf (arrived ops) goal c ls \<Longrightarrow>
     \<exists>ls'. length ls' \<le> length ls
       \<and> still sd cf [] goal (fst (run (conn_step x sd cf h) ops (c, s))) ls'"
proof (induction ops arbitrary: c s ls)
  case Nil
  then show ?case by auto
next
  case (Cons i ops)
  show ?case
  proof (cases i)
    case (Arrives b)
    then show ?thesis
      using Cons.IH [of "c\<lparr>cn_pipe := (cn_pipe c)\<lparr>pi_available := pi_available (cn_pipe c) @ b\<rparr>\<rparr>" ls s] Cons.prems
      by (simp add: still_def)
  next
    case (Polls cl fault)
    obtain c' s' where step: "conn_step x sd cf h (Polls cl None) (c, s) = (c', s')" by fastforce
    have "fault = None" "still sd cf (arrived ops) goal c ls" using Cons.prems Polls by simp_all
    with poll_still [OF assms this(2) step] obtain ls1 where
      "length ls1 \<le> length ls" "still sd cf (arrived ops) goal c' ls1"
      by (metis le_SucI length_Cons order_refl)
    moreover have "list_all quiet ops" using Cons.prems(1) by simp
    ultimately show ?thesis
      using Cons.IH [of c' ls1 s'] step \<open>fault = None\<close> unfolding Polls run_simps
      by (metis (no_types, lifting) le_trans)
  next
    case (Meanwhile f)
    then show ?thesis using Cons.IH [of c ls "f s"] Cons.prems by simp
  qed (use Cons.prems(1) in simp_all)
qed

lemma polls_drain:
  assumes "answers_its_request h"
  shows "still sd cf [] goal c ls \<Longrightarrow> length ls \<le> n \<Longrightarrow>
     map reply_id (cn_written (fst (run (conn_step x sd cf h) (replicate n (Polls cl None)) (c, s)))) = goal"
proof (induction n arbitrary: c s ls)
  case 0
  then show ?case by (simp add: still_def)
next
  case (Suc n)
  obtain c' s' where step: "conn_step x sd cf h (Polls cl None) (c, s) = (c', s')" by fastforce
  have "\<exists>ls'. length ls' \<le> n \<and> still sd cf [] goal c' ls'"
    using poll_still [OF assms Suc.prems(1) step]
  proof (elim disjE conjE exE)
    assume s: "still sd cf [] goal c' ls" "newline \<notin> set (cn_reading c @ pi_available (cn_pipe c))"
    have "cn_reading c @ pi_available (cn_pipe c) = wire ls" using Suc.prems(1) by (simp add: still_def)
    then have "newline \<notin> set (wire ls)" using s(2) by simp
    then have "ls = []" by (cases ls) simp_all
    then show ?thesis using s(1) by (intro exI [of _ "[]"]) simp
  qed (use Suc.prems(2) in auto)
  then show ?case using Suc.IH [of c' _ s'] step by auto
qed

text \<open>C31: A client that authenticates and says hello gets the server's hello and then, for every line it
  sends, exactly the answer to that line, in the order of the lines, under the identifier of the
  request: however the bytes are cut into pieces, whatever the handlers do and whatever happens in
  the core meanwhile, once the reader has been polled often enough after the last piece. Events must
  not come between.
\<close>

theorem every_line_is_answered_in_order:
  assumes "answers_its_request h" "list_all quiet ops"
    and "list_all sendable ls" "well_met sd cf AwaitAuth ls" "arrived ops = wire ls" "length ls \<le> n"
  shows "map reply_id (cn_written (fst (run (conn_step x sd cf h) (ops @ replicate n (Polls cl None)) (accepted, s))))
     = replies sd AwaitAuth ls"
proof -
  have "still sd cf (arrived ops) (replies sd AwaitAuth ls) accepted ls"
    using assms by (simp add: still_def accepted_def)
  from quiet_still [OF assms(1,2) this, of x s] obtain ls' where
    l: "length ls' \<le> length ls" and
    i: "still sd cf [] (replies sd AwaitAuth ls) (fst (run (conn_step x sd cf h) ops (accepted, s))) ls'"
    by blast
  have "length ls' \<le> n" using l assms(6) by simp
  from polls_drain [OF assms(1) i this, of x cl "snd (run (conn_step x sd cf h) ops (accepted, s))"]
  show ?thesis by (simp add: run_def)
qed

text \<open>A client whose two requests arrive in odd pieces, one of them a ping.\<close>

definition sample_serde :: serde where
  "sample_serde = \<lparr>sd_utf8_error = id,
     sd_parse = (\<lambda>l. if l = ''a'' then Inr (JObj [(''auth'', JStr ''t'')])
        else if l = ''h'' then Inr (JObj [(''kind'', JStr ''client.hello''), (''protocolVersion'', json_nat 1),
          (''clientVersion'', JStr ''1''), (''features'', JArr [])])
        else if l = ''p'' then Inr (JObj [(''kind'', JStr ''ping'')])
        else if l = ''qq'' then Inr (JObj [(''id'', json_nat 7), (''method'', JStr ''core.version'')])
        else Inl ''malformed''),
     sd_decode_error = (\<lambda>n v. n), sd_time_text = (\<lambda>t. [])\<rparr>"

definition sample_config :: config where
  "sample_config = \<lparr>cf_fault = no_faults, cf_bypass = False, cf_token = ''t'', cf_version = ''1'',
     cf_canonical = (\<lambda>p. None)\<rparr>"

definition sample_handlers :: "unit handlers" where
  "sample_handlers = \<lparr>hn_handle = (\<lambda>n cl r s. (RespOk (rq_id r) JNull, s)), hn_diagnostics = (\<lambda>cl s. JNull)\<rparr>"

definition sample_call :: call where
  "sample_call = \<lparr>cl_now = 1, cl_uptime_ms = 0, cl_fresh = (\<lambda>k. 0), cl_error_id = 0\<rparr>"

theorem every_line_is_answered_in_order_witness:
  "\<forall>s. map reply_id (cn_written (fst (run (conn_step sample_externals sample_serde sample_config sample_handlers)
      ([Arrives [CHR ''a''], Polls sample_call None, Arrives [newline, CHR ''h'', newline, CHR ''q''],
        Polls sample_call None, Arrives [CHR ''q'', newline, CHR ''p''], Arrives [newline]]
       @ replicate 4 (Polls sample_call None)) (accepted, s)))) = [None, Some 7, None]"
proof
  fix s
  let ?ops = "[Arrives [CHR ''a''], Polls sample_call None, Arrives [newline, CHR ''h'', newline, CHR ''q''],
    Polls sample_call None, Arrives [CHR ''q'', newline, CHR ''p''], Arrives [newline]]"
  let ?ls = "[''a'', ''h'', ''qq'', ''p'']"
  have h: "answers_its_request sample_handlers" by (simp add: answers_its_request_def sample_handlers_def)
  have s: "list_all sendable ?ls" by (simp add: sendable_def MAX_FRAME_BYTES_def continuations_def)
  have w: "well_met sample_serde sample_config AwaitAuth ?ls"
    by (simp add: sample_serde_def sample_config_def decode_auth_def decode_hello_def
        decode_unit_def decode_u32_def json_nat_def VERSION_def)
  have "replies sample_serde AwaitAuth ?ls = [None, Some 7, None]"
    by (simp add: reply_of_def parse_message_def from_str_def sample_serde_def json_get_str_def
        collect_entries_def
        decode_ping_def decode_request_def decode_unit_def json_nat_def)
  with every_line_is_answered_in_order [OF h _ s w, of ?ops 4 sample_externals sample_call s]
  show "map reply_id (cn_written (fst (run (conn_step sample_externals sample_serde sample_config sample_handlers)
      (?ops @ replicate 4 (Polls sample_call None)) (accepted, s)))) = [None, Some 7, None]"
    by simp
qed

subsection \<open>What a reader loses and what it keeps\<close>

text \<open>C32: An event that comes between two pieces of a message loses the first piece: \<open>select!\<close>
  drops the future that had consumed it, and the connection goes on as if the piece had never
  arrived. So the rest of the message is read as a line of its own.
\<close>

theorem an_event_drops_the_started_message:
  assumes "cn_phase c = Serving" "cn_reading c = []" "pi_available (cn_pipe c) = []"
    and "newline \<notin> set a" "\<not> pi_closed (cn_pipe c)"
  shows "run (conn_step x sd cf h) (Arrives a # Polls cl None # Receives e fault # ops) (c, s)
     = run (conn_step x sd cf h) (Receives e fault # ops) (c, s)"
proof -
  let ?p = "(cn_pipe c)\<lparr>pi_available := a\<rparr>"
  let ?c = "c\<lparr>cn_reading := a\<rparr>"
  have p: "(cn_pipe c)\<lparr>pi_available := []\<rparr> = cn_pipe c" using assms(3) by (cases "cn_pipe c") simp
  have "conn_step x sd cf h (Polls cl None) (c\<lparr>cn_pipe := ?p\<rparr>, s) = (?c, s)"
    using assms(1,2,5) poll_part [OF assms(4), of ?p x sd "[]"] p by (simp add: poll_read_def)
  moreover have "receive x sd fault e ?c = receive x sd fault e c"
    using assms(1,2) by (cases c) (simp add: receive_def)
  ultimately show ?thesis using assms(3,5) by simp
qed

definition sample_serving :: conn where
  "sample_serving = accepted\<lparr>cn_phase := Serving\<rparr>"

theorem an_event_drops_the_started_message_witness:
  "\<forall>s. run (conn_step sample_externals sample_serde sample_config sample_handlers)
      [Arrives ''q'', Polls sample_call None, Receives (Lagged 1) None, Arrives [CHR ''q'', newline]]
      (sample_serving, s)
   = run (conn_step sample_externals sample_serde sample_config sample_handlers)
      [Receives (Lagged 1) None, Arrives [CHR ''q'', newline]] (sample_serving, s)"
  by (intro allI, rule an_event_drops_the_started_message)
    (simp_all add: sample_serving_def accepted_def)

definition pieces :: "call \<Rightarrow> string list \<Rightarrow> 'h conn_input list" where
  "pieces cl bs = concat (map (\<lambda>b. [Arrives b, Polls cl None]) bs)"

lemma pieces_buffered:
  assumes "\<not> is_over (cn_phase c)" "pi_available (cn_pipe c) = []" "\<not> pi_closed (cn_pipe c)"
    and "list_all (\<lambda>b. newline \<notin> set b) bs"
  shows "run (conn_step x sd cf h) (pieces cl bs) (c, s) = (c\<lparr>cn_reading := cn_reading c @ concat bs\<rparr>, s)"
  using assms
proof (induction bs arbitrary: c)
  case Nil
  then show ?case by (cases c) (simp add: pieces_def)
next
  case (Cons b bs)
  let ?p = "(cn_pipe c)\<lparr>pi_available := b\<rparr>"
  let ?c = "c\<lparr>cn_reading := cn_reading c @ b\<rparr>"
  have p: "(cn_pipe c)\<lparr>pi_available := []\<rparr> = cn_pipe c" using Cons.prems(2) by (cases "cn_pipe c") simp
  have "conn_step x sd cf h (Polls cl None) (c\<lparr>cn_pipe := ?p\<rparr>, s) = (?c, s)"
    using Cons.prems poll_part [of b ?p x sd "cn_reading c"] p by (simp add: poll_read_def)
  then show ?case using Cons.IH [of ?c] Cons.prems by (simp add: pieces_def)
qed

text \<open>C33: The limit of a megabyte is looked at when a line is complete: a line that is accepted is at most
  one byte longer. Until a newline comes the bytes are only collected, without any limit, even
  before the client has authenticated.
\<close>

theorem frames_are_capped_only_when_complete:
  assumes "list_all (\<lambda>b. newline \<notin> set b) bs"
  shows "run (conn_step x sd cf h) (pieces cl bs) (accepted, s) = (accepted\<lparr>cn_reading := concat bs\<rparr>, s)
     \<and> (case capped_line x sd buffer of Inr (Some l) \<Rightarrow> length l \<le> MAX_FRAME_BYTES + 1 | _ \<Rightarrow> True)"
  using pieces_buffered [of accepted bs x sd cf h cl s] assms capped_line_bound(1) [of x sd buffer]
  by (auto simp: accepted_def split: sum.splits option.splits)

theorem frames_are_capped_only_when_complete_witness:
  "\<forall>s. length (cn_reading (fst (run (conn_step sample_externals sample_serde sample_config sample_handlers)
      (pieces sample_call (replicate 3 (replicate MAX_FRAME_BYTES (CHR ''x'')))) (accepted, s)))) = 3145728"
proof
  fix s
  have "list_all (\<lambda>b. newline \<notin> set b) (replicate 3 (replicate MAX_FRAME_BYTES (CHR ''x'')))"
    by (auto simp: list_all_iff)
  from frames_are_capped_only_when_complete [OF this, of sample_externals sample_serde sample_config
      sample_handlers sample_call s]
  show "length (cn_reading (fst (run (conn_step sample_externals sample_serde sample_config sample_handlers)
      (pieces sample_call (replicate 3 (replicate MAX_FRAME_BYTES (CHR ''x'')))) (accepted, s)))) = 3145728"
    by (simp add: numeral_3_eq_3 MAX_FRAME_BYTES_def)
qed

lemma cancellable_step:
  assumes "cn_cancellable (fst cs) = []"
  shows "cn_cancellable (fst (conn_step x sd cf h i cs)) = []"
proof -
  obtain c s where cs: "cs = (c, s)" by fastforce
  have send: "cn_cancellable (send x fault v d) = cn_cancellable d" for fault v d
    by (simp add: send_def split: option.split)
  have serve: "cn_cancellable (fst (serve_line x sd cf h cl fault line d s)) = []"
    if "cn_cancellable d = []" for cl fault line d
    using that by (auto simp: serve_line_def send Let_def split: sum.split client_message.split prod.split)
  have auth: "cn_cancellable (authenticate x sd cf line d) = cn_cancellable d" for line d
    by (simp add: authenticate_def split: sum.split option.split)
  have greet: "cn_cancellable (greet x sd cf fault line d) = cn_cancellable d" for fault line d
    by (simp add: greet_def send split: sum.split option.split)
  have line: "cn_cancellable (fst (on_line x sd cf h cl fault r d s)) = []"
    if "cn_cancellable d = []" for cl fault r d
    using that by (simp add: on_line_def serve auth greet split: sum.split option.split phase.split)
  show ?thesis
    using assms
    by (cases i) (simp_all add: cs poll_read_def receive_def send Let_def line
        split: prod.split poll.split broadcast.split)
qed

text \<open>No cancel frame ever finds a request to cancel: between two frames no request of the connection
  is registered, because frames are read only after the answer to the one before, so a cancel
  changes nothing and is not answered, though the server offers the feature.
\<close>

theorem cancel_frames_do_nothing:
  "let (c, s') = run (conn_step x sd cf h) ops (accepted, s)
   in cn_cancellable c = [] \<and> ''request.cancel'' \<in> set SERVER_FEATURES
      \<and> (case parse_message sd line of
            Inr (MsgCancel i) \<Rightarrow> serve_line x sd cf h cl fault line c s' = (c, s') | _ \<Rightarrow> True)"
proof -
  let ?cs = "run (conn_step x sd cf h) ops (accepted, s)"
  have c: "cn_cancellable (fst ?cs) = []"
    by (rule run_invariant [where I = "\<lambda>cs. cn_cancellable (fst cs) = []"])
      (auto simp: accepted_def intro: cancellable_step)
  then show ?thesis
    by (cases ?cs; cases "fst ?cs")
      (auto simp: SERVER_FEATURES_def serve_line_def split: sum.split client_message.split)
qed

end
