(* ===== verification/ServerFacts.thy ===== *)
theory ServerFacts
  imports ConnectionFacts ApprovalSafety
begin

text \<open>
  What holds of requests behind the front door: who is let through to the handlers, and whose
  project a browser request is judged by.
\<close>

lemma emit_audit_locations [simp]:
  "sv_locations (emit_audit cl as s) = sv_locations s" "sv_worktrees (emit_audit cl as s) = sv_worktrees s"
  by (induction as arbitrary: cl s) (simp_all add: emit_event_to_def)

lemma with_base_locations [simp]:
  "sv_locations (with_base d s) = sv_locations s" "sv_worktrees (with_base d s) = sv_worktrees s"
  by (simp_all add: with_base_def)

lemma ungated_unprotected: "ungated m \<Longrightarrow> \<not> requires_approval m"
  by (auto simp: ungated_def protected_method_iff protected_methods_def method_summaries_def)

lemma check_rpc_refused:
  assumes "\<not> is_allowed (pc_permission (fst (check_rpc x fault bypass now fresh m params p d)))"
  shows "approvals (snd (check_rpc x fault bypass now fresh m params p d)) = approvals d
     \<or> appended_request x (approvals d) (approvals (snd (check_rpc x fault bypass now fresh m params p d)))"
  by (cases rule: check_rpc_rows [of x fault bypass now fresh m params p d]) (use assms in auto)

lemma is_allowed_iff: "is_allowed c \<longleftrightarrow> c = PermAllowed"
  by (cases c) simp_all

text \<open>C28: A protected request reaches the routing only with a reason: the developer bypass, an allow rule
  of the project it was resolved to, or an approval for exactly this request and project that the
  same call uses up. A refused request reaches no handler: whatever the handlers are, the answer is
  the refusal, and beyond the event journal and the base tables nothing changes; of the approvals
  at most one is added, the request for it. A request of any other method passes and changes
  nothing on the way.
\<close>

theorem protected_requests_need_a_reason:
  "let m = rq_method r; p = permission_project_id x cf r s
   in case gate x cf cl r s of
        (Some refusal, s') \<Rightarrow>
          dispatch x sd cf h cl r s = (refusal, s')
          \<and> (sv_jobs s', sv_shutdown s', sv_rest s', sv_locations s', sv_worktrees s')
              = (sv_jobs s, sv_shutdown s, sv_rest s, sv_locations s, sv_worktrees s)
          \<and> (approvals (base s') = approvals (base s)
             \<or> appended_request x (approvals (base s)) (approvals (base s')))
      | (None, s') \<Rightarrow>
          if requires_approval m
          then cf_bypass cf
            \<or> evaluate_rules (load_rules (cf_fault cf) p (base s)) m p (cl_now cl) = Some EffectAllow
            \<or> (\<exists>a. a \<in> set (approvals (base s)) \<and> pays_for x m (rq_params r) p a
                 \<and> base s' = snd (approvals_consume_approved (ap_id a) (base s)))
          else s' = s"
proof -
  let ?m = "rq_method r" and ?p = "permission_project_id x cf r s"
  obtain check d where c: "checked_by_engine x cf cl r s = (check, d)"
    by (cases "checked_by_engine x cf cl r s")
  note c' = c [unfolded checked_by_engine_def]
  have free: "check = allowed_check \<and> d = base s" if "\<not> requires_approval ?m"
    using c' that by (simp add: check_rpc_def split: if_splits)
  have "dispatch x sd cf h cl r s = (refusal, s')" if "gate x cf cl r s = (Some refusal, s')" for refusal s'
    using that by (simp add: dispatch_def)
  moreover have "approvals d = approvals (base s) \<or> appended_request x (approvals (base s)) (approvals d)"
    if "pc_permission check = PermDenied u t a" for u t a
    using check_rpc_refused [of x "cf_fault cf" "cf_bypass cf" "cl_now cl" "cl_fresh cl 0" ?m "rq_params r" ?p "base s"]
      c' that by simp
  moreover have "cf_bypass cf
      \<or> evaluate_rules (load_rules (cf_fault cf) ?p (base s)) ?m ?p (cl_now cl) = Some EffectAllow
      \<or> (\<exists>a. a \<in> set (approvals (base s)) \<and> pays_for x ?m (rq_params r) ?p a
           \<and> d = snd (approvals_consume_approved (ap_id a) (base s)))"
    if "pc_permission check = PermAllowed" "requires_approval ?m"
    using check_rpc_reason [OF c'] that by (auto simp: is_allowed_iff)
  ultimately show ?thesis
    using free c ungated_unprotected [of ?m]
    by (auto simp: gate_def Let_def split: if_splits rpc_permission.splits)
qed

subsection \<open>Browser requests\<close>



text \<open>Namespaces that the router hands to a handler and of which the catalogue of \<open>retcon_protocol\<close> has no
  method.\<close>

lemma catalogue_misses_namespaces:
  "filter (\<lambda>n. \<not> list_ex (\<lambda>ns. fst ns = n \<and> snd ns \<noteq> []) method_catalog) HANDLED
     = [''verification'', ''devServer'', ''diagnostics'', ''ide'']"
  by (simp add: method_catalog_def HANDLED_def)

end
