(* ===== verification/Git.thy ===== *)
theory Git
  imports Redact Filesystem
begin

text \<open>
  \<open>crates/retcon-git/src/lib.rs\<close> and \<open>safety.rs\<close>: the operations on a repository, as
  the command lines they run and the output they parse, and the protection of the default branch.
  Git itself is a parameter: what a command line does to the world \<open>'w\<close> and what it prints.
  Telemetry is left out.
\<close>

record git_output =
  go_code :: "int option"
  go_stdout :: string
  go_stderr :: string

datatype git_failure = NotLaunched string | PatchNotWritten string | NotWaitedFor string

record 'w git =
  gi_run :: "string list \<Rightarrow> string option \<Rightarrow> 'w \<Rightarrow> (git_failure, git_output) outcome \<times> 'w"
  gi_has_modules :: "'w \<Rightarrow> bool"

record git_error =
  ge_command :: string
  ge_exit_code :: "int option"
  ge_stderr :: string

type_synonym ('w, 'a) git_call = "'w \<Rightarrow> (git_error, 'a) outcome \<times> 'w"

definition git_return :: "'a \<Rightarrow> ('w, 'a) git_call" where
  "git_return a w = (Inr a, w)"

definition git_raise :: "git_error \<Rightarrow> ('w, 'a) git_call" where
  "git_raise e w = (Inl e, w)"

definition git_bind :: "('w, 'a) git_call \<Rightarrow> ('a \<Rightarrow> ('w, 'b) git_call) \<Rightarrow> ('w, 'b) git_call" where
  "git_bind m f w = (case m w of (Inl e, w') \<Rightarrow> (Inl e, w') | (Inr a, w') \<Rightarrow> f a w')"

subsection \<open>Running git\<close>

definition MAX_GIT_OUTPUT_BYTES :: nat where "MAX_GIT_OUTPUT_BYTES = 4 * 1024 * 1024"

definition trim_end :: "string \<Rightarrow> string" where
  "trim_end s = rev (dropWhile ascii_space (rev s))"

fun failure_text :: "git_failure \<Rightarrow> string" where
  "failure_text (NotLaunched e) = ''failed to launch git: '' @ e"
| "failure_text (PatchNotWritten e) = ''failed to write patch: '' @ e"
| "failure_text (NotWaitedFor e) = ''failed to wait for git: '' @ e"

definition git_error_of :: "string list \<Rightarrow> int option \<Rightarrow> string \<Rightarrow> git_error" where
  "git_error_of args code stderr =
     \<lparr>ge_command = join '' '' args, ge_exit_code = code, ge_stderr = stderr\<rparr>"

definition run_git_limited :: "'w git \<Rightarrow> string list \<Rightarrow> nat \<Rightarrow> ('w, string) git_call" where
  "run_git_limited g args max_bytes w =
     (case gi_run g args None w of
        (Inl f, w') \<Rightarrow> (Inl (git_error_of args None (failure_text f)), w')
      | (Inr out, w') \<Rightarrow>
          (if max_bytes < length (go_stdout out)
           then Inl (git_error_of args (go_code out) (''git output exceeded '' @ decimal max_bytes @ '' bytes''))
           else if go_code out = Some 0 then Inr (trim_end (utf8_lossy (go_stdout out)))
           else Inl (git_error_of args (go_code out) (trim (utf8_lossy (go_stderr out)))), w'))"

definition run_git :: "'w git \<Rightarrow> string list \<Rightarrow> ('w, string) git_call" where
  "run_git g args = run_git_limited g args MAX_GIT_OUTPUT_BYTES"

text \<open>The result is not looked at: \<open>.map(|_| ())\<close>.\<close>

definition run_git_unit :: "'w git \<Rightarrow> string list \<Rightarrow> ('w, unit) git_call" where
  "run_git_unit g args = git_bind (run_git g args) (\<lambda>s. git_return ())"

definition git_operation :: "string list \<Rightarrow> string" where
  "git_operation args =
     (let c = (case args of [] \<Rightarrow> [] | a # as \<Rightarrow> a)
      in if c \<in> {''add'', ''apply'', ''restore''} then ''stage''
         else if c = ''branch'' then ''branch''
         else if c \<in> {''checkout'', ''switch''} then ''checkout''
         else if c = ''commit'' then ''commit''
         else if c \<in> {''config'', ''symbolic-ref'', ''rev-parse''} then ''metadata''
         else if c \<in> {''diff'', ''init'', ''push'', ''status'', ''worktree''} then c
         else ''other'')"

subsection \<open>Status\<close>

text \<open>\<open>str::lines\<close>: a carriage return goes with its newline; nothing after the last newline is no line.\<close>

definition without_cr :: "string \<Rightarrow> string" where
  "without_cr l = (case strip_suffix [CHR 0x0D] l of Some p \<Rightarrow> p | None \<Rightarrow> l)"

definition str_lines :: "string \<Rightarrow> string list" where
  "str_lines s =
     (let ps = split_on (CHR 0x0A) s
      in map without_cr (butlast ps) @ (if last ps = [] then [] else [last ps]))"

definition split_once :: "string \<Rightarrow> string \<Rightarrow> (string \<times> string) option" where
  "split_once sep s = map_option (\<lambda>i. (take i s, drop (i + length sep) s)) (str_find sep s)"

record repo_status =
  rs_branch :: string
  rs_entries :: "status_entry list"

definition parse_porcelain_path :: "string \<Rightarrow> string" where
  "parse_porcelain_path rest =
     (let target = (case split_once '' -> '' rest of Some (old, new) \<Rightarrow> new | None \<Rightarrow> rest);
          path = trim_matches (\<lambda>c. c = CHR 0x22) (trim target)
      in replace_char (CHR 0x5C) (CHR ''/'') (trim_end_slashes path))"

text \<open>
  The slices are at bytes 2 and 3, after the ASCII code and the space that git prints there; on
  another line Rust would panic when they cut a character.
\<close>

definition parse_porcelain_line :: "string \<Rightarrow> status_entry option" where
  "parse_porcelain_line line =
     (if length line < 4 then None
      else let path = parse_porcelain_path (drop 3 line)
           in if path = [] then None else Some \<lparr>sn_code = take 2 line, sn_path = path\<rparr>)"

definition parse_branch_header :: "string \<Rightarrow> string" where
  "parse_branch_header header =
     trim (dropWhile (\<lambda>c. c = CHR ''#'')
       (case split_once ''...'' header of Some (b, r) \<Rightarrow> b | None \<Rightarrow> header))"

definition parse_status_output :: "string \<Rightarrow> repo_status" where
  "parse_status_output raw =
     (case str_lines raw of
        [] \<Rightarrow> \<lparr>rs_branch = ''HEAD'', rs_entries = []\<rparr>
      | l # ls \<Rightarrow>
          \<lparr>rs_branch = (case strip_prefix ''## '' l of Some h \<Rightarrow> parse_branch_header h | None \<Rightarrow> ''HEAD''),
           rs_entries = List.map_filter parse_porcelain_line ls\<rparr>)"

definition git_status :: "'w git \<Rightarrow> ('w, repo_status) git_call" where
  "git_status g =
     git_bind (run_git g [''status'', ''--porcelain=v1'', ''--branch'']) (\<lambda>raw. git_return (parse_status_output raw))"

subsection \<open>Worktrees\<close>

record listed_worktree =
  lw_path :: string
  lw_branch :: "string option"

fun worktree_blocks :: "listed_worktree option \<Rightarrow> string list \<Rightarrow> listed_worktree list" where
  "worktree_blocks current [] = (case current of None \<Rightarrow> [] | Some w \<Rightarrow> [w])"
| "worktree_blocks current (l # ls) =
     (case strip_prefix ''worktree '' l of
        Some path \<Rightarrow>
          (case current of None \<Rightarrow> [] | Some w \<Rightarrow> [w])
          @ worktree_blocks (Some \<lparr>lw_path = path, lw_branch = None\<rparr>) ls
      | None \<Rightarrow>
          (case strip_prefix ''branch '' l of
             Some b \<Rightarrow> worktree_blocks (map_option (\<lambda>w. w\<lparr>lw_branch := Some b\<rparr>) current) ls
           | None \<Rightarrow> worktree_blocks current ls))"

definition worktree_list :: "'w git \<Rightarrow> ('w, listed_worktree list) git_call" where
  "worktree_list g =
     git_bind (run_git g [''worktree'', ''list'', ''--porcelain''])
       (\<lambda>raw. git_return (worktree_blocks None (str_lines raw)))"

definition worktree_add :: "'w git \<Rightarrow> string \<Rightarrow> string \<Rightarrow> ('w, unit) git_call" where
  "worktree_add g path branch = run_git_unit g [''worktree'', ''add'', ''-b'', branch, path]"

definition worktree_remove :: "'w git \<Rightarrow> string \<Rightarrow> ('w, unit) git_call" where
  "worktree_remove g path = run_git_unit g [''worktree'', ''remove'', path]"

subsection \<open>Diffs and branches\<close>

datatype diff_mode = Unstaged | Staged | AllChanges

definition path_args :: "string option \<Rightarrow> string list" where
  "path_args path = (case path of None \<Rightarrow> [] | Some p \<Rightarrow> [''--'', p])"

fun diff_args :: "diff_mode \<Rightarrow> string list" where
  "diff_args Unstaged = [''diff'']"
| "diff_args Staged = [''diff'', ''--cached'']"
| "diff_args AllChanges = [''diff'', ''HEAD'']"

definition git_diff :: "'w git \<Rightarrow> string option \<Rightarrow> diff_mode \<Rightarrow> ('w, string) git_call" where
  "git_diff g path mode = run_git g (diff_args mode @ path_args path)"

definition branch_list :: "'w git \<Rightarrow> ('w, string list) git_call" where
  "branch_list g =
     git_bind (run_git g [''branch'', ''--format=%(refname:short)''])
       (\<lambda>raw. git_return (filter (\<lambda>l. l \<noteq> []) (map trim (str_lines raw))))"

text \<open>The first of the candidates that \<open>rev-parse\<close> knows.\<close>

fun first_branch :: "'w git \<Rightarrow> string list \<Rightarrow> ('w, string) git_call" where
  "first_branch g [] w = (Inr ''main'', w)"
| "first_branch g (c # cs) w =
     (case run_git g [''rev-parse'', ''--verify'', c] w of
        (Inr oid, w') \<Rightarrow> (Inr c, w')
      | (Inl e, w') \<Rightarrow> first_branch g cs w')"

definition default_branch :: "'w git \<Rightarrow> ('w, string) git_call" where
  "default_branch g w =
     (case run_git g [''symbolic-ref'', ''--short'', ''refs/remotes/origin/HEAD''] w of
        (Inr raw, w') \<Rightarrow> (Inr (case strip_prefix ''origin/'' raw of Some b \<Rightarrow> b | None \<Rightarrow> raw), w')
      | (Inl e, w') \<Rightarrow> first_branch g [''main'', ''master''] w')"

definition head_oid :: "'w git \<Rightarrow> ('w, string) git_call" where
  "head_oid g = run_git g [''rev-parse'', ''HEAD'']"

definition branch_create :: "'w git \<Rightarrow> string \<Rightarrow> ('w, unit) git_call" where
  "branch_create g branch = run_git_unit g [''branch'', branch]"

subsection \<open>Protection of the default branch\<close>

datatype protected_operation = BranchDelete | ForcePush | DirectCommit

definition apostrophed :: "string \<Rightarrow> string" where
  "apostrophed s = [CHR 0x27] @ s @ [CHR 0x27]"

fun protected_message :: "protected_operation \<Rightarrow> string \<Rightarrow> string" where
  "protected_message BranchDelete b = ''cannot delete the default branch '' @ apostrophed b"
| "protected_message ForcePush b = ''force push to the default branch '' @ apostrophed b @ '' is blocked''"
| "protected_message DirectCommit b = ''direct commits to the default branch '' @ apostrophed b @ '' are blocked''"

definition normalize_branch :: "string \<Rightarrow> string" where
  "normalize_branch b = (case strip_prefix ''refs/heads/'' b of Some n \<Rightarrow> n | None \<Rightarrow> b)"

definition branches_equal :: "string \<Rightarrow> string \<Rightarrow> bool" where
  "branches_equal l r \<longleftrightarrow> normalize_branch l = normalize_branch r"

definition check_default_branch :: "string \<Rightarrow> string \<Rightarrow> protected_operation \<Rightarrow> string option" where
  "check_default_branch branch dflt op =
     (if branches_equal branch dflt then Some (protected_message op branch) else None)"

definition ensure_allowed :: "'w git \<Rightarrow> string \<Rightarrow> string \<Rightarrow> protected_operation \<Rightarrow> ('w, unit) git_call" where
  "ensure_allowed g command branch op =
     git_bind (default_branch g) (\<lambda>dflt.
       case check_default_branch branch dflt op of
         Some m \<Rightarrow> git_raise \<lparr>ge_command = command, ge_exit_code = None, ge_stderr = m\<rparr>
       | None \<Rightarrow> git_return ())"

definition ensure_commit_allowed :: "'w git \<Rightarrow> string \<Rightarrow> ('w, unit) git_call" where
  "ensure_commit_allowed g branch = ensure_allowed g ''commit'' branch DirectCommit"

definition ensure_branch_delete_allowed :: "'w git \<Rightarrow> string \<Rightarrow> ('w, unit) git_call" where
  "ensure_branch_delete_allowed g branch = ensure_allowed g ''branch delete'' branch BranchDelete"

definition ensure_push_allowed :: "'w git \<Rightarrow> string \<Rightarrow> bool \<Rightarrow> ('w, unit) git_call" where
  "ensure_push_allowed g branch force =
     (if \<not> force then git_return () else ensure_allowed g ''push'' branch ForcePush)"

subsection \<open>Changing the repository\<close>

definition branch_delete :: "'w git \<Rightarrow> string \<Rightarrow> bool \<Rightarrow> ('w, unit) git_call" where
  "branch_delete g branch force =
     git_bind (ensure_branch_delete_allowed g branch) (\<lambda>u.
       run_git_unit g [''branch'', if force then ''-D'' else ''-d'', branch])"

definition git_checkout :: "'w git \<Rightarrow> string \<Rightarrow> ('w, unit) git_call" where
  "git_checkout g branch = run_git_unit g [''checkout'', branch]"

definition git_stage :: "'w git \<Rightarrow> string option \<Rightarrow> ('w, unit) git_call" where
  "git_stage g path = run_git_unit g (''add'' # (case path of None \<Rightarrow> [''-A''] | Some p \<Rightarrow> [''--'', p]))"

definition git_unstage :: "'w git \<Rightarrow> string option \<Rightarrow> ('w, unit) git_call" where
  "git_unstage g path =
     run_git_unit g ([''restore'', ''--staged''] @ (case path of None \<Rightarrow> [''.''] | Some p \<Rightarrow> [''--'', p]))"

definition apply_patch :: "'w git \<Rightarrow> string \<Rightarrow> string list \<Rightarrow> ('w, unit) git_call" where
  "apply_patch g patch prefix w =
     (let args = prefix @ [''-'']
      in case gi_run g args (Some patch) w of
           (Inl f, w') \<Rightarrow> (Inl (git_error_of args None (failure_text f)), w')
         | (Inr out, w') \<Rightarrow>
             (if go_code out = Some 0 then Inr ()
              else Inl (git_error_of args (go_code out) (trim (utf8_lossy (go_stderr out)))), w'))"

definition stage_hunk :: "'w git \<Rightarrow> string \<Rightarrow> ('w, unit) git_call" where
  "stage_hunk g patch = apply_patch g patch [''apply'', ''--cached'']"

definition discard_hunk :: "'w git \<Rightarrow> string \<Rightarrow> ('w, unit) git_call" where
  "discard_hunk g patch = apply_patch g patch [''apply'', ''-R'']"

definition git_commit :: "'w git \<Rightarrow> string \<Rightarrow> bool \<Rightarrow> ('w, string) git_call" where
  "git_commit g message allow_empty =
     git_bind (git_status g) (\<lambda>s.
     git_bind (ensure_commit_allowed g (rs_branch s)) (\<lambda>u.
     git_bind (run_git g ([''commit'', ''-m'', message] @ (if allow_empty then [''--allow-empty''] else []))) (\<lambda>r.
     head_oid g)))"

definition push_target :: "'w git \<Rightarrow> string option \<Rightarrow> ('w, string) git_call" where
  "push_target g branch =
     (case branch of Some n \<Rightarrow> git_return n | None \<Rightarrow> git_bind (git_status g) (\<lambda>s. git_return (rs_branch s)))"

definition git_push :: "'w git \<Rightarrow> string \<Rightarrow> string option \<Rightarrow> bool \<Rightarrow> ('w, unit) git_call" where
  "git_push g remote branch force =
     git_bind (if force then git_bind (push_target g branch) (\<lambda>t. ensure_push_allowed g t True) else git_return ())
       (\<lambda>u. run_git_unit g ([''push'', remote] @ (if force then [''--force-with-lease''] else [])
          @ (case branch of None \<Rightarrow> [] | Some b \<Rightarrow> [b])))"

definition git_conflicts :: "'w git \<Rightarrow> ('w, string list) git_call" where
  "git_conflicts g =
     git_bind (run_git g [''diff'', ''--name-only'', ''--diff-filter=U'']) (\<lambda>raw. git_return (str_lines raw))"

definition submodules :: "'w git \<Rightarrow> ('w, string list) git_call" where
  "submodules g w =
     (if \<not> gi_has_modules g w then (Inr [], w)
      else git_bind (run_git g [''config'', ''--file'', ''.gitmodules'', ''--get-regexp'', ''path''])
        (\<lambda>raw. git_return (List.map_filter (\<lambda>l. map_option snd (split_once '' '' l)) (str_lines raw))) w)"

end
