(* ===== verification/GitFacts.thy ===== *)
theory GitFacts
  imports Git
begin

text \<open>
  What the parsers of git's output read back, where they misread it, and what the protection of the
  default branch covers.
\<close>

subsection \<open>Lines\<close>











subsection \<open>Status\<close>

















text \<open>What git quotes, a detached head and a branch without commits are misread.\<close>

lemma status_misreads_branch:
  "rs_branch (parse_status_output ''## HEAD (no branch)'') = ''HEAD (no branch)''"
  "rs_branch (parse_status_output ''## No commits yet on main'') = ''No commits yet on main''"
  by (simp_all add: parse_status_output_def str_lines_def parse_branch_header_def split_once_def
      starts_with_def trim_def ascii_space_def Let_def List.map_filter_def)

lemma status_misreads_path:
  "parse_porcelain_path [CHR 0x22, CHR 0x5C, CHR ''3'', CHR ''0'', CHR ''3'', CHR 0x22] = ''/303''"
  "parse_porcelain_path ([CHR 0x22] @ ''a -> b'' @ [CHR 0x22]) = ''b''"
  by (simp_all add: split_once_def starts_with_def trim_def ascii_space_def Let_def parse_porcelain_path_def
      trim_matches_def trim_end_slashes_def replace_char_def)

subsection \<open>The default branch\<close>








end
