(* ===== verification/Worktrees.thy ===== *)
theory Worktrees
  imports Server Git
begin

text \<open>
  The table of worktrees (\<open>GitWorktreeRepository\<close> of
  \<open>crates/retcon-storage/src/repositories.rs\<close>) and the manager that keeps it in step with git
  (\<open>crates/retcon-worktrees/src/lib.rs\<close>). The world outside is the file tree and whatever else git
  keeps; git runs in a directory. A path given as text is looked up from the process's directory when it
  is relative (a slash or dot after the name of a file is ignored, where the system calls refuse it).
\<close>

type_synonym 'r world = "file_tree \<times> 'r"
type_synonym 'r core = "'r world server"

record 'r host =
  ho_git :: "string \<Rightarrow> 'r world git"
  ho_cwd :: path
  ho_sha :: "string \<Rightarrow> string"
  ho_artifacts :: string
  ho_io_text :: "io_error \<Rightarrow> string"

definition tree :: "'r core \<Rightarrow> file_tree" where
  "tree s = fst (sv_rest s)"

definition with_tree :: "file_tree \<Rightarrow> 'r core \<Rightarrow> 'r core" where
  "with_tree t s = s\<lparr>sv_rest := (t, snd (sv_rest s))\<rparr>"

definition in_repo :: "('r world, 'a) git_call \<Rightarrow> 'r core \<Rightarrow> (git_error, 'a) outcome \<times> 'r core" where
  "in_repo m s = (let (r, w) = m (sv_rest s) in (r, s\<lparr>sv_rest := w\<rparr>))"

definition walk_text :: "path \<Rightarrow> file_tree \<Rightarrow> string \<Rightarrow> (io_error, path) outcome" where
  "walk_text cwd t s =
     (if CHR 0x00 \<in> set s then Inl IoInvalidInput
      else if s = [] then Inl IoNotFound
      else walk t MAX_LINKS (if is_absolute s then [] else cwd) (components s))"

definition canonical_text :: "'r host \<Rightarrow> file_tree \<Rightarrow> string \<Rightarrow> string" where
  "canonical_text h t s = (case walk_text (ho_cwd h) t s of Inr q \<Rightarrow> utf8_lossy (path_text q) | Inl e \<Rightarrow> s)"

subsection \<open>The table\<close>

record new_git_worktree =
  nt_id :: uuid
  nt_session_id :: "uuid option"
  nt_location_id :: uuid
  nt_path :: string
  nt_branch :: "string option"
  nt_head_oid :: "string option"
  nt_status :: string

definition new_git_worktree_new :: "uuid \<Rightarrow> uuid \<Rightarrow> string \<Rightarrow> new_git_worktree" where
  "new_git_worktree_new fresh location path =
     \<lparr>nt_id = fresh, nt_session_id = None, nt_location_id = location, nt_path = path, nt_branch = None,
      nt_head_oid = None, nt_status = ''active''\<rparr>"

definition session_exists :: "uuid \<Rightarrow> 'h server \<Rightarrow> bool" where
  "session_exists i s \<longleftrightarrow> sessions_get i (base s) \<noteq> None"

text \<open>The path is unique among all rows, those of removed worktrees too.\<close>

definition worktrees_create ::
    "millis \<Rightarrow> new_git_worktree \<Rightarrow> 'h server \<Rightarrow> (storage_error, git_worktree) outcome \<times> 'h server" where
  "worktrees_create now n s =
     (let row = \<lparr>gw_id = nt_id n, gw_session_id = nt_session_id n, gw_location_id = nt_location_id n,
            gw_path = nt_path n, gw_branch = nt_branch n, gw_head_oid = nt_head_oid n,
            gw_status = nt_status n, gw_created_at = now, gw_removed_at = None\<rparr>
      in if \<exists>w \<in> set (sv_worktrees s). gw_id w = nt_id n then (Inl (constraint ''git_worktrees.id''), s)
         else if \<exists>w \<in> set (sv_worktrees s). gw_path w = nt_path n
         then (Inl (constraint ''git_worktrees.path''), s)
         else if (case nt_session_id n of None \<Rightarrow> False | Some i \<Rightarrow> \<not> session_exists i s)
           \<or> (\<forall>l \<in> set (sv_locations s). rl_id l \<noteq> nt_location_id n)
         then (Inl (constraint ''FOREIGN KEY''), s)
         else (Inr row, s\<lparr>sv_worktrees := sv_worktrees s @ [row]\<rparr>))"

definition worktrees_get :: "uuid \<Rightarrow> 'h server \<Rightarrow> git_worktree option" where
  "worktrees_get i s = find (\<lambda>w. gw_id w = i) (sv_worktrees s)"

definition worktrees_find_by_path :: "string \<Rightarrow> 'h server \<Rightarrow> git_worktree option" where
  "worktrees_find_by_path path s = find (\<lambda>w. gw_path w = path \<and> gw_removed_at w = None) (sv_worktrees s)"

text \<open>Rows of one time come in the order of the table.\<close>

definition newest_worktrees :: "git_worktree list \<Rightarrow> git_worktree list" where
  "newest_worktrees ws = sort_key (\<lambda>w. - gw_created_at w) ws"

definition worktrees_by_repository :: "uuid \<Rightarrow> 'h server \<Rightarrow> git_worktree list" where
  "worktrees_by_repository location s =
     newest_worktrees (filter (\<lambda>w. gw_location_id w = location \<and> gw_removed_at w = None) (sv_worktrees s))"

definition worktrees_by_session :: "uuid \<Rightarrow> 'h server \<Rightarrow> git_worktree list" where
  "worktrees_by_session i s =
     newest_worktrees (filter (\<lambda>w. gw_session_id w = Some i \<and> gw_removed_at w = None) (sv_worktrees s))"

definition worktrees_assign_session ::
    "uuid \<Rightarrow> uuid \<Rightarrow> 'h server \<Rightarrow> (storage_error, bool) outcome \<times> 'h server" where
  "worktrees_assign_session i session s =
     (let p = (\<lambda>w. gw_id w = i \<and> gw_removed_at w = None)
      in if count_rows p (sv_worktrees s) = 0 then (Inr False, s)
         else if \<not> session_exists session s then (Inl (constraint ''FOREIGN KEY''), s)
         else (Inr True, s\<lparr>sv_worktrees := update_rows p (\<lambda>w. w\<lparr>gw_session_id := Some session\<rparr>) (sv_worktrees s)\<rparr>))"

definition worktrees_mark_removed :: "millis \<Rightarrow> uuid \<Rightarrow> 'h server \<Rightarrow> bool \<times> 'h server" where
  "worktrees_mark_removed now i s =
     (let p = (\<lambda>w. gw_id w = i)
      in (count_rows p (sv_worktrees s) \<noteq> 0,
          s\<lparr>sv_worktrees := update_rows p (\<lambda>w. w\<lparr>gw_status := ''removed'', gw_removed_at := Some now\<rparr>)
            (sv_worktrees s)\<rparr>))"

definition location_id_by_path :: "string \<Rightarrow> 'h server \<Rightarrow> uuid option" where
  "location_id_by_path path s = map_option rl_id (find (\<lambda>l. rl_path l = path) (sv_locations s))"

subsection \<open>The manager\<close>

datatype worktree_error =
    WtGit git_error
  | WtStorage storage_error
  | WtUnknownRepository string
  | WtNotFound string

definition git_error_text :: "(int option \<Rightarrow> string) \<Rightarrow> git_error \<Rightarrow> string" where
  "git_error_text code_text e =
     ''git '' @ ge_command e @ '' failed ('' @ code_text (ge_exit_code e) @ ''): '' @ ge_stderr e"

definition canonical_worktree_path :: "'r host \<Rightarrow> file_tree \<Rightarrow> string \<Rightarrow> string \<Rightarrow> string" where
  "canonical_worktree_path h t repo path = canonical_text h t (path_join repo path)"

definition location_id :: "'r host \<Rightarrow> string \<Rightarrow> 'r core \<Rightarrow> (worktree_error, uuid) outcome" where
  "location_id h repo s =
     (let p = canonical_text h (tree s) repo
      in case location_id_by_path p s of Some i \<Rightarrow> Inr i | None \<Rightarrow> Inl (WtUnknownRepository p))"

text \<open>An error of \<open>head_oid\<close> leaves the column empty.\<close>

definition persist_worktree ::
    "'r host \<Rightarrow> call \<Rightarrow> string \<Rightarrow> string \<Rightarrow> string option \<Rightarrow> uuid option \<Rightarrow> 'r core
      \<Rightarrow> (worktree_error, git_worktree) outcome \<times> 'r core" where
  "persist_worktree h cl repo path branch session_id s =
     (case location_id h repo s of
        Inl e \<Rightarrow> (Inl e, s)
      | Inr location \<Rightarrow>
          let (oid, s1) = in_repo (head_oid (ho_git h repo)) s
          in case worktrees_find_by_path path s1 of
            Some existing \<Rightarrow>
              (case (case session_id of
                       None \<Rightarrow> (Inr False, s1)
                     | Some i \<Rightarrow> worktrees_assign_session (gw_id existing) i s1) of
                 (Inl e, s2) \<Rightarrow> (Inl (WtStorage e), s2)
               | (Inr u, s2) \<Rightarrow>
                   (case worktrees_get (gw_id existing) s2 of
                      Some w \<Rightarrow> (Inr w, s2) | None \<Rightarrow> (Inl (WtNotFound path), s2)))
          | None \<Rightarrow>
              (case worktrees_create (cl_now cl) ((new_git_worktree_new (cl_fresh cl 0) location path)
                   \<lparr>nt_session_id := session_id, nt_branch := branch,
                    nt_head_oid := (case oid of Inr o' \<Rightarrow> Some o' | Inl e \<Rightarrow> None)\<rparr>) s1 of
                 (Inl e, s2) \<Rightarrow> (Inl (WtStorage e), s2)
               | (Inr w, s2) \<Rightarrow> (Inr w, s2)))"

definition manager_add ::
    "'r host \<Rightarrow> call \<Rightarrow> string \<Rightarrow> string \<Rightarrow> string \<Rightarrow> uuid option \<Rightarrow> 'r core
      \<Rightarrow> (worktree_error, git_worktree) outcome \<times> 'r core" where
  "manager_add h cl repo path branch session_id s =
     (case in_repo (worktree_add (ho_git h repo) path branch) s of
        (Inl e, s1) \<Rightarrow> (Inl (WtGit e), s1)
      | (Inr u, s1) \<Rightarrow>
          persist_worktree h cl repo (canonical_worktree_path h (tree s1) repo path) (Some branch) session_id s1)"

text \<open>A worktree by its canonical path or else by the path as given.\<close>

definition worktree_by_either :: "string \<Rightarrow> string \<Rightarrow> 'h server \<Rightarrow> git_worktree option" where
  "worktree_by_either canonical path s =
     (case worktrees_find_by_path canonical s of
        Some w \<Rightarrow> Some w | None \<Rightarrow> worktrees_find_by_path path s)"

definition manager_remove ::
    "'r host \<Rightarrow> call \<Rightarrow> string \<Rightarrow> string \<Rightarrow> 'r core \<Rightarrow> (worktree_error, bool) outcome \<times> 'r core" where
  "manager_remove h cl repo path s =
     (let canonical = canonical_worktree_path h (tree s) repo path
      in case in_repo (worktree_remove (ho_git h repo) path) s of
           (Inl e, s1) \<Rightarrow> (Inl (WtGit e), s1)
         | (Inr u, s1) \<Rightarrow>
             (case worktree_by_either canonical path s1 of
                Some w \<Rightarrow> (Inr True, snd (worktrees_mark_removed (cl_now cl) (gw_id w) s1))
              | None \<Rightarrow> (Inr False, s1)))"

definition manager_assign_session ::
    "'r host \<Rightarrow> string \<Rightarrow> uuid \<Rightarrow> 'r core \<Rightarrow> (worktree_error, git_worktree) outcome \<times> 'r core" where
  "manager_assign_session h path session_id s =
     (case worktree_by_either (canonical_text h (tree s) path) path s of
        None \<Rightarrow> (Inl (WtNotFound path), s)
      | Some w \<Rightarrow>
          (case worktrees_assign_session (gw_id w) session_id s of
             (Inl e, s1) \<Rightarrow> (Inl (WtStorage e), s1)
           | (Inr u, s1) \<Rightarrow>
               (case worktrees_get (gw_id w) s1 of
                  Some w' \<Rightarrow> (Inr w', s1) | None \<Rightarrow> (Inl (WtNotFound path), s1))))"

definition manager_list_stored ::
    "'r host \<Rightarrow> string \<Rightarrow> 'r core \<Rightarrow> (worktree_error, git_worktree list) outcome" where
  "manager_list_stored h repo s = map_outcome (\<lambda>i. worktrees_by_repository i s) (location_id h repo s)"

definition manager_list_for_session :: "uuid \<Rightarrow> 'h server \<Rightarrow> git_worktree list" where
  "manager_list_for_session i s = worktrees_by_session i s"

end
