(* ===== verification/Checkpoints.thy ===== *)
theory Checkpoints
  imports Worktrees
begin

text \<open>
  \<open>crates/retcon-checkpoints\<close> with the tables of checkpoints and file changes
  (\<open>crates/retcon-storage/src/repositories.rs\<close>) and the artifact store
  (\<open>artifacts.rs\<close>): what a checkpoint records before git or a file write changes a worktree, and how
  selected files are put back. The artifact store is its contents by hash; its own files, temporary
  ones and failing disks are left out.
\<close>

subsection \<open>Artifacts\<close>

definition artifact_hash_valid :: "string \<Rightarrow> bool" where
  "artifact_hash_valid h \<longleftrightarrow> length h = 64
     \<and> list_all (\<lambda>c. ascii_digit c \<or> (97 \<le> (of_char c :: nat) \<and> (of_char c :: nat) \<le> 102)) h"

definition hash_malformed :: "string \<Rightarrow> storage_error" where
  "hash_malformed hash = StorageArtifactIntegrity hash ''expected 64 lowercase hexadecimal characters''"

definition validate_artifact_hash :: "string option \<Rightarrow> storage_error option" where
  "validate_artifact_hash hash =
     (case hash of
        None \<Rightarrow> None
      | Some v \<Rightarrow> if artifact_hash_valid v then None else Some (hash_malformed v))"

definition store_bytes :: "'r host \<Rightarrow> string \<Rightarrow> 'h server \<Rightarrow> string \<times> 'h server" where
  "store_bytes h bytes s =
     (let hash = ho_sha h bytes
      in (hash, if map_of (sv_artifacts s) hash = None
                then s\<lparr>sv_artifacts := sv_artifacts s @ [(hash, bytes)]\<rparr> else s))"

definition artifact_path :: "'r host \<Rightarrow> string \<Rightarrow> string" where
  "artifact_path h hash = path_join (path_join (ho_artifacts h) (take 2 hash)) (drop 2 hash)"

definition read_artifact :: "'r host \<Rightarrow> string \<Rightarrow> 'h server \<Rightarrow> (storage_error, string) outcome" where
  "read_artifact h hash s =
     (if \<not> artifact_hash_valid hash then Inl (hash_malformed hash)
      else case map_of (sv_artifacts s) hash of
        Some bytes \<Rightarrow> Inr bytes
      | None \<Rightarrow> Inl (StorageIo ''open artifact'' (artifact_path h hash) (ho_io_text h IoNotFound)))"

subsection \<open>The tables\<close>

datatype checkpoint_kind = Manual | PreCommand | PreFileWrite | PreGit | TurnStart

fun kind_as_str :: "checkpoint_kind \<Rightarrow> string" where
  "kind_as_str Manual = ''manual''"
| "kind_as_str PreCommand = ''pre-command''"
| "kind_as_str PreFileWrite = ''pre-file-write''"
| "kind_as_str PreGit = ''pre-git''"
| "kind_as_str TurnStart = ''turn-start''"

definition kind_parse :: "string \<Rightarrow> checkpoint_kind option" where
  "kind_parse v =
     (if v = ''manual'' then Some Manual
      else if v = ''pre-command'' then Some PreCommand
      else if v = ''pre-file-write'' then Some PreFileWrite
      else if v = ''pre-git'' then Some PreGit
      else if v = ''turn-start'' then Some TurnStart else None)"

record new_checkpoint =
  nk_id :: uuid
  nk_worktree_id :: uuid
  nk_turn_id :: "uuid option"
  nk_kind :: string
  nk_base_oid :: "string option"
  nk_patch_artifact_hash :: "string option"

definition new_checkpoint_new :: "uuid \<Rightarrow> uuid \<Rightarrow> string \<Rightarrow> new_checkpoint" where
  "new_checkpoint_new fresh worktree kind =
     \<lparr>nk_id = fresh, nk_worktree_id = worktree, nk_turn_id = None, nk_kind = kind, nk_base_oid = None,
      nk_patch_artifact_hash = None\<rparr>"

definition turn_missing :: "uuid option \<Rightarrow> 'h server \<Rightarrow> bool" where
  "turn_missing t s \<longleftrightarrow> (case t of None \<Rightarrow> False | Some i \<Rightarrow> turns_get i (base s) = None)"

definition checkpoints_create ::
    "millis \<Rightarrow> new_checkpoint \<Rightarrow> 'h server \<Rightarrow> (storage_error, git_checkpoint) outcome \<times> 'h server" where
  "checkpoints_create now n s =
     (case validate_artifact_hash (nk_patch_artifact_hash n) of
        Some e \<Rightarrow> (Inl e, s)
      | None \<Rightarrow>
          let row = \<lparr>gc_id = nk_id n, gc_worktree_id = nk_worktree_id n, gc_turn_id = nk_turn_id n,
                gc_kind = nk_kind n, gc_base_oid = nk_base_oid n,
                gc_patch_artifact_hash = nk_patch_artifact_hash n, gc_created_at = now\<rparr>
          in if \<exists>c \<in> set (sv_checkpoints s). gc_id c = nk_id n
             then (Inl (constraint ''git_checkpoints.id''), s)
             else if worktrees_get (nk_worktree_id n) s = None \<or> turn_missing (nk_turn_id n) s
             then (Inl (constraint ''FOREIGN KEY''), s)
             else (Inr row, s\<lparr>sv_checkpoints := sv_checkpoints s @ [row]\<rparr>))"

definition checkpoints_get :: "uuid \<Rightarrow> 'h server \<Rightarrow> git_checkpoint option" where
  "checkpoints_get i s = find (\<lambda>c. gc_id c = i) (sv_checkpoints s)"

text \<open>The limit is bound as an \<open>i64\<close>; a negative one is none.\<close>

definition checkpoints_by_worktree :: "uuid \<Rightarrow> nat \<Rightarrow> 'h server \<Rightarrow> git_checkpoint list" where
  "checkpoints_by_worktree w limit s =
     (let rows = sort_key (\<lambda>c. - gc_created_at c) (filter (\<lambda>c. gc_worktree_id c = w) (sv_checkpoints s))
      in if limit < 9223372036854775808 then take limit rows else rows)"

definition checkpoints_for_turn :: "uuid \<Rightarrow> 'h server \<Rightarrow> git_checkpoint list" where
  "checkpoints_for_turn t s = sort_key gc_created_at (filter (\<lambda>c. gc_turn_id c = Some t) (sv_checkpoints s))"

record new_file_change =
  nf_id :: uuid
  nf_turn_id :: "uuid option"
  nf_checkpoint_id :: "uuid option"
  nf_path :: string
  nf_change_kind :: string
  nf_before_hash :: "string option"
  nf_after_hash :: "string option"

definition changes_create ::
    "millis \<Rightarrow> new_file_change \<Rightarrow> 'h server \<Rightarrow> (storage_error, file_change) outcome \<times> 'h server" where
  "changes_create now n s =
     (case (validate_artifact_hash (nf_before_hash n), validate_artifact_hash (nf_after_hash n)) of
        (Some e, r) \<Rightarrow> (Inl e, s)
      | (None, Some e) \<Rightarrow> (Inl e, s)
      | (None, None) \<Rightarrow>
          let row = \<lparr>fc_id = nf_id n, fc_turn_id = nf_turn_id n, fc_checkpoint_id = nf_checkpoint_id n,
                fc_path = nf_path n, fc_change_kind = nf_change_kind n, fc_before_hash = nf_before_hash n,
                fc_after_hash = nf_after_hash n, fc_created_at = now\<rparr>
          in if \<exists>c \<in> set (sv_changes s). fc_id c = nf_id n then (Inl (constraint ''file_changes.id''), s)
             else if turn_missing (nf_turn_id n) s
               \<or> (case nf_checkpoint_id n of None \<Rightarrow> False | Some i \<Rightarrow> checkpoints_get i s = None)
             then (Inl (constraint ''FOREIGN KEY''), s)
             else (Inr row, s\<lparr>sv_changes := sv_changes s @ [row]\<rparr>))"

definition changes_for_checkpoint :: "uuid \<Rightarrow> 'h server \<Rightarrow> file_change list" where
  "changes_for_checkpoint i s = sort_key fc_created_at (filter (\<lambda>c. fc_checkpoint_id c = Some i) (sv_changes s))"

definition changes_for_turn :: "uuid \<Rightarrow> 'h server \<Rightarrow> file_change list" where
  "changes_for_turn i s = sort_key fc_created_at (filter (\<lambda>c. fc_turn_id c = Some i) (sv_changes s))"

subsection \<open>Files\<close>

text \<open>
  Paths as the code passes them to the system, with their \<open>..\<close>; a lookup follows every link. Opening
  for writing creates a missing last name, also where a link leads.
\<close>

type_synonym raw_path = "component list"

fun component_nul :: "component \<Rightarrow> bool" where
  "component_nul ParentDir = False"
| "component_nul (Normal n) = (CHR 0x00 \<in> set n)"

definition resolve :: "file_tree \<Rightarrow> raw_path \<Rightarrow> (io_error, path) outcome" where
  "resolve t p = (if list_ex component_nul p then Inl IoInvalidInput else walk t MAX_LINKS [] p)"

definition node_of :: "file_tree \<Rightarrow> raw_path \<Rightarrow> node option" where
  "node_of t p = (case resolve t p of Inl e \<Rightarrow> None | Inr q \<Rightarrow> node_at t q)"

definition file_bytes :: "file_tree \<Rightarrow> raw_path \<Rightarrow> string option" where
  "file_bytes t p = (case node_of t p of Some (File b) \<Rightarrow> Some b | _ \<Rightarrow> None)"

function place :: "file_tree \<Rightarrow> nat \<Rightarrow> path \<Rightarrow> raw_path \<Rightarrow> (io_error, path) outcome" where
  "place t n cur [] = Inr cur"
| "place t n cur (c # cs) =
     (if node_at t cur \<noteq> Some Directory then Inl IoNotADirectory
      else case c of
        ParentDir \<Rightarrow> place t n (butlast cur) cs
      | Normal name \<Rightarrow>
          (case node_at t (cur @ [name]) of
             None \<Rightarrow> if cs = [] then Inr (cur @ [name]) else Inl IoNotFound
           | Some (Link target) \<Rightarrow>
               (if n = 0 then Inl IoFilesystemLoop
                else place t (n - 1) (if is_absolute target then [] else cur) (components target @ cs))
           | Some other \<Rightarrow> place t n (cur @ [name]) cs))"
  by pat_completeness auto

termination
  by (relation "measures [\<lambda>(t, n, cur, cs). n, \<lambda>(t, n, cur, cs). length cs]") auto

definition fs_write :: "raw_path \<Rightarrow> string \<Rightarrow> file_tree \<Rightarrow> (io_error, unit) outcome \<times> file_tree" where
  "fs_write p bytes t =
     (if list_ex component_nul p then (Inl IoInvalidInput, t)
      else case place t MAX_LINKS [] p of
        Inl e \<Rightarrow> (Inl e, t)
      | Inr q \<Rightarrow> (if node_at t q = Some Directory then (Inl IoIsADirectory, t) else (Inr (), put q (File bytes) t)))"

definition mkdir :: "raw_path \<Rightarrow> file_tree \<Rightarrow> (io_error, unit) outcome \<times> file_tree" where
  "mkdir p t =
     (if list_ex component_nul p then (Inl IoInvalidInput, t)
      else if p = [] then (Inl IoAlreadyExists, t)
      else case walk t MAX_LINKS [] (butlast p) of
        Inl e \<Rightarrow> (Inl e, t)
      | Inr q \<Rightarrow>
          if node_at t q \<noteq> Some Directory then (Inl IoNotADirectory, t)
          else case last p of
            ParentDir \<Rightarrow> (Inl IoAlreadyExists, t)
          | Normal n \<Rightarrow>
              (if node_at t (q @ [n]) \<noteq> None then (Inl IoAlreadyExists, t) else (Inr (), put (q @ [n]) Directory t)))"

text \<open>\<open>fs::create_dir_all\<close>: directories made before an error stay.\<close>

function create_dir_all :: "raw_path \<Rightarrow> file_tree \<Rightarrow> (io_error, unit) outcome \<times> file_tree" where
  "create_dir_all p t =
     (case mkdir p t of
        (Inr u, t1) \<Rightarrow> (Inr u, t1)
      | (Inl e, t1) \<Rightarrow>
          if e \<noteq> IoNotFound \<or> p = []
          then (if node_of t1 p = Some Directory then (Inr (), t1) else (Inl e, t1))
          else case create_dir_all (butlast p) t1 of
            (Inl e', t2) \<Rightarrow> (Inl e', t2)
          | (Inr u, t2) \<Rightarrow>
              (case mkdir p t2 of
                 (Inr u', t3) \<Rightarrow> (Inr u', t3)
               | (Inl e', t3) \<Rightarrow> (if node_of t3 p = Some Directory then (Inr (), t3) else (Inl e', t3))))"
  by pat_completeness auto

termination
  by (relation "measure (\<lambda>(p, t). length p)") auto

declare create_dir_all.simps [simp del]

definition remove_dir_all :: "path \<Rightarrow> file_tree \<Rightarrow> file_tree" where
  "remove_dir_all q t = filter (\<lambda>e. \<not> below q (fst e)) t"

subsection \<open>The service\<close>

datatype checkpoint_error =
    CpStorage storage_error
  | CpGit git_error
  | CpUnknownRepository string
  | CpNotFound string
  | CpOutsideRoot string
  | CpConflicts string
  | CpInvalidRequest string
  | CpIo io_error

definition resolve_worktree ::
    "'r host \<Rightarrow> call \<Rightarrow> string \<Rightarrow> 'r core \<Rightarrow> (checkpoint_error, uuid) outcome \<times> 'r core" where
  "resolve_worktree h cl root s =
     (let path = canonical_text h (tree s) root
      in case worktrees_find_by_path path s of
           Some w \<Rightarrow> (Inr (gw_id w), s)
         | None \<Rightarrow>
             (case location_id_by_path path s of
                None \<Rightarrow> (Inl (CpUnknownRepository path), s)
              | Some location \<Rightarrow>
                  (case worktrees_create (cl_now cl) (new_git_worktree_new (cl_fresh cl 0) location path) s of
                     (Inl e, s1) \<Rightarrow> (Inl (CpStorage e), s1)
                   | (Inr w, s1) \<Rightarrow> (Inr (gw_id w), s1))))"

text \<open>\<open>Path::ancestors\<close>, the longest first, and the first of them that exists.\<close>

fun existing_ancestor :: "file_tree \<Rightarrow> nat \<Rightarrow> raw_path \<Rightarrow> path option" where
  "existing_ancestor t 0 p = (case resolve t [] of Inr q \<Rightarrow> Some q | Inl e \<Rightarrow> None)"
| "existing_ancestor t (Suc n) p =
     (case resolve t (take (Suc n) p) of Inr q \<Rightarrow> Some q | Inl e \<Rightarrow> existing_ancestor t n p)"

definition joined_text :: "path \<Rightarrow> string \<Rightarrow> string" where
  "joined_text root path = utf8_lossy (if path = [] then path_text root else path_join (path_text root) path)"

definition joined_components :: "path \<Rightarrow> string \<Rightarrow> raw_path" where
  "joined_components root path =
     (if is_absolute path then components path else map Normal root @ components path)"

definition checkpoint_path ::
    "'r host \<Rightarrow> file_tree \<Rightarrow> string \<Rightarrow> string \<Rightarrow> (checkpoint_error, raw_path) outcome" where
  "checkpoint_path h t root path =
     (case walk_text (ho_cwd h) t root of
        Inl e \<Rightarrow> Inl (CpInvalidRequest (''invalid project root: '' @ ho_io_text h e))
      | Inr r \<Rightarrow>
          if \<not> is_absolute path \<and> ParentDir \<in> set (components path) then Inl (CpOutsideRoot path)
          else let joined = joined_components r path
               in case existing_ancestor t (length joined) joined of
                 None \<Rightarrow> Inl (CpOutsideRoot (joined_text r path))
               | Some q \<Rightarrow>
                   if \<not> below r q then Inl (CpOutsideRoot (joined_text r path))
                   else (case resolve t joined of
                     Inl e \<Rightarrow> Inr joined
                   | Inr c \<Rightarrow> if \<not> below r c then Inl (CpOutsideRoot (utf8_lossy (path_text c)))
                              else Inr (map Normal c)))"

record file_write_checkpoint =
  fw_checkpoint_id :: uuid
  fw_turn_id :: "uuid option"
  fw_relative_path :: string
  fw_before_hash :: "string option"

text \<open>The hash of a file's content, which is stored; no file, no hash.\<close>

definition capture :: "'r host \<Rightarrow> raw_path \<Rightarrow> 'r core \<Rightarrow> string option \<times> 'r core" where
  "capture h p s =
     (case file_bytes (tree s) p of
        None \<Rightarrow> (None, s)
      | Some b \<Rightarrow> (let (hash, s1) = store_bytes h b s in (Some hash, s1)))"

definition begin_file_write ::
    "'r host \<Rightarrow> call \<Rightarrow> string \<Rightarrow> string \<Rightarrow> uuid option \<Rightarrow> 'r core
      \<Rightarrow> (checkpoint_error, file_write_checkpoint) outcome \<times> 'r core" where
  "begin_file_write h cl root path turn_id s =
     (case resolve_worktree h cl root s of
        (Inl e, s1) \<Rightarrow> (Inl e, s1)
      | (Inr worktree, s1) \<Rightarrow>
          (case checkpoint_path h (tree s1) root path of
             Inl e \<Rightarrow> (Inl e, s1)
           | Inr p \<Rightarrow>
               let (before, s2) = capture h p s1
               in case checkpoints_create (cl_now cl)
                   ((new_checkpoint_new (cl_fresh cl 1) worktree (kind_as_str PreFileWrite))\<lparr>nk_turn_id := turn_id\<rparr>) s2 of
                 (Inl e, s3) \<Rightarrow> (Inl (CpStorage e), s3)
               | (Inr c, s3) \<Rightarrow>
                   (Inr \<lparr>fw_checkpoint_id = gc_id c, fw_turn_id = turn_id, fw_relative_path = path,
                      fw_before_hash = before\<rparr>, s3)))"

definition change_kind_of :: "string option \<Rightarrow> string option \<Rightarrow> string" where
  "change_kind_of before after =
     (case (before, after) of
        (None, Some a) \<Rightarrow> ''create''
      | (Some b, None) \<Rightarrow> ''delete''
      | (Some b, Some a) \<Rightarrow> ''modify''
      | (None, None) \<Rightarrow> ''noop'')"

definition finish_file_write ::
    "'r host \<Rightarrow> call \<Rightarrow> string \<Rightarrow> file_write_checkpoint \<Rightarrow> 'r core
      \<Rightarrow> (checkpoint_error, file_change) outcome \<times> 'r core" where
  "finish_file_write h cl root w s =
     (case checkpoint_path h (tree s) root (fw_relative_path w) of
        Inl e \<Rightarrow> (Inl e, s)
      | Inr p \<Rightarrow>
          let (after, s1) = capture h p s
          in case changes_create (cl_now cl)
              \<lparr>nf_id = cl_fresh cl 2, nf_turn_id = fw_turn_id w, nf_checkpoint_id = Some (fw_checkpoint_id w),
               nf_path = fw_relative_path w, nf_change_kind = change_kind_of (fw_before_hash w) after,
               nf_before_hash = fw_before_hash w, nf_after_hash = after\<rparr> s1 of
            (Inl e, s2) \<Rightarrow> (Inl (CpStorage e), s2)
          | (Inr c, s2) \<Rightarrow> (Inr c, s2))"

text \<open>Errors of git leave the base empty and the patch unrecorded.\<close>

definition create_git_snapshot ::
    "'r host \<Rightarrow> call \<Rightarrow> string \<Rightarrow> checkpoint_kind \<Rightarrow> uuid option \<Rightarrow> 'r core
      \<Rightarrow> (checkpoint_error, git_checkpoint) outcome \<times> 'r core" where
  "create_git_snapshot h cl root kind turn_id s =
     (case resolve_worktree h cl root s of
        (Inl e, s1) \<Rightarrow> (Inl e, s1)
      | (Inr worktree, s1) \<Rightarrow>
          let (oid, s2) = in_repo (head_oid (ho_git h root)) s1;
              (diffed, s3) = in_repo (git_diff (ho_git h root) None AllChanges) s2;
              patch = (case diffed of Inr p \<Rightarrow> p | Inl e \<Rightarrow> []);
              (hash, s4) = (if patch = [] then (None, s3)
                            else let (v, s') = store_bytes h patch s3 in (Some v, s'))
          in case checkpoints_create (cl_now cl)
              ((new_checkpoint_new (cl_fresh cl 1) worktree (kind_as_str kind))
                \<lparr>nk_turn_id := turn_id, nk_base_oid := (case oid of Inr v \<Rightarrow> Some v | Inl e \<Rightarrow> None),
                 nk_patch_artifact_hash := hash\<rparr>) s4 of
            (Inl e, s5) \<Rightarrow> (Inl (CpStorage e), s5)
          | (Inr c, s5) \<Rightarrow> (Inr c, s5))"

definition create_manual where "create_manual h cl root turn_id = create_git_snapshot h cl root Manual turn_id"

definition create_turn_start where
  "create_turn_start h cl root turn = create_git_snapshot h cl root TurnStart (Some turn)"

definition before_git_operation where
  "before_git_operation h cl root turn_id = create_git_snapshot h cl root PreGit turn_id"

definition list_for_root ::
    "'r host \<Rightarrow> call \<Rightarrow> string \<Rightarrow> nat \<Rightarrow> 'r core \<Rightarrow> (checkpoint_error, git_checkpoint list) outcome \<times> 'r core" where
  "list_for_root h cl root limit s =
     (case resolve_worktree h cl root s of
        (Inl e, s1) \<Rightarrow> (Inl e, s1)
      | (Inr w, s1) \<Rightarrow> (Inr (checkpoints_by_worktree w limit s1), s1))"

subsection \<open>Rolling back\<close>

datatype rollback_action = Delete | Restore | Skip

record rollback_item =
  ri_path :: string
  ri_change_kind :: string
  ri_action :: rollback_action
  ri_conflict :: bool
  ri_before_hash :: "string option"
  ri_after_hash :: "string option"

definition edited_since :: "string option \<Rightarrow> string option \<Rightarrow> string option \<Rightarrow> bool" where
  "edited_since current before after =
     (case (current, before, after) of
        (Some c, Some b, Some a) \<Rightarrow> c \<noteq> b \<and> c \<noteq> a
      | (Some c, None, Some a) \<Rightarrow> c \<noteq> a
      | (Some c, Some b, None) \<Rightarrow> c \<noteq> b
      | _ \<Rightarrow> False)"

definition rollback_action_of :: "string option \<Rightarrow> string option \<Rightarrow> rollback_action" where
  "rollback_action_of before after =
     (case (before, after) of (None, Some a) \<Rightarrow> Delete | (Some b, r) \<Rightarrow> Restore | (None, None) \<Rightarrow> Skip)"

definition preview_item ::
    "'r host \<Rightarrow> string \<Rightarrow> file_tree \<Rightarrow> file_change \<Rightarrow> (checkpoint_error, rollback_item) outcome" where
  "preview_item h root t c =
     map_outcome (\<lambda>p. \<lparr>ri_path = fc_path c, ri_change_kind = fc_change_kind c,
          ri_action = rollback_action_of (fc_before_hash c) (fc_after_hash c),
          ri_conflict = edited_since (map_option (ho_sha h) (file_bytes t p)) (fc_before_hash c) (fc_after_hash c),
          ri_before_hash = fc_before_hash c, ri_after_hash = fc_after_hash c\<rparr>)
       (checkpoint_path h t root (fc_path c))"

fun preview_items ::
    "'r host \<Rightarrow> string \<Rightarrow> file_tree \<Rightarrow> file_change list \<Rightarrow> (checkpoint_error, rollback_item list) outcome" where
  "preview_items h root t [] = Inr []"
| "preview_items h root t (c # cs) =
     (case preview_item h root t c of
        Inl e \<Rightarrow> Inl e
      | Inr i \<Rightarrow> map_outcome ((#) i) (preview_items h root t cs))"

definition preview_rollback ::
    "externals \<Rightarrow> 'r host \<Rightarrow> string \<Rightarrow> uuid \<Rightarrow> 'r core
      \<Rightarrow> (checkpoint_error, git_checkpoint \<times> rollback_item list) outcome" where
  "preview_rollback x h root i s =
     (case checkpoints_get i s of
        None \<Rightarrow> Inl (CpNotFound (uuid_text x i))
      | Some c \<Rightarrow> map_outcome (Pair c) (preview_items h root (tree s) (changes_for_checkpoint i s)))"

definition restore_item ::
    "'r host \<Rightarrow> string \<Rightarrow> rollback_item \<Rightarrow> 'r core \<Rightarrow> (checkpoint_error, bool) outcome \<times> 'r core" where
  "restore_item h root i s =
     (let t = tree s
      in case checkpoint_path h t root (ri_path i) of
           Inl e \<Rightarrow> (Inl e, s)
         | Inr p \<Rightarrow>
             (case ri_action i of
                Delete \<Rightarrow>
                  (case resolve t p of
                     Inl e \<Rightarrow> (Inr True, s)
                   | Inr q \<Rightarrow> (Inr True, with_tree (if node_at t q = Some Directory then remove_dir_all q t else del q t) s))
              | Restore \<Rightarrow>
                  (case ri_before_hash i of
                     None \<Rightarrow> (Inr False, s)
                   | Some hash \<Rightarrow>
                       (case read_artifact h hash s of
                          Inl e \<Rightarrow> (Inl (CpStorage e), s)
                        | Inr bytes \<Rightarrow>
                            (case (if p = [] then (Inr (), t) else create_dir_all (butlast p) t) of
                               (Inl e, t1) \<Rightarrow> (Inl (CpIo e), with_tree t1 s)
                             | (Inr u, t1) \<Rightarrow>
                                 (case fs_write p bytes t1 of
                                    (Inl e, t2) \<Rightarrow> (Inl (CpIo e), with_tree t2 s)
                                  | (Inr u', t2) \<Rightarrow> (Inr True, with_tree t2 s)))))
              | Skip \<Rightarrow> (Inr False, s)))"

record restore_report =
  rp_restored :: "string list"
  rp_skipped :: "string list"
  rp_conflicts :: "string list"

fun restore_items ::
    "'r host \<Rightarrow> string \<Rightarrow> rollback_item list \<Rightarrow> 'r core
      \<Rightarrow> (checkpoint_error, string list \<times> string list) outcome \<times> 'r core" where
  "restore_items h root [] s = (Inr ([], []), s)"
| "restore_items h root (i # is) s =
     (case restore_item h root i s of
        (Inl e, s1) \<Rightarrow> (Inl e, s1)
      | (Inr restored, s1) \<Rightarrow>
          (case restore_items h root is s1 of
             (Inl e, s2) \<Rightarrow> (Inl e, s2)
           | (Inr (rs, ks), s2) \<Rightarrow>
               (Inr (if restored then (ri_path i # rs, ks) else (rs, ri_path i # ks)), s2)))"

definition restore_selective ::
    "externals \<Rightarrow> 'r host \<Rightarrow> string \<Rightarrow> uuid \<Rightarrow> string list \<Rightarrow> bool \<Rightarrow> 'r core
      \<Rightarrow> (checkpoint_error, restore_report) outcome \<times> 'r core" where
  "restore_selective x h root i paths force s =
     (case preview_rollback x h root i s of
        Inl e \<Rightarrow> (Inl e, s)
      | Inr (c, items) \<Rightarrow>
          let selected = filter (\<lambda>r. ri_path r \<in> set paths) items;
              conflicts = map ri_path (filter ri_conflict selected)
          in if \<not> force \<and> conflicts \<noteq> [] then (Inl (CpConflicts (join '', '' conflicts)), s)
             else case restore_items h root selected s of
               (Inl e, s1) \<Rightarrow> (Inl e, s1)
             | (Inr (rs, ks), s1) \<Rightarrow>
                 (Inr \<lparr>rp_restored = rs, rp_skipped = ks, rp_conflicts = (if force then conflicts else [])\<rparr>, s1))"

end
