(* ===== verification/ScmRpc.thy ===== *)
theory ScmRpc
  imports Checkpoints
begin

text \<open>
  \<open>crates/retcon-core/src/git_rpc.rs\<close> and \<open>checkpoints_rpc.rs\<close>: the handlers of the
  \<open>git\<close> and \<open>checkpoint\<close> namespaces. A commit is scanned for secrets first; a method that changes
  the repository takes a checkpoint before it reads its own parameters, and goes on when that fails.
\<close>

subsection \<open>Errors and parameters\<close>

definition int_text :: "int \<Rightarrow> string" where
  "int_text i = (if i < 0 then ''-'' @ decimal (nat (- i)) else decimal (nat i))"

definition exit_code_text :: "int option \<Rightarrow> string" where
  "exit_code_text c = (case c of None \<Rightarrow> ''None'' | Some i \<Rightarrow> ''Some('' @ int_text i @ '')'')"

definition git_fail :: "externals \<Rightarrow> nat \<Rightarrow> git_error \<Rightarrow> response" where
  "git_fail x i e =
     failed i (core_error_new x CodeIo SourceRpc ''The Git operation failed.''
       (''git '' @ ge_command e @ '' (exit '' @ exit_code_text (ge_exit_code e) @ ''): '' @ ge_stderr e))"

definition worktree_fail :: "externals \<Rightarrow> nat \<Rightarrow> worktree_error \<Rightarrow> response" where
  "worktree_fail x i e =
     (case e of
        WtGit g \<Rightarrow> git_fail x i g
      | WtUnknownRepository path \<Rightarrow>
          not_found x i (''Retcon does not have a project registered at '' @ path @ ''.'')
            (''repository path is not registered: '' @ path)
      | WtNotFound path \<Rightarrow>
          not_found x i (''Retcon could not find a worktree record for '' @ path @ ''.'')
            (''worktree not found: '' @ path)
      | WtStorage err \<Rightarrow>
          failed i (core_error_new x CodeInternal SourceRpc ''Retcon could not update worktree records.''
            (storage_error_text x err)))"

definition repo_param :: "externals \<Rightarrow> request \<Rightarrow> (response, string) outcome" where
  "repo_param x r =
     (case param_str ''repo'' r of
        Some v \<Rightarrow> Inr v
      | None \<Rightarrow> Inl (invalid x (rq_id r) ''The Git request is missing the repository path.''
          (missing ''repo'' @ '' parameter'')))"

definition str_param :: "externals \<Rightarrow> string \<Rightarrow> request \<Rightarrow> (response, string) outcome" where
  "str_param x key r =
     (case param_str key r of
        Some v \<Rightarrow> Inr v
      | None \<Rightarrow> Inl (invalid x (rq_id r) ''The Git request is missing required information.''
          (missing key @ '' parameter'')))"

definition param_bool :: "string \<Rightarrow> request \<Rightarrow> bool" where
  "param_bool key r \<longleftrightarrow> Option.bind (json_get key (rq_params r)) json_as_bool = Some True"

definition parse_diff_mode :: "request \<Rightarrow> diff_mode" where
  "parse_diff_mode r =
     (if param_str ''mode'' r = Some ''staged'' then Staged
      else if param_str ''mode'' r = Some ''all'' then AllChanges else Unstaged)"

fun diff_mode_label :: "diff_mode \<Rightarrow> string" where
  "diff_mode_label Unstaged = ''unstaged''"
| "diff_mode_label Staged = ''staged''"
| "diff_mode_label AllChanges = ''all''"

definition parse_session_id :: "externals \<Rightarrow> request \<Rightarrow> (response, uuid option) outcome" where
  "parse_session_id x r =
     (case param_str ''sessionId'' r of
        None \<Rightarrow> Inr None
      | Some raw \<Rightarrow>
          (case uuid_parse x raw of
             Inr u \<Rightarrow> Inr (Some u)
           | Inl e \<Rightarrow> Inl (invalid x (rq_id r) ''The session ID is invalid.'' e)))"

subsection \<open>Answers\<close>

definition status_json :: "repo_status \<Rightarrow> json" where
  "status_json st =
     JObj [(''branch'', JStr (rs_branch st)),
           (''entries'', JArr (map (\<lambda>e. JObj [(''code'', JStr (sn_code e)), (''path'', JStr (sn_path e))])
              (rs_entries st)))]"

definition listed_worktree_json :: "listed_worktree \<Rightarrow> json" where
  "listed_worktree_json w = JObj [(''branch'', json_opt JStr (lw_branch w)), (''path'', JStr (lw_path w))]"

text \<open>\<open>StoredWorktreeResponse\<close>, and \<open>StoredWorktree\<close> of the worktree crate.\<close>

definition stored_worktree_response :: "externals \<Rightarrow> git_worktree \<Rightarrow> json" where
  "stored_worktree_response x w =
     JObj [(''branch'', json_opt JStr (gw_branch w)), (''head_oid'', json_opt JStr (gw_head_oid w)),
           (''id'', json_uuid x (gw_id w)), (''path'', JStr (gw_path w)),
           (''session_id'', json_opt (json_uuid x) (gw_session_id w)), (''status'', JStr (gw_status w))]"

definition stored_worktree_json :: "externals \<Rightarrow> git_worktree \<Rightarrow> json" where
  "stored_worktree_json x w =
     JObj [(''branch'', json_opt JStr (gw_branch w)), (''created_at'', json_int (gw_created_at w)),
           (''head_oid'', json_opt JStr (gw_head_oid w)), (''id'', json_uuid x (gw_id w)),
           (''path'', JStr (gw_path w)), (''removed_at'', json_opt json_int (gw_removed_at w)),
           (''session_id'', json_opt (json_uuid x) (gw_session_id w)), (''status'', JStr (gw_status w))]"

definition git_answer ::
    "externals \<Rightarrow> nat \<Rightarrow> ('a \<Rightarrow> json) \<Rightarrow> (git_error, 'a) outcome \<times> 's \<Rightarrow> response \<times> 's" where
  "git_answer x i f q =
     (case q of (Inl e, s) \<Rightarrow> (git_fail x i e, s) | (Inr a, s) \<Rightarrow> (RespOk i (f a), s))"

definition worktree_answer ::
    "externals \<Rightarrow> nat \<Rightarrow> ('a \<Rightarrow> json) \<Rightarrow> (worktree_error, 'a) outcome \<times> 's \<Rightarrow> response \<times> 's" where
  "worktree_answer x i f q =
     (case q of (Inl e, s) \<Rightarrow> (worktree_fail x i e, s) | (Inr a, s) \<Rightarrow> (RespOk i (f a), s))"

definition empty_answer :: "unit \<Rightarrow> json" where "empty_answer u = JObj []"

definition strings_json :: "string list \<Rightarrow> json" where
  "strings_json ss = JArr (map JStr ss)"

subsection \<open>Checkpoints before a change\<close>

definition turn_param :: "externals \<Rightarrow> json \<Rightarrow> uuid option" where
  "turn_param x params = Option.bind (json_get_str ''turnId'' params) (uuid_parse_ok x)"

definition hook_git_mutation ::
    "externals \<Rightarrow> 'r host \<Rightarrow> call \<Rightarrow> string \<Rightarrow> json \<Rightarrow> 'r core \<Rightarrow> 'r core" where
  "hook_git_mutation x h cl repo params s =
     (case before_git_operation h cl repo (turn_param x params) s of
        (Inl e, s1) \<Rightarrow> s1
      | (Inr c, s1) \<Rightarrow>
          emit_event_to (cl_now cl) (cl_fresh cl 2) ''checkpoint.created''
            (JObj [(''checkpointId'', json_uuid x (gc_id c)), (''kind'', JStr (gc_kind c)),
                   (''turnId'', json_opt (json_uuid x) (gc_turn_id c))]) s1)"

definition hook_file_write_begin ::
    "externals \<Rightarrow> 'r host \<Rightarrow> call \<Rightarrow> string \<Rightarrow> string \<Rightarrow> json \<Rightarrow> 'r core
      \<Rightarrow> file_write_checkpoint option \<times> 'r core" where
  "hook_file_write_begin x h cl root path params s =
     (case begin_file_write h cl root path (turn_param x params) s of
        (Inl e, s1) \<Rightarrow> (None, s1) | (Inr w, s1) \<Rightarrow> (Some w, s1))"

definition hook_file_write_finish ::
    "externals \<Rightarrow> 'r host \<Rightarrow> call \<Rightarrow> string \<Rightarrow> file_write_checkpoint \<Rightarrow> 'r core \<Rightarrow> 'r core" where
  "hook_file_write_finish x h cl root w s =
     (case finish_file_write h cl root w s of
        (Inl e, s1) \<Rightarrow> s1
      | (Inr c, s1) \<Rightarrow>
          emit_event_to (cl_now cl) (cl_fresh cl 3) ''checkpoint.created''
            (JObj [(''checkpointId'', json_uuid x (fw_checkpoint_id w)), (''kind'', JStr ''pre-file-write''),
                   (''path'', JStr (fc_path c)), (''turnId'', json_opt (json_uuid x) (fc_turn_id c))]) s1)"

subsection \<open>The scan of a commit\<close>

text \<open>\<open>scan_staged\<close> runs git itself, without a limit on what it prints.\<close>

datatype staged_scan_error = ScanLaunch string | ScanGit string

definition STAGED_DIFF :: "string list" where
  "STAGED_DIFF = [''diff'', ''--cached'', ''--no-color'', ''--unified=0'']"

definition scan_staged_in ::
    "externals \<Rightarrow> 'r host \<Rightarrow> string \<Rightarrow> 'r core
      \<Rightarrow> (staged_scan_error, secret_finding list) outcome \<times> 'r core" where
  "scan_staged_in x h repo s =
     (let (result, w) = gi_run (ho_git h repo) STAGED_DIFF None (sv_rest s)
      in (case result of
            Inl f \<Rightarrow> Inl (ScanLaunch (failure_text f))
          | Inr out \<Rightarrow>
              if go_code out = Some 0 then Inr (scan_staged x (str_lines (utf8_lossy (go_stdout out))))
              else Inl (ScanGit (trim (utf8_lossy (go_stderr out)))),
          s\<lparr>sv_rest := w\<rparr>))"

fun staged_scan_text :: "staged_scan_error \<Rightarrow> string" where
  "staged_scan_text (ScanLaunch e) = ''failed to run git diff --cached: '' @ e"
| "staged_scan_text (ScanGit e) = ''git diff --cached failed: '' @ e"

definition ensure_staged_changes_safe ::
    "externals \<Rightarrow> 'r host \<Rightarrow> string \<Rightarrow> 'r core \<Rightarrow> (core_error, unit) outcome \<times> 'r core" where
  "ensure_staged_changes_safe x h repo s =
     (case scan_staged_in x h repo s of
        (Inl e, s1) \<Rightarrow>
          (Inl (with_suggested_fix ''Confirm this is a Git repository and retry the commit.''
             (core_error_new x CodeIo SourceSystem ''Retcon could not inspect the staged Git changes.''
                (staged_scan_text e))), s1)
      | (Inr fs, s1) \<Rightarrow>
          if scan_is_clean fs then (Inr (), s1)
          else (Inl (with_suggested_fix
             ''Remove the secret from the staged changes, rotate it if necessary, and retry.''
             (core_error_new x CodePermissionDenied SourceRpc
                ''Retcon blocked the commit because staged changes may contain secrets.''
                (''staged secret scan blocked commit: '' @ scan_summary fs))), s1))"

subsection \<open>The git handler\<close>

text \<open>The methods that change nothing.\<close>

definition git_query ::
    "externals \<Rightarrow> 'r host \<Rightarrow> string \<Rightarrow> request \<Rightarrow> 'r core \<Rightarrow> (response \<times> 'r core) option" where
  "git_query x h repo r s =
     (let m = rq_method r; i = rq_id r; g = ho_git h repo
      in if m = ''git.status'' then Some (git_answer x i status_json (in_repo (git_status g) s))
         else if m = ''git.defaultBranch''
         then Some (git_answer x i (\<lambda>b. JObj [(''branch'', JStr b)]) (in_repo (default_branch g) s))
         else if m = ''git.branchList''
         then Some (git_answer x i (\<lambda>bs. JObj [(''branches'', strings_json bs)]) (in_repo (branch_list g) s))
         else if m = ''git.conflicts''
         then Some (git_answer x i (\<lambda>ps. JObj [(''paths'', strings_json ps)]) (in_repo (git_conflicts g) s))
         else if m = ''git.submodules''
         then Some (git_answer x i (\<lambda>ps. JObj [(''paths'', strings_json ps)]) (in_repo (submodules g) s))
         else if m = ''git.diff''
         then (let mode = parse_diff_mode r
               in Some (git_answer x i (\<lambda>d. JObj [(''diff'', JStr d), (''mode'', JStr (diff_mode_label mode))])
                    (in_repo (git_diff g (param_str ''path'' r) mode) s)))
         else if m = ''git.worktreeList''
         then Some (git_answer x i (\<lambda>ws. JArr (map listed_worktree_json ws)) (in_repo (worktree_list g) s))
         else if m = ''git.worktreeListStored''
         then Some (worktree_answer x i (\<lambda>ws. JObj [(''worktrees'', JArr (map (stored_worktree_json x) ws))])
             (manager_list_stored h repo s, s))
         else None)"

text \<open>A method that changes the repository; the state is the one after its checkpoint.\<close>

definition with_param ::
    "externals \<Rightarrow> string \<Rightarrow> request \<Rightarrow> (string \<Rightarrow> 's \<Rightarrow> response \<times> 's) \<Rightarrow> 's \<Rightarrow> response \<times> 's" where
  "with_param x key r f s = (case str_param x key r of Inl e \<Rightarrow> (e, s) | Inr v \<Rightarrow> f v s)"

definition git_worktree_add_rpc ::
    "externals \<Rightarrow> 'r host \<Rightarrow> call \<Rightarrow> string \<Rightarrow> request \<Rightarrow> 'r core \<Rightarrow> response \<times> 'r core" where
  "git_worktree_add_rpc x h cl repo r =
     with_param x ''path'' r (\<lambda>path. with_param x ''branch'' r (\<lambda>branch s.
       case parse_session_id x r of
         Inl e \<Rightarrow> (e, s)
       | Inr session_id \<Rightarrow>
           worktree_answer x (rq_id r) (stored_worktree_response x) (manager_add h cl repo path branch session_id s)))"

definition git_change ::
    "externals \<Rightarrow> 'r host \<Rightarrow> call \<Rightarrow> string \<Rightarrow> request
      \<Rightarrow> ('r core \<Rightarrow> response \<times> 'r core) option" where
  "git_change x h cl repo r =
     (let m = rq_method r; i = rq_id r; g = ho_git h repo
      in if m = ''git.branchCreate''
         then Some (with_param x ''branch'' r (\<lambda>b s. git_answer x i empty_answer (in_repo (branch_create g b) s)))
         else if m = ''git.branchDelete''
         then Some (with_param x ''branch'' r (\<lambda>b s.
           git_answer x i empty_answer (in_repo (branch_delete g b (param_bool ''force'' r)) s)))
         else if m = ''git.checkout''
         then Some (with_param x ''branch'' r (\<lambda>b s. git_answer x i empty_answer (in_repo (git_checkout g b) s)))
         else if m = ''git.stage''
         then Some (\<lambda>s. git_answer x i empty_answer (in_repo (git_stage g (param_str ''path'' r)) s))
         else if m = ''git.unstage''
         then Some (\<lambda>s. git_answer x i empty_answer (in_repo (git_unstage g (param_str ''path'' r)) s))
         else if m = ''git.stageHunk''
         then Some (with_param x ''patch'' r (\<lambda>p s. git_answer x i empty_answer (in_repo (stage_hunk g p) s)))
         else if m = ''git.discardHunk''
         then Some (with_param x ''patch'' r (\<lambda>p s. git_answer x i empty_answer (in_repo (discard_hunk g p) s)))
         else if m = ''git.push''
         then Some (\<lambda>s. git_answer x i empty_answer (in_repo
           (git_push g (case param_str ''remote'' r of Some v \<Rightarrow> v | None \<Rightarrow> ''origin'')
              (param_str ''branch'' r) (param_bool ''force'' r)) s))
         else if m = ''git.worktreeAdd'' then Some (git_worktree_add_rpc x h cl repo r)
         else if m = ''git.worktreeRemove''
         then Some (with_param x ''path'' r (\<lambda>p s.
           worktree_answer x i (\<lambda>b. JObj [(''removed'', JBool b)]) (manager_remove h cl repo p s)))
         else None)"

definition git_commit_rpc ::
    "externals \<Rightarrow> 'r host \<Rightarrow> call \<Rightarrow> string \<Rightarrow> request \<Rightarrow> 'r core \<Rightarrow> response \<times> 'r core" where
  "git_commit_rpc x h cl repo r =
     with_param x ''message'' r (\<lambda>message s.
       case ensure_staged_changes_safe x h repo s of
         (Inl e, s1) \<Rightarrow> (failed (rq_id r) e, s1)
       | (Inr u, s1) \<Rightarrow>
           git_answer x (rq_id r) (\<lambda>oid. JObj [(''oid'', JStr oid)])
             (in_repo (git_commit (ho_git h repo) message (param_bool ''allowEmpty'' r))
                (hook_git_mutation x h cl repo (rq_params r) s1)))"

definition git_worktree_assign_rpc ::
    "externals \<Rightarrow> 'r host \<Rightarrow> request \<Rightarrow> 'r core \<Rightarrow> response \<times> 'r core" where
  "git_worktree_assign_rpc x h r =
     with_param x ''path'' r (\<lambda>path s.
       case param_str ''sessionId'' r of
         None \<Rightarrow> (invalid x (rq_id r) ''Assigning a worktree needs a session ID.''
           (missing ''sessionId'' @ '' parameter''), s)
       | Some raw \<Rightarrow>
           (case uuid_parse x raw of
              Inl e \<Rightarrow> (invalid x (rq_id r) ''The session ID is invalid.'' e, s)
            | Inr session_id \<Rightarrow>
                worktree_answer x (rq_id r) (stored_worktree_response x)
                  (manager_assign_session h path session_id s)))"

definition git_handle ::
    "externals \<Rightarrow> 'r host \<Rightarrow> call \<Rightarrow> request \<Rightarrow> 'r core \<Rightarrow> response \<times> 'r core" where
  "git_handle x h cl r s =
     (case repo_param x r of
        Inl e \<Rightarrow> (e, s)
      | Inr repo \<Rightarrow>
          (case git_query x h repo r s of
             Some a \<Rightarrow> a
           | None \<Rightarrow>
               if rq_method r = ''git.commit'' then git_commit_rpc x h cl repo r s
               else if rq_method r = ''git.worktreeAssign'' then git_worktree_assign_rpc x h r s
               else case git_change x h (later 3 cl) repo r of
                 Some change \<Rightarrow> change (hook_git_mutation x h cl repo (rq_params r) s)
               | None \<Rightarrow> (not_found x (rq_id r) ''The requested Git operation is not available.''
                   (''unknown RPC method: '' @ rq_method r), s)))"

subsection \<open>The checkpoint handler\<close>

definition checkpoint_failure :: "externals \<Rightarrow> 'r host \<Rightarrow> checkpoint_error \<Rightarrow> core_error" where
  "checkpoint_failure x h e =
     (case e of
        CpUnknownRepository path \<Rightarrow>
          core_error_new x CodeNotFound SourceRpc ''Retcon does not have a project registered at that path.''
            (''unknown repository: '' @ path)
      | CpNotFound i \<Rightarrow>
          core_error_new x CodeNotFound SourceRpc ''Retcon could not find that checkpoint.''
            (''checkpoint not found: '' @ i)
      | CpOutsideRoot path \<Rightarrow>
          core_error_new x CodePermissionDenied SourceRpc ''That path is outside the open project.''
            (''path outside root: '' @ path)
      | CpConflicts paths \<Rightarrow>
          with_suggested_fix (''Review the rollback preview and restore only the paths you intend to revert, ''
              @ ''or pass force=true after confirming.'')
            (core_error_new x CodeInvalidRequest SourceRpc ''Rollback would overwrite unrelated edits.''
               (''rollback conflicts: '' @ paths))
      | CpInvalidRequest message \<Rightarrow>
          core_error_new x CodeInvalidRequest SourceRpc ''The checkpoint request is invalid.'' message
      | CpIo os \<Rightarrow> core_error_io x ''checkpoint filesystem operation'' (ho_io_text h os)
      | CpStorage err \<Rightarrow>
          core_error_new x CodeInternal SourceRpc ''Retcon could not access checkpoint storage.''
            (storage_error_text x err)
      | CpGit g \<Rightarrow>
          core_error_new x CodeIo SourceRpc ''Retcon could not capture Git state for the checkpoint.''
            (git_error_text exit_code_text g))"

definition root_param :: "externals \<Rightarrow> request \<Rightarrow> (response, string) outcome" where
  "root_param x r =
     (case Option.bind (case json_get ''root'' (rq_params r) of
            Some v \<Rightarrow> Some v | None \<Rightarrow> json_get ''repo'' (rq_params r)) json_as_str of
        Some v \<Rightarrow> Inr v
      | None \<Rightarrow> Inl (invalid x (rq_id r) ''The checkpoint request is missing a project root.''
          (missing ''root'' @ '' or '' @ apostrophed ''repo'' @ '' parameter'')))"

definition checkpoint_uuid_param :: "externals \<Rightarrow> string \<Rightarrow> request \<Rightarrow> (response, uuid option) outcome" where
  "checkpoint_uuid_param x key r =
     (case param_str key r of
        None \<Rightarrow> Inr None
      | Some raw \<Rightarrow>
          (case uuid_parse x raw of
             Inr u \<Rightarrow> Inr (Some u)
           | Inl e \<Rightarrow> Inl (invalid x (rq_id r) ''A checkpoint identifier is invalid.''
               (''invalid '' @ key @ '': '' @ e))))"

definition checkpoint_to_json :: "externals \<Rightarrow> git_checkpoint \<Rightarrow> json" where
  "checkpoint_to_json x c =
     JObj [(''baseOid'', json_opt JStr (gc_base_oid c)), (''createdAt'', json_int (gc_created_at c)),
           (''gitWorktreeId'', json_uuid x (gc_worktree_id c)), (''id'', json_uuid x (gc_id c)),
           (''kind'', JStr (gc_kind c)), (''patchArtifactHash'', json_opt JStr (gc_patch_artifact_hash c)),
           (''turnId'', json_opt (json_uuid x) (gc_turn_id c))]"

definition file_change_to_json :: "externals \<Rightarrow> file_change \<Rightarrow> json" where
  "file_change_to_json x c =
     JObj [(''afterArtifactHash'', json_opt JStr (fc_after_hash c)),
           (''beforeArtifactHash'', json_opt JStr (fc_before_hash c)),
           (''changeKind'', JStr (fc_change_kind c)), (''createdAt'', json_int (fc_created_at c)),
           (''gitCheckpointId'', json_opt (json_uuid x) (fc_checkpoint_id c)),
           (''id'', json_uuid x (fc_id c)), (''path'', JStr (fc_path c)),
           (''turnId'', json_opt (json_uuid x) (fc_turn_id c))]"

definition checkpoint_answer ::
    "externals \<Rightarrow> 'r host \<Rightarrow> nat \<Rightarrow> ('a \<Rightarrow> json) \<Rightarrow> (checkpoint_error, 'a) outcome \<times> 's
      \<Rightarrow> response \<times> 's" where
  "checkpoint_answer x h i f q =
     (case q of (Inl e, s) \<Rightarrow> (failed i (checkpoint_failure x h e), s) | (Inr a, s) \<Rightarrow> (RespOk i (f a), s))"

definition checkpoint_create_rpc ::
    "externals \<Rightarrow> 'r host \<Rightarrow> call \<Rightarrow> request \<Rightarrow> 'r core \<Rightarrow> response \<times> 'r core" where
  "checkpoint_create_rpc x h cl r s =
     (case root_param x r of
        Inl e \<Rightarrow> (e, s)
      | Inr root \<Rightarrow>
          (case checkpoint_uuid_param x ''turnId'' r of
             Inl e \<Rightarrow> (e, s)
           | Inr turn_id \<Rightarrow>
               (let i = rq_id r; f = checkpoint_to_json x
                in case (case Option.bind (param_str ''kind'' r) kind_parse of
                           Some k \<Rightarrow> k | None \<Rightarrow> Manual) of
                     TurnStart \<Rightarrow>
                       (case turn_id of
                          None \<Rightarrow> (invalid x i ''Turn-start checkpoints require a turn ID.''
                            (missing ''turnId'' @ '' parameter''), s)
                        | Some turn \<Rightarrow> checkpoint_answer x h i f (create_turn_start h cl root turn s))
                   | Manual \<Rightarrow> checkpoint_answer x h i f (create_manual h cl root turn_id s)
                   | PreGit \<Rightarrow> checkpoint_answer x h i f (before_git_operation h cl root turn_id s)
                   | k \<Rightarrow> (invalid x i ''That checkpoint kind cannot be created directly.''
                       (''unsupported checkpoint kind: '' @ kind_as_str k), s))))"

definition checkpoint_list_rpc ::
    "externals \<Rightarrow> 'r host \<Rightarrow> call \<Rightarrow> request \<Rightarrow> 'r core \<Rightarrow> response \<times> 'r core" where
  "checkpoint_list_rpc x h cl r s =
     (case root_param x r of
        Inl e \<Rightarrow> (e, s)
      | Inr root \<Rightarrow>
          (let f = (\<lambda>cs. JObj [(''checkpoints'', JArr (map (checkpoint_to_json x) cs))])
           in case checkpoint_uuid_param x ''turnId'' r of
                Inl e \<Rightarrow> (e, s)
              | Inr (Some turn) \<Rightarrow> (RespOk (rq_id r) (f (checkpoints_for_turn turn s)), s)
              | Inr None \<Rightarrow>
                  checkpoint_answer x h (rq_id r) f (list_for_root h cl root (param_u64 ''limit'' 50 r) s)))"

text \<open>The identifier that the last three methods need.\<close>

definition checkpoint_id_param :: "externals \<Rightarrow> string \<Rightarrow> request \<Rightarrow> (response, uuid) outcome" where
  "checkpoint_id_param x user r =
     (case checkpoint_uuid_param x ''checkpointId'' r of
        Inl e \<Rightarrow> Inl e
      | Inr (Some i) \<Rightarrow> Inr i
      | Inr None \<Rightarrow> Inl (invalid x (rq_id r) user (missing ''checkpointId'' @ '' parameter'')))"

definition checkpoint_get_rpc :: "externals \<Rightarrow> 'r host \<Rightarrow> request \<Rightarrow> 'r core \<Rightarrow> response" where
  "checkpoint_get_rpc x h r s =
     (case checkpoint_id_param x ''The checkpoint request is missing an identifier.'' r of
        Inl e \<Rightarrow> e
      | Inr i \<Rightarrow>
          (case checkpoints_get i s of
             None \<Rightarrow> failed (rq_id r) (checkpoint_failure x h (CpNotFound (uuid_text x i)))
           | Some c \<Rightarrow> RespOk (rq_id r) (JObj
               [(''checkpoint'', checkpoint_to_json x c),
                (''fileChanges'', JArr (map (file_change_to_json x) (changes_for_checkpoint i s)))])))"

fun rollback_action_str :: "rollback_action \<Rightarrow> string" where
  "rollback_action_str Delete = ''delete''"
| "rollback_action_str Restore = ''restore''"
| "rollback_action_str Skip = ''skip''"

definition rollback_item_json :: "rollback_item \<Rightarrow> json" where
  "rollback_item_json i =
     JObj [(''action'', JStr (rollback_action_str (ri_action i))),
           (''afterArtifactHash'', json_opt JStr (ri_after_hash i)),
           (''beforeArtifactHash'', json_opt JStr (ri_before_hash i)),
           (''changeKind'', JStr (ri_change_kind i)), (''conflict'', JBool (ri_conflict i)),
           (''path'', JStr (ri_path i))]"

definition checkpoint_preview_rpc :: "externals \<Rightarrow> 'r host \<Rightarrow> request \<Rightarrow> 'r core \<Rightarrow> response" where
  "checkpoint_preview_rpc x h r s =
     (case root_param x r of
        Inl e \<Rightarrow> e
      | Inr root \<Rightarrow>
          (case checkpoint_id_param x ''Rollback preview needs a checkpoint identifier.'' r of
             Inl e \<Rightarrow> e
           | Inr i \<Rightarrow> fst (checkpoint_answer x h (rq_id r) (\<lambda>(c, items). JObj
               [(''checkpointId'', json_uuid x (gc_id c)), (''items'', JArr (map rollback_item_json items)),
                (''kind'', JStr (gc_kind c))]) (preview_rollback x h root i s, s))))"

definition checkpoint_restore_rpc ::
    "externals \<Rightarrow> 'r host \<Rightarrow> request \<Rightarrow> 'r core \<Rightarrow> response \<times> 'r core" where
  "checkpoint_restore_rpc x h r s =
     (case root_param x r of
        Inl e \<Rightarrow> (e, s)
      | Inr root \<Rightarrow>
          (case checkpoint_id_param x ''Restore needs a checkpoint identifier.'' r of
             Inl e \<Rightarrow> (e, s)
           | Inr i \<Rightarrow>
               let paths = (case json_get_array ''paths'' (rq_params r) of
                              None \<Rightarrow> [] | Some vs \<Rightarrow> List.map_filter json_as_str vs)
               in if paths = []
                  then (invalid x (rq_id r) ''Restore needs at least one file path.''
                    (missing ''paths'' @ '' parameter''), s)
                  else checkpoint_answer x h (rq_id r) (\<lambda>p. JObj
                    [(''checkpointId'', json_uuid x i), (''conflicts'', strings_json (rp_conflicts p)),
                     (''restored'', strings_json (rp_restored p)), (''skipped'', strings_json (rp_skipped p))])
                    (restore_selective x h root i paths (param_bool ''force'' r) s)))"

definition checkpoints_handle ::
    "externals \<Rightarrow> 'r host \<Rightarrow> call \<Rightarrow> request \<Rightarrow> 'r core \<Rightarrow> response \<times> 'r core" where
  "checkpoints_handle x h cl r s =
     (let m = rq_method r
      in if m = ''checkpoint.create'' then checkpoint_create_rpc x h cl r s
         else if m = ''checkpoint.list'' then checkpoint_list_rpc x h cl r s
         else if m = ''checkpoint.get'' then (checkpoint_get_rpc x h r s, s)
         else if m = ''checkpoint.preview'' then (checkpoint_preview_rpc x h r s, s)
         else if m = ''checkpoint.restore'' then checkpoint_restore_rpc x h r s
         else (not_found x (rq_id r) ''The requested checkpoint operation is not available.''
                 (''unknown checkpoint RPC method: '' @ m), s))"

end
