(* ===== verification/CheckpointFacts.thy ===== *)
theory CheckpointFacts
  imports Checkpoints ConnectionOrder
begin

text \<open>
  What checkpoints promise: a file write is undone by restoring its checkpoint. And what they do not:
  the directory a checkpoint is restored into is not compared with the one it was taken of, what is no
  regular file is no conflict, and a dangling link leads out of the root.
\<close>

subsection \<open>Paths without links\<close>

abbreviation path_nul :: "path \<Rightarrow> bool" where
  "path_nul \<equiv> FileTree.has_nul"

lemma nul_names [simp]: "list_ex component_nul (map Normal p) = path_nul p"
  by (induction p) (simp_all add: FileTree.has_nul_def)












subsection \<open>A file below the root\<close>






subsection \<open>Undoing a file write\<close>




lemma tree_with_tree [simp]: "tree (with_tree t s) = t"
  by (simp add: tree_def with_tree_def)

lemma with_tree_fields [simp]:
  "sv_checkpoints (with_tree t s) = sv_checkpoints s" "sv_changes (with_tree t s) = sv_changes s"
  "sv_artifacts (with_tree t s) = sv_artifacts s" "sv_worktrees (with_tree t s) = sv_worktrees s"
  "checkpoints_get i (with_tree t s) = checkpoints_get i s"
  by (simp_all add: with_tree_def checkpoints_get_def)









subsection \<open>What restoring does not look at\<close>

definition elsewhere ::
    "(git_checkpoint \<Rightarrow> uuid) \<Rightarrow> git_worktree list \<Rightarrow> repository_location list \<Rightarrow> 'h server \<Rightarrow> 'h server" where
  "elsewhere f ws ls s =
     s\<lparr>sv_checkpoints := map (\<lambda>c. c\<lparr>gc_worktree_id := f c\<rparr>) (sv_checkpoints s), sv_worktrees := ws,
       sv_locations := ls\<rparr>"

lemma elsewhere_fields [simp]:
  "tree (elsewhere f ws ls s) = tree s" "sv_artifacts (elsewhere f ws ls s) = sv_artifacts s"
  "sv_changes (elsewhere f ws ls s) = sv_changes s"
  "with_tree t (elsewhere f ws ls s) = elsewhere f ws ls (with_tree t s)"
  by (simp_all add: elsewhere_def tree_def with_tree_def)

lemma checkpoints_get_elsewhere:
  "checkpoints_get i (elsewhere f ws ls s) = map_option (\<lambda>c. c\<lparr>gc_worktree_id := f c\<rparr>) (checkpoints_get i s)"
proof -
  have "find (\<lambda>c. gc_id c = i) (map (\<lambda>c. c\<lparr>gc_worktree_id := f c\<rparr>) cs)
      = map_option (\<lambda>c. c\<lparr>gc_worktree_id := f c\<rparr>) (find (\<lambda>c. gc_id c = i) cs)" for cs
    by (induction cs) simp_all
  then show ?thesis by (simp add: checkpoints_get_def elsewhere_def)
qed

lemma restore_item_elsewhere:
  "restore_item h root i (elsewhere f ws ls s)
     = (let (r, s1) = restore_item h root i s in (r, elsewhere f ws ls s1))"
proof -
  have "read_artifact h hash (elsewhere f ws ls s) = read_artifact h hash s" for hash
    by (simp add: read_artifact_def)
  then show ?thesis
    by (cases "checkpoint_path h (tree s) root (ri_path i)"; cases "ri_action i"; cases "ri_before_hash i")
      (simp_all add: restore_item_def Let_def split: sum.split prod.split)
qed

lemma restore_items_elsewhere:
  "restore_items h root is (elsewhere f ws ls s)
     = (let (r, s1) = restore_items h root is s in (r, elsewhere f ws ls s1))"
proof (induction "is" arbitrary: s)
  case (Cons i "is")
  obtain r s1 where "restore_item h root i s = (r, s1)" by fastforce
  then show ?case
    using Cons.IH [of s1] by (cases r) (auto simp: restore_item_elsewhere split: sum.splits prod.splits)
qed simp

text \<open>Restoring does not look at whose checkpoint it is: whatever worktree the checkpoint was taken of, and
  whether the directory is one of the project's at all, the result and the files are the same. So the
  files of one project can be restored into another.
\<close>

lemma restoring_ignores_the_worktree:
  "let (r, s1) = restore_selective x h root i paths force s;
       (r', s1') = restore_selective x h root i paths force (elsewhere f ws ls s)
   in r' = r \<and> tree s1' = tree s1"
proof -
  have p: "preview_rollback x h root i (elsewhere f ws ls s)
      = map_outcome (\<lambda>(c, is). (c\<lparr>gc_worktree_id := f c\<rparr>, is)) (preview_rollback x h root i s)"
    by (cases "preview_items h root (tree s) (changes_for_checkpoint i s)")
      (simp_all add: preview_rollback_def checkpoints_get_elsewhere changes_for_checkpoint_def split: option.split)
  show ?thesis
  proof (cases "preview_rollback x h root i s")
    case (Inl e)
    then show ?thesis using p by (simp add: restore_selective_def)
  next
    case (Inr ci)
    obtain c items where ci: "ci = (c, items)" by fastforce
    show ?thesis
      using p Inr ci
      by (auto simp: restore_selective_def Let_def restore_items_elsewhere split: prod.splits sum.splits)
  qed
qed

text \<open>A project with one file that is changed; a digest that tells the old bytes from all others.\<close>

definition sample_host :: "unit host" where
  "sample_host = \<lparr>ho_git = (\<lambda>d. \<lparr>gi_run = (\<lambda>a i w. (Inl (NotLaunched []), w)), gi_has_modules = (\<lambda>w. False)\<rparr>),
     ho_cwd = [], ho_sha = (\<lambda>b. replicate 64 (if b = ''old'' then CHR ''0'' else CHR ''1'')), ho_artifacts = ''/a'', ho_io_text = (\<lambda>e. [])\<rparr>"

definition project_at :: "file_tree \<Rightarrow> unit core \<Rightarrow> unit core" where
  "project_at t s = s\<lparr>sv_locations := [\<lparr>rl_id = 1, rl_project_id = 1, rl_path = ''/p''\<rparr>],
     sv_worktrees := [\<lparr>gw_id = 2, gw_session_id = None, gw_location_id = 1, gw_path = ''/p'', gw_branch = None,
       gw_head_oid = None, gw_status = ''active'', gw_created_at = 1, gw_removed_at = None\<rparr>],
     sv_checkpoints := [], sv_changes := [], sv_artifacts := [], sv_rest := (t, ())\<rparr>"


lemma sample_paths:
  "components ''n'' = [Normal ''n'']" "components ''/p'' = [Normal ''p'']" "\<not> is_absolute ''n''" "is_absolute ''/p''"
  by (simp_all add: components_def component_of_def List.map_filter_def is_absolute_def starts_with_def)






lemma project_fields [simp]:
  "tree (project_at t s) = t" "sv_changes (project_at t s) = []" "sv_checkpoints (project_at t s) = []"
  "sv_artifacts (project_at t s) = []" "worktrees_get 2 (project_at t s) \<noteq> None"
  "worktrees_get 2 (project_at t s\<lparr>sv_artifacts := a\<rparr>) \<noteq> None" "tree (project_at t s\<lparr>sv_artifacts := a\<rparr>) = t"
  by (simp_all add: project_at_def tree_def worktrees_get_def)






subsection \<open>What stands at the path now\<close>

text \<open>The same project after a write was recorded, with other things at the place of the file.\<close>

definition recorded_at :: "file_tree \<Rightarrow> string option \<Rightarrow> unit core \<Rightarrow> unit core" where
  "recorded_at t before s = (project_at t s)\<lparr>
     sv_checkpoints := [\<lparr>gc_id = 0, gc_worktree_id = 2, gc_turn_id = None, gc_kind = kind_as_str PreFileWrite,
       gc_base_oid = None, gc_patch_artifact_hash = None, gc_created_at = 1\<rparr>],
     sv_changes := [\<lparr>fc_id = 0, fc_turn_id = None, fc_checkpoint_id = Some 0, fc_path = ''n'',
       fc_change_kind = change_kind_of before (Some (ho_sha sample_host ''new'')), fc_before_hash = before,
       fc_after_hash = Some (ho_sha sample_host ''new''), fc_created_at = 1\<rparr>],
     sv_artifacts := [(ho_sha sample_host ''old'', ''old''), (ho_sha sample_host ''new'', ''new'')]\<rparr>"

lemma recorded_fields [simp]:
  "tree (recorded_at t b s) = t" "checkpoints_get 0 (recorded_at t b s) \<noteq> None"
  "map_of (sv_artifacts (recorded_at t b s)) (ho_sha sample_host ''old'') = Some ''old''"
  "tree (with_tree t' (recorded_at t b s)) = t'"
  by (simp_all add: recorded_at_def project_at_def tree_def with_tree_def checkpoints_get_def)

lemma recorded_change:
  "\<exists>k. changes_for_checkpoint 0 (recorded_at t b s) = [\<lparr>fc_id = 0, fc_turn_id = None, fc_checkpoint_id = Some 0,
     fc_path = ''n'', fc_change_kind = k, fc_before_hash = b, fc_after_hash = Some (ho_sha sample_host ''new''),
     fc_created_at = 1\<rparr>]"
  by (simp add: changes_for_checkpoint_def recorded_at_def)





text \<open>A directory in the place of a created file is removed with all that is in it.\<close>

definition taken_by_directory :: file_tree where
  "taken_by_directory = [([''p''], Directory), ([''p'', ''n''], Directory), ([''p'', ''n'', ''k''], File ''kept'')]"

lemma directories_are_removed:
  "\<forall>s. node_at taken_by_directory [''p'', ''n'', ''k''] = Some (File ''kept'')
     \<and> (\<exists>report s1. restore_selective sample_externals sample_host ''/p'' 0 [''n''] False
          (recorded_at taken_by_directory None s) = (Inr report, s1)
        \<and> node_at (tree s1) [''p'', ''n'', ''k''] = None)"
proof
  fix s :: "unit core"
  let ?s = "recorded_at taken_by_directory None s"
  obtain k where k: "changes_for_checkpoint 0 ?s = [\<lparr>fc_id = 0, fc_turn_id = None, fc_checkpoint_id = Some 0,
     fc_path = ''n'', fc_change_kind = k, fc_before_hash = None,
     fc_after_hash = Some (ho_sha sample_host ''new''), fc_created_at = 1\<rparr>]"
    using recorded_change by blast
  obtain c where c: "checkpoints_get 0 ?s = Some c" using recorded_fields(2) by blast
  have r: "resolve taken_by_directory [Normal ''p''] = Inr [''p'']"
    "resolve taken_by_directory [Normal ''p'', Normal ''n''] = Inr [''p'', ''n'']"
    by (simp_all add: resolve_def taken_by_directory_def node_at_def MAX_LINKS_def)
  have w: "walk_text [] taken_by_directory ''/p'' = Inr [''p'']"
    using r(1) by (simp add: walk_text_def sample_paths resolve_def)
  have cp: "checkpoint_path sample_host taken_by_directory ''/p'' ''n'' = Inr [Normal ''p'', Normal ''n'']"
    using w r by (simp add: checkpoint_path_def sample_paths sample_host_def joined_components_def Let_def
        numeral_2_eq_2 FileTree.below_def)
  have d: "node_at taken_by_directory [''p'', ''n''] = Some Directory"
    by (simp add: taken_by_directory_def node_at_def)
  have pv: "preview_rollback sample_externals sample_host ''/p'' 0 ?s = Inr (c, [\<lparr>ri_path = ''n'', ri_change_kind = k,
      ri_action = Delete, ri_conflict = False, ri_before_hash = None,
      ri_after_hash = Some (ho_sha sample_host ''new'')\<rparr>])"
    by (simp add: preview_rollback_def c k preview_item_def cp rollback_action_of_def edited_since_def
        file_bytes_def node_of_def r d)
  show "node_at taken_by_directory [''p'', ''n'', ''k''] = Some (File ''kept'')
     \<and> (\<exists>report s1. restore_selective sample_externals sample_host ''/p'' 0 [''n''] False ?s = (Inr report, s1)
        \<and> node_at (tree s1) [''p'', ''n'', ''k''] = None)"
    by (simp add: restore_selective_def pv restore_item_def cp r d Let_def)
      (simp add: taken_by_directory_def node_at_def remove_dir_all_def FileTree.below_def)
qed

text \<open>C38: A path stays taken after its worktree is removed: adding a worktree there again runs
  \<open>git worktree add\<close>, which succeeds, and then fails on the unique column, so that git has a worktree
  which the table does not know.
\<close>

theorem removed_worktree_paths_stay_taken:
  "case in_repo (worktree_add (ho_git h repo) path branch) s of
     (Inl e, s1) \<Rightarrow> manager_add h cl repo path branch i s = (Inl (WtGit e), s1)
   | (Inr u, s1) \<Rightarrow>
       (let p = canonical_worktree_path h (tree s1) repo path
        in if list_ex (\<lambda>w. gw_path w = p) (sv_worktrees s) \<and> worktrees_find_by_path p s = None
           then \<not> is_ok (fst (manager_add h cl repo path branch i s))
             \<and> sv_worktrees (snd (manager_add h cl repo path branch i s)) = sv_worktrees s
           else True)"
proof -
  obtain r s1 where g: "in_repo (worktree_add (ho_git h repo) path branch) s = (r, s1)" by fastforce
  then have t: "sv_worktrees s1 = sv_worktrees s" by (auto simp: in_repo_def Let_def split: prod.splits)
  let ?p = "canonical_worktree_path h (tree s1) repo path"
  show ?thesis
  proof (cases r)
    case (Inl e)
    then show ?thesis using g by (simp add: manager_add_def)
  next
    case (Inr u)
    obtain o' s2 where o: "in_repo (head_oid (ho_git h repo)) s1 = (o', s2)" by fastforce
    then have t2: "sv_worktrees s2 = sv_worktrees s"
      using t by (auto simp: in_repo_def Let_def split: prod.splits)
    have "\<not> is_ok (fst (persist_worktree h cl repo ?p (Some branch) i s1))
        \<and> sv_worktrees (snd (persist_worktree h cl repo ?p (Some branch) i s1)) = sv_worktrees s"
      if taken: "list_ex (\<lambda>w. gw_path w = ?p) (sv_worktrees s)" and none: "worktrees_find_by_path ?p s = None"
    proof -
      have free: "worktrees_find_by_path ?p s2 = None" using none t2 by (simp add: worktrees_find_by_path_def)
      have refused: "s3 = s2 \<and> \<not> is_ok made" if "worktrees_create now n s2 = (made, s3)" "nt_path n = ?p" for now n made s3
        using taken that t2 by (auto simp: worktrees_create_def list_ex_iff Let_def split: if_splits)
      show ?thesis
      proof (cases "location_id h repo s1")
        case (Inl e)
        then show ?thesis using t by (simp add: persist_worktree_def)
      next
        case (Inr l)
        define n where "n = (new_git_worktree_new (cl_fresh cl 0) l ?p)\<lparr>nt_session_id := i, nt_branch := Some branch,
            nt_head_oid := (case o' of Inr x \<Rightarrow> Some x | Inl e \<Rightarrow> None)\<rparr>"
        obtain made s3 where made: "worktrees_create (cl_now cl) n s2 = (made, s3)" by fastforce
        moreover have "nt_path n = ?p" by (simp add: n_def new_git_worktree_new_def)
        ultimately have "s3 = s2" "\<not> is_ok made" using refused by blast+
        then show ?thesis
          using made Inr o free t2 by (cases made) (simp_all add: persist_worktree_def n_def)
      qed
    qed
    then show ?thesis using g Inr by (simp add: manager_add_def Let_def)
  qed
qed

end
