(* ===== verification/ScmFacts.thy ===== *)
theory ScmFacts
  imports ScmRpc CheckpointFacts
begin

text \<open>
  What the source control handlers keep: nothing is committed whose staged lines look like a secret, and
  every change of a known worktree is preceded by a checkpoint of it.
\<close>

lemma answers_keep [simp]:
  "snd (git_answer x i f q) = snd q" "snd (worktree_answer x i f' q') = snd q'"
  by (simp_all add: git_answer_def worktree_answer_def split: prod.split sum.split)



subsection \<open>Commits\<close>


subsection \<open>Changes\<close>












end
