(* ===== verification/Spec2Isabelle.thy ===== *)
theory Spec2Isabelle
  imports ApprovalSafety SessionWatch EventBus Jobs VerificationFacts FilesystemFacts BrowserFacts BrowserVerificationFacts ConnectionOrder ServerFacts
    GitFacts ScmFacts

begin

text \<open>
  Retcon.
\<close>

end
